(* ===== verification/Prelude.thy ===== *)
theory Prelude
  imports Main "HOL-Library.Word"
begin

text \<open>
  Shared vocabulary of the development: fixed-width integers, the two shapes of
  \<open>for\<close> loop the sources use, pointer offsets into arrays, and the generic list and
  word lemmas every component builds on.

  Conventions. A C array is a HOL list, an array parameter that the callee writes is
  returned updated; \<open>x + j\<close> on a pointer is \<open>at_ptr\<close>. A loop counter and a size
  (\<open>u32bit\<close>) is a \<open>nat\<close> unless its wrap-around matters. Reading or writing past
  the end of an array is undefined behaviour of the source: theorems state the sizes the
  code relies on.
\<close>

unbundle bit_operations_syntax

named_theorems loop_simps \<open>unfolding equations of the loop combinators\<close>
named_theorems value_simps \<open>values of multi-precision operations\<close>
named_theorems size_simps \<open>array sizes an operation keeps\<close>

type_synonym byte = "8 word"
type_synonym u16bit = "16 word"
type_synonym u32bit = "32 word"
type_synonym u64bit = "64 word"

section \<open>Loops\<close>

text \<open>\<open>for (j = a; j != b; ++j) s = f j s\<close>, for \<open>a \<le> b\<close>.\<close>

definition for_up :: "nat \<Rightarrow> nat \<Rightarrow> (nat \<Rightarrow> 's \<Rightarrow> 's) \<Rightarrow> 's \<Rightarrow> 's" where
  "for_up a b f s = fold f [a..<b] s"

text \<open>\<open>for (j = 0; j != n; j += 8) s = f j s\<close>, for \<open>n\<close> a multiple of eight.\<close>

definition for_by8 :: "nat \<Rightarrow> (nat \<Rightarrow> 's \<Rightarrow> 's) \<Rightarrow> 's \<Rightarrow> 's" where
  "for_by8 n f s = for_up 0 (n div 8) (\<lambda>k. f (8 * k)) s"

text \<open>\<open>for (j = n; j > m; --j) s = f j s\<close>.\<close>

definition for_down :: "nat \<Rightarrow> nat \<Rightarrow> (nat \<Rightarrow> 's \<Rightarrow> 's) \<Rightarrow> 's \<Rightarrow> 's" where
  "for_down n m f s = fold f (rev [Suc m..<Suc n]) s"

lemma for_up_empty [simp, loop_simps]: "b \<le> a \<Longrightarrow> for_up a b f s = s"
  by (simp add: for_up_def)

lemma for_up_Suc [loop_simps]: "a \<le> b \<Longrightarrow> for_up a (Suc b) f s = f b (for_up a b f s)"
  by (simp add: for_up_def)

lemma for_up_split: "a \<le> b \<Longrightarrow> b \<le> c \<Longrightarrow> for_up a c f s = for_up b c f (for_up a b f s)"
  using upt_add_eq_append[of a b "c - b"] by (simp add: for_up_def)

lemma for_up_first: "a < b \<Longrightarrow> for_up a b f s = for_up (Suc a) b f (f a s)"
  by (simp add: for_up_def upt_conv_Cons)

lemma for_up_shift: "for_up (c + a) (c + b) f s = for_up a b (\<lambda>j. f (c + j)) s"
proof -
  have "[c + a..<c + b] = map (\<lambda>j. c + j) [a..<b]"
    by (induction b) auto
  then show ?thesis by (simp add: for_up_def fold_map comp_def)
qed

lemma for_up_cong:
  "(\<And>j s. a \<le> j \<Longrightarrow> j < b \<Longrightarrow> f j s = g j s) \<Longrightarrow> for_up a b f s = for_up a b g s"
  unfolding for_up_def by (rule fold_cong) auto

text \<open>The loop invariant rule.\<close>

lemma for_up_invariant:
  assumes "a \<le> b" and "I a s"
    and "\<And>j s. a \<le> j \<Longrightarrow> j < b \<Longrightarrow> I j s \<Longrightarrow> I (Suc j) (f j s)"
  shows "I b (for_up a b f s)"
  using assms
proof (induction b)
  case 0
  then show ?case by simp
next
  case (Suc b)
  show ?case
  proof (cases "a = Suc b")
    case True
    with Suc.prems show ?thesis by simp
  next
    case False
    with Suc show ?thesis by (simp add: for_up_Suc)
  qed
qed

lemma for_down_empty [simp, loop_simps]: "n \<le> m \<Longrightarrow> for_down n m f s = s"
  by (simp add: for_down_def)

lemma for_down_first [loop_simps]: "m < n \<Longrightarrow> for_down n m f s = for_down (n - 1) m f (f n s)"
  by (cases n) (simp_all add: for_down_def)

lemma for_down_invariant:
  assumes "m \<le> n" and "I n s"
    and "\<And>j s. m < j \<Longrightarrow> j \<le> n \<Longrightarrow> I j s \<Longrightarrow> I (j - 1) (f j s)"
  shows "I m (for_down n m f s)"
  using assms
proof (induction n arbitrary: s)
  case 0
  then show ?case by simp
next
  case (Suc n)
  show ?case
  proof (cases "m = Suc n")
    case True
    with Suc.prems show ?thesis by simp
  next
    case False
    with Suc.prems(1) have "m < Suc n" by simp
    moreover from Suc.prems(2,3) False have "I n (f (Suc n) s)"
      using Suc.prems(3)[of "Suc n" s] \<open>m < Suc n\<close> by simp
    ultimately show ?thesis
      using Suc.IH[of "f (Suc n) s"] Suc.prems(3) by (simp add: for_down_first)
  qed
qed

text \<open>
  A loop over blocks of eight followed by the loop over the rest is the plain loop, when
  one block step is eight plain steps.
\<close>

lemma for_by8_unroll:
  assumes "\<And>j s. j + 8 \<le> n \<Longrightarrow> F j s = for_up j (j + 8) f s"
  shows "for_up (n - n mod 8) n f (for_by8 (n - n mod 8) F s) = for_up 0 n f s"
proof -
  have "for_up 0 k (\<lambda>i. F (8 * i)) s = for_up 0 (8 * k) f s" if "8 * k \<le> n" for k
    using that
  proof (induction k)
    case (Suc k)
    have "F (8 * k) (for_up 0 (8 * k) f s) = for_up (8 * k) (8 * k + 8) f (for_up 0 (8 * k) f s)"
      using Suc.prems by (intro assms) simp
    also have "\<dots> = for_up 0 (8 * Suc k) f s"
      using for_up_split[of 0 "8 * k" "8 * Suc k" f s] by (simp add: add.commute)
    finally show ?case using Suc by (simp add: for_up_Suc)
  qed simp
  from this[of "n div 8"] have "for_by8 (n - n mod 8) F s = for_up 0 (n - n mod 8) f s"
    by (simp add: for_by8_def minus_mod_eq_mult_div)
  then show ?thesis using for_up_split[of 0 "n - n mod 8" n f s] by simp
qed

section \<open>Arrays and pointers\<close>

text \<open>Calling \<open>f\<close> on the pointer \<open>xs + k\<close>: it may update everything from there on.\<close>

definition at_ptr :: "nat \<Rightarrow> ('a list \<Rightarrow> 'a list) \<Rightarrow> 'a list \<Rightarrow> 'a list" where
  "at_ptr k f xs = take k xs @ f (drop k xs)"

text \<open>\<open>clear_mem\<close> and \<open>copy_mem\<close> of \<open>mem_ops.h\<close>, on the first \<open>n\<close> elements.\<close>

definition clear_mem :: "'a::zero list \<Rightarrow> nat \<Rightarrow> 'a list" where
  "clear_mem xs n = replicate n 0 @ drop n xs"

definition copy_mem :: "'a list \<Rightarrow> 'a list \<Rightarrow> nat \<Rightarrow> 'a list" where
  "copy_mem out inp n = take n inp @ drop n out"

lemma length_at_ptr [size_simps]:
  "length (f (drop k xs)) = length xs - k \<Longrightarrow> k \<le> length xs \<Longrightarrow> length (at_ptr k f xs) = length xs"
  by (simp add: at_ptr_def)

lemma length_clear_mem [simp, size_simps]: "n \<le> length xs \<Longrightarrow> length (clear_mem xs n) = length xs"
  by (simp add: clear_mem_def)

lemma length_copy_mem [simp, size_simps]:
  "n \<le> length inp \<Longrightarrow> n \<le> length out \<Longrightarrow> length (copy_mem out inp n) = length out"
  by (simp add: copy_mem_def)

lemma nth_clear_mem: "n \<le> length xs \<Longrightarrow> i < length xs \<Longrightarrow>
    clear_mem xs n ! i = (if i < n then 0 else xs ! i)"
  by (auto simp: clear_mem_def nth_append)

lemma take_Suc_nth: "i < length xs \<Longrightarrow> take (Suc i) xs = take i xs @ [xs ! i]"
  by (rule take_Suc_conv_app_nth)

lemma drop_update_less: "i < k \<Longrightarrow> drop k (xs[i := v]) = drop k xs"
  by (rule drop_update_cancel)

lemma nth_drop_eq: "drop k xs = drop k ys \<Longrightarrow> k \<le> i \<Longrightarrow> i < length xs \<Longrightarrow> length xs = length ys \<Longrightarrow> xs ! i = ys ! i"
  using nth_drop[of k xs "i - k"] nth_drop[of k ys "i - k"] by simp

lemma drop_eq_Suc: "drop k xs = drop k ys \<Longrightarrow> drop (Suc k) xs = drop (Suc k) ys"
  by (metis drop_drop plus_1_eq_Suc)

lemma drop_eq_mono: "drop k xs = drop k ys \<Longrightarrow> k \<le> m \<Longrightarrow> drop m xs = drop m ys"
  by (metis drop_drop le_add_diff_inverse2)

section \<open>Words\<close>

lemma unat_less_base [simp]: "unat (x :: 'a::len word) < 2 ^ LENGTH('a)"
  by (rule unsigned_less)

lemma unat_le_base: "unat (x :: 'a::len word) \<le> 2 ^ LENGTH('a) - 1"
  using unat_less_base[of x] by linarith

lemma add_mod_base: "a < B \<Longrightarrow> b < B \<Longrightarrow> (a + b) mod B = (if a + b < B then a + b else a + b - (B :: nat))"
  by (simp add: mod_if)

lemma unat_plus: "unat (x + y) = (unat x + unat y) mod 2 ^ LENGTH('a)" for x y :: "'a::len word"
  by (rule unat_word_ariths)

lemma unat_plus_if:
  "unat (x + y) = (if unat x + unat y < 2 ^ LENGTH('a) then unat x + unat y
    else unat x + unat y - 2 ^ LENGTH('a))" for x y :: "'a::len word"
  unfolding unat_plus by (rule add_mod_base) simp_all

lemma square_pred: "(B - 1) * (B - 1) + (B - 1) + (B - 1) = B * B - (1 :: nat)"
  by (cases B) simp_all

text \<open>The carry of an addition, and the borrow of a subtraction, read off the wrapped result.\<close>

lemma add_overflow_val:
  fixes x y :: "'a::len word"
  shows "unat (x + y) + 2 ^ LENGTH('a) * of_bool (x + y < x) = unat x + unat y"
proof -
  have "unat x + unat y - 2 ^ LENGTH('a) < unat x" if "\<not> unat x + unat y < 2 ^ LENGTH('a)"
    using that unat_less_base[of y] by linarith
  then show ?thesis by (auto simp: unat_plus_if word_less_nat_alt)
qed

lemma sub_borrow_val:
  fixes x y :: "'a::len word"
  shows "unat (x - y) + unat y = unat x + 2 ^ LENGTH('a) * of_bool (x < x - y)"
proof -
  have "unat (x - y) + unat y = unat x + 2 ^ LENGTH('a) * of_bool (x - y + y < x - y)"
    using add_overflow_val[of "x - y" y] by simp
  then show ?thesis by simp
qed

lemma less_pred_iff: "x < x - 1 \<longleftrightarrow> x = 0" for x :: "'a::len word"
proof
  assume "x < x - 1"
  then have "unat (x - 1) + 1 = unat x + 2 ^ LENGTH('a)" using sub_borrow_val[of x 1] by simp
  then have "unat x = 0" using unat_less_base[of "x - 1"] by linarith
  then show "x = 0" by (simp add: unat_eq_zero)
qed (simp add: word_gt_0)

text \<open>A left shift and what it pushes out; the vacated bits take what is or-ed in.\<close>

lemma shift_split:
  fixes x :: "'a::len word"
  assumes "s \<le> LENGTH('a)"
  shows "unat (push_bit s x) + 2 ^ LENGTH('a) * unat (drop_bit (LENGTH('a) - s) x) = 2 ^ s * unat x"
proof -
  have p: "2 ^ LENGTH('a) = (2 :: nat) ^ s * 2 ^ (LENGTH('a) - s)" using assms by (simp flip: power_add)
  have "unat (push_bit s x) = (2 ^ s * unat x) mod 2 ^ LENGTH('a)"
    unfolding unsigned_push_bit_eq[of s x] by (simp add: push_bit_eq_mult take_bit_eq_mod mult.commute)
  also have "\<dots> = 2 ^ s * (unat x mod 2 ^ (LENGTH('a) - s))" unfolding p by simp
  finally have "unat (push_bit s x) = 2 ^ s * (unat x mod 2 ^ (LENGTH('a) - s))" .
  moreover have "unat (drop_bit (LENGTH('a) - s) x) = unat x div 2 ^ (LENGTH('a) - s)"
    unfolding unat_drop_bit_eq by (simp add: drop_bit_eq_div)
  ultimately have "unat (push_bit s x) + 2 ^ LENGTH('a) * unat (drop_bit (LENGTH('a) - s) x) =
      2 ^ s * (unat x mod 2 ^ (LENGTH('a) - s) + 2 ^ (LENGTH('a) - s) * (unat x div 2 ^ (LENGTH('a) - s)))"
    by (simp only: p distrib_left mult.assoc)
  also have "\<dots> = 2 ^ s * unat x" by simp
  finally show ?thesis .
qed

lemma unat_or_disjoint:
  fixes a b :: "'a::len word"
  assumes "a AND b = 0"
  shows "unat (a OR b) = unat a + unat b"
proof -
  have "unat a AND unat b = 0" using assms by (metis unsigned_0 unsigned_and_eq)
  then show ?thesis by (simp add: unsigned_or_eq disjunctive_add_eq_or)
qed

lemma push_bit_or:
  fixes x t :: "'a::len word"
  assumes "unat t < 2 ^ s"
  shows "unat (push_bit s x OR t) = unat (push_bit s x) + unat t"
proof (rule unat_or_disjoint)
  have "take_bit s (unat t) = unat t" using assms by (simp add: take_bit_nat_eq_self)
  have below: "i < s" if "bit t i" for i
  proof -
    have "bit (unat t) i" using that by (simp add: bit_unsigned_iff bit_imp_le_length)
    then have "bit (take_bit s (unat t)) i" by (simp only: \<open>take_bit s (unat t) = unat t\<close>)
    then show ?thesis by (simp add: bit_take_bit_iff)
  qed
  show "push_bit s x AND t = 0"
    by (intro bit_word_eqI) (auto simp: bit_simps dest: below)
qed

text \<open>A right shift, and the bits a left shift by the complement makes room for.\<close>

lemma unat_drop_bit: "unat (drop_bit s x) = unat x div 2 ^ s" for x :: "'a::len word"
  unfolding unat_drop_bit_eq by (simp add: drop_bit_eq_div)

lemma unat_drop_bit_bound:
  fixes x :: "'a::len word"
  assumes "s \<le> LENGTH('a)"
  shows "unat (drop_bit (LENGTH('a) - s) x) < 2 ^ s"
  unfolding unat_drop_bit using assms
  by (simp add: less_mult_imp_div_less flip: power_add)

lemmas xor_ac = xor.assoc xor.commute xor.left_commute

end
