(* ===== verification/MP_Word.thy ===== *)
theory MP_Word
  imports Prelude
begin

text \<open>
  The lowest level of the multi-precision arithmetic: single-word operations with an
  explicit carry (\<open>mp_generic/mp_asm.h\<close>) and the eight-word blocks built from them
  (\<open>mp_generic/mp_asmi.h\<close>). A machine word is \<open>'a word\<close> for any width, the double
  word of the sources is \<open>'a bit0 word\<close>, of twice that width. The value of a little-endian
  array of words is \<open>mp_val\<close>.
\<close>

type_synonym 'a dword = "'a bit0 word"

section \<open>Values of word arrays\<close>

fun mp_val :: "'a::len word list \<Rightarrow> nat" where
  "mp_val [] = 0"
| "mp_val (x # xs) = unat x + 2 ^ LENGTH('a) * mp_val xs"

lemma mp_val_append [simp]:
  "mp_val ((xs :: 'a::len word list) @ ys) = mp_val xs + (2 ^ LENGTH('a)) ^ length xs * mp_val ys"
  by (induction xs) (simp_all add: algebra_simps)

lemma mp_val_replicate_0 [simp]: "mp_val (replicate n (0 :: 'a::len word)) = 0"
  by (induction n) simp_all

lemma mp_val_bound: "mp_val (xs :: 'a::len word list) < (2 ^ LENGTH('a)) ^ length xs"
proof (induction xs)
  case (Cons x xs)
  have "unat x + 2 ^ LENGTH('a) * mp_val xs < 2 ^ LENGTH('a) + 2 ^ LENGTH('a) * mp_val xs"
    by simp
  also have "\<dots> = 2 ^ LENGTH('a) * Suc (mp_val xs)" by simp
  also have "\<dots> \<le> 2 ^ LENGTH('a) * (2 ^ LENGTH('a)) ^ length xs"
    using Cons by (intro mult_le_mono2) simp
  finally show ?case by simp
qed simp

lemma mp_val_take_bound: "mp_val (take n (xs :: 'a::len word list)) < (2 ^ LENGTH('a)) ^ n"
proof -
  have "mp_val (take n xs) < (2 ^ LENGTH('a)) ^ min n (length xs)"
    using mp_val_bound[of "take n xs"] by (simp add: min.commute)
  also have "\<dots> \<le> (2 ^ LENGTH('a)) ^ n" by (intro power_increasing) simp_all
  finally show ?thesis .
qed

lemma mp_val_take_Suc:
  "i < length (xs :: 'a::len word list) \<Longrightarrow>
    mp_val (take (Suc i) xs) = mp_val (take i xs) + (2 ^ LENGTH('a)) ^ i * unat (xs ! i)"
  by (simp add: take_Suc_conv_app_nth)

text \<open>Comparison from the top word down.\<close>

lemma mp_val_less_Suc:
  fixes a b :: "'a::len word list"
  assumes "i < length a" and "i < length b"
  shows "mp_val (take (Suc i) a) < mp_val (take (Suc i) b) \<longleftrightarrow>
    a ! i < b ! i \<or> a ! i = b ! i \<and> mp_val (take i a) < mp_val (take i b)"
proof -
  let ?C = "(2 ^ LENGTH('a)) ^ i :: nat"
  have lt: "mp_val (take i u) + ?C * unat v < mp_val (take i u') + ?C * unat v'" if "v < v'" for u u' :: "'a word list" and v v'
  proof -
    have "?C * unat v + ?C \<le> ?C * unat v'"
      using that by (metis Suc_leI mult_Suc_right add.commute mult_le_mono2 word_less_nat_alt)
    then show ?thesis using mp_val_take_bound[of i u] by linarith
  qed
  show ?thesis
  proof (cases "a ! i" "b ! i" rule: linorder_cases)
    case less
    with \<open>a ! i < b ! i\<close>[THEN lt, of a b] show ?thesis by (simp add: mp_val_take_Suc assms)
  next
    case equal
    then show ?thesis by (simp add: mp_val_take_Suc assms)
  next
    case greater
    have "\<not> a ! i < b ! i" "a ! i \<noteq> b ! i" using greater by auto
    moreover have "\<not> mp_val (take (Suc i) a) < mp_val (take (Suc i) b)"
      using lt[OF greater, of b a] by (simp add: mp_val_take_Suc assms)
    ultimately show ?thesis by simp
  qed
qed

lemma of_nat_mp_val: "xs \<noteq> [] \<Longrightarrow> (of_nat (mp_val xs) :: 'a::len word) = xs ! 0"
  by (cases xs) simp_all

lemma mp_val_split:
  "mp_val (xs :: 'a::len word list) =
    mp_val (take n xs) + (2 ^ LENGTH('a)) ^ min n (length xs) * mp_val (drop n xs)"
  by (metis append_take_drop_id length_take mp_val_append min.commute)

lemma mp_val_eq_0_iff: "mp_val xs = 0 \<longleftrightarrow> (\<forall>x\<in>set xs. x = (0 :: 'a::len word))"
  by (induction xs) (auto simp: unat_eq_zero)

lemma mp_val_update:
  "j < length (xs :: 'a::len word list) \<Longrightarrow>
    mp_val (xs[j := v]) + (2 ^ LENGTH('a)) ^ j * unat (xs ! j) = mp_val xs + (2 ^ LENGTH('a)) ^ j * unat v"
proof (induction xs arbitrary: j)
  case (Cons x xs)
  then show ?case
  proof (cases j)
    case (Suc i)
    with Cons have "mp_val (xs[i := v]) + (2 ^ LENGTH('a)) ^ i * unat (xs ! i) = mp_val xs + (2 ^ LENGTH('a)) ^ i * unat v"
      by simp
    from arg_cong[OF this, of "(*) (2 ^ LENGTH('a))"] Suc show ?thesis
      by (simp add: distrib_left mult.assoc)
  qed simp
qed simp

lemma mp_val_take_update:
  "j < n \<Longrightarrow> n \<le> length (xs :: 'a::len word list) \<Longrightarrow>
    mp_val (take n (xs[j := v])) + (2 ^ LENGTH('a)) ^ j * unat (xs ! j) =
    mp_val (take n xs) + (2 ^ LENGTH('a)) ^ j * unat v"
  using mp_val_update[of j "take n xs" v] by (simp add: take_update_swap)

section \<open>Word operations with carry (\<open>mp_asm.h\<close>, \<open>mp_asmi.h\<close>)\<close>

text \<open>
  Each operation returns its result and the new value of the carry it was passed by
  address.
\<close>

definition word_madd2 :: "'a::len word \<Rightarrow> 'a word \<Rightarrow> 'a word \<Rightarrow> 'a word \<times> 'a word" where
  "word_madd2 a b c =
     (let z = ucast a * ucast b + ucast c :: 'a dword
      in (ucast z, ucast (drop_bit LENGTH('a) z)))"

definition word_madd3 :: "'a::len word \<Rightarrow> 'a word \<Rightarrow> 'a word \<Rightarrow> 'a word \<Rightarrow> 'a word \<times> 'a word" where
  "word_madd3 a b c d =
     (let z = ucast a * ucast b + ucast c + ucast d :: 'a dword
      in (ucast z, ucast (drop_bit LENGTH('a) z)))"

definition word_add :: "'a::len word \<Rightarrow> 'a word \<Rightarrow> 'a word \<Rightarrow> 'a word \<times> 'a word" where
  "word_add x y carry =
     (let z = x + y;
          c1 = of_bool (z < x);
          z = z + carry
      in (z, c1 OR of_bool (z < carry)))"

definition word_sub :: "'a::len word \<Rightarrow> 'a word \<Rightarrow> 'a word \<Rightarrow> 'a word \<times> 'a word" where
  "word_sub x y carry =
     (let t0 = x - y;
          c1 = of_bool (t0 > x);
          z = t0 - carry
      in (z, c1 OR of_bool (z > t0)))"

lemma unat_dword:
  assumes "n < 2 ^ LENGTH('a) * 2 ^ LENGTH('a)"
  shows "unat (of_nat n :: 'a::len dword) = n"
  using assms by (simp add: unsigned_of_nat take_bit_nat_eq_self_iff power_add[symmetric] mult_2)

lemma dword_split:
  fixes z :: "'a::len dword"
  shows "unat (ucast z :: 'a word) + 2 ^ LENGTH('a) * unat (ucast (drop_bit LENGTH('a) z) :: 'a word) = unat z"
proof -
  have "unat z < 2 ^ LENGTH('a) * 2 ^ LENGTH('a)"
    using unat_less_base[of z] by (simp add: power_add[symmetric] mult_2)
  then have "unat z div 2 ^ LENGTH('a) < 2 ^ LENGTH('a)"
    by (simp add: less_mult_imp_div_less)
  moreover have "unat (ucast z :: 'a word) = unat z mod 2 ^ LENGTH('a)"
    by (simp add: unsigned_ucast_eq take_bit_eq_mod)
  moreover have "unat (ucast (drop_bit LENGTH('a) z) :: 'a word) = unat z div 2 ^ LENGTH('a) mod 2 ^ LENGTH('a)"
    unfolding unsigned_ucast_eq unat_drop_bit_eq unfolding take_bit_eq_mod drop_bit_eq_div ..
  ultimately show ?thesis by simp
qed

lemma word_madd_bound:
  fixes a b :: "'a::len word"
  shows "unat a * unat b + (2 ^ LENGTH('a) - 1) + (2 ^ LENGTH('a) - 1) < 2 ^ LENGTH('a) * 2 ^ LENGTH('a)"
proof -
  have "unat a * unat b \<le> (2 ^ LENGTH('a) - 1) * (2 ^ LENGTH('a) - 1)"
    by (intro mult_le_mono unat_le_base)
  moreover have "0 < (2 ^ LENGTH('a) * 2 ^ LENGTH('a) :: nat)" by simp
  ultimately show ?thesis using square_pred[of "2 ^ LENGTH('a)"] by linarith
qed

lemma word_madd2_val [value_simps]:
  assumes "word_madd2 a b c = (r, c')"
  shows "unat r + 2 ^ LENGTH('a) * unat c' = unat a * unat b + unat (c :: 'a::len word)"
proof -
  let ?z = "ucast a * ucast b + ucast c :: 'a dword"
  have "?z = of_nat (unat a * unat b + unat c)" by simp
  moreover have "unat a * unat b + unat c < 2 ^ LENGTH('a) * 2 ^ LENGTH('a)"
    using word_madd_bound[of a b] unat_le_base[of c] by linarith
  ultimately have "unat ?z = unat a * unat b + unat c" by (simp only: unat_dword)
  with dword_split[of ?z] assms show ?thesis by (simp add: word_madd2_def Let_def)
qed

lemma word_madd3_val [value_simps]:
  assumes "word_madd3 a b c d = (r, d')"
  shows "unat r + 2 ^ LENGTH('a) * unat d' = unat a * unat b + unat c + unat (d :: 'a::len word)"
proof -
  let ?z = "ucast a * ucast b + ucast c + ucast d :: 'a dword"
  have "?z = of_nat (unat a * unat b + unat c + unat d)" by simp
  moreover have "unat a * unat b + unat c + unat d < 2 ^ LENGTH('a) * 2 ^ LENGTH('a)"
    using word_madd_bound[of a b] unat_le_base[of c] unat_le_base[of d] by linarith
  ultimately have "unat ?z = unat a * unat b + unat c + unat d" by (simp only: unat_dword)
  with dword_split[of ?z] assms show ?thesis by (simp add: word_madd3_def Let_def)
qed

lemma of_bool_OR_word: "(of_bool p OR of_bool q :: 'a::len word) = of_bool (p \<or> q)"
  by (cases p; cases q) simp_all

lemma carry_cases: "c \<le> (1 :: 'a::len word) \<Longrightarrow> c = 0 \<or> c = 1"
  by (metis le_less word_less_1)

lemma word_add_val [value_simps]:
  assumes "word_add x y c = (r, c')" and "c \<le> (1 :: 'a::len word)"
  shows "unat r + 2 ^ LENGTH('a) * unat c' = unat x + unat y + unat c \<and> c' \<le> 1"
proof -
  let ?z = "x + y" 
  have r: "r = ?z + c" "c' = of_bool (?z < x \<or> ?z + c < c)"
    using assms(1) unfolding word_add_def Let_def of_bool_OR_word by auto
  have "unat (?z + c) + 2 ^ LENGTH('a) * of_bool (?z + c < c) = unat ?z + unat c"
    using add_overflow_val[of c ?z] by (simp add: add.commute)
  moreover have "unat ?z + 2 ^ LENGTH('a) * of_bool (?z < x) = unat x + unat y"
    by (rule add_overflow_val)
  moreover have "\<not> (?z < x \<and> ?z + c < c)"
  proof
    assume "?z < x \<and> ?z + c < c"
    with calculation have "unat x + unat y + unat c \<ge> 2 * 2 ^ LENGTH('a)" by simp
    moreover have "unat c \<le> 1" using assms(2) by (simp add: word_le_nat_alt)
    ultimately show False using unat_less_base[of x] unat_less_base[of y] by linarith
  qed
  ultimately have "unat (?z + c) + 2 ^ LENGTH('a) * of_bool (?z < x \<or> ?z + c < c) = unat x + unat y + unat c"
    by (cases "?z < x"; cases "?z + c < c") simp_all
  then show ?thesis unfolding r by (cases "?z < x"; cases "?z + c < c") simp_all
qed

lemma word_sub_val [value_simps]:
  assumes "word_sub x y c = (r, c')" and "c \<le> (1 :: 'a::len word)"
  shows "unat r + unat y + unat c = unat x + 2 ^ LENGTH('a) * unat c' \<and> c' \<le> 1"
proof -
  let ?t = "x - y" 
  have r: "r = ?t - c" "c' = of_bool (x < ?t \<or> ?t < ?t - c)"
    using assms(1) unfolding word_sub_def Let_def of_bool_OR_word by auto
  have 1: "unat (?t - c) + unat c = unat ?t + 2 ^ LENGTH('a) * of_bool (?t < ?t - c)"
    by (rule sub_borrow_val)
  have 2: "unat ?t + unat y = unat x + 2 ^ LENGTH('a) * of_bool (x < ?t)"
    by (rule sub_borrow_val)
  have "\<not> (x < ?t \<and> ?t < ?t - c)"
  proof
    assume "x < ?t \<and> ?t < ?t - c"
    with 1 2 have "unat (?t - c) + unat c + unat y \<ge> 2 * 2 ^ LENGTH('a)" by simp
    moreover have "unat c \<le> 1" using assms(2) by (simp add: word_le_nat_alt)
    ultimately show False using unat_less_base[of y] unat_less_base[of "?t - c"] by linarith
  qed
  with 1 2 have "unat (?t - c) + unat y + unat c = unat x + 2 ^ LENGTH('a) * of_bool (x < ?t \<or> ?t < ?t - c)"
    by (cases "x < ?t"; cases "?t < ?t - c") simp_all
  then show ?thesis by (simp add: r)
qed

end
