(* ===== verification/MP_Chain.thy ===== *)
theory MP_Chain
  imports MP_Word
begin

text \<open>
  Every linear loop of the multi-precision arithmetic is a chain of single-word steps that
  hand a carry on, eight steps at a time and then one by one. This theory has the two shapes
  of such a loop and the proof that the blocked loop is the plain one; the locales
  \<open>carry_chain\<close> and \<open>borrow_chain\<close> state what a step promises and prove once what the whole
  chain computes. The steps of \<open>mp_asm.cpp\<close>, \<open>mp_mulop.cpp\<close> and \<open>mp_monty.cpp\<close> interpret them.
\<close>

section \<open>Chains of word steps\<close>

text \<open>
  One statement \<open>z[j] = op(.., z[j], .., &carry)\<close>: \<open>F\<close> is the operation, given the index and
  the old \<open>z[j]\<close>.
\<close>

definition upd_step ::
  "(nat \<Rightarrow> 'w \<Rightarrow> 'w \<Rightarrow> 'w \<times> 'w) \<Rightarrow> nat \<Rightarrow> 'w list \<times> 'w \<Rightarrow> 'w list \<times> 'w" where
  "upd_step F j s = (case s of (z, carry) \<Rightarrow> case F j (z ! j) carry of (r, carry') \<Rightarrow> (z[j := r], carry'))"

text \<open>Eight of them in a row, as the \<open>word8_*\<close> blocks write them out.\<close>

definition upd8 :: "(nat \<Rightarrow> 'w \<Rightarrow> 'w \<Rightarrow> 'w \<times> 'w) \<Rightarrow> 'w list \<times> 'w \<Rightarrow> 'w list \<times> 'w" where
  "upd8 F s = fold (upd_step F) [0, 1, 2, 3, 4, 5, 6, 7] s"

text \<open>A block called on the pointer \<open>z + j\<close>.\<close>

definition block_at ::
  "nat \<Rightarrow> ('w list \<Rightarrow> 'w \<Rightarrow> 'w list \<times> 'w) \<Rightarrow> 'w list \<times> 'w \<Rightarrow> 'w list \<times> 'w" where
  "block_at j f s = (case s of (z, carry) \<Rightarrow> case f (drop j z) carry of (z', carry') \<Rightarrow> (take j z @ z', carry'))"

lemma upd8_for_up: "upd8 F s = for_up 0 8 (upd_step F) s"
proof -
  have "[0..<8] = [0, 1, 2, 3, 4, 5, 6, 7]" by (simp add: upt_rec)
  then show ?thesis by (simp only: upd8_def for_up_def)
qed

lemma upd_step_pair: "upd_step F j (z, c) = (z', c') \<longleftrightarrow> (\<exists>r. F j (z ! j) c = (r, c') \<and> z' = z[j := r])"
  by (auto simp: upd_step_def split: prod.splits)

lemma length_upd_loop [simp]: "length (fst (for_up a b (upd_step F) s)) = length (fst s)"
proof (cases "a \<le> b")
  case True
  then show ?thesis
    by (rule for_up_invariant[where I = "\<lambda>_ s'. length (fst s') = length (fst s)"])
       (auto simp: upd_step_def split: prod.splits)
qed simp

lemma upd_loop_shift:
  assumes "j + n \<le> length z"
  shows "for_up j (j + n) (upd_step F) (z, c) =
    block_at j (\<lambda>z c. for_up 0 n (upd_step (\<lambda>i. F (j + i))) (z, c)) (z, c)"
  using assms
proof (induction n)
  case 0
  then show ?case by (simp add: block_at_def)
next
  case (Suc n)
  obtain z' c' where r: "for_up 0 n (upd_step (\<lambda>i. F (j + i))) (drop j z, c) = (z', c')"
    by (cases "for_up 0 n (upd_step (\<lambda>i. F (j + i))) (drop j z, c)") auto
  have len: "length z' = length z - j"
    using length_upd_loop[of 0 n "\<lambda>i. F (j + i)" "(drop j z, c)"] r by simp
  have "for_up j (j + n) (upd_step F) (z, c) = (take j z @ z', c')"
    using Suc r by (simp add: block_at_def)
  then have "for_up j (j + Suc n) (upd_step F) (z, c) = upd_step F (j + n) (take j z @ z', c')"
    by (simp add: for_up_Suc)
  also have "\<dots> = block_at j (\<lambda>z c. for_up 0 (Suc n) (upd_step (\<lambda>i. F (j + i))) (z, c)) (z, c)"
    using Suc.prems len r
    by (auto simp: block_at_def upd_step_def for_up_Suc nth_append list_update_append split: prod.splits)
  finally show ?case .
qed

lemma upd_step_local:
  assumes "\<And>zj c. F j zj c = G j zj c"
  shows "upd_step F j s = upd_step G j s"
  using assms by (simp add: upd_step_def)

text \<open>
  The blocked loop of the sources, then the loop over the rest, is one loop: \<open>blk j\<close> is
  the block called at \<open>z + j\<close> on arrays that hold eight more words.
\<close>

lemma blocked_chain:
  assumes n: "n \<le> length z"
    and blk: "\<And>j zz cc. j + 8 \<le> n \<Longrightarrow> blk j zz cc = upd8 (\<lambda>i. F (j + i)) (zz, cc)"
  shows "for_up (n - n mod 8) n (upd_step F)
      (for_by8 (n - n mod 8) (\<lambda>j. block_at j (blk j)) (z, c)) = for_up 0 n (upd_step F) (z, c)"
proof -
  let ?P = "\<lambda>s. length (fst s) = length z"
  let ?blk = "\<lambda>j s. if length (fst s) = length z then block_at j (blk j) s else for_up j (j + 8) (upd_step F) s"
  have same: "?blk j s = for_up j (j + 8) (upd_step F) s" if "j + 8 \<le> n" for j s
  proof (cases s)
    case (Pair zz cc)
    show ?thesis
    proof (cases "length zz = length z")
      case True
      then have "for_up j (j + 8) (upd_step F) (zz, cc) =
          block_at j (\<lambda>z c. for_up 0 8 (upd_step (\<lambda>i. F (j + i))) (z, c)) (zz, cc)"
        using that n by (intro upd_loop_shift) simp
      then show ?thesis using Pair that True blk
        by (simp add: block_at_def upd8_for_up)
    qed (simp add: Pair)
  qed
  have "for_by8 (n - n mod 8) (\<lambda>j. block_at j (blk j)) (z, c) = for_by8 (n - n mod 8) ?blk (z, c)
      \<and> ?P (for_by8 (n - n mod 8) ?blk (z, c))"
  proof -
    have "for_up 0 k (\<lambda>i. block_at (8 * i) (blk (8 * i))) (z, c) = for_up 0 k (\<lambda>i. ?blk (8 * i)) (z, c)
       \<and> ?P (for_up 0 k (\<lambda>i. ?blk (8 * i)) (z, c))" if "8 * k \<le> n" for k
      using that
    proof (induction k)
      case (Suc k)
      have *: "?blk (8 * k) s = for_up (8 * k) (8 * k + 8) (upd_step F) s" for s
        using Suc.prems by (intro same) simp
      have "?P (?blk (8 * k) s)" if "?P s" for s by (subst *) (simp add: that)
      with Suc show ?case by (simp add: for_up_Suc)
    qed simp
    from this[of "n div 8"] show ?thesis
      by (simp add: for_by8_def div_mult_mod_eq minus_mod_eq_mult_div)
  qed
  then show ?thesis using for_by8_unroll[of n ?blk "upd_step F", OF same] by simp
qed

lemma mp_val_take_sum:
  "n \<le> length (xs :: 'a::len word list) \<Longrightarrow>
    mp_val (take n xs) = (\<Sum>j<n. (2 ^ LENGTH('a)) ^ j * unat (xs ! j))"
  by (induction n) (simp_all add: mp_val_take_Suc)

text \<open>One more digit, of weight \<open>b\<close>, in an addition and in a subtraction.\<close>

lemma add_digit:
  fixes v b d S c r g B c' :: nat
  assumes "v + b * d = S + c" and "r + B * c' = g + d"
  shows "v + b * r + b * B * c' = S + b * g + c"
proof -
  have "b * r + b * (B * c') = b * g + b * d"
    using arg_cong[OF assms(2), of "(*) b"] by (simp only: distrib_left)
  with assms(1) show ?thesis by (simp add: mult.assoc)
qed

lemma sub_digit:
  fixes v b d S T c r m p B c' :: nat
  assumes "v + S + c = T + b * d" and "r + m + d = p + B * c'"
  shows "v + b * r + (S + b * m) + c = T + b * p + b * B * c'"
proof -
  have "b * r + b * m + b * d = b * p + b * (B * c')"
    using arg_cong[OF assms(2), of "(*) b"] by (simp only: distrib_left)
  with assms(1) show ?thesis by (simp add: mult.assoc)
qed

subsection \<open>Carry chains\<close>

locale carry_chain =
  fixes F :: "nat \<Rightarrow> 'a::len word \<Rightarrow> 'a word \<Rightarrow> 'a word \<times> 'a word"
    and g :: "nat \<Rightarrow> 'a word \<Rightarrow> nat"
    and ok :: "'a word \<Rightarrow> bool"
  assumes step: "ok c \<Longrightarrow> F j zj c = (r, c') \<Longrightarrow>
      unat r + 2 ^ LENGTH('a) * unat c' = g j zj + unat c \<and> ok c'"
begin

lemma chain:
  assumes "n \<le> length z" and "ok c" and "for_up 0 n (upd_step F) (z, c) = (z', c')"
  shows "length z' = length z \<and> drop n z' = drop n z \<and> ok c' \<and>
    mp_val (take n z') + (2 ^ LENGTH('a)) ^ n * unat c' =
      (\<Sum>j<n. (2 ^ LENGTH('a)) ^ j * g j (z ! j)) + unat c"
  using assms
proof (induction n arbitrary: z' c')
  case 0
  then show ?case by simp
next
  case (Suc n)
  obtain y d where y: "for_up 0 n (upd_step F) (z, c) = (y, d)"
    by (cases "for_up 0 n (upd_step F) (z, c)") auto
  obtain r where r: "F n (y ! n) d = (r, c')" and z': "z' = y[n := r]"
    using Suc.prems(3) y by (auto simp: for_up_Suc upd_step_pair)
  have IH: "length y = length z" "drop n y = drop n z" "ok d"
    "mp_val (take n y) + (2 ^ LENGTH('a)) ^ n * unat d = (\<Sum>j<n. (2 ^ LENGTH('a)) ^ j * g j (z ! j)) + unat c"
    using Suc.IH[OF _ Suc.prems(2) y] Suc.prems(1) by simp_all
  have yn: "y ! n = z ! n" using nth_drop_eq[OF IH(2)] IH(1) Suc.prems(1) by simp
  have st: "unat r + 2 ^ LENGTH('a) * unat c' = g n (z ! n) + unat d" "ok c'"
    using step[OF IH(3) r] yn by simp_all
  have v: "mp_val (take (Suc n) z') = mp_val (take n y) + (2 ^ LENGTH('a)) ^ n * unat r"
    using Suc.prems(1) IH(1) z' by (simp add: mp_val_take_Suc)
  have "mp_val (take (Suc n) z') + (2 ^ LENGTH('a)) ^ Suc n * unat c' =
      (\<Sum>j<Suc n. (2 ^ LENGTH('a)) ^ j * g j (z ! j)) + unat c"
    using add_digit[OF IH(4) st(1)] by (simp only: v sum.lessThan_Suc power_Suc2)
  moreover have "length z' = length z" "drop (Suc n) z' = drop (Suc n) z"
    using IH(1) drop_eq_Suc[OF IH(2)] by (simp_all add: z')
  ultimately show ?case using st(2) by blast
qed

end

subsection \<open>Borrow chains\<close>

locale borrow_chain =
  fixes F :: "nat \<Rightarrow> 'a::len word \<Rightarrow> 'a word \<Rightarrow> 'a word \<times> 'a word"
    and p :: "nat \<Rightarrow> 'a word \<Rightarrow> nat" and m :: "nat \<Rightarrow> nat"
  assumes step: "c \<le> 1 \<Longrightarrow> F j zj c = (r, c') \<Longrightarrow>
      unat r + m j + unat c = p j zj + 2 ^ LENGTH('a) * unat c' \<and> c' \<le> 1"
begin

lemma chain:
  assumes "n \<le> length z" and "c \<le> 1" and "for_up 0 n (upd_step F) (z, c) = (z', c')"
  shows "length z' = length z \<and> drop n z' = drop n z \<and> c' \<le> 1 \<and>
    mp_val (take n z') + (\<Sum>j<n. (2 ^ LENGTH('a)) ^ j * m j) + unat c =
      (\<Sum>j<n. (2 ^ LENGTH('a)) ^ j * p j (z ! j)) + (2 ^ LENGTH('a)) ^ n * unat c'"
  using assms
proof (induction n arbitrary: z' c')
  case 0
  then show ?case by simp
next
  case (Suc n)
  obtain y d where y: "for_up 0 n (upd_step F) (z, c) = (y, d)"
    by (cases "for_up 0 n (upd_step F) (z, c)") auto
  obtain r where r: "F n (y ! n) d = (r, c')" and z': "z' = y[n := r]"
    using Suc.prems(3) y by (auto simp: for_up_Suc upd_step_pair)
  have IH: "length y = length z" "drop n y = drop n z" "d \<le> 1"
    "mp_val (take n y) + (\<Sum>j<n. (2 ^ LENGTH('a)) ^ j * m j) + unat c =
      (\<Sum>j<n. (2 ^ LENGTH('a)) ^ j * p j (z ! j)) + (2 ^ LENGTH('a)) ^ n * unat d"
    using Suc.IH[OF _ Suc.prems(2) y] Suc.prems(1) by simp_all
  have yn: "y ! n = z ! n" using nth_drop_eq[OF IH(2)] IH(1) Suc.prems(1) by simp
  have st: "unat r + m n + unat d = p n (z ! n) + 2 ^ LENGTH('a) * unat c'" "c' \<le> 1"
    using step[OF IH(3) r] yn by simp_all
  have v: "mp_val (take (Suc n) z') = mp_val (take n y) + (2 ^ LENGTH('a)) ^ n * unat r"
    using Suc.prems(1) IH(1) z' by (simp add: mp_val_take_Suc)
  have "mp_val (take (Suc n) z') + (\<Sum>j<Suc n. (2 ^ LENGTH('a)) ^ j * m j) + unat c =
      (\<Sum>j<Suc n. (2 ^ LENGTH('a)) ^ j * p j (z ! j)) + (2 ^ LENGTH('a)) ^ Suc n * unat c'"
    using sub_digit[OF IH(4) st(1)] by (simp only: v sum.lessThan_Suc power_Suc2)
  moreover have "length z' = length z" "drop (Suc n) z' = drop (Suc n) z"
    using IH(1) drop_eq_Suc[OF IH(2)] by (simp_all add: z')
  ultimately show ?case using st(2) by blast
qed

end

end
