(* ===== verification/MP_Linear.thy ===== *)
theory MP_Linear
  imports MP_Chain
begin

text \<open>
  Addition, subtraction and multiplication by one word on word arrays
  (\<open>src/math/bigint/mp_asm.cpp\<close>) over the eight-word blocks of \<open>mp_generic/mp_asmi.h\<close>.
  Each routine returns the array it writes (and the carry it returns, if any); the lemmas
  \<open>*_val\<close> give the value it leaves there, the sizes it needs and that it writes nothing else.
\<close>

section \<open>Eight-word blocks\<close>

definition word8_add2 :: "'a::len word list \<Rightarrow> 'a word list \<Rightarrow> 'a word \<Rightarrow> 'a word list \<times> 'a word" where
  "word8_add2 x y carry = upd8 (\<lambda>j xj c. word_add xj (y ! j) c) (x, carry)"

definition word8_add3 ::
  "'a::len word list \<Rightarrow> 'a word list \<Rightarrow> 'a word list \<Rightarrow> 'a word \<Rightarrow> 'a word list \<times> 'a word" where
  "word8_add3 z x y carry = upd8 (\<lambda>j zj c. word_add (x ! j) (y ! j) c) (z, carry)"

definition word8_sub2 :: "'a::len word list \<Rightarrow> 'a word list \<Rightarrow> 'a word \<Rightarrow> 'a word list \<times> 'a word" where
  "word8_sub2 x y carry = upd8 (\<lambda>j xj c. word_sub xj (y ! j) c) (x, carry)"

definition word8_sub3 ::
  "'a::len word list \<Rightarrow> 'a word list \<Rightarrow> 'a word list \<Rightarrow> 'a word \<Rightarrow> 'a word list \<times> 'a word" where
  "word8_sub3 z x y carry = upd8 (\<lambda>j zj c. word_sub (x ! j) (y ! j) c) (z, carry)"

definition word8_linmul2 :: "'a::len word list \<Rightarrow> 'a word \<Rightarrow> 'a word \<Rightarrow> 'a word list \<times> 'a word" where
  "word8_linmul2 x y carry = upd8 (\<lambda>j xj c. word_madd2 xj y c) (x, carry)"

definition word8_linmul3 ::
  "'a::len word list \<Rightarrow> 'a word list \<Rightarrow> 'a word \<Rightarrow> 'a word \<Rightarrow> 'a word list \<times> 'a word" where
  "word8_linmul3 z x y carry = upd8 (\<lambda>j zj c. word_madd2 (x ! j) y c) (z, carry)"

definition word8_madd3 ::
  "'a::len word list \<Rightarrow> 'a word list \<Rightarrow> 'a word \<Rightarrow> 'a word \<Rightarrow> 'a word list \<times> 'a word" where
  "word8_madd3 z x y carry = upd8 (\<lambda>j zj c. word_madd3 (x ! j) y zj c) (z, carry)"

section \<open>Array operations (\<open>mp_asm.cpp\<close>)\<close>

text \<open>
  The loop after the addition proper: \<open>for (; j != x_size; ++j) if (++x[j]) return 0; return 1\<close>.
\<close>

function add_carry_loop :: "'a::len word list \<Rightarrow> nat \<Rightarrow> nat \<Rightarrow> 'a word list \<times> 'a word" where
  "add_carry_loop x j x_size =
     (if j < x_size
      then let x = x[j := x ! j + 1]
           in if x ! j \<noteq> 0 then (x, 0) else add_carry_loop x (Suc j) x_size
      else (x, 1))"
  by pat_completeness auto
termination
  by (relation "measure (\<lambda>(x, j, x_size). x_size - j)") auto

declare add_carry_loop.simps [simp del]

definition bigint_add2_nc ::
  "'a::len word list \<Rightarrow> nat \<Rightarrow> 'a word list \<Rightarrow> nat \<Rightarrow> 'a word list \<times> 'a word" where
  "bigint_add2_nc x x_size y y_size =
     (let blocks = y_size - y_size mod 8;
          (x, carry) = for_by8 blocks (\<lambda>j. block_at j (\<lambda>x carry. word8_add2 x (drop j y) carry)) (x, 0);
          (x, carry) = for_up blocks y_size (upd_step (\<lambda>j xj c. word_add xj (y ! j) c)) (x, carry)
      in if carry = 0 then (x, 0) else add_carry_loop x y_size x_size)"

text \<open>
  With the operands ordered, \<open>bigint_add3_nc\<close> proper; the recursive call of the source
  swaps them at most once.
\<close>

definition bigint_add3_nc_ordered ::
  "'a::len word list \<Rightarrow> 'a word list \<Rightarrow> nat \<Rightarrow> 'a word list \<Rightarrow> nat \<Rightarrow> 'a word list \<times> 'a word" where
  "bigint_add3_nc_ordered z x x_size y y_size =
     (let blocks = y_size - y_size mod 8;
          (z, carry) = for_by8 blocks
            (\<lambda>j. block_at j (\<lambda>z carry. word8_add3 z (drop j x) (drop j y) carry)) (z, 0);
          (z, carry) = for_up blocks y_size (upd_step (\<lambda>j zj c. word_add (x ! j) (y ! j) c)) (z, carry)
      in for_up y_size x_size
           (upd_step (\<lambda>j zj carry. let x_j = x ! j + carry
                                    in (x_j, if carry \<noteq> 0 \<and> x_j \<noteq> 0 then 0 else carry))) (z, carry))"

definition bigint_add3_nc ::
  "'a::len word list \<Rightarrow> 'a word list \<Rightarrow> nat \<Rightarrow> 'a word list \<Rightarrow> nat \<Rightarrow> 'a word list \<times> 'a word" where
  "bigint_add3_nc z x x_size y y_size =
     (if x_size < y_size then bigint_add3_nc_ordered z y y_size x x_size
      else bigint_add3_nc_ordered z x x_size y y_size)"

definition bigint_add2 :: "'a::len word list \<Rightarrow> nat \<Rightarrow> 'a word list \<Rightarrow> nat \<Rightarrow> 'a word list" where
  "bigint_add2 x x_size y y_size =
     (let (x, carry) = bigint_add2_nc x x_size y y_size
      in if carry \<noteq> 0 then x[x_size := x ! x_size + 1] else x)"

definition bigint_add3 ::
  "'a::len word list \<Rightarrow> 'a word list \<Rightarrow> nat \<Rightarrow> 'a word list \<Rightarrow> nat \<Rightarrow> 'a word list" where
  "bigint_add3 z x x_size y y_size =
     (let (z, carry) = bigint_add3_nc z x x_size y y_size;
          n = (if x_size > y_size then x_size else y_size)
      in if carry \<noteq> 0 then z[n := z ! n + 1] else z)"

text \<open>\<open>for (; j != x_size; ++j) { --x[j]; if (x[j] != MP_WORD_MAX) return; }\<close>\<close>

function sub_borrow_loop :: "'a::len word list \<Rightarrow> nat \<Rightarrow> nat \<Rightarrow> 'a word list" where
  "sub_borrow_loop x j x_size =
     (if j < x_size
      then let x = x[j := x ! j - 1]
           in if x ! j \<noteq> -1 then x else sub_borrow_loop x (Suc j) x_size
      else x)"
  by pat_completeness auto
termination
  by (relation "measure (\<lambda>(x, j, x_size). x_size - j)") auto

declare sub_borrow_loop.simps [simp del]

definition bigint_sub2 :: "'a::len word list \<Rightarrow> nat \<Rightarrow> 'a word list \<Rightarrow> nat \<Rightarrow> 'a word list" where
  "bigint_sub2 x x_size y y_size =
     (let blocks = y_size - y_size mod 8;
          (x, carry) = for_by8 blocks (\<lambda>j. block_at j (\<lambda>x carry. word8_sub2 x (drop j y) carry)) (x, 0);
          (x, carry) = for_up blocks y_size (upd_step (\<lambda>j xj c. word_sub xj (y ! j) c)) (x, carry)
      in if carry = 0 then x else sub_borrow_loop x y_size x_size)"

definition bigint_sub3 ::
  "'a::len word list \<Rightarrow> 'a word list \<Rightarrow> nat \<Rightarrow> 'a word list \<Rightarrow> nat \<Rightarrow> 'a word list" where
  "bigint_sub3 z x x_size y y_size =
     (let blocks = y_size - y_size mod 8;
          (z, carry) = for_by8 blocks
            (\<lambda>j. block_at j (\<lambda>z carry. word8_sub3 z (drop j x) (drop j y) carry)) (z, 0);
          (z, carry) = for_up blocks y_size (upd_step (\<lambda>j zj c. word_sub (x ! j) (y ! j) c)) (z, carry)
      in fst (for_up y_size x_size
           (upd_step (\<lambda>j zj carry. let x_j = x ! j - carry
                                    in (x_j, if carry \<noteq> 0 \<and> x_j \<noteq> -1 then 0 else carry))) (z, carry)))"

definition bigint_linmul2 :: "'a::len word list \<Rightarrow> nat \<Rightarrow> 'a word \<Rightarrow> 'a word list" where
  "bigint_linmul2 x x_size y =
     (let blocks = x_size - x_size mod 8;
          (x, carry) = for_by8 blocks (\<lambda>j. block_at j (\<lambda>x carry. word8_linmul2 x y carry)) (x, 0);
          (x, carry) = for_up blocks x_size (upd_step (\<lambda>j xj c. word_madd2 xj y c)) (x, carry)
      in x[x_size := carry])"

definition bigint_linmul3 :: "'a::len word list \<Rightarrow> 'a word list \<Rightarrow> nat \<Rightarrow> 'a word \<Rightarrow> 'a word list" where
  "bigint_linmul3 z x x_size y =
     (let blocks = x_size - x_size mod 8;
          (z, carry) = for_by8 blocks
            (\<lambda>j. block_at j (\<lambda>z carry. word8_linmul3 z (drop j x) y carry)) (z, 0);
          (z, carry) = for_up blocks x_size (upd_step (\<lambda>j zj c. word_madd2 (x ! j) y c)) (z, carry)
      in z[x_size := carry])"

section \<open>The steps are carry and borrow chains\<close>

interpretation add2_chain: carry_chain "\<lambda>j xj c. word_add xj (y ! j) c"
    "\<lambda>j xj. unat xj + unat (y ! j)" "\<lambda>c. c \<le> 1" for y :: "'a::len word list"
  by unfold_locales (rule word_add_val)

interpretation linmul2_chain: carry_chain "\<lambda>j xj c. word_madd2 xj y c"
    "\<lambda>j xj. unat xj * unat y" "\<lambda>c. True" for y :: "'a::len word"
  by unfold_locales (simp add: word_madd2_val)

interpretation linmul3_chain: carry_chain "\<lambda>j zj c. word_madd2 (x ! j) y c"
    "\<lambda>j zj. unat (x ! j) * unat y" "\<lambda>c. True" for x :: "'a::len word list" and y
  by unfold_locales (simp add: word_madd2_val)

interpretation madd3_chain: carry_chain "\<lambda>j zj c. word_madd3 (x ! j) y zj c"
    "\<lambda>j zj. unat (x ! j) * unat y + unat zj" "\<lambda>c. True" for x :: "'a::len word list" and y
  by unfold_locales (simp add: word_madd3_val)

interpretation sub2_chain: borrow_chain "\<lambda>j xj c. word_sub xj (y ! j) c"
    "\<lambda>j xj. unat xj" "\<lambda>j. unat (y ! j)" for y :: "'a::len word list"
  by unfold_locales (rule word_sub_val)

text \<open>
  The three-operand forms run a word step on the common part and only pass the carry on
  over the rest of the longer operand: one chain over the whole of it.
\<close>

lemma carry_only_val:
  assumes "(c :: 'a::len word) \<le> 1"
  shows "unat (x + c) + 2 ^ LENGTH('a) * unat (if c \<noteq> 0 \<and> x + c \<noteq> 0 then 0 else c) = unat x + unat c"
proof -
  have "x + c < c \<longleftrightarrow> c = 1 \<and> x + c = 0"
    using carry_cases[OF assms] by (auto simp: word_less_1)
  then show ?thesis
    using add_overflow_val[of c x] carry_cases[OF assms] by (auto simp: add.commute)
qed

lemma borrow_only_val:
  assumes "(c :: 'a::len word) \<le> 1"
  shows "unat (x - c) + unat c = unat x + 2 ^ LENGTH('a) * unat (if c \<noteq> 0 \<and> x - c \<noteq> -1 then 0 else c)"
proof -
  show ?thesis
    using sub_borrow_val[of x c] carry_cases[OF assms] by (auto simp: diff_eq_eq less_pred_iff)
qed

definition add3_step where
  "add3_step x y y_size j zj c = (if j < y_size then word_add (x ! j) (y ! j) c
     else (x ! j + c, if c \<noteq> 0 \<and> x ! j + c \<noteq> 0 then 0 else (c :: 'a::len word)))"

definition sub3_step where
  "sub3_step x y y_size j zj c = (if j < y_size then word_sub (x ! j) (y ! j) c
     else (x ! j - c, if c \<noteq> 0 \<and> x ! j - c \<noteq> -1 then 0 else (c :: 'a::len word)))"

interpretation add3_chain: carry_chain "add3_step x y y_size"
    "\<lambda>j zj. unat (x ! j) + (if j < y_size then unat (y ! j) else 0)" "\<lambda>c. c \<le> 1"
  for x y :: "'a::len word list" and y_size
proof
  fix c r c' :: "'a word" and j zj
  assume c: "c \<le> 1" and r: "add3_step x y y_size j zj c = (r, c')"
  show "unat r + 2 ^ LENGTH('a) * unat c' =
      unat (x ! j) + (if j < y_size then unat (y ! j) else 0) + unat c \<and> c' \<le> 1"
    using word_add_val[of "x ! j" "y ! j" c r c'] carry_only_val[OF c, of "x ! j"] c r
    by (auto simp: add3_step_def split: if_splits)
qed

interpretation sub3_chain: borrow_chain "sub3_step x y y_size"
    "\<lambda>j zj. unat (x ! j)" "\<lambda>j. if j < y_size then unat (y ! j) else 0"
  for x y :: "'a::len word list" and y_size
proof
  fix c r c' :: "'a word" and j zj
  assume c: "c \<le> 1" and r: "sub3_step x y y_size j zj c = (r, c')"
  show "unat r + (if j < y_size then unat (y ! j) else 0) + unat c =
      unat (x ! j) + 2 ^ LENGTH('a) * unat c' \<and> c' \<le> 1"
    using word_sub_val[of "x ! j" "y ! j" c r c'] borrow_only_val[OF c, of "x ! j"] c r
    by (auto simp: sub3_step_def split: if_splits)
qed

section \<open>The blocked loops are the plain chains\<close>

lemma add2_loop:
  "y_size \<le> length x \<Longrightarrow> y_size \<le> length y \<Longrightarrow>
    for_up (y_size - y_size mod 8) y_size (upd_step (\<lambda>j xj c. word_add xj (y ! j) c))
      (for_by8 (y_size - y_size mod 8) (\<lambda>j. block_at j (\<lambda>x carry. word8_add2 x (drop j y) carry)) (x, c)) =
    for_up 0 y_size (upd_step (\<lambda>j xj c. word_add xj (y ! j) c)) (x, c)"
  by (rule blocked_chain) (simp_all add: word8_add2_def)

lemma add3_loop:
  "y_size \<le> length z \<Longrightarrow> y_size \<le> length y \<Longrightarrow> y_size \<le> length x \<Longrightarrow>
    for_up (y_size - y_size mod 8) y_size (upd_step (\<lambda>j zj c. word_add (x ! j) (y ! j) c))
      (for_by8 (y_size - y_size mod 8) (\<lambda>j. block_at j (\<lambda>z carry. word8_add3 z (drop j x) (drop j y) carry)) (z, c)) =
    for_up 0 y_size (upd_step (\<lambda>j zj c. word_add (x ! j) (y ! j) c)) (z, c)"
  by (rule blocked_chain) (simp_all add: word8_add3_def)

lemma sub2_loop:
  "y_size \<le> length x \<Longrightarrow> y_size \<le> length y \<Longrightarrow>
    for_up (y_size - y_size mod 8) y_size (upd_step (\<lambda>j xj c. word_sub xj (y ! j) c))
      (for_by8 (y_size - y_size mod 8) (\<lambda>j. block_at j (\<lambda>x carry. word8_sub2 x (drop j y) carry)) (x, c)) =
    for_up 0 y_size (upd_step (\<lambda>j xj c. word_sub xj (y ! j) c)) (x, c)"
  by (rule blocked_chain) (simp_all add: word8_sub2_def)

lemma sub3_loop:
  "y_size \<le> length z \<Longrightarrow> y_size \<le> length y \<Longrightarrow> y_size \<le> length x \<Longrightarrow>
    for_up (y_size - y_size mod 8) y_size (upd_step (\<lambda>j zj c. word_sub (x ! j) (y ! j) c))
      (for_by8 (y_size - y_size mod 8) (\<lambda>j. block_at j (\<lambda>z carry. word8_sub3 z (drop j x) (drop j y) carry)) (z, c)) =
    for_up 0 y_size (upd_step (\<lambda>j zj c. word_sub (x ! j) (y ! j) c)) (z, c)"
  by (rule blocked_chain) (simp_all add: word8_sub3_def)

lemma linmul2_loop:
  "x_size \<le> length x \<Longrightarrow>
    for_up (x_size - x_size mod 8) x_size (upd_step (\<lambda>j xj c. word_madd2 xj y c))
      (for_by8 (x_size - x_size mod 8) (\<lambda>j. block_at j (\<lambda>x carry. word8_linmul2 x y carry)) (x, c)) =
    for_up 0 x_size (upd_step (\<lambda>j xj c. word_madd2 xj y c)) (x, c)"
  by (rule blocked_chain) (simp_all add: word8_linmul2_def)

lemma linmul3_loop:
  "x_size \<le> length z \<Longrightarrow> x_size \<le> length x \<Longrightarrow>
    for_up (x_size - x_size mod 8) x_size (upd_step (\<lambda>j zj c. word_madd2 (x ! j) y c))
      (for_by8 (x_size - x_size mod 8) (\<lambda>j. block_at j (\<lambda>z carry. word8_linmul3 z (drop j x) y carry)) (z, c)) =
    for_up 0 x_size (upd_step (\<lambda>j zj c. word_madd2 (x ! j) y c)) (z, c)"
  by (rule blocked_chain) (simp_all add: word8_linmul3_def)

lemma madd3_loop:
  "x_size \<le> length z \<Longrightarrow> x_size \<le> length x \<Longrightarrow>
    for_up (x_size - x_size mod 8) x_size (upd_step (\<lambda>j zj c. word_madd3 (x ! j) y zj c))
      (for_by8 (x_size - x_size mod 8) (\<lambda>j. block_at j (\<lambda>z carry. word8_madd3 z (drop j x) y carry)) (z, c)) =
    for_up 0 x_size (upd_step (\<lambda>j zj c. word_madd3 (x ! j) y zj c)) (z, c)"
  by (rule blocked_chain) (simp_all add: word8_madd3_def)

section \<open>Values\<close>

lemma unat_inc: "x + 1 \<noteq> 0 \<Longrightarrow> unat (x + 1) = unat x + 1" for x :: "'a::len word"
  using unatSuc[of x] by (simp add: add.commute)

lemma carry_out: "a + b * u = t \<Longrightarrow> u + 1 = B \<Longrightarrow> a + b * B = t + (b :: nat)"
  by (auto simp: algebra_simps)

lemma add_carry_loop_val:
  fixes x :: "'a::len word list"
  assumes "j \<le> n" and "n \<le> length x" and "add_carry_loop x j n = (x', c)"
  shows "length x' = length x \<and> drop n x' = drop n x \<and> c \<le> 1 \<and>
    mp_val (take n x') + (2 ^ LENGTH('a)) ^ n * unat c = mp_val (take n x) + (2 ^ LENGTH('a)) ^ j"
  using assms
proof (induction x j n rule: add_carry_loop.induct)
  case (1 x j n)
  show ?case
  proof (cases "j < n")
    case True
    let ?y = "x[j := x ! j + 1]"
    have j: "j < length x" using True 1 by simp
    have v: "mp_val (take n ?y) + (2 ^ LENGTH('a)) ^ j * unat (x ! j) =
        mp_val (take n x) + (2 ^ LENGTH('a)) ^ j * unat (x ! j + 1)"
      using True 1 by (intro mp_val_take_update)
    show ?thesis
    proof (cases "x ! j + 1 = 0")
      case False
      then have "x' = ?y" "c = 0"
        using "1.prems"(3) True j by (simp_all add: add_carry_loop.simps[of x j n] Let_def)
      moreover have "mp_val (take n ?y) = mp_val (take n x) + (2 ^ LENGTH('a)) ^ j"
        using v by (simp only: unat_inc[OF False] distrib_left mult_1_right)
      ultimately show ?thesis using True by simp
    next
      case zero: True
      then have rec: "add_carry_loop ?y (Suc j) n = (x', c)"
        using "1.prems"(3) True j by (simp add: add_carry_loop.simps[of x j n] Let_def)
      have "unat (x ! j) + 1 = 2 ^ LENGTH('a)"
        using add_overflow_val[of 1 "x ! j"] zero by (simp add: add.commute)
      then have "mp_val (take n ?y) + (2 ^ LENGTH('a)) ^ Suc j = mp_val (take n x) + (2 ^ LENGTH('a)) ^ j"
        using v zero carry_out[of _ "(2 ^ LENGTH('a)) ^ j"] by (simp add: power_Suc2 del: power_Suc)
      with "1.IH"[OF True refl] rec zero "1.prems" True j show ?thesis by simp
    qed
  next
    case False
    with 1 show ?thesis using add_carry_loop.simps[of x j n] by auto
  qed
qed

lemma sub_borrow_loop_val:
  fixes x :: "'a::len word list"
  assumes "j \<le> n" and "n \<le> length x"
  shows "length (sub_borrow_loop x j n) = length x \<and> drop n (sub_borrow_loop x j n) = drop n x \<and>
    (\<exists>b. mp_val (take n (sub_borrow_loop x j n)) + (2 ^ LENGTH('a)) ^ j = mp_val (take n x) + (2 ^ LENGTH('a)) ^ n * b)"
  using assms
proof (induction x j n rule: sub_borrow_loop.induct)
  case (1 x j n)
  show ?case
  proof (cases "j < n")
    case True
    let ?y = "x[j := x ! j - 1]"
    have j: "j < length x" using True 1 by simp
    have v: "mp_val (take n ?y) + (2 ^ LENGTH('a)) ^ j * unat (x ! j) =
        mp_val (take n x) + (2 ^ LENGTH('a)) ^ j * unat (x ! j - 1)"
      using True 1 by (intro mp_val_take_update)
    have b: "unat (x ! j - 1) + 1 = unat (x ! j) + 2 ^ LENGTH('a) * of_bool (x ! j < x ! j - 1)"
      using sub_borrow_val[of "x ! j" 1] by simp
    show ?thesis
    proof (cases "x ! j - 1 = -1")
      case False
      then have x': "sub_borrow_loop x j n = ?y"
        using True j by (simp add: sub_borrow_loop.simps[of x j n] Let_def)
      have "unat (x ! j) = unat (x ! j - 1) + 1"
        using False unat_inc[of "x ! j - 1"] by (auto simp: diff_eq_eq)
      then have "mp_val (take n ?y) + (2 ^ LENGTH('a)) ^ j = mp_val (take n x)"
        using v by (simp only: distrib_left mult_1_right)
      then show ?thesis using x' True by (auto intro!: exI[of _ 0])
    next
      case max: True
      then have rec: "sub_borrow_loop x j n = sub_borrow_loop ?y (Suc j) n"
        using True j by (simp add: sub_borrow_loop.simps[of x j n] Let_def)
      have "x ! j = 0" using max by (simp add: diff_eq_eq)
      moreover have "unat (- 1 :: 'a word) + 1 = 2 ^ LENGTH('a)"
        by (simp add: unsigned_minus_1_eq_mask mask_eq_exp_minus_1)
      ultimately have "mp_val (take n ?y) + (2 ^ LENGTH('a)) ^ j = mp_val (take n x) + (2 ^ LENGTH('a)) ^ Suc j"
        using v max carry_out[of "mp_val (take n x)" "(2 ^ LENGTH('a)) ^ j"]
        by (simp add: power_Suc2 del: power_Suc)
      moreover obtain b where "mp_val (take n (sub_borrow_loop ?y (Suc j) n)) + (2 ^ LENGTH('a)) ^ Suc j =
          mp_val (take n ?y) + (2 ^ LENGTH('a)) ^ n * b"
        using "1.IH"[OF True refl] max "1.prems" True j by auto
      ultimately have "mp_val (take n (sub_borrow_loop ?y (Suc j) n)) + (2 ^ LENGTH('a)) ^ j =
          mp_val (take n x) + (2 ^ LENGTH('a)) ^ n * b"
        by linarith
      then show ?thesis using "1.IH"[OF True refl] max "1.prems" True j unfolding rec by auto
    qed
  next
    case False
    with 1 show ?thesis using sub_borrow_loop.simps[of x j n] by (auto intro!: exI[of _ 1])
  qed
qed

lemma bigint_add2_nc_val:
  fixes x y :: "'a::len word list"
  assumes "y_size \<le> x_size" and "x_size \<le> length x" and "y_size \<le> length y"
    and "bigint_add2_nc x x_size y y_size = (x', c)"
  shows "length x' = length x \<and> drop x_size x' = drop x_size x \<and> c \<le> 1 \<and>
    mp_val (take x_size x') + (2 ^ LENGTH('a)) ^ x_size * unat c =
      mp_val (take x_size x) + mp_val (take y_size y)"
proof -
  obtain w d where w: "for_up 0 y_size (upd_step (\<lambda>j xj c. word_add xj (y ! j) c)) (x, 0) = (w, d)"
    by (rule prod.exhaust)
  have ch: "length w = length x" "drop y_size w = drop y_size x" "d \<le> 1"
    "mp_val (take y_size w) + (2 ^ LENGTH('a)) ^ y_size * unat d = mp_val (take y_size x) + mp_val (take y_size y)"
    using add2_chain.chain[OF _ _ w] assms(1-3)
    by (simp_all add: mp_val_take_sum[of y_size x] mp_val_take_sum[of y_size y] sum.distrib distrib_left)
  have r: "(x', c) = (if d = 0 then (w, 0) else add_carry_loop w y_size x_size)"
    using assms w by (simp add: bigint_add2_nc_def Let_def add2_loop)
  have split: "mp_val (take x_size xs) = mp_val (take y_size xs) +
      (2 ^ LENGTH('a)) ^ y_size * mp_val (take (x_size - y_size) (drop y_size xs))"
    if "length xs = length x" for xs :: "'a word list"
    using mp_val_split[of "take x_size xs" y_size] assms(1,2) that by (simp add: min_def drop_take)
  have v: "mp_val (take x_size w) + (2 ^ LENGTH('a)) ^ y_size * unat d = mp_val (take x_size x) + mp_val (take y_size y)"
    using split[of w] split[of x] ch by simp
  have dr: "drop x_size w = drop x_size x" using drop_eq_mono[OF ch(2) assms(1)] .
  show ?thesis
  proof (cases "d = 0")
    case True
    with r v ch dr show ?thesis by simp
  next
    case False
    then have "d = 1" using carry_cases[OF ch(3)] by simp
    moreover have "add_carry_loop w y_size x_size = (x', c)" using r False by simp
    ultimately show ?thesis using add_carry_loop_val[of y_size x_size w x' c] assms ch(1) v dr by simp
  qed
qed

text \<open>
  The shorter operand contributes nothing beyond its size.
\<close>

lemma sum_padded:
  fixes y :: "'a::len word list"
  assumes "m \<le> n" and "m \<le> length y"
  shows "(\<Sum>j<n. (2 ^ LENGTH('a)) ^ j * (if j < m then unat (y ! j) else 0)) = mp_val (take m y)"
proof -
  have "(\<Sum>j<n. (2 ^ LENGTH('a)) ^ j * (if j < m then unat (y ! j) else 0)) =
      (\<Sum>j<m. (2 ^ LENGTH('a)) ^ j * (if j < m then unat (y ! j) else 0))"
    using assms(1) by (intro sum.mono_neutral_right) auto
  also have "\<dots> = mp_val (take m y)" using assms(2) by (simp add: mp_val_take_sum)
  finally show ?thesis .
qed

lemma upd_loop_local:
  assumes "\<And>j zj c. a \<le> j \<Longrightarrow> j < b \<Longrightarrow> F j zj c = G j zj c"
  shows "for_up a b (upd_step F) s = for_up a b (upd_step G) s"
  using assms by (intro for_up_cong) (simp add: upd_step_def)

lemma bigint_add3_nc_ordered_val:
  fixes x y z :: "'a::len word list"
  assumes "y_size \<le> x_size" and "x_size \<le> length x" and "y_size \<le> length y" and "x_size \<le> length z"
    and "bigint_add3_nc_ordered z x x_size y y_size = (z', c)"
  shows "length z' = length z \<and> drop x_size z' = drop x_size z \<and> c \<le> 1 \<and>
    mp_val (take x_size z') + (2 ^ LENGTH('a)) ^ x_size * unat c =
      mp_val (take x_size x) + mp_val (take y_size y)"
proof -
  let ?F = "add3_step x y y_size"
  have "for_up 0 y_size (upd_step (\<lambda>j zj c. word_add (x ! j) (y ! j) c)) (z, 0) = for_up 0 y_size (upd_step ?F) (z, 0)"
    by (rule upd_loop_local) (simp add: add3_step_def)
  moreover have "for_up y_size x_size (upd_step (\<lambda>j zj carry. let x_j = x ! j + carry
        in (x_j, if carry \<noteq> 0 \<and> x_j \<noteq> 0 then 0 else carry))) s = for_up y_size x_size (upd_step ?F) s" for s
    by (rule upd_loop_local) (simp add: add3_step_def Let_def)
  ultimately have "for_up 0 x_size (upd_step ?F) (z, 0) = (z', c)"
    using assms for_up_split[of 0 y_size x_size "upd_step ?F" "(z, 0)"]
    by (simp add: bigint_add3_nc_ordered_def Let_def add3_loop)
  from add3_chain.chain[OF _ _ this] assms show ?thesis
    by (simp add: mp_val_take_sum[of x_size x] sum_padded sum.distrib distrib_left)
qed

lemma bigint_add3_nc_val:
  fixes x y z :: "'a::len word list"
  assumes "x_size \<le> length x" and "y_size \<le> length y" and "max x_size y_size \<le> length z"
    and "bigint_add3_nc z x x_size y y_size = (z', c)"
  shows "length z' = length z \<and> drop (max x_size y_size) z' = drop (max x_size y_size) z \<and> c \<le> 1 \<and>
    mp_val (take (max x_size y_size) z') + (2 ^ LENGTH('a)) ^ max x_size y_size * unat c =
      mp_val (take x_size x) + mp_val (take y_size y)"
  using bigint_add3_nc_ordered_val[of y_size x_size x y z z' c] bigint_add3_nc_ordered_val[of x_size y_size y x z z' c] assms
  by (auto simp: bigint_add3_nc_def max_def split: if_splits)

lemma bigint_sub3_val:
  fixes x y z :: "'a::len word list"
  assumes "y_size \<le> x_size" and "x_size \<le> length x" and "y_size \<le> length y" and "x_size \<le> length z"
  shows "length (bigint_sub3 z x x_size y y_size) = length z \<and>
    drop x_size (bigint_sub3 z x x_size y y_size) = drop x_size z \<and>
    (\<exists>b. mp_val (take x_size (bigint_sub3 z x x_size y y_size)) + mp_val (take y_size y) =
      mp_val (take x_size x) + (2 ^ LENGTH('a)) ^ x_size * b)"
proof -
  let ?F = "sub3_step x y y_size"
  obtain z' c where r: "for_up 0 x_size (upd_step ?F) (z, 0) = (z', c)" by (rule prod.exhaust)
  have "for_up 0 y_size (upd_step (\<lambda>j zj c. word_sub (x ! j) (y ! j) c)) (z, 0) = for_up 0 y_size (upd_step ?F) (z, 0)"
    by (rule upd_loop_local) (simp add: sub3_step_def)
  moreover have "for_up y_size x_size (upd_step (\<lambda>j zj carry. let x_j = x ! j - carry
        in (x_j, if carry \<noteq> 0 \<and> x_j \<noteq> -1 then 0 else carry))) s = for_up y_size x_size (upd_step ?F) s" for s
    by (rule upd_loop_local) (simp add: sub3_step_def Let_def)
  ultimately have "bigint_sub3 z x x_size y y_size = z'"
    using assms r for_up_split[of 0 y_size x_size "upd_step ?F" "(z, 0)"]
    by (simp add: bigint_sub3_def Let_def sub3_loop)
  with sub3_chain.chain[OF _ _ r] assms show ?thesis
    by (auto simp: mp_val_take_sum[of x_size x] sum_padded)
qed

lemma bigint_sub2_val:
  fixes x y :: "'a::len word list"
  assumes "y_size \<le> x_size" and "x_size \<le> length x" and "y_size \<le> length y"
  shows "length (bigint_sub2 x x_size y y_size) = length x \<and>
    drop x_size (bigint_sub2 x x_size y y_size) = drop x_size x \<and>
    (\<exists>b. mp_val (take x_size (bigint_sub2 x x_size y y_size)) + mp_val (take y_size y) =
      mp_val (take x_size x) + (2 ^ LENGTH('a)) ^ x_size * b)"
proof -
  obtain w d where w: "for_up 0 y_size (upd_step (\<lambda>j xj c. word_sub xj (y ! j) c)) (x, 0) = (w, d)"
    by (rule prod.exhaust)
  have ch: "length w = length x" "drop y_size w = drop y_size x" "d \<le> 1"
    "mp_val (take y_size w) + mp_val (take y_size y) = mp_val (take y_size x) + (2 ^ LENGTH('a)) ^ y_size * unat d"
    using sub2_chain.chain[OF _ _ w] assms
    by (simp_all add: mp_val_take_sum[of y_size x] mp_val_take_sum[of y_size y])
  have r: "bigint_sub2 x x_size y y_size = (if d = 0 then w else sub_borrow_loop w y_size x_size)"
    using assms w by (simp add: bigint_sub2_def Let_def sub2_loop)
  have split: "mp_val (take x_size xs) = mp_val (take y_size xs) +
      (2 ^ LENGTH('a)) ^ y_size * mp_val (take (x_size - y_size) (drop y_size xs))"
    if "length xs = length x" for xs :: "'a word list"
    using mp_val_split[of "take x_size xs" y_size] assms(1,2) that by (simp add: min_def drop_take)
  have v: "mp_val (take x_size w) + mp_val (take y_size y) = mp_val (take x_size x) + (2 ^ LENGTH('a)) ^ y_size * unat d"
    using split[of w] split[of x] ch by simp
  have dr: "drop x_size w = drop x_size x" using drop_eq_mono[OF ch(2) assms(1)] .
  show ?thesis
  proof (cases "d = 0")
    case True
    with r v ch dr show ?thesis by (auto intro!: exI[of _ 0])
  next
    case False
    then have d: "d = 1" using carry_cases[OF ch(3)] by simp
    obtain b where "mp_val (take x_size (sub_borrow_loop w y_size x_size)) + (2 ^ LENGTH('a)) ^ y_size =
        mp_val (take x_size w) + (2 ^ LENGTH('a)) ^ x_size * b"
      using sub_borrow_loop_val[of y_size x_size w] assms ch(1) by auto
    then have "mp_val (take x_size (sub_borrow_loop w y_size x_size)) + mp_val (take y_size y) =
        mp_val (take x_size x) + (2 ^ LENGTH('a)) ^ x_size * b"
      using v d by simp
    then show ?thesis using sub_borrow_loop_val[of y_size x_size w] assms ch(1) dr r False by auto
  qed
qed

text \<open>A difference that fits has no borrow left over.\<close>

lemma no_borrow:
  fixes xs :: "'a::len word list"
  assumes "mp_val (take n xs) + v = u + (2 ^ LENGTH('a)) ^ n * b" and "v \<le> u" and "u - v < (2 ^ LENGTH('a)) ^ n"
  shows "mp_val (take n xs) = u - v"
proof -
  have "mp_val (take n xs) < (2 ^ LENGTH('a)) ^ n"
    by (rule mp_val_take_bound)
  moreover have "mp_val (take n xs) = (u - v) + (2 ^ LENGTH('a)) ^ n * b" using assms(1,2) by simp
  ultimately show ?thesis by (cases b) simp_all
qed

lemma bigint_sub2_diff:
  fixes x y :: "'a::len word list"
  assumes "y_size \<le> x_size" and "x_size \<le> length x" and "y_size \<le> length y"
    and "mp_val (take y_size y) \<le> mp_val (take x_size x)"
  shows "mp_val (take x_size (bigint_sub2 x x_size y y_size)) = mp_val (take x_size x) - mp_val (take y_size y)"
proof -
  obtain b where "mp_val (take x_size (bigint_sub2 x x_size y y_size)) + mp_val (take y_size y) =
      mp_val (take x_size x) + (2 ^ LENGTH('a)) ^ x_size * b"
    using bigint_sub2_val[OF assms(1-3)] by blast
  from no_borrow[OF this assms(4)] show ?thesis
    using mp_val_take_bound[of x_size x] by linarith
qed

lemma bigint_sub3_diff:
  fixes x y z :: "'a::len word list"
  assumes "y_size \<le> x_size" and "x_size \<le> length x" and "y_size \<le> length y" and "x_size \<le> length z"
    and "mp_val (take y_size y) \<le> mp_val (take x_size x)"
  shows "mp_val (take x_size (bigint_sub3 z x x_size y y_size)) = mp_val (take x_size x) - mp_val (take y_size y)"
proof -
  obtain b where "mp_val (take x_size (bigint_sub3 z x x_size y y_size)) + mp_val (take y_size y) =
      mp_val (take x_size x) + (2 ^ LENGTH('a)) ^ x_size * b"
    using bigint_sub3_val[OF assms(1-4)] by blast
  from no_borrow[OF this assms(5)] show ?thesis
    using mp_val_take_bound[of x_size x] by linarith
qed

lemma bigint_linmul3_val:
  fixes x z :: "'a::len word list"
  assumes "x_size \<le> length x" and "x_size < length z"
  shows "length (bigint_linmul3 z x x_size y) = length z \<and>
    drop (Suc x_size) (bigint_linmul3 z x x_size y) = drop (Suc x_size) z \<and>
    mp_val (take (Suc x_size) (bigint_linmul3 z x x_size y)) = mp_val (take x_size x) * unat y"
proof -
  obtain w d where w: "for_up 0 x_size (upd_step (\<lambda>j zj c. word_madd2 (x ! j) y c)) (z, 0) = (w, d)"
    by (rule prod.exhaust)
  have ch: "length w = length z" "drop x_size w = drop x_size z"
    "mp_val (take x_size w) + (2 ^ LENGTH('a)) ^ x_size * unat d = mp_val (take x_size x) * unat y"
    using linmul3_chain.chain[OF _ _ w] assms
    by (simp_all add: mp_val_take_sum[of x_size x] sum_distrib_right mult.assoc)
  have "bigint_linmul3 z x x_size y = w[x_size := d]"
    using assms w by (simp add: bigint_linmul3_def Let_def linmul3_loop)
  then show ?thesis using ch assms(2) drop_eq_Suc[OF ch(2)] by (simp add: mp_val_take_Suc)
qed

lemma bigint_linmul2_val:
  fixes x :: "'a::len word list"
  assumes "x_size < length x"
  shows "length (bigint_linmul2 x x_size y) = length x \<and>
    drop (Suc x_size) (bigint_linmul2 x x_size y) = drop (Suc x_size) x \<and>
    mp_val (take (Suc x_size) (bigint_linmul2 x x_size y)) = mp_val (take x_size x) * unat y"
proof -
  obtain w d where w: "for_up 0 x_size (upd_step (\<lambda>j xj c. word_madd2 xj y c)) (x, 0) = (w, d)"
    by (rule prod.exhaust)
  have ch: "length w = length x" "drop x_size w = drop x_size x"
    "mp_val (take x_size w) + (2 ^ LENGTH('a)) ^ x_size * unat d = mp_val (take x_size x) * unat y"
    using linmul2_chain.chain[OF _ _ w] assms
    by (simp_all add: mp_val_take_sum[of x_size x] sum_distrib_right mult.assoc)
  have "bigint_linmul2 x x_size y = w[x_size := d]"
    using assms w by (simp add: bigint_linmul2_def Let_def linmul2_loop)
  then show ?thesis using ch assms drop_eq_Suc[OF ch(2)] by (simp add: mp_val_take_Suc)
qed

end
