(* ===== verification/MP_Mul.thy ===== *)
theory MP_Mul
  imports MP_Linear
begin

text \<open>
  Schoolbook multiplication and squaring (\<open>mulop_generic/mp_mulop.cpp\<close>) and Montgomery
  reduction (\<open>monty_generic/mp_monty.cpp\<close>). Both are built from one row operation, which
  adds a multiple of a word array to the array at a pointer.
\<close>

section \<open>One row\<close>

text \<open>
  The two inner loops of \<open>bigint_simple_mul\<close>, \<open>bigint_simple_sqr\<close> and \<open>bigint_monty_redc\<close>:
  \<open>z\<close> is the pointer (\<open>z + i\<close>) the row starts at; the final carry is returned.
\<close>

definition madd3_row :: "'a::len word list \<Rightarrow> 'a word list \<Rightarrow> nat \<Rightarrow> 'a word \<Rightarrow> 'a word list \<times> 'a word" where
  "madd3_row z x x_size y =
     (let blocks_of_8 = x_size - x_size mod 8;
          (z, carry) = for_by8 blocks_of_8
            (\<lambda>j. block_at j (\<lambda>z carry. word8_madd3 z (drop j x) y carry)) (z, 0)
      in for_up blocks_of_8 x_size (upd_step (\<lambda>j zj c. word_madd3 (x ! j) y zj c)) (z, carry))"

lemma madd3_row_val:
  fixes x z :: "'a::len word list"
  assumes "x_size \<le> length x" and "x_size \<le> length z" and "madd3_row z x x_size y = (z', c)"
  shows "length z' = length z \<and> drop x_size z' = drop x_size z \<and>
    mp_val (take x_size z') + (2 ^ LENGTH('a)) ^ x_size * unat c =
      mp_val (take x_size z) + mp_val (take x_size x) * unat y"
proof -
  have "for_up 0 x_size (upd_step (\<lambda>j zj c. word_madd3 (x ! j) y zj c)) (z, 0) = (z', c)"
    using assms by (simp add: madd3_row_def Let_def madd3_loop)
  from madd3_chain.chain[OF _ _ this] assms show ?thesis
    by (simp add: mp_val_take_sum[of x_size x] mp_val_take_sum[of x_size z] sum.distrib
        distrib_left sum_distrib_right mult.assoc)
qed

section \<open>Schoolbook multiplication and squaring\<close>

definition bigint_simple_mul ::
  "'a::len word list \<Rightarrow> 'a word list \<Rightarrow> nat \<Rightarrow> 'a word list \<Rightarrow> nat \<Rightarrow> 'a word list" where
  "bigint_simple_mul z x x_size y y_size =
     for_up 0 y_size
       (\<lambda>i z. let y_i = y ! i;
                  (z, carry) = block_at i (\<lambda>z_i _. madd3_row z_i x x_size y_i) (z, 0)
              in z[x_size + i := carry])
       (clear_mem z (x_size + y_size))"

definition bigint_simple_sqr :: "'a::len word list \<Rightarrow> 'a word list \<Rightarrow> nat \<Rightarrow> 'a word list" where
  "bigint_simple_sqr z x x_size =
     for_up 0 x_size
       (\<lambda>i z. let x_i = x ! i;
                  (z, carry) = block_at i (\<lambda>z_i _. madd3_row z_i x x_size x_i) (z, 0)
              in z[x_size + i := carry])
       (clear_mem z (2 * x_size))"

lemma bigint_simple_sqr_mul: "bigint_simple_sqr z x x_size = bigint_simple_mul z x x_size x x_size"
  by (simp add: bigint_simple_sqr_def bigint_simple_mul_def mult_2)

lemma simple_mul_row:
  fixes x z :: "'a::len word list"
  assumes "x_size \<le> length x" and "x_size + i < length z"
    and "block_at i (\<lambda>z_i _. madd3_row z_i x x_size w) (z, 0) = (z', c)"
  shows "length z' = length z \<and> drop (x_size + i) z' = drop (x_size + i) z \<and>
    mp_val (take (Suc (x_size + i)) (z'[x_size + i := c])) =
      mp_val (take (x_size + i) z) + (2 ^ LENGTH('a)) ^ i * (mp_val (take x_size x) * unat w)"
proof -
  obtain zi where zi: "madd3_row (drop i z) x x_size w = (zi, c)" and z': "z' = take i z @ zi"
    using assms(3) by (auto simp: block_at_def split: prod.splits)
  have r: "length zi = length z - i" "drop x_size zi = drop (x_size + i) z"
    "mp_val (take x_size zi) + (2 ^ LENGTH('a)) ^ x_size * unat c =
      mp_val (take x_size (drop i z)) + mp_val (take x_size x) * unat w"
    using madd3_row_val[OF assms(1) _ zi] assms(2) by simp_all
  have t: "take (x_size + i) z' = take i z @ take x_size zi" "take (x_size + i) z = take i z @ take x_size (drop i z)"
    using assms(2) by (simp_all add: z' take_add[of i x_size] add.commute[of x_size] min_def)
  have "mp_val (take (Suc (x_size + i)) (z'[x_size + i := c])) =
      mp_val (take i z) + (2 ^ LENGTH('a)) ^ i * (mp_val (take x_size zi) + (2 ^ LENGTH('a)) ^ x_size * unat c)"
    using assms(2) r(1) z' by (simp add: mp_val_take_Suc t min_def power_add algebra_simps)
  also have "\<dots> = mp_val (take (x_size + i) z) + (2 ^ LENGTH('a)) ^ i * (mp_val (take x_size x) * unat w)"
    using assms(2) by (simp add: r(3) t(2) min_def distrib_left)
  finally show ?thesis using r z' assms(2) by simp
qed

lemma bigint_simple_mul_val:
  fixes x y z :: "'a::len word list"
  assumes "x_size \<le> length x" and "y_size \<le> length y" and "x_size + y_size \<le> length z"
  shows "length (bigint_simple_mul z x x_size y y_size) = length z \<and>
    drop (x_size + y_size) (bigint_simple_mul z x x_size y y_size) = drop (x_size + y_size) z \<and>
    mp_val (take (x_size + y_size) (bigint_simple_mul z x x_size y y_size)) =
      mp_val (take x_size x) * mp_val (take y_size y)"
proof -
  let ?f = "\<lambda>i z. let y_i = y ! i; (z, carry) = block_at i (\<lambda>z_i _. madd3_row z_i x x_size y_i) (z, 0)
              in z[x_size + i := carry]"
  let ?I = "\<lambda>i w. length w = length z \<and> drop (x_size + y_size) w = drop (x_size + y_size) z \<and>
    mp_val (take (x_size + i) w) = mp_val (take x_size x) * mp_val (take i y)"
  have "?I y_size (for_up 0 y_size ?f (clear_mem z (x_size + y_size)))"
  proof (rule for_up_invariant[where I = ?I])
    show "?I 0 (clear_mem z (x_size + y_size))"
      using assms by (simp add: clear_mem_def)
  next
    fix i w assume i: "i < y_size" and I: "?I i w"
    obtain w' c where w': "block_at i (\<lambda>z_i _. madd3_row z_i x x_size (y ! i)) (w, 0) = (w', c)"
      by (rule prod.exhaust)
    have len: "x_size + i < length w" using I i assms by simp
    from simple_mul_row[OF assms(1) len w']
    have r: "length w' = length w" "drop (x_size + i) w' = drop (x_size + i) w"
      "mp_val (take (Suc (x_size + i)) (w'[x_size + i := c])) =
        mp_val (take (x_size + i) w) + (2 ^ LENGTH('a)) ^ i * (mp_val (take x_size x) * unat (y ! i))"
      by simp_all
    have "drop (x_size + y_size) (w'[x_size + i := c]) = drop (x_size + y_size) z"
      using I i drop_eq_mono[OF r(2), of "x_size + y_size"] by simp
    moreover have "mp_val (take (x_size + Suc i) (w'[x_size + i := c])) =
        mp_val (take x_size x) * mp_val (take (Suc i) y)"
      using r(3) I i assms by (simp add: mp_val_take_Suc algebra_simps)
    ultimately show "?I (Suc i) (?f i w)"
      using r(1) I w' by (simp add: Let_def)
  qed simp
  then show ?thesis using assms by (simp add: bigint_simple_mul_def)
qed

section \<open>Montgomery reduction\<close>

text \<open>\<open>for (j = x_size + 1; carry && j != z_size - i; ++j) { ++z_i[j]; carry = !z_i[j]; }\<close>\<close>

function monty_carry_loop :: "'a::len word list \<Rightarrow> nat \<Rightarrow> nat \<Rightarrow> bool \<Rightarrow> 'a word list" where
  "monty_carry_loop z_i j n carry =
     (if carry \<and> j < n
      then let z_i = z_i[j := z_i ! j + 1]
           in monty_carry_loop z_i (Suc j) n (z_i ! j = 0)
      else z_i)"
  by pat_completeness auto
termination
  by (relation "measure (\<lambda>(z_i, j, n, carry). n - j)") auto

declare monty_carry_loop.simps [simp del]

definition monty_step :: "nat \<Rightarrow> 'a::len word list \<Rightarrow> nat \<Rightarrow> 'a word \<Rightarrow> nat \<Rightarrow> 'a word list \<Rightarrow> 'a word list" where
  "monty_step z_size x x_size u i =
     at_ptr i (\<lambda>z_i. let y = z_i ! 0 * u;
                        (z_i, carry) = madd3_row z_i x x_size y;
                        z_sum = z_i ! x_size + carry;
                        carry = z_sum < z_i ! x_size;
                        z_i = z_i[x_size := z_sum]
                    in monty_carry_loop z_i (x_size + 1) (z_size - i) carry)"

text \<open>
  The inlined comparison: \<open>Some True\<close> is the \<open>break\<close> (subtract), \<open>Some False\<close> the
  \<open>return\<close>, \<open>None\<close> the loop running to its end (equal, subtract).
\<close>

fun monty_cmp_loop :: "'a::len word list \<Rightarrow> 'a word list \<Rightarrow> nat \<Rightarrow> nat \<Rightarrow> bool option" where
  "monty_cmp_loop z x x_size 0 = None"
| "monty_cmp_loop z x x_size (Suc i) =
     (if z ! (x_size + i) > x ! i then Some True
      else if z ! (x_size + i) < x ! i then Some False
      else monty_cmp_loop z x x_size i)"

definition bigint_monty_redc ::
  "'a::len word list \<Rightarrow> nat \<Rightarrow> 'a word list \<Rightarrow> nat \<Rightarrow> 'a word \<Rightarrow> 'a word list" where
  "bigint_monty_redc z z_size x x_size u =
     (let blocks_of_8 = x_size - x_size mod 8;
          z = for_up 0 x_size (monty_step z_size x x_size u) z
      in if z ! (x_size + x_size) = 0 \<and> monty_cmp_loop z x x_size x_size = Some False then z
         else
           let (zx, carry) = (let zx = drop x_size z;
                 (zx, carry) = for_by8 blocks_of_8
                   (\<lambda>i. block_at i (\<lambda>z carry. word8_sub2 z (drop i x) carry)) (zx, 0)
                 in for_up blocks_of_8 x_size (upd_step (\<lambda>i zi c. word_sub zi (x ! i) c)) (zx, carry));
               z = take x_size z @ zx
           in if carry \<noteq> 0 then z[x_size + x_size := z ! (x_size + x_size) - 1] else z)"

lemma monty_carry_loop_val:
  fixes z :: "'a::len word list"
  assumes "j \<le> n" and "n \<le> length z"
  shows "length (monty_carry_loop z j n c) = length z \<and> drop n (monty_carry_loop z j n c) = drop n z \<and>
    (\<exists>k. mp_val (take n (monty_carry_loop z j n c)) + (2 ^ LENGTH('a)) ^ n * k =
       mp_val (take n z) + (2 ^ LENGTH('a)) ^ j * of_bool c)"
  using assms
proof (induction z j n c rule: monty_carry_loop.induct)
  case (1 z j n c)
  show ?case
  proof (cases "c \<and> j < n")
    case True
    let ?y = "z[j := z ! j + 1]"
    have j: "j < length z" using True 1 by simp
    have rec: "monty_carry_loop z j n c = monty_carry_loop ?y (Suc j) n (z ! j + 1 = 0)"
      using monty_carry_loop.simps[of z j n c] True j by (simp only: Let_def simp_thms if_True nth_list_update_eq)
    have IH: "length (monty_carry_loop ?y (Suc j) n (z ! j + 1 = 0)) = length z"
      "drop n (monty_carry_loop ?y (Suc j) n (z ! j + 1 = 0)) = drop n z"
      "\<exists>k. mp_val (take n (monty_carry_loop ?y (Suc j) n (z ! j + 1 = 0))) + (2 ^ LENGTH('a)) ^ n * k =
        mp_val (take n ?y) + (2 ^ LENGTH('a)) ^ Suc j * of_bool (z ! j + 1 = 0)"
      using "1.IH"[OF True refl] "1.prems" True j by simp_all
    have v: "mp_val (take n ?y) + (2 ^ LENGTH('a)) ^ j * unat (z ! j) =
        mp_val (take n z) + (2 ^ LENGTH('a)) ^ j * unat (z ! j + 1)"
      using True 1 by (intro mp_val_take_update) simp_all
    have o: "unat (z ! j + 1) + 2 ^ LENGTH('a) * of_bool (z ! j + 1 = 0) = unat (z ! j) + 1"
      using add_overflow_val[of 1 "z ! j"] by (simp add: add.commute word_less_1)
    have "mp_val (take n ?y) + (2 ^ LENGTH('a)) ^ Suc j * of_bool (z ! j + 1 = 0) = mp_val (take n z) + (2 ^ LENGTH('a)) ^ j"
    proof -
      have "(2 ^ LENGTH('a)) ^ j * unat (z ! j + 1) + (2 ^ LENGTH('a)) ^ Suc j * of_bool (z ! j + 1 = 0) =
          (2 ^ LENGTH('a)) ^ j * unat (z ! j) + (2 ^ LENGTH('a)) ^ j"
        using arg_cong[OF o, of "(*) ((2 ^ LENGTH('a)) ^ j)"]
        by (simp only: distrib_left mult_1_right power_Suc2 mult.assoc)
      with v show ?thesis by linarith
    qed
    with IH show ?thesis unfolding rec using True by simp
  next
    case False
    have "c \<Longrightarrow> j = n" using False "1.prems" by simp
    then show ?thesis
      using False monty_carry_loop.simps[of z j n c] by (cases c) (auto intro!: exI[of _ 1] exI[of _ 0])
  qed
qed

text \<open>One step adds a multiple of \<open>x\<close> at position \<open>i\<close> that clears word \<open>i\<close>.\<close>

lemma monty_pointer_step:
  fixes x z :: "'a::len word list"
  assumes "0 < n" and "n \<le> length x" and "n < N" and "N \<le> length z" and u: "u * x ! 0 = -1"
    and y: "y = z ! 0 * u"
    and row: "madd3_row z x n y = (w, c)"
    and z': "z' = monty_carry_loop (w[n := w ! n + c]) (n + 1) N (w ! n + c < w ! n)"
  shows "length z' = length z \<and> drop N z' = drop N z \<and> z' ! 0 = 0 \<and>
    (\<exists>k. mp_val (take N z') + (2 ^ LENGTH('a)) ^ N * k = mp_val (take N z) + mp_val (take n x) * unat y)"
proof -
  let ?B = "2 ^ LENGTH('a) :: nat"
  let ?w = "w[n := w ! n + c]"
  have r: "length w = length z" "drop n w = drop n z"
    "mp_val (take n w) + ?B ^ n * unat c = mp_val (take n z) + mp_val (take n x) * unat y"
    using madd3_row_val[OF assms(2) _ row] assms(3,4) by simp_all
  have split: "mp_val (take N v) = mp_val (take n v) + ?B ^ n * (unat (v ! n) + ?B * mp_val (take (N - Suc n) (drop (Suc n) v)))"
    if "length v = length z" for v :: "'a word list"
  proof -
    have "take N v = take n v @ v ! n # take (N - Suc n) (drop (Suc n) v)"
      using assms(3,4) that
      using id_take_nth_drop[of n "take N v"] by (simp add: drop_take min_def)
    then show ?thesis using assms(3,4) that by (simp add: min_def)
  qed
  have o: "unat (w ! n + c) + ?B * of_bool (w ! n + c < w ! n) = unat (w ! n) + unat c"
    by (rule add_overflow_val)
  have wn: "w ! n = z ! n" using nth_drop_eq[OF r(2)] r(1) assms(3,4) by simp
  have dn: "drop (Suc n) w = drop (Suc n) z" by (rule drop_eq_Suc[OF r(2)])
  have "mp_val (take N ?w) + ?B ^ (n + 1) * of_bool (w ! n + c < w ! n) =
      mp_val (take n w) + ?B ^ n * (unat (w ! n + c) + ?B * of_bool (w ! n + c < w ! n)
        + ?B * mp_val (take (N - Suc n) (drop (Suc n) w)))"
    using assms(3,4) r(1) by (simp add: split distrib_left mult_ac)
  also have "\<dots> = mp_val (take n w) + ?B ^ n * unat c + ?B ^ n * (unat (z ! n) + ?B * mp_val (take (N - Suc n) (drop (Suc n) z)))"
    unfolding o by (simp add: wn dn distrib_left)
  also have "\<dots> = mp_val (take N z) + mp_val (take n x) * unat y"
    unfolding r(3) using split[of z] by simp
  finally have V: "mp_val (take N ?w) + ?B ^ (n + 1) * of_bool (w ! n + c < w ! n) =
      mp_val (take N z) + mp_val (take n x) * unat y" .
  have cl: "length z' = length z" "drop N z' = drop N z"
    "\<exists>k. mp_val (take N z') + ?B ^ N * k = mp_val (take N ?w) + ?B ^ (n + 1) * of_bool (w ! n + c < w ! n)"
    using monty_carry_loop_val[of "n + 1" N ?w "w ! n + c < w ! n"] assms(3,4) r(1) drop_eq_mono[OF r(2), of N]
    unfolding z' by auto
  then obtain k where k: "mp_val (take N z') + ?B ^ N * k = mp_val (take N z) + mp_val (take n x) * unat y"
    using V by auto
  have "(of_nat (?B ^ N) :: 'a word) = 0"
    using assms(3) by (cases N) simp_all
  then have "(of_nat (mp_val (take N z')) :: 'a word) = of_nat (mp_val (take N z)) + of_nat (mp_val (take n x)) * y"
    using arg_cong[OF k, of "of_nat :: nat \<Rightarrow> 'a word"] by simp
  moreover have "take N z' \<noteq> []" "take N z \<noteq> []" "take n x \<noteq> []" using assms(1-4) cl(1) by auto
  ultimately have "z' ! 0 = z ! 0 + x ! 0 * y"
    using assms(1,3) by (simp add: of_nat_mp_val)
  also have "\<dots> = z ! 0 + z ! 0 * (u * x ! 0)" by (simp add: y)
  finally show ?thesis using cl k u by auto
qed

lemma at_ptr_val:
  fixes z :: "'a::len word list"
  assumes "i \<le> N" and "N \<le> length z" and "length zi = length z - i"
  shows "mp_val (take N (take i z @ zi)) = mp_val (take i z) + (2 ^ LENGTH('a)) ^ i * mp_val (take (N - i) zi)"
  using assms by (simp add: min_def)

lemma monty_step_val:
  fixes x z :: "'a::len word list"
  assumes "0 < n" and "n \<le> length x" and "i + n < N" and "N \<le> length z" and u: "u * x ! 0 = -1"
  shows "length (monty_step N x n u i z) = length z \<and> drop N (monty_step N x n u i z) = drop N z \<and>
    take i (monty_step N x n u i z) = take i z \<and> monty_step N x n u i z ! i = 0 \<and>
    (\<exists>k y. mp_val (take N (monty_step N x n u i z)) + (2 ^ LENGTH('a)) ^ N * k =
      mp_val (take N z) + (2 ^ LENGTH('a)) ^ i * (mp_val (take n x) * y) \<and> y < 2 ^ LENGTH('a))"
proof -
  let ?B = "2 ^ LENGTH('a) :: nat"
  define zi where "zi = drop i z"
  obtain w c where row: "madd3_row zi x n (zi ! 0 * u) = (w, c)" by (rule prod.exhaust)
  define z' where "z' = monty_carry_loop (w[n := w ! n + c]) (n + 1) (N - i) (w ! n + c < w ! n)"
  have st: "monty_step N x n u i z = take i z @ z'"
    using row by (simp add: monty_step_def at_ptr_def Let_def zi_def[symmetric] z'_def)
  have p: "length z' = length zi" "drop (N - i) z' = drop (N - i) zi" "z' ! 0 = 0"
    "\<exists>k. mp_val (take (N - i) z') + ?B ^ (N - i) * k = mp_val (take (N - i) zi) + mp_val (take n x) * unat (zi ! 0 * u)"
    using monty_pointer_step[OF assms(1,2) _ _ u refl row z'_def] assms by (auto simp: zi_def)
  then obtain k where k: "mp_val (take (N - i) z') + ?B ^ (N - i) * k =
      mp_val (take (N - i) zi) + mp_val (take n x) * unat (zi ! 0 * u)" by blast
  have len: "length z' = length z - i" using p(1) by (simp add: zi_def)
  have v': "mp_val (take N (take i z @ z')) = mp_val (take i z) + ?B ^ i * mp_val (take (N - i) z')"
    using assms len by (intro at_ptr_val) simp_all
  have v: "mp_val (take N z) = mp_val (take i z) + ?B ^ i * mp_val (take (N - i) zi)"
    using assms at_ptr_val[of i N z zi] by (simp add: zi_def)
  have NB: "?B ^ N = ?B ^ i * ?B ^ (N - i)" using assms by (simp flip: power_add)
  have "mp_val (take N (take i z @ z')) + ?B ^ N * k = mp_val (take N z) + ?B ^ i * (mp_val (take n x) * unat (zi ! 0 * u))"
    unfolding v v' NB using arg_cong[OF k, of "(*) (?B ^ i)"] by (simp only: distrib_left mult.assoc add.assoc)
  then have "\<exists>k y. mp_val (take N (take i z @ z')) + ?B ^ N * k = mp_val (take N z) + ?B ^ i * (mp_val (take n x) * y) \<and> y < ?B"
    by (intro exI[of _ k] exI[of _ "unat (zi ! 0 * u)"]) simp
  moreover have "drop N (take i z @ z') = drop N z" using p(2) assms by (simp add: zi_def)
  ultimately show ?thesis
    unfolding st using assms len p(3) by (simp add: nth_append)
qed

lemma mp_val_take_zero:
  "mp_val (take i z) = 0 \<Longrightarrow> i < length z \<Longrightarrow> z ! i = 0 \<Longrightarrow> mp_val (take (Suc i) (z :: 'a::len word list)) = 0"
  by (simp add: mp_val_take_Suc)

text \<open>The whole elimination: \<open>z + m * x\<close> with the low \<open>n\<close> words cleared.\<close>

lemma monty_loop_val:
  fixes x z :: "'a::len word list"
  assumes "0 < n" and "n \<le> length x" and "2 * n + 1 \<le> N" and "N \<le> length z" and u: "u * x ! 0 = -1"
    and zx: "mp_val (take N z) < mp_val (take n x) * (2 ^ LENGTH('a)) ^ n"
  defines "z' \<equiv> for_up 0 n (monty_step N x n u) z"
  shows "length z' = length z \<and> drop N z' = drop N z \<and> mp_val (take n z') = 0 \<and>
    (\<exists>m < (2 ^ LENGTH('a)) ^ n. mp_val (take N z') = mp_val (take N z) + m * mp_val (take n x))"
proof -
  let ?B = "2 ^ LENGTH('a) :: nat"
  let ?X = "mp_val (take n x)"
  let ?I = "\<lambda>i w. length w = length z \<and> drop N w = drop N z \<and> mp_val (take i w) = 0 \<and>
    (\<exists>m < ?B ^ i. mp_val (take N w) = mp_val (take N z) + m * ?X)"
  have X: "?X < ?B ^ n" by (rule mp_val_take_bound)
  have "?I n (for_up 0 n (monty_step N x n u) z)"
  proof (rule for_up_invariant[where I = ?I])
    fix i w assume i: "i < n" and I: "?I i w"
    define w' where "w' = monty_step N x n u i w"
    have w': "length w' = length w" "drop N w' = drop N w" "take i w' = take i w" "w' ! i = 0"
      and ex: "\<exists>k y. mp_val (take N w') + ?B ^ N * k = mp_val (take N w) + ?B ^ i * (?X * y) \<and> y < ?B"
      using monty_step_val[of n x i N w u] assms i I by (simp_all add: w'_def)
    then obtain k y where ky: "mp_val (take N w') + ?B ^ N * k = mp_val (take N w) + ?B ^ i * (?X * y)" "y < ?B"
      by blast
    obtain m where m: "m < ?B ^ i" "mp_val (take N w) = mp_val (take N z) + m * ?X" using I by blast
    let ?m = "m + ?B ^ i * y"
    have "?m < ?B ^ Suc i"
    proof -
      have "?B ^ i * y + ?B ^ i \<le> ?B ^ i * ?B"
        using ky(2) mult_le_mono2[of "Suc y" ?B "?B ^ i"] by simp
      with m(1) show ?thesis by (simp add: mult.commute)
    qed
    have e: "mp_val (take N w') + ?B ^ N * k = mp_val (take N z) + ?m * ?X"
      using ky(1) m(2) by (simp add: algebra_simps)
    have "?m < ?B ^ n" using \<open>?m < ?B ^ Suc i\<close> i power_increasing[of "Suc i" n ?B] by simp
    then have "?m * ?X \<le> ?B ^ n * ?X" by simp
    then have "mp_val (take N z) + ?m * ?X < 2 * (?X * ?B ^ n)"
      using zx mult.commute[of ?X "?B ^ n"] by linarith
    also have "\<dots> \<le> ?B * (?B ^ n * ?B ^ n)"
      using X by (intro mult_le_mono) (simp_all add: self_le_power)
    also have "\<dots> = ?B ^ (2 * n + 1)" by (simp add: mult_2 power_add)
    also have "\<dots> \<le> ?B ^ N" using assms(3) by (intro power_increasing) simp_all
    finally have "k = 0" using e by (cases k) simp_all
    then have "\<exists>m < ?B ^ Suc i. mp_val (take N w') = mp_val (take N z) + m * ?X"
      using e \<open>?m < ?B ^ Suc i\<close> by (auto intro!: exI[of _ ?m])
    moreover have "mp_val (take (Suc i) w') = 0"
      using w' I i assms by (intro mp_val_take_zero) simp_all
    ultimately show "?I (Suc i) (monty_step N x n u i w)"
      using w' I unfolding w'_def by simp
  qed (simp_all add: exI[of _ 0])
  then show ?thesis by (simp add: z'_def)
qed

lemma monty_cmp_loop_less:
  fixes x z :: "'a::len word list"
  assumes "i \<le> length x" and "n + i \<le> length z"
  shows "monty_cmp_loop z x n i = Some False \<longleftrightarrow> mp_val (take i (drop n z)) < mp_val (take i x)"
  using assms
proof (induction i)
  case (Suc i)
  then show ?case
    using mp_val_less_Suc[of i "drop n z" x] by auto
qed simp

text \<open>A number of \<open>N\<close> words below \<open>2 * B^n\<close> lies in its low \<open>n + 1\<close> words.\<close>

lemma top_words_zero:
  fixes z :: "'a::len word list"
  assumes "n < N" and "N \<le> length z" and "mp_val (take N z) < 2 * (2 ^ LENGTH('a)) ^ n"
  shows "mp_val (take N z) = mp_val (take (Suc n) z)"
proof -
  let ?B = "2 ^ LENGTH('a) :: nat"
  have e: "mp_val (take N z) = mp_val (take (Suc n) z) + ?B ^ Suc n * mp_val (drop (Suc n) (take N z))"
    using mp_val_split[of "take N z" "Suc n"] assms by (simp add: min_def)
  have "2 * ?B ^ n \<le> ?B ^ Suc n" by (simp add: self_le_power)
  then have "?B ^ Suc n * mp_val (drop (Suc n) (take N z)) < ?B ^ Suc n"
    using e assms(3) by linarith
  then have "mp_val (drop (Suc n) (take N z)) = 0" by simp
  with e show ?thesis by simp
qed

text \<open>The final conditional subtraction, on the pointer \<open>z + x_size\<close>.\<close>

lemma monty_final_sub:
  fixes x zx :: "'a::len word list"
  assumes "n \<le> length x" and "n < length zx"
    and "for_up 0 n (upd_step (\<lambda>i zi c. word_sub zi (x ! i) c)) (zx, 0) = (w, c)"
    and "mp_val (take n x) \<le> mp_val (take (Suc n) zx)"
    and "w' = (if c \<noteq> 0 then w[n := w ! n - 1] else w)"
  shows "length w' = length zx \<and> mp_val (take (Suc n) w') = mp_val (take (Suc n) zx) - mp_val (take n x)"
proof -
  let ?B = "2 ^ LENGTH('a) :: nat"
  have ch: "length w = length zx" "drop n w = drop n zx" "c \<le> 1"
    "mp_val (take n w) + mp_val (take n x) = mp_val (take n zx) + ?B ^ n * unat c"
    using sub2_chain.chain[OF _ _ assms(3)] assms(1,2)
    by (simp_all add: mp_val_take_sum[of n x] mp_val_take_sum[of n zx])
  have wn: "w ! n = zx ! n" using nth_drop_eq[OF ch(2)] ch(1) assms(2) by simp
  have "mp_val (take (Suc n) w') = mp_val (take n w) + ?B ^ n * unat (zx ! n - c)"
    using carry_cases[OF ch(3)] assms(2,5) ch(1) wn by (auto simp: mp_val_take_Suc)
  moreover have "mp_val (take (Suc n) zx) = mp_val (take n zx) + ?B ^ n * unat (zx ! n)"
    using assms(2) by (rule mp_val_take_Suc)
  moreover have "unat (zx ! n - c) + unat c = unat (zx ! n)"
  proof (rule ccontr)
    assume "unat (zx ! n - c) + unat c \<noteq> unat (zx ! n)"
    then have "zx ! n < zx ! n - c" using sub_borrow_val[of "zx ! n" c] by (auto split: if_splits)
    then have c1: "c = 1" and z0: "zx ! n = 0"
      using carry_cases[OF ch(3)] by (auto simp: less_pred_iff)
    then have "mp_val (take n x) \<le> mp_val (take n zx)" using calculation(2) assms(4) by simp
    then show False using ch(4) c1 mp_val_take_bound[of n w] by simp
  qed
  moreover from this have "?B ^ n * unat (zx ! n - c) + ?B ^ n * unat c = ?B ^ n * unat (zx ! n)"
    by (simp only: distrib_left[symmetric])
  ultimately have "mp_val (take (Suc n) w') + mp_val (take n x) = mp_val (take (Suc n) zx)"
    using ch(4) by linarith
  then show ?thesis using ch(1) assms(5) by auto
qed

lemma bigint_monty_redc_unfold:
  fixes x z :: "'a::len word list"
  assumes "n \<le> length x" and "2 * n + 1 \<le> length z" and "zl = for_up 0 n (monty_step N x n u) z"
    and len: "length zl = length z"
  shows "\<exists>w c. for_up 0 n (upd_step (\<lambda>i zi c. word_sub zi (x ! i) c)) (drop n zl, 0) = (w, c) \<and>
    bigint_monty_redc z N x n u =
      (if zl ! (n + n) = 0 \<and> monty_cmp_loop zl x n n = Some False then zl
       else take n zl @ (if c \<noteq> 0 then w[n := w ! n - 1] else w))"
proof -
  obtain w c where w: "for_up 0 n (upd_step (\<lambda>i zi c. word_sub zi (x ! i) c)) (drop n zl, 0) = (w, c)"
    by (rule prod.exhaust)
  have "for_up (n - n mod 8) n (upd_step (\<lambda>i zi c. word_sub zi (x ! i) c))
      (for_by8 (n - n mod 8) (\<lambda>i. block_at i (\<lambda>z carry. word8_sub2 z (drop i x) carry)) (drop n zl, 0)) = (w, c)"
    using sub2_loop[of n "drop n zl" x 0] assms w by simp
  moreover have "length w = length zl - n" using length_upd_loop[of 0 n _ "(drop n zl, 0)"] w by (metis fst_conv length_drop)
  ultimately show ?thesis
    using w assms by (auto simp: bigint_monty_redc_def Let_def list_update_append nth_append)
qed

lemma bigint_monty_redc_val:
  fixes x z :: "'a::len word list"
  assumes "0 < n" and "n \<le> length x" and "2 * n + 1 \<le> N" and "N \<le> length z" and u: "u * x ! 0 = -1"
    and zx: "mp_val (take N z) < mp_val (take n x) * (2 ^ LENGTH('a)) ^ n"
  defines "r \<equiv> mp_val (take (Suc n) (drop n (bigint_monty_redc z N x n u)))"
  shows "length (bigint_monty_redc z N x n u) = length z \<and> r < mp_val (take n x) \<and>
    (r * (2 ^ LENGTH('a)) ^ n) mod mp_val (take n x) = mp_val (take N z) mod mp_val (take n x)"
proof -
  let ?B = "2 ^ LENGTH('a) :: nat" and ?X = "mp_val (take n x)" and ?V = "mp_val (take N z)"
  define zl where "zl = for_up 0 n (monty_step N x n u) z"
  define t where "t = mp_val (take (Suc n) (drop n zl))"
  obtain m where len: "length zl = length z" and low: "mp_val (take n zl) = 0"
    and m: "m < ?B ^ n" "mp_val (take N zl) = ?V + m * ?X"
    using monty_loop_val[OF assms(1-4) u zx] unfolding zl_def by blast
  have X: "?X < ?B ^ n" by (rule mp_val_take_bound)
  have e: "mp_val (take N zl) = ?B ^ n * mp_val (take (N - n) (drop n zl))"
    using mp_val_split[of "take N zl" n] low assms(3,4) len by (simp add: min_def drop_take)
  have "m * ?X \<le> ?B ^ n * ?X" using m(1) by simp
  then have "?B ^ n * mp_val (take (N - n) (drop n zl)) < ?B ^ n * (2 * ?X)"
    using e m(2) zx mult.commute[of ?X "?B ^ n"] by linarith
  then have T: "mp_val (take (N - n) (drop n zl)) < 2 * ?X" by simp
  then have t: "t = mp_val (take (N - n) (drop n zl))" 
    using top_words_zero[of n "N - n" "drop n zl"] X assms(3,4) len by (simp add: t_def)
  have t2: "t < 2 * ?X" and tV: "?B ^ n * t = ?V + m * ?X" using T e m(2) t by simp_all
  obtain w c where w: "for_up 0 n (upd_step (\<lambda>i zi c. word_sub zi (x ! i) c)) (drop n zl, 0) = (w, c)"
    and res: "bigint_monty_redc z N x n u =
      (if zl ! (n + n) = 0 \<and> monty_cmp_loop zl x n n = Some False then zl
       else take n zl @ (if c \<noteq> 0 then w[n := w ! n - 1] else w))"
    using bigint_monty_redc_unfold[OF assms(2) _ zl_def len] assms(3,4) by fastforce
  have ts: "t = mp_val (take n (drop n zl)) + ?B ^ n * unat (zl ! (n + n))"
    using assms(3,4) len by (simp add: t_def mp_val_take_Suc)
  have less: "zl ! (n + n) = 0 \<and> monty_cmp_loop zl x n n = Some False \<longleftrightarrow> t < ?X"
  proof -
    have "t < ?X \<Longrightarrow> zl ! (n + n) = 0"
      using ts X by (cases "unat (zl ! (n + n))") (auto simp: unat_eq_zero)
    then show ?thesis
      using ts monty_cmp_loop_less[of n x n zl] assms(2-4) len by auto
  qed
  show ?thesis
  proof (cases "t < ?X")
    case True
    then have "bigint_monty_redc z N x n u = zl" using res less by simp
    moreover have "(t * ?B ^ n) mod ?X = ?V mod ?X" using tV by (simp add: mult.commute)
    ultimately show ?thesis using True len by (simp add: r_def t_def)
  next
    case False
    define w' where "w' = (if c \<noteq> 0 then w[n := w ! n - 1] else w)"
    have eq: "bigint_monty_redc z N x n u = take n zl @ w'"
      using res less False unfolding w'_def by (simp only: if_False)
    have f: "length w' = length (drop n zl)" "mp_val (take (Suc n) w') = t - ?X"
      using monty_final_sub[OF assms(2) _ w _ w'_def] assms(3,4) len False by (simp_all add: t_def)
    have r: "r = t - ?X" using eq f assms(3,4) len by (simp add: r_def)
    have "(r * ?B ^ n) mod ?X = ?V mod ?X"
    proof -
      have "r + ?X = t" using r False by simp
      then have "r * ?B ^ n + ?B ^ n * ?X = ?V + m * ?X"
        using tV by (metis add_mult_distrib2 mult.commute)
      then show ?thesis by (metis mod_mult_self1 mod_mult_self3 add.commute)
    qed
    then show ?thesis using r t2 False eq f(1) assms(3,4) len by simp
  qed
qed

end
