(* ===== verification/MP_Comba.thy ===== *)
theory MP_Comba
  imports MP_Mul
begin

text \<open>
  The unrolled Comba multiplications and squarings of \<open>src/math/bigint/mp_comba.cpp\<close>, for
  operands of 4, 6, 8 and 16 words. The source is straight-line code: for every output word
  a column of \<open>word3_muladd\<close> and \<open>word3_muladd_2\<close> calls on a three-word accumulator,
  then \<open>z[k] = w0; w0 = w1; w1 = w2; w2 = 0\<close>. The calls are transcribed column by column
  (\<open>comba_*_columns\<close>) and run by \<open>comba_run\<close>; \<open>comba_run_val\<close> gives the value any such
  list of columns computes, and evaluation shows the transcribed lists to be those of a
  product. The interface \<open>block_multiplier\<close> is what Karatsuba asks of its base cases.
\<close>

section \<open>The accumulator (\<open>mp_asmi.h\<close>)\<close>

text \<open>The accumulator is the triple \<open>(w2, w1, w0)\<close>.\<close>

type_synonym 'a word3 = "'a word \<times> 'a word \<times> 'a word"

definition word3_muladd :: "'a::len word \<Rightarrow> 'a word \<Rightarrow> 'a word3 \<Rightarrow> 'a word3" where
  "word3_muladd a b w = (case w of (w2, w1, w0) \<Rightarrow>
     let carry = w0;
         (w0, carry) = word_madd2 a b carry;
         w1 = w1 + carry;
         w2 = w2 + (if w1 < carry then 1 else 0)
     in (w2, w1, w0))"

definition word3_muladd_2 :: "'a::len word \<Rightarrow> 'a word \<Rightarrow> 'a word3 \<Rightarrow> 'a word3" where
  "word3_muladd_2 a b w = (case w of (w2, w1, w0) \<Rightarrow>
     let carry = 0;
         (a, carry) = word_madd2 a b carry;
         b = carry;
         top = drop_bit (LENGTH('a) - 1) b;
         b = push_bit 1 b;
         b = b OR drop_bit (LENGTH('a) - 1) a;
         a = push_bit 1 a;
         carry = 0;
         (w0, carry) = word_add w0 a carry;
         (w1, carry) = word_add w1 b carry;
         (w2, carry) = word_add w2 top carry
     in (w2, w1, w0))"

section \<open>Columns\<close>

text \<open>One source line: \<open>word3_muladd(&w2, &w1, &w0, x[i], y[j])\<close> or \<open>word3_muladd_2\<close>.\<close>

datatype comba_op = Muladd nat nat | Muladd_2 nat nat

fun comba_exec :: "'a::len word list \<Rightarrow> 'a word list \<Rightarrow> comba_op \<Rightarrow> 'a word3 \<Rightarrow> 'a word3" where
  "comba_exec x y (Muladd i j) w = word3_muladd (x ! i) (y ! j) w"
| "comba_exec x y (Muladd_2 i j) w = word3_muladd_2 (x ! i) (y ! j) w"

text \<open>The calls for \<open>z[k]\<close>, the store and the shift of the accumulator.\<close>

definition comba_column ::
  "'a::len word list \<Rightarrow> 'a word list \<Rightarrow> comba_op list \<Rightarrow> nat \<Rightarrow> 'a word list \<times> 'a word3 \<Rightarrow> 'a word list \<times> 'a word3" where
  "comba_column x y ops k s = (case s of (z, w) \<Rightarrow>
     case fold (comba_exec x y) ops w of (w2, w1, w0) \<Rightarrow> (z[k := w0], (0, w2, w1)))"

text \<open>All columns; the last store is \<open>z[2n - 1] = w1\<close>, which the shift left in \<open>w0\<close>.\<close>

definition comba_run ::
  "'a::len word list \<Rightarrow> 'a word list \<Rightarrow> comba_op list list \<Rightarrow> 'a word list \<Rightarrow> 'a word list" where
  "comba_run x y cols z =
     (case for_up 0 (length cols) (\<lambda>k. comba_column x y (cols ! k) k) (z, (0, 0, 0)) of
        (z, (w2, w1, w0)) \<Rightarrow> z[length cols := w0])"

definition comba_mul4_columns :: "comba_op list list" where
  "comba_mul4_columns = [
     [Muladd 0 0],
     [Muladd 0 1, Muladd 1 0],
     [Muladd 0 2, Muladd 1 1, Muladd 2 0],
     [Muladd 0 3, Muladd 1 2, Muladd 2 1, Muladd 3 0],
     [Muladd 1 3, Muladd 2 2, Muladd 3 1],
     [Muladd 2 3, Muladd 3 2],
     [Muladd 3 3]]"

definition bigint_comba_mul4 :: "'a::len word list \<Rightarrow> 'a word list \<Rightarrow> 'a word list \<Rightarrow> 'a word list" where
  "bigint_comba_mul4 z x y = comba_run x y comba_mul4_columns z"

definition comba_sqr4_columns :: "comba_op list list" where
  "comba_sqr4_columns = [
     [Muladd 0 0],
     [Muladd_2 0 1],
     [Muladd_2 0 2, Muladd 1 1],
     [Muladd_2 0 3, Muladd_2 1 2],
     [Muladd_2 1 3, Muladd 2 2],
     [Muladd_2 2 3],
     [Muladd 3 3]]"

definition bigint_comba_sqr4 :: "'a::len word list \<Rightarrow> 'a word list \<Rightarrow> 'a word list" where
  "bigint_comba_sqr4 z x = comba_run x x comba_sqr4_columns z"

definition comba_mul6_columns :: "comba_op list list" where
  "comba_mul6_columns = [
     [Muladd 0 0],
     [Muladd 0 1, Muladd 1 0],
     [Muladd 0 2, Muladd 1 1, Muladd 2 0],
     [Muladd 0 3, Muladd 1 2, Muladd 2 1, Muladd 3 0],
     [Muladd 0 4, Muladd 1 3, Muladd 2 2, Muladd 3 1, Muladd 4 0],
     [Muladd 0 5, Muladd 1 4, Muladd 2 3, Muladd 3 2, Muladd 4 1, Muladd 5 0],
     [Muladd 1 5, Muladd 2 4, Muladd 3 3, Muladd 4 2, Muladd 5 1],
     [Muladd 2 5, Muladd 3 4, Muladd 4 3, Muladd 5 2],
     [Muladd 3 5, Muladd 4 4, Muladd 5 3],
     [Muladd 4 5, Muladd 5 4],
     [Muladd 5 5]]"

definition bigint_comba_mul6 :: "'a::len word list \<Rightarrow> 'a word list \<Rightarrow> 'a word list \<Rightarrow> 'a word list" where
  "bigint_comba_mul6 z x y = comba_run x y comba_mul6_columns z"

definition comba_sqr6_columns :: "comba_op list list" where
  "comba_sqr6_columns = [
     [Muladd 0 0],
     [Muladd_2 0 1],
     [Muladd_2 0 2, Muladd 1 1],
     [Muladd_2 0 3, Muladd_2 1 2],
     [Muladd_2 0 4, Muladd_2 1 3, Muladd 2 2],
     [Muladd_2 0 5, Muladd_2 1 4, Muladd_2 2 3],
     [Muladd_2 1 5, Muladd_2 2 4, Muladd 3 3],
     [Muladd_2 2 5, Muladd_2 3 4],
     [Muladd_2 3 5, Muladd 4 4],
     [Muladd_2 4 5],
     [Muladd 5 5]]"

definition bigint_comba_sqr6 :: "'a::len word list \<Rightarrow> 'a word list \<Rightarrow> 'a word list" where
  "bigint_comba_sqr6 z x = comba_run x x comba_sqr6_columns z"

definition comba_mul8_columns :: "comba_op list list" where
  "comba_mul8_columns = [
     [Muladd 0 0],
     [Muladd 0 1, Muladd 1 0],
     [Muladd 0 2, Muladd 1 1, Muladd 2 0],
     [Muladd 0 3, Muladd 1 2, Muladd 2 1, Muladd 3 0],
     [Muladd 0 4, Muladd 1 3, Muladd 2 2, Muladd 3 1, Muladd 4 0],
     [Muladd 0 5, Muladd 1 4, Muladd 2 3, Muladd 3 2, Muladd 4 1, Muladd 5 0],
     [Muladd 0 6, Muladd 1 5, Muladd 2 4, Muladd 3 3, Muladd 4 2, Muladd 5 1, Muladd 6 0],
     [Muladd 0 7, Muladd 1 6, Muladd 2 5, Muladd 3 4, Muladd 4 3, Muladd 5 2, Muladd 6 1,
      Muladd 7 0],
     [Muladd 1 7, Muladd 2 6, Muladd 3 5, Muladd 4 4, Muladd 5 3, Muladd 6 2, Muladd 7 1],
     [Muladd 2 7, Muladd 3 6, Muladd 4 5, Muladd 5 4, Muladd 6 3, Muladd 7 2],
     [Muladd 3 7, Muladd 4 6, Muladd 5 5, Muladd 6 4, Muladd 7 3],
     [Muladd 4 7, Muladd 5 6, Muladd 6 5, Muladd 7 4],
     [Muladd 5 7, Muladd 6 6, Muladd 7 5],
     [Muladd 6 7, Muladd 7 6],
     [Muladd 7 7]]"

definition bigint_comba_mul8 :: "'a::len word list \<Rightarrow> 'a word list \<Rightarrow> 'a word list \<Rightarrow> 'a word list" where
  "bigint_comba_mul8 z x y = comba_run x y comba_mul8_columns z"

definition comba_sqr8_columns :: "comba_op list list" where
  "comba_sqr8_columns = [
     [Muladd 0 0],
     [Muladd_2 0 1],
     [Muladd_2 0 2, Muladd 1 1],
     [Muladd_2 0 3, Muladd_2 1 2],
     [Muladd_2 0 4, Muladd_2 1 3, Muladd 2 2],
     [Muladd_2 0 5, Muladd_2 1 4, Muladd_2 2 3],
     [Muladd_2 0 6, Muladd_2 1 5, Muladd_2 2 4, Muladd 3 3],
     [Muladd_2 0 7, Muladd_2 1 6, Muladd_2 2 5, Muladd_2 3 4],
     [Muladd_2 1 7, Muladd_2 2 6, Muladd_2 3 5, Muladd 4 4],
     [Muladd_2 2 7, Muladd_2 3 6, Muladd_2 4 5],
     [Muladd_2 3 7, Muladd_2 4 6, Muladd 5 5],
     [Muladd_2 4 7, Muladd_2 5 6],
     [Muladd_2 5 7, Muladd 6 6],
     [Muladd_2 6 7],
     [Muladd 7 7]]"

definition bigint_comba_sqr8 :: "'a::len word list \<Rightarrow> 'a word list \<Rightarrow> 'a word list" where
  "bigint_comba_sqr8 z x = comba_run x x comba_sqr8_columns z"

definition comba_mul16_columns_0_10 :: "comba_op list list" where
  "comba_mul16_columns_0_10 = [
     [Muladd 0 0],
     [Muladd 0 1, Muladd 1 0],
     [Muladd 0 2, Muladd 1 1, Muladd 2 0],
     [Muladd 0 3, Muladd 1 2, Muladd 2 1, Muladd 3 0],
     [Muladd 0 4, Muladd 1 3, Muladd 2 2, Muladd 3 1, Muladd 4 0],
     [Muladd 0 5, Muladd 1 4, Muladd 2 3, Muladd 3 2, Muladd 4 1, Muladd 5 0],
     [Muladd 0 6, Muladd 1 5, Muladd 2 4, Muladd 3 3, Muladd 4 2, Muladd 5 1, Muladd 6 0],
     [Muladd 0 7, Muladd 1 6, Muladd 2 5, Muladd 3 4, Muladd 4 3, Muladd 5 2, Muladd 6 1,
      Muladd 7 0],
     [Muladd 0 8, Muladd 1 7, Muladd 2 6, Muladd 3 5, Muladd 4 4, Muladd 5 3, Muladd 6 2,
      Muladd 7 1, Muladd 8 0],
     [Muladd 0 9, Muladd 1 8, Muladd 2 7, Muladd 3 6, Muladd 4 5, Muladd 5 4, Muladd 6 3,
      Muladd 7 2, Muladd 8 1, Muladd 9 0],
     [Muladd 0 10, Muladd 1 9, Muladd 2 8, Muladd 3 7, Muladd 4 6, Muladd 5 5, Muladd 6 4,
      Muladd 7 3, Muladd 8 2, Muladd 9 1, Muladd 10 0]]"

definition comba_mul16_columns_11_18 :: "comba_op list list" where
  "comba_mul16_columns_11_18 = [
     [Muladd 0 11, Muladd 1 10, Muladd 2 9, Muladd 3 8, Muladd 4 7, Muladd 5 6, Muladd 6 5,
      Muladd 7 4, Muladd 8 3, Muladd 9 2, Muladd 10 1, Muladd 11 0],
     [Muladd 0 12, Muladd 1 11, Muladd 2 10, Muladd 3 9, Muladd 4 8, Muladd 5 7, Muladd 6 6,
      Muladd 7 5, Muladd 8 4, Muladd 9 3, Muladd 10 2, Muladd 11 1, Muladd 12 0],
     [Muladd 0 13, Muladd 1 12, Muladd 2 11, Muladd 3 10, Muladd 4 9, Muladd 5 8, Muladd 6 7,
      Muladd 7 6, Muladd 8 5, Muladd 9 4, Muladd 10 3, Muladd 11 2, Muladd 12 1, Muladd 13 0],
     [Muladd 0 14, Muladd 1 13, Muladd 2 12, Muladd 3 11, Muladd 4 10, Muladd 5 9, Muladd 6 8,
      Muladd 7 7, Muladd 8 6, Muladd 9 5, Muladd 10 4, Muladd 11 3, Muladd 12 2, Muladd 13 1,
      Muladd 14 0],
     [Muladd 0 15, Muladd 1 14, Muladd 2 13, Muladd 3 12, Muladd 4 11, Muladd 5 10, Muladd 6 9,
      Muladd 7 8, Muladd 8 7, Muladd 9 6, Muladd 10 5, Muladd 11 4, Muladd 12 3, Muladd 13 2,
      Muladd 14 1, Muladd 15 0],
     [Muladd 1 15, Muladd 2 14, Muladd 3 13, Muladd 4 12, Muladd 5 11, Muladd 6 10, Muladd 7 9,
      Muladd 8 8, Muladd 9 7, Muladd 10 6, Muladd 11 5, Muladd 12 4, Muladd 13 3, Muladd 14 2,
      Muladd 15 1],
     [Muladd 2 15, Muladd 3 14, Muladd 4 13, Muladd 5 12, Muladd 6 11, Muladd 7 10, Muladd 8 9,
      Muladd 9 8, Muladd 10 7, Muladd 11 6, Muladd 12 5, Muladd 13 4, Muladd 14 3, Muladd 15 2],
     [Muladd 3 15, Muladd 4 14, Muladd 5 13, Muladd 6 12, Muladd 7 11, Muladd 8 10, Muladd 9 9,
      Muladd 10 8, Muladd 11 7, Muladd 12 6, Muladd 13 5, Muladd 14 4, Muladd 15 3]]"

definition comba_mul16_columns_19_30 :: "comba_op list list" where
  "comba_mul16_columns_19_30 = [
     [Muladd 4 15, Muladd 5 14, Muladd 6 13, Muladd 7 12, Muladd 8 11, Muladd 9 10,
      Muladd 10 9, Muladd 11 8, Muladd 12 7, Muladd 13 6, Muladd 14 5, Muladd 15 4],
     [Muladd 5 15, Muladd 6 14, Muladd 7 13, Muladd 8 12, Muladd 9 11, Muladd 10 10,
      Muladd 11 9, Muladd 12 8, Muladd 13 7, Muladd 14 6, Muladd 15 5],
     [Muladd 6 15, Muladd 7 14, Muladd 8 13, Muladd 9 12, Muladd 10 11, Muladd 11 10,
      Muladd 12 9, Muladd 13 8, Muladd 14 7, Muladd 15 6],
     [Muladd 7 15, Muladd 8 14, Muladd 9 13, Muladd 10 12, Muladd 11 11, Muladd 12 10,
      Muladd 13 9, Muladd 14 8, Muladd 15 7],
     [Muladd 8 15, Muladd 9 14, Muladd 10 13, Muladd 11 12, Muladd 12 11, Muladd 13 10,
      Muladd 14 9, Muladd 15 8],
     [Muladd 9 15, Muladd 10 14, Muladd 11 13, Muladd 12 12, Muladd 13 11, Muladd 14 10,
      Muladd 15 9],
     [Muladd 10 15, Muladd 11 14, Muladd 12 13, Muladd 13 12, Muladd 14 11, Muladd 15 10],
     [Muladd 11 15, Muladd 12 14, Muladd 13 13, Muladd 14 12, Muladd 15 11],
     [Muladd 12 15, Muladd 13 14, Muladd 14 13, Muladd 15 12],
     [Muladd 13 15, Muladd 14 14, Muladd 15 13],
     [Muladd 14 15, Muladd 15 14],
     [Muladd 15 15]]"

definition comba_mul16_columns :: "comba_op list list" where
  "comba_mul16_columns = comba_mul16_columns_0_10 @ comba_mul16_columns_11_18 @ comba_mul16_columns_19_30"

definition bigint_comba_mul16 :: "'a::len word list \<Rightarrow> 'a word list \<Rightarrow> 'a word list \<Rightarrow> 'a word list" where
  "bigint_comba_mul16 z x y = comba_run x y comba_mul16_columns z"

definition comba_sqr16_columns_0_15 :: "comba_op list list" where
  "comba_sqr16_columns_0_15 = [
     [Muladd 0 0],
     [Muladd_2 0 1],
     [Muladd_2 0 2, Muladd 1 1],
     [Muladd_2 0 3, Muladd_2 1 2],
     [Muladd_2 0 4, Muladd_2 1 3, Muladd 2 2],
     [Muladd_2 0 5, Muladd_2 1 4, Muladd_2 2 3],
     [Muladd_2 0 6, Muladd_2 1 5, Muladd_2 2 4, Muladd 3 3],
     [Muladd_2 0 7, Muladd_2 1 6, Muladd_2 2 5, Muladd_2 3 4],
     [Muladd_2 0 8, Muladd_2 1 7, Muladd_2 2 6, Muladd_2 3 5, Muladd 4 4],
     [Muladd_2 0 9, Muladd_2 1 8, Muladd_2 2 7, Muladd_2 3 6, Muladd_2 4 5],
     [Muladd_2 0 10, Muladd_2 1 9, Muladd_2 2 8, Muladd_2 3 7, Muladd_2 4 6, Muladd 5 5],
     [Muladd_2 0 11, Muladd_2 1 10, Muladd_2 2 9, Muladd_2 3 8, Muladd_2 4 7, Muladd_2 5 6],
     [Muladd_2 0 12, Muladd_2 1 11, Muladd_2 2 10, Muladd_2 3 9, Muladd_2 4 8, Muladd_2 5 7,
      Muladd 6 6],
     [Muladd_2 0 13, Muladd_2 1 12, Muladd_2 2 11, Muladd_2 3 10, Muladd_2 4 9, Muladd_2 5 8,
      Muladd_2 6 7],
     [Muladd_2 0 14, Muladd_2 1 13, Muladd_2 2 12, Muladd_2 3 11, Muladd_2 4 10, Muladd_2 5 9,
      Muladd_2 6 8, Muladd 7 7],
     [Muladd_2 0 15, Muladd_2 1 14, Muladd_2 2 13, Muladd_2 3 12, Muladd_2 4 11, Muladd_2 5 10,
      Muladd_2 6 9, Muladd_2 7 8]]"

definition comba_sqr16_columns_16_30 :: "comba_op list list" where
  "comba_sqr16_columns_16_30 = [
     [Muladd_2 1 15, Muladd_2 2 14, Muladd_2 3 13, Muladd_2 4 12, Muladd_2 5 11, Muladd_2 6 10,
      Muladd_2 7 9, Muladd 8 8],
     [Muladd_2 2 15, Muladd_2 3 14, Muladd_2 4 13, Muladd_2 5 12, Muladd_2 6 11, Muladd_2 7 10,
      Muladd_2 8 9],
     [Muladd_2 3 15, Muladd_2 4 14, Muladd_2 5 13, Muladd_2 6 12, Muladd_2 7 11, Muladd_2 8 10,
      Muladd 9 9],
     [Muladd_2 4 15, Muladd_2 5 14, Muladd_2 6 13, Muladd_2 7 12, Muladd_2 8 11, Muladd_2 9 10],
     [Muladd_2 5 15, Muladd_2 6 14, Muladd_2 7 13, Muladd_2 8 12, Muladd_2 9 11, Muladd 10 10],
     [Muladd_2 6 15, Muladd_2 7 14, Muladd_2 8 13, Muladd_2 9 12, Muladd_2 10 11],
     [Muladd_2 7 15, Muladd_2 8 14, Muladd_2 9 13, Muladd_2 10 12, Muladd 11 11],
     [Muladd_2 8 15, Muladd_2 9 14, Muladd_2 10 13, Muladd_2 11 12],
     [Muladd_2 9 15, Muladd_2 10 14, Muladd_2 11 13, Muladd 12 12],
     [Muladd_2 10 15, Muladd_2 11 14, Muladd_2 12 13],
     [Muladd_2 11 15, Muladd_2 12 14, Muladd 13 13],
     [Muladd_2 12 15, Muladd_2 13 14],
     [Muladd_2 13 15, Muladd 14 14],
     [Muladd_2 14 15],
     [Muladd 15 15]]"

definition comba_sqr16_columns :: "comba_op list list" where
  "comba_sqr16_columns = comba_sqr16_columns_0_15 @ comba_sqr16_columns_16_30"

definition bigint_comba_sqr16 :: "'a::len word list \<Rightarrow> 'a word list \<Rightarrow> 'a word list" where
  "bigint_comba_sqr16 z x = comba_run x x comba_sqr16_columns z"

section \<open>Values\<close>

definition word3_val :: "'a::len word3 \<Rightarrow> nat" where
  "word3_val w = (case w of (w2, w1, w0) \<Rightarrow>
     unat w0 + 2 ^ LENGTH('a) * (unat w1 + 2 ^ LENGTH('a) * unat w2))"

fun op_val :: "'a::len word list \<Rightarrow> 'a word list \<Rightarrow> comba_op \<Rightarrow> nat" where
  "op_val x y (Muladd i j) = unat (x ! i) * unat (y ! j)"
| "op_val x y (Muladd_2 i j) = 2 * (unat (x ! i) * unat (y ! j))"

fun op_weight :: "comba_op \<Rightarrow> nat" where
  "op_weight (Muladd i j) = 1"
| "op_weight (Muladd_2 i j) = 2"

lemma word3_muladd_val:
  fixes a b :: "'a::len word"
  assumes "word3_val w + unat a * unat b < (2 ^ LENGTH('a)) ^ 3"
  shows "word3_val (word3_muladd a b w) = word3_val w + unat a * unat b"
proof -
  let ?B = "2 ^ LENGTH('a) :: nat"
  obtain w2 w1 w0 where w: "w = (w2, w1, w0)" by (cases w)
  obtain r c where rc: "word_madd2 a b w0 = (r, c)" by (rule prod.exhaust)
  let ?o = "if w1 + c < c then 1 else 0 :: 'a word"
  have 1: "unat r + ?B * unat c = unat a * unat b + unat w0" by (rule word_madd2_val[OF rc])
  have 2: "unat (w1 + c) + ?B * unat ?o = unat w1 + unat c"
    using add_overflow_val[of c w1] by (auto simp: add.commute)
  have "unat w2 + unat ?o < ?B"
  proof (rule ccontr)
    assume "\<not> unat w2 + unat ?o < ?B"
    then have "?B * (?B * ?B) \<le> ?B * (?B * (unat w2 + unat ?o))" by (intro mult_le_mono2) simp
    moreover have "?B ^ 3 = ?B * (?B * ?B)" by (simp add: power3_eq_cube)
    moreover have "?B * (?B * (unat w2 + unat ?o)) \<le> word3_val w + unat a * unat b"
      using arg_cong[OF 2, of "(*) ?B"] 1 by (simp add: w word3_val_def distrib_left)
    ultimately show False using assms by linarith
  qed
  then have 3: "unat (w2 + ?o) = unat w2 + unat ?o" unfolding unat_plus_if by simp
  have "word3_val (word3_muladd a b w) = unat r + ?B * (unat (w1 + c) + ?B * (unat w2 + unat ?o))"
    using rc 3 by (simp add: w word3_muladd_def word3_val_def Let_def)
  also have "\<dots> = word3_val w + unat a * unat b"
    using arg_cong[OF 2, of "(*) ?B"] 1 by (simp add: w word3_val_def distrib_left)
  finally show ?thesis .
qed

lemma double_word_val:
  fixes lo hi :: "'a::len word"
  shows "unat (push_bit 1 lo) + 2 ^ LENGTH('a) * (unat (push_bit 1 hi OR drop_bit (LENGTH('a) - 1) lo)
    + 2 ^ LENGTH('a) * unat (drop_bit (LENGTH('a) - 1) hi)) = 2 * (unat lo + 2 ^ LENGTH('a) * unat hi)"
proof -
  let ?B = "2 ^ LENGTH('a) :: nat"
  have s: "unat (push_bit 1 x) + ?B * unat (drop_bit (LENGTH('a) - 1) x) = 2 * unat x" for x :: "'a word"
    using shift_split[of 1 x] by (simp add: Suc_leI)
  have "unat (push_bit 1 hi OR drop_bit (LENGTH('a) - 1) lo) = unat (push_bit 1 hi) + unat (drop_bit (LENGTH('a) - 1) lo)"
    using unat_drop_bit_bound[of 1 lo] by (intro push_bit_or) (simp add: Suc_leI)
  then show ?thesis using s[of lo] arg_cong[OF s[of hi], of "(*) ?B"] by (simp add: distrib_left)
qed

lemma word3_add_val:
  fixes w0 w1 w2 :: "'a::len word"
  assumes "word_add w0 a 0 = (r0, c0)" and "word_add w1 b c0 = (r1, c1)" and "word_add w2 t c1 = (r2, c2)"
    and "word3_val (w2, w1, w0) + word3_val (t, b, a) < (2 ^ LENGTH('a)) ^ 3"
  shows "word3_val (r2, r1, r0) = word3_val (w2, w1, w0) + word3_val (t, b, a)"
proof -
  let ?B = "2 ^ LENGTH('a) :: nat"
  have 1: "unat r0 + ?B * unat c0 = unat w0 + unat a" "c0 \<le> 1" using word_add_val[OF assms(1)] by simp_all
  have 2: "unat r1 + ?B * unat c1 = unat w1 + unat b + unat c0" "c1 \<le> 1" using word_add_val[OF assms(2) 1(2)] by simp_all
  have 3: "unat r2 + ?B * unat c2 = unat w2 + unat t + unat c1" "c2 \<le> 1" using word_add_val[OF assms(3) 2(2)] by simp_all
  have "word3_val (r2, r1, r0) + ?B * (?B * (?B * unat c2)) = word3_val (w2, w1, w0) + word3_val (t, b, a)"
    using 1(1) arg_cong[OF 2(1), of "(*) ?B"] arg_cong[OF 3(1), of "\<lambda>n. ?B * (?B * n)"]
    by (simp add: word3_val_def distrib_left)
  moreover have "c2 = 0"
  proof (rule ccontr)
    assume "c2 \<noteq> 0"
    then have "unat c2 = 1" using carry_cases[OF 3(2)] by auto
    with calculation assms(4) show False by (simp add: power3_eq_cube mult.assoc)
  qed
  ultimately show ?thesis by simp
qed

lemma word3_muladd_2_val:
  fixes a b :: "'a::len word"
  assumes "word3_val w + 2 * (unat a * unat b) < (2 ^ LENGTH('a)) ^ 3"
  shows "word3_val (word3_muladd_2 a b w) = word3_val w + 2 * (unat a * unat b)"
proof -
  obtain w2 w1 w0 where w: "w = (w2, w1, w0)" by (cases w)
  obtain lo hi where m: "word_madd2 a b 0 = (lo, hi)" by (rule prod.exhaust)
  let ?b = "push_bit 1 hi OR drop_bit (LENGTH('a) - 1) lo" and ?t = "drop_bit (LENGTH('a) - 1) hi"
  obtain r0 c0 where r0: "word_add w0 (push_bit 1 lo) 0 = (r0, c0)" by (rule prod.exhaust)
  obtain r1 c1 where r1: "word_add w1 ?b c0 = (r1, c1)" by (rule prod.exhaust)
  obtain r2 c2 where r2: "word_add w2 ?t c1 = (r2, c2)" by (rule prod.exhaust)
  have d: "word3_val (?t, ?b, push_bit 1 lo) = 2 * (unat a * unat b)"
    using double_word_val[of lo hi] word_madd2_val[OF m] by (simp add: word3_val_def)
  have "word3_muladd_2 a b w = (r2, r1, r0)"
    using m r0 r1 r2 by (simp add: word3_muladd_2_def w Let_def)
  then show ?thesis using word3_add_val[OF r0 r1 r2] d assms w by simp
qed

lemma comba_exec_val:
  "word3_val w + op_val x y p < (2 ^ LENGTH('a)) ^ 3 \<Longrightarrow>
    word3_val (comba_exec x y p (w :: 'a::len word3)) = word3_val w + op_val x y p"
  by (cases p) (simp_all add: word3_muladd_val word3_muladd_2_val)

lemma comba_ops_val:
  "word3_val w + sum_list (map (op_val x y) ops) < (2 ^ LENGTH('a)) ^ 3 \<Longrightarrow>
    word3_val (fold (comba_exec x y) ops (w :: 'a::len word3)) = word3_val w + sum_list (map (op_val x y) ops)"
proof (induction ops arbitrary: w)
  case (Cons p ops)
  then have "word3_val (comba_exec x y p w) = word3_val w + op_val x y p"
    by (intro comba_exec_val) simp
  with Cons show ?case by simp
qed simp

lemma op_val_bound: "op_val x y p \<le> op_weight p * ((2 ^ LENGTH('a) - 1) * (2 ^ LENGTH('a) - 1))"
  for x y :: "'a::len word list"
  by (cases p) (auto intro!: mult_le_mono unat_le_base[unfolded One_nat_def])

lemma ops_val_bound:
  "sum_list (map (op_val x y) ops) \<le> sum_list (map op_weight ops) * ((2 ^ LENGTH('a) - 1) * (2 ^ LENGTH('a) - 1))"
  for x y :: "'a::len word list"
proof (induction ops)
  case (Cons p ops)
  then show ?case using op_val_bound[of x y p] by (simp add: add_mult_distrib)
qed simp

lemma column_fits:
  fixes B v s :: nat
  assumes "v < B * B" and "s \<le> m * ((B - 1) * (B - 1))" and "m \<le> B"
  shows "v + s < B ^ 3"
proof -
  have "s \<le> B * ((B - 1) * (B - 1))" using assms(2,3) by (meson le_trans mult_le_mono1)
  moreover have "B * ((B - 1) * (B - 1)) + B * B \<le> B ^ 3"
  proof (cases B)
    case (Suc k)
    then show ?thesis by (simp add: power3_eq_cube algebra_simps)
  qed simp
  ultimately show ?thesis using assms(1) by linarith
qed

lemma word3_shift:
  "word3_val (w2, w1, w0) = unat w0 + 2 ^ LENGTH('a) * word3_val (0, w2, w1)" for w0 :: "'a::len word"
  by (simp add: word3_val_def)

lemma word3_shift_bound: "word3_val (0, w1 :: 'a::len word, w0) < 2 ^ LENGTH('a) * 2 ^ LENGTH('a)"
  using mp_val_bound[of "[w0, w1]"] by (simp add: word3_val_def power2_eq_square)

text \<open>What a list of columns computes, when no column outgrows the accumulator.\<close>

lemma comba_columns_val:
  fixes x y z :: "'a::len word list"
  assumes "\<And>k. k < length cols \<Longrightarrow> sum_list (map op_weight (cols ! k)) \<le> 2 ^ LENGTH('a)"
    and "length cols \<le> length z"
  shows "\<exists>z' w1 w0. for_up 0 (length cols) (\<lambda>k. comba_column x y (cols ! k) k) (z, (0, 0, 0)) = (z', (0, w1, w0)) \<and>
    length z' = length z \<and> drop (length cols) z' = drop (length cols) z \<and>
    mp_val (take (length cols) z') + (2 ^ LENGTH('a)) ^ length cols * word3_val (0, w1, w0) =
      (\<Sum>k<length cols. (2 ^ LENGTH('a)) ^ k * sum_list (map (op_val x y) (cols ! k)))"
proof -
  let ?B = "2 ^ LENGTH('a) :: nat"
  let ?f = "\<lambda>k. comba_column x y (cols ! k) k"
  let ?I = "\<lambda>k (s :: 'a word list \<times> 'a word3). \<exists>z' w1 w0. s = (z', (0, w1, w0)) \<and> length z' = length z \<and> drop k z' = drop k z \<and>
    mp_val (take k z') + ?B ^ k * word3_val (0, w1, w0) = (\<Sum>i<k. ?B ^ i * sum_list (map (op_val x y) (cols ! i)))"
  have "?I (length cols) (for_up 0 (length cols) ?f (z, (0, 0, 0)))"
  proof (rule for_up_invariant[where I = ?I])
    fix k s assume k: "k < length cols" and "?I k s"
    then obtain z' w1 w0 where s: "s = (z', (0, w1, w0))" "length z' = length z" "drop k z' = drop k z"
      "mp_val (take k z') + ?B ^ k * word3_val (0, w1, w0) = (\<Sum>i<k. ?B ^ i * sum_list (map (op_val x y) (cols ! i)))"
      by blast
    let ?v = "sum_list (map (op_val x y) (cols ! k))"
    obtain r2 r1 r0 where r: "fold (comba_exec x y) (cols ! k) (0, w1, w0) = (r2, r1, r0)" 
      by (rule prod_cases3)
    have "word3_val (0, w1, w0) + ?v < ?B ^ 3"
      by (rule column_fits[OF word3_shift_bound ops_val_bound assms(1)[OF k]])
    then have "word3_val (r2, r1, r0) = word3_val (0, w1, w0) + ?v" using comba_ops_val r by metis
    then have e: "unat r0 + ?B * word3_val (0, r2, r1) = word3_val (0, w1, w0) + ?v" by (simp only: word3_shift[of r2 r1 r0])
    have "mp_val (take (Suc k) (z'[k := r0])) = mp_val (take k z') + ?B ^ k * unat r0"
      using k assms(2) s(2) by (simp add: mp_val_take_Suc)
    then have "mp_val (take (Suc k) (z'[k := r0])) + ?B ^ Suc k * word3_val (0, r2, r1) =
        (\<Sum>i<Suc k. ?B ^ i * sum_list (map (op_val x y) (cols ! i)))"
      using s(4) arg_cong[OF e, of "(*) (?B ^ k)"] by (simp only: sum.lessThan_Suc distrib_left power_Suc2 mult.assoc) 
    moreover have "drop (Suc k) (z'[k := r0]) = drop (Suc k) z" using drop_eq_Suc[OF s(3)] by simp
    ultimately show "?I (Suc k) (?f k s)" using s r by (simp add: comba_column_def)
  qed (simp_all add: word3_val_def)
  then show ?thesis by blast
qed

lemma comba_run_val:
  fixes x y z :: "'a::len word list"
  assumes "\<And>k. k < length cols \<Longrightarrow> sum_list (map op_weight (cols ! k)) \<le> 2 ^ LENGTH('a)"
    and "length cols < length z"
    and total: "(\<Sum>k<length cols. (2 ^ LENGTH('a)) ^ k * sum_list (map (op_val x y) (cols ! k))) = v"
    and "v < (2 ^ LENGTH('a)) ^ Suc (length cols)"
  shows "length (comba_run x y cols z) = length z \<and>
    drop (Suc (length cols)) (comba_run x y cols z) = drop (Suc (length cols)) z \<and>
    mp_val (take (Suc (length cols)) (comba_run x y cols z)) = v"
proof -
  let ?B = "2 ^ LENGTH('a) :: nat" and ?n = "length cols"
  obtain z' w1 w0 where r: "for_up 0 ?n (\<lambda>k. comba_column x y (cols ! k) k) (z, (0, 0, 0)) = (z', (0, w1, w0))"
    "length z' = length z" "drop ?n z' = drop ?n z"
    "mp_val (take ?n z') + ?B ^ ?n * word3_val (0, w1, w0) = v"
    using comba_columns_val[OF assms(1), of z x y] assms(2) total by auto
  have "?B ^ ?n * word3_val (0, w1, w0) < ?B ^ ?n * ?B"
    using r(4) assms(4) by (simp only: power_Suc2)
  then have "unat w0 + ?B * unat w1 < ?B" by (simp add: word3_val_def)
  then have "unat w1 = 0" by (cases "unat w1") auto
  then have w: "word3_val (0, w1, w0) = unat w0" by (simp add: word3_val_def)
  have run: "comba_run x y cols z = z'[?n := w0]" using r(1) by (simp add: comba_run_def)
  show ?thesis unfolding run using r assms(2) drop_eq_Suc[OF r(3)] w by (simp add: mp_val_take_Suc)
qed

section \<open>The columns of a product\<close>

text \<open>The calls a product and a square of \<open>n\<close> words need for column \<open>c\<close>.\<close>

definition product_column :: "nat \<Rightarrow> nat \<Rightarrow> comba_op list" where
  "product_column n c = map (\<lambda>i. Muladd i (c - i)) [c + 1 - n..<min n (c + 1)]"

definition square_column :: "nat \<Rightarrow> nat \<Rightarrow> comba_op list" where
  "square_column n c = map (\<lambda>i. Muladd_2 i (c - i)) [c + 1 - n..<(c + 1) div 2] @
     (if even c then [Muladd (c div 2) (c div 2)] else [])"

lemma comba_columns:
  "comba_mul4_columns = map (product_column 4) [0..<7]"
  "comba_sqr4_columns = map (square_column 4) [0..<7]"
  "comba_mul6_columns = map (product_column 6) [0..<11]"
  "comba_sqr6_columns = map (square_column 6) [0..<11]"
  "comba_mul8_columns = map (product_column 8) [0..<15]"
  "comba_sqr8_columns = map (square_column 8) [0..<15]"
  "comba_mul16_columns = map (product_column 16) [0..<31]"
  "comba_sqr16_columns = map (square_column 16) [0..<31]"
  by code_simp+

lemma product_column_val:
  "sum_list (map (op_val x y) (product_column n c)) =
    (\<Sum>i = c + 1 - n..<min n (c + 1). unat (x ! i) * unat (y ! (c - i)))"
  by (simp add: product_column_def comp_def interv_sum_list_conv_sum_set_nat)

lemma product_columns_sum:
  fixes b :: nat and f g :: "nat \<Rightarrow> nat"
  assumes "0 < n"
  shows "(\<Sum>c<2 * n - 1. b ^ c * (\<Sum>i = c + 1 - n..<min n (c + 1). f i * g (c - i))) =
    (\<Sum>i<n. b ^ i * f i) * (\<Sum>j<n. b ^ j * g j)"
proof -
  let ?S = "{..<n} \<times> {..<n}" and ?h = "\<lambda>(i, j). b ^ (i + j) * (f i * g j)"
  have "(\<Sum>i<n. b ^ i * f i) * (\<Sum>j<n. b ^ j * g j) = sum ?h ?S"
    by (simp add: sum_product sum.cartesian_product power_add mult_ac)
  also have "\<dots> = (\<Sum>c<2 * n - 1. sum ?h {p \<in> ?S. fst p + snd p = c})"
    using assms by (intro sum.group[symmetric]) auto
  also have "\<dots> = (\<Sum>c<2 * n - 1. b ^ c * (\<Sum>i = c + 1 - n..<min n (c + 1). f i * g (c - i)))"
  proof (rule sum.cong[OF refl])
    fix c assume "c \<in> {..<2 * n - 1}"
    have "sum ?h {p \<in> ?S. fst p + snd p = c} = (\<Sum>i = c + 1 - n..<min n (c + 1). b ^ c * (f i * g (c - i)))"
      by (rule sum.reindex_bij_witness[where i = "\<lambda>i. (i, c - i)" and j = fst]) auto
    then show "sum ?h {p \<in> ?S. fst p + snd p = c} = b ^ c * (\<Sum>i = c + 1 - n..<min n (c + 1). f i * g (c - i))"
      by (simp add: sum_distrib_left)
  qed
  finally show ?thesis by simp
qed

lemma square_column_val:
  assumes "c < 2 * n - 1"
  shows "sum_list (map (op_val x x) (square_column n c)) = sum_list (map (op_val x x) (product_column n c))"
proof -
  let ?f = "\<lambda>i. unat (x ! i) * unat (x ! (c - i))"
  let ?lo = "c + 1 - n" and ?m = "(c + 1) div 2" and ?hi = "min n (c + 1)"
  have up: "(\<Sum>i = c + 1 - ?m..<?hi. ?f i) = (\<Sum>i = ?lo..<?m. ?f i)"
    using assms by (intro sum.reindex_bij_witness[where i = "\<lambda>i. c - i" and j = "\<lambda>i. c - i"]) auto
  have le: "?lo \<le> ?m" "?m \<le> c + 1 - ?m" "c + 1 - ?m \<le> ?hi" using assms by linarith+
  then have "(\<Sum>i = ?lo..<?hi. ?f i) = (\<Sum>i = ?lo..<?m. ?f i) + (\<Sum>i = ?m..<c + 1 - ?m. ?f i) + (\<Sum>i = c + 1 - ?m..<?hi. ?f i)"
    using sum.atLeastLessThan_concat[OF le(1,2), of ?f]
      sum.atLeastLessThan_concat[OF order.trans[OF le(1,2)] le(3), of ?f] by linarith
  also have "\<dots> = 2 * (\<Sum>i = ?lo..<?m. ?f i) + (\<Sum>i = ?m..<c + 1 - ?m. ?f i)" unfolding up by simp
  also have "(\<Sum>i = ?m..<c + 1 - ?m. ?f i) = (if even c then ?f (c div 2) else 0)"
  proof (cases "even c")
    case True
    then have "{?m..<c + 1 - ?m} = {c div 2}" by (auto elim!: evenE)
    with True show ?thesis by simp
  next
    case False
    then have "{?m..<c + 1 - ?m} = {}" by (auto elim!: oddE)
    with False show ?thesis by simp
  qed
  also have "2 * (\<Sum>i = ?lo..<?m. ?f i) + (if even c then ?f (c div 2) else 0) = sum_list (map (op_val x x) (square_column n c))"
    by (auto simp: square_column_def comp_def interv_sum_list_conv_sum_set_nat sum_distrib_left elim!: evenE)
  finally show ?thesis by (simp only: product_column_val)
qed

lemma column_weight:
  "sum_list (map op_weight (product_column n c)) \<le> n"
  "c < 2 * n - 1 \<Longrightarrow> sum_list (map op_weight (square_column n c)) \<le> n"
proof -
  show "sum_list (map op_weight (product_column n c)) \<le> n"
    by (simp add: product_column_def comp_def sum_list_triv)
  show "sum_list (map op_weight (square_column n c)) \<le> n" if "c < 2 * n - 1"
    using that by (auto simp: square_column_def comp_def sum_list_triv elim!: evenE oddE)
qed

section \<open>The contract of a block multiplier\<close>

locale block_multiplier =
  fixes mul :: "'a::len word list \<Rightarrow> 'a word list \<Rightarrow> 'a word list \<Rightarrow> 'a word list" and n :: nat
  assumes mul_val: "n \<le> length x \<Longrightarrow> n \<le> length y \<Longrightarrow> 2 * n \<le> length z \<Longrightarrow>
    length (mul z x y) = length z \<and> drop (2 * n) (mul z x y) = drop (2 * n) z \<and>
    mp_val (take (2 * n) (mul z x y)) = mp_val (take n x) * mp_val (take n y)"
begin

lemma exact: "length x = n \<Longrightarrow> length y = n \<Longrightarrow> length z = 2 * n \<Longrightarrow> mp_val (mul z x y) = mp_val x * mp_val y"
  using mul_val[of x y z] by auto

end

lemma comba_product:
  fixes x y z :: "'a::len word list"
  assumes "0 < n" and "n \<le> 2 ^ LENGTH('a)" and "n \<le> length x" and "n \<le> length y" and "2 * n \<le> length z"
    and len: "length cols = 2 * n - 1"
    and w: "\<And>c. c < 2 * n - 1 \<Longrightarrow> sum_list (map op_weight (cols ! c)) \<le> n"
    and v: "\<And>c. c < 2 * n - 1 \<Longrightarrow> sum_list (map (op_val x y) (cols ! c)) = sum_list (map (op_val x y) (product_column n c))"
  shows "length (comba_run x y cols z) = length z \<and> drop (2 * n) (comba_run x y cols z) = drop (2 * n) z \<and>
    mp_val (take (2 * n) (comba_run x y cols z)) = mp_val (take n x) * mp_val (take n y)"
proof -
  have S: "Suc (length cols) = 2 * n" using assms(1) len by simp
  have "mp_val (take n x) * mp_val (take n y) < (2 ^ LENGTH('a)) ^ n * (2 ^ LENGTH('a)) ^ n"
    by (intro mult_strict_mono' mp_val_take_bound) simp_all
  then have "mp_val (take n x) * mp_val (take n y) < (2 ^ LENGTH('a)) ^ Suc (length cols)"
    unfolding S by (simp add: mult_2 power_add)
  moreover have "(\<Sum>k<length cols. (2 ^ LENGTH('a)) ^ k * sum_list (map (op_val x y) (cols ! k))) =
      mp_val (take n x) * mp_val (take n y)"
    using assms(1,3,4) product_columns_sum[of n "2 ^ LENGTH('a)" "\<lambda>i. unat (x ! i)" "\<lambda>j. unat (y ! j)"]
    by (simp add: len v product_column_val mp_val_take_sum)
  moreover have "sum_list (map op_weight (cols ! k)) \<le> 2 ^ LENGTH('a)" if "k < length cols" for k
    using w[of k] that assms(2) len by linarith
  moreover have "length cols < length z" using assms(5) S by linarith
  ultimately show ?thesis
    using comba_run_val[of cols z x y "mp_val (take n x) * mp_val (take n y)"] unfolding S by blast
qed

lemma width_le: "8 \<le> LENGTH('a::len) \<Longrightarrow> n \<le> 256 \<Longrightarrow> n \<le> (2 :: nat) ^ LENGTH('a)"
  using power_increasing[of 8 "LENGTH('a)" "2 :: nat"] by simp

lemma comba_mul_block:
  assumes "8 \<le> LENGTH('a::len)" and "0 < n" and "n \<le> 256" and "cols = map (product_column n) [0..<2 * n - 1]"
  shows "block_multiplier (\<lambda>z (x :: 'a word list) y. comba_run x y cols z) n"
  using assms width_le[OF assms(1,3)]
  by (intro block_multiplier.intro comba_product) (simp_all add: column_weight)

lemma comba_sqr_block:
  fixes x z :: "'a::len word list"
  assumes "8 \<le> LENGTH('a)" and "0 < n" and "n \<le> 256" and "cols = map (square_column n) [0..<2 * n - 1]"
    and "n \<le> length x" and "2 * n \<le> length z"
  shows "length (comba_run x x cols z) = length z \<and> drop (2 * n) (comba_run x x cols z) = drop (2 * n) z \<and>
    mp_val (take (2 * n) (comba_run x x cols z)) = (mp_val (take n x))\<^sup>2"
  using assms width_le[OF assms(1,3)] comba_product[of n x x z cols]
  by (simp add: column_weight square_column_val power2_eq_square)

lemma comba_blocks:
  assumes "8 \<le> LENGTH('a::len)"
  shows "block_multiplier (bigint_comba_mul4 :: 'a word list \<Rightarrow> _) 4"
    and "block_multiplier (bigint_comba_mul6 :: 'a word list \<Rightarrow> _) 6"
    and "block_multiplier (bigint_comba_mul8 :: 'a word list \<Rightarrow> _) 8"
    and "block_multiplier (bigint_comba_mul16 :: 'a word list \<Rightarrow> _) 16"
proof -
  note d = bigint_comba_mul4_def bigint_comba_mul6_def bigint_comba_mul8_def bigint_comba_mul16_def
  show "block_multiplier (bigint_comba_mul4 :: 'a word list \<Rightarrow> _) 4"
    using comba_mul_block[OF assms, of 4] by (simp add: comba_columns d[abs_def])
  show "block_multiplier (bigint_comba_mul6 :: 'a word list \<Rightarrow> _) 6"
    using comba_mul_block[OF assms, of 6] by (simp add: comba_columns d[abs_def])
  show "block_multiplier (bigint_comba_mul8 :: 'a word list \<Rightarrow> _) 8"
    using comba_mul_block[OF assms, of 8] by (simp add: comba_columns d[abs_def])
  show "block_multiplier (bigint_comba_mul16 :: 'a word list \<Rightarrow> _) 16"
    using comba_mul_block[OF assms, of 16] by (simp add: comba_columns d[abs_def])
qed

interpretation comba4: block_multiplier "bigint_comba_mul4 :: u32bit list \<Rightarrow> _" 4
  by (rule comba_blocks) simp

interpretation comba6: block_multiplier "bigint_comba_mul6 :: u32bit list \<Rightarrow> _" 6
  by (rule comba_blocks) simp

interpretation comba8: block_multiplier "bigint_comba_mul8 :: u32bit list \<Rightarrow> _" 8
  by (rule comba_blocks) simp

interpretation comba16: block_multiplier "bigint_comba_mul16 :: u32bit list \<Rightarrow> _" 16
  by (rule comba_blocks) simp

end
