(* ===== verification/MP_Misc.thy ===== *)
theory MP_Misc
  imports MP_Mul
begin

text \<open>
  Comparison, the two-by-one-word division and the quotient-digit test of the division
  algorithm (\<open>src/math/bigint/mp_misc.cpp\<close>). The loops run from the top word, or the top
  bit, down.
\<close>

section \<open>Definitions\<close>

definition bigint_divcore ::
  "'a::len word \<Rightarrow> 'a word \<Rightarrow> 'a word \<Rightarrow> 'a word \<Rightarrow> 'a word \<Rightarrow> 'a word \<Rightarrow> bool" where
  "bigint_divcore q y1 y2 x1 x2 x3 =
     (let y0 = 0;
          (y2, y0) = word_madd2 q y2 y0;
          (y1, y0) = word_madd2 q y1 y0
      in if y0 > x1 then True else if y0 < x1 then False
         else if y1 > x2 then True else if y1 < x2 then False
         else if y2 > x3 then True else if y2 < x3 then False
         else False)"

text \<open>\<open>for (j = x_size; j > 0; --j)\<close> with its two returns.\<close>

fun cmp_loop :: "'a::len word list \<Rightarrow> 'a word list \<Rightarrow> nat \<Rightarrow> int" where
  "cmp_loop x y 0 = 0"
| "cmp_loop x y (Suc j) =
     (if x ! j > y ! j then 1 else if x ! j < y ! j then -1 else cmp_loop x y j)"

text \<open>With \<open>x_size \<ge> y_size\<close>: the \<open>while\<close> over the excess words, then the loop above.\<close>

function cmp_from :: "'a::len word list \<Rightarrow> nat \<Rightarrow> 'a word list \<Rightarrow> nat \<Rightarrow> int" where
  "cmp_from x x_size y y_size =
     (if x_size > y_size
      then if x ! (x_size - 1) \<noteq> 0 then 1 else cmp_from x (x_size - 1) y y_size
      else cmp_loop x y x_size)"
  by pat_completeness auto
termination
  by (relation "measure (\<lambda>(x, x_size, y, y_size). x_size - y_size)") auto

declare cmp_from.simps [simp del]

definition bigint_cmp :: "'a::len word list \<Rightarrow> nat \<Rightarrow> 'a word list \<Rightarrow> nat \<Rightarrow> int" where
  "bigint_cmp x x_size y y_size =
     (if x_size < y_size then - cmp_from y y_size x x_size else cmp_from x x_size y y_size)"

definition divop_step :: "'a::len word \<Rightarrow> 'a word \<Rightarrow> nat \<Rightarrow> 'a word \<times> 'a word \<Rightarrow> 'a word \<times> 'a word" where
  "divop_step n0 d j s = (case s of (high, quot) \<Rightarrow>
     let high_top_bit = high AND push_bit (LENGTH('a) - 1) 1;
         high = push_bit 1 high;
         high = high OR (drop_bit (LENGTH('a) - 1 - j) n0 AND 1);
         quot = push_bit 1 quot
     in if high_top_bit \<noteq> 0 \<or> high \<ge> d then (high - d, quot OR 1) else (high, quot))"

definition bigint_divop :: "'a::len word \<Rightarrow> 'a word \<Rightarrow> 'a word \<Rightarrow> 'a word" where
  "bigint_divop n1 n0 d = snd (for_up 0 LENGTH('a) (divop_step n0 d) (n1 mod d, 0))"

definition bigint_modop :: "'a::len word \<Rightarrow> 'a word \<Rightarrow> 'a word \<Rightarrow> 'a word" where
  "bigint_modop n1 n0 d =
     (let z = bigint_divop n1 n0 d; (z, dummy) = word_madd2 z d 0 in n0 - z)"

section \<open>Comparison\<close>

lemma cmp_loop_val:
  fixes x y :: "'a::len word list"
  assumes "n \<le> length x" and "n \<le> length y"
  shows "cmp_loop x y n = sgn (int (mp_val (take n x)) - int (mp_val (take n y)))"
  using assms
proof (induction n)
  case (Suc n)
  show ?case
  proof (cases "x ! n" "y ! n" rule: linorder_cases)
    case less
    then have "mp_val (take (Suc n) x) < mp_val (take (Suc n) y)" using Suc.prems by (simp add: mp_val_less_Suc)
    with less show ?thesis by simp
  next
    case equal
    with Suc show ?thesis by (simp add: mp_val_take_Suc)
  next
    case greater
    then have "mp_val (take (Suc n) y) < mp_val (take (Suc n) x)" using Suc.prems by (simp add: mp_val_less_Suc)
    with greater show ?thesis by simp
  qed
qed simp

lemma cmp_from_val:
  fixes x y :: "'a::len word list"
  assumes "y_size \<le> x_size" and "x_size \<le> length x" and "y_size \<le> length y"
  shows "cmp_from x x_size y y_size = sgn (int (mp_val (take x_size x)) - int (mp_val (take y_size y)))"
  using assms
proof (induction x x_size y y_size rule: cmp_from.induct)
  case (1 x x_size y y_size)
  show ?case
  proof (cases "y_size < x_size")
    case True
    then obtain n where n: "x_size = Suc n" by (cases x_size) auto
    have v: "mp_val (take x_size x) = mp_val (take n x) + (2 ^ LENGTH('a)) ^ n * unat (x ! n)"
      unfolding n using 1 n by (intro mp_val_take_Suc) simp
    show ?thesis
    proof (cases "x ! n = 0")
      case True
      then show ?thesis using 1 n \<open>y_size < x_size\<close> v by (simp add: cmp_from.simps[of x "Suc n" y y_size])
    next
      case False
      then have "1 \<le> unat (x ! n)" by (simp add: unat_gt_0 Suc_leI)
      then have "(2 ^ LENGTH('a)) ^ n * 1 \<le> (2 ^ LENGTH('a)) ^ n * unat (x ! n)" by (rule mult_le_mono2)
      then have "(2 ^ LENGTH('a)) ^ n \<le> mp_val (take x_size x)" using v by linarith
      moreover have "mp_val (take y_size y) < (2 ^ LENGTH('a)) ^ n"
      proof -
        have "mp_val (take y_size y) < (2 ^ LENGTH('a)) ^ y_size" by (rule mp_val_take_bound)
        also have "\<dots> \<le> (2 ^ LENGTH('a)) ^ n" using \<open>y_size < x_size\<close> n by (intro power_increasing) simp_all
        finally show ?thesis .
      qed
      ultimately show ?thesis using False n \<open>y_size < x_size\<close> by (simp add: cmp_from.simps[of x "Suc n" y y_size])
    qed
  next
    case False
    with 1 show ?thesis using cmp_from.simps[of x x_size y y_size] by (simp add: cmp_loop_val)
  qed
qed

lemma bigint_cmp_val [value_simps]:
  fixes x y :: "'a::len word list"
  assumes "x_size \<le> length x" and "y_size \<le> length y"
  shows "bigint_cmp x x_size y y_size = sgn (int (mp_val (take x_size x)) - int (mp_val (take y_size y)))"
  using assms by (simp add: bigint_cmp_def cmp_from_val flip: sgn_minus)

section \<open>Division of two words by one\<close>

lemma bigint_divcore_val:
  fixes q :: "'a::len word"
  shows "bigint_divcore q y1 y2 x1 x2 x3 \<longleftrightarrow>
    unat x3 + 2 ^ LENGTH('a) * (unat x2 + 2 ^ LENGTH('a) * unat x1) < unat q * (unat y2 + 2 ^ LENGTH('a) * unat y1)"
proof -
  let ?B = "2 ^ LENGTH('a) :: nat"
  obtain r2 c where 2: "word_madd2 q y2 0 = (r2, c)" by (rule prod.exhaust)
  obtain r1 r0 where 1: "word_madd2 q y1 c = (r1, r0)" by (rule prod.exhaust)
  have e2: "unat r2 + ?B * unat c = unat q * unat y2" using word_madd2_val[OF 2] by simp
  have e1: "unat r1 + ?B * unat r0 = unat q * unat y1 + unat c" by (rule word_madd2_val[OF 1])
  have "unat q * (unat y2 + ?B * unat y1) = mp_val [r2, r1, r0]"
    using e2 arg_cong[OF e1, of "(*) ?B"] by (simp add: distrib_left mult.left_commute)
  moreover have "bigint_divcore q y1 y2 x1 x2 x3 \<longleftrightarrow> mp_val [x3, x2, x1] < mp_val [r2, r1, r0]"
    using mp_val_less_Suc[of 2 "[x3, x2, x1]" "[r2, r1, r0]"] mp_val_less_Suc[of 1 "[x3, x2, x1]" "[r2, r1, r0]"]
      mp_val_less_Suc[of 0 "[x3, x2, x1]" "[r2, r1, r0]"]
    by (auto simp: bigint_divcore_def 1 2 Let_def numeral_3_eq_3 numeral_2_eq_2)
  ultimately show ?thesis by simp
qed

lemma top_bit_iff:
  fixes x :: "'a::len word"
  shows "x AND push_bit (LENGTH('a) - 1) 1 \<noteq> 0 \<longleftrightarrow> unat (drop_bit (LENGTH('a) - 1) x) = 1"
    and "unat (drop_bit (LENGTH('a) - 1) x) \<le> 1"
proof -
  show b: "unat (drop_bit (LENGTH('a) - 1) x) \<le> 1"
    using unat_drop_bit_bound[of 1 x] by (simp add: Suc_leI)
  have "x AND push_bit (LENGTH('a) - 1) 1 \<noteq> 0 \<longleftrightarrow> bit x (LENGTH('a) - 1)"
    by (simp add: and_exp_eq_0_iff_not_bit)
  also have "\<dots> \<longleftrightarrow> bit (unat x) (LENGTH('a) - 1)" by (simp add: bit_unsigned_iff)
  also have "\<dots> \<longleftrightarrow> odd (unat (drop_bit (LENGTH('a) - 1) x))" unfolding unat_drop_bit by (rule bit_iff_odd)
  finally show "x AND push_bit (LENGTH('a) - 1) 1 \<noteq> 0 \<longleftrightarrow> unat (drop_bit (LENGTH('a) - 1) x) = 1"
    using b by (cases "unat (drop_bit (LENGTH('a) - 1) x)") auto
qed

lemma unat_low_bit: "unat (x AND 1) = unat x mod 2" for x :: "'a::len word"
  unfolding unsigned_and_eq unsigned_1 by (rule and_one_eq)

lemma divop_step_val:
  fixes n0 d :: "'a::len word"
  assumes "j < LENGTH('a)" and "high < d" and "unat quot < 2 ^ j"
    and inv: "m * 2 ^ j + unat n0 div 2 ^ (LENGTH('a) - j) = unat quot * unat d + unat high"
    and st: "divop_step n0 d j (high, quot) = (high', quot')"
  shows "high' < d \<and> unat quot' < 2 ^ Suc j \<and>
    m * 2 ^ Suc j + unat n0 div 2 ^ (LENGTH('a) - Suc j) = unat quot' * unat d + unat high'"
proof -
  let ?B = "2 ^ LENGTH('a) :: nat"
  define b where "b = drop_bit (LENGTH('a) - 1 - j) n0 AND 1"
  define t where "t = unat (drop_bit (LENGTH('a) - 1) high)"
  define h where "h = push_bit 1 high OR b"
  have ub: "unat b = unat n0 div 2 ^ (LENGTH('a) - Suc j) mod 2"
    by (simp add: b_def unat_low_bit unat_drop_bit)
  have n0: "unat n0 div 2 ^ (LENGTH('a) - Suc j) = 2 * (unat n0 div 2 ^ (LENGTH('a) - j)) + unat b"
  proof -
    have "LENGTH('a) - j = Suc (LENGTH('a) - Suc j)" using assms(1) by simp
    then have "unat n0 div 2 ^ (LENGTH('a) - j) = unat n0 div 2 ^ (LENGTH('a) - Suc j) div 2"
      by (simp add: div_mult2_eq power_Suc2 del: power_Suc)
    then show ?thesis unfolding ub by simp
  qed
  have h: "unat h + ?B * t = 2 * unat high + unat b"
    using shift_split[of 1 high] push_bit_or[of b 1 high] ub by (simp add: h_def t_def Suc_leI)
  have t1: "t \<le> 1" unfolding t_def by (rule top_bit_iff)
  have top: "high AND push_bit (LENGTH('a) - 1) 1 \<noteq> 0 \<longleftrightarrow> t = 1" unfolding t_def by (rule top_bit_iff)
  have ch: "high AND push_bit (LENGTH('a) - 1) 1 \<noteq> 0 \<or> h \<ge> d \<longleftrightarrow> unat d \<le> 2 * unat high + unat b"
  proof (cases t)
    case 0
    then show ?thesis unfolding top using h by (simp add: word_le_nat_alt)
  next
    case (Suc k)
    then have t: "t = 1" using t1 by simp
    have "unat d \<le> 2 * unat high + unat b" using h[unfolded t] unat_less_base[of d] by linarith
    with t show ?thesis unfolding top by simp
  qed
  have hd: "unat high < unat d" using assms(2) by (simp add: word_less_nat_alt)
  have "unat b \<le> 1" unfolding ub by simp
  have q2: "unat (push_bit 1 quot) = 2 * unat quot"
  proof -
    have "(2 :: nat) ^ j \<le> 2 ^ (LENGTH('a) - 1)" using assms(1) by (intro power_increasing) simp_all
    with assms(3) have "unat quot < 2 ^ (LENGTH('a) - 1)" by (rule less_le_trans)
    then have "unat (drop_bit (LENGTH('a) - 1) quot) = 0" unfolding unat_drop_bit by (rule div_less)
    then show ?thesis using shift_split[of 1 quot] by (simp add: Suc_leI)
  qed
  have st': "(high', quot') = (if unat d \<le> 2 * unat high + unat b then (h - d, push_bit 1 quot OR 1) else (h, push_bit 1 quot))"
    using st unfolding divop_step_def Let_def prod.case b_def[symmetric] h_def[symmetric] ch by simp
  have total: "m * 2 ^ Suc j + unat n0 div 2 ^ (LENGTH('a) - Suc j) = 2 * unat quot * unat d + (2 * unat high + unat b)"
    unfolding n0 using arg_cong[OF inv, of "(*) 2"] by (simp add: algebra_simps)
  show ?thesis
  proof (cases "unat d \<le> 2 * unat high + unat b")
    case True
    then have r: "high' = h - d" "quot' = push_bit 1 quot OR 1" using st' by simp_all
    have "unat (h - d) + unat d = unat h + ?B * of_bool (h < h - d)" by (rule sub_borrow_val)
    then have sub: "unat (h - d) + unat d = 2 * unat high + unat b"
    proof (cases "t = 0")
      case True
      then have "unat d \<le> unat h" using h \<open>unat d \<le> 2 * unat high + unat b\<close> by simp
      then have "\<not> h < h - d" by (metis less_le_not_le word_le_nat_alt word_sub_le_iff)
      then show ?thesis using \<open>unat (h - d) + unat d = _\<close> h True by simp
    next
      case False
      then have t: "t = 1" using t1 by simp
      then have "unat h + ?B = 2 * unat high + unat b" using h by simp
      moreover have "h < h - d"
      proof (rule ccontr)
        assume "\<not> h < h - d"
        then have "unat (h - d) + unat d = unat h" using \<open>unat (h - d) + unat d = _\<close> by simp
        then show False
          using \<open>unat h + ?B = _\<close> hd \<open>unat b \<le> 1\<close> unat_less_base[of d] by linarith
      qed
      ultimately show ?thesis using \<open>unat (h - d) + unat d = _\<close> by simp
    qed
    moreover have "unat quot' = 2 * unat quot + 1" using push_bit_or[of 1 1 quot] q2 r by simp
    ultimately show ?thesis using r hd \<open>unat b \<le> 1\<close> total assms(3) by (simp add: word_less_nat_alt add_mult_distrib)
  next
    case False
    then have r: "high' = h" "quot' = push_bit 1 quot" using st' by simp_all
    have "t = 0" using False h unat_less_base[of d] t1 by (cases t) auto
    then show ?thesis using r h q2 False total assms(3) by (simp add: word_less_nat_alt)
  qed
qed

lemma bigint_divop_val:
  fixes n1 n0 d :: "'a::len word"
  assumes "d \<noteq> 0"
  shows "unat (bigint_divop n1 n0 d) = (unat n1 mod unat d * 2 ^ LENGTH('a) + unat n0) div unat d"
proof -
  let ?m = "unat n1 mod unat d"
  let ?I = "\<lambda>j (s :: 'a word \<times> 'a word). fst s < d \<and> unat (snd s) < 2 ^ j \<and>
    ?m * 2 ^ j + unat n0 div 2 ^ (LENGTH('a) - j) = unat (snd s) * unat d + unat (fst s)"
  have d: "0 < unat d" using assms by (simp add: unat_gt_0)
  have "?I LENGTH('a) (for_up 0 LENGTH('a) (divop_step n0 d) (n1 mod d, 0))"
  proof (rule for_up_invariant[where I = ?I])
    show "?I 0 (n1 mod d, 0)" using d by (simp add: word_less_nat_alt unat_mod)
  next
    fix j s assume "j < LENGTH('a)" and "?I j s"
    then show "?I (Suc j) (divop_step n0 d j s)"
      using divop_step_val[of j "fst s" d "snd s" ?m n0 "fst (divop_step n0 d j s)" "snd (divop_step n0 d j s)"]
      by simp
  qed simp
  then have "?m * 2 ^ LENGTH('a) + unat n0 = unat (bigint_divop n1 n0 d) * unat d + unat (fst (for_up 0 LENGTH('a) (divop_step n0 d) (n1 mod d, 0)))"
    and "unat (fst (for_up 0 LENGTH('a) (divop_step n0 d) (n1 mod d, 0))) < unat d"
    by (simp_all add: bigint_divop_def word_less_nat_alt)
  then show ?thesis using d by simp
qed

lemma bigint_modop_val:
  fixes n1 n0 d :: "'a::len word"
  assumes "d \<noteq> 0"
  shows "unat (bigint_modop n1 n0 d) = (unat n1 * 2 ^ LENGTH('a) + unat n0) mod unat d"
proof -
  let ?B = "2 ^ LENGTH('a) :: nat" and ?N = "unat n1 mod unat d * 2 ^ LENGTH('a) + unat n0"
  have d: "0 < unat d" using assms by (simp add: unat_gt_0)
  obtain z c where m: "word_madd2 (bigint_divop n1 n0 d) d 0 = (z, c)" by (rule prod.exhaust)
  have "(of_nat (?N mod unat d) :: 'a word) = of_nat ?N - of_nat (?N div unat d * unat d)"
    by (metis add_diff_cancel_left' mod_div_mult_eq of_nat_add add.commute)
  also have "(of_nat ?N :: 'a word) = n0" by simp
  also have "(of_nat (?N div unat d * unat d) :: 'a word) = of_nat (unat z + ?B * unat c)"
    using word_madd2_val[OF m] bigint_divop_val[OF assms, of n1 n0] by simp
  also have "\<dots> = z" by simp
  finally have "(of_nat (?N mod unat d) :: 'a word) = bigint_modop n1 n0 d"
    using m by (simp add: bigint_modop_def)
  then have "unat (bigint_modop n1 n0 d) = unat (of_nat (?N mod unat d) :: 'a word)" by simp
  also have "\<dots> = ?N mod unat d mod ?B" by (rule unat_of_nat)
  also have "\<dots> = ?N mod unat d"
    using d unat_less_base[of d] by (intro mod_less) (meson less_trans mod_less_divisor)
  also have "\<dots> = (unat n1 * ?B + unat n0) mod unat d" by (metis mod_add_left_eq mod_mult_left_eq)
  finally show ?thesis .
qed

end
