(* ===== verification/MP_Karatsuba.thy ===== *)
theory MP_Karatsuba
  imports MP_Comba MP_Misc
begin

text \<open>
  Karatsuba multiplication and squaring, the choice of their size, and the dispatchers
  \<open>bigint_mul\<close> and \<open>bigint_sqr\<close> (\<open>src/math/bigint/mp_karat.cpp\<close>). The output and
  the workspace are lists that start at the code's pointers. A call on \<open>workspace\<close> and
  \<open>workspace + N\<close> at once passes the two halves \<open>take N ws\<close>, \<open>drop N ws\<close> and
  appends what comes back: the callee writes exactly \<open>N\<close> words of its output, which the
  proof shows.
\<close>

section \<open>Definitions\<close>

text \<open>The thresholds of \<open>build-data/buildh.in\<close>.\<close>

definition BOTAN_KARAT_MUL_THRESHOLD :: nat where
  "BOTAN_KARAT_MUL_THRESHOLD = 32"

definition BOTAN_KARAT_SQR_THRESHOLD :: nat where
  "BOTAN_KARAT_SQR_THRESHOLD = 32"

text \<open>
  The end of both routines: \<open>workspace[N..2N) = z0 + z1\<close>, added to \<open>z + N/2\<close> with its
  carries, then the middle product in \<open>workspace[0..N)\<close> added or subtracted.
\<close>

definition karatsuba_fold :: "bool \<Rightarrow> 'a::len word list \<Rightarrow> nat \<Rightarrow> 'a word list \<Rightarrow> 'a word list \<times> 'a word list" where
  "karatsuba_fold add_middle z N workspace =
     (let N2 = N div 2;
          blocks_of_8 = N - N mod 8;
          z0 = z;
          z1 = drop N z;
          (w1, carry) = for_by8 blocks_of_8
            (\<lambda>j. block_at j (\<lambda>w carry. word8_add3 w (drop j z0) (drop j z1) carry)) (drop N workspace, 0);
          (w1, carry) = for_up blocks_of_8 N (upd_step (\<lambda>j wj c. word_add (z0 ! j) (z1 ! j) c)) (w1, carry);
          workspace = take N workspace @ w1;
          (z2, carry2) = for_by8 blocks_of_8
            (\<lambda>j. block_at j (\<lambda>z carry. word8_add2 z (drop j w1) carry)) (drop N2 z, 0);
          (z2, carry2) = for_up blocks_of_8 N (upd_step (\<lambda>j zj c. word_add zj (w1 ! j) c)) (z2, carry2);
          (r, carry) = word_add (z2 ! N) carry2 carry;
          z2 = z2[N := r];
          z2 = (if carry \<noteq> 0 then at_ptr N (\<lambda>p. fst (add_carry_loop p 1 N2)) z2 else z2);
          z2 = (if add_middle then bigint_add2 z2 (2 * N - N2) workspace N
                else bigint_sub2 z2 (2 * N - N2) workspace N)
      in (take N2 z @ z2, workspace))"

function karatsuba_mul ::
  "'a::len word list \<Rightarrow> 'a word list \<Rightarrow> 'a word list \<Rightarrow> nat \<Rightarrow> 'a word list \<Rightarrow> 'a word list \<times> 'a word list" where
  "karatsuba_mul z x y N workspace =
     (if N = 6 then (bigint_comba_mul6 z x y, workspace)
      else if N = 8 then (bigint_comba_mul8 z x y, workspace)
      else if N = 16 then (bigint_comba_mul16 z x y, workspace)
      else if N < BOTAN_KARAT_MUL_THRESHOLD \<or> N mod 2 \<noteq> 0 then (bigint_simple_mul z x N y N, workspace)
      else
        let N2 = N div 2;
            x0 = x; x1 = drop N2 x; y0 = y; y1 = drop N2 y;
            cmp0 = bigint_cmp x0 N2 x1 N2;
            cmp1 = bigint_cmp y1 N2 y0 N2;
            workspace = clear_mem workspace (2 * N);
            (z, workspace) =
              (if cmp0 \<noteq> 0 \<and> cmp1 \<noteq> 0
               then let z = (if cmp0 > 0 then bigint_sub3 z x0 N2 x1 N2 else bigint_sub3 z x1 N2 x0 N2);
                        z1 = (if cmp1 > 0 then bigint_sub3 (drop N z) y1 N2 y0 N2
                              else bigint_sub3 (drop N z) y0 N2 y1 N2);
                        z = take N z @ z1;
                        (w0, w1) = karatsuba_mul (take N workspace) z z1 N2 (drop N workspace)
                    in (z, w0 @ w1)
               else (z, workspace));
            (z, w1) = karatsuba_mul z x0 y0 N2 (drop N workspace);
            (z1, w1) = karatsuba_mul (drop N z) x1 y1 N2 w1
        in karatsuba_fold (cmp0 = cmp1 \<or> cmp0 = 0 \<or> cmp1 = 0) (take N z @ z1) N (take N workspace @ w1))"
  by pat_completeness auto
termination
  by (relation "measure (\<lambda>(z, x, y, N, workspace). N)") (auto simp: BOTAN_KARAT_MUL_THRESHOLD_def)

declare karatsuba_mul.simps [simp del]

function karatsuba_sqr ::
  "'a::len word list \<Rightarrow> 'a word list \<Rightarrow> nat \<Rightarrow> 'a word list \<Rightarrow> 'a word list \<times> 'a word list" where
  "karatsuba_sqr z x N workspace =
     (if N = 6 then (bigint_comba_sqr6 z x, workspace)
      else if N = 8 then (bigint_comba_sqr8 z x, workspace)
      else if N = 16 then (bigint_comba_sqr16 z x, workspace)
      else if N < BOTAN_KARAT_SQR_THRESHOLD \<or> N mod 2 \<noteq> 0 then (bigint_simple_sqr z x N, workspace)
      else
        let N2 = N div 2;
            x0 = x; x1 = drop N2 x;
            cmp = bigint_cmp x0 N2 x1 N2;
            workspace = clear_mem workspace (2 * N);
            (z, workspace) =
              (if cmp \<noteq> 0
               then let z = (if cmp > 0 then bigint_sub3 z x0 N2 x1 N2 else bigint_sub3 z x1 N2 x0 N2);
                        (w0, w1) = karatsuba_sqr (take N workspace) z N2 (drop N workspace)
                    in (z, w0 @ w1)
               else (z, workspace));
            (z, w1) = karatsuba_sqr z x0 N2 (drop N workspace);
            (z1, w1) = karatsuba_sqr (drop N z) x1 N2 w1
        in karatsuba_fold (cmp = 0) (take N z @ z1) N (take N workspace @ w1))"
  by pat_completeness auto
termination
  by (relation "measure (\<lambda>(z, x, N, workspace). N)") (auto simp: BOTAN_KARAT_SQR_THRESHOLD_def)

declare karatsuba_sqr.simps [simp del]

text \<open>The search loops \<open>for (j = start; j <= end; ++j)\<close> of the two overloads.\<close>

function karatsuba_size_loop :: "nat \<Rightarrow> nat \<Rightarrow> nat \<Rightarrow> nat \<Rightarrow> nat \<Rightarrow> nat \<Rightarrow> nat \<Rightarrow> nat" where
  "karatsuba_size_loop z_size x_size x_sw y_size y_sw j last_j =
     (if j > last_j then 0
      else if j mod 2 \<noteq> 0 then karatsuba_size_loop z_size x_size x_sw y_size y_sw (Suc j) last_j
      else if 2 * j > z_size then 0
      else if x_sw \<le> j \<and> j \<le> x_size \<and> y_sw \<le> j \<and> j \<le> y_size
      then if j mod 4 = 2 \<and> j + 2 \<le> x_size \<and> j + 2 \<le> y_size \<and> 2 * (j + 2) \<le> z_size then j + 2 else j
      else karatsuba_size_loop z_size x_size x_sw y_size y_sw (Suc j) last_j)"
  by pat_completeness auto
termination
  by (relation "measure (\<lambda>(z_size, x_size, x_sw, y_size, y_sw, j, last_j). Suc last_j - j)") auto

declare karatsuba_size_loop.simps [simp del]

definition karatsuba_size :: "nat \<Rightarrow> nat \<Rightarrow> nat \<Rightarrow> nat \<Rightarrow> nat \<Rightarrow> nat" where
  "karatsuba_size z_size x_size x_sw y_size y_sw =
     (if x_sw > x_size \<or> x_sw > y_size \<or> y_sw > x_size \<or> y_sw > y_size then 0
      else if (x_size = x_sw \<and> x_size mod 2 \<noteq> 0) \<or> (y_size = y_sw \<and> y_size mod 2 \<noteq> 0) then 0
      else
        let start = (if x_sw > y_sw then x_sw else y_sw);
            last_j = (if x_size < y_size then x_size else y_size)
        in if start = last_j then if start mod 2 \<noteq> 0 then 0 else start
           else karatsuba_size_loop z_size x_size x_sw y_size y_sw start last_j)"

function karatsuba_size_sqr_loop :: "nat \<Rightarrow> nat \<Rightarrow> nat \<Rightarrow> nat" where
  "karatsuba_size_sqr_loop z_size x_size j =
     (if j > x_size then 0
      else if j mod 2 \<noteq> 0 then karatsuba_size_sqr_loop z_size x_size (Suc j)
      else if 2 * j > z_size then 0
      else if j mod 4 = 2 \<and> j + 2 \<le> x_size \<and> 2 * (j + 2) \<le> z_size then j + 2 else j)"
  by pat_completeness auto
termination
  by (relation "measure (\<lambda>(z_size, x_size, j). Suc x_size - j)") auto

declare karatsuba_size_sqr_loop.simps [simp del]

definition karatsuba_size_sqr :: "nat \<Rightarrow> nat \<Rightarrow> nat \<Rightarrow> nat" where
  "karatsuba_size_sqr z_size x_size x_sw =
     (if x_sw = x_size then if x_sw mod 2 \<noteq> 0 then 0 else x_sw
      else karatsuba_size_sqr_loop z_size x_size x_sw)"

text \<open>The dispatchers return the product and the workspace.\<close>

definition bigint_mul ::
  "'a::len word list \<Rightarrow> nat \<Rightarrow> 'a word list \<Rightarrow> 'a word list \<Rightarrow> nat \<Rightarrow> nat \<Rightarrow> 'a word list \<Rightarrow> nat \<Rightarrow> nat \<Rightarrow>
    'a word list \<times> 'a word list" where
  "bigint_mul z z_size workspace x x_size x_sw y y_size y_sw =
     (if x_sw = 1 then (bigint_linmul3 z y y_sw (x ! 0), workspace)
      else if y_sw = 1 then (bigint_linmul3 z x x_sw (y ! 0), workspace)
      else if x_sw \<le> 4 \<and> x_size \<ge> 4 \<and> y_sw \<le> 4 \<and> y_size \<ge> 4 \<and> z_size \<ge> 8 then (bigint_comba_mul4 z x y, workspace)
      else if x_sw \<le> 6 \<and> x_size \<ge> 6 \<and> y_sw \<le> 6 \<and> y_size \<ge> 6 \<and> z_size \<ge> 12 then (bigint_comba_mul6 z x y, workspace)
      else if x_sw \<le> 8 \<and> x_size \<ge> 8 \<and> y_sw \<le> 8 \<and> y_size \<ge> 8 \<and> z_size \<ge> 16 then (bigint_comba_mul8 z x y, workspace)
      else if x_sw \<le> 16 \<and> x_size \<ge> 16 \<and> y_sw \<le> 16 \<and> y_size \<ge> 16 \<and> z_size \<ge> 32 then (bigint_comba_mul16 z x y, workspace)
      else if x_sw < BOTAN_KARAT_MUL_THRESHOLD \<or> y_sw < BOTAN_KARAT_MUL_THRESHOLD
      then (bigint_simple_mul z x x_sw y y_sw, workspace)
      else
        let N = karatsuba_size z_size x_size x_sw y_size y_sw
        in if N \<noteq> 0 then karatsuba_mul z x y N (clear_mem workspace (2 * N))
           else (bigint_simple_mul z x x_sw y y_sw, workspace))"

definition bigint_sqr ::
  "'a::len word list \<Rightarrow> nat \<Rightarrow> 'a word list \<Rightarrow> 'a word list \<Rightarrow> nat \<Rightarrow> nat \<Rightarrow> 'a word list \<times> 'a word list" where
  "bigint_sqr z z_size workspace x x_size x_sw =
     (if x_sw = 1 then (bigint_linmul3 z x x_sw (x ! 0), workspace)
      else if x_sw \<le> 4 \<and> x_size \<ge> 4 \<and> z_size \<ge> 8 then (bigint_comba_sqr4 z x, workspace)
      else if x_sw \<le> 6 \<and> x_size \<ge> 6 \<and> z_size \<ge> 12 then (bigint_comba_sqr6 z x, workspace)
      else if x_sw \<le> 8 \<and> x_size \<ge> 8 \<and> z_size \<ge> 16 then (bigint_comba_sqr8 z x, workspace)
      else if x_sw \<le> 16 \<and> x_size \<ge> 16 \<and> z_size \<ge> 32 then (bigint_comba_sqr16 z x, workspace)
      else if x_size < BOTAN_KARAT_SQR_THRESHOLD then (bigint_simple_sqr z x x_sw, workspace)
      else
        let N = karatsuba_size_sqr z_size x_size x_sw
        in if N \<noteq> 0 then karatsuba_sqr z x N (clear_mem workspace (2 * N))
           else (bigint_simple_sqr z x x_sw, workspace))"

section \<open>The final additions\<close>

lemma no_carry: "v + b * k = t \<Longrightarrow> t < b \<Longrightarrow> k = (0 :: nat)"
  by (cases k) auto

lemma karat_carry_val:
  fixes q :: "'a::len word list"
  assumes "word_add (q ! 0) c1 c2 = (r, c)" and "c1 \<le> 1" and "c2 \<le> 1" and "0 < n" and "n \<le> length q"
  defines "q' \<equiv> (if c \<noteq> 0 then fst (add_carry_loop (q[0 := r]) 1 n) else q[0 := r])"
  shows "length q' = length q \<and> drop n q' = drop n q \<and>
    (\<exists>k. mp_val (take n q') + (2 ^ LENGTH('a)) ^ n * k = mp_val (take n q) + unat c1 + unat c2)"
proof -
  let ?B = "2 ^ LENGTH('a) :: nat"
  have r: "unat r + ?B * unat c = unat (q ! 0) + unat c1 + unat c2" "c \<le> 1"
    using word_add_val[OF assms(1,3)] by simp_all
  have "mp_val (take n (q[0 := r])) + unat (q ! 0) = mp_val (take n q) + unat r"
    using mp_val_take_update[of 0 n q r] assms(4,5) by simp
  then have v: "mp_val (take n (q[0 := r])) + ?B * unat c = mp_val (take n q) + unat c1 + unat c2"
    using r(1) by linarith
  show ?thesis
  proof (cases "c = 0")
    case True
    then show ?thesis using v assms(4) by (auto simp: q'_def intro!: exI[of _ 0])
  next
    case False
    then have c: "c = 1" using carry_cases[OF r(2)] by simp
    obtain p d where p: "add_carry_loop (q[0 := r]) 1 n = (p, d)" by (rule prod.exhaust)
    have "length p = length q" "drop n p = drop n (q[0 := r])"
      "mp_val (take n p) + ?B ^ n * unat d = mp_val (take n (q[0 := r])) + ?B"
      using add_carry_loop_val[OF _ _ p] assms(4,5) by simp_all
    with v c p assms(4) show ?thesis by (auto simp: q'_def)
  qed
qed

lemma karatsuba_fold_val:
  fixes z ws :: "'a::len word list"
  assumes N: "N = 2 * h" "0 < h" and len: "2 * N \<le> length z" "2 * N \<le> length ws"
    and bound: "mp_val (take (2 * N) z) + (2 ^ LENGTH('a)) ^ h *
        (mp_val (take N z) + mp_val (take N (drop N z)) + (if a then mp_val (take N ws) else 0)) < (2 ^ LENGTH('a)) ^ (2 * N)"
    and sub: "\<not> a \<Longrightarrow> mp_val (take N ws) \<le> mp_val (take N z) + mp_val (take N (drop N z))"
    and fold: "karatsuba_fold a z N ws = (z', ws')"
  shows "length z' = length z \<and> drop (2 * N) z' = drop (2 * N) z \<and> length ws' = length ws \<and>
    mp_val (take (2 * N) z') = mp_val (take (2 * N) z) + (2 ^ LENGTH('a)) ^ h *
      (if a then mp_val (take N z) + mp_val (take N (drop N z)) + mp_val (take N ws)
       else mp_val (take N z) + mp_val (take N (drop N z)) - mp_val (take N ws))"
proof -
  let ?B = "2 ^ LENGTH('a) :: nat"
  define S where "S = mp_val (take N z) + mp_val (take N (drop N z))"
  define W where "W = mp_val (take N ws)"
  define M where "M = 2 * N - h"
  have M: "M = N + h" "2 * N = h + M" "N \<le> M" using N by (simp_all add: M_def)
  have N2: "N div 2 = h" using N by simp
  define p where "p = drop h z"
  have lp: "M \<le> length p" "length p = length z - h" using len M N by (simp_all add: p_def)
  text \<open>the sum of the halves\<close>
  obtain w1 c1 where w1: "bigint_add3_nc_ordered (drop N ws) z N (drop N z) N = (w1, c1)" by (rule prod.exhaust)
  then have f1: "for_up (N - N mod 8) N (upd_step (\<lambda>j wj c. word_add (z ! j) (drop N z ! j) c))
      (for_by8 (N - N mod 8) (\<lambda>j. block_at j (\<lambda>w carry. word8_add3 w (drop j z) (drop j (drop N z)) carry)) (drop N ws, 0)) = (w1, c1)"
    by (simp add: bigint_add3_nc_ordered_def Let_def split: prod.splits)
  obtain a1 b1 where g1: "for_by8 (N - N mod 8)
      (\<lambda>j. block_at j (\<lambda>w carry. word8_add3 w (drop j z) (drop j (drop N z)) carry)) (drop N ws, 0) = (a1, b1)"
    by (rule prod.exhaust)
  have v1: "length w1 = length ws - N" "c1 \<le> 1" "mp_val (take N w1) + ?B ^ N * unat c1 = S"
    using bigint_add3_nc_ordered_val[OF _ _ _ _ w1] len by (simp_all add: S_def)
  text \<open>added at half\<close>
  obtain p1 c2 where p1: "for_up 0 N (upd_step (\<lambda>j xj c. word_add xj (w1 ! j) c)) (p, 0) = (p1, c2)" by (rule prod.exhaust)
  have lw1: "N \<le> length w1" "N \<le> length p" using v1(1) len lp(1) M by simp_all
  have f2: "for_up (N - N mod 8) N (upd_step (\<lambda>j zj c. word_add zj (w1 ! j) c))
      (for_by8 (N - N mod 8) (\<lambda>j. block_at j (\<lambda>z carry. word8_add2 z (drop j w1) carry)) (p, 0)) = (p1, c2)"
    using add2_loop[OF lw1(2,1)] p1 by simp
  obtain a2 b2 where g2: "for_by8 (N - N mod 8) (\<lambda>j. block_at j (\<lambda>z carry. word8_add2 z (drop j w1) carry)) (p, 0) = (a2, b2)"
    by (rule prod.exhaust)
  have v2: "length p1 = length p" "drop N p1 = drop N p" "c2 \<le> 1"
    "mp_val (take N p1) + ?B ^ N * unat c2 = mp_val (take N p) + mp_val (take N w1)"
    using add2_chain.chain[OF lw1(2) _ p1] lw1
    by (simp_all add: mp_val_take_sum[of N p] mp_val_take_sum[of N w1] sum.distrib distrib_left)
  text \<open>the carries\<close>
  define q where "q = drop N p1"
  have lq: "h \<le> length q" "length q = length p - N" using v2(1) lp M by (simp_all add: q_def)
  obtain r c where r: "word_add (q ! 0) c2 c1 = (r, c)" by (rule prod.exhaust)
  define q' where "q' = (if c \<noteq> 0 then fst (add_carry_loop (q[0 := r]) 1 h) else q[0 := r])"
  obtain k where q': "length q' = length q" "drop h q' = drop h q"
    "mp_val (take h q') + ?B ^ h * k = mp_val (take h q) + unat c2 + unat c1"
    using karat_carry_val[OF r v2(3) v1(2) N(2) lq(1)] unfolding q'_def by blast
  define p2 where "p2 = take N p1 @ q'"
  have p1N: "p1 ! N = q ! 0" using v2(1) lw1(2) lp M N by (simp add: q_def)
  have upd: "p1[N := r] = take N p1 @ q[0 := r]"
  proof -
    have "take N p1 @ q = p1" by (simp add: q_def)
    moreover have "(take N p1 @ q)[N := r] = take N p1 @ q[0 := r]" using v2(1) lw1(2) by (simp add: list_update_append)
    ultimately show ?thesis by simp
  qed
  have p2: "(if c \<noteq> 0 then at_ptr N (\<lambda>p. fst (add_carry_loop p 1 h)) (p1[N := r]) else p1[N := r]) = p2"
    using v2(1) lw1(2) by (simp add: p2_def q'_def upd at_ptr_def)
  have lp2: "length p2 = length p" "drop M p2 = drop M p"
  proof -
    show "length p2 = length p" using q'(1) lq v2(1) lw1(2) by (simp add: p2_def)
    have "drop M p2 = drop h q'" using v2(1) lw1(2) M by (simp add: p2_def)
    also have "\<dots> = drop M p" using q'(2) v2(2) M by (simp add: q_def add.commute)
    finally show "drop M p2 = drop M p" .
  qed
  have split: "mp_val (take M v) = mp_val (take N v) + ?B ^ N * mp_val (take h (drop N v))"
    if "length v = length p" for v :: "'a word list"
    using that lp M(1) by (simp add: take_add)
  have BM: "?B ^ M = ?B ^ N * ?B ^ h" by (simp add: M(1) power_add)
  have sum: "mp_val (take M p2) + ?B ^ M * k = mp_val (take M p) + S"
  proof -
    have "mp_val (take M p2) = mp_val (take N p1) + ?B ^ N * mp_val (take h q')"
      using split[OF lp2(1)] v2(1) lw1(2) by (simp add: p2_def)
    moreover have "mp_val (take M p) = mp_val (take N p) + ?B ^ N * mp_val (take h q)"
      using split[of p] v2(2) by (simp add: q_def)
    ultimately show ?thesis
      using v1(3) v2(4) arg_cong[OF q'(3), of "(*) (?B ^ N)"] unfolding BM
      by (simp only: distrib_left mult.assoc)
  qed
  have total: "mp_val (take (2 * N) z) = mp_val (take h z) + ?B ^ h * mp_val (take M p)"
  proof -
    have "take (2 * N) z = take h z @ take M p" unfolding M(2) p_def by (rule take_add)
    moreover have "length (take h z) = h" using len N by simp
    ultimately show ?thesis by simp
  qed
  have B2N: "?B ^ (2 * N) = ?B ^ h * ?B ^ M" by (simp only: M(2) power_add)
  have T: "mp_val (take M p) + S + (if a then W else 0) < ?B ^ M"
  proof -
    have "?B ^ h * (mp_val (take M p) + S + (if a then W else 0)) < ?B ^ h * ?B ^ M"
      using bound unfolding total B2N S_def[symmetric] W_def[symmetric] by (simp only: distrib_left add.assoc)
    then show ?thesis by simp
  qed
  have k: "k = 0" using no_carry[OF sum] T by simp
  have tp2: "mp_val (take M p2) = mp_val (take M p) + S" using sum k by simp
  text \<open>the middle product\<close>
  have tw: "take N (take N ws @ w1) = take N ws" using len by simp
  define f where "f = (if a then bigint_add2 p2 M (take N ws @ w1) N else bigint_sub2 p2 M (take N ws @ w1) N)"
  have f: "length f = length p \<and> drop M f = drop M p \<and>
      mp_val (take M f) = (if a then mp_val (take M p) + S + W else mp_val (take M p) + (S - W))"
  proof (cases a)
    case True
    obtain y d where y: "bigint_add2_nc p2 M (take N ws @ w1) N = (y, d)" by (rule prod.exhaust)
    have y': "length y = length p2" "drop M y = drop M p2" "mp_val (take M y) + ?B ^ M * unat d = mp_val (take M p2) + W"
      using bigint_add2_nc_val[OF _ _ _ y] M lp lp2 len v1(1) by (simp_all add: W_def)
    have "unat d = 0" using no_carry[OF y'(3)] tp2 T True by simp
    then have "f = y" using True y by (simp add: f_def bigint_add2_def unat_eq_zero)
    with y' tp2 True lp2 \<open>unat d = 0\<close> show ?thesis by simp
  next
    case False
    have W: "W \<le> S" using sub False by (simp add: S_def W_def)
    have "length f = length p2" "drop M f = drop M p2"
      using bigint_sub2_val[of N M p2 "take N ws @ w1"] False M lp lp2 len v1(1) by (simp_all add: f_def)
    moreover have "mp_val (take M f) = mp_val (take M p2) - W"
      using bigint_sub2_diff[of N M p2 "take N ws @ w1"] False M lp lp2 len v1(1) W tp2
      by (simp add: f_def W_def)
    ultimately show ?thesis using False lp2 tp2 W by simp
  qed
  have res: "z' = take h z @ f" "ws' = take N ws @ w1"
    using fold unfolding karatsuba_fold_def Let_def N2 g1 prod.case f1[unfolded g1] p_def[symmetric] g2 f2[unfolded g2] p1N r p2 M_def[symmetric]
    by (simp_all add: f_def)
  have "length z' = length z" using f lp(2) len M by (simp add: res)
  moreover have lt: "length (take h z) = h" using len N by simp
  moreover have "drop (2 * N) z' = drop (2 * N) z"
    using f lt unfolding M(2) res by (simp add: p_def add.commute)
  moreover have "length ws' = length ws" using v1(1) len by (simp add: res)
  moreover have "mp_val (take (2 * N) z') = mp_val (take h z) + ?B ^ h * mp_val (take M f)"
    using lt unfolding M(2) res by simp
  moreover have "mp_val (take M f) = mp_val (take M p) + (if a then S + W else S - W)" using f by simp
  ultimately show ?thesis
    unfolding total S_def[symmetric] W_def[symmetric] by (simp only: distrib_left add.assoc simp_thms)
qed

section \<open>Karatsuba's identity\<close>

lemma karat_bound:
  fixes b :: nat
  assumes "x0 < b" and "x1 < b" and "y0 < b" and "y1 < b"
  shows "x0 * y0 + b * b * (x1 * y1) + b * (x0 * y0 + x1 * y1) < b * b * (b * b)"
proof -
  obtain c where b: "b = Suc c" using assms(1) by (cases b) auto
  have le: "x0 * y0 \<le> c * c" "x1 * y1 \<le> c * c" using assms by (simp_all add: b mult_le_mono)
  then have "b * b * (x1 * y1) \<le> b * b * (c * c)" "b * (x0 * y0 + x1 * y1) \<le> b * (c * c + c * c)"
    by (auto intro!: mult_le_mono2 add_mono)
  with le have "x0 * y0 + b * b * (x1 * y1) + b * (x0 * y0 + x1 * y1) \<le> c * c + b * b * (c * c) + b * (c * c + c * c)"
    by linarith
  also have "\<dots> = (c * (c + 2)) * (c * (c + 2))" by (simp add: b algebra_simps)
  also have "\<dots> < (b * b) * (b * b)"
  proof -
    have "c * (c + 2) + 1 = b * b" by (simp add: b algebra_simps)
    then have "c * (c + 2) < b * b" by linarith
    from mult_strict_mono'[OF this this] show ?thesis by simp
  qed
  finally show ?thesis .
qed

lemma karat_middle:
  fixes x0 x1 y0 y1 :: nat
  defines "s \<equiv> sgn (int x0 - int x1)" and "t \<equiv> sgn (int y1 - int y0)"
    and "W \<equiv> nat \<bar>int x0 - int x1\<bar> * nat \<bar>int y1 - int y0\<bar>"
  shows "(if s = t \<or> s = 0 \<or> t = 0 then x0 * y0 + x1 * y1 + W else x0 * y0 + x1 * y1 - W) = x0 * y1 + x1 * y0"
    and "\<not> (s = t \<or> s = 0 \<or> t = 0) \<Longrightarrow> W \<le> x0 * y0 + x1 * y1"
proof -
  have "int W = \<bar>(int x0 - int x1) * (int y1 - int y0)\<bar>" by (simp add: W_def abs_mult)
  also have "\<dots> = s * t * ((int x0 - int x1) * (int y1 - int y0))"
    by (simp add: s_def t_def abs_sgn sgn_mult mult.commute mult.left_commute)
  finally have W': "int W = s * t * (int (x0 * y1 + x1 * y0) - int (x0 * y0 + x1 * y1))"
    by (simp add: algebra_simps)
  define P where "P = x0 * y1 + x1 * y0"
  define Q where "Q = x0 * y0 + x1 * y1"
  have W: "int W = s * t * (int P - int Q)" using W' by (simp only: P_def Q_def)
  have st: "s = 1 \<or> s = 0 \<or> s = -1" "t = 1 \<or> t = 0 \<or> t = -1" by (auto simp: s_def t_def sgn_if)
  have zero: "Q = P" if "s = 0 \<or> t = 0"
    using that by (auto simp: s_def t_def sgn_0_0 P_def Q_def)
  consider "s = 0 \<or> t = 0" | "s \<noteq> 0" "t \<noteq> 0" "s = t" | "s \<noteq> 0" "t \<noteq> 0" "s \<noteq> t" by blast
  note cases = this
  show "(if s = t \<or> s = 0 \<or> t = 0 then x0 * y0 + x1 * y1 + W else x0 * y0 + x1 * y1 - W) = x0 * y1 + x1 * y0"
    using cases
  proof cases
    case 1
    then show ?thesis unfolding P_def[symmetric] Q_def[symmetric] using W zero by auto
  next
    case 2
    then have "s * t = 1" using st by auto
    then show ?thesis unfolding P_def[symmetric] Q_def[symmetric] using W 2 by simp
  next
    case 3
    then have "s * t = -1" using st by auto
    then show ?thesis unfolding P_def[symmetric] Q_def[symmetric] using W 3 by simp
  qed
  assume "\<not> (s = t \<or> s = 0 \<or> t = 0)"
  then have "s * t = -1" using st by auto
  then show "W \<le> x0 * y0 + x1 * y1" unfolding Q_def[symmetric] using W by simp
qed

lemma karat_diff:
  fixes x y z :: "'a::len word list"
  assumes "h \<le> length x" and "h \<le> length y" and "h \<le> length z"
  defines "d \<equiv> (if bigint_cmp x h y h > 0 then bigint_sub3 z x h y h else bigint_sub3 z y h x h)"
  shows "length d = length z" and "mp_val (take h d) = nat \<bar>int (mp_val (take h x)) - int (mp_val (take h y))\<bar>"
proof -
  have c: "bigint_cmp x h y h > 0 \<longleftrightarrow> mp_val (take h y) < mp_val (take h x)"
    using bigint_cmp_val[OF assms(1,2)] by (simp add: sgn_1_pos)
  show "length d = length z" using bigint_sub3_val[of h h x y z] bigint_sub3_val[of h h y x z] assms(1-3) by (simp add: d_def)
  show "mp_val (take h d) = nat \<bar>int (mp_val (take h x)) - int (mp_val (take h y))\<bar>"
    using bigint_sub3_diff[of h h x y z] bigint_sub3_diff[of h h y x z] assms(1-3) c
    by (auto simp: d_def nat_diff_distrib)
qed

lemma karat_combine:
  fixes x y z ws :: "'a::len word list"
  assumes N: "N = 2 * h" "0 < h" and len: "2 * N \<le> length z" "2 * N \<le> length ws" "N \<le> length x" "N \<le> length y"
    and z0: "mp_val (take N z) = mp_val (take h x) * mp_val (take h y)"
    and z1: "mp_val (take N (drop N z)) = mp_val (take h (drop h x)) * mp_val (take h (drop h y))"
    and W: "mp_val (take N ws) = nat \<bar>int (mp_val (take h x)) - int (mp_val (take h (drop h x)))\<bar> *
      nat \<bar>int (mp_val (take h (drop h y))) - int (mp_val (take h y))\<bar>"
    and a: "a \<longleftrightarrow> bigint_cmp x h (drop h x) h = bigint_cmp (drop h y) h y h \<or>
      bigint_cmp x h (drop h x) h = 0 \<or> bigint_cmp (drop h y) h y h = 0"
    and fold: "karatsuba_fold a z N ws = (z', ws')"
  shows "length z' = length z \<and> drop (2 * N) z' = drop (2 * N) z \<and> length ws' = length ws \<and>
    mp_val (take (2 * N) z') = mp_val (take N x) * mp_val (take N y)"
proof -
  define b where "b = (2 ^ LENGTH('a) :: nat) ^ h"
  define x0 where "x0 = mp_val (take h x)"
  define x1 where "x1 = mp_val (take h (drop h x))"
  define y0 where "y0 = mp_val (take h y)"
  define y1 where "y1 = mp_val (take h (drop h y))"
  note defs = x0_def[symmetric] x1_def[symmetric] y0_def[symmetric] y1_def[symmetric]
  have lt: "x0 < b" "x1 < b" "y0 < b" "y1 < b" by (simp_all add: x0_def x1_def y0_def y1_def b_def mp_val_take_bound)
  have cmp: "bigint_cmp x h (drop h x) h = sgn (int x0 - int x1)" "bigint_cmp (drop h y) h y h = sgn (int y1 - int y0)"
    using len N by (simp_all add: bigint_cmp_val x0_def x1_def y0_def y1_def)
  have half: "mp_val (take N v) = mp_val (take h v) + b * mp_val (take h (drop h v))"
    if "N \<le> length v" for v :: "'a word list"
  proof -
    have "take N v = take h v @ take h (drop h v)" unfolding N(1) mult_2 by (rule take_add)
    then show ?thesis using that N by (simp add: b_def)
  qed
  have V: "mp_val (take (2 * N) z) = x0 * y0 + b * b * (x1 * y1)"
  proof -
    have "take (2 * N) z = take N z @ take N (drop N z)" unfolding mult_2 by (rule take_add)
    then have "mp_val (take (2 * N) z) = mp_val (take N z) + (2 ^ LENGTH('a)) ^ N * mp_val (take N (drop N z))"
      using len by simp
    then show ?thesis unfolding z0 z1 defs by (simp add: N(1) b_def power_add mult_2)
  qed
  have B2N: "(2 ^ LENGTH('a)) ^ (2 * N) = b * b * (b * b)" by (simp add: N(1) b_def mult_2 power_add)
  note mid = karat_middle[where ?x0.0 = x0 and ?x1.0 = x1 and ?y0.0 = y0 and ?y1.0 = y1, folded cmp]
  have prod: "mp_val (take N x) * mp_val (take N y) = x0 * y0 + b * b * (x1 * y1) + b * (x0 * y1 + x1 * y0)"
    unfolding half[OF len(3)] half[OF len(4)] defs by (simp add: algebra_simps)
  have prod_lt: "mp_val (take N x) * mp_val (take N y) < b * b * (b * b)"
  proof -
    have "mp_val (take N x) * mp_val (take N y) < (2 ^ LENGTH('a)) ^ N * (2 ^ LENGTH('a)) ^ N"
      by (intro mult_strict_mono' mp_val_take_bound) simp_all
    then show ?thesis by (simp add: B2N[symmetric] mult_2 power_add)
  qed
  have bd: "mp_val (take (2 * N) z) + b * (mp_val (take N z) + mp_val (take N (drop N z)) +
      (if a then mp_val (take N ws) else 0)) < (2 ^ LENGTH('a)) ^ (2 * N)"
  proof (cases a)
    case True
    then have "x0 * y0 + x1 * y1 + mp_val (take N ws) = x0 * y1 + x1 * y0"
      using mid(1) a unfolding W defs by simp
    with prod prod_lt True show ?thesis unfolding V z0 z1 defs B2N by simp
  next
    case False
    then show ?thesis using karat_bound[OF lt] unfolding V z0 z1 defs B2N by simp
  qed
  have sb: "mp_val (take N ws) \<le> mp_val (take N z) + mp_val (take N (drop N z))" if "\<not> a"
    using mid(2) a that unfolding W z0 z1 defs by blast
  have "(if a then x0 * y0 + x1 * y1 + mp_val (take N ws) else x0 * y0 + x1 * y1 - mp_val (take N ws)) = x0 * y1 + x1 * y0"
    using mid(1) unfolding a W defs .
  then show ?thesis
    using karatsuba_fold_val[OF N len(1,2) _ sb fold] bd unfolding prod V z0 z1 defs b_def[symmetric] by simp
qed

section \<open>The recursions\<close>

text \<open>The contract every routine here keeps: it writes the first \<open>n + m\<close> words of its output.\<close>

definition mul_post :: "'a::len word list \<Rightarrow> nat \<Rightarrow> nat \<Rightarrow> 'a word list \<Rightarrow> bool" where
  "mul_post z n v z' \<longleftrightarrow> length z' = length z \<and> drop n z' = drop n z \<and> mp_val (take n z') = v"

lemma comba_mul_post:
  fixes x y z :: "'a::len word list"
  assumes "8 \<le> LENGTH('a)"
  shows "4 \<le> length x \<Longrightarrow> 4 \<le> length y \<Longrightarrow> 8 \<le> length z \<Longrightarrow> mul_post z 8 (mp_val (take 4 x) * mp_val (take 4 y)) (bigint_comba_mul4 z x y)"
    and "6 \<le> length x \<Longrightarrow> 6 \<le> length y \<Longrightarrow> 12 \<le> length z \<Longrightarrow> mul_post z 12 (mp_val (take 6 x) * mp_val (take 6 y)) (bigint_comba_mul6 z x y)"
    and "8 \<le> length x \<Longrightarrow> 8 \<le> length y \<Longrightarrow> 16 \<le> length z \<Longrightarrow> mul_post z 16 (mp_val (take 8 x) * mp_val (take 8 y)) (bigint_comba_mul8 z x y)"
    and "16 \<le> length x \<Longrightarrow> 16 \<le> length y \<Longrightarrow> 32 \<le> length z \<Longrightarrow> mul_post z 32 (mp_val (take 16 x) * mp_val (take 16 y)) (bigint_comba_mul16 z x y)"
  using comba_blocks[OF assms, THEN block_multiplier.mul_val, of x y z] by (simp_all add: mul_post_def)

lemma comba_sqr_post:
  fixes x z :: "'a::len word list"
  assumes "8 \<le> LENGTH('a)"
  shows "4 \<le> length x \<Longrightarrow> 8 \<le> length z \<Longrightarrow> mul_post z 8 (mp_val (take 4 x) * mp_val (take 4 x)) (bigint_comba_sqr4 z x)"
    and "6 \<le> length x \<Longrightarrow> 12 \<le> length z \<Longrightarrow> mul_post z 12 (mp_val (take 6 x) * mp_val (take 6 x)) (bigint_comba_sqr6 z x)"
    and "8 \<le> length x \<Longrightarrow> 16 \<le> length z \<Longrightarrow> mul_post z 16 (mp_val (take 8 x) * mp_val (take 8 x)) (bigint_comba_sqr8 z x)"
    and "16 \<le> length x \<Longrightarrow> 32 \<le> length z \<Longrightarrow> mul_post z 32 (mp_val (take 16 x) * mp_val (take 16 x)) (bigint_comba_sqr16 z x)"
  using comba_sqr_block[OF assms, of 4 comba_sqr4_columns x z] comba_sqr_block[OF assms, of 6 comba_sqr6_columns x z]
    comba_sqr_block[OF assms, of 8 comba_sqr8_columns x z] comba_sqr_block[OF assms, of 16 comba_sqr16_columns x z]
  by (simp_all add: mul_post_def comba_columns power2_eq_square
    bigint_comba_sqr4_def bigint_comba_sqr6_def bigint_comba_sqr8_def bigint_comba_sqr16_def)

lemma simple_mul_post:
  fixes x y z :: "'a::len word list"
  assumes "x_size \<le> length x" and "y_size \<le> length y" and "x_size + y_size \<le> length z"
  shows "mul_post z (x_size + y_size) (mp_val (take x_size x) * mp_val (take y_size y)) (bigint_simple_mul z x x_size y y_size)"
  using bigint_simple_mul_val[OF assms] by (simp add: mul_post_def)

text \<open>The differences the middle product is taken of, in the two halves of the output.\<close>

lemma karat_differences:
  fixes x y z :: "'a::len word list"
  assumes N: "N = 2 * h" and len: "N \<le> length x" "N \<le> length y" "2 * N \<le> length z"
  defines "a \<equiv> (if bigint_cmp x h (drop h x) h > 0 then bigint_sub3 z x h (drop h x) h else bigint_sub3 z (drop h x) h x h)"
  defines "b \<equiv> (if bigint_cmp (drop h y) h y h > 0 then bigint_sub3 (drop N a) (drop h y) h y h
    else bigint_sub3 (drop N a) y h (drop h y) h)"
  shows "length a = length z \<and> mp_val (take h a) = nat \<bar>int (mp_val (take h x)) - int (mp_val (take h (drop h x)))\<bar> \<and>
      drop (2 * N) a = drop (2 * N) z"
    and "length b = length z - N \<and> mp_val (take h b) = nat \<bar>int (mp_val (take h (drop h y))) - int (mp_val (take h y))\<bar> \<and>
      drop (2 * N) (take N a @ b) = drop (2 * N) z"
proof -
  have a: "length a = length z" "mp_val (take h a) = nat \<bar>int (mp_val (take h x)) - int (mp_val (take h (drop h x)))\<bar>"
    using karat_diff[of h x "drop h x" z] len N by (simp_all add: a_def)
  have "drop h a = drop h z"
    using bigint_sub3_val[of h h x "drop h x" z] bigint_sub3_val[of h h "drop h x" x z] len N by (simp add: a_def)
  then have ad: "drop (2 * N) a = drop (2 * N) z" by (rule drop_eq_mono) (simp add: N)
  with a show "length a = length z \<and> mp_val (take h a) = nat \<bar>int (mp_val (take h x)) - int (mp_val (take h (drop h x)))\<bar> \<and>
      drop (2 * N) a = drop (2 * N) z" by simp
  have b: "length b = length z - N" "mp_val (take h b) = nat \<bar>int (mp_val (take h (drop h y))) - int (mp_val (take h y))\<bar>"
    using karat_diff[of h "drop h y" y "drop N a"] len N a by (simp_all add: b_def)
  have "drop h b = drop h (drop N a)"
    using bigint_sub3_val[of h h "drop h y" y "drop N a"] bigint_sub3_val[of h h y "drop h y" "drop N a"] len N a
    by (simp add: b_def)
  then have "drop N b = drop N (drop N a)" by (rule drop_eq_mono) (simp add: N)
  moreover have "drop (2 * N) (take N a @ b) = drop N b" using a len by simp
  ultimately have "drop (2 * N) (take N a @ b) = drop (2 * N) z" using ad by (simp add: mult_2)
  with b show "length b = length z - N \<and> mp_val (take h b) = nat \<bar>int (mp_val (take h (drop h y))) - int (mp_val (take h y))\<bar> \<and>
      drop (2 * N) (take N a @ b) = drop (2 * N) z" by simp
qed

text \<open>What follows once the middle product is in the workspace.\<close>

lemma karat_finish:
  fixes x y z ws :: "'a::len word list"
  assumes N: "N = 2 * h" "0 < h" and len: "2 * N \<le> length z" "2 * N \<le> length ws" "N \<le> length x" "N \<le> length y"
    and A: "length z2 = length z" "drop (2 * N) z2 = drop (2 * N) z" "length ws2 = length ws"
      "mp_val (take N ws2) = nat \<bar>int (mp_val (take h x)) - int (mp_val (take h (drop h x)))\<bar> *
        nat \<bar>int (mp_val (take h (drop h y))) - int (mp_val (take h y))\<bar>"
    and B: "mul_post z2 (2 * h) (mp_val (take h x) * mp_val (take h y)) z3"
    and C: "mul_post (drop N z3) (2 * h) (mp_val (take h (drop h x)) * mp_val (take h (drop h y))) z4"
    and w4: "length w4 = length ws - N"
    and a: "a \<longleftrightarrow> bigint_cmp x h (drop h x) h = bigint_cmp (drop h y) h y h \<or>
      bigint_cmp x h (drop h x) h = 0 \<or> bigint_cmp (drop h y) h y h = 0"
    and fold: "karatsuba_fold a (take N z3 @ z4) N (take N ws2 @ w4) = (z', ws')"
  shows "mul_post z (2 * N) (mp_val (take N x) * mp_val (take N y)) z' \<and> length ws' = length ws"
proof -
  have z3: "length z3 = length z" "drop N z3 = drop N z2" "mp_val (take N z3) = mp_val (take h x) * mp_val (take h y)"
    using B A N by (simp_all add: mul_post_def)
  have z4: "length z4 = length z - N" "drop N z4 = drop N (drop N z3)"
    "mp_val (take N z4) = mp_val (take h (drop h x)) * mp_val (take h (drop h y))"
    using C z3(1) N by (auto simp: mul_post_def)
  let ?z = "take N z3 @ z4" and ?w = "take N ws2 @ w4"
  have t: "take N ?z = take N z3" "drop N ?z = z4" "take N ?w = take N ws2" "length ?z = length z" "length ?w = length ws"
    using z3 z4 A w4 len by simp_all
  have "length z' = length ?z \<and> drop (2 * N) z' = drop (2 * N) ?z \<and> length ws' = length ?w \<and>
      mp_val (take (2 * N) z') = mp_val (take N x) * mp_val (take N y)"
    using len by (intro karat_combine[OF N _ _ _ _ _ _ _ a fold]) (simp_all only: t z3 z4 A)
  moreover have "drop (2 * N) ?z = drop (2 * N) z"
  proof -
    have "drop (2 * N) ?z = drop N z4" unfolding mult_2 drop_drop[symmetric] t(2) ..
    also have "\<dots> = drop (2 * N) z2" using z4(2) z3(2) by (simp add: mult_2)
    finally show ?thesis using A by simp
  qed
  ultimately show ?thesis unfolding mul_post_def t by simp
qed

text \<open>The recursive branch of the code with its variables substituted.\<close>

lemma karatsuba_mul_rec:
  assumes "N = 2 * h" and "N \<ge> BOTAN_KARAT_MUL_THRESHOLD"
  shows "karatsuba_mul z x y N ws =
    (let a = (if bigint_cmp x h (drop h x) h > 0 then bigint_sub3 z x h (drop h x) h else bigint_sub3 z (drop h x) h x h);
         b = (if bigint_cmp (drop h y) h y h > 0 then bigint_sub3 (drop N a) (drop h y) h y h
              else bigint_sub3 (drop N a) y h (drop h y) h);
         (w0, w1) = karatsuba_mul (take N (clear_mem ws (2 * N))) (take N a @ b) b h (drop N (clear_mem ws (2 * N)));
         (z2, ws2) = (if bigint_cmp x h (drop h x) h \<noteq> 0 \<and> bigint_cmp (drop h y) h y h \<noteq> 0
                      then (take N a @ b, w0 @ w1) else (z, clear_mem ws (2 * N)));
         (z3, w3) = karatsuba_mul z2 x y h (drop N ws2);
         (z4, w4) = karatsuba_mul (drop N z3) (drop h x) (drop h y) h w3
     in karatsuba_fold (bigint_cmp x h (drop h x) h = bigint_cmp (drop h y) h y h \<or>
          bigint_cmp x h (drop h x) h = 0 \<or> bigint_cmp (drop h y) h y h = 0) (take N z3 @ z4) N (take N ws2 @ w4))"
proof -
  have "N \<noteq> 6" "N \<noteq> 8" "N \<noteq> 16" "\<not> (N < BOTAN_KARAT_MUL_THRESHOLD \<or> N mod 2 \<noteq> 0)" "N div 2 = h"
    using assms by (auto simp: BOTAN_KARAT_MUL_THRESHOLD_def)
  then show ?thesis
    unfolding karatsuba_mul.simps[of z x y N ws] Let_def by (simp only: if_False) (auto split: prod.splits)
qed

lemma karatsuba_mul_val:
  fixes x y z ws :: "'a::len word list"
  assumes "8 \<le> LENGTH('a)" and "N \<le> length x" and "N \<le> length y" and "2 * N \<le> length z" and "2 * N \<le> length ws"
    and "karatsuba_mul z x y N ws = (z', ws')"
  shows "mul_post z (2 * N) (mp_val (take N x) * mp_val (take N y)) z' \<and> length ws' = length ws"
  using assms(2-6)
proof (induction N arbitrary: z x y ws z' ws' rule: less_induct)
  case (less N)
  consider "N = 6" | "N = 8" | "N = 16" | "N \<noteq> 6" "N \<noteq> 8" "N \<noteq> 16" "N < BOTAN_KARAT_MUL_THRESHOLD \<or> N mod 2 \<noteq> 0"
    | "N \<ge> BOTAN_KARAT_MUL_THRESHOLD" "N mod 2 = 0" by fastforce
  then show ?case
  proof cases
    case 1
    then show ?thesis using less.prems comba_mul_post(2)[OF assms(1), of x y z] karatsuba_mul.simps[of z x y 6 ws] by simp
  next
    case 2
    then show ?thesis using less.prems comba_mul_post(3)[OF assms(1), of x y z] karatsuba_mul.simps[of z x y 8 ws] by simp
  next
    case 3
    then show ?thesis using less.prems comba_mul_post(4)[OF assms(1), of x y z] karatsuba_mul.simps[of z x y 16 ws] by simp
  next
    case 4
    then show ?thesis using less.prems simple_mul_post[of N x N y z] karatsuba_mul.simps[of z x y N ws] by (simp add: mult_2)
  next
    case 5
    define h where "h = N div 2"
    have N: "N = 2 * h" "0 < h" "h < N" using 5 by (auto simp: h_def BOTAN_KARAT_MUL_THRESHOLD_def)
    let ?ws = "clear_mem ws (2 * N)" and ?c0 = "bigint_cmp x h (drop h x) h" and ?c1 = "bigint_cmp (drop h y) h y h"
    define a where "a = (if ?c0 > 0 then bigint_sub3 z x h (drop h x) h else bigint_sub3 z (drop h x) h x h)"
    define b where "b = (if ?c1 > 0 then bigint_sub3 (drop N a) (drop h y) h y h else bigint_sub3 (drop N a) y h (drop h y) h)"
    obtain w0 w1 where w: "karatsuba_mul (take N ?ws) (take N a @ b) b h (drop N ?ws) = (w0, w1)" by (rule prod.exhaust)
    obtain z2 ws2 where st: "(if ?c0 \<noteq> 0 \<and> ?c1 \<noteq> 0 then (take N a @ b, w0 @ w1) else (z, ?ws)) = (z2, ws2)" by (rule prod.exhaust)
    obtain z3 w3 where r3: "karatsuba_mul z2 x y h (drop N ws2) = (z3, w3)" by (rule prod.exhaust)
    obtain z4 w4 where r4: "karatsuba_mul (drop N z3) (drop h x) (drop h y) h w3 = (z4, w4)" by (rule prod.exhaust)
    have fold: "karatsuba_fold (?c0 = ?c1 \<or> ?c0 = 0 \<or> ?c1 = 0) (take N z3 @ z4) N (take N ws2 @ w4) = (z', ws')"
      using less.prems(5) unfolding karatsuba_mul_rec[OF N(1) 5(1)] Let_def a_def[symmetric] b_def[symmetric] w prod.case st r3 r4 .
    note ab = karat_differences[OF N(1) less.prems(1,2,3), folded a_def, folded b_def]
    have W: "mul_post (take N ?ws) (2 * h) (mp_val (take h (take N a @ b)) * mp_val (take h b)) w0 \<and> length w1 = length (drop N ?ws)"
      using less.prems N ab by (intro less.IH[OF N(3) _ _ _ _ w]) simp_all
    have A: "length z2 = length z" "drop (2 * N) z2 = drop (2 * N) z" "length ws2 = length ws"
      "mp_val (take N ws2) = nat \<bar>int (mp_val (take h x)) - int (mp_val (take h (drop h x)))\<bar> *
        nat \<bar>int (mp_val (take h (drop h y))) - int (mp_val (take h y))\<bar>"
    proof -
      have c: "?c0 = sgn (int (mp_val (take h x)) - int (mp_val (take h (drop h x))))"
        "?c1 = sgn (int (mp_val (take h (drop h y))) - int (mp_val (take h y)))"
        using less.prems(1,2) N(1) by (simp_all add: bigint_cmp_val)
      have w0: "length w0 = N" "mp_val (take N w0) = mp_val (take h a) * mp_val (take h b)" "length w1 = length ws - N"
        using W less.prems(3,4) N(1) ab by (auto simp: mul_post_def)
      show "length z2 = length z" "drop (2 * N) z2 = drop (2 * N) z" "length ws2 = length ws"
        using st ab w0(1,3) less.prems(3,4) by (auto split: if_splits)
      show "mp_val (take N ws2) = nat \<bar>int (mp_val (take h x)) - int (mp_val (take h (drop h x)))\<bar> *
        nat \<bar>int (mp_val (take h (drop h y))) - int (mp_val (take h y))\<bar>"
      proof (cases "?c0 \<noteq> 0 \<and> ?c1 \<noteq> 0")
        case True
        then show ?thesis using st w0 ab by auto
      next
        case False
        moreover have "mp_val (take N ?ws) = 0" by (simp add: clear_mem_def)
        ultimately show ?thesis using st unfolding c by (auto simp: sgn_0_0)
      qed
    qed
    have B: "mul_post z2 (2 * h) (mp_val (take h x) * mp_val (take h y)) z3 \<and> length w3 = length (drop N ws2)"
      using less.prems N A by (intro less.IH[OF N(3) _ _ _ _ r3]) simp_all
    then have "length z3 = length z" using A by (simp add: mul_post_def)
    then have C: "mul_post (drop N z3) (2 * h) (mp_val (take h (drop h x)) * mp_val (take h (drop h y))) z4 \<and> length w4 = length w3"
      using less.prems N A B by (intro less.IH[OF N(3) _ _ _ _ r4]) simp_all
    show ?thesis
      using A(3) B C less.prems
      by (intro karat_finish[OF N(1,2) less.prems(3,4,1,2) A B[THEN conjunct1] C[THEN conjunct1] _ refl fold]) simp
  qed
qed

lemma karatsuba_sqr_rec:
  assumes "N = 2 * h" and "N \<ge> BOTAN_KARAT_SQR_THRESHOLD"
  shows "karatsuba_sqr z x N ws =
    (let a = (if bigint_cmp x h (drop h x) h > 0 then bigint_sub3 z x h (drop h x) h else bigint_sub3 z (drop h x) h x h);
         (w0, w1) = karatsuba_sqr (take N (clear_mem ws (2 * N))) a h (drop N (clear_mem ws (2 * N)));
         (z2, ws2) = (if bigint_cmp x h (drop h x) h \<noteq> 0 then (a, w0 @ w1) else (z, clear_mem ws (2 * N)));
         (z3, w3) = karatsuba_sqr z2 x h (drop N ws2);
         (z4, w4) = karatsuba_sqr (drop N z3) (drop h x) h w3
     in karatsuba_fold (bigint_cmp x h (drop h x) h = 0) (take N z3 @ z4) N (take N ws2 @ w4))"
proof -
  have "N \<noteq> 6" "N \<noteq> 8" "N \<noteq> 16" "\<not> (N < BOTAN_KARAT_SQR_THRESHOLD \<or> N mod 2 \<noteq> 0)" "N div 2 = h"
    using assms by (auto simp: BOTAN_KARAT_SQR_THRESHOLD_def)
  then show ?thesis
    unfolding karatsuba_sqr.simps[of z x N ws] Let_def by (simp only: if_False) (auto split: prod.splits)
qed

lemma karatsuba_sqr_val:
  fixes x z ws :: "'a::len word list"
  assumes "8 \<le> LENGTH('a)" and "N \<le> length x" and "2 * N \<le> length z" and "2 * N \<le> length ws"
    and "karatsuba_sqr z x N ws = (z', ws')"
  shows "mul_post z (2 * N) (mp_val (take N x) * mp_val (take N x)) z' \<and> length ws' = length ws"
  using assms(2-5)
proof (induction N arbitrary: z x ws z' ws' rule: less_induct)
  case (less N)
  consider "N = 6" | "N = 8" | "N = 16" | "N \<noteq> 6" "N \<noteq> 8" "N \<noteq> 16" "N < BOTAN_KARAT_SQR_THRESHOLD \<or> N mod 2 \<noteq> 0"
    | "N \<ge> BOTAN_KARAT_SQR_THRESHOLD" "N mod 2 = 0" by fastforce
  then show ?case
  proof cases
    case 1
    then show ?thesis using less.prems comba_sqr_post(2)[OF assms(1), of x z] karatsuba_sqr.simps[of z x 6 ws] by simp
  next
    case 2
    then show ?thesis using less.prems comba_sqr_post(3)[OF assms(1), of x z] karatsuba_sqr.simps[of z x 8 ws] by simp
  next
    case 3
    then show ?thesis using less.prems comba_sqr_post(4)[OF assms(1), of x z] karatsuba_sqr.simps[of z x 16 ws] by simp
  next
    case 4
    then show ?thesis using less.prems simple_mul_post[of N x N x z] karatsuba_sqr.simps[of z x N ws]
      by (simp add: mult_2 bigint_simple_sqr_mul)
  next
    case 5
    define h where "h = N div 2"
    have N: "N = 2 * h" "0 < h" "h < N" using 5 by (auto simp: h_def BOTAN_KARAT_SQR_THRESHOLD_def)
    let ?ws = "clear_mem ws (2 * N)" and ?c = "bigint_cmp x h (drop h x) h"
    define a where "a = (if ?c > 0 then bigint_sub3 z x h (drop h x) h else bigint_sub3 z (drop h x) h x h)"
    obtain w0 w1 where w: "karatsuba_sqr (take N ?ws) a h (drop N ?ws) = (w0, w1)" by (rule prod.exhaust)
    obtain z2 ws2 where st: "(if ?c \<noteq> 0 then (a, w0 @ w1) else (z, ?ws)) = (z2, ws2)" by (rule prod.exhaust)
    obtain z3 w3 where r3: "karatsuba_sqr z2 x h (drop N ws2) = (z3, w3)" by (rule prod.exhaust)
    obtain z4 w4 where r4: "karatsuba_sqr (drop N z3) (drop h x) h w3 = (z4, w4)" by (rule prod.exhaust)
    have fold: "karatsuba_fold (?c = 0) (take N z3 @ z4) N (take N ws2 @ w4) = (z', ws')"
      using less.prems(4) unfolding karatsuba_sqr_rec[OF N(1) 5(1)] Let_def a_def[symmetric] w prod.case st r3 r4 .
    note ad = karat_differences(1)[OF N(1) less.prems(1,1,2), folded a_def]
    have W: "mul_post (take N ?ws) (2 * h) (mp_val (take h a) * mp_val (take h a)) w0 \<and> length w1 = length (drop N ?ws)"
      using less.prems N ad by (intro less.IH[OF N(3) _ _ _ w]) simp_all
    have c: "?c = sgn (int (mp_val (take h x)) - int (mp_val (take h (drop h x))))"
      "bigint_cmp (drop h x) h x h = - ?c"
      using less.prems(1) N(1) by (simp_all add: bigint_cmp_val flip: sgn_minus)
    have w0: "length w0 = N" "mp_val (take N w0) = mp_val (take h a) * mp_val (take h a)" "length w1 = length ws - N"
      using W less.prems(2,3) N(1) ad by (auto simp: mul_post_def)
    have A: "length z2 = length z" "drop (2 * N) z2 = drop (2 * N) z" "length ws2 = length ws"
      using st ad w0(1,3) less.prems(2,3) by (auto split: if_splits)
    have A4: "mp_val (take N ws2) = nat \<bar>int (mp_val (take h x)) - int (mp_val (take h (drop h x)))\<bar> *
        nat \<bar>int (mp_val (take h (drop h x))) - int (mp_val (take h x))\<bar>"
    proof (cases "?c \<noteq> 0")
      case True
      then show ?thesis using st w0 ad by (auto simp: abs_minus_commute)
    next
      case False
      moreover have "mp_val (take N ?ws) = 0" by (simp add: clear_mem_def)
      ultimately show ?thesis using st unfolding c by (auto simp: sgn_0_0)
    qed
    have B: "mul_post z2 (2 * h) (mp_val (take h x) * mp_val (take h x)) z3 \<and> length w3 = length (drop N ws2)"
      using less.prems N A by (intro less.IH[OF N(3) _ _ _ r3]) simp_all
    then have "length z3 = length z" using A by (simp add: mul_post_def)
    then have C: "mul_post (drop N z3) (2 * h) (mp_val (take h (drop h x)) * mp_val (take h (drop h x))) z4 \<and> length w4 = length w3"
      using less.prems N A B by (intro less.IH[OF N(3) _ _ _ r4]) simp_all
    show ?thesis
      using A(3) B C less.prems c(2)
      by (intro karat_finish[OF N(1,2) less.prems(2,3,1,1) A A4 B[THEN conjunct1] C[THEN conjunct1] _ _ fold]) auto
  qed
qed

section \<open>The dispatchers\<close>

lemma karatsuba_size_loop_ok:
  "j = karatsuba_size_loop z_size x_size x_sw y_size y_sw s l \<Longrightarrow> j \<noteq> 0 \<Longrightarrow>
    x_sw \<le> j \<and> j \<le> x_size \<and> y_sw \<le> j \<and> j \<le> y_size \<and> 2 * j \<le> z_size"
proof (induction z_size x_size x_sw y_size y_sw s l rule: karatsuba_size_loop.induct)
  case (1 z_size x_size x_sw y_size y_sw s l)
  then show ?case by (simp add: karatsuba_size_loop.simps[of z_size x_size x_sw y_size y_sw s l] split: if_splits)
qed

text \<open>
  A non-zero size covers the significant words of both operands and stays inside both arrays.
  Room for the result is checked in the loop only, so the callers' arrays have to give it.
\<close>

lemma karatsuba_size_ok:
  assumes "karatsuba_size z_size x_size x_sw y_size y_sw = N" and "N \<noteq> 0"
  shows "x_sw \<le> N \<and> N \<le> x_size \<and> y_sw \<le> N \<and> N \<le> y_size"
  using assms karatsuba_size_loop_ok[of N z_size x_size x_sw y_size y_sw]
  by (auto simp: karatsuba_size_def Let_def split: if_splits)

lemma karatsuba_size_sqr_loop_ok:
  "j = karatsuba_size_sqr_loop z_size x_size s \<Longrightarrow> j \<noteq> 0 \<Longrightarrow> s \<le> j \<and> j \<le> x_size \<and> 2 * j \<le> z_size"
proof (induction z_size x_size s rule: karatsuba_size_sqr_loop.induct)
  case (1 z_size x_size s)
  then show ?case by (simp add: karatsuba_size_sqr_loop.simps[of z_size x_size s] split: if_splits)
qed

lemma karatsuba_size_sqr_ok:
  assumes "karatsuba_size_sqr z_size x_size x_sw = N" and "N \<noteq> 0" and "x_sw \<le> x_size"
  shows "x_sw \<le> N \<and> N \<le> x_size"
  using assms karatsuba_size_sqr_loop_ok[of N z_size x_size x_sw]
  by (auto simp: karatsuba_size_sqr_def split: if_splits)

lemma mp_val_take_mono: "m \<le> n \<Longrightarrow> mp_val (take m x) \<le> mp_val (take n (x :: 'a::len word list))"
  using mp_val_split[of "take n x" m] by (simp add: min_absorb1)

lemma mp_val_take_between:
  fixes x :: "'a::len word list"
  shows "mp_val (take b x) = mp_val (take a x) \<Longrightarrow> a \<le> n \<Longrightarrow> n \<le> b \<Longrightarrow> mp_val (take n x) = mp_val (take a x)"
  using mp_val_take_mono[of a n x] mp_val_take_mono[of n b x] by simp

lemma mp_val_drop_mono: "m \<le> n \<Longrightarrow> mp_val (drop m x) = 0 \<Longrightarrow> mp_val (drop n (x :: 'a::len word list)) = 0"
  by (auto simp: mp_val_eq_0_iff dest: set_drop_subset_set_drop[THEN subsetD])

lemma mul_post_zero:
  "mul_post z n v z' \<Longrightarrow> m \<le> n \<Longrightarrow> mp_val (drop m z) = 0 \<Longrightarrow> length z' = length z \<and> mp_val z' = v"
  using mp_val_split[of z' n] mp_val_drop_mono[of m n z] by (simp add: mul_post_def)

text \<open>
  \<open>x_sw\<close> significant words in an array of \<open>x_size\<close>: the words between are zero. Into an
  output with room for both arrays, cleared from word \<open>x_sw\<close> on, the dispatcher leaves the
  product, whichever algorithm it takes.
\<close>

lemma bigint_mul_val:
  fixes x y z ws :: "'a::len word list"
  assumes w: "8 \<le> LENGTH('a)"
    and x: "x_sw \<le> x_size" "x_size \<le> length x" "mp_val (take x_size x) = mp_val (take x_sw x)"
    and y: "y_sw \<le> y_size" "y_size \<le> length y" "mp_val (take y_size y) = mp_val (take y_sw y)"
    and z: "x_size + y_size \<le> length z" "z_size \<le> length z" "mp_val (drop x_sw z) = 0" and ws: "x_size + y_size \<le> length ws"
    and r: "bigint_mul z z_size ws x x_size x_sw y y_size y_sw = (z', ws')"
  shows "length z' = length z \<and> mp_val z' = mp_val (take x_sw x) * mp_val (take y_sw y)"
proof -
  let ?p = "mp_val (take x_sw x) * mp_val (take y_sw y)"
  have xv: "mp_val (take n x) = mp_val (take x_sw x)" if "x_sw \<le> n" "n \<le> x_size" for n
    using mp_val_take_between[OF x(3) that] .
  have yv: "mp_val (take n y) = mp_val (take y_sw y)" if "y_sw \<le> n" "n \<le> y_size" for n
    using mp_val_take_between[OF y(3) that] .
  have lin: "mul_post z (Suc n) (mp_val (take n v) * unat c) (bigint_linmul3 z v n c)"
    if "n \<le> length v" "n < length z" for v :: "'a word list" and n c
    using bigint_linmul3_val[OF that] by (simp add: mul_post_def)
  have one: "mp_val (take 1 v) = unat (v ! 0)" if "1 \<le> length v" for v :: "'a word list"
    using that by (cases v) simp_all
  have "\<exists>n. mul_post z n ?p z' \<and> x_sw \<le> n"
  proof (cases "x_sw = 1 \<or> y_sw = 1")
    case True
    then show ?thesis
      using r x y z lin[of y_sw y "x ! 0"] lin[of x_sw x "y ! 0"] one[of x] one[of y]
      by (auto simp: bigint_mul_def mult.commute split: if_splits)
  next
    case False
    note d = bigint_mul_def[of z z_size ws x x_size x_sw y y_size y_sw]
    note kz = karatsuba_size_ok[of z_size x_size x_sw y_size y_sw]
    consider "x_sw \<le> 4 \<and> x_size \<ge> 4 \<and> y_sw \<le> 4 \<and> y_size \<ge> 4 \<and> z_size \<ge> 8" "z' = bigint_comba_mul4 z x y"
      | "x_sw \<le> 6 \<and> x_size \<ge> 6 \<and> y_sw \<le> 6 \<and> y_size \<ge> 6 \<and> z_size \<ge> 12" "z' = bigint_comba_mul6 z x y"
      | "x_sw \<le> 8 \<and> x_size \<ge> 8 \<and> y_sw \<le> 8 \<and> y_size \<ge> 8 \<and> z_size \<ge> 16" "z' = bigint_comba_mul8 z x y"
      | "x_sw \<le> 16 \<and> x_size \<ge> 16 \<and> y_sw \<le> 16 \<and> y_size \<ge> 16 \<and> z_size \<ge> 32" "z' = bigint_comba_mul16 z x y"
      | "z' = bigint_simple_mul z x x_sw y y_sw"
      | N where "karatsuba_size z_size x_size x_sw y_size y_sw = N" "N \<noteq> 0"
          "karatsuba_mul z x y N (clear_mem ws (2 * N)) = (z', ws')"
      using r False unfolding d Let_def by (auto split: if_splits)
    then show ?thesis
    proof cases
      case 1
      then show ?thesis using comba_mul_post(1)[OF w, of x y z] xv[of 4] yv[of 4] x y z by (auto intro!: exI[of _ 8])
    next
      case 2
      then show ?thesis using comba_mul_post(2)[OF w, of x y z] xv[of 6] yv[of 6] x y z by (auto intro!: exI[of _ 12])
    next
      case 3
      then show ?thesis using comba_mul_post(3)[OF w, of x y z] xv[of 8] yv[of 8] x y z by (auto intro!: exI[of _ 16])
    next
      case 4
      then show ?thesis using comba_mul_post(4)[OF w, of x y z] xv[of 16] yv[of 16] x y z by (auto intro!: exI[of _ 32])
    next
      case 5
      then show ?thesis using simple_mul_post[of x_sw x y_sw y z] x y z by (auto intro!: exI[of _ "x_sw + y_sw"])
    next
      case 6
      have N: "x_sw \<le> N" "N \<le> x_size" "y_sw \<le> N" "N \<le> y_size" using kz[OF 6(1,2)] by simp_all
      have l: "2 * N \<le> length ws" "2 * N \<le> length z" "N \<le> length x" "N \<le> length y" using N ws z x y by simp_all
      have "mul_post z (2 * N) (mp_val (take N x) * mp_val (take N y)) z'"
        using karatsuba_mul_val[OF w l(3,4,2) _ 6(3)] l(1) by simp
      then show ?thesis using xv[of N] yv[of N] N by (auto intro!: exI[of _ "2 * N"])
    qed
  qed
  then show ?thesis using mul_post_zero[OF _ _ z(3)] by blast
qed

lemma bigint_sqr_val:
  fixes x z ws :: "'a::len word list"
  assumes w: "8 \<le> LENGTH('a)"
    and x: "x_sw \<le> x_size" "x_size \<le> length x" "mp_val (take x_size x) = mp_val (take x_sw x)"
    and z: "2 * x_size \<le> length z" "z_size \<le> length z" "mp_val (drop x_sw z) = 0" and ws: "2 * x_size \<le> length ws"
    and r: "bigint_sqr z z_size ws x x_size x_sw = (z', ws')"
  shows "length z' = length z \<and> mp_val z' = (mp_val (take x_sw x))\<^sup>2"
proof -
  let ?p = "mp_val (take x_sw x) * mp_val (take x_sw x)"
  have xv: "mp_val (take n x) = mp_val (take x_sw x)" if "x_sw \<le> n" "n \<le> x_size" for n
    using mp_val_take_between[OF x(3) that] .
  have "\<exists>n. mul_post z n ?p z' \<and> x_sw \<le> n"
  proof (cases "x_sw = 1")
    case True
    have "1 \<le> length x" "1 < length z" using True x z by simp_all
    moreover have "mp_val (take 1 x) = unat (x ! 0)" using \<open>1 \<le> length x\<close> by (cases x) simp_all
    ultimately show ?thesis
      using r True bigint_linmul3_val[of 1 x z "x ! 0"] by (auto simp: bigint_sqr_def mul_post_def intro!: exI[of _ "Suc (Suc 0)"])
  next
    case False
    note d = bigint_sqr_def[of z z_size ws x x_size x_sw]
    consider "x_sw \<le> 4 \<and> x_size \<ge> 4 \<and> z_size \<ge> 8" "z' = bigint_comba_sqr4 z x"
      | "x_sw \<le> 6 \<and> x_size \<ge> 6 \<and> z_size \<ge> 12" "z' = bigint_comba_sqr6 z x"
      | "x_sw \<le> 8 \<and> x_size \<ge> 8 \<and> z_size \<ge> 16" "z' = bigint_comba_sqr8 z x"
      | "x_sw \<le> 16 \<and> x_size \<ge> 16 \<and> z_size \<ge> 32" "z' = bigint_comba_sqr16 z x"
      | "z' = bigint_simple_sqr z x x_sw"
      | N where "karatsuba_size_sqr z_size x_size x_sw = N" "N \<noteq> 0"
          "karatsuba_sqr z x N (clear_mem ws (2 * N)) = (z', ws')"
      using r False unfolding d Let_def by (auto split: if_splits)
    then show ?thesis
    proof cases
      case 1
      then show ?thesis using comba_sqr_post(1)[OF w, of x z] xv[of 4] x z by (auto intro!: exI[of _ 8])
    next
      case 2
      then show ?thesis using comba_sqr_post(2)[OF w, of x z] xv[of 6] x z by (auto intro!: exI[of _ 12])
    next
      case 3
      then show ?thesis using comba_sqr_post(3)[OF w, of x z] xv[of 8] x z by (auto intro!: exI[of _ 16])
    next
      case 4
      then show ?thesis using comba_sqr_post(4)[OF w, of x z] xv[of 16] x z by (auto intro!: exI[of _ 32])
    next
      case 5
      then show ?thesis using simple_mul_post[of x_sw x x_sw x z] x z
        by (auto simp: bigint_simple_sqr_mul intro!: exI[of _ "x_sw + x_sw"])
    next
      case 6
      have N: "x_sw \<le> N" "N \<le> x_size" using karatsuba_size_sqr_ok[OF 6(1,2) x(1)] by simp_all
      have l: "2 * N \<le> length ws" "2 * N \<le> length z" "N \<le> length x" using N ws z x by simp_all
      have "mul_post z (2 * N) (mp_val (take N x) * mp_val (take N x)) z'"
        using karatsuba_sqr_val[OF w l(3,2) _ 6(3)] l(1) by simp
      then show ?thesis using xv[of N] N by (auto intro!: exI[of _ "2 * N"])
    qed
  qed
  then show ?thesis using mul_post_zero[OF _ _ z(3)] by (auto simp: power2_eq_square)
qed

end
