(* ===== verification/MP_Shift.thy ===== *)
theory MP_Shift
  imports MP_Chain
begin

text \<open>
  Left and right shifts of word arrays by whole words and then by bits
  (\<open>src/math/bigint/mp_shift.cpp\<close>), in place and into another array. A left shift hands the
  bits it pushes out up to the next word, a right shift hands them down.
\<close>

section \<open>Definitions\<close>

text \<open>
  The bit loops: \<open>x[j] = (w << bit_shift) | carry; carry = w >> (MP_WORD_BITS - bit_shift)\<close>,
  and its mirror image on \<open>x[j - 1]\<close>.
\<close>

definition shl_word :: "nat \<Rightarrow> nat \<Rightarrow> 'a::len word \<Rightarrow> 'a word \<Rightarrow> 'a word \<times> 'a word" where
  "shl_word bit_shift j w carry =
     (push_bit bit_shift w OR carry, drop_bit (LENGTH('a) - bit_shift) w)"

definition shr_step :: "nat \<Rightarrow> nat \<Rightarrow> 'a::len word list \<times> 'a word \<Rightarrow> 'a word list \<times> 'a word" where
  "shr_step bit_shift j s = (case s of (x, carry) \<Rightarrow>
     let w = x ! (j - 1)
     in (x[j - 1 := drop_bit bit_shift w OR carry], push_bit (LENGTH('a) - bit_shift) w))"

definition bigint_shl1 :: "'a::len word list \<Rightarrow> nat \<Rightarrow> nat \<Rightarrow> nat \<Rightarrow> 'a word list" where
  "bigint_shl1 x x_size word_shift bit_shift =
     (let x = (if word_shift \<noteq> 0
               then clear_mem (for_up 1 (x_size + 1) (\<lambda>j x. x[(x_size - j) + word_shift := x ! (x_size - j)]) x) word_shift
               else x)
      in if bit_shift \<noteq> 0
         then fst (for_up word_shift (x_size + word_shift + 1) (upd_step (shl_word bit_shift)) (x, 0))
         else x)"

text \<open>The unrolled loop \<open>while (top >= 4)\<close>, then \<open>while (top)\<close>; \<open>t\<close> is the code's \<open>top\<close>.\<close>

function shr1_blocks :: "nat \<Rightarrow> nat \<Rightarrow> 'a::len word list \<times> 'a word \<Rightarrow> 'a word list \<times> 'a word" where
  "shr1_blocks bit_shift t s =
     (if t \<ge> 4
      then shr1_blocks bit_shift (t - 4)
             (shr_step bit_shift (t - 3) (shr_step bit_shift (t - 2)
               (shr_step bit_shift (t - 1) (shr_step bit_shift t s))))
      else for_down t 0 (shr_step bit_shift) s)"
  by pat_completeness auto
termination
  by (relation "measure (\<lambda>(bit_shift, t, s). t)") auto

declare shr1_blocks.simps [simp del]

definition bigint_shr1 :: "'a::len word list \<Rightarrow> nat \<Rightarrow> nat \<Rightarrow> nat \<Rightarrow> 'a word list" where
  "bigint_shr1 x x_size word_shift bit_shift =
     (if x_size < word_shift then clear_mem x x_size
      else
        let x = (if word_shift \<noteq> 0
                 then let x = copy_mem x (drop word_shift x) (x_size - word_shift)
                      in at_ptr (x_size - word_shift) (\<lambda>p. clear_mem p word_shift) x
                 else x)
        in if bit_shift \<noteq> 0 then fst (shr1_blocks bit_shift (x_size - word_shift) (x, 0)) else x)"

definition bigint_shl2 :: "'a::len word list \<Rightarrow> 'a word list \<Rightarrow> nat \<Rightarrow> nat \<Rightarrow> nat \<Rightarrow> 'a word list" where
  "bigint_shl2 y x x_size word_shift bit_shift =
     (let y = for_up 0 x_size (\<lambda>j y. y[j + word_shift := x ! j]) y
      in if bit_shift \<noteq> 0
         then fst (for_up word_shift (x_size + word_shift + 1) (upd_step (shl_word bit_shift)) (y, 0))
         else y)"

definition bigint_shr2 :: "'a::len word list \<Rightarrow> 'a word list \<Rightarrow> nat \<Rightarrow> nat \<Rightarrow> nat \<Rightarrow> 'a word list" where
  "bigint_shr2 y x x_size word_shift bit_shift =
     (if x_size < word_shift then y
      else
        let y = for_up 0 (x_size - word_shift) (\<lambda>j y. y[j := x ! (j + word_shift)]) y
        in if bit_shift \<noteq> 0 then fst (for_down (x_size - word_shift) 0 (shr_step bit_shift) (y, 0)) else y)"

section \<open>The bit loops\<close>

interpretation shl_chain: carry_chain "shl_word s" "\<lambda>j w. 2 ^ s * unat w"
    "\<lambda>c :: 'a::len word. s \<le> LENGTH('a) \<and> unat c < 2 ^ s" for s
proof
  fix c r c' w :: "'a word" and j
  assume c: "s \<le> LENGTH('a) \<and> unat c < 2 ^ s" and r: "shl_word s j w c = (r, c')"
  then have "r = push_bit s w OR c" "c' = drop_bit (LENGTH('a) - s) w" by (simp_all add: shl_word_def)
  with c show "unat r + 2 ^ LENGTH('a) * unat c' = 2 ^ s * unat w + unat c \<and> (s \<le> LENGTH('a) \<and> unat c' < 2 ^ s)"
    using shift_split[of s w] unat_drop_bit_bound[of s w] push_bit_or[of c s w] by simp
qed

lemma shl_bits_val:
  fixes x :: "'a::len word list"
  assumes "s \<le> LENGTH('a)" and "n \<le> length x" and "for_up 0 n (upd_step (shl_word s)) (x, 0) = (x', c)"
  shows "length x' = length x \<and> drop n x' = drop n x \<and>
    mp_val (take n x') + (2 ^ LENGTH('a)) ^ n * unat c = 2 ^ s * mp_val (take n x)"
  using shl_chain.chain[OF assms(2) _ assms(3)] assms(1,2)
  by (simp add: mp_val_take_sum[of n x] sum_distrib_left mult.left_commute)

lemma split_scale: "c * w = c * (w mod d) + d * c * (w div d)" for c :: nat
  using arg_cong[OF mod_mult_div_eq[of w d, symmetric], of "(*) c"] by (simp only: distrib_left mult_ac)

lemma length_shr_step [simp]: "length (fst (shr_step s j p)) = length (fst p)"
  by (cases p) (simp add: shr_step_def Let_def)

lemma shr_step_val:
  fixes x :: "'a::len word list"
  assumes "s \<le> LENGTH('a)" and "0 < j" and "j \<le> length x"
    and "unat c = 2 ^ (LENGTH('a) - s) * m" and "m < 2 ^ s" and "shr_step s j (x, c) = (x', c')"
  shows "length x' = length x \<and> take (j - 1) x' = take (j - 1) x \<and> drop j x' = drop j x \<and>
    (\<exists>m'. unat c' = 2 ^ (LENGTH('a) - s) * m' \<and> m' < 2 ^ s \<and>
      2 ^ s * unat (x' ! (j - 1)) + m' = unat (x ! (j - 1)) + 2 ^ LENGTH('a) * m)"
proof -
  let ?w = "x ! (j - 1)" and ?e = "LENGTH('a) - s"
  have r: "x' = x[j - 1 := drop_bit s ?w OR c]" "c' = push_bit ?e ?w"
    using assms(6) by (simp_all add: shr_step_def Let_def)
  have p: "2 ^ LENGTH('a) = (2 :: nat) ^ s * 2 ^ ?e" using assms(1) by (simp flip: power_add)
  have w: "unat (drop_bit s ?w) < 2 ^ ?e" using unat_drop_bit_bound[of ?e ?w] assms(1) by simp
  have cp: "c = push_bit ?e (of_nat m)"
  proof -
    have "c = of_nat (unat c)" by simp
    then show ?thesis unfolding assms(4) by (simp add: push_bit_eq_mult mult.commute)
  qed
  have "unat (drop_bit s ?w OR c) = unat c + unat (drop_bit s ?w)"
    using push_bit_or[of "drop_bit s ?w" ?e "of_nat m"] w by (simp add: cp or.commute)
  then have v: "unat (x' ! (j - 1)) = 2 ^ ?e * m + unat ?w div 2 ^ s"
    using r assms(2-4) by (simp add: unat_drop_bit)
  have "unat c' = 2 ^ ?e * (unat ?w mod 2 ^ s)"
  proof -
    have "unat c' + 2 ^ LENGTH('a) * (unat ?w div 2 ^ s) = 2 ^ ?e * unat ?w"
      using shift_split[of ?e ?w] assms(1) by (simp add: r unat_drop_bit)
    moreover have "2 ^ ?e * unat ?w = 2 ^ ?e * (unat ?w mod 2 ^ s) + 2 ^ LENGTH('a) * (unat ?w div 2 ^ s)"
      unfolding p by (rule split_scale)
    ultimately show ?thesis by linarith
  qed
  moreover have "2 ^ s * unat (x' ! (j - 1)) + unat ?w mod 2 ^ s = unat ?w + 2 ^ LENGTH('a) * m"
    unfolding v p by (simp add: distrib_left mult.assoc)
  ultimately show ?thesis using r assms(2,3) by (auto intro!: exI[of _ "unat ?w mod 2 ^ s"])
qed

text \<open>The downward loop over the low \<open>n\<close> words divides their value.\<close>

lemma shr_bits_val:
  fixes x :: "'a::len word list"
  assumes "s \<le> LENGTH('a)" and "n \<le> length x" and "for_down n 0 (shr_step s) (x, 0) = (x', c)"
  shows "length x' = length x \<and> drop n x' = drop n x \<and> mp_val (take n x') = mp_val (take n x) div 2 ^ s"
proof -
  let ?B = "2 ^ LENGTH('a) :: nat"
  let ?I = "\<lambda>j (p :: 'a word list \<times> 'a word). length (fst p) = length x \<and> drop n (fst p) = drop n x \<and>
    take j (fst p) = take j x \<and> (\<exists>m. unat (snd p) = 2 ^ (LENGTH('a) - s) * m \<and> m < 2 ^ s \<and>
      2 ^ s * mp_val (drop j (take n (fst p))) + m = mp_val (drop j (take n x)))"
  have "?I 0 (for_down n 0 (shr_step s) (x, 0))"
  proof (rule for_down_invariant[where I = ?I])
    show "?I n (x, 0)" by simp
  next
    fix j p assume j: "0 < j" "j \<le> n" and I: "?I j p"
    obtain y c where p: "p = (y, c)" by (cases p)
    obtain y' c' where st: "shr_step s j (y, c) = (y', c')" by (rule prod.exhaust)
    obtain m where m: "unat c = 2 ^ (LENGTH('a) - s) * m" "m < 2 ^ s"
      "2 ^ s * mp_val (drop j (take n y)) + m = mp_val (drop j (take n x))"
      using I p by auto
    have y: "length y = length x" "drop n y = drop n x" "take j y = take j x" using I p by simp_all
    have jl: "j \<le> length y" using j assms(2) y by simp
    obtain m' where s: "length y' = length y" "take (j - 1) y' = take (j - 1) y" "drop j y' = drop j y"
      "unat c' = 2 ^ (LENGTH('a) - s) * m'" "m' < 2 ^ s"
      "2 ^ s * unat (y' ! (j - 1)) + m' = unat (y ! (j - 1)) + ?B * m"
      using shr_step_val[OF assms(1) j(1) jl m(1,2) st] by blast
    have split: "mp_val (drop (j - 1) (take n v)) = unat (v ! (j - 1)) + ?B * mp_val (drop j (take n v))"
      if "length v = length x" for v :: "'a word list"
      using Cons_nth_drop_Suc[of "j - 1" "take n v"] j that assms(2) by (simp flip: mp_val.simps)
    have yj: "y ! (j - 1) = x ! (j - 1)" 
      using y(3) j nth_take[of "j - 1" j y] nth_take[of "j - 1" j x] by simp
    have dj: "drop j (take n y') = drop j (take n y)" using s(3) by (simp add: drop_take)
    have "2 ^ s * mp_val (drop (j - 1) (take n y')) + m' = mp_val (drop (j - 1) (take n x))"
      using split[of y'] split[of x] s(1,6) y(1) arg_cong[OF m(3), of "(*) ?B"]
      unfolding dj yj by (simp add: distrib_left mult.left_commute)
    moreover have "take (j - 1) y' = take (j - 1) x" using s(2) y(3) by (metis diff_le_self min.absorb1 take_take)
    moreover have "drop n y' = drop n x" using drop_eq_mono[OF s(3) j(2)] y(2) by simp
    ultimately show "?I (j - 1) (shr_step s j p)" using s y p st by auto
  qed simp
  then obtain m where "length x' = length x" "drop n x' = drop n x" "m < 2 ^ s"
    "2 ^ s * mp_val (take n x') + m = mp_val (take n x)"
    using assms(3) by auto
  then show ?thesis by (metis add.commute add.right_neutral div_less div_mult_self2 power_not_zero zero_neq_numeral)
qed

lemma shr1_blocks_loop: "shr1_blocks s t p = for_down t 0 (shr_step s) p"
proof (induction s t p rule: shr1_blocks.induct)
  case (1 s t p)
  show ?case
  proof (cases "4 \<le> t")
    case True
    then show ?thesis using 1 by (simp add: shr1_blocks.simps[of s t p] for_down_first numeral_eq_Suc)
  next
    case False
    then show ?thesis by (simp add: shr1_blocks.simps[of s t p])
  qed
qed

section \<open>The four shifts\<close>

lemma shl_move:
  assumes "n + s \<le> length x"
  shows "for_up 1 (n + 1) (\<lambda>j x. x[(n - j) + s := x ! (n - j)]) x = take s x @ take n x @ drop (n + s) x"
proof -
  let ?I = "\<lambda>j y. length y = length x \<and>
    (\<forall>i < length x. y ! i = (if n - (j - 1) + s \<le> i \<and> i < n + s then x ! (i - s) else x ! i))"
  let ?y = "for_up 1 (n + 1) (\<lambda>j x. x[(n - j) + s := x ! (n - j)]) x"
  have I: "?I (n + 1) ?y"
  proof (rule for_up_invariant[where I = ?I])
    fix j y assume j: "1 \<le> j" "j < n + 1" and y: "?I j y"
    then have "y ! (n - j) = x ! (n - j)" using assms by auto
    with j y assms show "?I (Suc j) (y[n - j + s := y ! (n - j)])" by (auto simp: nth_list_update)
  qed auto
  show ?thesis
  proof (rule nth_equalityI)
    show "length ?y = length (take s x @ take n x @ drop (n + s) x)" using I assms by simp
    fix i assume "i < length ?y"
    then show "?y ! i = (take s x @ take n x @ drop (n + s) x) ! i"
      using I assms by (auto simp: nth_append min_def)
  qed
qed

lemma shl_bits_at:
  fixes z :: "'a::len word list"
  assumes "s \<le> LENGTH('a)" and "n + m + 1 \<le> length z" and "z ! (n + m) = 0"
    and "for_up m (n + m + 1) (upd_step (shl_word s)) (z, 0) = (z', c)"
  shows "length z' = length z \<and> take m z' = take m z \<and> drop (n + m + 1) z' = drop (n + m + 1) z \<and>
    mp_val (take (n + 1) (drop m z')) = 2 ^ s * mp_val (take n (drop m z))"
proof -
  let ?B = "2 ^ LENGTH('a) :: nat"
  obtain r where r: "for_up 0 (n + 1) (upd_step (\<lambda>i. shl_word s (m + i))) (drop m z, 0) = (r, c)" "z' = take m z @ r"
    using assms(2,4) upd_loop_shift[of m "n + 1" z "shl_word s" 0] by (auto simp: block_at_def add.commute split: prod.splits)
  have "(\<lambda>i. shl_word s (m + i)) = (shl_word s :: nat \<Rightarrow> 'a word \<Rightarrow> _)" by (simp add: shl_word_def fun_eq_iff)
  then have "for_up 0 (n + 1) (upd_step (shl_word s)) (drop m z, 0) = (r, c)"
    by (rule subst[where P = "\<lambda>F. for_up 0 (n + 1) (upd_step F) (drop m z, 0) = (r, c)"]) (rule r(1))
  from shl_bits_val[OF assms(1) _ this] assms(2)
  have v: "length r = length (drop m z)" "drop (n + 1) r = drop (n + 1) (drop m z)"
    "mp_val (take (n + 1) r) + ?B ^ (n + 1) * unat c = 2 ^ s * mp_val (take (n + 1) (drop m z))"
    by simp_all
  have z: "mp_val (take (n + 1) (drop m z)) = mp_val (take n (drop m z))"
    using assms(2,3) by (simp add: take_Suc_conv_app_nth add.commute)
  have "2 ^ s * mp_val (take n (drop m z)) < 2 ^ s * ?B ^ n" by (simp add: mp_val_take_bound)
  also have "\<dots> \<le> ?B ^ (n + 1)" using assms(1) by (simp add: power_increasing)
  finally have "mp_val (take (n + 1) r) + ?B ^ (n + 1) * unat c < ?B ^ (n + 1)" by (simp only: v(3) z)
  then have "?B ^ (n + 1) * unat c < ?B ^ (n + 1)" by (rule le_less_trans[OF le_add2])
  then have "unat c = 0" by simp
  with v z r(2) assms(2) show ?thesis by (auto simp: add.commute)
qed

lemma bigint_shl1_val [value_simps]:
  fixes x :: "'a::len word list"
  assumes "s \<le> LENGTH('a)" and "n + m + 1 \<le> length x" and "x ! (n + m) = 0"
  shows "length (bigint_shl1 x n m s) = length x \<and> drop (n + m + 1) (bigint_shl1 x n m s) = drop (n + m + 1) x \<and>
    mp_val (take (n + m + 1) (bigint_shl1 x n m s)) = 2 ^ (LENGTH('a) * m + s) * mp_val (take n x)"
proof -
  let ?B = "2 ^ LENGTH('a) :: nat"
  define y where "y = (if m \<noteq> 0 then clear_mem (for_up 1 (n + 1) (\<lambda>j x. x[(n - j) + m := x ! (n - j)]) x) m else x)"
  have y: "y = replicate m 0 @ take n x @ drop (n + m) x"
    using assms(2) shl_move[of n m x] by (simp add: y_def clear_mem_def)
  obtain z c where z: "for_up m (n + m + 1) (upd_step (shl_word s)) (y, 0) = (z, c)" by (rule prod.exhaust)
  have r: "bigint_shl1 x n m s = (if s \<noteq> 0 then z else y)"
    using z unfolding bigint_shl1_def Let_def y_def[symmetric] by simp
  have ly: "length y = length x" "y ! (n + m) = 0" using y assms(2,3) by (simp_all add: nth_append)
  have zs: "length z = length y" "take m z = take m y" "drop (n + m + 1) z = drop (n + m + 1) y"
    "mp_val (take (n + 1) (drop m z)) = 2 ^ s * mp_val (take n (drop m y))"
    using shl_bits_at[OF assms(1) _ _ z] ly assms(2) by simp_all
  have w: "mp_val (take (n + m + 1) v) = ?B ^ m * mp_val (take (n + 1) (drop m v))"
    if "length v = length x" "take m v = replicate m 0" for v :: "'a word list"
  proof -
    have "take (n + m + 1) v = take m v @ take (n + 1) (drop m v)"
      using take_add[of m "n + 1" v] by (simp add: add.commute add.left_commute)
    then show ?thesis using that by simp
  qed
  have "mp_val (take (n + 1) (drop m y)) = mp_val (take n (drop m y))"
    using ly assms(2) by (simp add: take_Suc_conv_app_nth add.commute)
  then show ?thesis
    using r zs ly w[of y] w[of z] assms(2) by (auto simp: y power_add power_mult mult.assoc)
qed

lemma mp_val_drop: "mp_val (drop m xs) = mp_val (xs :: 'a::len word list) div (2 ^ LENGTH('a)) ^ m"
proof (cases "m \<le> length xs")
  case True
  then show ?thesis using mp_val_split[of xs m] mp_val_take_bound[of m xs] by (simp add: min_absorb1)
next
  case False
  then have "mp_val xs < (2 ^ LENGTH('a)) ^ m"
    using mp_val_take_bound[of m xs] by simp
  with False show ?thesis by simp
qed

text \<open>The word moves alone.\<close>

lemma bigint_shl1_words:
  fixes x :: "'a::len word list"
  assumes "n + m \<le> length x" and "mp_val (drop n x) = 0"
  shows "length (bigint_shl1 x n m 0) = length x \<and> mp_val (bigint_shl1 x n m 0) = (2 ^ LENGTH('a)) ^ m * mp_val x"
proof -
  have x: "mp_val x = mp_val (take n x)" using mp_val_split[of x n] assms(2) by simp
  have "mp_val (drop (n + m) x) = 0"
    using assms(2) mp_val_split[of "drop n x" m] assms(1) by (auto simp: add.commute)
  then show ?thesis
    using assms(1) shl_move[of n m x] unfolding x
    by (cases "m = 0") (simp_all add: bigint_shl1_def clear_mem_def x[symmetric])
qed

lemma shl2_copy:
  assumes "n \<le> length x" and "n + m \<le> length y"
  defines "y' \<equiv> for_up 0 n (\<lambda>j y. y[j + m := x ! j]) y"
  shows "length y' = length y \<and> take m y' = take m y \<and> drop (n + m) y' = drop (n + m) y \<and> take n (drop m y') = take n x"
  unfolding y'_def
proof (rule for_up_invariant[where I = "\<lambda>j v. length v = length y \<and> take m v = take m y \<and>
    drop (n + m) v = drop (n + m) y \<and> take j (drop m v) = take j x"])
  fix j v assume j: "0 \<le> j" "j < n" and I: "length v = length y \<and> take m v = take m y \<and>
    drop (n + m) v = drop (n + m) y \<and> take j (drop m v) = take j x"
  have "take (Suc j) (drop m (v[j + m := x ! j])) = take j (drop m v) @ [x ! j]"
    using I j assms(1,2) by (subst take_Suc_conv_app_nth) (auto simp: drop_update_swap)
  then show "length (v[j + m := x ! j]) = length y \<and> take m (v[j + m := x ! j]) = take m y \<and>
    drop (n + m) (v[j + m := x ! j]) = drop (n + m) y \<and> take (Suc j) (drop m (v[j + m := x ! j])) = take (Suc j) x"
    using I j assms(1) by (simp add: take_Suc_conv_app_nth)
qed simp_all

lemma bigint_shl2_words:
  fixes x y :: "'a::len word list"
  assumes "n \<le> length x" and "n + m \<le> length y" and "mp_val y = 0"
  shows "mp_val (bigint_shl2 y x n m 0) = (2 ^ LENGTH('a)) ^ m * mp_val (take n x)"
proof -
  let ?y = "for_up 0 n (\<lambda>j y. y[j + m := x ! j]) y"
  have y: "length ?y = length y" "take m ?y = take m y" "drop (n + m) ?y = drop (n + m) y" "take n (drop m ?y) = take n x"
    using shl2_copy[OF assms(1,2)] by simp_all
  have z: "mp_val (take m y) = 0" "mp_val (drop (n + m) y) = 0"
    using assms(3) mp_val_split[of y m] mp_val_split[of y "n + m"] assms(2) by auto
  have "mp_val ?y = (2 ^ LENGTH('a)) ^ m * (mp_val (take n x) + (2 ^ LENGTH('a)) ^ n * mp_val (drop (n + m) ?y))"
    using mp_val_split[of ?y m] mp_val_split[of "drop m ?y" n] y(1,2,4) z(1) assms(2) by (simp add: add.commute min_absorb1)
  then show ?thesis using z(2) y(3) by (simp add: bigint_shl2_def)
qed

lemma bigint_shl2_val [value_simps]:
  fixes x :: "'a::len word list"
  assumes "s \<le> LENGTH('a)" and "n \<le> length x" and "n + m + 1 \<le> length y"
    and "take m y = replicate m 0" and "y ! (n + m) = 0"
  shows "length (bigint_shl2 y x n m s) = length y \<and> drop (n + m + 1) (bigint_shl2 y x n m s) = drop (n + m + 1) y \<and>
    mp_val (take (n + m + 1) (bigint_shl2 y x n m s)) = 2 ^ (LENGTH('a) * m + s) * mp_val (take n x)"
proof -
  let ?B = "2 ^ LENGTH('a) :: nat"
  let ?y = "for_up 0 n (\<lambda>j y. y[j + m := x ! j]) y"
  have "length ?y = length y \<and> take m ?y = take m y \<and> drop (n + m) ?y = drop (n + m) y \<and> take n (drop m ?y) = take n x"
    using assms(2,3) by (intro shl2_copy) simp_all
  then have y: "length ?y = length y" "take m ?y = replicate m 0" "take n (drop m ?y) = take n x"
    "drop (n + m) ?y = drop (n + m) y"
    using assms(4) by simp_all
  have y0: "?y ! (n + m) = 0" using nth_drop_eq[OF y(4), of "n + m"] y(1) assms(3,5) by simp
  obtain z c where z: "for_up m (n + m + 1) (upd_step (shl_word s)) (?y, 0) = (z, c)" by (rule prod.exhaust)
  have r: "bigint_shl2 y x n m s = (if s \<noteq> 0 then z else ?y)"
    using z unfolding bigint_shl2_def Let_def by simp
  have zs: "length z = length ?y" "take m z = take m ?y" "drop (n + m + 1) z = drop (n + m + 1) ?y"
    "mp_val (take (n + 1) (drop m z)) = 2 ^ s * mp_val (take n (drop m ?y))"
    using shl_bits_at[OF assms(1) _ y0 z] y(1) assms(3) by simp_all
  have w: "mp_val (take (n + m + 1) v) = ?B ^ m * mp_val (take (n + 1) (drop m v))"
    if "length v = length y" "take m v = replicate m 0" for v :: "'a word list"
  proof -
    have "take (n + m + 1) v = take m v @ take (n + 1) (drop m v)"
      using take_add[of m "n + 1" v] by (simp add: add.commute add.left_commute)
    then show ?thesis using that assms(3) by simp
  qed
  have "mp_val (take (n + 1) (drop m ?y)) = mp_val (take n (drop m ?y))"
    using y0 y(1) assms(3) by (simp add: take_Suc_conv_app_nth add.commute)
  then show ?thesis
    using r zs y w[of ?y] w[of z] drop_eq_Suc[OF y(4)] by (auto simp: power_add power_mult mult.assoc)
qed

lemma div_shift: "v div (2 ^ l) ^ m div 2 ^ s = v div 2 ^ (l * m + s)" for v :: nat
  by (simp add: power_add power_mult div_mult2_eq)

lemma bigint_shr1_val [value_simps]:
  fixes x :: "'a::len word list"
  assumes "s \<le> LENGTH('a)" and "n \<le> length x"
  shows "length (bigint_shr1 x n m s) = length x \<and> drop n (bigint_shr1 x n m s) = drop n x \<and>
    mp_val (take n (bigint_shr1 x n m s)) = mp_val (take n x) div 2 ^ (LENGTH('a) * m + s)"
proof (cases "n < m")
  case True
  have "mp_val (take n x) < (2 ^ LENGTH('a)) ^ n" by (rule mp_val_take_bound)
  also have "\<dots> \<le> 2 ^ (LENGTH('a) * m + s)"
    unfolding power_mult[symmetric] using True by (intro power_increasing) (simp_all add: trans_le_add1)
  finally show ?thesis using True assms(2) by (simp add: bigint_shr1_def clear_mem_def)
next
  case False
  define y where "y = (if m \<noteq> 0
    then let x = copy_mem x (drop m x) (n - m) in at_ptr (n - m) (\<lambda>p. clear_mem p m) x else x)"
  have y: "y = take (n - m) (drop m x) @ replicate m 0 @ drop n x"
    using False assms(2) by (simp add: y_def copy_mem_def at_ptr_def clear_mem_def Let_def min_absorb1)
  obtain z c where z: "for_down (n - m) 0 (shr_step s) (y, 0) = (z, c)" by (rule prod.exhaust)
  have r: "bigint_shr1 x n m s = (if s \<noteq> 0 then z else y)"
    using False z unfolding bigint_shr1_def shr1_blocks_loop Let_def[of _ "\<lambda>x. if s \<noteq> 0 then _ x else _ x"] y_def[symmetric] by simp
  have ly: "length y = length x" "n - m \<le> length y" using y False assms(2) by simp_all
  have zs: "length z = length y" "drop (n - m) z = drop (n - m) y"
    "mp_val (take (n - m) z) = mp_val (take (n - m) y) div 2 ^ s"
    using shr_bits_val[OF assms(1) ly(2) z] by simp_all
  have w: "drop n v = drop n x \<and> mp_val (take n v) = mp_val (take (n - m) v)"
    if "length v = length x" "drop (n - m) v = drop (n - m) y" for v
  proof -
    have d: "drop (n - m) v = replicate m 0 @ drop n x" using that(2) y False assms(2) by simp
    have "drop n v = drop m (drop (n - m) v)" using False by simp
    moreover have "take n v = take (n - m) v @ take m (drop (n - m) v)"
      using take_add[of "n - m" m v] False by simp
    ultimately show ?thesis unfolding d by simp
  qed
  have "mp_val (take (n - m) y) = mp_val (take n x) div (2 ^ LENGTH('a)) ^ m"
    using False assms(2) mp_val_drop[of m "take n x"] by (simp add: y drop_take)
  then show ?thesis using r zs ly w[of y] w[of z] by (simp add: div_shift[symmetric])
qed

lemma bigint_shr2_val [value_simps]:
  fixes x :: "'a::len word list"
  assumes "s \<le> LENGTH('a)" and "n \<le> length x" and "m \<le> n" and "n - m \<le> length y"
  shows "length (bigint_shr2 y x n m s) = length y \<and> drop (n - m) (bigint_shr2 y x n m s) = drop (n - m) y \<and>
    mp_val (take (n - m) (bigint_shr2 y x n m s)) = mp_val (take n x) div 2 ^ (LENGTH('a) * m + s)"
proof -
  let ?y = "for_up 0 (n - m) (\<lambda>j y. y[j := x ! (j + m)]) y"
  have y: "length ?y = length y \<and> drop (n - m) ?y = drop (n - m) y \<and> take (n - m) ?y = take (n - m) (drop m x)"
  proof (rule for_up_invariant[where I = "\<lambda>j v. length v = length y \<and> drop (n - m) v = drop (n - m) y \<and>
      take j v = take j (drop m x)"])
    fix j v assume "0 \<le> j" "j < n - m" and "length v = length y \<and> drop (n - m) v = drop (n - m) y \<and>
      take j v = take j (drop m x)"
    then show "length (v[j := x ! (j + m)]) = length y \<and> drop (n - m) (v[j := x ! (j + m)]) = drop (n - m) y \<and>
      take (Suc j) (v[j := x ! (j + m)]) = take (Suc j) (drop m x)"
      using assms(2-4) by (simp add: take_Suc_conv_app_nth add.commute)
  qed simp_all
  obtain z c where z: "for_down (n - m) 0 (shr_step s) (?y, 0) = (z, c)" by (rule prod.exhaust)
  have r: "bigint_shr2 y x n m s = (if s \<noteq> 0 then z else ?y)"
    using z assms(3) unfolding bigint_shr2_def Let_def by simp
  have ly: "n - m \<le> length ?y" using y assms(4) by simp
  have "mp_val (take (n - m) ?y) = mp_val (take n x) div (2 ^ LENGTH('a)) ^ m"
    using y mp_val_drop[of m "take n x"] by (simp add: drop_take)
  then show ?thesis using r y shr_bits_val[OF assms(1) ly z] by (simp add: div_shift[symmetric])
qed

end
