(* ===== verification/MP_Properties.thy ===== *)
theory MP_Properties
  imports MP_Karatsuba MP_Shift MP_Misc MP_Mul
begin

text \<open>
  The properties of the word-array routines \<open>src/math/bigint/mp_*.cpp\<close>, over the lemmas of the
  \<open>MP_\<close> theories. Each is followed by an application of it to concrete operands.
\<close>

lemma mp_val_inject:
  fixes x y :: "'a::len word list"
  assumes "length x = length y" and "mp_val x = mp_val y"
  shows "x = y"
  using assms
proof (induction x y rule: list_induct2)
  case (Cons a x b y)
  have "unat a = mp_val (a # x) mod 2 ^ LENGTH('a)" and "unat b = mp_val (b # y) mod 2 ^ LENGTH('a)"
    by (simp_all add: mod_mult_self2)
  moreover have "mp_val x = mp_val (a # x) div 2 ^ LENGTH('a)" and "mp_val y = mp_val (b # y) div 2 ^ LENGTH('a)"
    by simp_all
  ultimately show ?case using Cons by (metis word_unat_eq_iff)
qed simp

lemma take_val_inject:
  fixes x y :: "'a::len word list"
  assumes "n \<le> length x" and "n \<le> length y" and "mp_val (take n x) = mp_val (take n y)"
  shows "take n x = take n y"
  using assms by (intro mp_val_inject) simp_all

text \<open>C1. Multiplication: \<open>bigint_mul\<close> leaves the product of its operands in \<open>z\<close>, whichever of the
  simple, comba, one-word and Karatsuba routines the sizes select.\<close>

theorem bigint_mul_product:
  fixes x y z ws :: "'a::len word list"
  assumes "8 \<le> LENGTH('a)"
    and "x_sw \<le> x_size" and "x_size \<le> length x" and "mp_val (take x_size x) = mp_val (take x_sw x)"
    and "y_sw \<le> y_size" and "y_size \<le> length y" and "mp_val (take y_size y) = mp_val (take y_sw y)"
    and "x_size + y_size \<le> length z" and "z_size \<le> length z" and "mp_val (drop x_sw z) = 0"
    and "x_size + y_size \<le> length ws"
  shows "length (fst (bigint_mul z z_size ws x x_size x_sw y y_size y_sw)) = length z \<and>
    mp_val (fst (bigint_mul z z_size ws x x_size x_sw y y_size y_sw)) = mp_val (take x_sw x) * mp_val (take y_sw y)"
  using assms by (intro bigint_mul_val[where ws' = "snd (bigint_mul z z_size ws x x_size x_sw y y_size y_sw)"]) simp_all

lemma bigint_mul_product_witness:
  "mp_val (fst (bigint_mul (replicate 8 0) 8 (replicate 8 0) [255, 7, 1, 0] 4 3 [254, 9, 0, 0 :: 8 word] 4 2)) =
    mp_val [255, 7, 1 :: 8 word] * mp_val [254, 9 :: 8 word]"
  using bigint_mul_product[of 3 4 "[255, 7, 1, 0 :: 8 word]" 2 4 "[254, 9, 0, 0]" "replicate 8 0" 8 "replicate 8 0"]
  by simp

text \<open>Squaring: \<open>bigint_sqr\<close> leaves the square of its operand in \<open>z\<close>, whichever routine the size selects.\<close>

theorem bigint_sqr_square:
  fixes x z ws :: "'a::len word list"
  assumes "8 \<le> LENGTH('a)"
    and "x_sw \<le> x_size" and "x_size \<le> length x" and "mp_val (take x_size x) = mp_val (take x_sw x)"
    and "2 * x_size \<le> length z" and "z_size \<le> length z" and "mp_val (drop x_sw z) = 0" and "2 * x_size \<le> length ws"
  shows "length (fst (bigint_sqr z z_size ws x x_size x_sw)) = length z \<and>
    mp_val (fst (bigint_sqr z z_size ws x x_size x_sw)) = (mp_val (take x_sw x))\<^sup>2"
  using assms by (intro bigint_sqr_val[where ws' = "snd (bigint_sqr z z_size ws x x_size x_sw)"]) simp_all

lemma bigint_sqr_square_witness:
  "mp_val (fst (bigint_sqr (replicate 8 0) 8 (replicate 8 0) [255, 7, 1, 0 :: 8 word] 4 3)) = (mp_val [255, 7, 1 :: 8 word])\<^sup>2"
  using bigint_sqr_square[of 3 4 "[255, 7, 1, 0 :: 8 word]" "replicate 8 0" 8 "replicate 8 0"]
  by simp

text \<open>C6. Karatsuba multiplication writes the same words as the quadratic routine, at every size
  and whatever the buffer and the workspace held.\<close>

theorem karatsuba_eq_simple:
  fixes x y z ws :: "'a::len word list"
  assumes "8 \<le> LENGTH('a)" and "N \<le> length x" and "N \<le> length y" and "2 * N \<le> length z" and "2 * N \<le> length ws"
  shows "fst (karatsuba_mul z x y N ws) = bigint_simple_mul z x N y N"
proof -
  obtain z' ws' where k: "karatsuba_mul z x y N ws = (z', ws')" by (rule prod.exhaust)
  have post: "mul_post z (2 * N) (mp_val (take N x) * mp_val (take N y)) z'"
    using karatsuba_mul_val[OF assms k] by simp
  have s: "length (bigint_simple_mul z x N y N) = length z"
    "drop (2 * N) (bigint_simple_mul z x N y N) = drop (2 * N) z"
    "mp_val (take (2 * N) (bigint_simple_mul z x N y N)) = mp_val (take N x) * mp_val (take N y)"
    using bigint_simple_mul_val[of N x N y z] assms by (simp_all add: mult_2)
  then have "take (2 * N) z' = take (2 * N) (bigint_simple_mul z x N y N)"
    using post assms by (intro take_val_inject) (simp_all add: mul_post_def)
  then show ?thesis
    using post s k by (metis append_take_drop_id fst_conv mul_post_def)
qed

lemma karatsuba_eq_simple_witness:
  "fst (karatsuba_mul (replicate 80 5) (replicate 40 255) (replicate 40 254) 40 (replicate 80 (9 :: 8 word))) =
    bigint_simple_mul (replicate 80 5) (replicate 40 255) 40 (replicate 40 254) 40"
  by (intro karatsuba_eq_simple) simp_all

text \<open>C7. Every comba routine writes the same words as the quadratic one.\<close>

theorem comba_eq_simple:
  fixes x y z :: "'a::len word list"
  assumes "8 \<le> LENGTH('a)" and "n \<le> length x" and "n \<le> length y" and "2 * n \<le> length z"
    and "(f, n) \<in> {(bigint_comba_mul4, 4), (bigint_comba_mul6, 6), (bigint_comba_mul8, 8), (bigint_comba_mul16, 16)}"
  shows "f z x y = bigint_simple_mul z x n y n"
proof -
  have "block_multiplier f n" using assms(5) comba_blocks[OF assms(1)] by auto
  from block_multiplier.mul_val[OF this assms(2,3,4)]
  have c: "length (f z x y) = length z" "drop (2 * n) (f z x y) = drop (2 * n) z"
    "mp_val (take (2 * n) (f z x y)) = mp_val (take n x) * mp_val (take n y)" by auto
  have s: "length (bigint_simple_mul z x n y n) = length z"
    "drop (2 * n) (bigint_simple_mul z x n y n) = drop (2 * n) z"
    "mp_val (take (2 * n) (bigint_simple_mul z x n y n)) = mp_val (take n x) * mp_val (take n y)"
    using bigint_simple_mul_val[of n x n y z] assms by (simp_all add: mult_2)
  have "take (2 * n) (f z x y) = take (2 * n) (bigint_simple_mul z x n y n)"
    using c s assms by (intro take_val_inject) simp_all
  then show ?thesis using c s by (metis append_take_drop_id)
qed

lemma comba_eq_simple_witness:
  "bigint_comba_mul6 (replicate 12 1) (replicate 6 255) (replicate 6 (254 :: 8 word)) =
    bigint_simple_mul (replicate 12 1) (replicate 6 255) 6 (replicate 6 254) 6"
  by (rule comba_eq_simple) simp_all
text \<open>C5. Montgomery reduction: with \<open>u\<close> the negated inverse of the modulus' low word and \<open>z\<close> below
  \<open>x * R\<close>, the upper half of \<open>z\<close> ends reduced below the modulus and equal to \<open>z / R\<close> modulo it.\<close>

theorem monty_redc_correct:
  fixes x z :: "'a::len word list"
  assumes "0 < n" and "n \<le> length x" and "2 * n + 1 \<le> N" and "N \<le> length z" and "u * x ! 0 = -1"
    and "mp_val (take N z) < mp_val (take n x) * (2 ^ LENGTH('a)) ^ n"
  shows "mp_val (take (n + 1) (drop n (bigint_monty_redc z N x n u))) < mp_val (take n x) \<and>
    (mp_val (take (n + 1) (drop n (bigint_monty_redc z N x n u))) * (2 ^ LENGTH('a)) ^ n) mod mp_val (take n x) =
      mp_val (take N z) mod mp_val (take n x)"
  using bigint_monty_redc_val[OF assms] by simp

lemma monty_redc_correct_witness:
  "(mp_val (take 3 (drop 2 (bigint_monty_redc [7, 5, 3, 1, 0] 5 [13, 200] 2 (59 :: 8 word)))) * 65536) mod mp_val [13, 200 :: 8 word] =
    mp_val [7, 5, 3, 1, 0 :: 8 word] mod mp_val [13, 200 :: 8 word]"
  using monty_redc_correct[of 2 "[13, 200 :: 8 word]" 5 "[7, 5, 3, 1, 0]" 59] by simp

text \<open>\<open>bigint_cmp\<close> orders word arrays of any two sizes as the numbers they stand for.\<close>

theorem bigint_cmp_order:
  fixes x y :: "'a::len word list"
  assumes "x_size \<le> length x" and "y_size \<le> length y"
  shows "bigint_cmp x x_size y y_size = sgn (int (mp_val (take x_size x)) - int (mp_val (take y_size y)))"
  using assms by (rule bigint_cmp_val)

lemma bigint_cmp_order_witness: "bigint_cmp [1, 2, 0, 0] 4 [2, 1 :: 8 word] 2 = 1"
  using bigint_cmp_order[of 4 "[1, 2, 0, 0 :: 8 word]" 2 "[2, 1]"] by simp

text \<open>The two-word division steps: quotient and remainder of \<open>n1 n0\<close> by \<open>d\<close> satisfy the division
  identity whenever the quotient fits into a word.\<close>

theorem divop_modop_euclid:
  fixes n1 n0 d :: "'a::len word"
  assumes "n1 < d"
  shows "unat (bigint_divop n1 n0 d) * unat d + unat (bigint_modop n1 n0 d) = unat n1 * 2 ^ LENGTH('a) + unat n0 \<and>
    bigint_modop n1 n0 d < d"
proof -
  have d: "d \<noteq> 0" "unat n1 < unat d" using assms by (auto simp: word_less_nat_alt)
  then show ?thesis
    by (simp add: bigint_divop_val bigint_modop_val word_less_nat_alt[of "bigint_modop n1 n0 d"] unat_gt_0)
qed

lemma divop_modop_euclid_witness:
  "unat (bigint_divop 100 7 (101 :: 8 word)) * 101 + unat (bigint_modop 100 7 (101 :: 8 word)) = 25607"
  using divop_modop_euclid[of 100 "101 :: 8 word" 7] by simp

text \<open>Adding \<open>y\<close> into \<open>x\<close> and subtracting it again restores the words of \<open>x\<close>, also when the sum carries out.\<close>

theorem add_then_sub:
  fixes x y :: "'a::len word list"
  assumes "y_size \<le> x_size" and "x_size \<le> length x" and "y_size \<le> length y"
  shows "take x_size (bigint_sub2 (fst (bigint_add2_nc x x_size y y_size)) x_size y y_size) = take x_size x"
proof -
  obtain x' c where a: "bigint_add2_nc x x_size y y_size = (x', c)" by (rule prod.exhaust)
  have v: "length x' = length x"
    "mp_val (take x_size x') + (2 ^ LENGTH('a)) ^ x_size * unat c = mp_val (take x_size x) + mp_val (take y_size y)"
    using bigint_add2_nc_val[OF assms a] by auto
  define s where "s = bigint_sub2 x' x_size y y_size"
  obtain b where s: "length s = length x"
    "mp_val (take x_size s) + mp_val (take y_size y) = mp_val (take x_size x') + (2 ^ LENGTH('a)) ^ x_size * b"
    using bigint_sub2_val[of y_size x_size x' y] assms v by (auto simp: s_def)
  have "mp_val (take x_size s) + (2 ^ LENGTH('a)) ^ x_size * unat c = mp_val (take x_size x) + (2 ^ LENGTH('a)) ^ x_size * b"
    using v s by linarith
  then have "(mp_val (take x_size s) + (2 ^ LENGTH('a)) ^ x_size * unat c) mod (2 ^ LENGTH('a)) ^ x_size =
      (mp_val (take x_size x) + (2 ^ LENGTH('a)) ^ x_size * b) mod (2 ^ LENGTH('a)) ^ x_size"
    by (rule arg_cong)
  then have "mp_val (take x_size s) = mp_val (take x_size x)"
    using mp_val_take_bound[of x_size s] mp_val_take_bound[of x_size x] by simp
  then show ?thesis using assms a s by (intro take_val_inject) (simp_all add: s_def)
qed

lemma add_then_sub_witness:
  "take 2 (bigint_sub2 (fst (bigint_add2_nc [255, 255] 2 [1] 1)) 2 [1 :: 8 word] 1) = [255, 255]"
  using add_then_sub[of 1 2 "[255, 255 :: 8 word]" "[1]"] by simp

text \<open>Shifting left by \<open>m\<close> words and \<open>s\<close> bits and back restores the number, when the array has room.\<close>

theorem shift_round_trip:
  fixes x :: "'a::len word list"
  assumes "s \<le> LENGTH('a)" and "n + m + 1 \<le> length x" and "x ! (n + m) = 0"
  shows "mp_val (take (n + m + 1) (bigint_shr1 (bigint_shl1 x n m s) (n + m + 1) m s)) = mp_val (take n x)"
proof -
  have "length (bigint_shl1 x n m s) = length x"
    "mp_val (take (n + m + 1) (bigint_shl1 x n m s)) = 2 ^ (LENGTH('a) * m + s) * mp_val (take n x)"
    using bigint_shl1_val[OF assms] by auto
  then show ?thesis using bigint_shr1_val[of s "n + m + 1" "bigint_shl1 x n m s" m] assms by simp
qed

lemma shift_round_trip_witness:
  "mp_val (take 4 (bigint_shr1 (bigint_shl1 [200, 77, 0, 0 :: 8 word] 2 1 5) 4 1 5)) = mp_val [200, 77 :: 8 word]"
  using shift_round_trip[of 5 2 1 "[200, 77, 0, 0 :: 8 word]"] by simp

end
