(* ===== verification/SecMem.thy ===== *)
theory SecMem
  imports Prelude
begin

text \<open>
  The variable length buffers (\<open>src/alloc/secmem.h\<close>, class \<open>MemoryRegion\<close>), with the
  memory primitives of \<open>src/utils/mem_ops.h\<close> and \<open>round_up\<close> of \<open>src/utils/util.cpp\<close>. A
  buffer keeps what it has allocated, a prefix of it is in use. The locale \<open>buffer\<close> states
  what clients rely on: each operation is a list operation on the contents. The rest of the
  development works on those lists (\<open>reg_create\<close>, \<open>reg_grow_to\<close>). Newly allocated memory is
  zero: both allocators of \<open>src/alloc\<close> clear what they hand out.
\<close>

section \<open>Memory primitives\<close>

definition set_mem :: "byte list \<Rightarrow> nat \<Rightarrow> byte \<Rightarrow> byte list" where
  "set_mem xs n v = replicate n v @ drop n xs"

definition same_mem :: "'a list \<Rightarrow> 'a list \<Rightarrow> nat \<Rightarrow> bool" where
  "same_mem p1 p2 n = for_up 0 n (\<lambda>i is_same. is_same \<and> p1 ! i = p2 ! i) True"

definition round_up :: "nat \<Rightarrow> nat \<Rightarrow> nat" where
  "round_up n align_to = (if n mod align_to \<noteq> 0 \<or> n = 0 then n + (align_to - n mod align_to) else n)"

definition round_down :: "nat \<Rightarrow> nat \<Rightarrow> nat" where
  "round_down n align_to = n - n mod align_to"

lemma same_mem_take: "n \<le> length p1 \<Longrightarrow> n \<le> length p2 \<Longrightarrow> same_mem p1 p2 n \<longleftrightarrow> take n p1 = take n p2"
  unfolding same_mem_def
proof (induction n)
  case (Suc n)
  then show ?case by (auto simp: for_up_Suc take_Suc_conv_app_nth)
qed simp

lemma round_up_mult:
  assumes "0 < a"
  shows "round_up n a = (if n = 0 then a else if n mod a = 0 then n else a * (n div a) + a)"
proof -
  have "n = a * (n div a) + n mod a" "n mod a < a" using assms by simp_all
  then have "n + (a - n mod a) = a * (n div a) + a" by linarith
  then show ?thesis by (simp add: round_up_def)
qed

lemma round_up_ge: "n \<le> round_up n a"
  by (simp add: round_up_def)

lemma round_up_dvd: "0 < a \<Longrightarrow> a dvd round_up n a"
  by (auto simp: round_up_mult)

lemma round_up_pos: "0 < a \<Longrightarrow> 0 < round_up n a"
  by (auto simp: round_up_mult)

section \<open>The buffer\<close>

record 'a MemoryRegion =
  buf :: "'a list"
  used :: nat

definition allocated :: "'a MemoryRegion \<Rightarrow> nat" where
  "allocated r = length (buf r)"

definition allocate :: "nat \<Rightarrow> 'a::zero list" where
  "allocate n = replicate n 0"

definition mr_empty :: "'a MemoryRegion" where
  "mr_empty = \<lparr>buf = [], used = 0\<rparr>"

definition mr_size :: "'a MemoryRegion \<Rightarrow> nat" where
  "mr_size r = used r"

definition mr_clear :: "'a::zero MemoryRegion \<Rightarrow> 'a MemoryRegion" where
  "mr_clear r = r\<lparr>buf := clear_mem (buf r) (allocated r)\<rparr>"

definition mr_create :: "'a::zero MemoryRegion \<Rightarrow> nat \<Rightarrow> 'a MemoryRegion" where
  "mr_create r n =
     (if n \<le> allocated r then (mr_clear r)\<lparr>used := n\<rparr>
      else \<lparr>buf = allocate n, used = n\<rparr>)"

definition mr_grow_to :: "'a::zero MemoryRegion \<Rightarrow> nat \<Rightarrow> 'a MemoryRegion" where
  "mr_grow_to r n =
     (if n > used r \<and> n \<le> allocated r
      then r\<lparr>buf := at_ptr (used r) (\<lambda>p. clear_mem p (n - used r)) (buf r), used := n\<rparr>
      else if n > allocated r
      then \<lparr>buf = copy_mem (allocate n) (buf r) (used r), used = n\<rparr>
      else r)"

definition mr_copy :: "'a MemoryRegion \<Rightarrow> nat \<Rightarrow> 'a list \<Rightarrow> nat \<Rightarrow> 'a MemoryRegion" where
  "mr_copy r off inp n =
     r\<lparr>buf := at_ptr off (\<lambda>p. copy_mem p inp (if n > used r - off then used r - off else n)) (buf r)\<rparr>"

definition mr_set :: "'a::zero MemoryRegion \<Rightarrow> 'a list \<Rightarrow> nat \<Rightarrow> 'a MemoryRegion" where
  "mr_set r inp n = mr_copy (mr_create r n) 0 inp n"

definition mr_append :: "'a::zero MemoryRegion \<Rightarrow> 'a list \<Rightarrow> nat \<Rightarrow> 'a MemoryRegion" where
  "mr_append r inp n = (let r = mr_grow_to r (mr_size r + n) in mr_copy r (mr_size r - n) inp n)"

definition mr_equal :: "'a MemoryRegion \<Rightarrow> 'a MemoryRegion \<Rightarrow> bool" where
  "mr_equal a b = (mr_size a = mr_size b \<and> same_mem (buf a) (buf b) (mr_size a))"

text \<open>The loop of \<open>operator<\<close>: \<open>Some\<close> is a return inside it.\<close>

fun less_loop :: "'a::linorder list \<Rightarrow> 'a list \<Rightarrow> nat \<Rightarrow> nat \<Rightarrow> bool" where
  "less_loop x y j 0 = False"
| "less_loop x y j (Suc n) =
     (if x ! j < y ! j then True else if x ! j > y ! j then False else less_loop x y (Suc j) n)"

definition mr_less :: "'a::linorder MemoryRegion \<Rightarrow> 'a MemoryRegion \<Rightarrow> bool" where
  "mr_less a b =
     (if mr_size a < mr_size b then True else if mr_size a > mr_size b then False
      else less_loop (buf a) (buf b) 0 (mr_size a))"

section \<open>Contents\<close>

definition contents :: "'a MemoryRegion \<Rightarrow> 'a list" where
  "contents r = take (used r) (buf r)"

definition mr_wf :: "'a MemoryRegion \<Rightarrow> bool" where
  "mr_wf r \<longleftrightarrow> used r \<le> length (buf r)"

definition reg_create :: "nat \<Rightarrow> 'a::zero list" where
  "reg_create n = replicate n 0"

definition reg_grow_to :: "'a::zero list \<Rightarrow> nat \<Rightarrow> 'a list" where
  "reg_grow_to xs n = (if n > length xs then xs @ replicate (n - length xs) 0 else xs)"

definition reg_clear :: "'a::zero list \<Rightarrow> 'a list" where
  "reg_clear xs = replicate (length xs) 0"

definition reg_copy :: "'a list \<Rightarrow> nat \<Rightarrow> 'a list \<Rightarrow> nat \<Rightarrow> 'a list" where
  "reg_copy xs off inp n = at_ptr off (\<lambda>p. copy_mem p inp (if n > length xs - off then length xs - off else n)) xs"

lemma length_reg_create [simp, size_simps]: "length (reg_create n) = n"
  by (simp add: reg_create_def)

lemma length_reg_grow_to [simp, size_simps]: "length (reg_grow_to xs n) = max n (length xs)"
  by (simp add: reg_grow_to_def max_def)

lemma length_reg_clear [simp, size_simps]: "length (reg_clear xs) = length xs"
  by (simp add: reg_clear_def)

text \<open>What a client of a buffer relies on.\<close>

locale buffer =
  fixes cont :: "'b \<Rightarrow> 'a::zero list" and wf :: "'b \<Rightarrow> bool"
    and create :: "'b \<Rightarrow> nat \<Rightarrow> 'b" and grow :: "'b \<Rightarrow> nat \<Rightarrow> 'b" and clear :: "'b \<Rightarrow> 'b"
    and set_to :: "'b \<Rightarrow> 'a list \<Rightarrow> nat \<Rightarrow> 'b" and append_to :: "'b \<Rightarrow> 'a list \<Rightarrow> nat \<Rightarrow> 'b"
  assumes create: "wf r \<Longrightarrow> wf (create r n) \<and> cont (create r n) = reg_create n"
    and grow: "wf r \<Longrightarrow> wf (grow r n) \<and> cont (grow r n) = reg_grow_to (cont r) n"
    and clear: "wf r \<Longrightarrow> wf (clear r) \<and> cont (clear r) = reg_clear (cont r)"
    and set_to: "wf r \<Longrightarrow> n \<le> length xs \<Longrightarrow> wf (set_to r xs n) \<and> cont (set_to r xs n) = take n xs"
    and append_to: "wf r \<Longrightarrow> n \<le> length xs \<Longrightarrow> wf (append_to r xs n) \<and> cont (append_to r xs n) = cont r @ take n xs"
begin

text \<open>A sequence of appends concatenates.\<close>

lemma fold_append:
  assumes "wf r"
  shows "wf (fold (\<lambda>x r. append_to r x (length x)) xss r) \<and>
    cont (fold (\<lambda>x r. append_to r x (length x)) xss r) = cont r @ concat xss"
  using assms by (induction xss arbitrary: r) (simp_all add: append_to)

lemma set_then_append: "wf r \<Longrightarrow> cont (append_to (set_to r xs (length xs)) ys (length ys)) = xs @ ys"
  by (simp add: set_to append_to)

end

lemma mr_copy_contents:
  assumes "mr_wf r" and "off + n \<le> used r" and "n \<le> length inp"
  shows "mr_wf (mr_copy r off inp n) \<and> used (mr_copy r off inp n) = used r \<and>
    contents (mr_copy r off inp n) = take off (contents r) @ take n inp @ drop (off + n) (contents r)"
  using assms by (auto simp: mr_copy_def mr_wf_def contents_def at_ptr_def copy_mem_def min_def drop_take add.commute)

interpretation memory_region: buffer contents mr_wf mr_create mr_grow_to mr_clear mr_set mr_append
proof
  fix r :: "'a::zero MemoryRegion" and n and xs :: "'a list"
  assume wf: "mr_wf r"
  show "mr_wf (mr_clear r) \<and> contents (mr_clear r) = reg_clear (contents r)"
    using wf by (simp add: mr_wf_def contents_def mr_clear_def reg_clear_def clear_mem_def allocated_def)
  show c: "mr_wf (mr_create r n) \<and> contents (mr_create r n) = reg_create n" for n
    using wf by (simp add: mr_wf_def contents_def mr_create_def mr_clear_def reg_create_def clear_mem_def
      allocated_def allocate_def)
  show g: "mr_wf (mr_grow_to r n) \<and> contents (mr_grow_to r n) = reg_grow_to (contents r) n" for n
    using wf by (auto simp: mr_wf_def contents_def mr_grow_to_def reg_grow_to_def clear_mem_def copy_mem_def
      allocated_def allocate_def at_ptr_def min_def)
  assume n: "n \<le> length xs"
  have "used (mr_create r n) = n" by (simp add: mr_create_def)
  then show "mr_wf (mr_set r xs n) \<and> contents (mr_set r xs n) = take n xs"
    using mr_copy_contents[of "mr_create r n" 0 n xs] c[of n] n by (simp add: mr_set_def reg_create_def)
  have u: "used (mr_grow_to r (used r + n)) = used r + n"
    using wf by (auto simp: mr_grow_to_def mr_wf_def allocated_def)
  have l: "length (contents r) = used r" using wf by (simp add: contents_def mr_wf_def)
  then show "mr_wf (mr_append r xs n) \<and> contents (mr_append r xs n) = contents r @ take n xs"
    using mr_copy_contents[of "mr_grow_to r (used r + n)" "used r" n xs] g[of "used r + n"] u n
    by (auto simp: mr_append_def mr_size_def Let_def reg_grow_to_def)
qed

lemma mr_copy_reg:
  assumes "mr_wf r" and "off \<le> used r" and "n \<le> length inp"
  shows "contents (mr_copy r off inp n) = reg_copy (contents r) off inp n"
proof -
  define m where "m = (if n > used r - off then used r - off else n)"
  have m: "off + m \<le> used r" "m \<le> length inp" using assms(2,3) by (auto simp: m_def)
  have l: "length (contents r) = used r" using assms(1) by (simp add: contents_def mr_wf_def)
  have "mr_copy r off inp n = mr_copy r off inp m" using m(1) by (simp add: mr_copy_def m_def)
  moreover have "reg_copy (contents r) off inp n = take off (contents r) @ take m inp @ drop (off + m) (contents r)"
    unfolding reg_copy_def at_ptr_def copy_mem_def l m_def[symmetric] by (simp add: add.commute)
  ultimately show ?thesis using mr_copy_contents[OF assms(1) m] by simp
qed

lemma mr_equal_contents: "mr_wf a \<Longrightarrow> mr_wf b \<Longrightarrow> mr_equal a b \<longleftrightarrow> contents a = contents b"
proof -
  assume wf: "mr_wf a" "mr_wf b"
  then have "length (contents a) = used a" "length (contents b) = used b" by (simp_all add: mr_wf_def contents_def)
  moreover have "mr_equal a b \<longleftrightarrow> used a = used b \<and> contents a = contents b"
    using wf by (auto simp: mr_equal_def mr_size_def mr_wf_def contents_def same_mem_take)
  ultimately show ?thesis by auto
qed

end
