(* ===== verification/LoadStore.thy ===== *)
theory LoadStore
  imports Prelude
begin

text \<open>
  Byte order and word utilities: \<open>src/utils/loadstor.h\<close>, \<open>bswap.h\<close>, \<open>rotate.h\<close>,
  \<open>bit_ops.h\<close> and \<open>xor_buf.h\<close>. The portable branches are modelled (the
  \<open>BOTAN_TARGET_UNALIGNED_LOADSTOR_OK\<close> ones are the same functions on the matching hardware).
  \<open>sizeof(T)\<close> is \<open>LENGTH('a) div 8\<close>.
\<close>

section \<open>Definitions\<close>

abbreviation word_bytes :: "'a::len itself \<Rightarrow> nat" where
  "word_bytes T \<equiv> LENGTH('a) div 8"

definition rotate_left :: "'a::len word \<Rightarrow> nat \<Rightarrow> 'a word" where
  "rotate_left input rot = push_bit rot input OR drop_bit (LENGTH('a) - rot) input"

definition rotate_right :: "'a::len word \<Rightarrow> nat \<Rightarrow> 'a word" where
  "rotate_right input rot = drop_bit rot input OR push_bit (LENGTH('a) - rot) input"

definition get_byte :: "nat \<Rightarrow> 'a::len word \<Rightarrow> byte" where
  "get_byte byte_num input =
     ucast (drop_bit (8 * (LENGTH('a) div 8 - 1 - (byte_num AND (LENGTH('a) div 8 - 1)))) input)"

definition make_u16bit :: "byte \<Rightarrow> byte \<Rightarrow> u16bit" where
  "make_u16bit i0 i1 = push_bit 8 (ucast i0) OR ucast i1"

definition make_u32bit :: "byte \<Rightarrow> byte \<Rightarrow> byte \<Rightarrow> byte \<Rightarrow> u32bit" where
  "make_u32bit i0 i1 i2 i3 = push_bit 24 (ucast i0) OR push_bit 16 (ucast i1) OR push_bit 8 (ucast i2) OR ucast i3"

definition make_u64bit :: "byte \<Rightarrow> byte \<Rightarrow> byte \<Rightarrow> byte \<Rightarrow> byte \<Rightarrow> byte \<Rightarrow> byte \<Rightarrow> byte \<Rightarrow> u64bit" where
  "make_u64bit i0 i1 i2 i3 i4 i5 i6 i7 =
     push_bit 56 (ucast i0) OR push_bit 48 (ucast i1) OR push_bit 40 (ucast i2) OR push_bit 32 (ucast i3) OR
     push_bit 24 (ucast i4) OR push_bit 16 (ucast i5) OR push_bit 8 (ucast i6) OR ucast i7"

text \<open>The generic templates \<open>load_be<T>\<close>, \<open>load_le<T>\<close>, and their three specialisations.\<close>

definition load_be :: "byte list \<Rightarrow> nat \<Rightarrow> 'a::len word" where
  "load_be inp off =
     (let inp = drop (off * (LENGTH('a) div 8)) inp
      in for_up 0 (LENGTH('a) div 8) (\<lambda>j out. push_bit 8 out OR ucast (inp ! j)) 0)"

definition load_le :: "byte list \<Rightarrow> nat \<Rightarrow> 'a::len word" where
  "load_le inp off =
     (let inp = drop (off * (LENGTH('a) div 8)) inp
      in for_up 0 (LENGTH('a) div 8) (\<lambda>j out. push_bit 8 out OR ucast (inp ! (LENGTH('a) div 8 - 1 - j))) 0)"

definition load_be_u16 :: "byte list \<Rightarrow> nat \<Rightarrow> u16bit" where
  "load_be_u16 inp off = (let inp = drop (off * 2) inp in make_u16bit (inp ! 0) (inp ! 1))"

definition load_le_u16 :: "byte list \<Rightarrow> nat \<Rightarrow> u16bit" where
  "load_le_u16 inp off = (let inp = drop (off * 2) inp in make_u16bit (inp ! 1) (inp ! 0))"

definition load_be_u32 :: "byte list \<Rightarrow> nat \<Rightarrow> u32bit" where
  "load_be_u32 inp off =
     (let inp = drop (off * 4) inp in make_u32bit (inp ! 0) (inp ! 1) (inp ! 2) (inp ! 3))"

definition load_le_u32 :: "byte list \<Rightarrow> nat \<Rightarrow> u32bit" where
  "load_le_u32 inp off =
     (let inp = drop (off * 4) inp in make_u32bit (inp ! 3) (inp ! 2) (inp ! 1) (inp ! 0))"

definition load_be_u64 :: "byte list \<Rightarrow> nat \<Rightarrow> u64bit" where
  "load_be_u64 inp off =
     (let inp = drop (off * 8) inp
      in make_u64bit (inp ! 0) (inp ! 1) (inp ! 2) (inp ! 3) (inp ! 4) (inp ! 5) (inp ! 6) (inp ! 7))"

definition load_le_u64 :: "byte list \<Rightarrow> nat \<Rightarrow> u64bit" where
  "load_le_u64 inp off =
     (let inp = drop (off * 8) inp
      in make_u64bit (inp ! 7) (inp ! 6) (inp ! 5) (inp ! 4) (inp ! 3) (inp ! 2) (inp ! 1) (inp ! 0))"

text \<open>The stores return the bytes written.\<close>

definition store_be_u16 :: "u16bit \<Rightarrow> byte list" where
  "store_be_u16 inp = [get_byte 0 inp, get_byte 1 inp]"

definition store_le_u16 :: "u16bit \<Rightarrow> byte list" where
  "store_le_u16 inp = [get_byte 1 inp, get_byte 0 inp]"

definition store_be_u32 :: "u32bit \<Rightarrow> byte list" where
  "store_be_u32 inp = [get_byte 0 inp, get_byte 1 inp, get_byte 2 inp, get_byte 3 inp]"

definition store_le_u32 :: "u32bit \<Rightarrow> byte list" where
  "store_le_u32 inp = [get_byte 3 inp, get_byte 2 inp, get_byte 1 inp, get_byte 0 inp]"

definition store_be_u64 :: "u64bit \<Rightarrow> byte list" where
  "store_be_u64 inp = [get_byte 0 inp, get_byte 1 inp, get_byte 2 inp, get_byte 3 inp,
     get_byte 4 inp, get_byte 5 inp, get_byte 6 inp, get_byte 7 inp]"

definition store_le_u64 :: "u64bit \<Rightarrow> byte list" where
  "store_le_u64 inp = [get_byte 7 inp, get_byte 6 inp, get_byte 5 inp, get_byte 4 inp,
     get_byte 3 inp, get_byte 2 inp, get_byte 1 inp, get_byte 0 inp]"

definition reverse_bytes_u16 :: "u16bit \<Rightarrow> u16bit" where
  "reverse_bytes_u16 input = rotate_left input 8"

definition reverse_bytes_u32 :: "u32bit \<Rightarrow> u32bit" where
  "reverse_bytes_u32 input =
     (let input = drop_bit 8 (input AND 0xFF00FF00) OR push_bit 8 (input AND 0x00FF00FF)
      in rotate_left input 16)"

definition reverse_bytes_u64 :: "u64bit \<Rightarrow> u64bit" where
  "reverse_bytes_u64 input =
     (let hi = (ucast (drop_bit 40 input AND 0x00FF00FF OR drop_bit 24 input AND 0xFF00FF00) :: u32bit);
          lo = (ucast (drop_bit 8 (input AND 0xFF00FF00) OR push_bit 8 (input AND 0x00FF00FF)) :: u32bit);
          hi = push_bit 16 hi OR drop_bit 16 hi;
          lo = push_bit 16 lo OR drop_bit 16 lo
      in push_bit 32 (ucast lo) OR ucast hi)"

subsection \<open>Bit operations\<close>

definition power_of_2 :: "'a::len word \<Rightarrow> bool" where
  "power_of_2 arg = ((arg \<noteq> 0 \<and> arg \<noteq> 1) \<and> arg AND (arg - 1) = 0)"

fun high_bit_loop :: "'a::len word \<Rightarrow> nat \<Rightarrow> nat" where
  "high_bit_loop n 0 = 0"
| "high_bit_loop n (Suc i) = (if drop_bit i n AND 1 \<noteq> 0 then Suc i else high_bit_loop n i)"

definition high_bit :: "'a::len word \<Rightarrow> nat" where
  "high_bit n = high_bit_loop n (8 * (LENGTH('a) div 8))"

text \<open>The upward loops with a return in them, as a search from \<open>i\<close> with \<open>m\<close> rounds left.\<close>

fun low_bit_loop :: "'a::len word \<Rightarrow> nat \<Rightarrow> nat \<Rightarrow> nat option" where
  "low_bit_loop n i 0 = None"
| "low_bit_loop n i (Suc m) = (if drop_bit i n AND 1 \<noteq> 0 then Some i else low_bit_loop n (Suc i) m)"

definition low_bit :: "'a::len word \<Rightarrow> nat" where
  "low_bit n = (case low_bit_loop n 0 (8 * (LENGTH('a) div 8)) of Some i \<Rightarrow> i + 1 | None \<Rightarrow> 0)"

definition ctz :: "'a::len word \<Rightarrow> nat" where
  "ctz n = (case low_bit_loop n 0 (8 * (LENGTH('a) div 8)) of Some i \<Rightarrow> i | None \<Rightarrow> 8 * (LENGTH('a) div 8))"

fun significant_bytes_loop :: "'a::len word \<Rightarrow> nat \<Rightarrow> nat \<Rightarrow> nat" where
  "significant_bytes_loop n j 0 = 0"
| "significant_bytes_loop n j (Suc m) =
     (if get_byte j n \<noteq> 0 then LENGTH('a) div 8 - j else significant_bytes_loop n (Suc j) m)"

definition significant_bytes :: "'a::len word \<Rightarrow> nat" where
  "significant_bytes n = significant_bytes_loop n 0 (LENGTH('a) div 8)"

definition NIBBLE_WEIGHTS :: "nat list" where
  "NIBBLE_WEIGHTS = [0, 1, 1, 2, 1, 2, 2, 3, 1, 2, 2, 3, 2, 3, 3, 4]"

definition hamming_weight :: "'a::len word \<Rightarrow> nat" where
  "hamming_weight n =
     for_up 0 (2 * (LENGTH('a) div 8)) (\<lambda>i weight. weight + NIBBLE_WEIGHTS ! unat (drop_bit (4 * i) n AND 0x0F)) 0"

subsection \<open>XOR of buffers\<close>

text \<open>One block of the unrolled loop at the current pointers, then the pointers move on.\<close>

definition xor8 :: "byte list \<Rightarrow> byte list \<Rightarrow> byte list" where
  "xor8 out inp =
     out[0 := out ! 0 XOR inp ! 0, 1 := out ! 1 XOR inp ! 1, 2 := out ! 2 XOR inp ! 2, 3 := out ! 3 XOR inp ! 3,
         4 := out ! 4 XOR inp ! 4, 5 := out ! 5 XOR inp ! 5, 6 := out ! 6 XOR inp ! 6, 7 := out ! 7 XOR inp ! 7]"

function xor_buf :: "byte list \<Rightarrow> byte list \<Rightarrow> nat \<Rightarrow> byte list" where
  "xor_buf out inp n =
     (if n \<ge> 8 then let out = xor8 out inp in take 8 out @ xor_buf (drop 8 out) (drop 8 inp) (n - 8)
      else for_up 0 n (\<lambda>j out. out[j := out ! j XOR inp ! j]) out)"
  by pat_completeness auto
termination
  by (relation "measure (\<lambda>(out, inp, n). n)") auto

declare xor_buf.simps [simp del]

definition xor8_3 :: "byte list \<Rightarrow> byte list \<Rightarrow> byte list \<Rightarrow> byte list" where
  "xor8_3 out inp inp2 =
     out[0 := inp ! 0 XOR inp2 ! 0, 1 := inp ! 1 XOR inp2 ! 1, 2 := inp ! 2 XOR inp2 ! 2, 3 := inp ! 3 XOR inp2 ! 3,
         4 := inp ! 4 XOR inp2 ! 4, 5 := inp ! 5 XOR inp2 ! 5, 6 := inp ! 6 XOR inp2 ! 6, 7 := inp ! 7 XOR inp2 ! 7]"

function xor_buf3 :: "byte list \<Rightarrow> byte list \<Rightarrow> byte list \<Rightarrow> nat \<Rightarrow> byte list" where
  "xor_buf3 out inp inp2 n =
     (if n \<ge> 8
      then let out = xor8_3 out inp inp2 in take 8 out @ xor_buf3 (drop 8 out) (drop 8 inp) (drop 8 inp2) (n - 8)
      else for_up 0 n (\<lambda>j out. out[j := inp ! j XOR inp2 ! j]) out)"
  by pat_completeness auto
termination
  by (relation "measure (\<lambda>(out, inp, inp2, n). n)") auto

declare xor_buf3.simps [simp del]

section \<open>XOR of buffers is pointwise\<close>

lemma upd_loop_map:
  assumes "n \<le> length out" and "\<And>j v. f j v = (if j < length out then v[j := g j (v ! j)] else f j v)"
  shows "for_up 0 n f out = map (\<lambda>j. g j (out ! j)) [0..<n] @ drop n out"
  using assms(1)
proof (induction n)
  case (Suc n)
  let ?l = "map (\<lambda>j. g j (out ! j)) [0..<n]"
  have "for_up 0 (Suc n) f out = f n (?l @ drop n out)" using Suc by (simp add: for_up_Suc)
  also have "\<dots> = (?l @ drop n out)[n := g n ((?l @ drop n out) ! n)]"
    using assms(2)[of n] Suc.prems by simp
  also have "\<dots> = ?l @ (drop n out)[0 := g n (out ! n)]" using Suc.prems by (simp add: nth_append list_update_append)
  also have "(drop n out)[0 := g n (out ! n)] = g n (out ! n) # drop (Suc n) out"
    using Suc.prems Cons_nth_drop_Suc[of n out] by (metis Suc_le_lessD list_update_code(2))
  finally show ?case by simp
qed simp

lemma for_up_8: "for_up 0 8 f s = f 7 (f 6 (f 5 (f 4 (f 3 (f 2 (f 1 (f 0 s)))))))"
proof -
  have "[0..<8] = [0, 1, 2, 3, 4, 5, 6, 7]" by (simp add: upt_rec)
  then show ?thesis by (simp only: for_up_def fold.simps comp_apply id_apply)
qed

lemma xor8_val: "8 \<le> length out \<Longrightarrow> xor8 out inp = map (\<lambda>j. out ! j XOR inp ! j) [0..<8] @ drop 8 out"
  using upd_loop_map[of 8 out "\<lambda>j out. out[j := out ! j XOR inp ! j]" "\<lambda>j o'. o' XOR inp ! j"]
  by (simp add: for_up_8 xor8_def)

lemma xor8_3_val: "8 \<le> length out \<Longrightarrow> xor8_3 out inp inp2 = map (\<lambda>j. inp ! j XOR inp2 ! j) [0..<8] @ drop 8 out"
  using upd_loop_map[of 8 out "\<lambda>j out. out[j := inp ! j XOR inp2 ! j]" "\<lambda>j o'. inp ! j XOR inp2 ! j"]
  by (simp add: for_up_8 xor8_3_def)

lemma map_upt_split: "k \<le> n \<Longrightarrow> map f [0..<n] = map f [0..<k] @ map (\<lambda>j. f (k + j)) [0..<n - k]"
proof -
  assume "k \<le> n"
  then have "[0..<n] = [0..<k] @ map (\<lambda>j. k + j) [0..<n - k]"
    using upt_add_eq_append[of 0 k "n - k"] map_add_upt[of k "n - k"] by (simp add: add.commute)
  then show ?thesis by simp
qed

lemma xor_buf_val:
  "n \<le> length out \<Longrightarrow> n \<le> length inp \<Longrightarrow>
    xor_buf out inp n = map (\<lambda>j. out ! j XOR inp ! j) [0..<n] @ drop n out"
proof (induction out inp n rule: xor_buf.induct)
  case (1 out inp n)
  show ?case
  proof (cases "n \<ge> 8")
    case True
    then have l: "8 \<le> length out" "8 \<le> length inp" using 1 by simp_all
    have "xor_buf out inp n = map (\<lambda>j. out ! j XOR inp ! j) [0..<8] @ xor_buf (drop 8 out) (drop 8 inp) (n - 8)"
      using True xor8_val[OF l(1), of inp] by (simp add: xor_buf.simps[of out inp n] Let_def)
    also have "xor_buf (drop 8 out) (drop 8 inp) (n - 8) =
        map (\<lambda>j. drop 8 out ! j XOR drop 8 inp ! j) [0..<n - 8] @ drop (n - 8) (drop 8 out)"
      using 1 True xor8_val[OF l(1), of inp] by simp
    finally show ?thesis
      using map_upt_split[OF True, of "\<lambda>j. out ! j XOR inp ! j"] True l by simp
  next
    case False
    then show ?thesis
      using upd_loop_map[of n out "\<lambda>j out. out[j := out ! j XOR inp ! j]" "\<lambda>j o'. o' XOR inp ! j"] 1
      by (simp add: xor_buf.simps[of out inp n])
  qed
qed

lemma xor_buf3_val:
  "n \<le> length out \<Longrightarrow> n \<le> length inp \<Longrightarrow> n \<le> length inp2 \<Longrightarrow>
    xor_buf3 out inp inp2 n = map (\<lambda>j. inp ! j XOR inp2 ! j) [0..<n] @ drop n out"
proof (induction out inp inp2 n rule: xor_buf3.induct)
  case (1 out inp inp2 n)
  show ?case
  proof (cases "n \<ge> 8")
    case True
    then have l: "8 \<le> length out" "8 \<le> length inp" "8 \<le> length inp2" using 1 by simp_all
    have "xor_buf3 out inp inp2 n = map (\<lambda>j. inp ! j XOR inp2 ! j) [0..<8] @ xor_buf3 (drop 8 out) (drop 8 inp) (drop 8 inp2) (n - 8)"
      using True xor8_3_val[OF l(1), of inp inp2] by (simp add: xor_buf3.simps[of out inp inp2 n] Let_def)
    also have "xor_buf3 (drop 8 out) (drop 8 inp) (drop 8 inp2) (n - 8) =
        map (\<lambda>j. drop 8 inp ! j XOR drop 8 inp2 ! j) [0..<n - 8] @ drop (n - 8) (drop 8 out)"
      using 1 True xor8_3_val[OF l(1), of inp inp2] by simp
    finally show ?thesis
      using map_upt_split[OF True, of "\<lambda>j. inp ! j XOR inp2 ! j"] True l by simp
  next
    case False
    then show ?thesis
      using upd_loop_map[of n out "\<lambda>j out. out[j := inp ! j XOR inp2 ! j]" "\<lambda>j o'. inp ! j XOR inp2 ! j"] 1
      by (simp add: xor_buf3.simps[of out inp inp2 n])
  qed
qed

section \<open>Loads, stores, byte order\<close>

lemma get_byte_simps:
  "get_byte 0 (x :: u16bit) = ucast (drop_bit 8 x)" "get_byte (Suc 0) (x :: u16bit) = ucast x"
  "get_byte 0 (y :: u32bit) = ucast (drop_bit 24 y)" "get_byte (Suc 0) (y :: u32bit) = ucast (drop_bit 16 y)"
  "get_byte 2 (y :: u32bit) = ucast (drop_bit 8 y)" "get_byte 3 (y :: u32bit) = ucast y"
  "get_byte 0 (z :: u64bit) = ucast (drop_bit 56 z)" "get_byte (Suc 0) (z :: u64bit) = ucast (drop_bit 48 z)"
  "get_byte 2 (z :: u64bit) = ucast (drop_bit 40 z)" "get_byte 3 (z :: u64bit) = ucast (drop_bit 32 z)"
  "get_byte 4 (z :: u64bit) = ucast (drop_bit 24 z)" "get_byte 5 (z :: u64bit) = ucast (drop_bit 16 z)"
  "get_byte 6 (z :: u64bit) = ucast (drop_bit 8 z)" "get_byte 7 (z :: u64bit) = ucast z"
  by (simp_all add: get_byte_def)

text \<open>A word is put together from its bytes, one more at a time.\<close>

lemma byte_join: "push_bit k (take_bit 8 (drop_bit k x)) OR take_bit k x = take_bit (k + 8) (x :: 'a::len word)"
proof (rule bit_word_eqI)
  fix n assume "n < LENGTH('a)"
  then show "bit (push_bit k (take_bit 8 (drop_bit k x)) OR take_bit k x) n = bit (take_bit (k + 8) x) n"
    by (cases "k \<le> n") (auto simp: bit_simps)
qed

lemma take_bit_full: "LENGTH('a) \<le> k \<Longrightarrow> take_bit k x = (x :: 'a::len word)"
  by (rule take_bit_word_eq_self)

lemma ucast_ucast_byte: "8 \<le> LENGTH('a) \<Longrightarrow> ucast (ucast x :: byte) = take_bit 8 (x :: 'a::len word)"
  by (rule bit_word_eqI) (auto simp: bit_simps)

lemmas byte_joins = or.assoc ucast_ucast_byte byte_join[of 8, simplified] byte_join[of 16, simplified]
  byte_join[of 24, simplified] byte_join[of 32, simplified] byte_join[of 40, simplified] byte_join[of 48, simplified]
  byte_join[of 56, simplified] take_bit_full

lemma load_store_u16: "load_be_u16 (store_be_u16 x) 0 = x" "load_le_u16 (store_le_u16 x) 0 = x"
  by (simp_all add: load_be_u16_def load_le_u16_def store_be_u16_def store_le_u16_def make_u16bit_def get_byte_simps byte_joins)

lemma load_store_u32: "load_be_u32 (store_be_u32 x) 0 = x" "load_le_u32 (store_le_u32 x) 0 = x"
  by (simp_all add: load_be_u32_def load_le_u32_def store_be_u32_def store_le_u32_def make_u32bit_def get_byte_simps byte_joins)

lemma load_store_u64: "load_be_u64 (store_be_u64 x) 0 = x" "load_le_u64 (store_le_u64 x) 0 = x"
  by (simp_all add: load_be_u64_def load_le_u64_def store_be_u64_def store_le_u64_def make_u64bit_def get_byte_simps byte_joins)

section \<open>Big-endian values\<close>

text \<open>The number a string of bytes is, most significant byte first.\<close>

primrec be_val :: "byte list \<Rightarrow> nat" where
  "be_val [] = 0"
| "be_val (b # bs) = unat b * 256 ^ length bs + be_val bs"

lemma be_val_append: "be_val (xs @ ys) = be_val xs * 256 ^ length ys + be_val ys"
  by (induction xs) (simp_all add: power_add algebra_simps)

lemma be_val_bound: "be_val xs < 256 ^ length xs"
proof (induction xs)
  case (Cons b bs)
  have "unat b * 256 ^ length bs \<le> 255 * 256 ^ length bs"
    using unat_less_base[of b] by (intro mult_le_mono1) simp
  then have "unat b * 256 ^ length bs + be_val bs < 255 * 256 ^ length bs + 256 ^ length bs"
    using Cons by linarith
  then show ?case by simp
qed simp

end
