(* ===== verification/Exceptn.thy ===== *)
theory Exceptn
  imports Main
begin

text \<open>
  The exceptions of \<open>src/utils/exceptn.h\<close> the modelled code throws, with the arguments of
  their constructors. A function that may throw returns a sum with the exception on the left.
\<close>

datatype botan_error =
    Exception string
  | DivideByZero
  | Invalid_Argument string
  | Invalid_Key_Length string nat
  | Invalid_Block_Size string string
  | Invalid_IV_Length string nat
  | Invalid_State string
  | Encoding_Error string
  | Decoding_Error string
  | Invalid_OID string
  | Integrity_Failure string
  | Internal_Error string
  | Format_Error string
  | std_out_of_range
  | Invalid_Algorithm_Name string

end
