(* ===== verification/BigInt.thy ===== *)
theory BigInt
  imports MP_Karatsuba MP_Shift SecMem LoadStore Exceptn
begin

text \<open>
  Class \<open>BigInt\<close>: construction, size and sign queries, bit access, comparison
  (\<open>src/math/bigint/bigint.h\<close>, \<open>bigint.cpp\<close>). A number is a register of words, least
  significant first, and a sign. Its value is \<open>bigint_val\<close>. The word width \<open>MP_WORD_BITS\<close>
  is \<open>LENGTH('a)\<close>; where bytes matter it is a multiple of eight. Exceptions are the left
  of a sum.
\<close>

section \<open>Data\<close>

datatype Sign = Negative | Positive

record 'w BigInt =
  reg :: "'w list"
  signedness :: Sign

section \<open>Queries\<close>

text \<open>\<open>while (sig && x[sig-1] == 0) sig--;\<close>\<close>

fun sig_words_loop :: "'a::len word list \<Rightarrow> nat \<Rightarrow> nat" where
  "sig_words_loop x 0 = 0"
| "sig_words_loop x (Suc sig) = (if x ! sig = 0 then sig_words_loop x sig else Suc sig)"

definition size_of :: "'a::len word BigInt \<Rightarrow> nat" where
  "size_of x = length (reg x)"

definition sig_words :: "'a::len word BigInt \<Rightarrow> nat" where
  "sig_words x = sig_words_loop (reg x) (size_of x)"

definition word_at :: "'a::len word BigInt \<Rightarrow> nat \<Rightarrow> 'a word" where
  "word_at x n = (if n < size_of x then reg x ! n else 0)"

definition is_zero :: "'a::len word BigInt \<Rightarrow> bool" where
  "is_zero x = (\<forall>w \<in> set (take (sig_words x) (reg x)). w = 0)"

abbreviation is_nonzero :: "'a::len word BigInt \<Rightarrow> bool" where
  "is_nonzero x \<equiv> \<not> is_zero x"

definition is_negative :: "'a::len word BigInt \<Rightarrow> bool" where
  "is_negative x = (signedness x = Negative)"

definition is_positive :: "'a::len word BigInt \<Rightarrow> bool" where
  "is_positive x = (signedness x = Positive)"

definition reverse_sign :: "'a::len word BigInt \<Rightarrow> Sign" where
  "reverse_sign x = (if signedness x = Positive then Negative else Positive)"

definition set_sign :: "'a::len word BigInt \<Rightarrow> Sign \<Rightarrow> 'a word BigInt" where
  "set_sign x s = (if is_zero x then x\<lparr>signedness := Positive\<rparr> else x\<lparr>signedness := s\<rparr>)"

definition flip_sign :: "'a::len word BigInt \<Rightarrow> 'a word BigInt" where
  "flip_sign x = set_sign x (reverse_sign x)"

definition clear :: "'a::len word BigInt \<Rightarrow> 'a word BigInt" where
  "clear x = x\<lparr>reg := reg_clear (reg x)\<rparr>"

definition grow_reg :: "'a::len word BigInt \<Rightarrow> nat \<Rightarrow> 'a word BigInt" where
  "grow_reg x n = x\<lparr>reg := reg_grow_to (reg x) (round_up (size_of x + n) 8)\<rparr>"

definition grow_to :: "'a::len word BigInt \<Rightarrow> nat \<Rightarrow> 'a word BigInt" where
  "grow_to x n = (if n > size_of x then x\<lparr>reg := reg_grow_to (reg x) (round_up n 8)\<rparr> else x)"

section \<open>Construction\<close>

definition BigInt_empty :: "'a::len word BigInt" where
  "BigInt_empty = \<lparr>reg = [], signedness = Positive\<rparr>"

definition BigInt_u64 :: "u64bit \<Rightarrow> 'a::len word BigInt" where
  "BigInt_u64 n =
     (if n = 0 then BigInt_empty
      else let limbs_needed = 64 div LENGTH('a)
           in \<lparr>reg = for_up 0 limbs_needed (\<lambda>j reg. reg[j := ucast (drop_bit (j * LENGTH('a)) n)])
                       (reg_create (4 * limbs_needed)),
               signedness = Positive\<rparr>)"

definition BigInt_size :: "Sign \<Rightarrow> nat \<Rightarrow> 'a::len word BigInt" where
  "BigInt_size s n = \<lparr>reg = reg_create (round_up n 8), signedness = s\<rparr>"

definition BigInt_copy :: "'a::len word BigInt \<Rightarrow> 'a word BigInt" where
  "BigInt_copy b =
     (let b_words = sig_words b
      in if b_words \<noteq> 0
         then set_sign \<lparr>reg = copy_mem (reg_create (round_up b_words 8)) (reg b) b_words, signedness = Positive\<rparr>
                (signedness b)
         else set_sign \<lparr>reg = reg_create 2, signedness = Positive\<rparr> Positive)"

definition BigInt_uminus :: "'a::len word BigInt \<Rightarrow> 'a word BigInt" where
  "BigInt_uminus x = flip_sign (BigInt_copy x)"

definition BigInt_abs :: "'a::len word BigInt \<Rightarrow> 'a word BigInt" where
  "BigInt_abs x = set_sign (BigInt_copy x) Positive"

definition BigInt_swap :: "'a::len word BigInt \<Rightarrow> 'a word BigInt \<Rightarrow> 'a word BigInt \<times> 'a word BigInt" where
  "BigInt_swap x other =
     (x\<lparr>reg := reg other, signedness := signedness other\<rparr>, other\<lparr>reg := reg x, signedness := signedness x\<rparr>)"

section \<open>Comparison\<close>

definition BigInt_cmp :: "'a::len word BigInt \<Rightarrow> 'a word BigInt \<Rightarrow> bool \<Rightarrow> int" where
  "BigInt_cmp x n check_signs =
     (if check_signs \<and> is_positive n \<and> is_negative x then -1
      else if check_signs \<and> is_negative n \<and> is_positive x then 1
      else if check_signs \<and> is_negative n \<and> is_negative x
      then - bigint_cmp (reg x) (sig_words x) (reg n) (sig_words n)
      else bigint_cmp (reg x) (sig_words x) (reg n) (sig_words n))"

section \<open>Bits and bytes\<close>

definition byte_at :: "'a::len word BigInt \<Rightarrow> nat \<Rightarrow> byte" where
  "byte_at x n =
     (let WORD_BYTES = LENGTH('a) div 8;
          word_num = n div WORD_BYTES;
          byte_num = n mod WORD_BYTES
      in if word_num \<ge> size_of x then 0
         else get_byte (WORD_BYTES - byte_num - 1) (reg x ! word_num))"

definition get_bit :: "'a::len word BigInt \<Rightarrow> nat \<Rightarrow> bool" where
  "get_bit x n = (drop_bit (n mod LENGTH('a)) (word_at x (n div LENGTH('a))) AND 1 \<noteq> 0)"

definition is_even :: "'a::len word BigInt \<Rightarrow> bool" where
  "is_even x = (get_bit x 0 = False)"

definition is_odd :: "'a::len word BigInt \<Rightarrow> bool" where
  "is_odd x = (get_bit x 0 = True)"

definition set_bit_at :: "'a::len word BigInt \<Rightarrow> nat \<Rightarrow> 'a word BigInt" where
  "set_bit_at x n =
     (let which = n div LENGTH('a);
          mask = push_bit (n mod LENGTH('a)) 1;
          x = (if which \<ge> size_of x then grow_to x (which + 1) else x)
      in x\<lparr>reg := (reg x)[which := reg x ! which OR mask]\<rparr>)"

definition clear_bit :: "'a::len word BigInt \<Rightarrow> nat \<Rightarrow> 'a word BigInt" where
  "clear_bit x n =
     (let which = n div LENGTH('a);
          mask = push_bit (n mod LENGTH('a)) 1
      in if which < size_of x then x\<lparr>reg := (reg x)[which := reg x ! which AND NOT mask]\<rparr> else x)"

text \<open>\<open>while (top_bits && ((top_word & mask) == 0)) { mask >>= 1; top_bits--; }\<close>\<close>

fun bits_loop :: "'a::len word \<Rightarrow> 'a word \<Rightarrow> nat \<Rightarrow> nat" where
  "bits_loop top_word msk 0 = 0"
| "bits_loop top_word msk (Suc top_bits) =
     (if top_word AND msk = 0 then bits_loop top_word (drop_bit 1 msk) top_bits else Suc top_bits)"

definition bits :: "'a::len word BigInt \<Rightarrow> nat" where
  "bits x =
     (if sig_words x = 0 then 0
      else let full_words = sig_words x - 1;
               top_word = word_at x full_words;
               mask = push_bit (LENGTH('a) - 1) 1
           in full_words * LENGTH('a) + bits_loop top_word mask LENGTH('a))"

definition bytes :: "'a::len word BigInt \<Rightarrow> nat" where
  "bytes x = (bits x + 7) div 8"

definition mask_bits :: "'a::len word BigInt \<Rightarrow> nat \<Rightarrow> 'a word BigInt" where
  "mask_bits x n =
     (if n = 0 then clear x
      else if n \<ge> bits x then x
      else
        let top_word = n div LENGTH('a);
            mask = push_bit (n mod LENGTH('a)) 1 - 1;
            x = (if top_word < size_of x
                 then x\<lparr>reg := for_up (top_word + 1) (size_of x) (\<lambda>j reg. reg[j := 0]) (reg x)\<rparr> else x)
        in x\<lparr>reg := (reg x)[top_word := reg x ! top_word AND mask]\<rparr>)"

definition to_u32bit :: "'a::len word BigInt \<Rightarrow> botan_error + u32bit" where
  "to_u32bit x =
     (if is_negative x then Inl (Encoding_Error ''BigInt::to_u32bit: Number is negative'')
      else if bits x \<ge> 32 then Inl (Encoding_Error ''BigInt::to_u32bit: Number is too big to convert'')
      else Inr (for_up 0 4 (\<lambda>j out. push_bit 8 out OR ucast (byte_at x (3 - j))) 0))"

text \<open>
  \<open>(1 << length) - 1\<close> is an \<open>int\<close> expression: for \<open>length \<ge> 31\<close> its shift overflows, the
  result is left open (\<open>int_shl\<close> is that shift, a parameter for those lengths).
\<close>

definition get_substring :: "(nat \<Rightarrow> u64bit) \<Rightarrow> 'a::len word BigInt \<Rightarrow> nat \<Rightarrow> nat \<Rightarrow> botan_error + u32bit" where
  "get_substring int_shl x offset n =
     (if n > 32 then Inl (Invalid_Argument ''BigInt::get_substring: Substring size too big'')
      else
        let piece = for_up 0 8 (\<lambda>j piece. push_bit 8 piece OR ucast (byte_at x (offset div 8 + (7 - j)))) (0 :: u64bit);
            mask = (if n < 31 then push_bit n 1 else int_shl n) - 1;
            shift = offset mod 8
        in Inr (ucast (drop_bit shift piece AND mask)))"

definition binary_encode :: "'a::len word BigInt \<Rightarrow> byte list \<Rightarrow> byte list" where
  "binary_encode x output =
     (let sig_bytes = bytes x
      in for_up 0 sig_bytes (\<lambda>j output. output[sig_bytes - j - 1 := byte_at x j]) output)"

definition binary_decode :: "'a::len word BigInt \<Rightarrow> byte list \<Rightarrow> nat \<Rightarrow> 'a word BigInt" where
  "binary_decode x inp n =
     (let WORD_BYTES = LENGTH('a) div 8;
          r = reg_create (round_up (n div WORD_BYTES + 1) 8);
          r = for_up 0 (n div WORD_BYTES)
            (\<lambda>j r. let top_ix = n - WORD_BYTES * j
                      in for_down WORD_BYTES 0 (\<lambda>k r. r[j := push_bit 8 (r ! j) OR ucast (inp ! (top_ix - k))]) r) r;
          r = for_up 0 (n mod WORD_BYTES)
            (\<lambda>j r. r[n div WORD_BYTES := push_bit 8 (r ! (n div WORD_BYTES)) OR ucast (inp ! j)]) r
      in x\<lparr>reg := r\<rparr>)"

section \<open>Values\<close>

definition mag :: "'a::len word BigInt \<Rightarrow> nat" where
  "mag x = mp_val (reg x)"

fun sign_factor :: "Sign \<Rightarrow> int" where
  "sign_factor Positive = 1"
| "sign_factor Negative = -1"

definition bigint_val :: "'a::len word BigInt \<Rightarrow> int" where
  "bigint_val x = sign_factor (signedness x) * int (mag x)"

text \<open>The class invariant: zero is positive.\<close>

definition bigint_wf :: "'a::len word BigInt \<Rightarrow> bool" where
  "bigint_wf x \<longleftrightarrow> (mag x = 0 \<longrightarrow> signedness x = Positive)"

lemma sig_words_loop_le: "sig_words_loop x n \<le> n"
  by (induction n) auto

lemma sig_words_le [simp]: "sig_words x \<le> length (reg x)"
  by (simp add: sig_words_def size_of_def sig_words_loop_le)

lemma sig_words_loop_top: "0 < sig_words_loop x n \<Longrightarrow> x ! (sig_words_loop x n - 1) \<noteq> 0"
  by (induction n) auto

lemma sig_words_top: "0 < sig_words x \<Longrightarrow> reg x ! (sig_words x - 1) \<noteq> 0"
  unfolding sig_words_def by (rule sig_words_loop_top)

lemma sig_words_loop_val:
  "n \<le> length x \<Longrightarrow> mp_val (take (sig_words_loop x n) x) = mp_val (take n (x :: 'a::len word list))"
  by (induction n) (auto simp: mp_val_take_Suc)

lemma mag_sig [simp]: "mp_val (take (sig_words x) (reg x)) = mag x"
  by (simp add: sig_words_def size_of_def sig_words_loop_val mag_def)

lemma drop_sig [simp]: "mp_val (drop (sig_words x) (reg x)) = 0"
  using mp_val_split[of "reg x" "sig_words x"] mag_sig[of x] by (simp add: mag_def)

lemma mag_lt: "mag (x :: 'a::len word BigInt) < (2 ^ LENGTH('a)) ^ sig_words x"
  using mp_val_take_bound[of "sig_words x" "reg x"] by simp

lemma mag_ge: "0 < sig_words x \<Longrightarrow> (2 ^ LENGTH('a)) ^ (sig_words x - 1) \<le> mag (x :: 'a::len word BigInt)"
proof -
  assume s: "0 < sig_words x"
  then obtain n where n: "sig_words x = Suc n" by (cases "sig_words x") auto
  have "0 < unat (reg x ! n)" using sig_words_top[OF s] n by (simp add: unat_gt_0)
  moreover have "mag x = mp_val (take n (reg x)) + (2 ^ LENGTH('a)) ^ n * unat (reg x ! n)"
    using mp_val_take_Suc[of n "reg x"] sig_words_le[of x] mag_sig[of x] n by simp
  ultimately have "(2 ^ LENGTH('a)) ^ n * 1 \<le> mag x"
    by (metis Suc_leI One_nat_def le_add2 mult_le_mono2 order_trans)
  then show ?thesis using n by simp
qed

lemma sig_words_0 [simp]: "sig_words x = 0 \<longleftrightarrow> mag (x :: 'a::len word BigInt) = 0"
proof
  assume "sig_words x = 0"
  then show "mag x = 0" using mag_lt[of x] by simp
next
  assume m: "mag x = 0"
  show "sig_words x = 0"
  proof (rule ccontr)
    assume "sig_words x \<noteq> 0"
    then have "(2 ^ LENGTH('a)) ^ (sig_words x - 1) \<le> mag x" by (intro mag_ge) simp
    with m show False by simp
  qed
qed

lemma sig_words_zero [simp]: "mag (x :: 'a::len word BigInt) = 0 \<Longrightarrow> sig_words x = 0"
  by (rule sig_words_0[THEN iffD2])

lemma sig_words_unique:
  assumes "(2 ^ LENGTH('a)) ^ n \<le> mag (x :: 'a::len word BigInt)" and "mag x < (2 ^ LENGTH('a)) ^ Suc n"
  shows "sig_words x = Suc n"
proof -
  let ?B = "2 ^ LENGTH('a) :: nat"
  have B: "1 < ?B" by (rule one_less_power) simp_all
  have "0 < mag x" using assms(1) by (metis gr0I not_le zero_less_numeral zero_less_power)
  then have s: "0 < sig_words x" by (metis gr0I less_numeral_extra(3) sig_words_0)
  have "?B ^ n < ?B ^ sig_words x" using assms(1) mag_lt[of x] by linarith
  then have "n < sig_words x" using B by (simp add: power_strict_increasing_iff)
  moreover have "?B ^ (sig_words x - 1) < ?B ^ Suc n" using assms(2) mag_ge[OF s] by linarith
  then have "sig_words x - 1 < Suc n" using B power_strict_increasing_iff by blast
  ultimately show ?thesis by simp
qed

lemma is_zero_iff [simp]: "is_zero x \<longleftrightarrow> mag x = 0"
  unfolding is_zero_def mp_val_eq_0_iff[symmetric] by simp

end
