(* ===== verification/BigInt_Ops.thy ===== *)
theory BigInt_Ops
  imports BigInt
begin

text \<open>
  Arithmetic on \<open>BigInt\<close>: the assignment operators (\<open>src/math/bigint/big_ops2.cpp\<close>) and the
  binary operators (\<open>big_ops3.cpp\<close>) except those that divide by a \<open>BigInt\<close>. The operands
  of an assignment operator are different objects. Each operator has a value lemma: on
  \<open>bigint_val\<close> it is the integer operation.
\<close>

section \<open>Assignment operators\<close>

definition add_assign :: "'a::len word BigInt \<Rightarrow> 'a word BigInt \<Rightarrow> 'a word BigInt" where
  "add_assign x y =
     (let x_sw = sig_words x; y_sw = sig_words y;
          reg_size = max x_sw y_sw + 1;
          x = grow_to x reg_size
      in if signedness x = signedness y then x\<lparr>reg := bigint_add2 (reg x) (reg_size - 1) (reg y) y_sw\<rparr>
         else
           let relative_size = bigint_cmp (reg x) x_sw (reg y) y_sw
           in if relative_size < 0
              then let z = reg_create (reg_size - 1);
                       z = bigint_sub3 z (reg y) (reg_size - 1) (reg x) x_sw
                   in set_sign (x\<lparr>reg := copy_mem (reg x) z (length z)\<rparr>) (signedness y)
              else if relative_size = 0 then set_sign (x\<lparr>reg := reg_clear (reg x)\<rparr>) Positive
              else x\<lparr>reg := bigint_sub2 (reg x) x_sw (reg y) y_sw\<rparr>)"

definition sub_assign :: "'a::len word BigInt \<Rightarrow> 'a word BigInt \<Rightarrow> 'a word BigInt" where
  "sub_assign x y =
     (let x_sw = sig_words x; y_sw = sig_words y;
          relative_size = bigint_cmp (reg x) x_sw (reg y) y_sw;
          reg_size = max x_sw y_sw + 1;
          x = grow_to x reg_size
      in if relative_size < 0
         then let x = (if signedness x = signedness y
                       then let z = reg_create (reg_size - 1);
                                z = bigint_sub3 z (reg y) (reg_size - 1) (reg x) x_sw
                            in x\<lparr>reg := copy_mem (reg x) z (length z)\<rparr>
                       else x\<lparr>reg := bigint_add2 (reg x) (reg_size - 1) (reg y) y_sw\<rparr>)
              in set_sign x (reverse_sign y)
         else if relative_size = 0
         then if signedness x = signedness y then set_sign (x\<lparr>reg := reg_clear (reg x)\<rparr>) Positive
              else x\<lparr>reg := bigint_shl1 (reg x) x_sw 0 1\<rparr>
         else if signedness x = signedness y then x\<lparr>reg := bigint_sub2 (reg x) x_sw (reg y) y_sw\<rparr>
         else x\<lparr>reg := bigint_add2 (reg x) (reg_size - 1) (reg y) y_sw\<rparr>)"

definition increment :: "'a::len word BigInt \<Rightarrow> 'a word BigInt" where
  "increment x = add_assign x (BigInt_u64 1)"

definition decrement :: "'a::len word BigInt \<Rightarrow> 'a word BigInt" where
  "decrement x = sub_assign x (BigInt_u64 1)"

definition mul_assign :: "'a::len word BigInt \<Rightarrow> 'a word BigInt \<Rightarrow> 'a word BigInt" where
  "mul_assign x y =
     (let x_sw = sig_words x; y_sw = sig_words y;
          x = set_sign x (if signedness x = signedness y then Positive else Negative)
      in if x_sw = 0 \<or> y_sw = 0 then set_sign (x\<lparr>reg := reg_clear (reg x)\<rparr>) Positive
         else if x_sw = 1 \<and> y_sw \<noteq> 0
         then let x = grow_to x (y_sw + 2)
              in x\<lparr>reg := bigint_linmul3 (reg x) (reg y) y_sw (word_at x 0)\<rparr>
         else if y_sw = 1 \<and> x_sw \<noteq> 0
         then let x = grow_to x (x_sw + 2) in x\<lparr>reg := bigint_linmul2 (reg x) x_sw (word_at y 0)\<rparr>
         else
           let x = grow_to x (size_of x + size_of y);
               z = take x_sw (reg x);
               workspace = reg_create (size_of x)
           in x\<lparr>reg := fst (bigint_mul (reg x) (size_of x) workspace z (length z) x_sw (reg y) (size_of y) y_sw)\<rparr>)"

text \<open>\<open>for (j = sig_words(); j > 0; --j) remainder = bigint_modop(remainder, word_at(j-1), mod)\<close>\<close>

definition mod_word_loop :: "'a::len word BigInt \<Rightarrow> 'a word \<Rightarrow> 'a word" where
  "mod_word_loop x m = for_down (sig_words x) 0 (\<lambda>j remainder. bigint_modop remainder (word_at x (j - 1)) m) 0"

definition mod_word_assign :: "'a::len word BigInt \<Rightarrow> 'a word \<Rightarrow> botan_error + 'a word \<times> 'a word BigInt" where
  "mod_word_assign x m =
     (if m = 0 then Inl DivideByZero
      else if power_of_2 m
      then let result = word_at x 0 AND (m - 1);
               x = grow_to (clear x) 2
           in Inr (result, x\<lparr>reg := (reg x)[0 := result]\<rparr>)
      else
        let remainder = mod_word_loop x m;
            neg = is_negative x;
            x = grow_to (clear x) 2;
            x = (if remainder \<noteq> 0 \<and> neg then x\<lparr>reg := (reg x)[0 := m - remainder]\<rparr>
                 else x\<lparr>reg := (reg x)[0 := remainder]\<rparr>);
            x = set_sign x Positive
        in Inr (word_at x 0, x))"

definition shl_assign :: "'a::len word BigInt \<Rightarrow> nat \<Rightarrow> 'a word BigInt" where
  "shl_assign x shift =
     (if shift \<noteq> 0
      then let shift_words = shift div LENGTH('a); shift_bits = shift mod LENGTH('a);
               words = sig_words x;
               x = grow_to x (words + shift_words + (if shift_bits \<noteq> 0 then 1 else 0))
           in x\<lparr>reg := bigint_shl1 (reg x) words shift_words shift_bits\<rparr>
      else x)"

definition shr_assign :: "'a::len word BigInt \<Rightarrow> nat \<Rightarrow> 'a word BigInt" where
  "shr_assign x shift =
     (if shift \<noteq> 0
      then let shift_words = shift div LENGTH('a); shift_bits = shift mod LENGTH('a);
               x = x\<lparr>reg := bigint_shr1 (reg x) (sig_words x) shift_words shift_bits\<rparr>
           in if is_zero x then set_sign x Positive else x
      else x)"

section \<open>Binary operators\<close>

definition plus_BigInt :: "'a::len word BigInt \<Rightarrow> 'a word BigInt \<Rightarrow> 'a word BigInt" where
  "plus_BigInt x y =
     (let x_sw = sig_words x; y_sw = sig_words y;
          z = BigInt_size (signedness x) (max x_sw y_sw + 1)
      in if signedness x = signedness y then z\<lparr>reg := bigint_add3 (reg z) (reg x) x_sw (reg y) y_sw\<rparr>
         else
           let relative_size = bigint_cmp (reg x) x_sw (reg y) y_sw
           in if relative_size < 0
              then set_sign (z\<lparr>reg := bigint_sub3 (reg z) (reg y) y_sw (reg x) x_sw\<rparr>) (signedness y)
              else if relative_size = 0 then set_sign z Positive
              else z\<lparr>reg := bigint_sub3 (reg z) (reg x) x_sw (reg y) y_sw\<rparr>)"

definition minus_BigInt :: "'a::len word BigInt \<Rightarrow> 'a word BigInt \<Rightarrow> 'a word BigInt" where
  "minus_BigInt x y =
     (let x_sw = sig_words x; y_sw = sig_words y;
          relative_size = bigint_cmp (reg x) x_sw (reg y) y_sw;
          z = BigInt_size Positive (max x_sw y_sw + 1)
      in if relative_size < 0
         then let z = (if signedness x = signedness y
                       then z\<lparr>reg := bigint_sub3 (reg z) (reg y) y_sw (reg x) x_sw\<rparr>
                       else z\<lparr>reg := bigint_add3 (reg z) (reg x) x_sw (reg y) y_sw\<rparr>)
              in set_sign z (reverse_sign y)
         else if relative_size = 0
         then if signedness x \<noteq> signedness y then z\<lparr>reg := bigint_shl2 (reg z) (reg x) x_sw 0 1\<rparr> else z
         else let z = (if signedness x = signedness y
                       then z\<lparr>reg := bigint_sub3 (reg z) (reg x) x_sw (reg y) y_sw\<rparr>
                       else z\<lparr>reg := bigint_add3 (reg z) (reg x) x_sw (reg y) y_sw\<rparr>)
              in set_sign z (signedness x))"

definition times_BigInt :: "'a::len word BigInt \<Rightarrow> 'a word BigInt \<Rightarrow> 'a word BigInt" where
  "times_BigInt x y =
     (let x_sw = sig_words x; y_sw = sig_words y;
          z = BigInt_size Positive (size_of x + size_of y);
          z = (if x_sw = 1 \<and> y_sw \<noteq> 0 then z\<lparr>reg := bigint_linmul3 (reg z) (reg y) y_sw (word_at x 0)\<rparr>
               else if y_sw = 1 \<and> x_sw \<noteq> 0 then z\<lparr>reg := bigint_linmul3 (reg z) (reg x) x_sw (word_at y 0)\<rparr>
               else if x_sw \<noteq> 0 \<and> y_sw \<noteq> 0
               then let workspace = reg_create (size_of z)
                    in z\<lparr>reg := fst (bigint_mul (reg z) (size_of z) workspace (reg x) (size_of x) x_sw (reg y) (size_of y) y_sw)\<rparr>
               else z)
      in if x_sw \<noteq> 0 \<and> y_sw \<noteq> 0 \<and> signedness x \<noteq> signedness y then flip_sign z else z)"

definition mod_word :: "'a::len word BigInt \<Rightarrow> 'a word \<Rightarrow> botan_error + 'a word" where
  "mod_word n m =
     (if m = 0 then Inl DivideByZero
      else if power_of_2 m then Inr (word_at n 0 AND (m - 1))
      else let remainder = mod_word_loop n m
           in if remainder \<noteq> 0 \<and> is_negative n then Inr (m - remainder) else Inr remainder)"

definition shl_BigInt :: "'a::len word BigInt \<Rightarrow> nat \<Rightarrow> 'a word BigInt" where
  "shl_BigInt x shift =
     (if shift = 0 then BigInt_copy x
      else let shift_words = shift div LENGTH('a); shift_bits = shift mod LENGTH('a);
               x_sw = sig_words x;
               y = BigInt_size (signedness x) (x_sw + shift_words + (if shift_bits \<noteq> 0 then 1 else 0))
           in y\<lparr>reg := bigint_shl2 (reg y) (reg x) x_sw shift_words shift_bits\<rparr>)"

definition shr_BigInt :: "'a::len word BigInt \<Rightarrow> nat \<Rightarrow> 'a word BigInt" where
  "shr_BigInt x shift =
     (if shift = 0 then BigInt_copy x
      else if bits x \<le> shift then BigInt_u64 0
      else let shift_words = shift div LENGTH('a); shift_bits = shift mod LENGTH('a);
               x_sw = sig_words x;
               y = BigInt_size (signedness x) (x_sw - shift_words)
           in y\<lparr>reg := bigint_shr2 (reg y) (reg x) x_sw shift_words shift_bits\<rparr>)"

section \<open>Values of the class operations\<close>

lemma reg_simps [simp]:
  "mag (x\<lparr>signedness := s\<rparr>) = mag x"
  "signedness (clear x) = signedness x" "signedness (grow_to x n) = signedness x"
  by (simp_all add: mag_def clear_def grow_to_def)

lemma mag_reg_update: "mag (x\<lparr>reg := r\<rparr>) = mp_val r"
  by (simp add: mag_def)

lemma mp_val_reg_create [simp]: "mp_val (reg_create n :: 'a::len word list) = 0"
  by (simp add: reg_create_def)

lemma mp_val_reg_clear [simp]: "mp_val (reg_clear xs :: 'a::len word list) = 0"
  by (simp add: reg_clear_def)

lemma mp_val_reg_grow_to [simp]: "mp_val (reg_grow_to xs n :: 'a::len word list) = mp_val xs"
  by (simp add: reg_grow_to_def)

lemma mag_grow_to [simp]: "mag (grow_to x n) = mag x"
  by (simp add: grow_to_def mag_def)

lemma length_grow_to: "n \<le> length (reg (grow_to x n))" "length (reg x) \<le> length (reg (grow_to x n))"
  using round_up_ge[of n 8] by (auto simp: grow_to_def size_of_def max_def)

lemma sig_words_cong:
  fixes x y :: "'a::len word BigInt"
  assumes "mag x = mag y"
  shows "sig_words x = sig_words y"
proof (cases "mag y = 0")
  case True
  then have a: "sig_words x = 0" and b: "sig_words y = 0" using assms by simp_all
  show ?thesis unfolding a b ..
next
  case False
  then obtain k where k: "sig_words y = Suc k" using sig_words_0[of y] by (cases "sig_words y") auto
  then show ?thesis using mag_ge[of y] mag_lt[of y] sig_words_unique[of k x] assms by simp
qed

lemma sig_words_grow_to [simp]: "sig_words (grow_to x n) = sig_words (x :: 'a::len word BigInt)"
  by (rule sig_words_cong) simp

lemma set_sign_simps [simp]:
  "mag (set_sign x s) = mag x" "reg (set_sign x s) = reg x"
  "signedness (set_sign x s) = (if mag x = 0 then Positive else s)"
  by (simp_all add: set_sign_def)

lemma set_sign_val [simp]: "bigint_val (set_sign x s) = sign_factor s * int (mag x)"
  by (simp add: bigint_val_def)

lemma set_sign_wf [simp]: "bigint_wf (set_sign x s)"
  by (simp add: bigint_wf_def)

lemma mp_val_pad: "mp_val (drop n (x :: 'a::len word list)) = 0 \<Longrightarrow> mp_val x = mp_val (take n x)"
  using mp_val_split[of x n] by simp

lemma sig_words_cmp: "bigint_cmp (reg x) (sig_words x) (reg y) (sig_words y) = sgn (int (mag x) - int (mag y))"
  by (simp add: bigint_cmp_val)

section \<open>Array operations with cleared upper words\<close>

lemma mp_val_zero_at: "mp_val (drop n (x :: 'a::len word list)) = 0 \<Longrightarrow> n < length x \<Longrightarrow> x ! n = 0"
  by (metis Cons_nth_drop_Suc add_is_0 mp_val.simps(2) unat_eq_zero)

lemma mp_val_carry:
  fixes x :: "'a::len word list"
  assumes "n < length x" and "mp_val (drop n x) = 0"
  shows "mp_val (x[n := x ! n + 1]) = mp_val (take n x) + (2 ^ LENGTH('a)) ^ n"
  using mp_val_update[OF assms(1), of "x ! n + 1"] mp_val_zero_at[OF assms(2,1)] mp_val_pad[OF assms(2)] by simp

lemma add2_total:
  fixes x y :: "'a::len word list"
  assumes "m \<le> n" and "n < length x" and "m \<le> length y" and "mp_val (drop n x) = 0"
  shows "length (bigint_add2 x n y m) = length x \<and> mp_val (bigint_add2 x n y m) = mp_val x + mp_val (take m y)"
proof -
  obtain z c where z: "bigint_add2_nc x n y m = (z, c)" by (rule prod.exhaust)
  have v: "length z = length x" "drop n z = drop n x" "c \<le> 1"
    "mp_val (take n z) + (2 ^ LENGTH('a)) ^ n * unat c = mp_val (take n x) + mp_val (take m y)"
    using bigint_add2_nc_val[OF assms(1) _ assms(3) z] assms(2) by simp_all
  have "mp_val z = mp_val (take n z)" "mp_val x = mp_val (take n x)"
    using mp_val_pad[of n z] mp_val_pad[of n x] v assms by simp_all
  then show ?thesis
    using v carry_cases[OF v(3)] mp_val_carry[of n z] assms(2,4) by (auto simp: bigint_add2_def z)
qed

lemma add3_total:
  fixes x y z :: "'a::len word list"
  assumes "n \<le> length x" and "m \<le> length y" and "max n m < length z" and "mp_val z = 0"
  shows "length (bigint_add3 z x n y m) = length z \<and> mp_val (bigint_add3 z x n y m) = mp_val (take n x) + mp_val (take m y)"
proof -
  obtain w c where w: "bigint_add3_nc z x n y m = (w, c)" by (rule prod.exhaust)
  have v: "length w = length z" "drop (max n m) w = drop (max n m) z" "c \<le> 1"
    "mp_val (take (max n m) w) + (2 ^ LENGTH('a)) ^ max n m * unat c = mp_val (take n x) + mp_val (take m y)"
    using bigint_add3_nc_val[OF assms(1,2) _ w] assms(3) by simp_all
  have z: "mp_val (drop (max n m) z) = 0" using mp_val_drop_mono[of 0 "max n m" z] assms(4) by simp
  have "mp_val w = mp_val (take (max n m) w)" using mp_val_pad[of "max n m" w] v z by simp
  moreover have "(if m < n then n else m) = max n m" by (simp add: max_def)
  ultimately show ?thesis
    using v carry_cases[OF v(3)] mp_val_carry[of "max n m" w] assms(3) z by (auto simp: bigint_add3_def w Let_def)
qed

lemma sub2_total:
  fixes x y :: "'a::len word list"
  assumes "m \<le> n" and "n \<le> length x" and "m \<le> length y" and "mp_val (drop n x) = 0"
    and "mp_val (take m y) \<le> mp_val x"
  shows "length (bigint_sub2 x n y m) = length x \<and> mp_val (bigint_sub2 x n y m) = mp_val x - mp_val (take m y)"
  using bigint_sub2_val[OF assms(1-3)] bigint_sub2_diff[OF assms(1-3)] mp_val_pad[of n x] mp_val_pad[of n "bigint_sub2 x n y m"] assms(4,5)
  by simp

lemma sub3_total:
  fixes x y z :: "'a::len word list"
  assumes "m \<le> n" and "n \<le> length x" and "m \<le> length y" and "n \<le> length z" and "mp_val (drop n z) = 0"
    and "mp_val (take m y) \<le> mp_val (take n x)"
  shows "length (bigint_sub3 z x n y m) = length z \<and>
    mp_val (bigint_sub3 z x n y m) = mp_val (take n x) - mp_val (take m y)"
  using bigint_sub3_val[OF assms(1-4)] bigint_sub3_diff[OF assms(1-4,6)] mp_val_pad[of n "bigint_sub3 z x n y m"] assms(5)
  by simp

lemma take_ge_sig: "sig_words x \<le> n \<Longrightarrow> mp_val (take n (reg x)) = mag x \<and> mp_val (drop n (reg x)) = 0"
  using mp_val_drop_mono[of "sig_words x" n "reg x"] mp_val_pad[of n "reg x"] by (simp add: mag_def)

lemma cmp_sgn [simp]:
  "sgn (int a - int b) < 0 \<longleftrightarrow> a < b" "sgn (int a - int b) = 0 \<longleftrightarrow> a = b" "0 < sgn (int a - int b) \<longleftrightarrow> b < a"
  by (auto simp: sgn_if)

lemma sig_words_mono:
  fixes x y :: "'a::len word BigInt"
  assumes le: "mag x \<le> mag y"
  shows "sig_words x \<le> sig_words y"
proof (rule ccontr)
  assume "\<not> sig_words x \<le> sig_words y"
  then have s: "sig_words y < sig_words x" by simp
  have "mag y < (2 ^ LENGTH('a)) ^ sig_words y" by (rule mag_lt)
  also have "\<dots> \<le> (2 ^ LENGTH('a)) ^ (sig_words x - 1)" using s by (intro power_increasing) simp_all
  also have "\<dots> \<le> mag x" using s by (intro mag_ge) simp
  finally show False using le by simp
qed

section \<open>Addition and subtraction\<close>

lemma add_assign_cases:
  fixes x y :: "'a::len word BigInt"
  shows "signedness x = signedness y \<Longrightarrow> mag (add_assign x y) = mag x + mag y \<and> signedness (add_assign x y) = signedness x"
    and "signedness x \<noteq> signedness y \<Longrightarrow> mag (add_assign x y) = (if mag x < mag y then mag y - mag x else mag x - mag y) \<and>
      signedness (add_assign x y) = (if mag x < mag y then signedness y else if mag x = mag y then Positive else signedness x)"
proof -
  let ?n = "max (sig_words x) (sig_words y)"
  define g where "g = grow_to x (?n + 1)"
  have g: "mag g = mag x" "signedness g = signedness x" "?n < length (reg g)" "sig_words g = sig_words x"
    using length_grow_to(1)[of "?n + 1" x, folded g_def] by (simp_all add: g_def del: max_less_iff_conj)
  have n: "mp_val (take ?n (reg g)) = mag x" "mp_val (drop ?n (reg g)) = 0" "mp_val (take ?n (reg y)) = mag y"
    using take_ge_sig[of g ?n] take_ge_sig[of y ?n] g by simp_all
  have cmp: "bigint_cmp (reg g) (sig_words x) (reg y) (sig_words y) = sgn (int (mag x) - int (mag y))"
    using sig_words_cmp[of g y] g by simp
  { assume s: "signedness x = signedness y"
    have "mp_val (bigint_add2 (reg g) ?n (reg y) (sig_words y)) = mag x + mag y"
      using g n add2_total[of "sig_words y" ?n "reg g" "reg y"] by (simp add: mag_def)
    then show "mag (add_assign x y) = mag x + mag y \<and> signedness (add_assign x y) = signedness x"
      using s g(2) unfolding add_assign_def Let_def g_def[symmetric] by (simp add: mag_reg_update) }
  assume s: "signedness x \<noteq> signedness y"
  show "mag (add_assign x y) = (if mag x < mag y then mag y - mag x else mag x - mag y) \<and>
      signedness (add_assign x y) = (if mag x < mag y then signedness y else if mag x = mag y then Positive else signedness x)"
  proof (cases "mag x" "mag y" rule: linorder_cases)
    case less
    define z where "z = bigint_sub3 (reg_create ?n) (reg y) ?n (reg g) (sig_words x)"
    have le: "sig_words x \<le> sig_words y" using sig_words_mono[of x y] less by simp
    then have nn: "?n = sig_words y" by simp
    have "length z = ?n \<and> mp_val z = mag y - mag x"
      using sub3_total[of "sig_words x" ?n "reg y" "reg g" "reg_create ?n"] less le n g mag_sig[of g] unfolding z_def nn by simp
    moreover have "mp_val (copy_mem (reg g) z (length z)) = mp_val z" if "length z = ?n"
      using that n(2) by (simp add: copy_mem_def)
    ultimately show ?thesis using s less cmp g
      unfolding add_assign_def Let_def g_def[symmetric] by (simp add: mag_reg_update z_def[symmetric])
  next
    case equal
    then show ?thesis using s cmp g unfolding add_assign_def Let_def g_def[symmetric] by (simp add: mag_reg_update)
  next
    case greater
    have "mp_val (bigint_sub2 (reg g) (sig_words x) (reg y) (sig_words y)) = mag x - mag y"
      using sub2_total[of "sig_words y" "sig_words x" "reg g" "reg y"] sig_words_mono[of y x] greater g take_ge_sig[of g "sig_words x"]
      by (simp add: mag_def)
    then show ?thesis using s greater cmp g unfolding add_assign_def Let_def g_def[symmetric] by (simp add: mag_reg_update)
  qed
qed

lemma sign_factor_cases: "sign_factor s = 1 \<and> s = Positive \<or> sign_factor s = -1 \<and> s = Negative"
  by (cases s) simp_all

lemma add_assign_val: "bigint_val (add_assign x y) = bigint_val x + bigint_val y"
  using add_assign_cases[of x y] sign_factor_cases[of "signedness x"] sign_factor_cases[of "signedness y"]
  by (auto simp: bigint_val_def split: if_splits)

lemma add_assign_wf: "bigint_wf x \<Longrightarrow> bigint_wf y \<Longrightarrow> bigint_wf (add_assign x y)"
  using add_assign_cases[of x y] by (cases "signedness x = signedness y") (auto simp: bigint_wf_def split: if_splits)

lemma sub_assign_cases:
  fixes x y :: "'a::len word BigInt"
  shows "signedness x \<noteq> signedness y \<Longrightarrow> mag (sub_assign x y) = mag x + mag y \<and>
      signedness (sub_assign x y) = (if mag x < mag y then reverse_sign y else signedness x)"
    and "signedness x = signedness y \<Longrightarrow> mag (sub_assign x y) = (if mag x < mag y then mag y - mag x else mag x - mag y) \<and>
      signedness (sub_assign x y) = (if mag x < mag y then reverse_sign y else if mag x = mag y then Positive else signedness x)"
proof -
  let ?n = "max (sig_words x) (sig_words y)"
  define g where "g = grow_to x (?n + 1)"
  have g: "mag g = mag x" "signedness g = signedness x" "?n < length (reg g)" "sig_words g = sig_words x"
    using length_grow_to(1)[of "?n + 1" x, folded g_def] by (simp_all add: g_def del: max_less_iff_conj)
  have n: "mp_val (take ?n (reg g)) = mag x" "mp_val (drop ?n (reg g)) = 0" "mp_val (take ?n (reg y)) = mag y"
    using take_ge_sig[of g ?n] take_ge_sig[of y ?n] g by simp_all
  note d = sub_assign_def[of x y, unfolded Let_def, folded g_def]
  have add: "mp_val (bigint_add2 (reg g) ?n (reg y) (sig_words y)) = mag x + mag y"
    using g n add2_total[of "sig_words y" ?n "reg g" "reg y"] by (simp add: mag_def)
  { assume s: "signedness x \<noteq> signedness y"
    show "mag (sub_assign x y) = mag x + mag y \<and>
        signedness (sub_assign x y) = (if mag x < mag y then reverse_sign y else signedness x)"
    proof (cases "mag x = mag y")
      case True
      then have "sig_words y = sig_words x" using sig_words_cong[of x y] by simp
      then have r: "sig_words x < length (reg g)" "reg g ! sig_words x = 0"
        using g(3) mp_val_zero_at[of "sig_words x" "reg g"] n(2) by simp_all
      have "1 \<le> LENGTH('a)" by (simp add: Suc_leI)
      then have sh: "length (bigint_shl1 (reg g) (sig_words x) 0 1) = length (reg g)"
        "drop (sig_words x + 1) (bigint_shl1 (reg g) (sig_words x) 0 1) = drop (sig_words x + 1) (reg g)"
        "mp_val (take (sig_words x + 1) (bigint_shl1 (reg g) (sig_words x) 0 1)) = 2 * mag x"
        using bigint_shl1_val[of 1 "sig_words x" 0 "reg g"] r take_ge_sig[of g "sig_words x"] g(1,4) by simp_all
      have "mp_val (drop (sig_words x + 1) (reg g)) = 0" using take_ge_sig[of g "sig_words x + 1"] g(4) by simp
      then have "mp_val (bigint_shl1 (reg g) (sig_words x) 0 1) = 2 * mag x"
        using mp_val_pad[of "sig_words x + 1" "bigint_shl1 (reg g) (sig_words x) 0 1"] sh by simp
      then show ?thesis using s True g(2) unfolding d sig_words_cmp by (simp add: mag_reg_update)
    next
      case False
      then show ?thesis using s g(2) add unfolding d sig_words_cmp by (auto simp: mag_reg_update)
    qed }
  assume s: "signedness x = signedness y"
  show "mag (sub_assign x y) = (if mag x < mag y then mag y - mag x else mag x - mag y) \<and>
      signedness (sub_assign x y) = (if mag x < mag y then reverse_sign y else if mag x = mag y then Positive else signedness x)"
  proof (cases "mag x" "mag y" rule: linorder_cases)
    case less
    define z where "z = bigint_sub3 (reg_create ?n) (reg y) ?n (reg g) (sig_words x)"
    have le: "sig_words x \<le> sig_words y" using sig_words_mono[of x y] less by simp
    then have nn: "?n = sig_words y" by simp
    have z: "length z = ?n \<and> mp_val z = mag y - mag x"
      using sub3_total[of "sig_words x" ?n "reg y" "reg g" "reg_create ?n"] less le n g mag_sig[of g] unfolding z_def nn by simp
    then have "mp_val (copy_mem (reg g) z (length z)) = mp_val z"
      using n(2) by (simp add: copy_mem_def)
    with z show ?thesis using s less g(2) unfolding d sig_words_cmp by (simp add: mag_reg_update z_def[symmetric])
  next
    case equal
    then show ?thesis using s g unfolding d sig_words_cmp by (simp add: mag_reg_update)
  next
    case greater
    have "mp_val (bigint_sub2 (reg g) (sig_words x) (reg y) (sig_words y)) = mag x - mag y"
      using sub2_total[of "sig_words y" "sig_words x" "reg g" "reg y"] sig_words_mono[of y x] greater g take_ge_sig[of g "sig_words x"]
      by (simp add: mag_def)
    then show ?thesis using s greater g(2) unfolding d sig_words_cmp by (simp add: mag_reg_update)
  qed
qed

lemma reverse_sign_simps [simp]:
  "signedness x = Positive \<Longrightarrow> reverse_sign x = Negative" "signedness x = Negative \<Longrightarrow> reverse_sign x = Positive"
  by (simp_all add: reverse_sign_def)

lemma sub_assign_val: "bigint_val (sub_assign x y) = bigint_val x - bigint_val y"
  using sub_assign_cases[of x y] sign_factor_cases[of "signedness x"] sign_factor_cases[of "signedness y"]
  by (auto simp: bigint_val_def split: if_splits)

lemma sub_assign_wf: "bigint_wf x \<Longrightarrow> bigint_wf y \<Longrightarrow> bigint_wf (sub_assign x y)"
  using sub_assign_cases[of x y] by (cases "signedness x = signedness y") (auto simp: bigint_wf_def split: if_splits)

text \<open>For the division algorithm: the sign tells whether the difference is negative.\<close>

lemma sub_assign_sign:
  "signedness x = Positive \<Longrightarrow> signedness y = Positive \<Longrightarrow>
    signedness (sub_assign x y) = (if mag x < mag y then Negative else Positive)"
  using sub_assign_cases(2)[of x y] by auto

lemma size_create [simp]: "n \<le> length (reg (BigInt_size s n))" "reg (BigInt_size s n) = reg_create (round_up n 8)"
  "signedness (BigInt_size s n) = s"
  by (simp_all add: BigInt_size_def round_up_ge)

lemma plus_BigInt_cases:
  fixes x y :: "'a::len word BigInt"
  shows "signedness x = signedness y \<Longrightarrow> mag (plus_BigInt x y) = mag x + mag y \<and> signedness (plus_BigInt x y) = signedness x"
    and "signedness x \<noteq> signedness y \<Longrightarrow> mag (plus_BigInt x y) = (if mag x < mag y then mag y - mag x else mag x - mag y) \<and>
      signedness (plus_BigInt x y) = (if mag x < mag y then signedness y else if mag x = mag y then Positive else signedness x)"
proof -
  define z :: "'a word list" where "z = reg_create (round_up (max (sig_words x) (sig_words y) + 1) 8)"
  have z: "max (sig_words x) (sig_words y) < length z" "mp_val z = 0" "mp_val (drop n z) = 0" for n
    using round_up_ge[of "max (sig_words x) (sig_words y) + 1" 8] mp_val_drop_mono[of 0 n z]
    by (simp_all add: z_def del: max_less_iff_conj)
  note d = plus_BigInt_def[of x y, unfolded Let_def size_create(2), folded z_def]
  have add: "mp_val (bigint_add3 z (reg x) (sig_words x) (reg y) (sig_words y)) = mag x + mag y"
    using add3_total[of "sig_words x" "reg x" "sig_words y" "reg y" z] z by simp
  have sub1: "mp_val (bigint_sub3 z (reg y) (sig_words y) (reg x) (sig_words x)) = mag y - mag x" if "mag x \<le> mag y"
    using sub3_total[of "sig_words x" "sig_words y" "reg y" "reg x" z] z sig_words_mono[OF that] that by simp
  have sub2: "mp_val (bigint_sub3 z (reg x) (sig_words x) (reg y) (sig_words y)) = mag x - mag y" if "mag y \<le> mag x"
    using sub3_total[of "sig_words y" "sig_words x" "reg x" "reg y" z] z sig_words_mono[OF that] that by simp
  have m0: "mag (BigInt_size s n :: 'a word BigInt) = 0" for s n by (simp add: mag_def)
  show "signedness x = signedness y \<Longrightarrow> mag (plus_BigInt x y) = mag x + mag y \<and> signedness (plus_BigInt x y) = signedness x"
    unfolding d using add by (simp add: mag_reg_update)
  assume s: "signedness x \<noteq> signedness y"
  show "mag (plus_BigInt x y) = (if mag x < mag y then mag y - mag x else mag x - mag y) \<and>
      signedness (plus_BigInt x y) = (if mag x < mag y then signedness y else if mag x = mag y then Positive else signedness x)"
    using s sub1 sub2 unfolding d sig_words_cmp
    by (cases "mag x" "mag y" rule: linorder_cases) (simp_all add: mag_reg_update m0)
qed

lemma plus_BigInt_val: "bigint_val (plus_BigInt x y) = bigint_val x + bigint_val y"
  using plus_BigInt_cases[of x y] sign_factor_cases[of "signedness x"] sign_factor_cases[of "signedness y"]
  by (auto simp: bigint_val_def split: if_splits)

lemma minus_BigInt_cases:
  fixes x y :: "'a::len word BigInt"
  shows "signedness x \<noteq> signedness y \<Longrightarrow> mag (minus_BigInt x y) = mag x + mag y \<and>
      signedness (minus_BigInt x y) = (if mag x < mag y then reverse_sign y else if mag x = mag y then Positive else signedness x)"
    and "signedness x = signedness y \<Longrightarrow> mag (minus_BigInt x y) = (if mag x < mag y then mag y - mag x else mag x - mag y) \<and>
      signedness (minus_BigInt x y) = (if mag x < mag y then reverse_sign y else if mag x = mag y then Positive else signedness x)"
proof -
  define z :: "'a word list" where "z = reg_create (round_up (max (sig_words x) (sig_words y) + 1) 8)"
  have z: "max (sig_words x) (sig_words y) < length z" "mp_val z = 0" "mp_val (drop n z) = 0" for n
    using round_up_ge[of "max (sig_words x) (sig_words y) + 1" 8] mp_val_drop_mono[of 0 n z]
    by (simp_all add: z_def del: max_less_iff_conj)
  note d = minus_BigInt_def[of x y, unfolded Let_def size_create(2), folded z_def]
  have add: "mp_val (bigint_add3 z (reg x) (sig_words x) (reg y) (sig_words y)) = mag x + mag y"
    using add3_total[of "sig_words x" "reg x" "sig_words y" "reg y" z] z by simp
  have sub1: "mp_val (bigint_sub3 z (reg y) (sig_words y) (reg x) (sig_words x)) = mag y - mag x" if "mag x \<le> mag y"
    using sub3_total[of "sig_words x" "sig_words y" "reg y" "reg x" z] z sig_words_mono[OF that] that by simp
  have sub2: "mp_val (bigint_sub3 z (reg x) (sig_words x) (reg y) (sig_words y)) = mag x - mag y" if "mag y \<le> mag x"
    using sub3_total[of "sig_words y" "sig_words x" "reg x" "reg y" z] z sig_words_mono[OF that] that by simp
  have m0: "mag (BigInt_size s n :: 'a word BigInt) = 0" for s n by (simp add: mag_def)
  have shl: "mp_val (bigint_shl2 z (reg x) (sig_words x) 0 1) = 2 * mag x"
  proof -
    let ?r = "bigint_shl2 z (reg x) (sig_words x) 0 1"
    have l: "1 \<le> LENGTH('a)" "sig_words x + 0 + 1 \<le> length z" using z(1) by (simp_all add: Suc_leI)
    then have "z ! (sig_words x + 0) = 0" using mp_val_zero_at[OF z(3)] by simp
    then have "drop (sig_words x + 1) ?r = drop (sig_words x + 1) z \<and> mp_val (take (sig_words x + 1) ?r) = 2 * mag x"
      using bigint_shl2_val[OF l(1) sig_words_le[of x] l(2)] by simp
    then show ?thesis using mp_val_pad[of "sig_words x + 1" ?r] z(3) by simp
  qed
  show "signedness x \<noteq> signedness y \<Longrightarrow> mag (minus_BigInt x y) = mag x + mag y \<and>
      signedness (minus_BigInt x y) = (if mag x < mag y then reverse_sign y else if mag x = mag y then Positive else signedness x)"
    using add shl unfolding d sig_words_cmp
    by (cases "mag x" "mag y" rule: linorder_cases) (simp_all add: mag_reg_update m0)
  show "signedness x = signedness y \<Longrightarrow> mag (minus_BigInt x y) = (if mag x < mag y then mag y - mag x else mag x - mag y) \<and>
      signedness (minus_BigInt x y) = (if mag x < mag y then reverse_sign y else if mag x = mag y then Positive else signedness x)"
    using sub1 sub2 unfolding d sig_words_cmp
    by (cases "mag x" "mag y" rule: linorder_cases) (simp_all add: mag_reg_update m0)
qed

lemma minus_BigInt_val:
  assumes "\<not> (signedness x = Negative \<and> signedness y = Positive \<and> mag x = mag y)"
  shows "bigint_val (minus_BigInt x y) = bigint_val x - bigint_val y"
  using minus_BigInt_cases[of x y] sign_factor_cases[of "signedness x"] sign_factor_cases[of "signedness y"] assms
  by (auto simp: bigint_val_def split: if_splits)

section \<open>Multiplication\<close>

lemma word_at_one:
  fixes x :: "'a::len word BigInt"
  assumes "sig_words x = 1"
  shows "unat (word_at x 0) = mag x"
proof -
  have "0 < length (reg x)" using assms sig_words_le[of x] by (cases "reg x") auto
  then have "mp_val (take 1 (reg x)) = unat (word_at x 0)" by (cases "reg x") (simp_all add: word_at_def size_of_def)
  then show ?thesis using mag_sig[of x] assms by simp
qed

lemma linmul3_total:
  fixes x z :: "'a::len word list"
  assumes "n \<le> length x" and "n < length z" and "mp_val (drop (Suc n) z) = 0"
  shows "length (bigint_linmul3 z x n y) = length z \<and> mp_val (bigint_linmul3 z x n y) = mp_val (take n x) * unat y"
  using bigint_linmul3_val[OF assms(1,2), of y] mp_val_pad[of "Suc n" "bigint_linmul3 z x n y"] assms(3) by simp

lemma linmul2_total:
  fixes x :: "'a::len word list"
  assumes "n < length x" and "mp_val (drop (Suc n) x) = 0"
  shows "length (bigint_linmul2 x n y) = length x \<and> mp_val (bigint_linmul2 x n y) = mp_val (take n x) * unat y"
  using bigint_linmul2_val[OF assms(1), of y] mp_val_pad[of "Suc n" "bigint_linmul2 x n y"] assms(2) by simp

lemma bigint_mul_total:
  fixes x y :: "'a::len word BigInt"
  assumes "8 \<le> LENGTH('a)" and "size_of x + size_of y \<le> length z" and "mp_val z = 0"
  shows "mp_val (fst (bigint_mul z (length z) (reg_create (length z)) (reg x) (size_of x) (sig_words x)
    (reg y) (size_of y) (sig_words y))) = mag x * mag y"
proof -
  obtain z' ws' where r: "bigint_mul z (length z) (reg_create (length z)) (reg x) (size_of x) (sig_words x)
      (reg y) (size_of y) (sig_words y) = (z', ws')" by (rule prod.exhaust)
  have "mp_val (drop (sig_words x) z) = 0" using mp_val_drop_mono[of 0 _ z] assms(3) by simp
  then show ?thesis
    using bigint_mul_val[OF assms(1) _ _ _ _ _ _ assms(2) _ _ _ r] assms(2) r by (simp add: size_of_def mag_def[symmetric])
qed

lemma times_BigInt_cases:
  fixes x y :: "'a::len word BigInt"
  assumes "8 \<le> LENGTH('a)"
  shows "mag (times_BigInt x y) = mag x * mag y \<and>
    signedness (times_BigInt x y) = (if mag x = 0 \<or> mag y = 0 \<or> signedness x = signedness y then Positive else Negative)"
proof -
  define z :: "'a word list" where "z = reg_create (round_up (size_of x + size_of y) 8)"
  have z: "size_of x + size_of y \<le> length z" "mp_val z = 0" "mp_val (drop n z) = 0" for n
    using round_up_ge[of "size_of x + size_of y" 8] mp_val_drop_mono[of 0 n z] by (simp_all add: z_def)
  define p where "p = (if sig_words x = 1 \<and> sig_words y \<noteq> 0 then bigint_linmul3 z (reg y) (sig_words y) (word_at x 0)
     else if sig_words y = 1 \<and> sig_words x \<noteq> 0 then bigint_linmul3 z (reg x) (sig_words x) (word_at y 0)
     else if sig_words x \<noteq> 0 \<and> sig_words y \<noteq> 0
     then fst (bigint_mul z (length z) (reg_create (length z)) (reg x) (size_of x) (sig_words x) (reg y) (size_of y) (sig_words y))
     else z)"
  have s: "sig_words x \<le> size_of x" "sig_words y \<le> size_of y" by (simp_all add: size_of_def)
  have p: "mp_val p = mag x * mag y"
  proof -
    have "mp_val p = mag x * mag y" if "sig_words x = 1" "sig_words y \<noteq> 0"
      using that linmul3_total[of "sig_words y" "reg y" z "word_at x 0"] word_at_one[of x] z s by (simp add: p_def)
    moreover have "mp_val p = mag x * mag y" if "sig_words x \<noteq> 1" "sig_words y = 1" "sig_words x \<noteq> 0"
      using that linmul3_total[of "sig_words x" "reg x" z "word_at y 0"] word_at_one[of y] z s by (simp add: p_def)
    moreover have "mp_val p = mag x * mag y" if "sig_words x \<noteq> 1" "sig_words y \<noteq> 1" "sig_words y \<noteq> 0" "sig_words x \<noteq> 0"
      using that bigint_mul_total[OF assms z(1,2)] by (simp add: p_def)
    moreover have "mp_val p = mag x * mag y" if "sig_words x = 0 \<or> sig_words y = 0"
      using that z(2) by (auto simp: p_def)
    ultimately show ?thesis by metis
  qed
  have r: "times_BigInt x y = (if sig_words x \<noteq> 0 \<and> sig_words y \<noteq> 0 \<and> signedness x \<noteq> signedness y
      then flip_sign \<lparr>reg = p, signedness = Positive\<rparr> else \<lparr>reg = p, signedness = Positive\<rparr>)"
    unfolding times_BigInt_def Let_def p_def z_def by (simp add: BigInt_size_def size_of_def)
  show ?thesis unfolding r using p by (auto simp: flip_sign_def mag_def reverse_sign_def)
qed

lemma times_BigInt_val:
  fixes x y :: "'a::len word BigInt"
  assumes "8 \<le> LENGTH('a)"
  shows "bigint_val (times_BigInt x y) = bigint_val x * bigint_val y"
  using times_BigInt_cases[OF assms, of x y] sign_factor_cases[of "signedness x"] sign_factor_cases[of "signedness y"]
  by (auto simp: bigint_val_def split: if_splits)

lemma mul_assign_cases:
  fixes x y :: "'a::len word BigInt"
  assumes "8 \<le> LENGTH('a)"
  shows "mag (mul_assign x y) = mag x * mag y \<and>
    signedness (mul_assign x y) = (if mag x = 0 \<or> mag y = 0 \<or> signedness x = signedness y then Positive else Negative)"
proof -
  define s where "s = (if signedness x = signedness y then Positive else Negative)"
  define v where "v = set_sign x s"
  have v: "mag v = mag x" "reg v = reg x" "signedness v = (if mag x = 0 then Positive else s)" "sig_words v = sig_words x"
    using sig_words_cong[of v x] by (simp_all add: v_def)
  note d = mul_assign_def[of x y, unfolded Let_def, folded s_def, folded v_def]
  have wa: "word_at (grow_to v n) 0 = word_at v 0" if "0 < length (reg v)" for n
    using that by (simp add: word_at_def size_of_def grow_to_def reg_grow_to_def nth_append)
  consider "sig_words x = 0 \<or> sig_words y = 0" | "sig_words x = 1" "sig_words y \<noteq> 0"
    | "sig_words x \<noteq> 1" "sig_words x \<noteq> 0" "sig_words y = 1"
    | "sig_words x \<noteq> 0" "sig_words y \<noteq> 0" "sig_words x \<noteq> 1" "sig_words y \<noteq> 1" by blast
  then show ?thesis
  proof cases
    case 1
    then show ?thesis unfolding d by (auto simp: mag_reg_update)
  next
    case 2
    let ?g = "grow_to v (sig_words y + 2)"
    have g: "sig_words y + 2 \<le> length (reg ?g)" by (rule length_grow_to)
    have "mp_val (drop (Suc (sig_words y)) (reg ?g)) = 0" using take_ge_sig[of ?g "Suc (sig_words y)"] 2 v(4) by simp
    then have "mp_val (bigint_linmul3 (reg ?g) (reg y) (sig_words y) (word_at v 0)) = mag x * mag y"
      using linmul3_total[of "sig_words y" "reg y" "reg ?g" "word_at v 0"] g word_at_one[of v] 2 v by simp
    moreover have "word_at ?g 0 = word_at v 0" using 2 v sig_words_le[of x] by (intro wa) (cases "reg x"; auto)
    ultimately show ?thesis using 2 v unfolding d by (auto simp: mag_reg_update s_def)
  next
    case 3
    let ?g = "grow_to v (sig_words x + 2)"
    have g: "sig_words x + 2 \<le> length (reg ?g)" by (rule length_grow_to)
    have "mp_val (drop (Suc (sig_words x)) (reg ?g)) = 0" "mp_val (take (sig_words x) (reg ?g)) = mag x"
      using take_ge_sig[of ?g "Suc (sig_words x)"] take_ge_sig[of ?g "sig_words x"] v by simp_all
    then have "mp_val (bigint_linmul2 (reg ?g) (sig_words x) (word_at y 0)) = mag x * mag y"
      using linmul2_total[of "sig_words x" "reg ?g" "word_at y 0"] g word_at_one[of y] 3 by simp
    moreover have "mag x \<noteq> 0" "mag y \<noteq> 0" using 3 sig_words_zero[of x] sig_words_zero[of y] by auto
    ultimately show ?thesis using 3 v unfolding d by (auto simp: mag_reg_update s_def)
  next
    case 4
    let ?g = "grow_to v (size_of v + size_of y)"
    let ?z = "take (sig_words x) (reg ?g)"
    obtain z' ws' where r: "bigint_mul (reg ?g) (size_of ?g) (reg_create (size_of ?g)) ?z (length ?z) (sig_words x)
        (reg y) (size_of y) (sig_words y) = (z', ws')" by (rule prod.exhaust)
    have g: "size_of v + size_of y \<le> length (reg ?g)" "mp_val ?z = mag x" "mp_val (drop (sig_words x) (reg ?g)) = 0"
      using length_grow_to(1)[of "size_of v + size_of y" v] take_ge_sig[of ?g "sig_words x"] v by simp_all
    have "sig_words x \<le> length (reg ?g)" using sig_words_le[of ?g] v(4) by simp
    then have l: "length ?z = sig_words x" by simp
    have "sig_words x \<le> size_of v" using sig_words_le[of v] v(4) by (simp add: size_of_def)
    then have "sig_words x + size_of y \<le> length (reg ?g)" using g(1) by simp
    then have "mp_val z' = mag x * mag y"
      using bigint_mul_val[OF assms(1) _ _ _ _ _ _ _ _ g(3) _ r] g l
      by (simp add: size_of_def mag_def[symmetric])
    then show ?thesis using 4 v r unfolding d by (auto simp: mag_reg_update s_def)
  qed
qed

lemma mul_assign_val:
  fixes x y :: "'a::len word BigInt"
  assumes "8 \<le> LENGTH('a)"
  shows "bigint_val (mul_assign x y) = bigint_val x * bigint_val y"
  using mul_assign_cases[OF assms, of x y] sign_factor_cases[of "signedness x"] sign_factor_cases[of "signedness y"]
  by (auto simp: bigint_val_def split: if_splits)

end
