(* ===== verification/BigInt_Shift.thy ===== *)
theory BigInt_Shift
  imports BigInt_Ops
begin

text \<open>
  Values of the remaining \<open>BigInt\<close> operations: construction and copies, comparison, sizes in
  bits, shifts (\<open>operator<<=\<close>, \<open>operator>>=\<close>, \<open>operator<<\<close>, \<open>operator>>\<close>) and the remainder
  modulo one word.
\<close>

section \<open>Construction, copies, comparison\<close>

lemma BigInt_empty_val [simp]: "mag BigInt_empty = 0" "signedness BigInt_empty = Positive" "bigint_val BigInt_empty = 0"
  by (simp_all add: BigInt_empty_def mag_def bigint_val_def)

lemma BigInt_u64_mag:
  assumes "LENGTH('a::len) dvd 64"
  shows "mag (BigInt_u64 n :: 'a word BigInt) = unat n"
proof (cases "n = 0")
  case False
  let ?L = "LENGTH('a)" and ?l = "64 div LENGTH('a)"
  let ?f = "\<lambda>j (r :: 'a word list). r[j := ucast (drop_bit (j * ?L) n)]"
  have l: "?l * ?L = 64" using assms by (rule dvd_div_mult_self)
  have "length (for_up 0 ?l ?f (reg_create (4 * ?l))) = 4 * ?l \<and>
      mp_val (take ?l (for_up 0 ?l ?f (reg_create (4 * ?l)))) = unat n mod (2 ^ ?L) ^ ?l \<and>
      mp_val (drop ?l (for_up 0 ?l ?f (reg_create (4 * ?l)))) = 0"
  proof (rule for_up_invariant[where I = "\<lambda>j r. length r = 4 * ?l \<and> mp_val (take j r) = unat n mod (2 ^ ?L) ^ j \<and>
      mp_val (drop j r) = 0"])
    fix j and r :: "'a word list"
    assume j: "0 \<le> j" "j < ?l" and I: "length r = 4 * ?l \<and> mp_val (take j r) = unat n mod (2 ^ ?L) ^ j \<and> mp_val (drop j r) = 0"
    have jr: "j < length r" using I j by simp
    have "unat (ucast (drop_bit (j * ?L) n) :: 'a word) = unat n div (2 ^ ?L) ^ j mod 2 ^ ?L"
      by (simp add: unsigned_ucast_eq take_bit_eq_mod unat_drop_bit mult.commute flip: power_mult)
    moreover have "mp_val (take (Suc j) (?f j r)) = mp_val (take j r) + (2 ^ ?L) ^ j * unat (?f j r ! j)"
      using jr by (simp add: mp_val_take_Suc)
    moreover have "unat n mod ((2 ^ ?L) ^ j * 2 ^ ?L) =
        (2 ^ ?L) ^ j * (unat n div (2 ^ ?L) ^ j mod 2 ^ ?L) + unat n mod (2 ^ ?L) ^ j" by (rule mod_mult2_eq)
    ultimately show "length (?f j r) = 4 * ?l \<and> mp_val (take (Suc j) (?f j r)) = unat n mod (2 ^ ?L) ^ Suc j \<and>
        mp_val (drop (Suc j) (?f j r)) = 0"
      using I jr mp_val_drop_mono[of j "Suc j" r] by (simp add: mult.commute)
  qed (simp_all add: reg_create_def)
  then have "mp_val (for_up 0 ?l ?f (reg_create (4 * ?l))) = unat n mod (2 ^ ?L) ^ ?l"
    using mp_val_pad[of ?l "for_up 0 ?l ?f (reg_create (4 * ?l))"] by linarith
  also have "(2 ^ ?L :: nat) ^ ?l = 2 ^ LENGTH(64)" using l by (simp add: mult.commute flip: power_mult)
  also have "unat n mod 2 ^ LENGTH(64) = unat n" by (rule mod_less) (rule unat_less_base)
  finally have "mp_val (for_up 0 ?l ?f (reg_create (4 * ?l))) = unat n" .
  then show ?thesis using False by (simp add: BigInt_u64_def mag_def Let_def)
qed (simp add: BigInt_u64_def)

lemma BigInt_u64_sign [simp]: "signedness (BigInt_u64 n) = Positive"
  by (simp add: BigInt_u64_def BigInt_empty_def Let_def)

lemma BigInt_u64_val: "LENGTH('a::len) dvd 64 \<Longrightarrow> bigint_val (BigInt_u64 n :: 'a word BigInt) = int (unat n)"
  by (simp add: bigint_val_def BigInt_u64_mag)

lemma BigInt_u64_wf [simp]: "bigint_wf (BigInt_u64 n)"
  by (simp add: bigint_wf_def)

lemma BigInt_copy_cases:
  "mag (BigInt_copy b) = mag b" "signedness (BigInt_copy b) = (if mag b = 0 then Positive else signedness b)"
proof -
  have "mp_val (copy_mem (reg_create (round_up (sig_words b) 8)) (reg b) (sig_words b)) = mag b"
    by (simp add: copy_mem_def reg_create_def)
  then show "mag (BigInt_copy b) = mag b" "signedness (BigInt_copy b) = (if mag b = 0 then Positive else signedness b)"
    by (simp_all add: BigInt_copy_def Let_def) (auto simp: mag_def)
qed

lemma BigInt_copy_val [simp]: "bigint_val (BigInt_copy b) = bigint_val b" "bigint_wf (BigInt_copy b)"
  by (simp_all add: bigint_val_def bigint_wf_def BigInt_copy_cases)

lemma BigInt_uminus_val: "bigint_val (BigInt_uminus x) = - bigint_val x"
  using sign_factor_cases[of "signedness x"]
  by (auto simp: BigInt_uminus_def flip_sign_def BigInt_copy_cases bigint_val_def reverse_sign_def)

lemma BigInt_abs_val: "bigint_val (BigInt_abs x) = \<bar>bigint_val x\<bar>"
  using sign_factor_cases[of "signedness x"]
  by (auto simp: BigInt_abs_def BigInt_copy_cases bigint_val_def abs_mult)

lemma BigInt_cmp_val:
  assumes "bigint_wf x" and "bigint_wf n"
  shows "BigInt_cmp x n True = sgn (bigint_val x - bigint_val n)"
proof -
  have "sgn (- int a - int b) = -1" if "a \<noteq> 0 \<or> b \<noteq> 0" for a b using that by (auto simp: sgn_if)
  moreover have "sgn (int a + int b) = 1" if "a \<noteq> 0 \<or> b \<noteq> 0" for a b using that by (auto simp: sgn_if)
  moreover have "- sgn (int (mag x) - int (mag n)) = sgn (int (mag n) - int (mag x))" by (auto simp: sgn_if)
  ultimately show ?thesis
    using assms sign_factor_cases[of "signedness x"] sign_factor_cases[of "signedness n"]
    by (auto simp: BigInt_cmp_def sig_words_cmp bigint_val_def is_positive_def is_negative_def bigint_wf_def)
qed

lemma BigInt_cmp_mag: "BigInt_cmp x n False = sgn (int (mag x) - int (mag n))"
  by (simp add: BigInt_cmp_def sig_words_cmp)

section \<open>Sizes in bits\<close>

lemma top_bit_less:
  fixes w :: "'a::len word"
  assumes "k < LENGTH('a)" and "unat w < 2 ^ Suc k"
  shows "w AND push_bit k 1 = 0 \<longleftrightarrow> unat w < 2 ^ k"
proof -
  have "w AND push_bit k 1 = 0 \<longleftrightarrow> \<not> bit w k" by (simp add: and_exp_eq_0_iff_not_bit)
  also have "bit w k \<longleftrightarrow> bit (unat w) k" using assms(1) by (simp add: bit_unsigned_iff)
  also have "bit (unat w) k \<longleftrightarrow> odd (unat w div 2 ^ k)" by (rule bit_iff_odd)
  also have "odd (unat w div 2 ^ k) \<longleftrightarrow> 2 ^ k \<le> unat w"
  proof (cases "2 ^ k \<le> unat w")
    case True
    then have "unat w div 2 ^ k = 1" using assms(2) by (intro div_nat_eqI) simp_all
    with True show ?thesis by simp
  next
    case False
    then show ?thesis by simp
  qed
  finally show ?thesis by auto
qed

lemma drop_bit_push_bit_1: "k < LENGTH('a::len) \<Longrightarrow> drop_bit 1 (push_bit k 1 :: 'a word) = (if k = 0 then 0 else push_bit (k - 1) 1)"
  by (rule bit_word_eqI) (auto simp: bit_simps)

lemma bits_loop_val:
  fixes w :: "'a::len word"
  assumes "k \<le> LENGTH('a)" and "unat w < 2 ^ k"
  shows "unat w < 2 ^ bits_loop w (push_bit (k - 1) 1) k \<and> bits_loop w (push_bit (k - 1) 1) k \<le> k \<and>
    (w \<noteq> 0 \<longrightarrow> 2 ^ bits_loop w (push_bit (k - 1) 1) k \<le> 2 * unat w)"
  using assms
proof (induction k)
  case 0
  then show ?case by (simp add: unat_eq_zero)
next
  case (Suc k)
  show ?case
  proof (cases "w AND push_bit k 1 = 0")
    case True
    then have lt: "unat w < 2 ^ k" using top_bit_less[of k w] Suc.prems by simp
    show ?thesis
    proof (cases "k = 0")
      case True
      with lt have "w = 0" by (simp add: unat_eq_zero)
      then show ?thesis using True by simp
    next
      case False
      then show ?thesis using Suc True lt drop_bit_push_bit_1[of k, where 'a = 'a] by auto
    qed
  next
    case False
    then show ?thesis using top_bit_less[of k w] Suc.prems by simp
  qed
qed

lemma bits_bounds:
  fixes x :: "'a::len word BigInt"
  shows "mag x < 2 ^ bits x" and "mag x \<noteq> 0 \<Longrightarrow> 2 ^ (bits x - 1) \<le> mag x \<and> 0 < bits x"
proof -
  let ?B = "2 ^ LENGTH('a) :: nat"
  have *: "mag x < 2 ^ bits x \<and> 2 ^ (bits x - 1) \<le> mag x \<and> 0 < bits x" if m: "mag x \<noteq> 0"
  proof -
    obtain n where n: "sig_words x = Suc n" using m sig_words_0[of x] by (cases "sig_words x") auto
    define w where "w = word_at x n"
    define t where "t = bits_loop w (push_bit (LENGTH('a) - 1) 1) LENGTH('a)"
    have b: "bits x = n * LENGTH('a) + t" by (simp add: bits_def n w_def t_def Let_def m)
    have nl: "n < length (reg x)" using n sig_words_le[of x] by simp
    then have wx: "w = reg x ! n" by (simp add: w_def word_at_def size_of_def)
    have "w \<noteq> 0" using sig_words_top[of x] n wx by simp
    then have t: "unat w < 2 ^ t" "2 ^ t \<le> 2 * unat w" using bits_loop_val[of "LENGTH('a)" w] by (simp_all add: t_def)
    have "0 < unat w" using \<open>w \<noteq> 0\<close> by (simp add: unat_gt_0)
    then have t0: "0 < t" using t(1) by (cases t) auto
    have mg: "mag x = mp_val (take n (reg x)) + ?B ^ n * unat w"
      using mp_val_take_Suc[OF nl] mag_sig[of x] n wx by simp
    have lo: "mp_val (take n (reg x)) < ?B ^ n" by (rule mp_val_take_bound)
    have "mag x < ?B ^ n + ?B ^ n * unat w" using mg lo by linarith
    also have "\<dots> = ?B ^ n * Suc (unat w)" by simp
    also have "\<dots> \<le> ?B ^ n * 2 ^ t" using t(1) by (intro mult_le_mono2) simp
    also have "\<dots> = 2 ^ bits x" by (simp add: b power_add mult.commute flip: power_mult)
    finally have up: "mag x < 2 ^ bits x" .
    obtain u where u: "t = Suc u" using t0 by (cases t) auto
    then have "2 ^ u \<le> unat w" using t(2) by simp
    then have "?B ^ n * 2 ^ u \<le> ?B ^ n * unat w" by (rule mult_le_mono2)
    then have "?B ^ n * 2 ^ u \<le> mag x" using mg by linarith
    moreover have "?B ^ n * 2 ^ u = 2 ^ (bits x - 1)" by (simp add: b u power_add mult.commute flip: power_mult)
    ultimately show ?thesis using up t0 b by simp
  qed
  then show "mag x < 2 ^ bits x" by (cases "mag x = 0") simp_all
  show "mag x \<noteq> 0 \<Longrightarrow> 2 ^ (bits x - 1) \<le> mag x \<and> 0 < bits x" using * by blast
qed

lemma bits_le_iff: "bits x \<le> n \<longleftrightarrow> mag x < 2 ^ n"
proof (cases "mag x = 0")
  case True
  then have "bits x = 0" by (simp add: bits_def)
  with True show ?thesis by simp
next
  case False
  note b = bits_bounds(1)[of x] bits_bounds(2)[OF False]
  show ?thesis
  proof
    assume "bits x \<le> n"
    then have "2 ^ bits x \<le> (2 :: nat) ^ n" by (intro power_increasing) simp_all
    with b show "mag x < 2 ^ n" by linarith
  next
    assume "mag x < 2 ^ n"
    then have "(2 :: nat) ^ (bits x - 1) < 2 ^ n" using b by linarith
    then have "bits x - 1 < n" by (rule power_less_imp_less_exp[rotated]) simp
    then show "bits x \<le> n" by simp
  qed
qed

section \<open>Shifts\<close>

lemma shift_split_bits: "(2 :: nat) ^ shift = (2 ^ l) ^ (shift div l) * 2 ^ (shift mod l)"
  by (simp flip: power_mult power_add)

lemma shl_assign_cases:
  fixes x :: "'a::len word BigInt"
  shows "mag (shl_assign x shift) = mag x * 2 ^ shift \<and> signedness (shl_assign x shift) = signedness x"
proof (cases "shift = 0")
  case False
  let ?L = "LENGTH('a)"
  let ?m = "shift div ?L" and ?s = "shift mod ?L" and ?n = "sig_words x"
  define g where "g = grow_to x (?n + ?m + (if ?s \<noteq> 0 then 1 else 0))"
  have g: "?n + ?m + (if ?s \<noteq> 0 then 1 else 0) \<le> length (reg g)" unfolding g_def by (rule length_grow_to)
  have gs: "mag g = mag x" "sig_words g = ?n" "signedness g = signedness x" by (simp_all add: g_def)
  have z: "mp_val (take ?n (reg g)) = mag x" "mp_val (drop k (reg g)) = 0" if "?n \<le> k" for k
    using take_ge_sig[of g ?n] take_ge_sig[of g k] gs that by simp_all
  have "mp_val (bigint_shl1 (reg g) ?n ?m ?s) = mag x * 2 ^ shift"
  proof (cases "?s = 0")
    case True
    then have "mp_val (bigint_shl1 (reg g) ?n ?m 0) = (2 ^ ?L) ^ ?m * mp_val (reg g)"
      using bigint_shl1_words[of ?n ?m "reg g"] g z(2)[of ?n] by simp
    with True gs show ?thesis by (simp add: shift_split_bits[of shift ?L] mag_def mult.commute)
  next
    case False
    let ?r = "bigint_shl1 (reg g) ?n ?m ?s"
    have l: "?s \<le> ?L" "?n + ?m + 1 \<le> length (reg g)" using g False by simp_all
    have "reg g ! (?n + ?m) = 0" using mp_val_zero_at[OF z(2)] l(2) by simp
    then have "drop (?n + ?m + 1) ?r = drop (?n + ?m + 1) (reg g)"
        "mp_val (take (?n + ?m + 1) ?r) = 2 ^ (?L * ?m + ?s) * mag x"
      using bigint_shl1_val[OF l] z(1)[of ?n] by simp_all
    moreover have "mp_val (drop (?n + ?m + 1) (reg g)) = 0" by (rule z(2)) simp
    ultimately show ?thesis using mp_val_pad[of "?n + ?m + 1" ?r] by (simp add: mult.commute)
  qed
  then show ?thesis using False gs(3) unfolding shl_assign_def Let_def g_def[symmetric] by (simp add: mag_reg_update)
qed (simp add: shl_assign_def)

lemma shl_assign_val: "bigint_val (shl_assign x shift) = bigint_val x * 2 ^ shift"
  using shl_assign_cases[of x shift] by (simp add: bigint_val_def)

lemma shl_BigInt_cases:
  fixes x :: "'a::len word BigInt"
  assumes "bigint_wf x"
  shows "mag (shl_BigInt x shift) = mag x * 2 ^ shift \<and> signedness (shl_BigInt x shift) = signedness x"
proof (cases "shift = 0")
  case True
  then show ?thesis using assms by (simp add: shl_BigInt_def BigInt_copy_cases bigint_wf_def)
next
  case False
  let ?L = "LENGTH('a)"
  let ?m = "shift div ?L" and ?s = "shift mod ?L" and ?n = "sig_words x"
  define y :: "'a word list" where "y = reg_create (round_up (?n + ?m + (if ?s \<noteq> 0 then 1 else 0)) 8)"
  have y: "?n + ?m + (if ?s \<noteq> 0 then 1 else 0) \<le> length y" using round_up_ge by (simp add: y_def)
  have z: "mp_val y = 0" "mp_val (drop k y) = 0" for k using mp_val_drop_mono[of 0 k y] by (simp_all add: y_def)
  have "mp_val (bigint_shl2 y (reg x) ?n ?m ?s) = mag x * 2 ^ shift"
  proof (cases "?s = 0")
    case True
    then show ?thesis using bigint_shl2_words[of ?n "reg x" ?m y] y z by (simp add: shift_split_bits[of shift ?L] mult.commute)
  next
    case False
    let ?r = "bigint_shl2 y (reg x) ?n ?m ?s"
    have l: "?s \<le> ?L" "?n + ?m + 1 \<le> length y" using y False by simp_all
    have "take ?m y = replicate ?m 0" "y ! (?n + ?m) = 0" using l(2) by (simp_all add: y_def reg_create_def)
    then have "drop (?n + ?m + 1) ?r = drop (?n + ?m + 1) y" "mp_val (take (?n + ?m + 1) ?r) = 2 ^ (?L * ?m + ?s) * mag x"
      using bigint_shl2_val[OF l(1) sig_words_le[of x] l(2)] by simp_all
    then show ?thesis using mp_val_pad[of "?n + ?m + 1" ?r] z(2) by (simp add: mult.commute)
  qed
  then show ?thesis using False unfolding shl_BigInt_def Let_def size_create(2) y_def[symmetric] by (simp add: mag_reg_update)
qed

lemma shr_assign_cases:
  fixes x :: "'a::len word BigInt"
  shows "mag (shr_assign x shift) = mag x div 2 ^ shift \<and>
    signedness (shr_assign x shift) = (if shift \<noteq> 0 \<and> mag x div 2 ^ shift = 0 then Positive else signedness x)"
proof (cases "shift = 0")
  case False
  let ?L = "LENGTH('a)"
  let ?r = "bigint_shr1 (reg x) (sig_words x) (shift div ?L) (shift mod ?L)"
  have l: "shift mod ?L \<le> ?L" by simp
  have "drop (sig_words x) ?r = drop (sig_words x) (reg x)" "mp_val (take (sig_words x) ?r) = mag x div 2 ^ shift"
    using bigint_shr1_val[OF l sig_words_le[of x], of "shift div ?L"] by simp_all
  then have "mp_val ?r = mag x div 2 ^ shift" using mp_val_pad[of "sig_words x" ?r] by simp
  then show ?thesis using False unfolding shr_assign_def Let_def by (simp add: mag_reg_update)
qed (simp add: shr_assign_def)

lemma shr_assign_val: "bigint_val (shr_assign x shift) = sign_factor (signedness x) * (int (mag x) div 2 ^ shift)"
proof -
  have "int (mag x) div 2 ^ shift = int (mag x div 2 ^ shift)" by (simp add: zdiv_int)
  then show ?thesis using shr_assign_cases[of x shift] by (auto simp: bigint_val_def)
qed

lemma shr_assign_wf: "bigint_wf x \<Longrightarrow> bigint_wf (shr_assign x shift)"
  using shr_assign_cases[of x shift] by (auto simp: bigint_wf_def)

lemma shr_BigInt_cases:
  fixes x :: "'a::len word BigInt"
  assumes "bigint_wf x"
  shows "mag (shr_BigInt x shift) = mag x div 2 ^ shift \<and>
    signedness (shr_BigInt x shift) = (if mag x div 2 ^ shift = 0 then Positive else signedness x)"
proof (cases "shift = 0 \<or> bits x \<le> shift")
  case True
  then show ?thesis
    using assms bits_le_iff[of x shift] by (auto simp: shr_BigInt_def BigInt_copy_cases bigint_wf_def BigInt_u64_def)
next
  case False
  let ?L = "LENGTH('a)"
  let ?m = "shift div ?L" and ?n = "sig_words x"
  define y :: "'a word list" where "y = reg_create (round_up (?n - ?m) 8)"
  let ?r = "bigint_shr2 y (reg x) ?n ?m (shift mod ?L)"
  have big: "2 ^ shift \<le> mag x" using False bits_le_iff[of x shift] by simp
  have "(2 ^ ?L :: nat) ^ ?m \<le> 2 ^ shift" unfolding shift_split_bits[of shift ?L] by simp
  then have "(2 ^ ?L) ^ ?m < (2 ^ ?L :: nat) ^ ?n" using big mag_lt[of x] by linarith
  then have "?m < ?n" by (rule power_less_imp_less_exp[rotated]) (rule one_less_power; simp)
  then have m: "?m \<le> ?n" by simp
  have y: "?n - ?m \<le> length y" "mp_val (drop k y) = 0" for k
    using round_up_ge mp_val_drop_mono[of 0 k y] by (simp_all add: y_def)
  have l: "shift mod ?L \<le> ?L" by simp
  have "drop (?n - ?m) ?r = drop (?n - ?m) y" "mp_val (take (?n - ?m) ?r) = mag x div 2 ^ shift"
    using bigint_shr2_val[OF l sig_words_le[of x] m y(1)] by simp_all
  then have "mp_val ?r = mag x div 2 ^ shift" using mp_val_pad[of "?n - ?m" ?r] y(2) by simp
  moreover have "mag x div 2 ^ shift \<noteq> 0" using big by (simp add: div_greater_zero_iff)
  ultimately show ?thesis using False unfolding shr_BigInt_def Let_def size_create(2) y_def[symmetric] by (simp add: mag_reg_update)
qed

section \<open>The remainder modulo one word\<close>

lemma power_of_2_iff:
  fixes m :: "'a::len word"
  assumes "power_of_2 m"
  obtains k where "unat m = 2 ^ k" and "k < LENGTH('a)"
proof -
  have "m \<noteq> 0" using assms by (simp add: power_of_2_def)
  then have "1 \<le> unat m" by (simp add: unat_gt_0 Suc_leI)
  then obtain k where k: "2 ^ k \<le> unat m" "unat m < 2 ^ (k + 1)" using ex_power_ivl1[of 2 "unat m"] by auto
  have kL: "k < LENGTH('a)"
  proof (rule ccontr)
    assume "\<not> k < LENGTH('a)"
    then have "(2 :: nat) ^ LENGTH('a) \<le> 2 ^ k" by (intro power_increasing) simp_all
    then show False using k(1) unat_less_base[of m] by linarith
  qed
  have bit: "bit w k" if "2 ^ k \<le> unat w" "unat w < 2 ^ Suc k" for w :: "'a word"
    using top_bit_less[OF kL that(2)] that(1) by (simp add: and_exp_eq_0_iff_not_bit)
  have "unat m = 2 ^ k"
  proof (rule ccontr)
    assume ne: "unat m \<noteq> 2 ^ k"
    have "unat (m - 1) = unat m - 1" using \<open>m \<noteq> 0\<close> by (rule unat_minus_one)
    then have "bit (m - 1) k" using ne k by (intro bit) simp_all
    moreover have "bit m k" using k by (intro bit) simp_all
    ultimately have "bit (m AND (m - 1)) k" by (simp add: bit_and_iff)
    then show False using assms by (simp add: power_of_2_def)
  qed
  with kL that show thesis by blast
qed

lemma and_power_of_2:
  fixes m w :: "'a::len word"
  assumes "power_of_2 m"
  shows "unat (w AND (m - 1)) = unat w mod unat m"
proof -
  obtain k where k: "unat m = 2 ^ k" "k < LENGTH('a)" using power_of_2_iff[OF assms] .
  have "unat (m - 1) = 2 ^ k - 1"
    using unat_minus_one[of m] assms k(1) by (simp add: power_of_2_def)
  also have "\<dots> = Bit_Operations.mask k" by (simp add: mask_eq_exp_minus_1)
  finally have "unat (w AND (m - 1)) = unat w AND Bit_Operations.mask k" by (simp add: unsigned_and_eq)
  also have "\<dots> = unat w mod 2 ^ k" by (simp add: take_bit_eq_mod flip: take_bit_eq_mask)
  finally show ?thesis by (simp add: k(1))
qed

lemma mod_word_loop_val:
  fixes x :: "'a::len word BigInt"
  assumes "m \<noteq> 0"
  shows "unat (mod_word_loop x m) = mag x mod unat m"
proof -
  let ?n = "sig_words x"
  let ?f = "\<lambda>j r. bigint_modop r (word_at x (j - 1)) m"
  have "unat (for_down ?n 0 ?f 0) = mp_val (drop 0 (take ?n (reg x))) mod unat m"
  proof (rule for_down_invariant[where I = "\<lambda>j r. unat r = mp_val (drop j (take ?n (reg x))) mod unat m"])
    fix j and r :: "'a word"
    assume j: "0 < j" "j \<le> ?n" and I: "unat r = mp_val (drop j (take ?n (reg x))) mod unat m"
    have jl: "j - 1 < length (take ?n (reg x))" using j sig_words_le[of x] by simp
    have "j - 1 < length (reg x)" using j sig_words_le[of x] by linarith
    then have w: "word_at x (j - 1) = reg x ! (j - 1)" by (simp add: word_at_def size_of_def)
    have "drop (j - 1) (take ?n (reg x)) = reg x ! (j - 1) # drop j (take ?n (reg x))"
      using Cons_nth_drop_Suc[OF jl] j by simp
    then have "mp_val (drop (j - 1) (take ?n (reg x))) =
        unat (reg x ! (j - 1)) + 2 ^ LENGTH('a) * mp_val (drop j (take ?n (reg x)))" by simp
    then show "unat (?f j r) = mp_val (drop (j - 1) (take ?n (reg x))) mod unat m"
      using bigint_modop_val[OF assms, of r "word_at x (j - 1)"] w I
      by (simp add: mod_add_left_eq mod_mult_left_eq add.commute mult.commute) (metis mod_add_right_eq mod_mult_right_eq)
  qed simp_all
  then show ?thesis by (simp add: mod_word_loop_def)
qed

lemma word_at_0_mod:
  fixes x :: "'a::len word BigInt"
  assumes "k \<le> LENGTH('a)"
  shows "unat (word_at x 0) mod 2 ^ k = mag x mod 2 ^ k"
proof (cases "reg x")
  case Nil
  then show ?thesis by (simp add: word_at_def size_of_def mag_def)
next
  case (Cons w ws)
  have "(2 :: nat) ^ LENGTH('a) = 2 ^ k * 2 ^ (LENGTH('a) - k)" using assms by (simp flip: power_add)
  then have "mag x mod 2 ^ k = unat w mod 2 ^ k" using Cons by (simp add: mag_def mult.assoc)
  with Cons show ?thesis by (simp add: word_at_def size_of_def)
qed

lemma mod_word_mag:
  fixes n :: "'a::len word BigInt"
  assumes "m \<noteq> 0"
  shows "power_of_2 m \<Longrightarrow> unat (word_at n 0 AND (m - 1)) = mag n mod unat m"
    and "unat (mod_word_loop n m) = mag n mod unat m"
proof -
  assume p: "power_of_2 m"
  obtain k where "unat m = 2 ^ k" "k < LENGTH('a)" using power_of_2_iff[OF p] .
  then show "unat (word_at n 0 AND (m - 1)) = mag n mod unat m"
    using and_power_of_2[OF p] word_at_0_mod[of k n] by simp
qed (rule mod_word_loop_val[OF assms])

lemma uint_mod: "unat w = a mod unat m \<Longrightarrow> uint w = int a mod uint m"
  by (metis uint_nat zmod_int)

lemma mod_word_val:
  fixes n :: "'a::len word BigInt"
  assumes "m \<noteq> 0" and "\<not> (power_of_2 m \<and> is_negative n)"
  shows "\<exists>r. mod_word n m = Inr r \<and> uint r = bigint_val n mod uint m"
proof (cases "is_negative n")
  case False
  then have "bigint_val n = int (mag n)" by (cases "signedness n") (simp_all add: is_negative_def bigint_val_def)
  then show ?thesis
    using assms False mod_word_mag[OF assms(1), of n, THEN uint_mod] by (auto simp: mod_word_def Let_def)
next
  case True
  let ?r = "mod_word_loop n m"
  have v: "bigint_val n = - int (mag n)" using True by (simp add: is_negative_def bigint_val_def)
  have r: "uint ?r = int (mag n) mod uint m" using mod_word_mag(2)[OF assms(1)] by (rule uint_mod)
  have "uint m \<noteq> 0" "0 \<le> uint m" using assms(1) by (simp_all add: uint_0_iff)
  then have m0: "0 < uint m" by linarith
  have "uint (m - ?r) = (- int (mag n)) mod uint m" if "?r \<noteq> 0"
  proof -
    have "uint ?r < uint m" using r m0 by simp
    then have "uint (m - ?r) = uint m - uint ?r" by (simp add: uint_sub_if')
    moreover have "uint ?r \<noteq> 0" using that by (simp add: uint_0_iff)
    ultimately show ?thesis using r by (simp add: zmod_zminus1_eq_if)
  qed
  moreover have "(- int (mag n)) mod uint m = 0" if "?r = 0"
    using r that by (simp add: zmod_zminus1_eq_if)
  ultimately show ?thesis using assms True v by (auto simp: mod_word_def Let_def)
qed

end
