(* ===== verification/BigInt_Divide.thy ===== *)
theory BigInt_Divide
  imports BigInt_Shift "HOL-Library.While_Combinator"
begin

text \<open>
  Division with remainder (\<open>src/math/bigint/divide.cpp\<close>, the algorithm D of Knuth) and the
  operators on it (\<open>big_ops3.cpp\<close>, \<open>big_ops2.cpp\<close>). A \<open>while\<close> loop is a \<open>while_option\<close>;
  the result is \<open>None\<close> if one of them does not end, which the correctness theorem excludes.
  An index \<open>j - k\<close> below zero wraps to a \<open>u32bit\<close> past the end of any register, where
  \<open>word_at\<close> reads zero (\<open>word_at_minus\<close>).
\<close>

section \<open>Definitions\<close>

definition sign_fixup ::
  "'a::len word BigInt \<Rightarrow> 'a word BigInt \<Rightarrow> 'a word BigInt \<Rightarrow> 'a word BigInt \<Rightarrow> 'a word BigInt \<times> 'a word BigInt" where
  "sign_fixup x y q r =
     (let (q, r) = (if signedness x = Negative
                    then let q = flip_sign q
                         in if is_nonzero r then (decrement q, minus_BigInt (BigInt_abs y) r) else (q, r)
                    else (q, r));
          q = (if signedness y = Negative then flip_sign q else q)
      in (q, r))"

definition word_at_minus :: "'a::len word BigInt \<Rightarrow> nat \<Rightarrow> nat \<Rightarrow> 'a word" where
  "word_at_minus x j k = (if k \<le> j then word_at x (j - k) else 0)"

text \<open>\<open>while (y_top < MP_WORD_TOP_BIT) { y_top <<= 1; ++shifts; }\<close>\<close>

definition normalize_loop :: "'a::len word \<Rightarrow> ('a word \<times> nat) option" where
  "normalize_loop y_top =
     while_option (\<lambda>(y_top, shifts). y_top < push_bit (LENGTH('a) - 1) 1)
       (\<lambda>(y_top, shifts). (push_bit 1 y_top, shifts + 1)) (y_top, 0)"

text \<open>One round of the main loop.\<close>

definition divide_digit ::
  "'a::len word BigInt \<Rightarrow> nat \<Rightarrow> nat \<Rightarrow> 'a word BigInt \<times> 'a word BigInt \<Rightarrow> ('a word BigInt \<times> 'a word BigInt) option" where
  "divide_digit y t j s = (case s of (q, r) \<Rightarrow>
     let x_j0 = word_at r j;
         x_j1 = word_at_minus r j 1;
         y_t = word_at y t;
         d = (if x_j0 = y_t then -1 else bigint_divop x_j0 x_j1 y_t)
     in case while_option
              (\<lambda>d. bigint_divcore d y_t (word_at_minus y t 1) x_j0 x_j1 (word_at_minus r j 2)) (\<lambda>d. d - 1) d of
          None \<Rightarrow> None
        | Some d \<Rightarrow>
            let r = sub_assign r (shl_BigInt (times_BigInt (BigInt_u64 (ucast d)) y) (LENGTH('a) * (j - t - 1)));
                (r, d) = (if is_negative r
                          then (add_assign r (shl_BigInt y (LENGTH('a) * (j - t - 1))), d - 1)
                          else (r, d))
            in Some (q\<lparr>reg := (reg q)[j - t - 1 := d]\<rparr>, r))"

definition divide_loop ::
  "'a::len word BigInt \<Rightarrow> nat \<Rightarrow> nat \<Rightarrow> 'a word BigInt \<times> 'a word BigInt \<Rightarrow> ('a word BigInt \<times> 'a word BigInt) option" where
  "divide_loop y n t s = for_down n t (\<lambda>j s. Option.bind s (divide_digit y t j)) (Some s)"

text \<open>\<open>while (r > y) { r -= y; ++q; }\<close> and \<open>while (r >= temp) { r -= temp; ++q[n-t]; }\<close>\<close>

definition divide_short ::
  "'a::len word BigInt \<Rightarrow> 'a word BigInt \<times> 'a word BigInt \<Rightarrow> ('a word BigInt \<times> 'a word BigInt) option" where
  "divide_short y s =
     while_option (\<lambda>(q, r). BigInt_cmp r y True > 0) (\<lambda>(q, r). (increment q, sub_assign r y)) s"

definition divide_top ::
  "'a::len word BigInt \<Rightarrow> nat \<Rightarrow> 'a word BigInt \<times> 'a word BigInt \<Rightarrow> ('a word BigInt \<times> 'a word BigInt) option" where
  "divide_top temp i s =
     while_option (\<lambda>(q, r). BigInt_cmp r temp True \<ge> 0)
       (\<lambda>(q, r). (q\<lparr>reg := (reg q)[i := reg q ! i + 1]\<rparr>, sub_assign r temp)) s"

text \<open>\<open>q\<close> is the object passed in for the quotient: only its sign is read.\<close>

definition divide ::
  "'a::len word BigInt \<Rightarrow> 'a word BigInt \<Rightarrow> 'a word BigInt \<Rightarrow>
    (botan_error + 'a word BigInt \<times> 'a word BigInt) option" where
  "divide x y_arg q =
     (if is_zero y_arg then Some (Inl DivideByZero)
      else
        let y = BigInt_copy y_arg;
            y_words = sig_words y;
            r = set_sign x Positive;
            y = set_sign y Positive;
            compare = BigInt_cmp r y True
        in if compare < 0 then Some (Inr (sign_fixup x y_arg (BigInt_u64 0) r))
           else if compare = 0 then Some (Inr (sign_fixup x y_arg (BigInt_u64 1) (BigInt_u64 0)))
           else
             (case normalize_loop (reg y ! (sig_words y - 1)) of
                None \<Rightarrow> None
              | Some (y_top, shifts) \<Rightarrow>
                  let y = shl_assign y shifts;
                      r = shl_assign r shifts;
                      n = sig_words r - 1;
                      t = y_words - 1;
                      q = q\<lparr>reg := reg_create (n - t + 1)\<rparr>
                  in if n \<le> t
                     then map_option (\<lambda>(q, r). Inr (sign_fixup x y_arg q (shr_assign r shifts))) (divide_short y (q, r))
                     else
                       let temp = shl_BigInt y (LENGTH('a) * (n - t))
                       in map_option (\<lambda>(q, r). Inr (sign_fixup x y_arg q (shr_assign r shifts)))
                            (Option.bind (divide_top temp (n - t) (q, r)) (divide_loop y n t))))"

definition div_BigInt ::
  "'a::len word BigInt \<Rightarrow> 'a word BigInt \<Rightarrow> (botan_error + 'a word BigInt) option" where
  "div_BigInt x y = map_option (map_sum id fst) (divide x y BigInt_empty)"

definition mod_BigInt ::
  "'a::len word BigInt \<Rightarrow> 'a word BigInt \<Rightarrow> (botan_error + 'a word BigInt) option" where
  "mod_BigInt n m =
     (if is_zero m then Some (Inl DivideByZero)
      else if is_negative m then Some (Inl (Invalid_Argument ''BigInt::operator%: modulus must be > 0''))
      else if is_positive n \<and> is_positive m \<and> BigInt_cmp n m True < 0 then Some (Inr (BigInt_copy n))
      else map_option (map_sum id snd) (divide n m BigInt_empty))"

definition div_assign ::
  "'a::len word BigInt \<Rightarrow> 'a word BigInt \<Rightarrow> (botan_error + 'a word BigInt) option" where
  "div_assign x y =
     (if sig_words y = 1 \<and> power_of_2 (word_at y 0) then Some (Inr (shr_assign x (bits y - 1)))
      else div_BigInt x y)"

definition mod_assign ::
  "'a::len word BigInt \<Rightarrow> 'a word BigInt \<Rightarrow> (botan_error + 'a word BigInt) option" where
  "mod_assign x m = mod_BigInt x m"

section \<open>Loops that end\<close>

lemma while_total:
  assumes "P s" and "\<And>s. P s \<Longrightarrow> b s \<Longrightarrow> P (c s) \<and> f (c s) < (f s :: nat)"
  shows "\<exists>t. while_option b c s = Some t \<and> P t \<and> \<not> b t"
proof -
  obtain t where t: "while_option b c s = Some t"
    using measure_while_option_Some[of P b c f s] assms by blast
  moreover have "P t"
  proof (rule while_option_rule[where P = P and b = b and c = c and s = s])
    show "P s" "while_option b c s = Some t" by fact+
  qed (rule assms(2)[THEN conjunct1])
  moreover have "\<not> b t" by (rule while_option_stop[OF t])
  ultimately show ?thesis by blast
qed

lemma while_once: "b s \<Longrightarrow> \<not> b (c s) \<Longrightarrow> while_option b c s = Some (c s)"
  using while_option_unfold[of b c s] while_option_unfold[of b c "c s"] by simp

lemma while_not: "\<not> b s \<Longrightarrow> while_option b c s = Some s"
  using while_option_unfold[of b c s] by simp

lemma normalize_loop_ends:
  fixes w :: "'a::len word"
  assumes "w \<noteq> 0"
  shows "\<exists>w' s. normalize_loop w = Some (w', s) \<and> s < LENGTH('a) \<and>
    2 ^ (LENGTH('a) - 1) \<le> 2 ^ s * unat w \<and> 2 ^ s * unat w < 2 ^ LENGTH('a)"
proof -
  let ?b = "\<lambda>(y_top :: 'a word, shifts :: nat). y_top < push_bit (LENGTH('a) - 1) 1"
  let ?c = "\<lambda>(y_top :: 'a word, shifts). (push_bit 1 y_top, shifts + 1)"
  let ?P = "\<lambda>p. unat (fst p) = 2 ^ snd p * unat w \<and> snd p < LENGTH('a)"
  have top_bit: "unat (push_bit (LENGTH('a) - 1) 1 :: 'a word) = 2 ^ (LENGTH('a) - 1)"
  proof -
    have "unat (push_bit (LENGTH('a) - 1) 1 :: 'a word) = 2 ^ (LENGTH('a) - 1) mod 2 ^ LENGTH('a)"
      unfolding unsigned_push_bit_eq by (simp add: take_bit_eq_mod push_bit_eq_mult)
    also have "\<dots> = 2 ^ (LENGTH('a) - 1)" by (rule mod_less) (simp add: power_strict_increasing)
    finally show ?thesis .
  qed
  have L: "2 * 2 ^ (LENGTH('a) - 1) = (2 :: nat) ^ LENGTH('a)" by (simp flip: power_Suc)
  have w0: "0 < unat w" using assms by (simp add: unat_gt_0)
  have "\<exists>t. while_option ?b ?c (w, 0) = Some t \<and> ?P t \<and> \<not> ?b t"
  proof (rule while_total[where f = "\<lambda>p. LENGTH('a) - snd p"])
    fix p assume P: "?P p" and b: "?b p"
    then have "fst p < push_bit (LENGTH('a) - 1) 1" by (simp only: case_prod_beta)
    then have lt: "unat (fst p) < 2 ^ (LENGTH('a) - 1)" unfolding word_less_nat_alt top_bit .
    then have "unat (drop_bit (LENGTH('a) - 1) (fst p)) = 0" unfolding unat_drop_bit by (rule div_less)
    then have "unat (push_bit 1 (fst p)) = 2 * unat (fst p)" using shift_split[of 1 "fst p"] by (simp add: Suc_leI)
    moreover have "Suc (snd p) < LENGTH('a)"
    proof -
      have "2 ^ snd p \<le> 2 ^ snd p * unat w" using w0 by simp
      then have "2 ^ snd p < (2 :: nat) ^ (LENGTH('a) - 1)" using lt P by linarith
      then have "snd p < LENGTH('a) - 1" by (rule power_less_imp_less_exp[rotated]) simp
      then show ?thesis by simp
    qed
    ultimately show "?P (?c p) \<and> LENGTH('a) - snd (?c p) < LENGTH('a) - snd p" using P by (simp add: case_prod_beta)
  qed simp
  then obtain w' s where r: "normalize_loop w = Some (w', s)" "unat w' = 2 ^ s * unat w" "s < LENGTH('a)"
      "\<not> w' < push_bit (LENGTH('a) - 1) 1"
    by (auto simp: normalize_loop_def)
  then show ?thesis using unat_less_base[of w'] unfolding word_less_nat_alt top_bit by auto
qed

section \<open>The quotient digit\<close>

lemma word_at_val: "unat (word_at x i) = mag x div (2 ^ LENGTH('a)) ^ i mod 2 ^ LENGTH('a)" for x :: "'a::len word BigInt"
proof (cases "i < length (reg x)")
  case True
  then have "mag x div (2 ^ LENGTH('a)) ^ i = mp_val (drop i (reg x))" by (simp add: mp_val_drop mag_def)
  also have "\<dots> = unat (reg x ! i) + 2 ^ LENGTH('a) * mp_val (drop (Suc i) (reg x))"
    using True by (simp flip: Cons_nth_drop_Suc)
  finally show ?thesis using True by (simp add: word_at_def size_of_def)
next
  case False
  have "mag x div (2 ^ LENGTH('a)) ^ i = mp_val (drop i (reg x))" by (simp only: mp_val_drop mag_def)
  with False show ?thesis by (simp add: word_at_def size_of_def)
qed

text \<open>Knuth's bounds on the trial digit, over the naturals; \<open>S\<close> is the place of the digit.\<close>

lemma digit_lower:
  fixes Bt S Bj yt Y q R :: nat
  assumes "Bt * S = Bj" and "yt * Bt \<le> Y" and "q * (Y * S) \<le> R"
  shows "q * yt * Bj \<le> R"
proof -
  have "q * yt * Bj = q * (yt * Bt * S)" by (simp only: assms(1)[symmetric] mult_ac)
  also have "\<dots> \<le> q * (Y * S)" using assms(2) by (intro mult_le_mono2 mult_le_mono1)
  finally show ?thesis using assms(3) by linarith
qed

lemma digit_upper:
  fixes B :: nat
  assumes "Bt * S = Bj" and "Y * B < (yy + 1) * Bt" and "d * yy * Bj \<le> R * B" and "d < B" and "Bt \<le> Y" and "0 < S"
  shows "d * (Y * S) < R + Y * S"
proof -
  have "0 < Bt" using assms(2) by (cases Bt) auto
  then have pos: "0 < Y * S" using assms(5,6) by simp
  have "d * (Y * S) * B = d * (Y * B) * S" by (simp add: mult_ac)
  also have "\<dots> \<le> d * ((yy + 1) * Bt) * S" using assms(2) by (intro mult_le_mono1 mult_le_mono2) simp
  also have "\<dots> = d * yy * Bj + d * Bj" by (simp add: assms(1)[symmetric] algebra_simps)
  also have "\<dots> \<le> R * B + d * Bj" using assms(3) by simp
  also have "\<dots> < R * B + B * (Y * S)"
  proof -
    have "Bj \<le> Y * S" using assms(5) unfolding assms(1)[symmetric] by simp
    then have "d * Bj \<le> d * (Y * S)" by simp
    also have "\<dots> < B * (Y * S)" using assms(4) pos by simp
    finally show ?thesis by simp
  qed
  finally have "d * (Y * S) * B < (R + Y * S) * B" by (simp add: algebra_simps)
  then show ?thesis by simp
qed

lemma div_power_Suc: "v div B ^ Suc k = v div B ^ k div B" for v B :: nat
  by (simp only: power_Suc2 div_mult2_eq)

text \<open>The trial digit before the correction loop is not too small.\<close>

lemma trial_start:
  fixes r y :: "'a::len word BigInt"
  defines "B \<equiv> 2 ^ LENGTH('a) :: nat"
  assumes j: "t < j" and y: "B ^ t \<le> mag y" "mag y < B ^ Suc t" and r: "mag r < mag y * B ^ (j - t)"
  defines "q \<equiv> mag r div (mag y * B ^ (j - t - 1))"
  shows "q < B \<and> q \<le> unat (if word_at r j = word_at y t then -1 else bigint_divop (word_at r j) (word_at_minus r j 1) (word_at y t))"
proof -
  define S where "S = B ^ (j - t - 1)"
  have B: "0 < B" by (simp add: B_def)
  have SB: "B ^ (j - t) = S * B" using j by (simp add: S_def power_Suc2 flip: power_Suc2 Suc_diff_Suc)
  have S: "B ^ t * S = B ^ (j - 1)" "B ^ t * (S * B) = B ^ j"
    using j unfolding SB[symmetric] by (simp_all add: S_def flip: power_add)
  have qB: "q < B" unfolding q_def S_def[symmetric] using r unfolding SB by (simp add: less_mult_imp_div_less mult_ac)
  have yt: "unat (word_at y t) = mag y div B ^ t"
    using y B by (simp add: word_at_val flip: B_def) (simp add: less_mult_imp_div_less mult.commute)
  have rj: "mag r div B ^ j \<le> mag y div B ^ t"
  proof -
    have "mag r div B ^ j = mag r div (S * B) div B ^ t" by (simp add: S(2)[symmetric] div_mult2_eq mult.commute[of "B ^ t"])
    also have "\<dots> \<le> mag y div B ^ t" using r unfolding SB by (intro div_le_mono) (simp add: less_mult_imp_div_less less_imp_le)
    finally show ?thesis .
  qed
  have xj: "unat (word_at r j) = mag r div B ^ j"
    using rj yt unat_less_base[of "word_at y t"] by (simp add: word_at_val flip: B_def)
  have "q \<le> unat (if word_at r j = word_at y t then -1 else bigint_divop (word_at r j) (word_at_minus r j 1) (word_at y t))"
  proof (cases "word_at r j = word_at y t")
    case True
    with qB show ?thesis by (simp add: unsigned_minus_1_eq_mask mask_eq_exp_minus_1 B_def)
  next
    case False
    have lt: "mag r div B ^ j < mag y div B ^ t"
      using rj False xj yt by (metis le_neq_implies_less word_unat_eq_iff)
    then have y0: "word_at y t \<noteq> 0" using yt by (metis gr_implies_not0 unat_0)
    have X2: "mag r div B ^ j * B + unat (word_at_minus r j 1) = mag r div B ^ (j - 1)"
    proof -
      have "mag r div B ^ j = mag r div B ^ (j - 1) div B" using j by (cases j) (simp_all add: div_power_Suc del: power_Suc)
      moreover have "unat (word_at_minus r j 1) = mag r div B ^ (j - 1) mod B"
        using j by (simp add: word_at_minus_def word_at_val B_def)
      ultimately show ?thesis by simp
    qed
    have "q * (mag y * S) \<le> mag r" by (simp add: q_def S_def)
    then have "q * (mag y div B ^ t) * B ^ (j - 1) \<le> mag r"
      by (intro digit_lower[OF S(1)]) simp_all
    then have "q * (mag y div B ^ t) \<le> mag r div B ^ (j - 1)" using B by (simp add: less_eq_div_iff_mult_less_eq)
    then have "q \<le> mag r div B ^ (j - 1) div (mag y div B ^ t)" using lt by (simp add: less_eq_div_iff_mult_less_eq)
    moreover have "unat (bigint_divop (word_at r j) (word_at_minus r j 1) (word_at y t)) =
        mag r div B ^ (j - 1) div (mag y div B ^ t)"
      using bigint_divop_val[OF y0, of "word_at r j" "word_at_minus r j 1"] X2 lt
      by (simp add: xj yt flip: B_def)
    ultimately show ?thesis using False by simp
  qed
  with qB show ?thesis by simp
qed

text \<open>The correction loop ends with a digit that is right or one too large.\<close>

lemma trial_loop:
  fixes r y :: "'a::len word BigInt" and d :: "'a word"
  defines "B \<equiv> 2 ^ LENGTH('a) :: nat"
  assumes j: "t < j" and y: "B ^ t \<le> mag y" "mag y < B ^ Suc t" and r: "mag r < mag y * B ^ (j - t)"
  defines "q \<equiv> mag r div (mag y * B ^ (j - t - 1))"
  assumes d: "q \<le> unat d"
  shows "\<exists>d'. while_option
      (\<lambda>d. bigint_divcore d (word_at y t) (word_at_minus y t 1) (word_at r j) (word_at_minus r j 1) (word_at_minus r j 2))
      (\<lambda>d. d - 1) d = Some d' \<and> q \<le> unat d' \<and> unat d' \<le> Suc q"
proof -
  define S where "S = B ^ (j - t - 1)"
  have B: "0 < B" by (simp add: B_def)
  have SB: "B ^ (j - t) = S * B" using j by (simp add: S_def power_Suc2 flip: power_Suc2 Suc_diff_Suc)
  have S: "B ^ t * S = B ^ (j - 1)" "B ^ t * (S * B) = B ^ j"
    using j unfolding SB[symmetric] by (simp_all add: S_def flip: power_add)
  have top: "v div B ^ k mod B = v div B ^ k" if "v < B ^ Suc k" for v k
    using that B by (simp add: less_mult_imp_div_less mult.commute)
  have below: "v div B ^ k mod B + B * (v div B ^ Suc k) = v div B ^ k" for v k
    by (simp only: div_power_Suc mod_mult_div_eq)
  have rj: "mag r < B ^ Suc j"
  proof -
    have "mag r < mag y * (S * B)" using r by (simp only: SB)
    also have "\<dots> \<le> B ^ Suc t * (S * B)" using y(2) by (intro mult_le_mono1) simp
    also have "\<dots> = B ^ Suc j" using S(2) by simp
    finally show ?thesis .
  qed
  define yy where "yy = mag y * B div B ^ t"
  have yy: "unat (word_at_minus y t 1) + B * unat (word_at y t) = yy"
  proof (cases t)
    case (Suc u)
    have "mag y * B div B ^ t = mag y div B ^ u" using Suc B by (simp add: mult.commute)
    then show ?thesis using below[of "mag y" u] top[OF y(2)] Suc
      by (simp add: yy_def word_at_minus_def word_at_val flip: B_def)
  qed (use top[OF y(2)] in \<open>simp add: yy_def word_at_minus_def word_at_val mult.commute flip: B_def\<close>)
  define X where "X = mag r * B div B ^ (j - 1)"
  have X: "unat (word_at_minus r j 2) + B * (unat (word_at_minus r j 1) + B * unat (word_at r j)) = X"
  proof -
    obtain i where i: "j = Suc i" using j by (cases j) auto
    have 1: "unat (word_at_minus r j 1) + B * unat (word_at r j) = mag r div B ^ i"
      using below[of "mag r" i] top[OF rj] i by (simp add: word_at_minus_def word_at_val flip: B_def)
    show ?thesis
    proof (cases i)
      case (Suc k)
      have "X = mag r div B ^ k" using i Suc B by (simp add: X_def mult.commute)
      then show ?thesis using below[of "mag r" k] 1 i Suc by (simp add: word_at_minus_def word_at_val flip: B_def)
    qed (use 1 i in \<open>simp add: X_def word_at_minus_def mult.commute\<close>)
  qed
  have core: "bigint_divcore d (word_at y t) (word_at_minus y t 1) (word_at r j) (word_at_minus r j 1) (word_at_minus r j 2) \<longleftrightarrow>
      X < unat d * yy" for d
    unfolding bigint_divcore_val X[symmetric] yy[symmetric] B_def by (rule refl)
  have lower: "q * yy \<le> X"
  proof -
    have "yy * B ^ t \<le> mag y * B" by (simp add: yy_def)
    moreover have "q * (mag y * B * S) \<le> mag r * B"
      using div_times_less_eq_dividend[of "mag r" "mag y * S"] by (simp add: q_def S_def mult_ac)
    ultimately have "q * yy * B ^ (j - 1) \<le> mag r * B" by (rule digit_lower[OF S(1)])
    then show ?thesis using B by (simp add: X_def less_eq_div_iff_mult_less_eq)
  qed
  have "\<exists>d'. while_option (\<lambda>d. X < unat d * yy) (\<lambda>d. d - 1) d = Some d' \<and> q \<le> unat d' \<and> \<not> X < unat d' * yy"
  proof (rule while_total[where f = unat])
    fix e :: "'a word" assume e: "q \<le> unat e" "X < unat e * yy"
    then have "q \<noteq> unat e" using lower by auto
    then have "q < unat e" using e(1) by simp
    moreover have "unat (e - 1) = unat e - 1" using \<open>q < unat e\<close> by (intro unat_minus_one) auto
    ultimately show "q \<le> unat (e - 1) \<and> unat (e - 1) < unat e" by simp
  qed (rule d)
  then obtain d' where d': "while_option (\<lambda>d. X < unat d * yy) (\<lambda>d. d - 1) d = Some d'" "q \<le> unat d'" "unat d' * yy \<le> X"
    by auto
  have "mag y * B < (yy + 1) * B ^ t"
    using dividend_less_div_times[of "B ^ t" "mag y * B"] B by (simp add: yy_def)
  moreover have "unat d' * yy * B ^ (j - 1) \<le> mag r * B"
    using d'(3) B by (simp add: X_def less_eq_div_iff_mult_less_eq)
  moreover have "unat d' < B" unfolding B_def by (rule unat_less_base)
  moreover have "0 < S" using B by (simp add: S_def)
  ultimately have up: "unat d' * (mag y * S) < mag r + mag y * S" using y(1) by (intro digit_upper[OF S(1)])
  have "unat d' \<le> Suc q"
  proof (rule ccontr)
    assume "\<not> unat d' \<le> Suc q"
    then have "(q + 2) * (mag y * S) \<le> unat d' * (mag y * S)" by (intro mult_le_mono1) simp
    moreover have "mag r < (q + 1) * (mag y * S)"
    proof -
      have "0 < mag y * S" using y(1) B \<open>0 < S\<close> by (simp add: order_less_le_trans[of 0 "B ^ t"])
      then show ?thesis unfolding q_def S_def[symmetric] by (simp add: dividend_less_div_times)
    qed
    ultimately show False using up by (simp add: algebra_simps)
  qed
  then show ?thesis using d' unfolding core by blast
qed

section \<open>The loops\<close>

lemma positive_val: "signedness x = Positive \<Longrightarrow> bigint_val x = int (mag x)"
  by (simp add: bigint_val_def)

lemma positive_of_val: "bigint_wf x \<Longrightarrow> bigint_val x = int m \<Longrightarrow> signedness x = Positive \<and> mag x = m"
  by (cases "signedness x") (auto simp: bigint_val_def bigint_wf_def)

lemma sub_assign_positive:
  assumes "signedness x = Positive" and "signedness y = Positive" and "mag y \<le> mag x"
  shows "signedness (sub_assign x y) = Positive \<and> mag (sub_assign x y) = mag x - mag y"
  using sub_assign_cases(2)[of x y] assms by auto

text \<open>One round: the remainder is reduced modulo the divisor's multiple at place \<open>j - t - 1\<close>, and
  the digit written is the quotient there.\<close>

lemma divide_digit_val:
  fixes q r y :: "'a::len word BigInt"
  defines "B \<equiv> 2 ^ LENGTH('a) :: nat"
  assumes w: "8 \<le> LENGTH('a)" "LENGTH('a) dvd 64"
    and j: "t < j" and y: "B ^ t \<le> mag y" "mag y < B ^ Suc t" "signedness y = Positive"
    and r: "mag r < mag y * B ^ (j - t)" "signedness r = Positive"
  defines "Z \<equiv> mag y * B ^ (j - t - 1)"
  shows "\<exists>r'. divide_digit y t j (q, r) = Some (q\<lparr>reg := (reg q)[j - t - 1 := word_of_nat (mag r div Z)]\<rparr>, r') \<and>
    signedness r' = Positive \<and> mag r' = mag r mod Z"
proof -
  define d0 where "d0 = (if word_at r j = word_at y t then -1 else bigint_divop (word_at r j) (word_at_minus r j 1) (word_at y t))"
  have d0: "mag r div Z < B" "mag r div Z \<le> unat d0"
    using trial_start[OF j, of y r] y r unfolding B_def d0_def Z_def by auto
  obtain d where d: "while_option
      (\<lambda>d. bigint_divcore d (word_at y t) (word_at_minus y t 1) (word_at r j) (word_at_minus r j 1) (word_at_minus r j 2))
      (\<lambda>d. d - 1) d0 = Some d" "mag r div Z \<le> unat d" "unat d \<le> Suc (mag r div Z)"
    using trial_loop[OF j, of y r d0] y r d0(2) unfolding B_def Z_def by auto
  define sh where "sh = LENGTH('a) * (j - t - 1)"
  have sh: "2 ^ sh = B ^ (j - t - 1)" by (simp add: sh_def B_def power_mult)
  have ywf: "bigint_wf y" using y(3) by (simp add: bigint_wf_def)
  define p where "p = times_BigInt (BigInt_u64 (ucast d)) y"
  have dw: "unat (ucast d :: u64bit) = unat d"
  proof -
    have "(2 :: nat) ^ LENGTH('a) \<le> 2 ^ 64" using w(2) by (intro power_increasing dvd_imp_le) simp_all
    then have "unat d < 2 ^ 64" using unat_less_base[of d] by (rule order_less_le_trans[rotated])
    then show ?thesis by (simp add: unsigned_ucast_eq take_bit_nat_eq_self)
  qed
  have p: "mag p = unat d * mag y" "signedness p = Positive"
    using times_BigInt_cases[OF w(1), of "BigInt_u64 (ucast d)" y] y(3) by (simp_all add: p_def BigInt_u64_mag[OF w(2)] dw)
  have pz: "mag (shl_BigInt p sh) = unat d * Z" "signedness (shl_BigInt p sh) = Positive"
    using shl_BigInt_cases[of p sh] p by (simp_all add: bigint_wf_def sh Z_def)
  have yz: "mag (shl_BigInt y sh) = Z" "signedness (shl_BigInt y sh) = Positive"
    using shl_BigInt_cases[OF ywf, of sh] y(3) by (simp_all add: sh Z_def)
  define s where "s = sub_assign r (shl_BigInt p sh)"
  have s: "bigint_val s = int (mag r) - int (unat d * Z)" "bigint_wf s"
    "signedness s = (if mag r < unat d * Z then Negative else Positive)"
    using sub_assign_val[of r "shl_BigInt p sh"] sub_assign_wf[of r "shl_BigInt p sh"]
      sub_assign_sign[OF r(2) pz(2)] pz r(2) by (simp_all add: s_def positive_val bigint_wf_def)
  have Z: "0 < Z" using y(1) by (simp add: Z_def B_def order_less_le_trans[of 0 "(2 ^ LENGTH('a)) ^ t"])
  have rq: "mag r = mag r div Z * Z + mag r mod Z" "mag r mod Z < Z" using Z by simp_all
  let ?q = "\<lambda>d. q\<lparr>reg := (reg q)[j - t - 1 := d]\<rparr>"
  have unf: "divide_digit y t j (q, r) =
      Some (if is_negative s then (?q (d - 1), add_assign s (shl_BigInt y sh)) else (?q d, s))"
    unfolding divide_digit_def prod.case Let_def d0_def[symmetric] d(1) option.case sh_def[symmetric] p_def[symmetric]
      s_def[symmetric] by (cases "is_negative s") simp_all
  show ?thesis
  proof (cases "unat d = mag r div Z")
    case True
    have "mag r div Z * Z \<le> mag r" by simp
    then have "signedness s = Positive" "bigint_val s = int (mag r mod Z)"
      using s True by (simp_all add: zmod_int zdiv_int minus_div_mult_eq_mod not_less)
    then have "signedness s = Positive" "mag s = mag r mod Z" "\<not> is_negative s"
      using positive_of_val[OF s(2)] by (simp_all add: is_negative_def)
    moreover have "d = word_of_nat (mag r div Z)" by (simp flip: True)
    ultimately show ?thesis unfolding unf by simp
  next
    case False
    then have dq: "unat d = Suc (mag r div Z)" using d(2,3) by simp
    then have neg: "mag r < unat d * Z" using dividend_less_div_times[OF Z, of "mag r"] by simp
    then have n: "is_negative s" using s(3) by (simp add: is_negative_def)
    have "bigint_val (add_assign s (shl_BigInt y sh)) = int (mag r mod Z)"
      unfolding add_assign_val positive_val[OF yz(2)] yz(1) s(1) using rq(1) dq by (simp add: algebra_simps flip: of_nat_add of_nat_mult)
    moreover have "bigint_wf (add_assign s (shl_BigInt y sh))"
      using s(2) yz by (intro add_assign_wf) (simp_all add: bigint_wf_def)
    ultimately have "signedness (add_assign s (shl_BigInt y sh)) = Positive \<and> mag (add_assign s (shl_BigInt y sh)) = mag r mod Z"
      by (intro positive_of_val)
    moreover have "d - 1 = word_of_nat (mag r div Z)"
    proof -
      have "d = word_of_nat (Suc (mag r div Z))" by (simp flip: dq)
      then show ?thesis by simp
    qed
    ultimately show ?thesis unfolding unf using n by simp
  qed
qed

text \<open>The main loop: what is left of the remainder is below the divisor, and quotient and remainder
  account for the dividend. The words of the quotient still to be written are zero.\<close>

lemma mag_update_zero:
  fixes q :: "'a::len word BigInt"
  assumes "i < length (reg q)" and "reg q ! i = 0" and "v < 2 ^ LENGTH('a)"
  shows "mag (q\<lparr>reg := (reg q)[i := word_of_nat v]\<rparr>) = mag q + (2 ^ LENGTH('a)) ^ i * v"
  using mp_val_update[OF assms(1), of "word_of_nat v"] assms(2,3) by (simp add: mag_def unsigned_of_nat take_bit_nat_eq_self)

lemma divide_loop_val:
  fixes q r y :: "'a::len word BigInt"
  defines "B \<equiv> 2 ^ LENGTH('a) :: nat"
  assumes w: "8 \<le> LENGTH('a)" "LENGTH('a) dvd 64"
    and n: "t \<le> n" "n - t < length (reg q)" and y: "B ^ t \<le> mag y" "mag y < B ^ Suc t" "signedness y = Positive"
    and r: "mag r < mag y * B ^ (n - t)" "signedness r = Positive"
    and q: "\<And>i. i < n - t \<Longrightarrow> reg q ! i = 0" "mag q * mag y + mag r = R"
  shows "\<exists>q' r'. divide_loop y n t (q, r) = Some (q', r') \<and> signedness q' = signedness q \<and>
    signedness r' = Positive \<and> mag r' < mag y \<and> mag q' * mag y + mag r' = R"
proof -
  let ?I = "\<lambda>j s. \<exists>(q' :: 'a word BigInt) (r' :: 'a word BigInt). s = Some (q', r') \<and> signedness q' = signedness q \<and> length (reg q') = length (reg q) \<and>
    signedness r' = Positive \<and> mag r' < mag y * B ^ (j - t) \<and> mag q' * mag y + mag r' = R \<and>
    (\<forall>i<j - t. reg q' ! i = 0)"
  have "?I t (for_down n t (\<lambda>j s. Option.bind s (divide_digit y t j)) (Some (q, r)))"
  proof (rule for_down_invariant[where I = ?I])
    show "?I n (Some (q, r))" using r q by auto
    fix j s assume j: "t < j" "j \<le> n" and I: "?I j s"
    then obtain q' r' where s: "s = Some (q', r')" "signedness q' = signedness q" "length (reg q') = length (reg q)"
        "signedness r' = Positive" "mag r' < mag y * B ^ (j - t)" "mag q' * mag y + mag r' = R" "\<And>i. i < j - t \<Longrightarrow> reg q' ! i = 0"
      by blast
    let ?i = "j - t - 1" and ?Z = "mag y * B ^ (j - t - 1)"
    let ?q = "q'\<lparr>reg := (reg q')[?i := word_of_nat (mag r' div ?Z)]\<rparr>"
    obtain r'' where d: "divide_digit y t j (q', r') = Some (?q, r'')" "signedness r'' = Positive" "mag r'' = mag r' mod ?Z"
      using divide_digit_val[OF w j(1), of y r' q'] y s(4,5) unfolding B_def by blast
    have B: "0 < B" by (simp add: B_def)
    have "0 < mag y" using y(1) B by (simp add: order_less_le_trans[of 0 "B ^ t"])
    then have Z: "0 < ?Z" using B by simp
    have BZ: "B * ?Z = mag y * B ^ (j - t)" using j(1) by (simp add: Suc_diff_Suc mult.left_commute flip: power_Suc)
    have "mag r' < B * ?Z" unfolding BZ by (rule s(5))
    then have lt: "mag r' div ?Z < B" by (rule less_mult_imp_div_less)
    have i: "?i < length (reg q')" "?i < j - t" using j n(2) s(3) by auto
    have m: "mag ?q = mag q' + B ^ ?i * (mag r' div ?Z)"
      using mag_update_zero[OF i(1) s(7)[OF i(2)]] lt unfolding B_def by blast
    have "mag ?q * mag y + mag r'' = mag q' * mag y + (mag r' div ?Z * ?Z + mag r' mod ?Z)"
      unfolding m d(3) by (simp only: add_mult_distrib add_mult_distrib2 ac_simps)
    then have "mag ?q * mag y + mag r'' = R" by (simp only: div_mult_mod_eq s(6))
    moreover have "mag r'' < ?Z" using Z d(3) by simp
    ultimately show "?I (j - 1) (Option.bind s (divide_digit y t j))"
      using d s(1,2,3,7) i by (intro exI[of _ ?q] exI[of _ r'']) (auto simp: diff_right_commute)
  qed (rule n(1))
  then show ?thesis by (auto simp: divide_loop_def)
qed

text \<open>The two loops before it run at most once, for the divisor is normalized.\<close>

lemma divide_top_val:
  fixes q r y :: "'a::len word BigInt"
  assumes "signedness r = Positive" and "signedness y = Positive" and "0 < mag y" and "mag r < 2 * mag y"
    and "i < length (reg q)" and "reg q ! i = 0"
  shows "\<exists>q' r'. divide_top y i (q, r) = Some (q', r') \<and> signedness q' = signedness q \<and> length (reg q') = length (reg q) \<and>
    (\<forall>k. k \<noteq> i \<longrightarrow> reg q' ! k = reg q ! k) \<and> signedness r' = Positive \<and> mag r' < mag y \<and>
    mag q' = mag q + (2 ^ LENGTH('a)) ^ i * (mag r div mag y) \<and> mag r' = mag r mod mag y"
proof -
  have cmp: "BigInt_cmp r' y True \<ge> 0 \<longleftrightarrow> mag y \<le> mag r'" if "signedness r' = Positive" for r' :: "'a word BigInt"
    using that assms(2) BigInt_cmp_val[of r' y] by (auto simp: bigint_wf_def bigint_val_def sgn_if)
  let ?q = "q\<lparr>reg := (reg q)[i := reg q ! i + 1]\<rparr>" and ?r = "sub_assign r y"
  show ?thesis
  proof (cases "mag y \<le> mag r")
    case True
    have r': "signedness ?r = Positive" "mag ?r = mag r - mag y"
      using sub_assign_positive[OF assms(1,2) True] by simp_all
    have "mag r div mag y = 1" "mag r mod mag y = mag r - mag y"
      using True assms(3,4) by (simp_all add: div_nat_eqI[where q = 1] mod_if[of "mag r"])
    moreover have "divide_top y i (q, r) = Some (?q, ?r)"
      using True assms(1,4) r' unfolding divide_top_def by (subst while_once) (auto simp: cmp)
    moreover have "mag ?q = mag q + (2 ^ LENGTH('a)) ^ i"
      using mag_update_zero[OF assms(5,6), of 1] assms(6) one_less_power[of "2 :: nat" "LENGTH('a)"] by simp
    ultimately show ?thesis using r' True assms(4) by (intro exI[of _ ?q] exI[of _ ?r]) auto
  next
    case False
    then have "divide_top y i (q, r) = Some (q, r)"
      using assms(1) unfolding divide_top_def by (subst while_not) (auto simp: cmp)
    then show ?thesis using False assms(1) by simp
  qed
qed

lemma divide_short_val:
  fixes q r y :: "'a::len word BigInt"
  assumes "LENGTH('a) dvd 64" and "signedness r = Positive" and "signedness y = Positive" and "mag y < mag r" and "mag r < 2 * mag y"
    and "signedness q = Positive" and "mag q = 0"
  shows "\<exists>q' r'. divide_short y (q, r) = Some (q', r') \<and> signedness q' = Positive \<and> mag q' = 1 \<and>
    signedness r' = Positive \<and> mag r' = mag r - mag y"
proof -
  have cmp: "BigInt_cmp r' y True > 0 \<longleftrightarrow> mag y < mag r'" if "signedness r' = Positive" for r' :: "'a word BigInt"
    using that assms(3) BigInt_cmp_val[of r' y] by (auto simp: bigint_wf_def bigint_val_def sgn_if)
  let ?q = "increment q" and ?r = "sub_assign r y"
  have r': "signedness ?r = Positive" "mag ?r = mag r - mag y"
    using sub_assign_positive[of r y] assms by simp_all
  have "signedness ?q = Positive" "mag ?q = 1"
    using add_assign_cases(1)[of q "BigInt_u64 1"] assms by (simp_all add: increment_def BigInt_u64_mag)
  moreover have "divide_short y (q, r) = Some (?q, ?r)"
    using assms r' unfolding divide_short_def by (subst while_once) (auto simp: cmp)
  ultimately show ?thesis using r' by blast
qed

section \<open>Correctness\<close>

lemma sign_fixup_val:
  fixes x y q r :: "'a::len word BigInt"
  assumes w: "LENGTH('a) dvd 64" and "signedness q = Positive" and "signedness r = Positive"
    and "mag q * mag y + mag r = mag x" and "mag r < mag y" and "sign_fixup x y q r = (q', r')"
  shows "bigint_val x = bigint_val q' * bigint_val y + bigint_val r' \<and> 0 \<le> bigint_val r' \<and> bigint_val r' < int (mag y)"
proof -
  have flip: "bigint_val (flip_sign z) = - bigint_val z" for z :: "'a word BigInt"
    by (cases "signedness z") (simp_all add: flip_sign_def bigint_val_def reverse_sign_def)
  have x: "int (mag x) = int (mag q) * int (mag y) + int (mag r)" using assms(4) by (metis of_nat_add of_nat_mult)
  have one: "bigint_val (BigInt_u64 1 :: 'a word BigInt) = 1" by (simp add: BigInt_u64_val[OF w])
  have dec: "bigint_val (decrement (flip_sign q)) = - int (mag q) - 1"
    by (simp add: decrement_def sub_assign_val flip one positive_val[OF assms(2)])
  have abs: "signedness (BigInt_abs y) = Positive" "mag (BigInt_abs y) = mag y"
    by (simp_all add: BigInt_abs_def BigInt_copy_cases)
  have sub: "bigint_val (minus_BigInt (BigInt_abs y) r) = int (mag y) - int (mag r)"
    using minus_BigInt_val[of "BigInt_abs y" r] abs assms(3) by (simp add: positive_val)
  have nz: "is_nonzero r \<longleftrightarrow> mag r \<noteq> 0" by simp
  consider "signedness x = Positive" | "signedness x = Negative" "mag r = 0" | "signedness x = Negative" "mag r \<noteq> 0"
    by (cases "signedness x") auto
  then show ?thesis
  proof cases
    case 1
    then have "r' = r" "q' = (if signedness y = Negative then flip_sign q else q)"
      using assms(6) by (auto simp: sign_fixup_def)
    then show ?thesis using 1 x assms(2,3,5)
      by (cases "signedness y") (auto simp: flip positive_val bigint_val_def[of x] bigint_val_def[of y])
  next
    case 2
    then have "r' = r" "q' = (if signedness y = Negative then flip_sign (flip_sign q) else flip_sign q)"
      using assms(6) nz by (auto simp: sign_fixup_def)
    then show ?thesis using 2 x assms(2,3,5)
      by (cases "signedness y") (auto simp: flip positive_val bigint_val_def[of x] bigint_val_def[of y])
  next
    case 3
    then have "r' = minus_BigInt (BigInt_abs y) r"
      "q' = (if signedness y = Negative then flip_sign (decrement (flip_sign q)) else decrement (flip_sign q))"
      using assms(6) nz by (auto simp: sign_fixup_def)
    then have v: "bigint_val r' = int (mag y) - int (mag r)"
      "bigint_val q' = (if signedness y = Negative then int (mag q) + 1 else - int (mag q) - 1)"
      by (simp_all add: sub dec flip)
    show ?thesis unfolding v using 3 x assms(5)
      by (cases "signedness y") (simp_all add: bigint_val_def[of x] bigint_val_def[of y] algebra_simps)
  qed
qed

text \<open>The unsigned quotient and remainder, scaled by the normalization shift, scale back.\<close>

lemma unscale:
  fixes q y r x :: nat
  assumes "q * (y * 2 ^ s) + r = x * 2 ^ s" and "r < y * 2 ^ s"
  shows "q * y + r div 2 ^ s = x \<and> r div 2 ^ s < y"
proof -
  have "x * 2 ^ s - q * y * 2 ^ s = r" using assms(1) by (simp add: mult.assoc[symmetric])
  then have r: "r = (x - q * y) * 2 ^ s" by (simp add: diff_mult_distrib)
  have "q * y * 2 ^ s \<le> x * 2 ^ s" using assms(1) by (simp add: mult.assoc[symmetric] flip: assms(1))
  then have "q * y \<le> x" by simp
  with r assms(2) show ?thesis by simp
qed

text \<open>The unsigned part after normalization, from the dividend \<open>r\<close> and the divisor \<open>y\<close> with its top bit set.\<close>

lemma divide_main:
  fixes y r q :: "'a::len word BigInt"
  assumes w: "8 \<le> LENGTH('a)" "LENGTH('a) dvd 64"
    and y: "signedness y = Positive" "(2 ^ LENGTH('a)) ^ Suc t \<le> 2 * mag y" "mag y < (2 ^ LENGTH('a)) ^ Suc t"
    and r: "signedness r = Positive" "mag y < mag r" and q: "signedness q = Positive"
  defines "n \<equiv> sig_words r - 1"
  defines "s \<equiv> (q\<lparr>reg := reg_create (n - t + 1)\<rparr>, r)"
  shows "\<exists>q' r'. (if n \<le> t then divide_short y s
      else Option.bind (divide_top (shl_BigInt y (LENGTH('a) * (n - t))) (n - t) s) (divide_loop y n t)) = Some (q', r') \<and>
    signedness q' = Positive \<and> signedness r' = Positive \<and> mag r' < mag y \<and> mag q' * mag y + mag r' = mag r"
proof -
  define B where "B = (2 :: nat) ^ LENGTH('a)"
  have B: "1 < B" unfolding B_def by (rule one_less_power) simp_all
  have y': "B ^ t \<le> mag y" "0 < mag y"
  proof -
    have "2 * B ^ t \<le> B ^ Suc t" using B by simp
    then show "B ^ t \<le> mag y" using y(2) unfolding B_def[symmetric] by linarith
    then show "0 < mag y" using B by (simp add: order_less_le_trans[of 0 "B ^ t"])
  qed
  have sr: "sig_words r \<noteq> 0" using r(2) by simp
  then have rn: "mag r < B ^ Suc n" using mag_lt[of r] unfolding n_def B_def by (cases "sig_words r") simp_all
  let ?q = "q\<lparr>reg := reg_create (n - t + 1)\<rparr>"
  have q0: "signedness ?q = Positive" "mag ?q = 0" "length (reg ?q) = n - t + 1" "i < n - t + 1 \<Longrightarrow> reg ?q ! i = 0" for i
    using q by (simp_all add: mag_def) (simp_all add: reg_create_def del: replicate_Suc)
  show ?thesis
  proof (cases "n \<le> t")
    case True
    have "B ^ Suc n \<le> B ^ Suc t" using True B by (intro power_increasing) simp_all
    then have "mag r < 2 * mag y" using rn y(2) unfolding B_def[symmetric] by linarith
    from divide_short_val[OF w(2) r(1) y(1) r(2) this q0(1,2)] obtain q' r' where
      "divide_short y s = Some (q', r')" "signedness q' = Positive" "mag q' = 1" "signedness r' = Positive" "mag r' = mag r - mag y"
      unfolding s_def by blast
    then show ?thesis using True r(2) \<open>mag r < 2 * mag y\<close> by auto
  next
    case False
    define z where "z = shl_BigInt y (LENGTH('a) * (n - t))"
    have z: "signedness z = Positive" "mag z = mag y * B ^ (n - t)"
      using shl_BigInt_cases[of y "LENGTH('a) * (n - t)"] y(1) by (simp_all add: z_def bigint_wf_def B_def power_mult)
    have "B ^ Suc n = B ^ Suc t * B ^ (n - t)" using False by (simp flip: power_add)
    also have "\<dots> \<le> 2 * mag y * B ^ (n - t)" using y(2) unfolding B_def[symmetric] by (rule mult_le_mono1)
    finally have "mag r < 2 * mag z" using rn z(2) by simp
    moreover have "0 < mag z" using z(2) y'(2) B by simp
    ultimately obtain q1 r' where t1: "divide_top z (n - t) s = Some (q1, r')" "signedness q1 = Positive"
        "length (reg q1) = n - t + 1" "\<And>k. k \<noteq> n - t \<Longrightarrow> reg q1 ! k = reg ?q ! k"
        "signedness r' = Positive" "mag r' < mag z" "mag q1 = B ^ (n - t) * (mag r div mag z)" "mag r' = mag r mod mag z"
      using divide_top_val[OF r(1) z(1), of "n - t" ?q] q0 unfolding s_def B_def by auto
    have "mag q1 * mag y + mag r' = mag r div mag z * mag z + mag r mod mag z"
      using t1(7,8) by (simp only: z(2)) (simp only: mult_ac)
    then have "mag q1 * mag y + mag r' = mag r" by simp
    then obtain q' where "divide_loop y n t (q1, r') = Some q'" "signedness (fst q') = Positive" "signedness (snd q') = Positive"
        "mag (snd q') < mag y" "mag (fst q') * mag y + mag (snd q') = mag r"
      using divide_loop_val[OF w, of t n q1 y r' "mag r"] False y y'(1) t1 z(2) q0(4) unfolding B_def by fastforce
    then show ?thesis using False t1(1) unfolding z_def[symmetric] by (cases q') auto
  qed
qed

text \<open>Whenever the divisor is not zero both loops end and the result is quotient and remainder, the
  remainder in \<open>[0, |y|)\<close> for all signs.\<close>

lemma sign_fixup_wf:
  assumes "signedness q = Positive" and "signedness r = Positive" and "mag r < mag y"
  shows "bigint_wf (fst (sign_fixup x y q r)) \<and> bigint_wf (snd (sign_fixup x y q r))"
proof -
  have "bigint_wf (minus_BigInt (BigInt_abs y) r)"
    using minus_BigInt_cases(2)[of "BigInt_abs y" r] assms
    by (auto simp: bigint_wf_def BigInt_abs_def BigInt_copy_cases)
  then show ?thesis using assms
    by (auto simp: sign_fixup_def Let_def flip_sign_def decrement_def bigint_wf_def[of q] bigint_wf_def[of r] sub_assign_wf)
qed

lemma divide_wf_val:
  fixes x y q :: "'a::len word BigInt"
  assumes w: "8 \<le> LENGTH('a)" "LENGTH('a) dvd 64" and y0: "mag y \<noteq> 0" and q: "signedness q = Positive"
  shows "\<exists>q' r'. divide x y q = Some (Inr (q', r')) \<and>
    bigint_val x = bigint_val q' * bigint_val y + bigint_val r' \<and> 0 \<le> bigint_val r' \<and> bigint_val r' < int (mag y) \<and>
    bigint_wf q' \<and> bigint_wf r'"
proof -
  let ?B = "2 ^ LENGTH('a) :: nat"
  have B: "0 < ?B" by simp
  define y1 where "y1 = set_sign (BigInt_copy y) Positive"
  define r1 where "r1 = set_sign x Positive"
  have y1: "signedness y1 = Positive" "mag y1 = mag y" by (simp_all add: y1_def BigInt_copy_cases)
  have r1: "signedness r1 = Positive" "mag r1 = mag x" by (simp_all add: r1_def)
  have cmp: "BigInt_cmp r1 y1 True = sgn (int (mag x) - int (mag y))"
    using BigInt_cmp_val[of r1 y1] y1 r1 by (simp add: bigint_wf_def positive_val)
  have finish: ?thesis
    if "divide x y q = Some (Inr (sign_fixup x y q2 r2))" "signedness q2 = Positive" "signedness r2 = Positive"
      "mag q2 * mag y + mag r2 = mag x" "mag r2 < mag y" for q2 r2
    using that sign_fixup_val[OF w(2) that(2-5)] sign_fixup_wf[OF that(2,3,5), of x] by (cases "sign_fixup x y q2 r2") auto
  note start = divide_def y1_def[symmetric] r1_def[symmetric] Let_def
  consider "mag x < mag y" | "mag x = mag y" | "mag y < mag x" by linarith
  then show ?thesis
  proof cases
    case 1
    then have "divide x y q = Some (Inr (sign_fixup x y (BigInt_u64 0) r1))" using y0 cmp by (simp add: start)
    then show ?thesis using 1 r1 by (intro finish[of "BigInt_u64 0" r1]) (simp_all add: BigInt_u64_mag[OF w(2)])
  next
    case 2
    then have "divide x y q = Some (Inr (sign_fixup x y (BigInt_u64 1) (BigInt_u64 0)))" using y0 cmp by (simp add: start)
    then show ?thesis using 2 y0 by (intro finish[of "BigInt_u64 1" "BigInt_u64 0"]) (simp_all add: BigInt_u64_mag[OF w(2)])
  next
    case 3
    define t where "t = sig_words (BigInt_copy y) - 1"
    have sy: "sig_words y1 = Suc t"
      using sig_words_cong[of y1 "BigInt_copy y"] sig_words_0[of "BigInt_copy y"] y0
      by (cases "sig_words (BigInt_copy y)") (simp_all add: y1_def t_def BigInt_copy_cases)
    obtain w' s where n: "normalize_loop (reg y1 ! (sig_words y1 - 1)) = Some (w', s)" "s < LENGTH('a)"
        "2 ^ (LENGTH('a) - 1) \<le> 2 ^ s * unat (reg y1 ! t)" "2 ^ s * unat (reg y1 ! t) < ?B"
      using normalize_loop_ends[OF sig_words_top[of y1]] sy by auto
    define y2 where "y2 = shl_assign y1 s"
    define r2 where "r2 = shl_assign r1 s"
    have y2: "signedness y2 = Positive" "mag y2 = mag y * 2 ^ s"
      using shl_assign_cases[of y1 s] y1 by (simp_all add: y2_def)
    have r2: "signedness r2 = Positive" "mag r2 = mag x * 2 ^ s"
      using shl_assign_cases[of r1 s] r1 by (simp_all add: r2_def)
    define c where "c = unat (reg y1 ! t)"
    have yc: "c * ?B ^ t \<le> mag y" "mag y < Suc c * ?B ^ t"
      using mp_val_take_Suc[of t "reg y1"] mag_sig[of y1] sig_words_le[of y1] mp_val_take_bound[of t "reg y1"] sy y1(2)
      by (simp_all add: c_def mult.commute)
    have half: "?B = 2 * 2 ^ (LENGTH('a) - 1)" by (simp flip: power_Suc)
    have lo: "?B ^ Suc t \<le> 2 * mag y2"
    proof -
      have "2 ^ (LENGTH('a) - 1) * ?B ^ t \<le> 2 ^ s * c * ?B ^ t" using n(3) by (simp add: c_def)
      also have "\<dots> \<le> 2 ^ s * mag y" using yc(1) by (simp add: mult.assoc)
      finally show ?thesis unfolding y2(2) power_Suc using half by (simp add: mult.commute[of "2 ^ s"])
    qed
    have hi: "mag y2 < ?B ^ Suc t"
    proof -
      have Bs: "?B = 2 ^ s * 2 ^ (LENGTH('a) - s)" using n(2) by (simp flip: power_add)
      then have "c < 2 ^ (LENGTH('a) - s)" using n(4) by (simp add: c_def)
      then have "Suc c * 2 ^ s \<le> ?B" unfolding Bs by (subst mult.commute) (rule mult_le_mono2, simp)
      have "mag y2 < Suc c * ?B ^ t * 2 ^ s" using yc(2) by (simp only: y2(2)) simp
      also have "\<dots> = Suc c * 2 ^ s * ?B ^ t" by (simp only: mult_ac)
      also have "\<dots> \<le> ?B * ?B ^ t" using \<open>Suc c * 2 ^ s \<le> ?B\<close> by (rule mult_le_mono1)
      finally show ?thesis by simp
    qed
    have y2r2: "mag y2 < mag r2" using 3 y2 r2 by simp
    define m where "m = sig_words r2 - 1"
    obtain q' r' where m: "(if m \<le> t then divide_short y2 (q\<lparr>reg := reg_create (m - t + 1)\<rparr>, r2)
        else Option.bind (divide_top (shl_BigInt y2 (LENGTH('a) * (m - t))) (m - t) (q\<lparr>reg := reg_create (m - t + 1)\<rparr>, r2))
          (divide_loop y2 m t)) = Some (q', r')"
      "signedness q' = Positive" "signedness r' = Positive" "mag r' < mag y2" "mag q' * mag y2 + mag r' = mag r2"
      using divide_main[OF w y2(1) lo hi r2(1) y2r2 q] unfolding m_def by blast
    have d: "divide x y q = Some (Inr (sign_fixup x y q' (shr_assign r' s)))"
    proof -
      have "\<not> BigInt_cmp r1 y1 True < 0" "BigInt_cmp r1 y1 True \<noteq> 0" using cmp 3 by simp_all
      then have "divide x y q = map_option (\<lambda>(q, r). Inr (sign_fixup x y q (shr_assign r s)))
          (if m \<le> t then divide_short y2 (q\<lparr>reg := reg_create (m - t + 1)\<rparr>, r2)
           else Option.bind (divide_top (shl_BigInt y2 (LENGTH('a) * (m - t))) (m - t) (q\<lparr>reg := reg_create (m - t + 1)\<rparr>, r2))
             (divide_loop y2 m t))"
        using y0 unfolding start n(1) m_def t_def[symmetric] by (simp flip: y2_def r2_def)
      then show ?thesis unfolding m(1) by simp
    qed
    have "mag q' * mag y + mag r' div 2 ^ s = mag x \<and> mag r' div 2 ^ s < mag y"
      using m(4,5) y2(2) r2(2) by (intro unscale) simp_all
    then show ?thesis using d m(2,3) shr_assign_cases[of r' s] by (intro finish[of q' "shr_assign r' s"]) simp_all
  qed
qed

lemma divide_val:
  fixes x y q :: "'a::len word BigInt"
  assumes "8 \<le> LENGTH('a)" "LENGTH('a) dvd 64" and "mag y \<noteq> 0" and "signedness q = Positive"
  shows "\<exists>q' r'. divide x y q = Some (Inr (q', r')) \<and>
    bigint_val x = bigint_val q' * bigint_val y + bigint_val r' \<and> 0 \<le> bigint_val r' \<and> bigint_val r' < int (mag y)"
  using divide_wf_val[OF assms, of x] by blast

end
