(* ===== verification/BigInt_Bytes.thy ===== *)
theory BigInt_Bytes
  imports BigInt_Divide
begin

text \<open>
  Bytes of a \<open>BigInt\<close>: \<open>byte_at\<close>, conversion to \<open>u32bit\<close>, and the big-endian binary
  encoding and decoding of \<open>bigint.cpp\<close>, for words of whole bytes.
\<close>

section \<open>Reading words\<close>

text \<open>Reading bytes into a word by \<open>w = (w << 8) | b\<close>.\<close>

lemma unat_shift_in:
  fixes w :: "'a::len word"
  assumes "8 \<le> LENGTH('a)" and "unat w * 256 < 2 ^ LENGTH('a)"
  shows "unat (push_bit 8 w OR ucast (b :: byte)) = unat w * 256 + unat b"
proof -
  have "(2 :: nat) ^ 8 \<le> 2 ^ LENGTH('a)" using assms(1) by (intro power_increasing) simp_all
  then have b: "unat (ucast b :: 'a word) = unat b"
    using unat_less_base[of b] by (simp add: unsigned_ucast_eq take_bit_nat_eq_self)
  have "unat (push_bit 8 w) = unat w * 256"
    using assms(2) unfolding unsigned_push_bit_eq by (simp add: take_bit_eq_mod push_bit_eq_mult)
  then show ?thesis using push_bit_or[of "ucast b :: 'a word" 8 w] b unat_less_base[of b] by simp
qed

lemma fold_shift_in:
  fixes w :: "'a::len word"
  assumes "8 \<le> LENGTH('a)" and "unat w * 256 ^ length bs + be_val bs < 2 ^ LENGTH('a)"
  shows "unat (fold (\<lambda>b w. push_bit 8 w OR ucast b) bs w) = unat w * 256 ^ length bs + be_val bs"
  using assms(2)
proof (induction bs arbitrary: w)
  case (Cons b bs)
  have "unat w * 256 * 1 \<le> unat w * 256 * 256 ^ length bs" by (intro mult_le_mono2) simp
  moreover have "unat w * 256 * 256 ^ length bs < 2 ^ LENGTH('a)"
    using Cons.prems by (simp only: list.size(4) be_val.simps power_Suc power_add power_one_right mult.assoc add_Suc_right add_0_right)
  ultimately have "unat w * 256 < 2 ^ LENGTH('a)" by linarith
  then have s: "unat (push_bit 8 w OR ucast b) = unat w * 256 + unat b" by (rule unat_shift_in[OF assms(1)])
  then show ?case using Cons.IH[of "push_bit 8 w OR ucast b"] Cons.prems by (simp add: algebra_simps)
qed simp

lemma fold_update_at: "i < length r \<Longrightarrow> fold (\<lambda>b r. r[i := g b (r ! i)]) bs r = r[i := fold g bs (r ! i)]"
  by (induction bs arbitrary: r) simp_all

section \<open>Bytes\<close>

text \<open>The widths of \<open>word\<close> the library is built with.\<close>

definition mp_word_bits :: "nat \<Rightarrow> bool" where
  "mp_word_bits w \<longleftrightarrow> w \<in> {8, 16, 32, 64}"

lemma mp_word_bitsD: "mp_word_bits w \<Longrightarrow> 8 \<le> w \<and> w dvd 64 \<and> (\<exists>e. w = 8 * 2 ^ e)"
  by (auto simp: mp_word_bits_def intro: exI[of _ 0] exI[of _ 1] exI[of _ 2] exI[of _ 3])

lemma and_pred_power: "k < 2 ^ e \<Longrightarrow> k AND (2 ^ e - 1) = (k :: nat)"
  using take_bit_eq_mask[of e k] by (simp add: take_bit_nat_eq_self mask_eq_exp_minus_1)

lemma byte_at_val:
  fixes x :: "'a::len word BigInt"
  assumes "mp_word_bits LENGTH('a)"
  shows "unat (byte_at x n) = mag x div 256 ^ n mod 256"
proof -
  obtain e where e: "LENGTH('a) = 8 * 2 ^ e" using mp_word_bitsD[OF assms] by blast
  define W where "W = (2 :: nat) ^ e"
  define k where "k = n mod W"
  have k: "k < W" by (simp add: k_def W_def)
  have W: "LENGTH('a) = 8 * W" using e by (simp add: W_def)
  have B: "(2 :: nat) ^ LENGTH('a) = 256 ^ W" by (simp add: W power_mult)
  have m: "W - Suc k AND W - Suc 0 = W - Suc k" using and_pred_power[of "W - Suc k" e] k by (simp add: W_def)
  have "unat (byte_at x n) = unat (word_at x (n div W)) div 256 ^ k mod 256"
    using k m by (simp add: byte_at_def word_at_def size_of_def get_byte_def W Let_def unsigned_ucast_eq unat_drop_bit
        take_bit_eq_mod power_mult flip: k_def)
  also have "\<dots> = mag x div 256 ^ (W * (n div W)) mod (256 ^ k * 256 ^ (W - k)) div 256 ^ k mod 256"
    using k by (simp add: word_at_val B flip: power_mult power_add)
  also have "\<dots> = mag x div 256 ^ (W * (n div W)) div 256 ^ k mod 256 ^ (W - k) mod 256"
    by (simp only: mod_mult2_eq) simp
  also have "\<dots> = mag x div 256 ^ (W * (n div W)) div 256 ^ k mod 256"
    using k by (simp add: mod_mod_cancel)
  finally show ?thesis
    by (simp add: k_def flip: div_mult2_eq power_add)
qed

lemma mag_lt_bytes: "mag x < 256 ^ bytes x"
proof -
  have "mag x < 2 ^ bits x" by (rule bits_bounds)
  also have "\<dots> \<le> 2 ^ (8 * bytes x)" unfolding bytes_def by (intro power_increasing) simp_all
  finally show ?thesis by (simp add: power_mult)
qed

text \<open>The bytes from the top down are the big-endian digits.\<close>

lemma be_val_bytes:
  fixes x :: "'a::len word BigInt"
  assumes "mp_word_bits LENGTH('a)"
  shows "be_val (rev (map (byte_at x) [0..<n])) = mag x mod 256 ^ n"
proof (induction n)
  case (Suc n)
  have "mag x mod 256 ^ Suc n = 256 ^ n * (mag x div 256 ^ n mod 256) + mag x mod 256 ^ n"
    by (simp only: power_Suc2 mod_mult2_eq)
  then show ?case using Suc by (simp add: byte_at_val[OF assms])
qed simp

lemma binary_encode_bytes:
  assumes "bytes x \<le> length out"
  shows "binary_encode x out = rev (map (byte_at x) [0..<bytes x]) @ drop (bytes x) out"
proof -
  let ?n = "bytes x"
  have "for_up 0 k (\<lambda>j out. out[?n - j - 1 := byte_at x j]) out =
      take (?n - k) out @ rev (map (byte_at x) [0..<k]) @ drop ?n out" if "k \<le> ?n" for k
    using that
  proof (induction k)
    case (Suc k)
    have "take (?n - k) out = take (?n - Suc k) out @ [out ! (?n - Suc k)]"
      using Suc.prems assms take_Suc_nth[of "?n - Suc k" out] by (simp add: Suc_diff_Suc)
    then show ?case using Suc assms by (simp add: for_up_Suc list_update_append)
  qed simp
  from this[of ?n] show ?thesis by (simp add: binary_encode_def Let_def)
qed

lemma to_u32bit_val:
  fixes x :: "'a::len word BigInt"
  assumes "mp_word_bits LENGTH('a)" and "signedness x = Positive" and "mag x < 2 ^ 31"
  shows "to_u32bit x = Inr (word_of_nat (mag x))"
proof -
  let ?f = "\<lambda>b w. push_bit 8 w OR ucast b :: u32bit"
  define bs where "bs = rev (map (byte_at x) [0..<4])"
  have "[0..<4] = [0, 1, 2, 3 :: nat]" by (simp add: upt_rec numeral_eq_Suc)
  then have loop: "for_up 0 4 (\<lambda>j out. push_bit 8 out OR ucast (byte_at x (3 - j))) 0 = fold ?f bs 0"
    by (simp add: for_up_def bs_def)
  have "be_val bs = mag x mod 256 ^ 4" unfolding bs_def by (rule be_val_bytes[OF assms(1)])
  moreover have small: "mag x < 256 ^ 4" by (rule order_less_trans[OF assms(3)]) simp
  ultimately have v: "be_val bs = mag x" by (simp only: mod_less)
  have "unat (0 :: u32bit) * 256 ^ length bs + be_val bs < 2 ^ LENGTH(32)" using small by (simp add: v)
  from fold_shift_in[OF _ this] have u: "unat (fold ?f bs 0) = mag x" by (simp add: v)
  have "fold ?f bs 0 = word_of_nat (mag x)" by (simp flip: u)
  moreover have "\<not> 32 \<le> bits x" using assms(3) bits_le_iff[of x 31] by simp
  ultimately show ?thesis using assms(2) by (simp add: to_u32bit_def is_negative_def loop)
qed

section \<open>Decoding\<close>

text \<open>One word of \<open>binary_decode\<close> is the big-endian value of its bytes.\<close>

lemma decode_word:
  fixes r :: "'a::len word list"
  assumes "8 \<le> LENGTH('a)" and "256 ^ W = (2 :: nat) ^ LENGTH('a)" and "j < length r" and "r ! j = 0"
    and "W \<le> hi" and "hi \<le> length inp"
  shows "for_down W 0 (\<lambda>k r. r[j := push_bit 8 (r ! j) OR ucast (inp ! (hi - k))]) r =
    r[j := word_of_nat (be_val (take W (drop (hi - W) inp)))]"
proof -
  let ?bs = "take W (drop (hi - W) inp)"
  have bs: "map (\<lambda>k. inp ! (hi - k)) (rev [1..<Suc W]) = ?bs"
    using assms(5,6) by (intro nth_equalityI) (auto simp: rev_nth simp del: upt_Suc)
  have "for_down W 0 (\<lambda>k r. r[j := push_bit 8 (r ! j) OR ucast (inp ! (hi - k))]) r =
      fold (\<lambda>b r. r[j := push_bit 8 (r ! j) OR ucast b]) ?bs r"
    unfolding bs[symmetric] by (simp add: for_down_def fold_map comp_def del: upt_Suc)
  also have "\<dots> = r[j := fold (\<lambda>b w. push_bit 8 w OR ucast b) ?bs 0]"
    using fold_update_at[OF assms(3), of "\<lambda>b w. push_bit 8 w OR ucast b" ?bs] assms(4) by simp
  also have "fold (\<lambda>b w. push_bit 8 w OR ucast b) ?bs (0 :: 'a word) = word_of_nat (be_val ?bs)"
  proof -
    have "be_val ?bs < 256 ^ W" using be_val_bound[of ?bs] assms(5,6) by simp
    then have "unat (fold (\<lambda>b w. push_bit 8 w OR ucast b) ?bs (0 :: 'a word)) = be_val ?bs"
      using fold_shift_in[OF assms(1), of 0 ?bs] assms(2) by simp
    then show ?thesis by (simp flip: \<open>unat _ = be_val ?bs\<close>)
  qed
  finally show ?thesis .
qed

lemma binary_decode_val:
  fixes x :: "'a::len word BigInt"
  assumes w: "mp_word_bits LENGTH('a)" and n: "n \<le> length inp"
  shows "mag (binary_decode x inp n) = be_val (take n inp) \<and> signedness (binary_decode x inp n) = signedness x"
proof -
  have L: "8 \<le> LENGTH('a)" using mp_word_bitsD[OF w] by blast
  define W where "W = LENGTH('a) div 8"
  have W: "0 < W" "LENGTH('a) = 8 * W" using mp_word_bitsD[OF w] by (auto simp: W_def)
  have B: "256 ^ W = (2 :: nat) ^ LENGTH('a)" by (simp add: W(2) power_mult)
  define m where "m = n div W"
  define bs where "bs = take n inp"
  have bs: "length bs = n" "i < n \<Longrightarrow> bs ! i = inp ! i" for i using n by (simp_all add: bs_def)
  define r0 :: "'a word list" where "r0 = reg_create (round_up (m + 1) 8)"
  have r0: "m < length r0" "mp_val r0 = 0" "\<And>i. i < length r0 \<Longrightarrow> r0 ! i = 0"
    using round_up_ge[of "m + 1" 8] by (simp_all add: r0_def) (simp add: reg_create_def)
  let ?f = "\<lambda>j r. for_down W 0 (\<lambda>k r. r[j := push_bit 8 (r ! j) OR ucast (inp ! (n - W * j - k))]) r"
  let ?I = "\<lambda>j (r :: 'a word list). length r = length r0 \<and> (\<forall>i. j \<le> i \<longrightarrow> i < length r0 \<longrightarrow> r ! i = 0) \<and> mp_val r = be_val (drop (n - W * j) bs)"
  have mn: "W * m \<le> n" "n - W * m = n mod W" by (simp_all add: m_def minus_mult_div_eq_mod)
  have "?I m (for_up 0 m ?f r0)"
  proof (rule for_up_invariant[where I = ?I])
    show "?I 0 r0" using r0 bs by simp
    fix j and r :: "'a word list" assume j: "j < m" and I: "?I j r"
    have "W * Suc j \<le> W * m" using j by (intro mult_le_mono2) simp
    then have hi: "W \<le> n - W * j" "W * Suc j \<le> n" "n - W * j - W = n - W * Suc j" using mn(1) by simp_all
    let ?c = "take W (drop (n - W * j - W) bs)"
    have "take W (drop (n - W * j - W) inp) = ?c"
      using hi n by (simp add: bs_def take_drop min_def)
    then have f: "?f j r = r[j := word_of_nat (be_val ?c)]"
      using decode_word[OF L B, of j r "n - W * j" inp] I j r0(1) hi n by simp
    have "length ?c = W" using hi bs by simp
    then have c: "be_val ?c < 2 ^ LENGTH('a)" using be_val_bound[of ?c] B by simp
    have "drop (n - W * Suc j) bs = ?c @ drop (n - W * j) bs"
      using hi append_take_drop_id[of W "drop (n - W * Suc j) bs"] by (simp add: add.commute del: append_take_drop_id)
    moreover have "mp_val (?f j r) = mp_val r + (2 ^ LENGTH('a)) ^ j * be_val ?c"
      using mp_val_update[of j r "word_of_nat (be_val ?c)"] I j r0(1) c unfolding f
      by (simp add: unsigned_of_nat take_bit_nat_eq_self)
    moreover have "length (drop (n - W * j) bs) = W * j" using hi bs by simp
    ultimately have "mp_val (?f j r) = be_val (drop (n - W * Suc j) bs)"
      using I by (simp add: be_val_append power_mult B)
    then show "?I (Suc j) (?f j r)" using I f by simp
  qed simp
  then obtain r where r: "for_up 0 m ?f r0 = r" "length r = length r0" "r ! m = 0" "mp_val r = be_val (drop (n mod W) bs)"
    using r0(1) mn(2) by auto
  let ?h = "take (n mod W) bs"
  have "n mod W \<le> n" "n mod W < W" using W by simp_all
  have h: "map (\<lambda>j. inp ! j) [0..<n mod W] = ?h"
    using n bs(1) \<open>n mod W \<le> n\<close>
    by (intro nth_equalityI) (auto intro: bs(2)[symmetric] order_less_le_trans[OF _ mod_less_eq_dividend])
  have "for_up 0 (n mod W) (\<lambda>j r. r[m := push_bit 8 (r ! m) OR ucast (inp ! j)]) r =
      fold (\<lambda>b r. r[m := push_bit 8 (r ! m) OR ucast b]) ?h r"
    unfolding h[symmetric] by (simp add: for_up_def fold_map comp_def)
  also have "\<dots> = r[m := fold (\<lambda>b w. push_bit 8 w OR ucast b) ?h 0]"
    using fold_update_at[of m r "\<lambda>b w. push_bit 8 w OR ucast b" ?h] r r0(1) by simp
  finally have last: "for_up 0 (n mod W) (\<lambda>j r. r[m := push_bit 8 (r ! m) OR ucast (inp ! j)]) r =
      r[m := fold (\<lambda>b w. push_bit 8 w OR ucast b) ?h 0]" .
  have "be_val ?h < 256 ^ W"
    using order_less_le_trans[OF be_val_bound[of ?h]] bs(1) \<open>n mod W < W\<close> by (simp add: power_increasing)
  then have u: "unat (fold (\<lambda>b w. push_bit 8 w OR ucast b) ?h (0 :: 'a word)) = be_val ?h"
    using fold_shift_in[OF L, of 0 ?h] B by simp
  have "mp_val (r[m := fold (\<lambda>b w. push_bit 8 w OR ucast b) ?h 0]) = be_val (drop (n mod W) bs) + 256 ^ (W * m) * be_val ?h"
    using mp_val_update[of m r "fold (\<lambda>b w. push_bit 8 w OR ucast b) ?h 0"] r r0(1) u by (simp add: power_mult B)
  also have "\<dots> = be_val (?h @ drop (n mod W) bs)"
    unfolding be_val_append using mn bs(1) by (simp add: minus_mod_eq_mult_div m_def)
  finally have "mp_val (r[m := fold (\<lambda>b w. push_bit 8 w OR ucast b) ?h 0]) = be_val bs" by simp
  moreover have "binary_decode x inp n = x\<lparr>reg := r[m := fold (\<lambda>b w. push_bit 8 w OR ucast b) ?h 0]\<rparr>"
    unfolding binary_decode_def Let_def W_def[symmetric] m_def[symmetric] r0_def[symmetric] r(1) last by (rule refl)
  ultimately show ?thesis by (simp add: mag_def flip: bs_def)
qed

end
