(* ===== verification/BigInt_Properties.thy ===== *)
theory BigInt_Properties
  imports BigInt_Bytes
begin

text \<open>
  The properties of class \<open>BigInt\<close> (\<open>bigint.cpp\<close>, \<open>big_ops2.cpp\<close>, \<open>big_ops3.cpp\<close>):
  what each operator computes on the integers the objects stand for, the class invariant that
  zero is positive, and the inputs where an operator does not compute what it names.
\<close>

lemma wf_iff: "bigint_wf x \<longleftrightarrow> (signedness x = Negative \<longrightarrow> mag x \<noteq> 0)"
  by (cases "signedness x") (auto simp: bigint_wf_def)

lemma plus_minus_wf:
  assumes "bigint_wf x" and "bigint_wf y"
  shows "bigint_wf (plus_BigInt x y)" and "bigint_wf (minus_BigInt x y)"
  using assms plus_BigInt_cases[of x y] minus_BigInt_cases[of x y]
  by (cases "signedness x"; cases "signedness y"; auto simp: bigint_wf_def split: if_splits)+

lemma times_wf:
  fixes x y :: "'a::len word BigInt"
  assumes "8 \<le> LENGTH('a)"
  shows "bigint_wf (times_BigInt x y)" and "bigint_wf (mul_assign x y)"
  using times_BigInt_cases[OF assms, of x y] mul_assign_cases[OF assms, of x y] by (auto simp: bigint_wf_def)

lemma shift_wf:
  assumes "bigint_wf x"
  shows "bigint_wf (shl_BigInt x s)" and "bigint_wf (shr_BigInt x s)" and "bigint_wf (shl_assign x s)"
  using assms shl_BigInt_cases[OF assms, of s] shr_BigInt_cases[OF assms, of s] shl_assign_cases[of x s]
  by (auto simp: bigint_wf_def split: if_splits)

lemma uminus_abs_wf: "bigint_wf (BigInt_uminus x)" "bigint_wf (BigInt_abs x)" "bigint_wf (flip_sign x)"
  by (simp_all add: BigInt_uminus_def BigInt_abs_def flip_sign_def)

text \<open>C2. The in-place operators and the binary plus compute the integer sum and difference for all
  signs and sizes.\<close>

theorem add_sub_correct:
  fixes x y :: "'a::len word BigInt"
  shows "bigint_val (add_assign x y) = bigint_val x + bigint_val y \<and>
    bigint_val (sub_assign x y) = bigint_val x - bigint_val y \<and>
    bigint_val (plus_BigInt x y) = bigint_val x + bigint_val y"
  by (simp add: add_assign_val sub_assign_val plus_BigInt_val)

text \<open>Binary minus computes the difference, except where a negative number is taken the positive
  number of the same magnitude from.\<close>

theorem minus_correct:
  assumes "\<not> (signedness x = Negative \<and> signedness y = Positive \<and> mag x = mag y)"
  shows "bigint_val (minus_BigInt x y) = bigint_val x - bigint_val y"
  using assms by (rule minus_BigInt_val)

lemma minus_correct_witness:
  "bigint_val (minus_BigInt \<lparr>reg = [5, 0], signedness = Negative\<rparr> \<lparr>reg = [9 :: 8 word], signedness = Positive\<rparr>) = -14"
  using minus_correct[of "\<lparr>reg = [5, 0 :: 8 word], signedness = Negative\<rparr>" "\<lparr>reg = [9], signedness = Positive\<rparr>"]
  by (simp add: mag_def bigint_val_def)

text \<open>In that case the result of binary minus has the wrong sign: \<open>(-n) - n\<close> comes out as \<open>+2n\<close>.\<close>

theorem minus_wrong_sign:
  assumes "signedness x = Negative" and "signedness y = Positive" and "mag x = mag y"
  shows "bigint_val (minus_BigInt x y) = - (bigint_val x - bigint_val y)"
  using minus_BigInt_cases[of x y] assms by (simp add: bigint_val_def)

lemma minus_wrong_sign_witness:
  "bigint_val (minus_BigInt \<lparr>reg = [5, 0], signedness = Negative\<rparr> \<lparr>reg = [5 :: 8 word], signedness = Positive\<rparr>) = 10"
  using minus_wrong_sign[of "\<lparr>reg = [5, 0 :: 8 word], signedness = Negative\<rparr>" "\<lparr>reg = [5], signedness = Positive\<rparr>"]
  by (simp add: mag_def bigint_val_def)

text \<open>C4. Both multiplication operators compute the integer product, for every size, sign and algorithm.\<close>

theorem times_correct:
  fixes x y :: "'a::len word BigInt"
  assumes "8 \<le> LENGTH('a)"
  shows "bigint_val (times_BigInt x y) = bigint_val x * bigint_val y \<and>
    bigint_val (mul_assign x y) = bigint_val x * bigint_val y"
  using assms by (simp add: times_BigInt_val mul_assign_val)

lemma times_correct_witness:
  "bigint_val (times_BigInt \<lparr>reg = [5, 7], signedness = Negative\<rparr> \<lparr>reg = [3, 1 :: 8 word], signedness = Positive\<rparr>) = - 465423"
  using times_correct[of "\<lparr>reg = [5, 7 :: 8 word], signedness = Negative\<rparr>" "\<lparr>reg = [3, 1], signedness = Positive\<rparr>"]
  by (simp add: mag_def bigint_val_def)

text \<open>Division: the quotient and the remainder of a call that returns.\<close>

lemma division_wf:
  fixes x y z :: "'a::len word BigInt"
  assumes "mp_word_bits LENGTH('a)" and "bigint_wf x"
  shows "div_BigInt x y = Some (Inr z) \<Longrightarrow> bigint_wf z" and "mod_BigInt x y = Some (Inr z) \<Longrightarrow> bigint_wf z"
    and "div_assign x y = Some (Inr z) \<Longrightarrow> bigint_wf z"
proof -
  note w = mp_word_bitsD[OF assms(1)]
  have d: "mag y = 0 \<and> divide x y BigInt_empty = Some (Inl DivideByZero) \<or>
      (\<exists>q r. divide x y BigInt_empty = Some (Inr (q, r)) \<and> bigint_wf q \<and> bigint_wf r)"
    using divide_wf_val[of y BigInt_empty x] w by (cases "mag y = 0") (auto simp: BigInt_empty_def divide_def)
  show 1: "bigint_wf z" if "div_BigInt x y = Some (Inr z)" using d that by (auto simp: div_BigInt_def)
  show "bigint_wf z" if "mod_BigInt x y = Some (Inr z)" using d that by (auto simp: mod_BigInt_def split: if_splits)
  show "bigint_wf z" if "div_assign x y = Some (Inr z)"
    using 1 shr_assign_wf[OF assms(2)] that by (auto simp: div_assign_def split: if_splits)
qed

text \<open>\<open>%=\<close> by a word of a power of two keeps the sign, so only there a negative number becomes a negative zero.\<close>

lemma mod_word_assign_wf:
  assumes "mod_word_assign x m = Inr (r, z)"
  shows "bigint_wf z \<longleftrightarrow> \<not> (power_of_2 m \<and> is_negative x \<and> r = 0)"
proof (cases "power_of_2 m")
  case True
  let ?g = "grow_to (clear x) 2"
  have "m \<noteq> 0" using assms by (auto simp: mod_word_assign_def)
  then have z: "r = word_at x 0 AND (m - 1)" "z = ?g\<lparr>reg := (reg ?g)[0 := r]\<rparr>"
    using assms True by (auto simp: mod_word_assign_def Let_def)
  have l: "0 < length (reg ?g)" using length_grow_to(1)[of 2 "clear x"] by linarith
  have g: "mag ?g = 0" unfolding mag_grow_to by (simp add: mag_def clear_def)
  have v: "mp_val (reg ?g) = 0" using g by (simp only: mag_def)
  then have "reg ?g ! 0 = 0" using nth_mem[OF l] unfolding mp_val_eq_0_iff by blast
  then have "mag z = unat r" using mp_val_update[OF l, of r] v by (simp add: z(2) mag_def)
  moreover have "signedness z = signedness x" by (simp add: z(2) clear_def)
  ultimately show ?thesis using True
    by (cases "signedness x") (simp_all add: bigint_wf_def is_negative_def unat_eq_zero)
next
  case False
  then show ?thesis using assms by (auto simp: mod_word_assign_def Let_def split: if_splits)
qed

text \<open>C10. The class invariant that zero is positive: every arithmetic operator, applied to objects that have it, returns
  one that has it, for all signs and sizes and whenever it returns (division by zero and by a negative modulus throw). The one
  exception is \<open>%=\<close> with a word, which keeps the sign when the word is a power of two: its result breaks the invariant
  exactly when a negative number leaves no remainder.\<close>

theorem operators_keep_invariant:
  fixes x y :: "'a::len word BigInt"
  assumes "mp_word_bits LENGTH('a)" and "bigint_wf x" and "bigint_wf y"
  shows "(\<forall>z \<in> {add_assign x y, sub_assign x y, mul_assign x y, plus_BigInt x y, minus_BigInt x y, times_BigInt x y,
      shl_assign x s, shr_assign x s, shl_BigInt x s, shr_BigInt x s, increment x, decrement x,
      BigInt_copy x, BigInt_uminus x, BigInt_abs x, flip_sign x}. bigint_wf z) \<and>
    (\<forall>z. Some (Inr z) \<in> {div_BigInt x y, mod_BigInt x y, div_assign x y, mod_assign x y} \<longrightarrow> bigint_wf z) \<and>
    (\<forall>r z. mod_word_assign x m = Inr (r, z) \<longrightarrow> (bigint_wf z \<longleftrightarrow> \<not> (power_of_2 m \<and> is_negative x \<and> r = 0)))"
proof (intro conjI allI impI)
  have w: "8 \<le> LENGTH('a)" using mp_word_bitsD[OF assms(1)] by simp
  show "\<forall>z \<in> {add_assign x y, sub_assign x y, mul_assign x y, plus_BigInt x y, minus_BigInt x y, times_BigInt x y,
      shl_assign x s, shr_assign x s, shl_BigInt x s, shr_BigInt x s, increment x, decrement x,
      BigInt_copy x, BigInt_uminus x, BigInt_abs x, flip_sign x}. bigint_wf z"
    using assms w by (simp add: add_assign_wf sub_assign_wf plus_minus_wf times_wf shift_wf shr_assign_wf uminus_abs_wf
      increment_def decrement_def)
next
  fix z
  assume "Some (Inr z) \<in> {div_BigInt x y, mod_BigInt x y, div_assign x y, mod_assign x y}"
  then show "bigint_wf z" using division_wf[OF assms(1,2), of y z] by (auto simp: mod_assign_def)
qed (rule mod_word_assign_wf)

lemma operators_keep_invariant_witness:
  "bigint_wf (plus_BigInt \<lparr>reg = [5, 7], signedness = Negative\<rparr> \<lparr>reg = [5, 7 :: 8 word], signedness = Positive\<rparr>) \<and>
   (\<exists>z. mod_word_assign \<lparr>reg = [8, 7 :: 8 word], signedness = Negative\<rparr> 8 = Inr (0, z) \<and> \<not> bigint_wf z)"
proof -
  let ?x = "\<lparr>reg = [8, 7 :: 8 word], signedness = Negative\<rparr>"
  let ?a = "\<lparr>reg = [5, 7 :: 8 word], signedness = Negative\<rparr>" and ?b = "\<lparr>reg = [5, 7 :: 8 word], signedness = Positive\<rparr>"
  have w: "mp_word_bits LENGTH(8)" by (simp add: mp_word_bits_def)
  have wf: "bigint_wf ?x" "bigint_wf ?a" "bigint_wf ?b" by (simp_all add: bigint_wf_def mag_def)
  have p: "power_of_2 (8 :: 8 word)" by (simp add: power_of_2_def)
  then obtain z where z: "mod_word_assign ?x 8 = Inr (0, z)"
    by (simp add: mod_word_assign_def word_at_def size_of_def Let_def)
  have "is_negative ?x" by (simp add: is_negative_def)
  then have "\<not> bigint_wf z" using operators_keep_invariant[OF w wf(1,1), of 0 8] z p by blast
  moreover have "bigint_wf (plus_BigInt ?a ?b)" using operators_keep_invariant[OF w wf(2,3), of 0 1] by blast
  ultimately show ?thesis using z by blast
qed

text \<open>C11. Comparison is the order of the integers, on objects in which zero is positive.\<close>

theorem cmp_correct:
  assumes "bigint_wf x" and "bigint_wf y"
  shows "BigInt_cmp x y True = sgn (bigint_val x - bigint_val y)"
  using assms by (rule BigInt_cmp_val)

lemma cmp_correct_witness:
  "BigInt_cmp \<lparr>reg = [5, 7, 0], signedness = Negative\<rparr> \<lparr>reg = [6, 7 :: 8 word], signedness = Negative\<rparr> True = 1"
  using cmp_correct[of "\<lparr>reg = [5, 7, 0 :: 8 word], signedness = Negative\<rparr>" "\<lparr>reg = [6, 7], signedness = Negative\<rparr>"]
  by (simp add: bigint_wf_def bigint_val_def mag_def)

text \<open>\<open>clear\<close> zeroizes the register and leaves the sign, so a cleared negative number compares below zero.\<close>

theorem clear_negative_zero:
  assumes "is_negative x"
  shows "bigint_val (clear x) = 0 \<and> is_zero (clear x) \<and> BigInt_cmp (clear x) BigInt_empty True = -1"
  using assms
  by (simp add: bigint_val_def mag_def clear_def BigInt_cmp_def is_negative_def is_positive_def BigInt_empty_def)

lemma clear_negative_zero_witness:
  "BigInt_cmp (clear \<lparr>reg = [5, 7 :: 8 word], signedness = Negative\<rparr>) BigInt_empty True = -1"
  using clear_negative_zero[of "\<lparr>reg = [5, 7 :: 8 word], signedness = Negative\<rparr>"] by (simp add: is_negative_def)

text \<open>C12. Shifts: left is multiplication by a power of two; right divides the magnitude, so it rounds
  toward zero, and a result of zero is positive.\<close>

theorem shifts_correct:
  fixes x :: "'a::len word BigInt"
  assumes "bigint_wf x"
  shows "bigint_val (shl_assign x s) = bigint_val x * 2 ^ s \<and> bigint_val (shl_BigInt x s) = bigint_val x * 2 ^ s \<and>
    bigint_val (shr_assign x s) = sign_factor (signedness x) * (int (mag x) div 2 ^ s) \<and>
    bigint_val (shr_BigInt x s) = bigint_val (shr_assign x s)"
proof -
  have "bigint_val (shl_BigInt x s) = bigint_val x * 2 ^ s"
    using shl_BigInt_cases[OF assms, of s] by (simp add: bigint_val_def)
  moreover have "bigint_val (shr_BigInt x s) = bigint_val (shr_assign x s)"
  proof -
    have "int (mag x) div 2 ^ s = int (mag x div 2 ^ s)" by (simp add: zdiv_int)
    then show ?thesis unfolding shr_assign_val using shr_BigInt_cases[OF assms, of s] by (simp add: bigint_val_def)
  qed
  ultimately show ?thesis by (simp add: shl_assign_val shr_assign_val)
qed

lemma shifts_correct_witness:
  "bigint_val (shr_assign \<lparr>reg = [5, 7 :: 8 word], signedness = Negative\<rparr> 9) = - 3"
  using shifts_correct[of "\<lparr>reg = [5, 7 :: 8 word], signedness = Negative\<rparr>" 9] by (simp add: bigint_wf_def mag_def)

text \<open>\<open>bits\<close> is the position after the highest set bit.\<close>

theorem bits_correct:
  fixes x :: "'a::len word BigInt"
  shows "(mag x = 0 \<and> bits x = 0) \<or> (2 ^ (bits x - 1) \<le> mag x \<and> mag x < 2 ^ bits x)"
  using bits_bounds[of x] bits_le_iff[of x 0] by (cases "mag x = 0") auto

text \<open>The word remainder is the mathematical residue, in \<open>[0, m)\<close> also for a negative dividend,
  when the modulus is no power of two or the dividend is not negative; a zero modulus is an error.\<close>

theorem mod_word_correct:
  fixes n :: "'a::len word BigInt"
  assumes "\<not> (power_of_2 m \<and> is_negative n)"
  shows "mod_word n m = (if m = 0 then Inl DivideByZero else Inr (word_of_int (bigint_val n mod uint m)))"
proof (cases "m = 0")
  case False
  from mod_word_val[OF this assms] obtain r where "mod_word n m = Inr r" "uint r = bigint_val n mod uint m" by blast
  with False show ?thesis by (metis word_of_int_uint)
qed (simp add: mod_word_def)

lemma mod_word_correct_witness:
  "mod_word \<lparr>reg = [5, 7 :: 8 word], signedness = Negative\<rparr> 10 = Inr 3"
  using mod_word_correct[of 10 "\<lparr>reg = [5, 7 :: 8 word], signedness = Negative\<rparr>"]
  by (simp add: power_of_2_def is_negative_def bigint_val_def mag_def)

text \<open>With a power of two as modulus the sign of the dividend is ignored: the result is the residue of
  the magnitude, which for a negative dividend is the negated residue.\<close>

theorem mod_word_power_of_2:
  fixes n :: "'a::len word BigInt"
  assumes "power_of_2 m" and "m \<noteq> 0"
  shows "mod_word n m = Inr (word_of_nat (mag n mod unat m))"
proof -
  have "word_at n 0 AND (m - 1) = word_of_nat (mag n mod unat m)"
    using mod_word_mag(1)[OF assms(2,1), of n] by (metis of_nat_unat ucast_id)
  then show ?thesis using assms by (simp add: mod_word_def)
qed

lemma mod_word_power_of_2_witness:
  "mod_word \<lparr>reg = [5, 7 :: 8 word], signedness = Negative\<rparr> 8 = Inr 5 \<and> (-1797) mod 8 = (3 :: int)"
  using mod_word_power_of_2[of 8 "\<lparr>reg = [5, 7 :: 8 word], signedness = Negative\<rparr>"]
  by (simp add: power_of_2_def mag_def)

lemma mag_eq_val: "mag x = nat \<bar>bigint_val x\<bar>"
  by (cases "signedness x") (simp_all add: bigint_val_def)

text \<open>C3. Division: for a divisor that is not zero both search loops end, and quotient and remainder satisfy
  \<open>x = q * y + r\<close> with \<open>0 <= r < |y|\<close>, for all signs.\<close>

theorem divide_correct:
  fixes x y :: "'a::len word BigInt"
  assumes "mp_word_bits LENGTH('a)" and "\<not> is_zero y"
  shows "\<exists>q r. divide x y BigInt_empty = Some (Inr (q, r)) \<and>
    bigint_val x = bigint_val q * bigint_val y + bigint_val r \<and> 0 \<le> bigint_val r \<and> bigint_val r < \<bar>bigint_val y\<bar>"
proof -
  have "signedness (BigInt_empty :: 'a word BigInt) = Positive" by (simp add: BigInt_empty_def)
  moreover have "int (mag y) = \<bar>bigint_val y\<bar>" by (simp add: mag_eq_val)
  ultimately show ?thesis using divide_val[of y "BigInt_empty" x] mp_word_bitsD[OF assms(1)] assms(2) by simp
qed

lemma divide_correct_witness:
  "\<exists>q r. divide \<lparr>reg = [5, 7, 200], signedness = Negative\<rparr> \<lparr>reg = [5, 7 :: 8 word], signedness = Positive\<rparr> BigInt_empty = Some (Inr (q, r)) \<and>
    - 13108997 = bigint_val q * 1797 + bigint_val r \<and> 0 \<le> bigint_val r \<and> bigint_val r < 1797"
  using divide_correct[of "\<lparr>reg = [5, 7 :: 8 word], signedness = Positive\<rparr>" "\<lparr>reg = [5, 7, 200], signedness = Negative\<rparr>"]
  by (simp add: mp_word_bits_def bigint_val_def mag_def)

lemma quotient_unique:
  fixes a b q r :: int
  assumes "a = q * b + r" and "0 \<le> r" and "r < \<bar>b\<bar>" and "0 < b"
  shows "a div b = q \<and> a mod b = r"
  using assms by (simp add: div_pos_pos_trivial mod_pos_pos_trivial)

lemma mod_BigInt_val:
  fixes n m :: "'a::len word BigInt"
  assumes "mp_word_bits LENGTH('a)" and "signedness m = Positive" and "mag m \<noteq> 0"
  shows "\<exists>r. mod_BigInt n m = Some (Inr r) \<and> bigint_val r = bigint_val n mod bigint_val m"
proof (cases "is_positive n \<and> is_positive m \<and> BigInt_cmp n m True < 0")
  case True
  then have n: "signedness n = Positive" by (simp add: is_positive_def)
  then have "bigint_val n < bigint_val m" "0 \<le> bigint_val n"
    using True BigInt_cmp_val[of n m] assms by (auto simp: bigint_wf_def bigint_val_def sgn_if split: if_splits)
  then show ?thesis using True assms by (auto simp: mod_BigInt_def is_negative_def intro!: mod_pos_pos_trivial[symmetric])
next
  case False
  have "signedness (BigInt_empty :: 'a word BigInt) = Positive" by (simp add: BigInt_empty_def)
  then obtain q r where d: "divide n m BigInt_empty = Some (Inr (q, r))"
      "bigint_val n = bigint_val q * bigint_val m + bigint_val r" "0 \<le> bigint_val r" "bigint_val r < int (mag m)"
    using divide_val[of m "BigInt_empty" n] mp_word_bitsD[OF assms(1)] assms(3) by blast
  have m: "bigint_val m = int (mag m)" by (simp add: bigint_val_def assms(2))
  have "mod_BigInt n m = Some (Inr r)"
    unfolding mod_BigInt_def if_not_P[OF False] using assms d(1) by (simp add: is_negative_def)
  moreover have "bigint_val n mod bigint_val m = bigint_val r"
    using quotient_unique[OF d(2,3)] d(4) assms(3) m by simp
  ultimately show ?thesis by auto
qed

text \<open>C8. The remainder operator: the mathematical residue for a positive modulus, an error for a modulus
  that is zero or negative.\<close>

theorem mod_correct:
  fixes n m :: "'a::len word BigInt"
  assumes "mp_word_bits LENGTH('a)"
  shows "case mod_BigInt n m of None \<Rightarrow> False
    | Some (Inl e) \<Rightarrow> e = (if mag m = 0 then DivideByZero else Invalid_Argument ''BigInt::operator%: modulus must be > 0'') \<and>
        (mag m = 0 \<or> signedness m = Negative)
    | Some (Inr r) \<Rightarrow> bigint_val r = bigint_val n mod bigint_val m \<and> 0 < bigint_val m"
proof -
  consider "mag m = 0" | "mag m \<noteq> 0" "signedness m = Negative" | "mag m \<noteq> 0" "signedness m = Positive"
    by (cases "signedness m") auto
  then show ?thesis
  proof cases
    case 3
    then show ?thesis using mod_BigInt_val[OF assms 3(2,1), of n] by (auto simp: bigint_val_def)
  qed (simp_all add: mod_BigInt_def is_negative_def)
qed

lemma mod_correct_witness:
  "case mod_BigInt \<lparr>reg = [5, 7, 200], signedness = Negative\<rparr> \<lparr>reg = [5, 7 :: 8 word], signedness = Positive\<rparr> of
    None \<Rightarrow> False | Some (Inl e) \<Rightarrow> False | Some (Inr r) \<Rightarrow> bigint_val r = - 13108997 mod 1797"
  using mod_correct[where n = "\<lparr>reg = [5, 7, 200 :: 8 word], signedness = Negative\<rparr>" and m = "\<lparr>reg = [5, 7], signedness = Positive\<rparr>"]
  by (auto simp: mp_word_bits_def bigint_val_def mag_def split: option.splits sum.splits)

text \<open>\<open>/=\<close> by a one-word power of two shifts instead of dividing: the quotient is that of the magnitudes
  with the sign of the dividend, so it rounds a negative dividend the other way than \<open>/\<close> does and ignores a
  negative divisor.\<close>

theorem div_assign_power_of_2:
  fixes x y :: "'a::len word BigInt"
  assumes "sig_words y = 1" and "power_of_2 (word_at y 0)"
  shows "\<exists>z. div_assign x y = Some (Inr z) \<and> bigint_val z = sign_factor (signedness x) * (int (mag x) div int (mag y))"
proof -
  obtain k where k: "unat (word_at y 0) = 2 ^ k" using power_of_2_iff[OF assms(2)] .
  have "mag y < 2 ^ LENGTH('a)" using mag_lt[of y] assms(1) by simp
  then have m: "mag y = 2 ^ k" using word_at_val[of y 0] k by simp
  then have "2 ^ (bits y - 1) \<le> (2 :: nat) ^ k" "(2 :: nat) ^ k < 2 ^ bits y" "0 < bits y"
    using bits_bounds[of y] by auto
  then have "bits y - 1 \<le> k" "k < bits y" by simp_all
  then have "bits y - 1 = k" by simp
  then show ?thesis using assms m by (simp add: div_assign_def shr_assign_val)
qed

lemma div_assign_power_of_2_witness:
  "\<exists>z. div_assign \<lparr>reg = [7], signedness = Negative\<rparr> \<lparr>reg = [2 :: 8 word], signedness = Negative\<rparr> = Some (Inr z) \<and> bigint_val z = - 3"
  using div_assign_power_of_2[of "\<lparr>reg = [2 :: 8 word], signedness = Negative\<rparr>" "\<lparr>reg = [7], signedness = Negative\<rparr>"]
  by (simp add: sig_words_def size_of_def word_at_def power_of_2_def mag_def)

text \<open>C9. Decoding the binary encoding of a number gives its magnitude back.\<close>

theorem encode_decode:
  fixes x z :: "'a::len word BigInt"
  assumes "mp_word_bits LENGTH('a)" and "bytes x \<le> length out"
  shows "bigint_val (binary_decode z (binary_encode x out) (bytes x)) = sign_factor (signedness z) * int (mag x)"
proof -
  let ?e = "rev (map (byte_at x) [0..<bytes x])"
  have "length (binary_encode x out) = length out" "take (bytes x) (binary_encode x out) = ?e"
    using assms(2) by (simp_all add: binary_encode_bytes)
  moreover have "be_val ?e = mag x" using be_val_bytes[OF assms(1)] mag_lt_bytes[of x] by simp
  ultimately show ?thesis
    using binary_decode_val[OF assms(1), of "bytes x" "binary_encode x out" z] assms(2) by (simp add: bigint_val_def)
qed

lemma encode_decode_witness:
  "bigint_val (binary_decode BigInt_empty
    (binary_encode \<lparr>reg = [5, 7, 200 :: 16 word], signedness = Negative\<rparr> (replicate 9 0)) 5 :: 16 word BigInt) = 858993917957"
proof -
  have b: "bytes \<lparr>reg = [5, 7, 200 :: 16 word], signedness = Negative\<rparr> = 5" by code_simp
  show ?thesis
    using encode_decode[of "\<lparr>reg = [5, 7, 200 :: 16 word], signedness = Negative\<rparr>" "replicate 9 0" BigInt_empty]
    by (simp add: b mp_word_bits_def mag_def BigInt_empty_def)
qed

text \<open>C13. Conversion to 32 bits: the value when it is below \<open>2 ^ 31\<close>, an error for a negative number and for
  any number with its bit 31 set or beyond, although numbers up to \<open>2 ^ 32 - 1\<close> would fit.\<close>

theorem to_u32bit_correct:
  fixes x :: "'a::len word BigInt"
  assumes "mp_word_bits LENGTH('a)"
  shows "to_u32bit x =
    (if signedness x = Negative then Inl (Encoding_Error ''BigInt::to_u32bit: Number is negative'')
     else if mag x < 2 ^ 31 then Inr (word_of_nat (mag x))
     else Inl (Encoding_Error ''BigInt::to_u32bit: Number is too big to convert''))"
proof (cases "signedness x = Positive \<and> mag x < 2 ^ 31")
  case True
  then show ?thesis using to_u32bit_val[OF assms, of x] by simp
next
  case False
  have "32 \<le> bits x" if "\<not> mag x < 2 ^ 31" using that bits_le_iff[of x 31] by simp
  with False show ?thesis by (cases "signedness x") (simp_all add: to_u32bit_def is_negative_def)
qed

lemma to_u32bit_correct_witness:
  "to_u32bit \<lparr>reg = [0, 0, 0, 128 :: 8 word], signedness = Positive\<rparr> =
    Inl (Encoding_Error ''BigInt::to_u32bit: Number is too big to convert'')"
  using to_u32bit_correct[of "\<lparr>reg = [0, 0, 0, 128 :: 8 word], signedness = Positive\<rparr>"]
  by (simp add: mp_word_bits_def mag_def)

end
