(* ===== verification/Parsing.thy ===== *)
theory Parsing
  imports Exceptn LoadStore
begin

text \<open>
  Character sets (\<open>src/utils/charset.cpp\<close>) and string parsing (\<open>src/utils/parsing.cpp\<close>).
  A \<open>std::string\<close> is a list of characters; where the code casts a character to a byte the model
  converts with \<open>of_char\<close>. Parsing loops over a string are recursions on what is left of it.
\<close>

section \<open>Characters\<close>

text \<open>\<open>static_cast<byte>\<close> and \<open>static_cast<char>\<close>.\<close>

definition byte_of_char :: "char \<Rightarrow> byte" where
  "byte_of_char c = of_nat (of_char c)"

definition char_of_byte :: "byte \<Rightarrow> char" where
  "char_of_byte b = char_of (unat b)"

lemma byte_char [simp]: "byte_of_char (char_of_byte b) = b" "char_of_byte (byte_of_char c) = c"
proof -
  have "unat b < 256" using unat_less_base[of b] by simp
  then show "byte_of_char (char_of_byte b) = b" by (simp add: byte_of_char_def char_of_byte_def)
  have "of_char c < (256 :: nat)" by simp
  then show "char_of_byte (byte_of_char c) = c"
    by (simp add: byte_of_char_def char_of_byte_def unsigned_of_nat take_bit_nat_eq_self)
qed

definition is_digit :: "char \<Rightarrow> bool" where
  "is_digit c = (c = CHR ''0'' \<or> c = CHR ''1'' \<or> c = CHR ''2'' \<or> c = CHR ''3'' \<or> c = CHR ''4'' \<or>
     c = CHR ''5'' \<or> c = CHR ''6'' \<or> c = CHR ''7'' \<or> c = CHR ''8'' \<or> c = CHR ''9'')"

definition is_space :: "char \<Rightarrow> bool" where
  "is_space c = (c = CHR '' '' \<or> c = CHR 0x09 \<or> c = CHR 0x0A \<or> c = CHR 0x0D)"

definition char2digit :: "char \<Rightarrow> botan_error + byte" where
  "char2digit c =
     (if c = CHR ''0'' then Inr 0 else if c = CHR ''1'' then Inr 1 else if c = CHR ''2'' then Inr 2
      else if c = CHR ''3'' then Inr 3 else if c = CHR ''4'' then Inr 4 else if c = CHR ''5'' then Inr 5
      else if c = CHR ''6'' then Inr 6 else if c = CHR ''7'' then Inr 7 else if c = CHR ''8'' then Inr 8
      else if c = CHR ''9'' then Inr 9 else Inl (Invalid_Argument ''char2digit: Input is not a digit character''))"

definition digit2char :: "byte \<Rightarrow> botan_error + char" where
  "digit2char b =
     (if b = 0 then Inr CHR ''0'' else if b = 1 then Inr CHR ''1'' else if b = 2 then Inr CHR ''2''
      else if b = 3 then Inr CHR ''3'' else if b = 4 then Inr CHR ''4'' else if b = 5 then Inr CHR ''5''
      else if b = 6 then Inr CHR ''6'' else if b = 7 then Inr CHR ''7'' else if b = 8 then Inr CHR ''8''
      else if b = 9 then Inr CHR ''9'' else Inl (Invalid_Argument ''digit2char: Input is not a digit''))"

text \<open>\<open>std::tolower\<close> of the C locale.\<close>

definition tolower :: "byte \<Rightarrow> byte" where
  "tolower c = (if 65 \<le> c \<and> c \<le> 90 then c + 32 else c)"

definition caseless_cmp :: "char \<Rightarrow> char \<Rightarrow> bool" where
  "caseless_cmp a b = (tolower (byte_of_char a) = tolower (byte_of_char b))"

section \<open>Transcoding\<close>

datatype Character_Set = LOCAL_CHARSET | UCS2_CHARSET | UTF8_CHARSET | LATIN1_CHARSET

definition push_char :: "char \<Rightarrow> botan_error + string \<Rightarrow> botan_error + string" where
  "push_char c r = map_sum id ((#) c) r"

fun ucs2_to_latin1_loop :: "string \<Rightarrow> botan_error + string" where
  "ucs2_to_latin1_loop (c1 # c2 # s) =
     (if (byte_of_char c1) \<noteq> 0 then Inl (Decoding_Error ''UCS-2 has non-Latin1 characters'')
      else push_char c2 (ucs2_to_latin1_loop s))"
| "ucs2_to_latin1_loop s = Inr []"

definition ucs2_to_latin1 :: "string \<Rightarrow> botan_error + string" where
  "ucs2_to_latin1 ucs2 =
     (if length ucs2 mod 2 = 1 then Inl (Decoding_Error ''UCS-2 string has an odd number of bytes'')
      else ucs2_to_latin1_loop ucs2)"

fun utf8_to_latin1 :: "string \<Rightarrow> botan_error + string" where
  "utf8_to_latin1 [] = Inr []"
| "utf8_to_latin1 (c # s) =
     (let c1 = (byte_of_char c)
      in if c1 \<le> 0x7F then push_char (char_of_byte c1) (utf8_to_latin1 s)
         else if c1 \<ge> 0xC0 \<and> c1 \<le> 0xC7 then
           (case s of [] \<Rightarrow> Inl (Decoding_Error ''UTF-8: sequence truncated'')
            | d # s' \<Rightarrow>
                let c2 = (byte_of_char d);
                    iso_char = push_bit 6 (c1 AND 0x07) OR (c2 AND 0x3F)
                in if iso_char \<le> 0x7F then Inl (Decoding_Error ''UTF-8: sequence longer than needed'')
                   else push_char (char_of_byte iso_char) (utf8_to_latin1 s'))
         else Inl (Decoding_Error ''UTF-8: Unicode chars not in Latin1 used''))"

fun latin1_to_utf8 :: "string \<Rightarrow> string" where
  "latin1_to_utf8 [] = []"
| "latin1_to_utf8 (x # s) =
     (let c = (byte_of_char x)
      in if c \<le> 0x7F then char_of_byte c # latin1_to_utf8 s
         else char_of_byte (0xC0 OR drop_bit 6 c) # char_of_byte (0x80 OR (c AND 0x3F)) # latin1_to_utf8 s)"

definition transcode :: "string \<Rightarrow> Character_Set \<Rightarrow> Character_Set \<Rightarrow> botan_error + string" where
  "transcode str to from =
     (let to = (if to = LOCAL_CHARSET then LATIN1_CHARSET else to);
          from = (if from = LOCAL_CHARSET then LATIN1_CHARSET else from)
      in if to = from then Inr str
         else if from = LATIN1_CHARSET \<and> to = UTF8_CHARSET then Inr (latin1_to_utf8 str)
         else if from = UTF8_CHARSET \<and> to = LATIN1_CHARSET then utf8_to_latin1 str
         else if from = UCS2_CHARSET \<and> to = LATIN1_CHARSET then ucs2_to_latin1 str
         else Inl (Invalid_Argument ''Unknown transcoding operation''))"

section \<open>Numbers\<close>

fun to_u32bit_loop :: "string \<Rightarrow> u32bit \<Rightarrow> botan_error + u32bit" where
  "to_u32bit_loop [] n = Inr n"
| "to_u32bit_loop (c # s) n =
     (let OVERFLOW_MARK = 0xFFFFFFFF div 10
      in case char2digit c of Inl e \<Rightarrow> Inl e
         | Inr digit \<Rightarrow>
             if n > OVERFLOW_MARK \<or> (n = OVERFLOW_MARK \<and> digit > 5)
             then Inl (Decoding_Error ''to_u32bit: Integer overflow'')
             else to_u32bit_loop s (n * 10 + ucast digit))"

definition string_to_u32bit :: "string \<Rightarrow> botan_error + u32bit" where
  "string_to_u32bit number = to_u32bit_loop number 0"

text \<open>\<open>n % 10\<close> is a digit, so \<open>digit2char\<close> does not throw.\<close>

definition digit_char :: "nat \<Rightarrow> char" where
  "digit_char d = (case digit2char (of_nat d) of Inl _ \<Rightarrow> CHR 0x00 | Inr c \<Rightarrow> c)"

fun to_string_loop :: "nat \<Rightarrow> string \<Rightarrow> string" where
  "to_string_loop n lenstr = (if n > 0 then to_string_loop (n div 10) (digit_char (n mod 10) # lenstr) else lenstr)"

declare to_string_loop.simps [simp del]

definition to_string :: "nat \<Rightarrow> nat \<Rightarrow> string" where
  "to_string n min_len =
     (let lenstr = (if n \<noteq> 0 then to_string_loop n [] else ''0'')
      in replicate (min_len - length lenstr) (CHR ''0'') @ lenstr)"

definition timespec_to_u32bit :: "string \<Rightarrow> botan_error + u32bit" where
  "timespec_to_u32bit timespec =
     (if timespec = '''' then Inr 0
      else
        let suffix = last timespec;
            val = butlast timespec;
            scaled = (\<lambda>scale val. map_sum id (\<lambda>n. scale * n) (string_to_u32bit val))
        in if is_digit suffix then scaled 1 (val @ [suffix])
           else if suffix = CHR ''s'' then scaled 1 val
           else if suffix = CHR ''m'' then scaled 60 val
           else if suffix = CHR ''h'' then scaled (60 * 60) val
           else if suffix = CHR ''d'' then scaled (24 * 60 * 60) val
           else if suffix = CHR ''y'' then scaled (365 * 24 * 60 * 60) val
           else Inl (Decoding_Error (''timespec_to_u32bit: Bad input '' @ timespec)))"

section \<open>Splitting\<close>

fun split_on_loop :: "char \<Rightarrow> string \<Rightarrow> string list \<Rightarrow> string \<Rightarrow> string list \<times> string" where
  "split_on_loop delim [] elems substr = (elems, substr)"
| "split_on_loop delim (c # s) elems substr =
     (if c = delim then split_on_loop delim s (if substr \<noteq> '''' then elems @ [substr] else elems) ''''
      else split_on_loop delim s elems (substr @ [c]))"

definition split_on :: "string \<Rightarrow> char \<Rightarrow> botan_error + string list" where
  "split_on str delim =
     (if str = '''' then Inr []
      else case split_on_loop delim str [] '''' of (elems, substr) \<Rightarrow>
        if substr = '''' then Inl (Format_Error (''Unable to split string: '' @ str))
        else Inr (elems @ [substr]))"

text \<open>A SCAN name \<open>name(arg1,arg2)\<close>; \<open>substring.substr(1)\<close> drops the opening parenthesis.\<close>

fun parse_name_loop :: "string \<Rightarrow> string \<Rightarrow> nat \<Rightarrow> string list \<Rightarrow> string \<Rightarrow> botan_error + string list" where
  "parse_name_loop namex [] level elems substring =
     (if substring \<noteq> '''' then Inl (Invalid_Algorithm_Name namex) else Inr elems)"
| "parse_name_loop namex (c # s) level elems substring =
     (let level = (if c = CHR ''('' then level + 1 else level);
          pushed = elems @ [if length elems = 1 then drop 1 substring else substring]
      in if c = CHR '')'' \<and> level = 1 \<and> s = [] then Inr pushed
         else if c = CHR '')'' \<and> (level = 0 \<or> (level = 1 \<and> s \<noteq> [])) then Inl (Invalid_Algorithm_Name namex)
         else let level = (if c = CHR '')'' then level - 1 else level)
              in if c = CHR '','' \<and> level = 1 then parse_name_loop namex s level pushed ''''
                 else parse_name_loop namex s level elems (substring @ [c]))"

definition parse_algorithm_name :: "string \<Rightarrow> botan_error + string list" where
  "parse_algorithm_name namex =
     (if CHR ''('' \<notin> set namex \<and> CHR '')'' \<notin> set namex then Inr [namex]
      else if CHR ''('' \<notin> set namex then Inl std_out_of_range
      else parse_name_loop namex (dropWhile (\<lambda>c. c \<noteq> CHR ''('') namex) 0 [takeWhile (\<lambda>c. c \<noteq> CHR ''('') namex] '''')"

fun parse_oid_loop :: "string \<Rightarrow> string \<Rightarrow> string \<Rightarrow> u32bit list \<Rightarrow> botan_error + u32bit list" where
  "parse_oid_loop oid [] substring oid_elems =
     (if substring = '''' then Inl (Invalid_OID oid)
      else case string_to_u32bit substring of Inl e \<Rightarrow> Inl e
        | Inr n \<Rightarrow> if length (oid_elems @ [n]) < 2 then Inl (Invalid_OID oid) else Inr (oid_elems @ [n]))"
| "parse_oid_loop oid (c # s) substring oid_elems =
     (if c = CHR ''.'' then
        if substring = '''' then Inl (Invalid_OID oid)
        else case string_to_u32bit substring of Inl e \<Rightarrow> Inl e
          | Inr n \<Rightarrow> parse_oid_loop oid s '''' (oid_elems @ [n])
      else parse_oid_loop oid s (substring @ [c]) oid_elems)"

definition parse_asn1_oid :: "string \<Rightarrow> botan_error + u32bit list" where
  "parse_asn1_oid oid = parse_oid_loop oid oid '''' []"

section \<open>X.500 names\<close>

text \<open>After a run of spaces one string may be at its end and the other not; the comparison then
  dereferences the end iterator: \<open>None\<close>.\<close>

function x500_cmp_loop :: "string \<Rightarrow> string \<Rightarrow> bool option" where
  "x500_cmp_loop p1 p2 =
     (if p1 \<noteq> [] \<and> p2 \<noteq> [] then
        if is_space (hd p1) then
          if \<not> is_space (hd p2) then Some False
          else
            let p1 = dropWhile is_space p1; p2 = dropWhile is_space p2
            in if p1 = [] \<and> p2 = [] then Some True
               else if p1 = [] \<or> p2 = [] then None
               else if \<not> caseless_cmp (hd p1) (hd p2) then Some False
               else x500_cmp_loop (tl p1) (tl p2)
        else if \<not> caseless_cmp (hd p1) (hd p2) then Some False
        else x500_cmp_loop (tl p1) (tl p2)
      else Some (dropWhile is_space p1 = [] \<and> dropWhile is_space p2 = []))"
  by pat_completeness auto
termination
proof (relation "measure (length \<circ> fst)")
  fix p1 p2 a b :: string
  assume "p1 \<noteq> [] \<and> p2 \<noteq> []" and "a = dropWhile is_space p1" and "\<not> (a = [] \<or> b = [])"
  then have "length (tl a) < length a" "length a \<le> length p1" by (simp_all add: length_dropWhile_le)
  then show "((tl a, tl b), p1, p2) \<in> measure (length \<circ> fst)" by simp
qed simp_all

declare x500_cmp_loop.simps [simp del]

definition x500_name_cmp :: "string \<Rightarrow> string \<Rightarrow> bool option" where
  "x500_name_cmp name1 name2 = x500_cmp_loop (dropWhile is_space name1) (dropWhile is_space name2)"

section \<open>IPv4 addresses\<close>

fun ipv4_loop :: "string \<Rightarrow> string list \<Rightarrow> u32bit \<Rightarrow> botan_error + u32bit" where
  "ipv4_loop str [] ip = Inr ip"
| "ipv4_loop str (p # parts) ip =
     (case string_to_u32bit p of Inl e \<Rightarrow> Inl e
      | Inr octet \<Rightarrow>
          if octet > 255 then Inl (Decoding_Error (''Invalid IP string '' @ str))
          else ipv4_loop str parts (push_bit 8 ip OR (octet AND 0xFF)))"

definition string_to_ipv4 :: "string \<Rightarrow> botan_error + u32bit" where
  "string_to_ipv4 str =
     (case split_on str (CHR ''.'') of Inl e \<Rightarrow> Inl e
      | Inr parts \<Rightarrow>
          if length parts \<noteq> 4 then Inl (Decoding_Error (''Invalid IP string '' @ str))
          else ipv4_loop str parts 0)"

definition ipv4_to_string :: "u32bit \<Rightarrow> string" where
  "ipv4_to_string ip =
     for_up 0 4 (\<lambda>j str. (if j \<noteq> 0 then str @ ''.'' else str) @ to_string (unat (get_byte j ip)) 0) []"

section \<open>Round trips\<close>

lemma digit_char_simps:
  assumes "d < 10"
  shows "char2digit (digit_char d) = Inr (of_nat d)" and "digit_char d \<noteq> CHR ''.''"
proof -
  have "d \<in> {0, 1, 2, 3, 4, 5, 6, 7, 8, 9}" using assms by auto
  then show "char2digit (digit_char d) = Inr (of_nat d)" "digit_char d \<noteq> CHR ''.''"
    by (auto simp: digit_char_def digit2char_def char2digit_def)
qed

text \<open>The decimal value of a digit string, and what the two loops do to it.\<close>

fun digits_val :: "string \<Rightarrow> nat \<Rightarrow> nat option" where
  "digits_val [] n = Some n"
| "digits_val (c # s) n = (case char2digit c of Inl _ \<Rightarrow> None | Inr d \<Rightarrow> digits_val s (10 * n + unat d))"

lemma digits_val_mono: "digits_val s n = Some v \<Longrightarrow> n \<le> v"
  by (induction s arbitrary: n) (auto split: sum.splits, fastforce)

lemma to_u32bit_loop_val:
  assumes "digits_val s n = Some v" and "n < 2 ^ 32"
  shows "to_u32bit_loop s (of_nat n) =
    (if v < 2 ^ 32 then Inr (of_nat v) else Inl (Decoding_Error ''to_u32bit: Integer overflow''))"
  using assms
proof (induction s arbitrary: n)
  case (Cons c s)
  then obtain d where d: "char2digit c = Inr d" "digits_val s (10 * n + unat d) = Some v"
    by (auto split: sum.splits)
  have d9: "unat d \<le> 9" using d(1) by (auto simp: char2digit_def split: if_splits)
  have n: "unat (of_nat n :: u32bit) = n" using Cons.prems(2) by (simp add: unsigned_of_nat take_bit_nat_eq_self)
  have over: "(of_nat n :: u32bit) > 0xFFFFFFFF div 10 \<or> ((of_nat n :: u32bit) = 0xFFFFFFFF div 10 \<and> d > 5) \<longleftrightarrow>
      \<not> 10 * n + unat d < 2 ^ 32"
  proof -
    have m: "unat (0xFFFFFFFF div 10 :: u32bit) = 429496729" by simp
    have "(of_nat n :: u32bit) > 0xFFFFFFFF div 10 \<longleftrightarrow> n > 429496729"
      "(of_nat n :: u32bit) = 0xFFFFFFFF div 10 \<longleftrightarrow> n = 429496729" "d > 5 \<longleftrightarrow> unat d > 5"
      unfolding word_less_nat_alt word_unat_eq_iff n m by simp_all
    then show ?thesis using d9 by auto
  qed
  have step: "(of_nat n :: u32bit) * 10 + ucast d = of_nat (10 * n + unat d)" by (simp add: mult.commute)
  show ?case
  proof (cases "10 * n + unat d < 2 ^ 32")
    case True
    then have "to_u32bit_loop (c # s) (of_nat n) = to_u32bit_loop s (of_nat (10 * n + unat d))"
      by (simp only: to_u32bit_loop.simps Let_def d(1) sum.case over step not_True_eq_False if_False)
    then show ?thesis using Cons.IH[OF d(2) True] by (simp only:)
  next
    case False
    then have "\<not> v < 2 ^ 32" using digits_val_mono[OF d(2)] by simp
    then show ?thesis using False
      by (simp only: to_u32bit_loop.simps Let_def d(1) sum.case over not_False_eq_True if_True if_False)
  qed
qed simp

lemma digits_val_append: "digits_val (s @ t) n = Option.bind (digits_val s n) (digits_val t)"
proof (induction s arbitrary: n)
  case (Cons c s)
  then show ?case by (cases "char2digit c") simp_all
qed simp

lemma to_string_loop_append: "to_string_loop n acc = to_string_loop n [] @ acc"
proof (induction n arbitrary: acc rule: less_induct)
  case (less n)
  show ?case
  proof (cases "n > 0")
    case True
    then have "to_string_loop (n div 10) (digit_char (n mod 10) # acc) =
        to_string_loop (n div 10) [] @ digit_char (n mod 10) # acc" by (intro less) simp
    moreover have "to_string_loop (n div 10) [digit_char (n mod 10)] = to_string_loop (n div 10) [] @ [digit_char (n mod 10)]"
      using True by (intro less) simp
    ultimately show ?thesis using True to_string_loop.simps[of n] by simp
  qed (simp add: to_string_loop.simps)
qed

lemma to_string_loop_step: "n > 0 \<Longrightarrow> to_string_loop n [] = to_string_loop (n div 10) [] @ [digit_char (n mod 10)]"
  using to_string_loop.simps[of n "[]"] to_string_loop_append[of "n div 10" "[digit_char (n mod 10)]"] by simp

lemma to_string_loop_val: "digits_val (to_string_loop n []) 0 = Some n \<and> CHR ''.'' \<notin> set (to_string_loop n [])"
proof (induction n rule: less_induct)
  case (less n)
  show ?case
  proof (cases "n > 0")
    case True
    then have "digits_val (to_string_loop (n div 10) []) 0 = Some (n div 10)" "CHR ''.'' \<notin> set (to_string_loop (n div 10) [])"
      using less[of "n div 10"] by simp_all
    moreover have "n mod 10 < 10" by simp
    moreover have "unat (of_nat (n mod 10) :: byte) = n mod 10"
      using \<open>n mod 10 < 10\<close> by (simp add: unsigned_of_nat take_bit_nat_eq_self)
    ultimately show ?thesis
      using digit_char_simps[of "n mod 10"] True by (auto simp: to_string_loop_step digits_val_append)
  qed (simp add: to_string_loop.simps)
qed

lemma digits_val_zeros: "digits_val (replicate k (CHR ''0'') @ s) 0 = digits_val s 0"
  by (induction k) (simp_all add: char2digit_def)

lemma to_string_val: "digits_val (to_string n k) 0 = Some n" "CHR ''.'' \<notin> set (to_string n k)" "to_string n k \<noteq> []"
proof -
  have "digits_val ''0'' 0 = Some 0" by (simp add: char2digit_def)
  then show "digits_val (to_string n k) 0 = Some n"
    using to_string_loop_val[of n] by (cases "n = 0") (simp_all add: to_string_def Let_def digits_val_zeros)
  show "CHR ''.'' \<notin> set (to_string n k)" using to_string_loop_val[of n] by (auto simp: to_string_def Let_def)
  show "to_string n k \<noteq> []" by (auto simp: to_string_def Let_def to_string_loop_step)
qed

lemma string_to_u32bit_to_string: "n < 2 ^ 32 \<Longrightarrow> string_to_u32bit (to_string n k) = Inr (of_nat n)"
  using to_u32bit_loop_val[OF to_string_val(1), of n k] by (simp add: string_to_u32bit_def)

lemma split_on_loop_skip:
  "delim \<notin> set s \<Longrightarrow> split_on_loop delim (s @ t) elems substr = split_on_loop delim t elems (substr @ s)"
  by (induction s arbitrary: substr) auto

lemma split_on_dots:
  assumes "delim \<notin> set a" "delim \<notin> set b" "delim \<notin> set c" "delim \<notin> set d"
    and "a \<noteq> []" "b \<noteq> []" "c \<noteq> []" "d \<noteq> []"
  shows "split_on (a @ [delim] @ b @ [delim] @ c @ [delim] @ d) delim = Inr [a, b, c, d]"
  using assms split_on_loop_skip[of delim d "[]"]
  by (simp add: split_on_def split_on_loop_skip)

lemma push_bit_or_dist: "push_bit k (a OR b) = push_bit k a OR push_bit k (b :: 'a::len word)"
  by (rule bit_word_eqI) (auto simp: bit_simps)

lemma ipv4_round_trip: "string_to_ipv4 (ipv4_to_string ip) = Inr ip"
proof -
  let ?o = "\<lambda>j. to_string (unat (get_byte j ip)) 0"
  have s: "ipv4_to_string ip = ?o 0 @ ''.'' @ ?o 1 @ ''.'' @ ?o 2 @ ''.'' @ ?o 3"
    by (simp add: ipv4_to_string_def for_up_def upt_rec numeral_eq_Suc)
  have o: "string_to_u32bit (to_string (unat (b :: byte)) 0) = Inr (ucast b)" for b
  proof -
    have "unat b < 2 ^ 32" using unat_less_base[of b] by simp
    then show ?thesis using string_to_u32bit_to_string[of "unat b" 0] by simp
  qed
  have le: "\<not> (255 :: u32bit) < ucast (b :: byte)" for b
    using unat_less_base[of b] by (simp add: word_less_nat_alt unsigned_ucast_eq take_bit_eq_mod)
  have mask: "ucast (b :: byte) AND (0xFF :: u32bit) = ucast b" for b
  proof -
    have "ucast b AND (0xFF :: u32bit) = take_bit 8 (ucast b)" by (simp add: take_bit_eq_mask mask_eq_exp_minus_1)
    then show ?thesis using unat_less_base[of b] by (simp add: unsigned_ucast_eq take_bit_eq_mod word_unat_eq_iff unat_mod)
  qed
  have "make_u32bit (get_byte 0 ip) (get_byte 1 ip) (get_byte 2 ip) (get_byte 3 ip) = ip"
    using load_store_u32(1)[of ip] by (simp add: load_be_u32_def store_be_u32_def)
  moreover have "split_on (ipv4_to_string ip) (CHR ''.'') = Inr [?o 0, ?o 1, ?o 2, ?o 3]"
    unfolding s by (rule split_on_dots) (simp_all add: to_string_val)
  ultimately show ?thesis
    by (simp add: string_to_ipv4_def o le mask make_u32bit_def push_bit_or_dist or.assoc)
qed

lemma byte_all:
  assumes "list_all P (map word_of_nat [0..<256])"
  shows "P (b :: byte)"
proof -
  have "unat b < 256" using unat_less_base[of b] by simp
  moreover have "P (word_of_nat n)" if "n < 256" for n using assms that by (simp add: list_all_iff)
  ultimately have "P (word_of_nat (unat b))" by blast
  then show ?thesis by simp
qed

lemma latin1_two_bytes:
  fixes c :: byte
  shows "c \<le> 0x7F \<or> (0xC0 \<le> 0xC0 OR drop_bit 6 c \<and> 0xC0 OR drop_bit 6 c \<le> 0xC7 \<and>
    push_bit 6 ((0xC0 OR drop_bit 6 c) AND 0x07) OR ((0x80 OR (c AND 0x3F)) AND 0x3F) = c)"
  by (rule byte_all[where P = "\<lambda>c. c \<le> 0x7F \<or> (0xC0 \<le> 0xC0 OR drop_bit 6 c \<and> 0xC0 OR drop_bit 6 c \<le> 0xC7 \<and>
    push_bit 6 ((0xC0 OR drop_bit 6 c) AND 0x07) OR ((0x80 OR (c AND 0x3F)) AND 0x3F) = c)"]) code_simp

lemma utf8_latin1: "utf8_to_latin1 (latin1_to_utf8 s) = Inr s"
proof (induction s)
  case (Cons x s)
  define c where "c = byte_of_char x"
  have x: "x = char_of_byte c" by (simp add: c_def)
  show ?case
  proof (cases "c \<le> 0x7F")
    case True
    then show ?thesis using Cons by (simp add: x push_char_def)
  next
    case False
    then have "0xC0 \<le> 0xC0 OR drop_bit 6 c" "0xC0 OR drop_bit 6 c \<le> 0xC7"
      "push_bit 6 ((0xC0 OR drop_bit 6 c) AND 0x07) OR ((0x80 OR (c AND 0x3F)) AND 0x3F) = c"
      using latin1_two_bytes[of c] by blast+
    moreover from this(1) have "\<not> 0xC0 OR drop_bit 6 c \<le> 0x7F" by (simp add: word_le_nat_alt)
    ultimately show ?thesis using False Cons by (simp add: x push_char_def)
  qed
qed simp

end
