(* ===== verification/X500_Names.thy ===== *)
theory X500_Names
  imports Parsing "HOL-Library.Sublist"
begin

text \<open>
  X.500 name comparison (\<open>x500_name_cmp\<close>, \<open>src/utils/parsing.cpp\<close>) against a definition on words: two names are the same when
  they have the same words up to case, however many blanks are between them. The comparison computes this except
  where it reads past the end of a name.
\<close>

text \<open>The words of a name, in lower case.\<close>

abbreviation lower_case :: "string \<Rightarrow> byte list" where
  "lower_case s \<equiv> map (\<lambda>c. tolower (byte_of_char c)) s"

abbreviation not_space :: "char \<Rightarrow> bool" where
  "not_space c \<equiv> \<not> is_space c"

function x500_words :: "string \<Rightarrow> byte list list" where
  "x500_words s =
     (let t = dropWhile is_space s
      in if t = [] then [] else lower_case (takeWhile not_space t) # x500_words (dropWhile not_space t))"
  by pat_completeness auto
termination
proof (relation "measure length")
  fix s t :: string
  assume "t = dropWhile is_space s" and "t \<noteq> []"
  then have "not_space (hd t)" using hd_dropWhile[of is_space s] by simp
  then have "length (dropWhile not_space t) < length t"
    using \<open>t \<noteq> []\<close> length_dropWhile_le[of not_space "tl t"] by (cases t) auto
  moreover have "length t \<le> length s" using \<open>t = _\<close> length_dropWhile_le[of is_space s] by simp
  ultimately show "(dropWhile not_space t, s) \<in> measure length" by simp
qed simp

declare x500_words.simps [simp del]

text \<open>The comparison when it stands at \<open>p\<close>: the rest of the current word, which may be empty, then the other words.\<close>

definition x500_rest :: "string \<Rightarrow> byte list list" where
  "x500_rest p = lower_case (takeWhile not_space p) # x500_words (dropWhile not_space p)"

definition x500_past_end :: "string \<Rightarrow> string \<Rightarrow> bool" where
  "x500_past_end p q \<longleftrightarrow> p \<noteq> [] \<and> is_space (last p) \<and> strict_prefix (x500_rest p) (x500_rest q)"

lemma unat_tolower: "unat (tolower b) = (if 65 \<le> unat b \<and> unat b \<le> 90 then unat b + 32 else unat b)"
proof -
  have "unat (b + 32) = unat b + 32" if "unat b \<le> 90"
    using that by (subst unat_add_lem[THEN iffD1]) simp_all
  then show ?thesis by (simp add: tolower_def word_le_nat_alt)
qed

lemma caseless_space: "is_space c \<Longrightarrow> caseless_cmp c d \<Longrightarrow> c = d"
proof -
  assume c: "is_space c" and d: "caseless_cmp c d"
  have "unat (byte_of_char c) \<in> {32, 9, 10, 13}" using c by (auto simp: is_space_def byte_of_char_def)
  moreover have "unat (tolower (byte_of_char c)) = unat (tolower (byte_of_char d))" using d by (simp add: caseless_cmp_def)
  ultimately have "unat (byte_of_char c) = unat (byte_of_char d)" unfolding unat_tolower by (auto split: if_splits)
  then show "c = d" by (metis byte_char(2) word_unat_eq_iff)
qed

lemma caseless_sym: "caseless_cmp c d \<Longrightarrow> caseless_cmp d c"
  by (simp add: caseless_cmp_def)

lemma words_nil: "dropWhile is_space s = [] \<Longrightarrow> x500_words s = []"
  by (subst x500_words.simps) simp

lemma words_rest: "dropWhile is_space s \<noteq> [] \<Longrightarrow> x500_words s = x500_rest (dropWhile is_space s)"
  by (subst x500_words.simps) (simp add: x500_rest_def Let_def)

lemma rest_space: "is_space (hd p) \<Longrightarrow> p \<noteq> [] \<Longrightarrow> x500_rest p = [] # x500_words p"
  by (cases p) (simp_all add: x500_rest_def)

lemma rest_letter: "not_space c \<Longrightarrow> x500_rest (c # p) = (tolower (byte_of_char c) # hd (x500_rest p)) # tl (x500_rest p)"
  by (simp add: x500_rest_def)

lemma rest_nil: "x500_rest [] = [[]]"
  by (simp add: x500_rest_def words_nil)

lemma rest_cons: "\<exists>w ws. x500_rest p = w # ws"
  by (simp add: x500_rest_def)

lemma last_dropWhile: "dropWhile P xs \<noteq> [] \<Longrightarrow> last (dropWhile P xs) = last xs"
  by (metis last_append takeWhile_dropWhile_id)

lemma dropWhile_all_last: "dropWhile P xs = [] \<Longrightarrow> xs \<noteq> [] \<Longrightarrow> P (last xs)"
  by (simp add: dropWhile_eq_Nil_conv)

lemma past_end_cons:
  assumes "not_space c" and "not_space d" and "caseless_cmp c d"
  shows "x500_past_end (c # p) (d # q) \<longleftrightarrow> x500_past_end p q"
  using assms rest_letter[OF assms(1), of p] rest_letter[OF assms(2), of q] rest_cons[of p] rest_cons[of q]
  by (auto simp: x500_past_end_def caseless_cmp_def strict_prefix_def)

lemma past_end_skip:
  assumes "p \<noteq> []" "is_space (hd p)" "q \<noteq> []" "is_space (hd q)" "dropWhile is_space p \<noteq> []" "dropWhile is_space q \<noteq> []"
  shows "x500_past_end p q \<longleftrightarrow> x500_past_end (dropWhile is_space p) (dropWhile is_space q)"
  using assms rest_space[of p] rest_space[of q] words_rest[of p] words_rest[of q] last_dropWhile[of is_space p]
  by (simp add: x500_past_end_def strict_prefix_def)

lemma rest_only_spaces: "x500_rest q = [[]] \<longleftrightarrow> dropWhile is_space q = []"
proof (cases q)
  case Nil
  then show ?thesis by (simp add: rest_nil)
next
  case (Cons c t)
  show ?thesis
  proof (cases "is_space c")
    case True
    then have "x500_rest q = [] # x500_words q" using rest_space[of q] Cons by simp
    then show ?thesis using words_nil[of q] words_rest[of q] rest_cons[of "dropWhile is_space q"]
      by (cases "dropWhile is_space q = []") (auto simp del: dropWhile_eq_Nil_conv)
  next
    case False
    then show ?thesis using Cons rest_letter[OF False, of t] by simp
  qed
qed

lemma heads_differ:
  assumes "hd (x500_rest p) \<noteq> hd (x500_rest q)"
  shows "x500_rest p \<noteq> x500_rest q" and "\<not> x500_past_end p q" and "\<not> x500_past_end q p"
  using assms rest_cons[of p] rest_cons[of q] by (auto simp: x500_past_end_def strict_prefix_def)

lemma empty_not_past_end: "\<not> x500_past_end [] q" "\<not> x500_past_end q []"
  using rest_cons[of q] by (auto simp: x500_past_end_def rest_nil strict_prefix_def)

text \<open>The comparison tells whether the words agree, and where it reads past the end.\<close>

lemma x500_cmp_loop_val:
  "x500_cmp_loop p q =
    (if x500_rest p = x500_rest q then Some True
     else if x500_past_end p q \<or> x500_past_end q p then None else Some False)"
proof (induction "length p" arbitrary: p q rule: less_induct)
  case less
  let ?R = "\<lambda>p q. if x500_rest p = x500_rest q then Some True
     else if x500_past_end p q \<or> x500_past_end q p then None else Some False"
  have letter: "(if \<not> caseless_cmp c d then Some False else x500_cmp_loop s t) = ?R (c # s) (d # t)"
    if "not_space c" "not_space d" "length s < length p" for c d s t
  proof (cases "caseless_cmp c d")
    case True
    have "x500_rest (c # s) = x500_rest (d # t) \<longleftrightarrow> x500_rest s = x500_rest t"
      using True rest_letter[OF that(1), of s] rest_letter[OF that(2), of t] rest_cons[of s] rest_cons[of t]
      by (auto simp: caseless_cmp_def)
    moreover have "x500_cmp_loop s t = ?R s t" using less[OF that(3)] .
    ultimately show ?thesis
      using True past_end_cons[OF that(1,2) True, of s t] past_end_cons[OF that(2,1) caseless_sym[OF True], of t s] by simp
  next
    case False
    then have "hd (x500_rest (c # s)) \<noteq> hd (x500_rest (d # t))"
      using rest_letter[OF that(1), of s] rest_letter[OF that(2), of t] by (simp add: caseless_cmp_def)
    from heads_differ[OF this] show ?thesis using False by simp
  qed
  consider "p = [] \<or> q = []" | c s d t where "p = c # s" "q = d # t" "not_space c" |
    c s d t where "p = c # s" "q = d # t" "is_space c" by (cases p; cases q) auto
  then show ?case
  proof cases
    case 1
    then have "x500_cmp_loop p q = Some (dropWhile is_space p = [] \<and> dropWhile is_space q = [])"
      by (subst x500_cmp_loop.simps) auto
    moreover have "x500_rest p = x500_rest q \<longleftrightarrow> dropWhile is_space p = [] \<and> dropWhile is_space q = []"
      using 1 rest_only_spaces[of p] rest_only_spaces[of q] by (auto simp: rest_nil)
    ultimately show ?thesis using 1 empty_not_past_end by auto
  next
    case 2
    show ?thesis
    proof (cases "is_space d")
      case True
      then have "\<not> caseless_cmp c d" using 2(3) caseless_space[OF True caseless_sym] by auto
      moreover have "hd (x500_rest p) \<noteq> hd (x500_rest q)"
        using 2 True rest_letter[OF 2(3), of s] rest_space[of q] by simp
      ultimately show ?thesis using 2 True heads_differ[of p q] by (subst x500_cmp_loop.simps) simp
    next
      case False
      have "x500_cmp_loop (c # s) (d # t) = (if \<not> caseless_cmp c d then Some False else x500_cmp_loop s t)"
        using 2(3) by (subst x500_cmp_loop.simps) simp
      then show ?thesis using letter[OF 2(3) False, of s t] 2(1,2) by (simp only: list.size)
    qed
  next
    case 3
    show ?thesis
    proof (cases "is_space d")
      case False
      then have "hd (x500_rest p) \<noteq> hd (x500_rest q)"
        using 3 rest_letter[OF False, of t] rest_space[of p] by simp
      then show ?thesis using 3 False heads_differ[of p q] by (subst x500_cmp_loop.simps) simp
    next
      case True
      let ?P = "dropWhile is_space p" and ?Q = "dropWhile is_space q"
      have sp: "p \<noteq> []" "is_space (hd p)" "q \<noteq> []" "is_space (hd q)" using 3 True by simp_all
      have step: "x500_cmp_loop p q = (if ?P = [] \<and> ?Q = [] then Some True else if ?P = [] \<or> ?Q = [] then None
          else if \<not> caseless_cmp (hd ?P) (hd ?Q) then Some False else x500_cmp_loop (tl ?P) (tl ?Q))"
        using sp by (subst x500_cmp_loop.simps) (simp add: Let_def)
      have r: "x500_rest p = [] # x500_words p" "x500_rest q = [] # x500_words q" using rest_space sp by simp_all
      consider "?P = []" "?Q = []" | "?P = []" "?Q \<noteq> []" | "?P \<noteq> []" "?Q = []" | "?P \<noteq> []" "?Q \<noteq> []" by blast
      then show ?thesis
      proof cases
        case 1
        then show ?thesis using r step by (simp add: words_nil)
      next
        case 2
        then have "x500_past_end p q" "x500_rest p \<noteq> x500_rest q"
          using r words_rest[of q] rest_cons[of ?Q] dropWhile_all_last[OF 2(1) sp(1)] sp words_nil[OF 2(1)]
          by (auto simp: x500_past_end_def strict_prefix_def)
        then show ?thesis using 2 step by auto
      next
        case c3: 3
        then have "x500_past_end q p" "x500_rest p \<noteq> x500_rest q"
          using r words_rest[of p] rest_cons[of ?P] dropWhile_all_last[OF c3(2) sp(3)] sp words_nil[OF c3(2)]
          by (auto simp: x500_past_end_def strict_prefix_def)
        then show ?thesis using c3 step by auto
      next
        case 4
        obtain c' s' where P: "?P = c' # s'" using 4(1) by (cases ?P) simp_all
        obtain d' t' where Q: "?Q = d' # t'" using 4(2) by (cases ?Q) simp_all
        have l: "length s' < length p" using length_dropWhile_le[of is_space p] unfolding P by simp
        have n: "not_space c'" "not_space d'"
          using hd_dropWhile[OF 4(1)] hd_dropWhile[OF 4(2)] unfolding P Q by simp_all
        have "x500_cmp_loop p q = (if \<not> caseless_cmp c' d' then Some False else x500_cmp_loop s' t')"
          using step unfolding P Q by simp
        also have "\<dots> = ?R ?P ?Q" unfolding P Q by (rule letter[OF n l])
        finally have "x500_cmp_loop p q = ?R ?P ?Q" .
        moreover have "x500_rest p = x500_rest q \<longleftrightarrow> x500_rest ?P = x500_rest ?Q"
          using r words_rest[OF 4(1)] words_rest[OF 4(2)] by simp
        ultimately show ?thesis using past_end_skip[OF sp 4] past_end_skip[OF sp(3,4,1,2) 4(2,1)] by simp
      qed
    qed
  qed
qed

text \<open>A name that ends with a blank after words that are the first words of the other.\<close>

definition x500_blank_end :: "string \<Rightarrow> string \<Rightarrow> bool" where
  "x500_blank_end a b \<longleftrightarrow> x500_words a \<noteq> [] \<and> is_space (last a) \<and> strict_prefix (x500_words a) (x500_words b)"

lemma x500_name_cmp_val:
  "x500_name_cmp a b =
    (if x500_words a = x500_words b then Some True
     else if x500_blank_end a b \<or> x500_blank_end b a then None else Some False)"
proof -
  let ?P = "dropWhile is_space a" and ?Q = "dropWhile is_space b"
  have past: "x500_past_end (dropWhile is_space p) (dropWhile is_space q) \<longleftrightarrow> x500_blank_end p q"
    if "dropWhile is_space p \<noteq> []" "dropWhile is_space q \<noteq> []" for p q
    using that words_rest[of p] words_rest[of q] last_dropWhile[of is_space p] rest_cons[of "dropWhile is_space p"]
    by (auto simp: x500_past_end_def x500_blank_end_def simp del: dropWhile_eq_Nil_conv)
  have none: "dropWhile is_space p = [] \<longleftrightarrow> x500_words p = []" for p
    using words_nil[of p] words_rest[of p] rest_cons[of "dropWhile is_space p"]
    by (cases "dropWhile is_space p = []") (auto simp del: dropWhile_eq_Nil_conv)
  have trim: "dropWhile is_space (dropWhile is_space p) = dropWhile is_space p" for p
    by (rule dropWhile_idem)
  have "x500_cmp_loop ?P ?Q = Some (?P = [] \<and> ?Q = [])" if "?P = [] \<or> ?Q = []"
    using that by (subst x500_cmp_loop.simps) (auto simp: trim simp del: dropWhile_eq_Nil_conv)
  moreover have "\<not> x500_blank_end a b \<and> \<not> x500_blank_end b a" if "x500_words a = [] \<or> x500_words b = []"
    using that by (auto simp: x500_blank_end_def)
  ultimately have edge: ?thesis if "?P = [] \<or> ?Q = []"
    using that none[of a] none[of b] unfolding x500_name_cmp_def by metis
  show ?thesis
  proof (cases "?P = [] \<or> ?Q = []")
    case False
    then have d: "?P \<noteq> []" "?Q \<noteq> []" by blast+
    show ?thesis
      unfolding x500_name_cmp_def x500_cmp_loop_val[of ?P ?Q] past[OF d] past[OF d(2,1)] words_rest[OF d(1)] words_rest[OF d(2)]
      by (rule refl)
  qed (rule edge)
qed

end
