(* ===== verification/Util_Properties.thy ===== *)
theory Util_Properties
  imports X500_Names SecMem LoadStore Parsing
begin

text \<open>
  Properties of the utilities: buffers, byte order, block xor, and the text formats of
  \<open>parsing.cpp\<close> and \<open>charset.cpp\<close>.
\<close>

text \<open>C16. A \<open>MemoryRegion\<close> is a byte string. Whatever its used size and its allocation are, appending pieces
  concatenates them to its contents, through every reallocation, and setting it first forgets the old contents.\<close>

theorem memory_region_appends:
  assumes "mr_wf r"
  shows "contents (fold (\<lambda>x r. mr_append r x (length x)) xss r) = contents r @ concat xss \<and>
    mr_wf (fold (\<lambda>x r. mr_append r x (length x)) xss r) \<and>
    contents (mr_append (mr_set r xs (length xs)) ys (length ys)) = xs @ ys"
  using memory_region.fold_append[OF assms] memory_region.set_then_append[OF assms] by blast

theorem memory_region_appends_witness:
  "contents (fold (\<lambda>x r. mr_append r x (length x)) [[1, 2], [], [3 :: byte]] mr_empty) = [1, 2, 3]"
  using memory_region_appends[of "mr_empty :: byte MemoryRegion" "[[1, 2], [], [3]]"]
  by (simp add: mr_wf_def mr_empty_def contents_def)

text \<open>Words survive the way to bytes and back in both byte orders, and \<open>xor_buf\<close> undoes itself: the
  unrolled loop treats every byte exactly once, whatever the length is modulo the block of eight.\<close>

theorem bytes_round_trip:
  assumes "n \<le> length out" and "n \<le> length inp"
  shows "xor_buf (xor_buf out inp n) inp n = out \<and> xor_buf3 out inp inp n = replicate n 0 @ drop n out \<and>
    load_be_u16 (store_be_u16 u) 0 = u \<and> load_le_u16 (store_le_u16 u) 0 = u \<and>
    load_be_u32 (store_be_u32 v) 0 = v \<and> load_le_u32 (store_le_u32 v) 0 = v \<and>
    load_be_u64 (store_be_u64 w) 0 = w \<and> load_le_u64 (store_le_u64 w) 0 = w"
proof -
  have "xor_buf (xor_buf out inp n) inp n = map (\<lambda>j. (out ! j XOR inp ! j) XOR inp ! j) [0..<n] @ drop n out"
    using assms by (simp add: xor_buf_val nth_append)
  also have "\<dots> = out" using assms by (auto simp: xor.assoc list_eq_iff_nth_eq nth_append)
  finally have "xor_buf (xor_buf out inp n) inp n = out" .
  moreover have "xor_buf3 out inp inp n = replicate n 0 @ drop n out"
    using assms by (simp add: xor_buf3_val map_replicate_const)
  ultimately show ?thesis by (simp add: load_store_u16 load_store_u32 load_store_u64)
qed

theorem bytes_round_trip_witness:
  "xor_buf (xor_buf [1, 2, 3, 4, 5, 6, 7, 8, 9] [9, 8, 7, 6, 5, 4, 3, 2, 1] 9) [9, 8, 7, 6, 5, 4, 3, 2, 1] 9 = [1, 2, 3, 4, 5, 6, 7, 8, 9]"
  using bytes_round_trip[of 9 "[1, 2, 3, 4, 5, 6, 7, 8, 9]" "[9, 8, 7, 6, 5, 4, 3, 2, 1]"] by simp

text \<open>C17. \<open>to_u32bit\<close> reads a string of digits as its decimal value when that fits 32
  bits, and reports an overflow for every larger value: the test before each multiplication misses none, although
  the product is computed modulo \<open>2^32\<close>.\<close>

theorem to_u32bit_decimal:
  assumes "digits_val s 0 = Some v"
  shows "string_to_u32bit s =
    (if v < 2 ^ 32 then Inr (of_nat v) else Inl (Decoding_Error ''to_u32bit: Integer overflow''))"
  using to_u32bit_loop_val[OF assms] by (simp add: string_to_u32bit_def)

theorem to_u32bit_decimal_witness:
  "string_to_u32bit ''4294967295'' = Inr 4294967295 \<and>
   string_to_u32bit ''4294967296'' = Inl (Decoding_Error ''to_u32bit: Integer overflow'')"
  using to_u32bit_decimal[of "''4294967295''" 4294967295] to_u32bit_decimal[of "''4294967296''" 4294967296]
  by (simp add: char2digit_def)

text \<open>C18. Numbers and addresses survive printing and parsing: \<open>to_u32bit\<close> inverts \<open>to_string\<close> for any padding, and
  \<open>string_to_ipv4\<close> inverts \<open>ipv4_to_string\<close>.\<close>

theorem print_parse_round_trip:
  "(n < 2 ^ 32 \<longrightarrow> string_to_u32bit (to_string n min_len) = Inr (of_nat n)) \<and> string_to_ipv4 (ipv4_to_string ip) = Inr ip"
  using string_to_u32bit_to_string ipv4_round_trip by blast

theorem print_parse_round_trip_witness:
  "string_to_u32bit (to_string 4294967295 12) = Inr 4294967295 \<and> string_to_ipv4 (ipv4_to_string 0xC0A80001) = Inr 0xC0A80001"
  using print_parse_round_trip[of 4294967295 12 "0xC0A80001"] by simp

text \<open>C19. \<open>utf8_to_latin1\<close> decodes what \<open>latin1_to_utf8\<close> writes. It is not a decoder of UTF-8 alone: lead bytes
  up to \<open>C7\<close> pass although Latin-1 ends with \<open>C3\<close>, so U+0180 (\<open>C6 80\<close>) is read as the character 80.\<close>

theorem utf8_latin1_round_trip:
  "utf8_to_latin1 (latin1_to_utf8 s) = Inr s \<and>
   utf8_to_latin1 [char_of_byte 0xC6, char_of_byte 0x80] = Inr [char_of_byte 0x80] \<and>
   latin1_to_utf8 [char_of_byte 0x80] = [char_of_byte 0xC2, char_of_byte 0x80]"
  using utf8_latin1[of s] by (simp add: push_char_def char_of_byte_def byte_of_char_def)

text \<open>C20. \<open>x500_name_cmp\<close> compares the words of two names without regard to case, however many blanks are before, between
  and behind them. It has no result exactly where it reads past the end of a name: one name ends with a blank, has words,
  and these are the first words of the other name, which has more.\<close>

theorem x500_name_cmp_words:
  "x500_name_cmp a b =
    (if x500_words a = x500_words b then Some True
     else if x500_blank_end a b \<or> x500_blank_end b a then None else Some False)"
  by (rule x500_name_cmp_val)

end
