(* ===== verification/BlockCipher.thy ===== *)
theory BlockCipher
  imports Exceptn LoadStore
begin

text \<open>
  Symmetric algorithms (\<open>src/sym_algo/sym_algo.h\<close>) and block ciphers
  (\<open>src/block/block_cipher.h\<close>): the check of the key length, the interface
  \<open>block_cipher\<close> every cipher of the library is an interpretation of and every mode of operation
  is built on, and what the ciphers share: the reading and writing of a block as words and rounds
  undone in the opposite order.

  A cipher is a pair of functions on blocks over the state its key schedule sets up; \<open>enc\<close> and
  \<open>dec\<close> read the whole input before they write, so the in-place calls are the same functions.
\<close>

section \<open>Key lengths\<close>

text \<open>Minimum, maximum and multiple, as the constructor of \<open>SymmetricAlgorithm\<close> leaves them.\<close>

record SymmetricAlgorithm =
  MAXIMUM_KEYLENGTH :: nat
  MINIMUM_KEYLENGTH :: nat
  KEYLENGTH_MULTIPLE :: nat

definition new_SymmetricAlgorithm :: "nat \<Rightarrow> nat \<Rightarrow> nat \<Rightarrow> SymmetricAlgorithm" where
  "new_SymmetricAlgorithm key_min key_max key_mod =
     \<lparr>MAXIMUM_KEYLENGTH = (if key_max \<noteq> 0 then key_max else key_min), MINIMUM_KEYLENGTH = key_min,
      KEYLENGTH_MULTIPLE = key_mod\<rparr>"

definition valid_keylength :: "SymmetricAlgorithm \<Rightarrow> nat \<Rightarrow> bool" where
  "valid_keylength a n =
     (n \<ge> MINIMUM_KEYLENGTH a \<and> n \<le> MAXIMUM_KEYLENGTH a \<and> n mod KEYLENGTH_MULTIPLE a = 0)"

definition set_key ::
  "SymmetricAlgorithm \<Rightarrow> string \<Rightarrow> (byte list \<Rightarrow> nat \<Rightarrow> 'k) \<Rightarrow> byte list \<Rightarrow> nat \<Rightarrow> botan_error + 'k" where
  "set_key a name key_schedule key n =
     (if \<not> valid_keylength a n then Inl (Invalid_Key_Length name n) else Inr (key_schedule key n))"

section \<open>The interface of a block cipher\<close>

text \<open>A keyed cipher as the modes hold it: the virtual functions of \<open>BlockCipher\<close>, and what a client relies on.\<close>

record BlockCipher =
  cipher_name :: string
  block_size :: nat
  encrypt :: "byte list \<Rightarrow> byte list"
  decrypt :: "byte list \<Rightarrow> byte list"

definition cipher_ok :: "BlockCipher \<Rightarrow> bool" where
  "cipher_ok c \<longleftrightarrow> 0 < block_size c \<and>
     (\<forall>b. length b = block_size c \<longrightarrow> length (encrypt c b) = block_size c \<and> length (decrypt c b) = block_size c \<and>
       decrypt c (encrypt c b) = b)"

lemma cipher_okD:
  assumes "cipher_ok c"
  shows "0 < block_size c" "length b = block_size c \<Longrightarrow> length (encrypt c b) = block_size c"
    "length b = block_size c \<Longrightarrow> length (decrypt c b) = block_size c"
    "length b = block_size c \<Longrightarrow> decrypt c (encrypt c b) = b"
  using assms by (simp_all add: cipher_ok_def)

locale block_cipher =
  fixes BLOCK_SIZE :: nat and keyed :: "'k \<Rightarrow> bool" and enc dec :: "'k \<Rightarrow> byte list \<Rightarrow> byte list"
  assumes BLOCK_SIZE_pos: "0 < BLOCK_SIZE"
    and enc_length: "keyed k \<Longrightarrow> length b = BLOCK_SIZE \<Longrightarrow> length (enc k b) = BLOCK_SIZE"
    and dec_length: "keyed k \<Longrightarrow> length b = BLOCK_SIZE \<Longrightarrow> length (dec k b) = BLOCK_SIZE"
    and dec_enc: "keyed k \<Longrightarrow> length b = BLOCK_SIZE \<Longrightarrow> dec k (enc k b) = b"
begin

lemma cipher_object:
  "keyed k \<Longrightarrow> cipher_ok \<lparr>cipher_name = nm, block_size = BLOCK_SIZE, encrypt = enc k, decrypt = dec k\<rparr>"
  by (simp add: cipher_ok_def BLOCK_SIZE_pos enc_length dec_length dec_enc)

text \<open>Encryption is a permutation of the blocks, so decryption inverts it on both sides.\<close>

lemma enc_inj: "keyed k \<Longrightarrow> inj_on (enc k) {b. length b = BLOCK_SIZE}"
  by (rule inj_on_inverseI[where g = "dec k"]) (simp add: dec_enc)

lemma enc_surj:
  assumes "keyed k" and "length c = BLOCK_SIZE"
  shows "\<exists>b. length b = BLOCK_SIZE \<and> enc k b = c"
proof -
  let ?B = "{b :: byte list. length b = BLOCK_SIZE}"
  have "finite ?B" using finite_lists_length_eq[of "UNIV :: byte set" BLOCK_SIZE] by simp
  moreover have "enc k ` ?B \<subseteq> ?B" using enc_length[OF assms(1)] by auto
  ultimately have "enc k ` ?B = ?B" using enc_inj[OF assms(1)] by (simp add: endo_inj_surj)
  moreover have "c \<in> ?B" using assms(2) by simp
  ultimately have "c \<in> enc k ` ?B" by simp
  then show ?thesis by auto
qed

lemma enc_dec: "keyed k \<Longrightarrow> length c = BLOCK_SIZE \<Longrightarrow> enc k (dec k c) = c"
  using enc_surj[of k c] by (auto simp: dec_enc)

end

section \<open>Blocks of words\<close>

text \<open>\<open>load_be<u32bit>(in, j)\<close> and \<open>store_be(out, a, b, ...)\<close> of \<open>loadstor.h\<close>, word by word.\<close>

definition store_be2_u32 :: "u32bit \<times> u32bit \<Rightarrow> byte list" where
  "store_be2_u32 s = (case s of (a, b) \<Rightarrow> store_be_u32 a @ store_be_u32 b)"

definition store_le2_u32 :: "u32bit \<times> u32bit \<Rightarrow> byte list" where
  "store_le2_u32 s = (case s of (a, b) \<Rightarrow> store_le_u32 a @ store_le_u32 b)"

definition store_be4_u32 :: "u32bit \<times> u32bit \<times> u32bit \<times> u32bit \<Rightarrow> byte list" where
  "store_be4_u32 s = (case s of (a, b, c, d) \<Rightarrow> store_be_u32 a @ store_be_u32 b @ store_be_u32 c @ store_be_u32 d)"

definition store_le4_u32 :: "u32bit \<times> u32bit \<times> u32bit \<times> u32bit \<Rightarrow> byte list" where
  "store_le4_u32 s = (case s of (a, b, c, d) \<Rightarrow> store_le_u32 a @ store_le_u32 b @ store_le_u32 c @ store_le_u32 d)"

definition store_be4_u16 :: "u16bit \<times> u16bit \<times> u16bit \<times> u16bit \<Rightarrow> byte list" where
  "store_be4_u16 s = (case s of (a, b, c, d) \<Rightarrow> store_be_u16 a @ store_be_u16 b @ store_be_u16 c @ store_be_u16 d)"

definition store_le4_u16 :: "u16bit \<times> u16bit \<times> u16bit \<times> u16bit \<Rightarrow> byte list" where
  "store_le4_u16 s = (case s of (a, b, c, d) \<Rightarrow> store_le_u16 a @ store_le_u16 b @ store_le_u16 c @ store_le_u16 d)"

abbreviation load_be2_u32 :: "byte list \<Rightarrow> u32bit \<times> u32bit" where
  "load_be2_u32 b \<equiv> (load_be_u32 b 0, load_be_u32 b 1)"

abbreviation load_le2_u32 :: "byte list \<Rightarrow> u32bit \<times> u32bit" where
  "load_le2_u32 b \<equiv> (load_le_u32 b 0, load_le_u32 b 1)"

abbreviation load_be4_u32 :: "byte list \<Rightarrow> u32bit \<times> u32bit \<times> u32bit \<times> u32bit" where
  "load_be4_u32 b \<equiv> (load_be_u32 b 0, load_be_u32 b 1, load_be_u32 b 2, load_be_u32 b 3)"

abbreviation load_le4_u32 :: "byte list \<Rightarrow> u32bit \<times> u32bit \<times> u32bit \<times> u32bit" where
  "load_le4_u32 b \<equiv> (load_le_u32 b 0, load_le_u32 b 1, load_le_u32 b 2, load_le_u32 b 3)"

abbreviation load_be4_u16 :: "byte list \<Rightarrow> u16bit \<times> u16bit \<times> u16bit \<times> u16bit" where
  "load_be4_u16 b \<equiv> (load_be_u16 b 0, load_be_u16 b 1, load_be_u16 b 2, load_be_u16 b 3)"

abbreviation load_le4_u16 :: "byte list \<Rightarrow> u16bit \<times> u16bit \<times> u16bit \<times> u16bit" where
  "load_le4_u16 b \<equiv> (load_le_u16 b 0, load_le_u16 b 1, load_le_u16 b 2, load_le_u16 b 3)"

lemma get_byte_make:
  "get_byte 0 (make_u16bit a b) = a" "get_byte (Suc 0) (make_u16bit a b) = b"
  "get_byte 0 (make_u32bit a b c d) = a" "get_byte (Suc 0) (make_u32bit a b c d) = b"
  "get_byte 2 (make_u32bit a b c d) = c" "get_byte 3 (make_u32bit a b c d) = d"
  unfolding get_byte_simps make_u16bit_def make_u32bit_def
  by (rule bit_word_eqI; auto simp: bit_simps dest: bit_imp_le_length)+

lemma make_get_byte:
  "make_u16bit (get_byte 0 x) (get_byte (Suc 0) x) = x"
  "make_u32bit (get_byte 0 y) (get_byte (Suc 0) y) (get_byte 2 y) (get_byte 3 y) = y"
  using load_store_u16(1)[of x] load_store_u32(1)[of y]
  by (simp_all add: load_be_u16_def store_be_u16_def load_be_u32_def store_be_u32_def)

lemmas load_store_defs = load_be_u16_def load_le_u16_def load_be_u32_def load_le_u32_def
  store_be_u16_def store_le_u16_def store_be_u32_def store_le_u32_def
  store_be2_u32_def store_le2_u32_def store_be4_u32_def store_le4_u32_def store_be4_u16_def store_le4_u16_def

text \<open>What a cipher needs of its loads and stores, and what it gets for them: rounds that are inverse on
  words make a cipher.\<close>

locale word_block =
  fixes n :: nat and load :: "byte list \<Rightarrow> 's" and store :: "'s \<Rightarrow> byte list"
  assumes pos: "0 < n" and load_store: "load (store s) = s"
    and store_load: "length b = n \<Longrightarrow> store (load b) = b" and length_store: "length (store s) = n"
begin

lemma block_cipherI:
  assumes "\<And>k s. keyed k \<Longrightarrow> D k (E k s) = s"
  shows "block_cipher n keyed (\<lambda>k b. store (E k (load b))) (\<lambda>k b. store (D k (load b)))"
  using assms by unfold_locales (simp_all add: pos load_store store_load length_store)

end

lemma list_of_length:
  "length b = 8 \<Longrightarrow> \<exists>b0 b1 b2 b3 b4 b5 b6 b7. b = [b0, b1, b2, b3, b4, b5, b6, b7]"
  "length c = 16 \<Longrightarrow> \<exists>c0 c1 c2 c3 c4 c5 c6 c7 c8 c9 c10 c11 c12 c13 c14 c15.
     c = [c0, c1, c2, c3, c4, c5, c6, c7, c8, c9, c10, c11, c12, c13, c14, c15]"
  "length d = 4 \<Longrightarrow> \<exists>d0 d1 d2 d3. d = [d0, d1, d2, d3]"
  by (simp_all add: length_Suc_conv numeral_eq_Suc) blast+

interpretation be2_u32: word_block 8 load_be2_u32 store_be2_u32
  by unfold_locales (auto simp: load_store_defs make_get_byte get_byte_make dest!: list_of_length)

interpretation le2_u32: word_block 8 load_le2_u32 store_le2_u32
  by unfold_locales (auto simp: load_store_defs make_get_byte get_byte_make dest!: list_of_length)

interpretation be4_u32: word_block 16 load_be4_u32 store_be4_u32
  by unfold_locales (auto simp: load_store_defs make_get_byte get_byte_make dest!: list_of_length)

interpretation le4_u32: word_block 16 load_le4_u32 store_le4_u32
  by unfold_locales (auto simp: load_store_defs make_get_byte get_byte_make dest!: list_of_length)

interpretation be4_u16: word_block 8 load_be4_u16 store_be4_u16
  by unfold_locales (auto simp: load_store_defs make_get_byte get_byte_make dest!: list_of_length)

section \<open>Rounds\<close>

lemma fold_inverse:
  assumes "\<And>j s. j \<in> set js \<Longrightarrow> P s \<Longrightarrow> P (f j s) \<and> g j (f j s) = s" and "P s"
  shows "fold g (rev js) (fold f js s) = s"
  using assms by (induction js arbitrary: s) simp_all

text \<open>A decryption loop that counts up through the rounds in the opposite order, and one that counts down.\<close>

lemma rounds_inverse:
  assumes "\<And>j s. j < n \<Longrightarrow> g j (f j s) = s"
  shows "for_up 0 n (\<lambda>j. g (n - Suc j)) (for_up 0 n f s) = s"
proof -
  have "map (\<lambda>j. n - Suc j) [0..<n] = rev [0..<n]" by (rule nth_equalityI) (simp_all add: rev_nth)
  then have "for_up 0 n (\<lambda>j. g (n - Suc j)) = fold g (rev [0..<n])"
    unfolding for_up_def by (metis (no_types, lifting) comp_def fold_map ext)
  then show ?thesis using assms fold_inverse[of "[0..<n]" "\<lambda>_. True" f g s] by (simp add: for_up_def)
qed

lemma rounds_inverse_down:
  assumes "\<And>j s. j < n \<Longrightarrow> g (Suc j) (f j s) = s"
  shows "for_down n 0 g (for_up 0 n f s) = s"
proof -
  have "rev [Suc 0..<Suc n] = map Suc (rev [0..<n])" by (simp only: rev_map flip: map_Suc_upt)
  then have "for_down n 0 g = fold (\<lambda>j. g (Suc j)) (rev [0..<n])"
    by (simp add: for_down_def fold_map comp_def fun_eq_iff del: upt_Suc)
  then show ?thesis using assms fold_inverse[of "[0..<n]" "\<lambda>_. True" f "\<lambda>j. g (Suc j)" s] by (simp add: for_up_def)
qed

text \<open>Rounds whose inverse is the round itself on the swapped halves, as in a Feistel network: \<open>w\<close> is the
  swap.\<close>

lemma rounds_inverse_swap:
  assumes "\<And>j s. j < n \<Longrightarrow> g j (w (f j s)) = w s"
  shows "for_up 0 n (\<lambda>j. g (n - Suc j)) (w (for_up 0 n f s)) = w s"
  using assms
proof (induction n arbitrary: g)
  case (Suc n)
  have "for_up 0 (Suc n) (\<lambda>j. g (Suc n - Suc j)) (w (for_up 0 (Suc n) f s)) =
      for_up (Suc 0) (Suc n) (\<lambda>j. g (n - j)) (g n (w (f n (for_up 0 n f s))))"
    using for_up_first[of 0 "Suc n" "\<lambda>j. g (Suc n - Suc j)"] by (simp add: for_up_Suc)
  also have "\<dots> = for_up (Suc 0) (Suc n) (\<lambda>j. g (n - j)) (w (for_up 0 n f s))" using Suc.prems by simp
  also have "\<dots> = for_up 0 n (\<lambda>j. g (n - Suc j)) (w (for_up 0 n f s))"
    using for_up_shift[of 1 0 n "\<lambda>j. g (n - j)"] by simp
  also have "\<dots> = w s" using Suc by simp
  finally show ?case .
qed simp

lemma fold_inverse_swap:
  assumes "\<And>x s. x \<in> set xs \<Longrightarrow> step (flip x) (w (step x s)) = w s"
  shows "fold step (rev (map flip xs)) (w (fold step xs s)) = w s"
  using assms by (induction xs arbitrary: s) simp_all

lemma rotate_left_right [simp]:
  fixes x :: "'a::len word"
  assumes "r \<le> LENGTH('a)"
  shows "rotate_right (rotate_left x r) r = x" and "rotate_left (rotate_right x r) r = x"
  using assms by (auto simp: rotate_left_def rotate_right_def bit_simps intro!: bit_word_eqI dest: bit_imp_le_length)

end
