(* ===== verification/TEA_Ciphers.thy ===== *)
theory TEA_Ciphers
  imports BlockCipher
begin

text \<open>
  The ciphers TEA (\<open>src/block/tea/tea.cpp\<close>) and XTEA (\<open>src/block/xtea/xtea.cpp\<close>): 32 double
  rounds of additions on two words. Their state is the array of subkeys.
\<close>

section \<open>TEA\<close>

definition TEA_key :: SymmetricAlgorithm where
  "TEA_key = new_SymmetricAlgorithm 16 0 1"

definition TEA_key_schedule :: "byte list \<Rightarrow> nat \<Rightarrow> u32bit list" where
  "TEA_key_schedule key n = for_up 0 4 (\<lambda>j K. K[j := load_be_u32 key j]) (replicate 4 0)"

definition TEA_enc_round :: "u32bit list \<Rightarrow> (u32bit \<times> u32bit) \<times> u32bit \<Rightarrow> (u32bit \<times> u32bit) \<times> u32bit" where
  "TEA_enc_round K s = (case s of ((L, R), S) \<Rightarrow>
     let S = S + 0x9E3779B9;
         L = L + ((push_bit 4 R + K ! 0) XOR (R + S) XOR (drop_bit 5 R + K ! 1));
         R = R + ((push_bit 4 L + K ! 2) XOR (L + S) XOR (drop_bit 5 L + K ! 3))
     in ((L, R), S))"

definition TEA_dec_round :: "u32bit list \<Rightarrow> (u32bit \<times> u32bit) \<times> u32bit \<Rightarrow> (u32bit \<times> u32bit) \<times> u32bit" where
  "TEA_dec_round K s = (case s of ((L, R), S) \<Rightarrow>
     let R = R - ((push_bit 4 L + K ! 2) XOR (L + S) XOR (drop_bit 5 L + K ! 3));
         L = L - ((push_bit 4 R + K ! 0) XOR (R + S) XOR (drop_bit 5 R + K ! 1));
         S = S - 0x9E3779B9
     in ((L, R), S))"

definition TEA_enc :: "u32bit list \<Rightarrow> byte list \<Rightarrow> byte list" where
  "TEA_enc K inp = store_be2_u32 (fst (for_up 0 32 (\<lambda>j. TEA_enc_round K) (load_be2_u32 inp, 0)))"

definition TEA_dec :: "u32bit list \<Rightarrow> byte list \<Rightarrow> byte list" where
  "TEA_dec K inp = store_be2_u32 (fst (for_up 0 32 (\<lambda>j. TEA_dec_round K) (load_be2_u32 inp, 0xC6EF3720)))"

lemma TEA_round_inverse: "TEA_dec_round K (TEA_enc_round K s) = s"
  by (simp add: TEA_dec_round_def TEA_enc_round_def Let_def split: prod.splits)

text \<open>The sum after 32 rounds is the constant decryption starts from.\<close>

lemma TEA_sum: "snd (for_up 0 n (\<lambda>j. TEA_enc_round K) (s, c)) = c + of_nat n * 0x9E3779B9"
proof -
  have "snd (TEA_enc_round K s) = snd s + 0x9E3779B9" for s
    by (simp add: TEA_enc_round_def Let_def split: prod.splits)
  then show ?thesis by (induction n) (simp_all add: for_up_Suc algebra_simps)
qed

interpretation tea_cipher: block_cipher 8 "\<lambda>_. True" TEA_enc TEA_dec
proof -
  have "fst (for_up 0 32 (\<lambda>j. TEA_dec_round K) (fst (for_up 0 32 (\<lambda>j. TEA_enc_round K) (s, 0)), 0xC6EF3720)) = s" for K s
  proof -
    have "for_up 0 32 (\<lambda>j. TEA_enc_round K) (s, 0) = (fst (for_up 0 32 (\<lambda>j. TEA_enc_round K) (s, 0)), 0xC6EF3720)"
      using TEA_sum[of 32 K s 0] by (simp add: prod_eq_iff)
    then have "for_up 0 32 (\<lambda>j. TEA_dec_round K) (fst (for_up 0 32 (\<lambda>j. TEA_enc_round K) (s, 0)), 0xC6EF3720) = (s, 0)"
      using rounds_inverse[of 32 "\<lambda>j. TEA_dec_round K" "\<lambda>j. TEA_enc_round K" "(s, 0)", OF TEA_round_inverse] by simp
    then show ?thesis by simp
  qed
  then show "block_cipher 8 (\<lambda>_. True) TEA_enc TEA_dec"
    unfolding TEA_enc_def[abs_def] TEA_dec_def[abs_def] by (intro be2_u32.block_cipherI)
qed

section \<open>XTEA\<close>

definition XTEA_key :: SymmetricAlgorithm where
  "XTEA_key = new_SymmetricAlgorithm 16 0 1"

definition XTEA_key_schedule :: "byte list \<Rightarrow> nat \<Rightarrow> u32bit list" where
  "XTEA_key_schedule key n =
     (let UK = for_up 0 4 (\<lambda>i UK. UK[i := load_be_u32 key i]) (replicate 4 0)
      in fst (for_up 0 32 (\<lambda>i s. case s of (EK, D) \<Rightarrow>
           let EK = EK[2 * i := D + UK ! unat (D mod 4)];
               D = D + 0x9E3779B9;
               EK = EK[2 * i + 1 := D + UK ! unat (drop_bit 11 D mod 4)]
           in (EK, D)) (replicate 64 0, 0 :: u32bit)))"

definition XTEA_enc_round :: "u32bit list \<Rightarrow> nat \<Rightarrow> u32bit \<times> u32bit \<Rightarrow> u32bit \<times> u32bit" where
  "XTEA_enc_round EK j s = (case s of (L, R) \<Rightarrow>
     let L = L + (((push_bit 4 R XOR drop_bit 5 R) + R) XOR EK ! (2 * j));
         R = R + (((push_bit 4 L XOR drop_bit 5 L) + L) XOR EK ! (2 * j + 1))
     in (L, R))"

definition XTEA_dec_round :: "u32bit list \<Rightarrow> nat \<Rightarrow> u32bit \<times> u32bit \<Rightarrow> u32bit \<times> u32bit" where
  "XTEA_dec_round EK j s = (case s of (L, R) \<Rightarrow>
     let R = R - (((push_bit 4 L XOR drop_bit 5 L) + L) XOR EK ! (63 - 2 * j));
         L = L - (((push_bit 4 R XOR drop_bit 5 R) + R) XOR EK ! (62 - 2 * j))
     in (L, R))"

definition XTEA_enc :: "u32bit list \<Rightarrow> byte list \<Rightarrow> byte list" where
  "XTEA_enc EK inp = store_be2_u32 (for_up 0 32 (XTEA_enc_round EK) (load_be2_u32 inp))"

definition XTEA_dec :: "u32bit list \<Rightarrow> byte list \<Rightarrow> byte list" where
  "XTEA_dec EK inp = store_be2_u32 (for_up 0 32 (XTEA_dec_round EK) (load_be2_u32 inp))"

interpretation xtea_cipher: block_cipher 8 "\<lambda>_. True" XTEA_enc XTEA_dec
proof -
  have "for_up 0 32 (XTEA_dec_round EK) (for_up 0 32 (XTEA_enc_round EK) s) = s" for EK s
  proof -
    let ?g = "\<lambda>j s. case s of (L, R) \<Rightarrow>
      let R = R - (((push_bit 4 L XOR drop_bit 5 L) + L) XOR EK ! (2 * j + 1));
          L = L - (((push_bit 4 R XOR drop_bit 5 R) + R) XOR EK ! (2 * j))
      in (L, R)"
    have "for_up 0 32 (XTEA_dec_round EK) = for_up 0 32 (\<lambda>j. ?g (32 - Suc j))"
    proof
      fix s :: "u32bit \<times> u32bit"
      have "2 * (32 - Suc j) + 1 = 63 - 2 * j" "2 * (32 - Suc j) = 62 - 2 * j" if "j < 32" for j using that by auto
      then show "for_up 0 32 (XTEA_dec_round EK) s = for_up 0 32 (\<lambda>j. ?g (32 - Suc j)) s"
        by (intro for_up_cong) (simp add: XTEA_dec_round_def)
    qed
    moreover have "?g j (XTEA_enc_round EK j s) = s" for j s
      by (simp add: XTEA_enc_round_def Let_def split: prod.splits)
    ultimately show ?thesis using rounds_inverse[of 32 ?g "XTEA_enc_round EK" s] by simp
  qed
  then show "block_cipher 8 (\<lambda>_. True) XTEA_enc XTEA_dec"
    unfolding XTEA_enc_def[abs_def] XTEA_dec_def[abs_def] by (intro be2_u32.block_cipherI)
qed

end
