(* ===== verification/Noekeon.thy ===== *)
theory Noekeon
  imports BlockCipher
begin

text \<open>
  The cipher Noekeon (\<open>src/block/noekeon/noekeon.cpp\<close>): 16 rounds of a linear layer \<open>theta\<close> keyed
  with the working key, rotations, and the nonlinear involution \<open>gamma\<close>. Decryption runs the same round
  with another key.
\<close>

type_synonym noekeon_block = "u32bit \<times> u32bit \<times> u32bit \<times> u32bit"

record Noekeon =
  EK :: noekeon_block
  DK :: noekeon_block

definition Noekeon_key :: SymmetricAlgorithm where
  "Noekeon_key = new_SymmetricAlgorithm 16 0 1"

definition noekeon_mix :: "u32bit \<Rightarrow> u32bit" where
  "noekeon_mix T = T XOR (rotate_left T 8 XOR rotate_right T 8)"

text \<open>The two functions \<open>theta\<close>, with a key and without.\<close>

definition theta_key :: "noekeon_block \<Rightarrow> noekeon_block \<Rightarrow> noekeon_block" where
  "theta_key K s = (case K of (K0, K1, K2, K3) \<Rightarrow> case s of (A0, A1, A2, A3) \<Rightarrow>
     let T = noekeon_mix (A0 XOR A2);
         A1 = A1 XOR T;
         A3 = A3 XOR T;
         A0 = A0 XOR K0;
         A1 = A1 XOR K1;
         A2 = A2 XOR K2;
         A3 = A3 XOR K3;
         T = noekeon_mix (A1 XOR A3);
         A0 = A0 XOR T;
         A2 = A2 XOR T
     in (A0, A1, A2, A3))"

definition theta :: "noekeon_block \<Rightarrow> noekeon_block" where
  "theta s = (case s of (A0, A1, A2, A3) \<Rightarrow>
     let T = noekeon_mix (A0 XOR A2);
         A1 = A1 XOR T;
         A3 = A3 XOR T;
         T = noekeon_mix (A1 XOR A3);
         A0 = A0 XOR T;
         A2 = A2 XOR T
     in (A0, A1, A2, A3))"

definition gamma :: "noekeon_block \<Rightarrow> noekeon_block" where
  "gamma s = (case s of (A0, A1, A2, A3) \<Rightarrow>
     let A1 = A1 XOR (NOT A3 AND NOT A2);
         A0 = A0 XOR (A2 AND A1);
         T = A3;
         A3 = A0;
         A0 = T;
         A2 = A2 XOR (A0 XOR A1 XOR A3);
         A1 = A1 XOR (NOT A3 AND NOT A2);
         A0 = A0 XOR (A2 AND A1)
     in (A0, A1, A2, A3))"

definition noekeon_RC :: "byte list" where
  "noekeon_RC = [
     0x80, 0x1B, 0x36, 0x6C, 0xD8, 0xAB, 0x4D, 0x9A,
     0x2F, 0x5E, 0xBC, 0x63, 0xC6, 0x97, 0x35, 0x6A,
     0xD4]"

text \<open>\<open>A0 ^= RC[j]\<close>, and the rotations around \<open>gamma\<close>.\<close>

definition noekeon_round_constant :: "nat \<Rightarrow> noekeon_block \<Rightarrow> noekeon_block" where
  "noekeon_round_constant j s = (case s of (A0, A1, A2, A3) \<Rightarrow> (A0 XOR ucast (noekeon_RC ! j), A1, A2, A3))"

definition noekeon_pi_gamma :: "noekeon_block \<Rightarrow> noekeon_block" where
  "noekeon_pi_gamma s = (case s of (A0, A1, A2, A3) \<Rightarrow>
     let A1 = rotate_left A1 1;
         A2 = rotate_left A2 5;
         A3 = rotate_left A3 2
     in case gamma (A0, A1, A2, A3) of (A0, A1, A2, A3) \<Rightarrow>
       (A0, rotate_right A1 1, rotate_right A2 5, rotate_right A3 2))"

definition noekeon_enc_rounds :: "noekeon_block \<Rightarrow> noekeon_block \<Rightarrow> noekeon_block" where
  "noekeon_enc_rounds K s =
     (let s = for_up 0 16 (\<lambda>j s. noekeon_pi_gamma (theta_key K (noekeon_round_constant j s))) s
      in theta_key K (noekeon_round_constant 16 s))"

definition noekeon_dec_rounds :: "noekeon_block \<Rightarrow> noekeon_block \<Rightarrow> noekeon_block" where
  "noekeon_dec_rounds K s =
     (let s = for_down 16 0 (\<lambda>j s. noekeon_pi_gamma (noekeon_round_constant j (theta_key K s))) s
      in noekeon_round_constant 0 (theta_key K s))"

definition Noekeon_enc :: "Noekeon \<Rightarrow> byte list \<Rightarrow> byte list" where
  "Noekeon_enc k inp = store_be4_u32 (noekeon_enc_rounds (EK k) (load_be4_u32 inp))"

definition Noekeon_dec :: "Noekeon \<Rightarrow> byte list \<Rightarrow> byte list" where
  "Noekeon_dec k inp = store_be4_u32 (noekeon_dec_rounds (DK k) (load_be4_u32 inp))"

definition Noekeon_key_schedule :: "byte list \<Rightarrow> nat \<Rightarrow> Noekeon" where
  "Noekeon_key_schedule key n =
     (let s = for_up 0 16 (\<lambda>j s. noekeon_pi_gamma (theta (noekeon_round_constant j s))) (load_be4_u32 key);
          s = noekeon_round_constant 16 s
      in \<lparr>EK = theta s, DK = s\<rparr>)"

definition Noekeon_clear :: "Noekeon \<Rightarrow> Noekeon" where
  "Noekeon_clear k = k\<lparr>EK := (0, 0, 0, 0), DK := (0, 0, 0, 0)\<rparr>"

section \<open>Correctness\<close>

lemma rotate_xor:
  fixes a b :: "'a::len word"
  assumes "r \<le> LENGTH('a)"
  shows "rotate_left (a XOR b) r = rotate_left a r XOR rotate_left b r"
    and "rotate_right (a XOR b) r = rotate_right a r XOR rotate_right b r"
proof -
  show "rotate_left (a XOR b) r = rotate_left a r XOR rotate_left b r"
  proof (rule bit_word_eqI)
    fix n assume "n < LENGTH('a)"
    then show "bit (rotate_left (a XOR b) r) n = bit (rotate_left a r XOR rotate_left b r) n"
      using assms by (cases "r \<le> n") (auto simp: rotate_left_def bit_simps dest: bit_imp_le_length)
  qed
  show "rotate_right (a XOR b) r = rotate_right a r XOR rotate_right b r"
  proof (rule bit_word_eqI)
    fix n assume "n < LENGTH('a)"
    then show "bit (rotate_right (a XOR b) r) n = bit (rotate_right a r XOR rotate_right b r) n"
      using assms by (cases "LENGTH('a) - r \<le> n") (auto simp: rotate_right_def bit_simps dest: bit_imp_le_length)
  qed
qed

lemma noekeon_mix_xor: "noekeon_mix (a XOR b) = noekeon_mix a XOR noekeon_mix b"
  by (simp add: noekeon_mix_def rotate_xor xor_ac)

lemma noekeon_mix_0 [simp]: "noekeon_mix 0 = 0"
  by (simp add: noekeon_mix_def rotate_left_def rotate_right_def)

lemma theta_key_eq:
  "theta_key (K0, K1, K2, K3) (A0, A1, A2, A3) =
    (A0 XOR K0 XOR noekeon_mix (A1 XOR A3 XOR K1 XOR K3), A1 XOR K1 XOR noekeon_mix (A0 XOR A2),
     A2 XOR K2 XOR noekeon_mix (A1 XOR A3 XOR K1 XOR K3), A3 XOR K3 XOR noekeon_mix (A0 XOR A2))"
  by (simp add: theta_key_def Let_def xor_ac)

lemma theta_eq:
  "theta (K0, K1, K2, K3) =
    (K0 XOR noekeon_mix (K1 XOR K3), K1 XOR noekeon_mix (K0 XOR K2),
     K2 XOR noekeon_mix (K1 XOR K3), K3 XOR noekeon_mix (K0 XOR K2))"
  by (simp add: theta_def Let_def xor_ac)

text \<open>\<open>theta\<close> with the key \<open>theta K\<close> undoes \<open>theta\<close> with the key \<open>K\<close>.\<close>

lemma xor_pair: "(a XOR m) XOR (c XOR m) = a XOR (c :: 'a::len word)"
  by (simp add: xor_ac)

lemma theta_key_inverse: "theta_key K (theta_key (theta K) s) = s"
proof -
  obtain K0 K1 K2 K3 where K: "K = (K0, K1, K2, K3)" by (rule prod_cases4)
  obtain A0 A1 A2 A3 where s: "s = (A0, A1, A2, A3)" by (rule prod_cases4)
  define a where "a = noekeon_mix (A0 XOR A2)"
  define b where "b = noekeon_mix (A1 XOR A3)"
  define k where "k = noekeon_mix (K0 XOR K2)"
  define l where "l = noekeon_mix (K1 XOR K3)"
  have 1: "noekeon_mix (A1 XOR A3 XOR (K1 XOR k) XOR (K3 XOR k)) = b XOR l"
    using noekeon_mix_xor[of "A1 XOR A3" "K1 XOR K3"] xor_pair[of K1 k K3] by (simp add: b_def l_def xor.assoc)
  have "theta_key (theta K) s = (A0 XOR (K0 XOR l) XOR (b XOR l), A1 XOR (K1 XOR k) XOR a,
      A2 XOR (K2 XOR l) XOR (b XOR l), A3 XOR (K3 XOR k) XOR a)"
    by (simp add: K s theta_eq theta_key_eq 1 flip: a_def k_def l_def)
  also have "\<dots> = (A0 XOR K0 XOR b, A1 XOR K1 XOR k XOR a, A2 XOR K2 XOR b, A3 XOR K3 XOR k XOR a)"
    by (simp add: xor_ac)
  finally have e: "theta_key (theta K) s = (A0 XOR K0 XOR b, A1 XOR K1 XOR k XOR a, A2 XOR K2 XOR b, A3 XOR K3 XOR k XOR a)" .
  have 2: "(A0 XOR K0 XOR b) XOR (A2 XOR K2 XOR b) = (A0 XOR A2) XOR (K0 XOR K2)"
    "(A1 XOR K1 XOR k XOR a) XOR (A3 XOR K3 XOR k XOR a) XOR K1 XOR K3 = A1 XOR A3"
    by (simp_all add: xor_ac)
  show ?thesis
    unfolding e unfolding K s theta_key_eq 2 noekeon_mix_xor[of "A0 XOR A2"] a_def[symmetric] b_def[symmetric] k_def[symmetric]
    by (simp add: xor_ac)
qed

text \<open>\<open>gamma\<close> acts on the four words bit by bit.\<close>

fun gamma_bit :: "bool \<times> bool \<times> bool \<times> bool \<Rightarrow> bool \<times> bool \<times> bool \<times> bool" where
  "gamma_bit (a0, a1, a2, a3) =
     (let a1 = (a1 \<noteq> (\<not> a3 \<and> \<not> a2));
          a0 = (a0 \<noteq> (a2 \<and> a1));
          t = a3;
          a3 = a0;
          a0 = t;
          a2 = (a2 \<noteq> (a0 \<noteq> (a1 \<noteq> a3)));
          a1 = (a1 \<noteq> (\<not> a3 \<and> \<not> a2));
          a0 = (a0 \<noteq> (a2 \<and> a1))
      in (a0, a1, a2, a3))"

definition block_bit :: "noekeon_block \<Rightarrow> nat \<Rightarrow> bool \<times> bool \<times> bool \<times> bool" where
  "block_bit s n = (case s of (A0, A1, A2, A3) \<Rightarrow> (bit A0 n, bit A1 n, bit A2 n, bit A3 n))"

lemma block_bit_eqI: "(\<And>n. n < 32 \<Longrightarrow> block_bit s n = block_bit t n) \<Longrightarrow> s = t"
  by (cases s; cases t) (auto simp: block_bit_def intro!: bit_word_eqI)

lemma gamma_block_bit: "n < 32 \<Longrightarrow> block_bit (gamma s) n = gamma_bit (block_bit s n)"
proof (cases s)
  case (fields A0 A1 A2 A3)
  assume "n < 32"
  then show ?thesis unfolding fields
    by (cases "bit A0 n"; cases "bit A1 n"; cases "bit A2 n"; cases "bit A3 n")
      (simp_all add: block_bit_def gamma_def Let_def bit_simps)
qed

lemma gamma_bit_involution: "gamma_bit (gamma_bit p) = p"
proof (cases p)
  case (fields a b c d)
  show ?thesis unfolding fields by (cases a; cases b; cases c; cases d) simp_all
qed

lemma gamma_involution: "gamma (gamma s) = s"
  by (rule block_bit_eqI) (simp add: gamma_block_bit gamma_bit_involution)

lemma noekeon_pi_gamma_involution: "noekeon_pi_gamma (noekeon_pi_gamma s) = s"
proof (cases s)
  case (fields A0 A1 A2 A3)
  define t where "t = (A0, rotate_left A1 1, rotate_left A2 5, rotate_left A3 2)"
  obtain B0 B1 B2 B3 where B: "gamma t = (B0, B1, B2, B3)" by (rule prod_cases4)
  then have "gamma (B0, B1, B2, B3) = t" using gamma_involution[of t] by simp
  with B show ?thesis unfolding fields by (simp add: noekeon_pi_gamma_def t_def)
qed

lemma noekeon_round_constant_involution: "noekeon_round_constant j (noekeon_round_constant j s) = s"
  by (cases s) (simp add: noekeon_round_constant_def xor_ac)

lemma noekeon_rounds_inverse: "noekeon_dec_rounds K (noekeon_enc_rounds (theta K) s) = s"
proof -
  let ?X = "\<lambda>j s. theta_key (theta K) (noekeon_round_constant j s)"
  let ?s = "\<lambda>j. for_up 0 j (\<lambda>j s. noekeon_pi_gamma (?X j s)) s"
  have "for_down 16 0 (\<lambda>j s. noekeon_pi_gamma (noekeon_round_constant j (theta_key K s))) (?X 16 (?s 16)) = ?X 0 (?s 0)"
  proof (rule for_down_invariant[where I = "\<lambda>j x. x = ?X j (?s j)"])
    fix j x assume "0 < j" "j \<le> 16" "x = ?X j (?s j)"
    then show "noekeon_pi_gamma (noekeon_round_constant j (theta_key K x)) = ?X (j - 1) (?s (j - 1))"
      by (cases j) (simp_all add: theta_key_inverse noekeon_round_constant_involution for_up_Suc noekeon_pi_gamma_involution)
  qed simp_all
  then show ?thesis
    by (simp add: noekeon_dec_rounds_def noekeon_enc_rounds_def theta_key_inverse noekeon_round_constant_involution)
qed

interpretation noekeon_cipher: block_cipher 16 "\<lambda>k. EK k = theta (DK k)" Noekeon_enc Noekeon_dec
  unfolding Noekeon_enc_def[abs_def] Noekeon_dec_def[abs_def]
  by (intro be4_u32.block_cipherI) (simp add: noekeon_rounds_inverse)

lemma Noekeon_key_schedule_keyed: "EK (Noekeon_key_schedule key n) = theta (DK (Noekeon_key_schedule key n))"
  by (simp add: Noekeon_key_schedule_def Let_def)

end
