(* ===== verification/RC_Ciphers.thy ===== *)
theory RC_Ciphers
  imports BlockCipher Parsing
begin

text \<open>
  The ciphers RC5 (\<open>src/block/rc5/rc5.cpp\<close>) and RC6 (\<open>src/block/rc6/rc6.cpp\<close>): rotations by amounts
  that depend on the data. A rotation by zero shifts by the full word width; the source leaves that
  shift to the machine, the model follows \<open>rotate_left\<close>, where it yields zero.
\<close>

section \<open>Key expansion\<close>

text \<open>\<open>for (s32bit j = length-1; j >= 0; --j) K[j/4] = (K[j/4] << 8) + key[j];\<close>\<close>

definition rc_key_words :: "byte list \<Rightarrow> nat \<Rightarrow> u32bit list" where
  "rc_key_words key n =
     for_down n 0 (\<lambda>j K. K[(j - 1) div 4 := push_bit 8 (K ! ((j - 1) div 4)) + ucast (key ! (j - 1))]) (replicate 8 0)"

definition rc_init_table :: "nat \<Rightarrow> u32bit list" where
  "rc_init_table S_size =
     for_up 1 S_size (\<lambda>j S. S[j := S ! (j - 1) + 0x9E3779B9]) ((replicate S_size 0)[0 := 0xB7E15163])"

definition rc_key_schedule :: "nat \<Rightarrow> byte list \<Rightarrow> nat \<Rightarrow> u32bit list" where
  "rc_key_schedule S_size key n =
     (let WORD_KEYLENGTH = (n - 1) div 4 + 1;
          MIX_ROUNDS = 3 * max WORD_KEYLENGTH S_size
      in case for_up 0 MIX_ROUNDS (\<lambda>j st. case st of (S, K, A, B) \<Rightarrow>
           let A = rotate_left (S ! (j mod S_size) + A + B) 3;
               B = rotate_left (K ! (j mod WORD_KEYLENGTH) + A + B) (unat ((A + B) mod 32))
           in (S[j mod S_size := A], K[j mod WORD_KEYLENGTH := B], A, B))
           (rc_init_table S_size, rc_key_words key n, 0, 0) of
         (S, K, A, B) \<Rightarrow> S)"

section \<open>RC5\<close>

record RC5 =
  RC5_S :: "u32bit list"
  ROUNDS :: nat

definition new_RC5 :: "nat \<Rightarrow> botan_error + RC5" where
  "new_RC5 r =
     (if r < 8 \<or> r > 32 \<or> r mod 4 \<noteq> 0
      then Inl (Invalid_Argument (''RC5('' @ to_string r 0 @ ''): Invalid number of rounds''))
      else Inr \<lparr>RC5_S = replicate (2 * r + 2) 0, ROUNDS = r\<rparr>)"

definition RC5_key :: SymmetricAlgorithm where
  "RC5_key = new_SymmetricAlgorithm 1 32 1"

definition RC5_key_schedule :: "RC5 \<Rightarrow> byte list \<Rightarrow> nat \<Rightarrow> RC5" where
  "RC5_key_schedule c key n = c\<lparr>RC5_S := rc_key_schedule (length (RC5_S c)) key n\<rparr>"

text \<open>Two lines of a round: \<open>A = rotate_left(A ^ B, B % 32) + S[k]; B = rotate_left(B ^ A, A % 32) + S[k+1];\<close>
  and of its inverse.\<close>

definition RC5_mix :: "u32bit list \<Rightarrow> nat \<Rightarrow> u32bit \<times> u32bit \<Rightarrow> u32bit \<times> u32bit" where
  "RC5_mix S k s = (case s of (A, B) \<Rightarrow>
     let A = rotate_left (A XOR B) (unat (B mod 32)) + S ! k;
         B = rotate_left (B XOR A) (unat (A mod 32)) + S ! (k + 1)
     in (A, B))"

definition RC5_unmix :: "u32bit list \<Rightarrow> nat \<Rightarrow> u32bit \<times> u32bit \<Rightarrow> u32bit \<times> u32bit" where
  "RC5_unmix S k s = (case s of (A, B) \<Rightarrow>
     let B = rotate_right (B - S ! (k + 1)) (unat (A mod 32)) XOR A;
         A = rotate_right (A - S ! k) (unat (B mod 32)) XOR B
     in (A, B))"

definition RC5_enc_rounds :: "RC5 \<Rightarrow> u32bit \<times> u32bit \<Rightarrow> u32bit \<times> u32bit" where
  "RC5_enc_rounds c s = (case s of (A, B) \<Rightarrow>
     for_up 0 (ROUNDS c div 4)
       (\<lambda>i s. let j = 4 * i in RC5_mix (RC5_S c) (2 * j + 8) (RC5_mix (RC5_S c) (2 * j + 6) (RC5_mix (RC5_S c) (2 * j + 4) (RC5_mix (RC5_S c) (2 * j + 2) s))))
       (A + RC5_S c ! 0, B + RC5_S c ! 1))"

definition RC5_dec_rounds :: "RC5 \<Rightarrow> u32bit \<times> u32bit \<Rightarrow> u32bit \<times> u32bit" where
  "RC5_dec_rounds c s =
     (case for_down (ROUNDS c div 4) 0
       (\<lambda>i s. let j = 4 * i in RC5_unmix (RC5_S c) (2 * j - 6) (RC5_unmix (RC5_S c) (2 * j - 4) (RC5_unmix (RC5_S c) (2 * j - 2) (RC5_unmix (RC5_S c) (2 * j) s)))) s of
       (A, B) \<Rightarrow> (A - RC5_S c ! 0, B - RC5_S c ! 1))"

definition RC5_enc :: "RC5 \<Rightarrow> byte list \<Rightarrow> byte list" where
  "RC5_enc c inp = store_le2_u32 (RC5_enc_rounds c (load_le2_u32 inp))"

definition RC5_dec :: "RC5 \<Rightarrow> byte list \<Rightarrow> byte list" where
  "RC5_dec c inp = store_le2_u32 (RC5_dec_rounds c (load_le2_u32 inp))"

lemma mod_32_bound: "unat (x mod 32) \<le> 32" for x :: u32bit
proof -
  have "unat (x mod 32) = unat x mod 32" by (simp add: unat_mod)
  then show ?thesis by simp
qed

lemma RC5_unmix_mix: "RC5_unmix S k (RC5_mix S k s) = s"
  by (simp add: RC5_unmix_def RC5_mix_def Let_def mod_32_bound xor.assoc split: prod.splits)

lemma RC5_rounds_inverse: "RC5_dec_rounds c (RC5_enc_rounds c s) = s"
proof (cases s)
  case (Pair A B)
  let ?f = "\<lambda>i s. let j = 4 * i in RC5_mix (RC5_S c) (2 * j + 8) (RC5_mix (RC5_S c) (2 * j + 6) (RC5_mix (RC5_S c) (2 * j + 4) (RC5_mix (RC5_S c) (2 * j + 2) s)))"
  let ?g = "\<lambda>i s. let j = 4 * i in RC5_unmix (RC5_S c) (2 * j - 6) (RC5_unmix (RC5_S c) (2 * j - 4) (RC5_unmix (RC5_S c) (2 * j - 2) (RC5_unmix (RC5_S c) (2 * j) s)))"
  have "?g (Suc i) (?f i s) = s" for i s
  proof -
    have "2 * (4 * Suc i) = 2 * (4 * i) + 8" "2 * (4 * Suc i) - 2 = 2 * (4 * i) + 6"
      "2 * (4 * Suc i) - 4 = 2 * (4 * i) + 4" "2 * (4 * Suc i) - 6 = 2 * (4 * i) + 2" by simp_all
    then show ?thesis by (simp only: Let_def RC5_unmix_mix)
  qed
  then have "for_down (ROUNDS c div 4) 0 ?g (for_up 0 (ROUNDS c div 4) ?f s) = s" for s
    by (intro rounds_inverse_down)
  then show ?thesis unfolding RC5_dec_rounds_def RC5_enc_rounds_def Pair by simp
qed

interpretation rc5_cipher: block_cipher 8 "\<lambda>_. True" RC5_enc RC5_dec
  unfolding RC5_enc_def[abs_def] RC5_dec_def[abs_def]
  by (intro le2_u32.block_cipherI) (rule RC5_rounds_inverse)

section \<open>RC6\<close>

definition RC6_key :: SymmetricAlgorithm where
  "RC6_key = new_SymmetricAlgorithm 1 32 1"

definition RC6_key_schedule :: "byte list \<Rightarrow> nat \<Rightarrow> u32bit list" where
  "RC6_key_schedule key n = rc_key_schedule 44 key n"

text \<open>
  A quarter round on \<open>(A, B, C, D)\<close>, with the two subkeys from \<open>S[k]\<close>:
  \<open>T1 = rotate_left(B*(2*B+1), 5); T2 = rotate_left(D*(2*D+1), 5);
   A = rotate_left(A ^ T1, T2 % 32) + S[k]; C = rotate_left(C ^ T2, T1 % 32) + S[k+1];\<close>
  the next one is the same with the registers renamed one place.
\<close>

definition RC6_T :: "u32bit \<Rightarrow> u32bit" where
  "RC6_T B = rotate_left (B * (2 * B + 1)) 5"

definition RC6_mix :: "u32bit list \<Rightarrow> nat \<Rightarrow> u32bit \<Rightarrow> u32bit \<Rightarrow> u32bit \<Rightarrow> u32bit \<Rightarrow> u32bit \<times> u32bit" where
  "RC6_mix S k A B C D =
     (let T1 = RC6_T B; T2 = RC6_T D
      in (rotate_left (A XOR T1) (unat (T2 mod 32)) + S ! k, rotate_left (C XOR T2) (unat (T1 mod 32)) + S ! (k + 1)))"

definition RC6_unmix :: "u32bit list \<Rightarrow> nat \<Rightarrow> u32bit \<Rightarrow> u32bit \<Rightarrow> u32bit \<Rightarrow> u32bit \<Rightarrow> u32bit \<times> u32bit" where
  "RC6_unmix S k A B C D =
     (let T1 = RC6_T B; T2 = RC6_T D
      in (rotate_right (A - S ! k) (unat (T2 mod 32)) XOR T1, rotate_right (C - S ! (k + 1)) (unat (T1 mod 32)) XOR T2))"

type_synonym rc6_block = "u32bit \<times> u32bit \<times> u32bit \<times> u32bit"

definition RC6_enc_round :: "u32bit list \<Rightarrow> nat \<Rightarrow> rc6_block \<Rightarrow> rc6_block" where
  "RC6_enc_round S i s = (case s of (A, B, C, D) \<Rightarrow>
     let j = 4 * i;
         (A, C) = RC6_mix S (2 * j + 2) A B C D;
         (B, D) = RC6_mix S (2 * j + 4) B C D A;
         (C, A) = RC6_mix S (2 * j + 6) C D A B;
         (D, B) = RC6_mix S (2 * j + 8) D A B C
     in (A, B, C, D))"

definition RC6_dec_round :: "u32bit list \<Rightarrow> nat \<Rightarrow> rc6_block \<Rightarrow> rc6_block" where
  "RC6_dec_round S i s = (case s of (A, B, C, D) \<Rightarrow>
     let j = 4 * i;
         (D, B) = RC6_unmix S (40 - 2 * j) D A B C;
         (C, A) = RC6_unmix S (38 - 2 * j) C D A B;
         (B, D) = RC6_unmix S (36 - 2 * j) B C D A;
         (A, C) = RC6_unmix S (34 - 2 * j) A B C D
     in (A, B, C, D))"

definition RC6_enc_rounds :: "u32bit list \<Rightarrow> rc6_block \<Rightarrow> rc6_block" where
  "RC6_enc_rounds S s = (case s of (A, B, C, D) \<Rightarrow>
     case for_up 0 5 (RC6_enc_round S) (A, B + S ! 0, C, D + S ! 1) of
       (A, B, C, D) \<Rightarrow> (A + S ! 42, B, C + S ! 43, D))"

definition RC6_dec_rounds :: "u32bit list \<Rightarrow> rc6_block \<Rightarrow> rc6_block" where
  "RC6_dec_rounds S s = (case s of (A, B, C, D) \<Rightarrow>
     case for_up 0 5 (RC6_dec_round S) (A - S ! 42, B, C - S ! 43, D) of
       (A, B, C, D) \<Rightarrow> (A, B - S ! 0, C, D - S ! 1))"

definition RC6_enc :: "u32bit list \<Rightarrow> byte list \<Rightarrow> byte list" where
  "RC6_enc S inp = store_le4_u32 (RC6_enc_rounds S (load_le4_u32 inp))"

definition RC6_dec :: "u32bit list \<Rightarrow> byte list \<Rightarrow> byte list" where
  "RC6_dec S inp = store_le4_u32 (RC6_dec_rounds S (load_le4_u32 inp))"

lemma RC6_unmix_mix: "RC6_mix S k A B C D = (A', C') \<Longrightarrow> RC6_unmix S k A' B C' D = (A, C)"
  by (auto simp: RC6_mix_def RC6_unmix_def Let_def mod_32_bound xor.assoc)

lemma RC6_round_inverse:
  assumes "i < 5"
  shows "RC6_dec_round S (4 - i) (RC6_enc_round S i s) = s"
proof -
  have k: "40 - 2 * (4 * (4 - i)) = 2 * (4 * i) + 8" "38 - 2 * (4 * (4 - i)) = 2 * (4 * i) + 6"
    "36 - 2 * (4 * (4 - i)) = 2 * (4 * i) + 4" "34 - 2 * (4 * (4 - i)) = 2 * (4 * i) + 2" using assms by auto
  show ?thesis
    unfolding RC6_dec_round_def RC6_enc_round_def Let_def k by (auto simp: RC6_unmix_mix split: prod.splits dest!: RC6_unmix_mix)
qed

lemma RC6_rounds_inverse: "RC6_dec_rounds S (RC6_enc_rounds S s) = s"
proof -
  have "for_up 0 5 (\<lambda>j. (\<lambda>i. RC6_dec_round S (4 - i)) (5 - Suc j)) (for_up 0 5 (RC6_enc_round S) s) = s" for s
    by (rule rounds_inverse) (rule RC6_round_inverse)
  moreover have "for_up 0 5 (\<lambda>j. RC6_dec_round S (4 - (5 - Suc j))) s = for_up 0 5 (RC6_dec_round S) s" for s
    by (rule for_up_cong) (auto intro: arg_cong2[where f = "RC6_dec_round S"])
  ultimately have inv: "for_up 0 5 (RC6_dec_round S) (for_up 0 5 (RC6_enc_round S) s) = s" for s by simp
  obtain A B C D where s: "s = (A, B, C, D)" by (rule prod_cases4)
  obtain a b c d where e: "for_up 0 5 (RC6_enc_round S) (A, B + S ! 0, C, D + S ! 1) = (a, b, c, d)" by (rule prod_cases4)
  have "for_up 0 5 (RC6_dec_round S) (a, b, c, d) = (A, B + S ! 0, C, D + S ! 1)" using inv[of "(A, B + S ! 0, C, D + S ! 1)"] e by simp
  then show ?thesis using e by (simp add: RC6_dec_rounds_def RC6_enc_rounds_def s)
qed

interpretation rc6_cipher: block_cipher 16 "\<lambda>_. True" RC6_enc RC6_dec
  unfolding RC6_enc_def[abs_def] RC6_dec_def[abs_def]
  by (intro le4_u32.block_cipherI) (rule RC6_rounds_inverse)

end
