(* ===== verification/Skipjack.thy ===== *)
theory Skipjack
  imports BlockCipher
begin

text \<open>
  The cipher Skipjack (\<open>src/block/skipjack/skipjack.cpp\<close>): 32 unrolled steps of two kinds on four
  16-bit words. The state is the ten tables the key schedule fills; a step names the words it
  works on by their index in \<open>[W1, W2, W3, W4]\<close>.
\<close>

definition skipjack_F :: "byte list" where
  "skipjack_F = [
     0xA3, 0xD7, 0x09, 0x83, 0xF8, 0x48, 0xF6, 0xF4, 0xB3, 0x21, 0x15, 0x78, 0x99, 0xB1,
     0xAF, 0xF9, 0xE7, 0x2D, 0x4D, 0x8A, 0xCE, 0x4C, 0xCA, 0x2E, 0x52, 0x95, 0xD9, 0x1E,
     0x4E, 0x38, 0x44, 0x28, 0x0A, 0xDF, 0x02, 0xA0, 0x17, 0xF1, 0x60, 0x68, 0x12, 0xB7,
     0x7A, 0xC3, 0xE9, 0xFA, 0x3D, 0x53, 0x96, 0x84, 0x6B, 0xBA, 0xF2, 0x63, 0x9A, 0x19,
     0x7C, 0xAE, 0xE5, 0xF5, 0xF7, 0x16, 0x6A, 0xA2, 0x39, 0xB6, 0x7B, 0x0F, 0xC1, 0x93,
     0x81, 0x1B, 0xEE, 0xB4, 0x1A, 0xEA, 0xD0, 0x91, 0x2F, 0xB8, 0x55, 0xB9, 0xDA, 0x85,
     0x3F, 0x41, 0xBF, 0xE0, 0x5A, 0x58, 0x80, 0x5F, 0x66, 0x0B, 0xD8, 0x90, 0x35, 0xD5,
     0xC0, 0xA7, 0x33, 0x06, 0x65, 0x69, 0x45, 0x00, 0x94, 0x56, 0x6D, 0x98, 0x9B, 0x76,
     0x97, 0xFC, 0xB2, 0xC2, 0xB0, 0xFE, 0xDB, 0x20, 0xE1, 0xEB, 0xD6, 0xE4, 0xDD, 0x47,
     0x4A, 0x1D, 0x42, 0xED, 0x9E, 0x6E, 0x49, 0x3C, 0xCD, 0x43, 0x27, 0xD2, 0x07, 0xD4,
     0xDE, 0xC7, 0x67, 0x18, 0x89, 0xCB, 0x30, 0x1F, 0x8D, 0xC6, 0x8F, 0xAA, 0xC8, 0x74,
     0xDC, 0xC9, 0x5D, 0x5C, 0x31, 0xA4, 0x70, 0x88, 0x61, 0x2C, 0x9F, 0x0D, 0x2B, 0x87,
     0x50, 0x82, 0x54, 0x64, 0x26, 0x7D, 0x03, 0x40, 0x34, 0x4B, 0x1C, 0x73, 0xD1, 0xC4,
     0xFD, 0x3B, 0xCC, 0xFB, 0x7F, 0xAB, 0xE6, 0x3E, 0x5B, 0xA5, 0xAD, 0x04, 0x23, 0x9C,
     0x14, 0x51, 0x22, 0xF0, 0x29, 0x79, 0x71, 0x7E, 0xFF, 0x8C, 0x0E, 0xE2, 0x0C, 0xEF,
     0xBC, 0x72, 0x75, 0x6F, 0x37, 0xA1, 0xEC, 0xD3, 0x8E, 0x62, 0x8B, 0x86, 0x10, 0xE8,
     0x08, 0x77, 0x11, 0xBE, 0x92, 0x4F, 0x24, 0xC5, 0x32, 0x36, 0x9D, 0xCF, 0xF3, 0xA6,
     0xBB, 0xAC, 0x5E, 0x6C, 0xA9, 0x13, 0x57, 0x25, 0xB5, 0xE3, 0xBD, 0xA8, 0x3A, 0x01,
     0x05, 0x59, 0x2A, 0x46]"

definition Skipjack_key :: SymmetricAlgorithm where
  "Skipjack_key = new_SymmetricAlgorithm 10 0 1"

definition Skipjack_key_schedule :: "byte list \<Rightarrow> nat \<Rightarrow> byte list list" where
  "Skipjack_key_schedule key n =
     for_up 0 10 (\<lambda>j FTABLE. for_up 0 256
       (\<lambda>k FTABLE. FTABLE[j := (FTABLE ! j)[k := skipjack_F ! unat (word_of_nat k XOR key ! (9 - j))]]) FTABLE)
       (replicate 10 (replicate 256 0))"

definition Skipjack_clear :: "byte list list \<Rightarrow> byte list list" where
  "Skipjack_clear FTABLE = for_up 0 10 (\<lambda>j FTABLE. FTABLE[j := replicate 256 0]) FTABLE"

definition skipjack_lookup :: "byte list list \<Rightarrow> nat \<Rightarrow> byte \<Rightarrow> byte" where
  "skipjack_lookup FTABLE i G = FTABLE ! (i mod 10) ! unat G"

text \<open>The four table lookups of a step, and in the opposite order.\<close>

definition skipjack_G :: "byte list list \<Rightarrow> nat \<Rightarrow> u16bit \<Rightarrow> u16bit" where
  "skipjack_G FTABLE r W =
     (let G1 = get_byte 0 W; G2 = get_byte 1 W;
          G3 = skipjack_lookup FTABLE (4 * r - 4) G2 XOR G1;
          G1 = skipjack_lookup FTABLE (4 * r - 3) G3 XOR G2;
          G2 = skipjack_lookup FTABLE (4 * r - 2) G1 XOR G3;
          G3 = skipjack_lookup FTABLE (4 * r - 1) G2 XOR G1
      in make_u16bit G2 G3)"

definition skipjack_Gi :: "byte list list \<Rightarrow> nat \<Rightarrow> u16bit \<Rightarrow> u16bit" where
  "skipjack_Gi FTABLE r W =
     (let G1 = get_byte 1 W; G2 = get_byte 0 W;
          G3 = skipjack_lookup FTABLE (4 * r - 1) G2 XOR G1;
          G1 = skipjack_lookup FTABLE (4 * r - 2) G3 XOR G2;
          G2 = skipjack_lookup FTABLE (4 * r - 3) G1 XOR G3;
          G3 = skipjack_lookup FTABLE (4 * r - 4) G2 XOR G1
      in make_u16bit G3 G2)"

datatype skipjack_step = step_A nat nat nat | step_B nat nat nat | step_Ai nat nat nat | step_Bi nat nat nat

text \<open>The arguments are the indices of the two words and the round. (Each step takes its words by reference.)\<close>

fun skipjack_exec :: "byte list list \<Rightarrow> skipjack_step \<Rightarrow> u16bit list \<Rightarrow> u16bit list" where
  "skipjack_exec T (step_A a b r) W =
     (let W = W[a := skipjack_G T r (W ! a)] in W[b := W ! b XOR (W ! a XOR word_of_nat r)])"
| "skipjack_exec T (step_B a b r) W =
     (let W = W[b := W ! b XOR (W ! a XOR word_of_nat r)] in W[a := skipjack_G T r (W ! a)])"
| "skipjack_exec T (step_Ai a b r) W =
     (let W = W[a := W ! a XOR (W ! b XOR word_of_nat r)] in W[b := skipjack_Gi T r (W ! b)])"
| "skipjack_exec T (step_Bi a b r) W =
     (let W = W[a := skipjack_Gi T r (W ! a)] in W[b := W ! b XOR (W ! a XOR word_of_nat r)])"

definition skipjack_enc_steps :: "skipjack_step list" where
  "skipjack_enc_steps = [
     step_A 0 3  1, step_A 3 2  2, step_A 2 1  3, step_A 1 0  4,
     step_A 0 3  5, step_A 3 2  6, step_A 2 1  7, step_A 1 0  8,
     step_B 0 1  9, step_B 3 0 10, step_B 2 3 11, step_B 1 2 12,
     step_B 0 1 13, step_B 3 0 14, step_B 2 3 15, step_B 1 2 16,
     step_A 0 3 17, step_A 3 2 18, step_A 2 1 19, step_A 1 0 20,
     step_A 0 3 21, step_A 3 2 22, step_A 2 1 23, step_A 1 0 24,
     step_B 0 1 25, step_B 3 0 26, step_B 2 3 27, step_B 1 2 28,
     step_B 0 1 29, step_B 3 0 30, step_B 2 3 31, step_B 1 2 32]"

definition skipjack_dec_steps :: "skipjack_step list" where
  "skipjack_dec_steps = [
     step_Bi 1 2 32, step_Bi 2 3 31, step_Bi 3 0 30, step_Bi 0 1 29,
     step_Bi 1 2 28, step_Bi 2 3 27, step_Bi 3 0 26, step_Bi 0 1 25,
     step_Ai 0 1 24, step_Ai 1 2 23, step_Ai 2 3 22, step_Ai 3 0 21,
     step_Ai 0 1 20, step_Ai 1 2 19, step_Ai 2 3 18, step_Ai 3 0 17,
     step_Bi 1 2 16, step_Bi 2 3 15, step_Bi 3 0 14, step_Bi 0 1 13,
     step_Bi 1 2 12, step_Bi 2 3 11, step_Bi 3 0 10, step_Bi 0 1  9,
     step_Ai 0 1  8, step_Ai 1 2  7, step_Ai 2 3  6, step_Ai 3 0  5,
     step_Ai 0 1  4, step_Ai 1 2  3, step_Ai 2 3  2, step_Ai 3 0  1]"

definition skipjack_load :: "byte list \<Rightarrow> u16bit list" where
  "skipjack_load inp = [load_le_u16 inp 3, load_le_u16 inp 2, load_le_u16 inp 1, load_le_u16 inp 0]"

definition skipjack_store :: "u16bit list \<Rightarrow> byte list" where
  "skipjack_store W = store_le_u16 (W ! 3) @ store_le_u16 (W ! 2) @ store_le_u16 (W ! 1) @ store_le_u16 (W ! 0)"

definition Skipjack_enc :: "byte list list \<Rightarrow> byte list \<Rightarrow> byte list" where
  "Skipjack_enc FTABLE inp = skipjack_store (fold (skipjack_exec FTABLE) skipjack_enc_steps (skipjack_load inp))"

definition Skipjack_dec :: "byte list list \<Rightarrow> byte list \<Rightarrow> byte list" where
  "Skipjack_dec FTABLE inp = skipjack_store (fold (skipjack_exec FTABLE) skipjack_dec_steps (skipjack_load inp))"

section \<open>Correctness\<close>

lemma skipjack_Gi_G: "skipjack_Gi T r (skipjack_G T r W) = W"
  by (simp add: skipjack_Gi_def skipjack_G_def Let_def get_byte_make make_get_byte xor.left_commute xor.commute)

fun skipjack_inverse :: "skipjack_step \<Rightarrow> skipjack_step" where
  "skipjack_inverse (step_A a b r) = step_Ai b a r"
| "skipjack_inverse (step_B a b r) = step_Bi a b r"
| "skipjack_inverse s = s"

lemma skipjack_exec_inverse:
  assumes "s \<in> {step_A a b r, step_B a b r}" and "a < length W" and "b < length W" and "a \<noteq> b"
  shows "skipjack_exec T (skipjack_inverse s) (skipjack_exec T s W) = W"
  using assms
  by (auto simp: Let_def skipjack_Gi_G xor.assoc list_update_swap[of a b])

lemma skipjack_steps_inverse: "skipjack_dec_steps = rev (map skipjack_inverse skipjack_enc_steps)"
  by (simp add: skipjack_dec_steps_def skipjack_enc_steps_def)

lemma length_skipjack_exec [simp]: "length (skipjack_exec T s W) = length W"
  by (cases s) (simp_all add: Let_def)

lemma length_skipjack_fold [simp]: "length (fold (skipjack_exec T) ss W) = length W"
  by (induction ss arbitrary: W) simp_all

lemma skipjack_rounds_inverse:
  assumes "length W = 4"
  shows "fold (skipjack_exec T) skipjack_dec_steps (fold (skipjack_exec T) skipjack_enc_steps W) = W"
proof -
  have "skipjack_exec T (skipjack_inverse s) (skipjack_exec T s V) = V" if "s \<in> set skipjack_enc_steps" "length V = 4" for s V
  proof -
    have "\<forall>s\<in>set skipjack_enc_steps. case s of step_A a b r \<Rightarrow> a < 4 \<and> b < 4 \<and> a \<noteq> b
        | step_B a b r \<Rightarrow> a < 4 \<and> b < 4 \<and> a \<noteq> b | _ \<Rightarrow> False"
      by (simp add: skipjack_enc_steps_def)
    then show ?thesis using that by (cases s) (auto intro!: skipjack_exec_inverse simp del: skipjack_exec.simps skipjack_inverse.simps)
  qed
  then have "fold (\<lambda>s. skipjack_exec T (skipjack_inverse s)) (rev skipjack_enc_steps) (fold (skipjack_exec T) skipjack_enc_steps W) = W"
    using assms by (intro fold_inverse[where P = "\<lambda>V. length V = 4"]) simp_all
  then show ?thesis by (simp add: skipjack_steps_inverse rev_map fold_map comp_def)
qed

interpretation skipjack_cipher: block_cipher 8 "\<lambda>_. True" Skipjack_enc Skipjack_dec
proof
  have ls: "skipjack_load (skipjack_store W) = W" if "length W = 4" for W
  proof -
    obtain a b c d where "W = [a, b, c, d]" using list_of_length(3)[OF \<open>length W = 4\<close>] by blast
    then show ?thesis by (simp add: skipjack_load_def skipjack_store_def load_store_defs make_get_byte)
  qed
  have sl: "skipjack_store (skipjack_load b) = b" if "length b = 8" for b
    using list_of_length(1)[OF that] by (auto simp: skipjack_load_def skipjack_store_def load_store_defs get_byte_make)
  have ll: "length (skipjack_load b) = 4" for b by (simp add: skipjack_load_def)
  have len: "length (skipjack_store W) = 8" for W by (simp add: skipjack_store_def load_store_defs)
  fix k :: "byte list list" and b :: "byte list"
  assume "length b = 8"
  then show "Skipjack_dec k (Skipjack_enc k b) = b"
    by (simp add: Skipjack_dec_def Skipjack_enc_def ls sl ll skipjack_rounds_inverse)
  show "length (Skipjack_enc k b) = 8" "length (Skipjack_dec k b) = 8"
    by (simp_all add: Skipjack_enc_def Skipjack_dec_def len)
qed simp

end
