(* ===== verification/GOST.thy ===== *)
theory GOST
  imports BlockCipher
begin

text \<open>
  The cipher GOST 28147-89 (\<open>src/block/gost_28147/gost_28147.cpp\<close>): a Feistel network whose
  S-boxes are built from a parameter set. The state is the expanded S-box and the subkeys.
\<close>

definition GOST_R_3411_TEST_PARAMS :: "byte list" where
  "GOST_R_3411_TEST_PARAMS = [
     0x4E, 0x57, 0x64, 0xD1, 0xAB, 0x8D, 0xCB, 0xBF, 0x94, 0x1A, 0x7A, 0x4D, 0x2C, 0xD1,
     0x10, 0x10, 0xD6, 0xA0, 0x57, 0x35, 0x8D, 0x38, 0xF2, 0xF7, 0x0F, 0x49, 0xD1, 0x5A,
     0xEA, 0x2F, 0x8D, 0x94, 0x62, 0xEE, 0x43, 0x09, 0xB3, 0xF4, 0xA6, 0xA2, 0x18, 0xC6,
     0x98, 0xE3, 0xC1, 0x7C, 0xE5, 0x7E, 0x70, 0x6B, 0x09, 0x66, 0xF7, 0x02, 0x3C, 0x8B,
     0x55, 0x95, 0xBF, 0x28, 0x39, 0xB3, 0x2E, 0xCC]"

definition GOST_R_3411_CRYPTOPRO_PARAMS :: "byte list" where
  "GOST_R_3411_CRYPTOPRO_PARAMS = [
     0xA5, 0x74, 0x77, 0xD1, 0x4F, 0xFA, 0x66, 0xE3, 0x54, 0xC7, 0x42, 0x4A, 0x60, 0xEC,
     0xB4, 0x19, 0x82, 0x90, 0x9D, 0x75, 0x1D, 0x4F, 0xC9, 0x0B, 0x3B, 0x12, 0x2F, 0x54,
     0x79, 0x08, 0xA0, 0xAF, 0xD1, 0x3E, 0x1A, 0x38, 0xC7, 0xB1, 0x81, 0xC6, 0xE6, 0x56,
     0x05, 0x87, 0x03, 0x25, 0xEB, 0xFE, 0x9C, 0x6D, 0xF8, 0x6D, 0x2E, 0xAB, 0xDE, 0x20,
     0xBA, 0x89, 0x3C, 0x92, 0xF8, 0xD3, 0x53, 0xBC]"

definition GOST_28147_89_Params :: "string \<Rightarrow> botan_error + byte list" where
  "GOST_28147_89_Params n =
     (if n = ''R3411_94_TestParam'' then Inr GOST_R_3411_TEST_PARAMS
      else if n = ''R3411_CryptoPro'' then Inr GOST_R_3411_CRYPTOPRO_PARAMS
      else Inl (Invalid_Argument (''GOST_28147_89_Params: Unknown '' @ n)))"

definition sbox_entry :: "byte list \<Rightarrow> nat \<Rightarrow> nat \<Rightarrow> byte" where
  "sbox_entry sboxes row col =
     (let x = sboxes ! (4 * col + row div 2) in if row mod 2 = 0 then drop_bit 4 x else x AND 0x0F)"

record GOST_28147_89 =
  GOST_SBOX :: "u32bit list"
  GOST_EK :: "u32bit list"

definition GOST_key :: SymmetricAlgorithm where
  "GOST_key = new_SymmetricAlgorithm 32 0 1"

definition new_GOST_28147_89 :: "byte list \<Rightarrow> GOST_28147_89" where
  "new_GOST_28147_89 param =
     \<lparr>GOST_SBOX = for_up 0 4 (\<lambda>i SBOX. for_up 0 256
        (\<lambda>j SBOX. let T = ucast (sbox_entry param (2 * i) (j mod 16)) OR push_bit 4 (ucast (sbox_entry param (2 * i + 1) (j div 16)))
                   in SBOX[256 * i + j := rotate_left T ((11 + 8 * i) mod 32)]) SBOX) (replicate 1024 0),
      GOST_EK = replicate 8 0\<rparr>"

definition GOST_key_schedule :: "GOST_28147_89 \<Rightarrow> byte list \<Rightarrow> nat \<Rightarrow> GOST_28147_89" where
  "GOST_key_schedule c key n = c\<lparr>GOST_EK := for_up 0 8 (\<lambda>j EK. EK[j := load_le_u32 key j]) (GOST_EK c)\<rparr>"

definition GOST_clear :: "GOST_28147_89 \<Rightarrow> GOST_28147_89" where
  "GOST_clear c = c\<lparr>GOST_EK := replicate (length (GOST_EK c)) 0\<rparr>"

definition gost_F :: "GOST_28147_89 \<Rightarrow> u32bit \<Rightarrow> u32bit" where
  "gost_F c T =
     GOST_SBOX c ! unat (get_byte 3 T) OR
     GOST_SBOX c ! (unat (get_byte 2 T) + 256) OR
     GOST_SBOX c ! (unat (get_byte 1 T) + 512) OR
     GOST_SBOX c ! (unat (get_byte 0 T) + 768)"

definition GOST_2ROUND :: "GOST_28147_89 \<Rightarrow> nat \<times> nat \<Rightarrow> u32bit \<times> u32bit \<Rightarrow> u32bit \<times> u32bit" where
  "GOST_2ROUND c R s = (case R of (R1, R2) \<Rightarrow> case s of (N1, N2) \<Rightarrow>
     let T0 = N1 + GOST_EK c ! R1;
         N2 = N2 XOR gost_F c T0;
         T1 = N2 + GOST_EK c ! R2;
         N1 = N1 XOR gost_F c T1
     in (N1, N2))"

definition gost_enc_rounds :: "(nat \<times> nat) list" where
  "gost_enc_rounds =
     concat (replicate 3 [(0, 1), (2, 3), (4, 5), (6, 7)]) @ [(7, 6), (5, 4), (3, 2), (1, 0)]"

definition gost_dec_rounds :: "(nat \<times> nat) list" where
  "gost_dec_rounds =
     [(0, 1), (2, 3), (4, 5), (6, 7)] @ concat (replicate 3 [(7, 6), (5, 4), (3, 2), (1, 0)])"

definition GOST_enc :: "GOST_28147_89 \<Rightarrow> byte list \<Rightarrow> byte list" where
  "GOST_enc c inp = store_le2_u32 (prod.swap (fold (GOST_2ROUND c) gost_enc_rounds (load_le2_u32 inp)))"

definition GOST_dec :: "GOST_28147_89 \<Rightarrow> byte list \<Rightarrow> byte list" where
  "GOST_dec c inp = store_le2_u32 (prod.swap (fold (GOST_2ROUND c) gost_dec_rounds (load_le2_u32 inp)))"

section \<open>Correctness\<close>

lemma GOST_2ROUND_swap: "GOST_2ROUND c (prod.swap R) (prod.swap (GOST_2ROUND c R s)) = prod.swap s"
  by (cases R; cases s) (simp add: GOST_2ROUND_def Let_def xor.assoc)

lemma gost_rounds: "gost_dec_rounds = rev (map prod.swap gost_enc_rounds)"
  by (simp add: gost_dec_rounds_def gost_enc_rounds_def numeral_eq_Suc)

interpretation gost_cipher: block_cipher 8 "\<lambda>_. True" GOST_enc GOST_dec
proof -
  have "fold (GOST_2ROUND c) gost_dec_rounds (prod.swap (fold (GOST_2ROUND c) gost_enc_rounds s)) = prod.swap s" for c s
    unfolding gost_rounds by (rule fold_inverse_swap) (rule GOST_2ROUND_swap)
  then have "prod.swap (fold (GOST_2ROUND c) gost_dec_rounds (prod.swap (fold (GOST_2ROUND c) gost_enc_rounds s))) = s" for c s
    by simp
  then show "block_cipher 8 (\<lambda>_. True) GOST_enc GOST_dec"
    unfolding GOST_enc_def[abs_def] GOST_dec_def[abs_def] by (intro le2_u32.block_cipherI)
qed

end
