(* ===== verification/DES.thy ===== *)
theory DES
  imports BlockCipher
begin

text \<open>
  DES and Triple DES (\<open>src/block/des/des.cpp\<close>, tables in \<open>des_tab.cpp\<close>). The initial and the final permutation are
  table lookups on the bytes of the block; that they are inverse to each other is checked on the bits the tables hold.
\<close>

section \<open>Tables\<close>

definition DES_SPBOX1 :: "u32bit list" where
  "DES_SPBOX1 = [
     0x01010400, 0x00000000, 0x00010000, 0x01010404, 0x01010004, 0x00010404, 0x00000004, 0x00010000,
     0x00000400, 0x01010400, 0x01010404, 0x00000400, 0x01000404, 0x01010004, 0x01000000, 0x00000004,
     0x00000404, 0x01000400, 0x01000400, 0x00010400, 0x00010400, 0x01010000, 0x01010000, 0x01000404,
     0x00010004, 0x01000004, 0x01000004, 0x00010004, 0x00000000, 0x00000404, 0x00010404, 0x01000000,
     0x00010000, 0x01010404, 0x00000004, 0x01010000, 0x01010400, 0x01000000, 0x01000000, 0x00000400,
     0x01010004, 0x00010000, 0x00010400, 0x01000004, 0x00000400, 0x00000004, 0x01000404, 0x00010404,
     0x01010404, 0x00010004, 0x01010000, 0x01000404, 0x01000004, 0x00000404, 0x00010404, 0x01010400,
     0x00000404, 0x01000400, 0x01000400, 0x00000000, 0x00010004, 0x00010400, 0x00000000, 0x01010004,
     0x01010400, 0x00000000, 0x00010000, 0x01010404, 0x01010004, 0x00010404, 0x00000004, 0x00010000,
     0x00000400, 0x01010400, 0x01010404, 0x00000400, 0x01000404, 0x01010004, 0x01000000, 0x00000004,
     0x00000404, 0x01000400, 0x01000400, 0x00010400, 0x00010400, 0x01010000, 0x01010000, 0x01000404,
     0x00010004, 0x01000004, 0x01000004, 0x00010004, 0x00000000, 0x00000404, 0x00010404, 0x01000000,
     0x00010000, 0x01010404, 0x00000004, 0x01010000, 0x01010400, 0x01000000, 0x01000000, 0x00000400,
     0x01010004, 0x00010000, 0x00010400, 0x01000004, 0x00000400, 0x00000004, 0x01000404, 0x00010404,
     0x01010404, 0x00010004, 0x01010000, 0x01000404, 0x01000004, 0x00000404, 0x00010404, 0x01010400,
     0x00000404, 0x01000400, 0x01000400, 0x00000000, 0x00010004, 0x00010400, 0x00000000, 0x01010004,
     0x01010400, 0x00000000, 0x00010000, 0x01010404, 0x01010004, 0x00010404, 0x00000004, 0x00010000,
     0x00000400, 0x01010400, 0x01010404, 0x00000400, 0x01000404, 0x01010004, 0x01000000, 0x00000004,
     0x00000404, 0x01000400, 0x01000400, 0x00010400, 0x00010400, 0x01010000, 0x01010000, 0x01000404,
     0x00010004, 0x01000004, 0x01000004, 0x00010004, 0x00000000, 0x00000404, 0x00010404, 0x01000000,
     0x00010000, 0x01010404, 0x00000004, 0x01010000, 0x01010400, 0x01000000, 0x01000000, 0x00000400,
     0x01010004, 0x00010000, 0x00010400, 0x01000004, 0x00000400, 0x00000004, 0x01000404, 0x00010404,
     0x01010404, 0x00010004, 0x01010000, 0x01000404, 0x01000004, 0x00000404, 0x00010404, 0x01010400,
     0x00000404, 0x01000400, 0x01000400, 0x00000000, 0x00010004, 0x00010400, 0x00000000, 0x01010004,
     0x01010400, 0x00000000, 0x00010000, 0x01010404, 0x01010004, 0x00010404, 0x00000004, 0x00010000,
     0x00000400, 0x01010400, 0x01010404, 0x00000400, 0x01000404, 0x01010004, 0x01000000, 0x00000004,
     0x00000404, 0x01000400, 0x01000400, 0x00010400, 0x00010400, 0x01010000, 0x01010000, 0x01000404,
     0x00010004, 0x01000004, 0x01000004, 0x00010004, 0x00000000, 0x00000404, 0x00010404, 0x01000000,
     0x00010000, 0x01010404, 0x00000004, 0x01010000, 0x01010400, 0x01000000, 0x01000000, 0x00000400,
     0x01010004, 0x00010000, 0x00010400, 0x01000004, 0x00000400, 0x00000004, 0x01000404, 0x00010404,
     0x01010404, 0x00010004, 0x01010000, 0x01000404, 0x01000004, 0x00000404, 0x00010404, 0x01010400,
     0x00000404, 0x01000400, 0x01000400, 0x00000000, 0x00010004, 0x00010400, 0x00000000, 0x01010004]"

definition DES_SPBOX2 :: "u32bit list" where
  "DES_SPBOX2 = [
     0x80108020, 0x80008000, 0x00008000, 0x00108020, 0x00100000, 0x00000020, 0x80100020, 0x80008020,
     0x80000020, 0x80108020, 0x80108000, 0x80000000, 0x80008000, 0x00100000, 0x00000020, 0x80100020,
     0x00108000, 0x00100020, 0x80008020, 0x00000000, 0x80000000, 0x00008000, 0x00108020, 0x80100000,
     0x00100020, 0x80000020, 0x00000000, 0x00108000, 0x00008020, 0x80108000, 0x80100000, 0x00008020,
     0x00000000, 0x00108020, 0x80100020, 0x00100000, 0x80008020, 0x80100000, 0x80108000, 0x00008000,
     0x80100000, 0x80008000, 0x00000020, 0x80108020, 0x00108020, 0x00000020, 0x00008000, 0x80000000,
     0x00008020, 0x80108000, 0x00100000, 0x80000020, 0x00100020, 0x80008020, 0x80000020, 0x00100020,
     0x00108000, 0x00000000, 0x80008000, 0x00008020, 0x80000000, 0x80100020, 0x80108020, 0x00108000,
     0x80108020, 0x80008000, 0x00008000, 0x00108020, 0x00100000, 0x00000020, 0x80100020, 0x80008020,
     0x80000020, 0x80108020, 0x80108000, 0x80000000, 0x80008000, 0x00100000, 0x00000020, 0x80100020,
     0x00108000, 0x00100020, 0x80008020, 0x00000000, 0x80000000, 0x00008000, 0x00108020, 0x80100000,
     0x00100020, 0x80000020, 0x00000000, 0x00108000, 0x00008020, 0x80108000, 0x80100000, 0x00008020,
     0x00000000, 0x00108020, 0x80100020, 0x00100000, 0x80008020, 0x80100000, 0x80108000, 0x00008000,
     0x80100000, 0x80008000, 0x00000020, 0x80108020, 0x00108020, 0x00000020, 0x00008000, 0x80000000,
     0x00008020, 0x80108000, 0x00100000, 0x80000020, 0x00100020, 0x80008020, 0x80000020, 0x00100020,
     0x00108000, 0x00000000, 0x80008000, 0x00008020, 0x80000000, 0x80100020, 0x80108020, 0x00108000,
     0x80108020, 0x80008000, 0x00008000, 0x00108020, 0x00100000, 0x00000020, 0x80100020, 0x80008020,
     0x80000020, 0x80108020, 0x80108000, 0x80000000, 0x80008000, 0x00100000, 0x00000020, 0x80100020,
     0x00108000, 0x00100020, 0x80008020, 0x00000000, 0x80000000, 0x00008000, 0x00108020, 0x80100000,
     0x00100020, 0x80000020, 0x00000000, 0x00108000, 0x00008020, 0x80108000, 0x80100000, 0x00008020,
     0x00000000, 0x00108020, 0x80100020, 0x00100000, 0x80008020, 0x80100000, 0x80108000, 0x00008000,
     0x80100000, 0x80008000, 0x00000020, 0x80108020, 0x00108020, 0x00000020, 0x00008000, 0x80000000,
     0x00008020, 0x80108000, 0x00100000, 0x80000020, 0x00100020, 0x80008020, 0x80000020, 0x00100020,
     0x00108000, 0x00000000, 0x80008000, 0x00008020, 0x80000000, 0x80100020, 0x80108020, 0x00108000,
     0x80108020, 0x80008000, 0x00008000, 0x00108020, 0x00100000, 0x00000020, 0x80100020, 0x80008020,
     0x80000020, 0x80108020, 0x80108000, 0x80000000, 0x80008000, 0x00100000, 0x00000020, 0x80100020,
     0x00108000, 0x00100020, 0x80008020, 0x00000000, 0x80000000, 0x00008000, 0x00108020, 0x80100000,
     0x00100020, 0x80000020, 0x00000000, 0x00108000, 0x00008020, 0x80108000, 0x80100000, 0x00008020,
     0x00000000, 0x00108020, 0x80100020, 0x00100000, 0x80008020, 0x80100000, 0x80108000, 0x00008000,
     0x80100000, 0x80008000, 0x00000020, 0x80108020, 0x00108020, 0x00000020, 0x00008000, 0x80000000,
     0x00008020, 0x80108000, 0x00100000, 0x80000020, 0x00100020, 0x80008020, 0x80000020, 0x00100020,
     0x00108000, 0x00000000, 0x80008000, 0x00008020, 0x80000000, 0x80100020, 0x80108020, 0x00108000]"

definition DES_SPBOX3 :: "u32bit list" where
  "DES_SPBOX3 = [
     0x00000208, 0x08020200, 0x00000000, 0x08020008, 0x08000200, 0x00000000, 0x00020208, 0x08000200,
     0x00020008, 0x08000008, 0x08000008, 0x00020000, 0x08020208, 0x00020008, 0x08020000, 0x00000208,
     0x08000000, 0x00000008, 0x08020200, 0x00000200, 0x00020200, 0x08020000, 0x08020008, 0x00020208,
     0x08000208, 0x00020200, 0x00020000, 0x08000208, 0x00000008, 0x08020208, 0x00000200, 0x08000000,
     0x08020200, 0x08000000, 0x00020008, 0x00000208, 0x00020000, 0x08020200, 0x08000200, 0x00000000,
     0x00000200, 0x00020008, 0x08020208, 0x08000200, 0x08000008, 0x00000200, 0x00000000, 0x08020008,
     0x08000208, 0x00020000, 0x08000000, 0x08020208, 0x00000008, 0x00020208, 0x00020200, 0x08000008,
     0x08020000, 0x08000208, 0x00000208, 0x08020000, 0x00020208, 0x00000008, 0x08020008, 0x00020200,
     0x00000208, 0x08020200, 0x00000000, 0x08020008, 0x08000200, 0x00000000, 0x00020208, 0x08000200,
     0x00020008, 0x08000008, 0x08000008, 0x00020000, 0x08020208, 0x00020008, 0x08020000, 0x00000208,
     0x08000000, 0x00000008, 0x08020200, 0x00000200, 0x00020200, 0x08020000, 0x08020008, 0x00020208,
     0x08000208, 0x00020200, 0x00020000, 0x08000208, 0x00000008, 0x08020208, 0x00000200, 0x08000000,
     0x08020200, 0x08000000, 0x00020008, 0x00000208, 0x00020000, 0x08020200, 0x08000200, 0x00000000,
     0x00000200, 0x00020008, 0x08020208, 0x08000200, 0x08000008, 0x00000200, 0x00000000, 0x08020008,
     0x08000208, 0x00020000, 0x08000000, 0x08020208, 0x00000008, 0x00020208, 0x00020200, 0x08000008,
     0x08020000, 0x08000208, 0x00000208, 0x08020000, 0x00020208, 0x00000008, 0x08020008, 0x00020200,
     0x00000208, 0x08020200, 0x00000000, 0x08020008, 0x08000200, 0x00000000, 0x00020208, 0x08000200,
     0x00020008, 0x08000008, 0x08000008, 0x00020000, 0x08020208, 0x00020008, 0x08020000, 0x00000208,
     0x08000000, 0x00000008, 0x08020200, 0x00000200, 0x00020200, 0x08020000, 0x08020008, 0x00020208,
     0x08000208, 0x00020200, 0x00020000, 0x08000208, 0x00000008, 0x08020208, 0x00000200, 0x08000000,
     0x08020200, 0x08000000, 0x00020008, 0x00000208, 0x00020000, 0x08020200, 0x08000200, 0x00000000,
     0x00000200, 0x00020008, 0x08020208, 0x08000200, 0x08000008, 0x00000200, 0x00000000, 0x08020008,
     0x08000208, 0x00020000, 0x08000000, 0x08020208, 0x00000008, 0x00020208, 0x00020200, 0x08000008,
     0x08020000, 0x08000208, 0x00000208, 0x08020000, 0x00020208, 0x00000008, 0x08020008, 0x00020200,
     0x00000208, 0x08020200, 0x00000000, 0x08020008, 0x08000200, 0x00000000, 0x00020208, 0x08000200,
     0x00020008, 0x08000008, 0x08000008, 0x00020000, 0x08020208, 0x00020008, 0x08020000, 0x00000208,
     0x08000000, 0x00000008, 0x08020200, 0x00000200, 0x00020200, 0x08020000, 0x08020008, 0x00020208,
     0x08000208, 0x00020200, 0x00020000, 0x08000208, 0x00000008, 0x08020208, 0x00000200, 0x08000000,
     0x08020200, 0x08000000, 0x00020008, 0x00000208, 0x00020000, 0x08020200, 0x08000200, 0x00000000,
     0x00000200, 0x00020008, 0x08020208, 0x08000200, 0x08000008, 0x00000200, 0x00000000, 0x08020008,
     0x08000208, 0x00020000, 0x08000000, 0x08020208, 0x00000008, 0x00020208, 0x00020200, 0x08000008,
     0x08020000, 0x08000208, 0x00000208, 0x08020000, 0x00020208, 0x00000008, 0x08020008, 0x00020200]"

definition DES_SPBOX4 :: "u32bit list" where
  "DES_SPBOX4 = [
     0x00802001, 0x00002081, 0x00002081, 0x00000080, 0x00802080, 0x00800081, 0x00800001, 0x00002001,
     0x00000000, 0x00802000, 0x00802000, 0x00802081, 0x00000081, 0x00000000, 0x00800080, 0x00800001,
     0x00000001, 0x00002000, 0x00800000, 0x00802001, 0x00000080, 0x00800000, 0x00002001, 0x00002080,
     0x00800081, 0x00000001, 0x00002080, 0x00800080, 0x00002000, 0x00802080, 0x00802081, 0x00000081,
     0x00800080, 0x00800001, 0x00802000, 0x00802081, 0x00000081, 0x00000000, 0x00000000, 0x00802000,
     0x00002080, 0x00800080, 0x00800081, 0x00000001, 0x00802001, 0x00002081, 0x00002081, 0x00000080,
     0x00802081, 0x00000081, 0x00000001, 0x00002000, 0x00800001, 0x00002001, 0x00802080, 0x00800081,
     0x00002001, 0x00002080, 0x00800000, 0x00802001, 0x00000080, 0x00800000, 0x00002000, 0x00802080,
     0x00802001, 0x00002081, 0x00002081, 0x00000080, 0x00802080, 0x00800081, 0x00800001, 0x00002001,
     0x00000000, 0x00802000, 0x00802000, 0x00802081, 0x00000081, 0x00000000, 0x00800080, 0x00800001,
     0x00000001, 0x00002000, 0x00800000, 0x00802001, 0x00000080, 0x00800000, 0x00002001, 0x00002080,
     0x00800081, 0x00000001, 0x00002080, 0x00800080, 0x00002000, 0x00802080, 0x00802081, 0x00000081,
     0x00800080, 0x00800001, 0x00802000, 0x00802081, 0x00000081, 0x00000000, 0x00000000, 0x00802000,
     0x00002080, 0x00800080, 0x00800081, 0x00000001, 0x00802001, 0x00002081, 0x00002081, 0x00000080,
     0x00802081, 0x00000081, 0x00000001, 0x00002000, 0x00800001, 0x00002001, 0x00802080, 0x00800081,
     0x00002001, 0x00002080, 0x00800000, 0x00802001, 0x00000080, 0x00800000, 0x00002000, 0x00802080,
     0x00802001, 0x00002081, 0x00002081, 0x00000080, 0x00802080, 0x00800081, 0x00800001, 0x00002001,
     0x00000000, 0x00802000, 0x00802000, 0x00802081, 0x00000081, 0x00000000, 0x00800080, 0x00800001,
     0x00000001, 0x00002000, 0x00800000, 0x00802001, 0x00000080, 0x00800000, 0x00002001, 0x00002080,
     0x00800081, 0x00000001, 0x00002080, 0x00800080, 0x00002000, 0x00802080, 0x00802081, 0x00000081,
     0x00800080, 0x00800001, 0x00802000, 0x00802081, 0x00000081, 0x00000000, 0x00000000, 0x00802000,
     0x00002080, 0x00800080, 0x00800081, 0x00000001, 0x00802001, 0x00002081, 0x00002081, 0x00000080,
     0x00802081, 0x00000081, 0x00000001, 0x00002000, 0x00800001, 0x00002001, 0x00802080, 0x00800081,
     0x00002001, 0x00002080, 0x00800000, 0x00802001, 0x00000080, 0x00800000, 0x00002000, 0x00802080,
     0x00802001, 0x00002081, 0x00002081, 0x00000080, 0x00802080, 0x00800081, 0x00800001, 0x00002001,
     0x00000000, 0x00802000, 0x00802000, 0x00802081, 0x00000081, 0x00000000, 0x00800080, 0x00800001,
     0x00000001, 0x00002000, 0x00800000, 0x00802001, 0x00000080, 0x00800000, 0x00002001, 0x00002080,
     0x00800081, 0x00000001, 0x00002080, 0x00800080, 0x00002000, 0x00802080, 0x00802081, 0x00000081,
     0x00800080, 0x00800001, 0x00802000, 0x00802081, 0x00000081, 0x00000000, 0x00000000, 0x00802000,
     0x00002080, 0x00800080, 0x00800081, 0x00000001, 0x00802001, 0x00002081, 0x00002081, 0x00000080,
     0x00802081, 0x00000081, 0x00000001, 0x00002000, 0x00800001, 0x00002001, 0x00802080, 0x00800081,
     0x00002001, 0x00002080, 0x00800000, 0x00802001, 0x00000080, 0x00800000, 0x00002000, 0x00802080]"

definition DES_SPBOX5 :: "u32bit list" where
  "DES_SPBOX5 = [
     0x00000100, 0x02080100, 0x02080000, 0x42000100, 0x00080000, 0x00000100, 0x40000000, 0x02080000,
     0x40080100, 0x00080000, 0x02000100, 0x40080100, 0x42000100, 0x42080000, 0x00080100, 0x40000000,
     0x02000000, 0x40080000, 0x40080000, 0x00000000, 0x40000100, 0x42080100, 0x42080100, 0x02000100,
     0x42080000, 0x40000100, 0x00000000, 0x42000000, 0x02080100, 0x02000000, 0x42000000, 0x00080100,
     0x00080000, 0x42000100, 0x00000100, 0x02000000, 0x40000000, 0x02080000, 0x42000100, 0x40080100,
     0x02000100, 0x40000000, 0x42080000, 0x02080100, 0x40080100, 0x00000100, 0x02000000, 0x42080000,
     0x42080100, 0x00080100, 0x42000000, 0x42080100, 0x02080000, 0x00000000, 0x40080000, 0x42000000,
     0x00080100, 0x02000100, 0x40000100, 0x00080000, 0x00000000, 0x40080000, 0x02080100, 0x40000100,
     0x00000100, 0x02080100, 0x02080000, 0x42000100, 0x00080000, 0x00000100, 0x40000000, 0x02080000,
     0x40080100, 0x00080000, 0x02000100, 0x40080100, 0x42000100, 0x42080000, 0x00080100, 0x40000000,
     0x02000000, 0x40080000, 0x40080000, 0x00000000, 0x40000100, 0x42080100, 0x42080100, 0x02000100,
     0x42080000, 0x40000100, 0x00000000, 0x42000000, 0x02080100, 0x02000000, 0x42000000, 0x00080100,
     0x00080000, 0x42000100, 0x00000100, 0x02000000, 0x40000000, 0x02080000, 0x42000100, 0x40080100,
     0x02000100, 0x40000000, 0x42080000, 0x02080100, 0x40080100, 0x00000100, 0x02000000, 0x42080000,
     0x42080100, 0x00080100, 0x42000000, 0x42080100, 0x02080000, 0x00000000, 0x40080000, 0x42000000,
     0x00080100, 0x02000100, 0x40000100, 0x00080000, 0x00000000, 0x40080000, 0x02080100, 0x40000100,
     0x00000100, 0x02080100, 0x02080000, 0x42000100, 0x00080000, 0x00000100, 0x40000000, 0x02080000,
     0x40080100, 0x00080000, 0x02000100, 0x40080100, 0x42000100, 0x42080000, 0x00080100, 0x40000000,
     0x02000000, 0x40080000, 0x40080000, 0x00000000, 0x40000100, 0x42080100, 0x42080100, 0x02000100,
     0x42080000, 0x40000100, 0x00000000, 0x42000000, 0x02080100, 0x02000000, 0x42000000, 0x00080100,
     0x00080000, 0x42000100, 0x00000100, 0x02000000, 0x40000000, 0x02080000, 0x42000100, 0x40080100,
     0x02000100, 0x40000000, 0x42080000, 0x02080100, 0x40080100, 0x00000100, 0x02000000, 0x42080000,
     0x42080100, 0x00080100, 0x42000000, 0x42080100, 0x02080000, 0x00000000, 0x40080000, 0x42000000,
     0x00080100, 0x02000100, 0x40000100, 0x00080000, 0x00000000, 0x40080000, 0x02080100, 0x40000100,
     0x00000100, 0x02080100, 0x02080000, 0x42000100, 0x00080000, 0x00000100, 0x40000000, 0x02080000,
     0x40080100, 0x00080000, 0x02000100, 0x40080100, 0x42000100, 0x42080000, 0x00080100, 0x40000000,
     0x02000000, 0x40080000, 0x40080000, 0x00000000, 0x40000100, 0x42080100, 0x42080100, 0x02000100,
     0x42080000, 0x40000100, 0x00000000, 0x42000000, 0x02080100, 0x02000000, 0x42000000, 0x00080100,
     0x00080000, 0x42000100, 0x00000100, 0x02000000, 0x40000000, 0x02080000, 0x42000100, 0x40080100,
     0x02000100, 0x40000000, 0x42080000, 0x02080100, 0x40080100, 0x00000100, 0x02000000, 0x42080000,
     0x42080100, 0x00080100, 0x42000000, 0x42080100, 0x02080000, 0x00000000, 0x40080000, 0x42000000,
     0x00080100, 0x02000100, 0x40000100, 0x00080000, 0x00000000, 0x40080000, 0x02080100, 0x40000100]"

definition DES_SPBOX6 :: "u32bit list" where
  "DES_SPBOX6 = [
     0x20000010, 0x20400000, 0x00004000, 0x20404010, 0x20400000, 0x00000010, 0x20404010, 0x00400000,
     0x20004000, 0x00404010, 0x00400000, 0x20000010, 0x00400010, 0x20004000, 0x20000000, 0x00004010,
     0x00000000, 0x00400010, 0x20004010, 0x00004000, 0x00404000, 0x20004010, 0x00000010, 0x20400010,
     0x20400010, 0x00000000, 0x00404010, 0x20404000, 0x00004010, 0x00404000, 0x20404000, 0x20000000,
     0x20004000, 0x00000010, 0x20400010, 0x00404000, 0x20404010, 0x00400000, 0x00004010, 0x20000010,
     0x00400000, 0x20004000, 0x20000000, 0x00004010, 0x20000010, 0x20404010, 0x00404000, 0x20400000,
     0x00404010, 0x20404000, 0x00000000, 0x20400010, 0x00000010, 0x00004000, 0x20400000, 0x00404010,
     0x00004000, 0x00400010, 0x20004010, 0x00000000, 0x20404000, 0x20000000, 0x00400010, 0x20004010,
     0x20000010, 0x20400000, 0x00004000, 0x20404010, 0x20400000, 0x00000010, 0x20404010, 0x00400000,
     0x20004000, 0x00404010, 0x00400000, 0x20000010, 0x00400010, 0x20004000, 0x20000000, 0x00004010,
     0x00000000, 0x00400010, 0x20004010, 0x00004000, 0x00404000, 0x20004010, 0x00000010, 0x20400010,
     0x20400010, 0x00000000, 0x00404010, 0x20404000, 0x00004010, 0x00404000, 0x20404000, 0x20000000,
     0x20004000, 0x00000010, 0x20400010, 0x00404000, 0x20404010, 0x00400000, 0x00004010, 0x20000010,
     0x00400000, 0x20004000, 0x20000000, 0x00004010, 0x20000010, 0x20404010, 0x00404000, 0x20400000,
     0x00404010, 0x20404000, 0x00000000, 0x20400010, 0x00000010, 0x00004000, 0x20400000, 0x00404010,
     0x00004000, 0x00400010, 0x20004010, 0x00000000, 0x20404000, 0x20000000, 0x00400010, 0x20004010,
     0x20000010, 0x20400000, 0x00004000, 0x20404010, 0x20400000, 0x00000010, 0x20404010, 0x00400000,
     0x20004000, 0x00404010, 0x00400000, 0x20000010, 0x00400010, 0x20004000, 0x20000000, 0x00004010,
     0x00000000, 0x00400010, 0x20004010, 0x00004000, 0x00404000, 0x20004010, 0x00000010, 0x20400010,
     0x20400010, 0x00000000, 0x00404010, 0x20404000, 0x00004010, 0x00404000, 0x20404000, 0x20000000,
     0x20004000, 0x00000010, 0x20400010, 0x00404000, 0x20404010, 0x00400000, 0x00004010, 0x20000010,
     0x00400000, 0x20004000, 0x20000000, 0x00004010, 0x20000010, 0x20404010, 0x00404000, 0x20400000,
     0x00404010, 0x20404000, 0x00000000, 0x20400010, 0x00000010, 0x00004000, 0x20400000, 0x00404010,
     0x00004000, 0x00400010, 0x20004010, 0x00000000, 0x20404000, 0x20000000, 0x00400010, 0x20004010,
     0x20000010, 0x20400000, 0x00004000, 0x20404010, 0x20400000, 0x00000010, 0x20404010, 0x00400000,
     0x20004000, 0x00404010, 0x00400000, 0x20000010, 0x00400010, 0x20004000, 0x20000000, 0x00004010,
     0x00000000, 0x00400010, 0x20004010, 0x00004000, 0x00404000, 0x20004010, 0x00000010, 0x20400010,
     0x20400010, 0x00000000, 0x00404010, 0x20404000, 0x00004010, 0x00404000, 0x20404000, 0x20000000,
     0x20004000, 0x00000010, 0x20400010, 0x00404000, 0x20404010, 0x00400000, 0x00004010, 0x20000010,
     0x00400000, 0x20004000, 0x20000000, 0x00004010, 0x20000010, 0x20404010, 0x00404000, 0x20400000,
     0x00404010, 0x20404000, 0x00000000, 0x20400010, 0x00000010, 0x00004000, 0x20400000, 0x00404010,
     0x00004000, 0x00400010, 0x20004010, 0x00000000, 0x20404000, 0x20000000, 0x00400010, 0x20004010]"

definition DES_SPBOX7 :: "u32bit list" where
  "DES_SPBOX7 = [
     0x00200000, 0x04200002, 0x04000802, 0x00000000, 0x00000800, 0x04000802, 0x00200802, 0x04200800,
     0x04200802, 0x00200000, 0x00000000, 0x04000002, 0x00000002, 0x04000000, 0x04200002, 0x00000802,
     0x04000800, 0x00200802, 0x00200002, 0x04000800, 0x04000002, 0x04200000, 0x04200800, 0x00200002,
     0x04200000, 0x00000800, 0x00000802, 0x04200802, 0x00200800, 0x00000002, 0x04000000, 0x00200800,
     0x04000000, 0x00200800, 0x00200000, 0x04000802, 0x04000802, 0x04200002, 0x04200002, 0x00000002,
     0x00200002, 0x04000000, 0x04000800, 0x00200000, 0x04200800, 0x00000802, 0x00200802, 0x04200800,
     0x00000802, 0x04000002, 0x04200802, 0x04200000, 0x00200800, 0x00000000, 0x00000002, 0x04200802,
     0x00000000, 0x00200802, 0x04200000, 0x00000800, 0x04000002, 0x04000800, 0x00000800, 0x00200002,
     0x00200000, 0x04200002, 0x04000802, 0x00000000, 0x00000800, 0x04000802, 0x00200802, 0x04200800,
     0x04200802, 0x00200000, 0x00000000, 0x04000002, 0x00000002, 0x04000000, 0x04200002, 0x00000802,
     0x04000800, 0x00200802, 0x00200002, 0x04000800, 0x04000002, 0x04200000, 0x04200800, 0x00200002,
     0x04200000, 0x00000800, 0x00000802, 0x04200802, 0x00200800, 0x00000002, 0x04000000, 0x00200800,
     0x04000000, 0x00200800, 0x00200000, 0x04000802, 0x04000802, 0x04200002, 0x04200002, 0x00000002,
     0x00200002, 0x04000000, 0x04000800, 0x00200000, 0x04200800, 0x00000802, 0x00200802, 0x04200800,
     0x00000802, 0x04000002, 0x04200802, 0x04200000, 0x00200800, 0x00000000, 0x00000002, 0x04200802,
     0x00000000, 0x00200802, 0x04200000, 0x00000800, 0x04000002, 0x04000800, 0x00000800, 0x00200002,
     0x00200000, 0x04200002, 0x04000802, 0x00000000, 0x00000800, 0x04000802, 0x00200802, 0x04200800,
     0x04200802, 0x00200000, 0x00000000, 0x04000002, 0x00000002, 0x04000000, 0x04200002, 0x00000802,
     0x04000800, 0x00200802, 0x00200002, 0x04000800, 0x04000002, 0x04200000, 0x04200800, 0x00200002,
     0x04200000, 0x00000800, 0x00000802, 0x04200802, 0x00200800, 0x00000002, 0x04000000, 0x00200800,
     0x04000000, 0x00200800, 0x00200000, 0x04000802, 0x04000802, 0x04200002, 0x04200002, 0x00000002,
     0x00200002, 0x04000000, 0x04000800, 0x00200000, 0x04200800, 0x00000802, 0x00200802, 0x04200800,
     0x00000802, 0x04000002, 0x04200802, 0x04200000, 0x00200800, 0x00000000, 0x00000002, 0x04200802,
     0x00000000, 0x00200802, 0x04200000, 0x00000800, 0x04000002, 0x04000800, 0x00000800, 0x00200002,
     0x00200000, 0x04200002, 0x04000802, 0x00000000, 0x00000800, 0x04000802, 0x00200802, 0x04200800,
     0x04200802, 0x00200000, 0x00000000, 0x04000002, 0x00000002, 0x04000000, 0x04200002, 0x00000802,
     0x04000800, 0x00200802, 0x00200002, 0x04000800, 0x04000002, 0x04200000, 0x04200800, 0x00200002,
     0x04200000, 0x00000800, 0x00000802, 0x04200802, 0x00200800, 0x00000002, 0x04000000, 0x00200800,
     0x04000000, 0x00200800, 0x00200000, 0x04000802, 0x04000802, 0x04200002, 0x04200002, 0x00000002,
     0x00200002, 0x04000000, 0x04000800, 0x00200000, 0x04200800, 0x00000802, 0x00200802, 0x04200800,
     0x00000802, 0x04000002, 0x04200802, 0x04200000, 0x00200800, 0x00000000, 0x00000002, 0x04200802,
     0x00000000, 0x00200802, 0x04200000, 0x00000800, 0x04000002, 0x04000800, 0x00000800, 0x00200002]"

definition DES_SPBOX8 :: "u32bit list" where
  "DES_SPBOX8 = [
     0x10001040, 0x00001000, 0x00040000, 0x10041040, 0x10000000, 0x10001040, 0x00000040, 0x10000000,
     0x00040040, 0x10040000, 0x10041040, 0x00041000, 0x10041000, 0x00041040, 0x00001000, 0x00000040,
     0x10040000, 0x10000040, 0x10001000, 0x00001040, 0x00041000, 0x00040040, 0x10040040, 0x10041000,
     0x00001040, 0x00000000, 0x00000000, 0x10040040, 0x10000040, 0x10001000, 0x00041040, 0x00040000,
     0x00041040, 0x00040000, 0x10041000, 0x00001000, 0x00000040, 0x10040040, 0x00001000, 0x00041040,
     0x10001000, 0x00000040, 0x10000040, 0x10040000, 0x10040040, 0x10000000, 0x00040000, 0x10001040,
     0x00000000, 0x10041040, 0x00040040, 0x10000040, 0x10040000, 0x10001000, 0x10001040, 0x00000000,
     0x10041040, 0x00041000, 0x00041000, 0x00001040, 0x00001040, 0x00040040, 0x10000000, 0x10041000,
     0x10001040, 0x00001000, 0x00040000, 0x10041040, 0x10000000, 0x10001040, 0x00000040, 0x10000000,
     0x00040040, 0x10040000, 0x10041040, 0x00041000, 0x10041000, 0x00041040, 0x00001000, 0x00000040,
     0x10040000, 0x10000040, 0x10001000, 0x00001040, 0x00041000, 0x00040040, 0x10040040, 0x10041000,
     0x00001040, 0x00000000, 0x00000000, 0x10040040, 0x10000040, 0x10001000, 0x00041040, 0x00040000,
     0x00041040, 0x00040000, 0x10041000, 0x00001000, 0x00000040, 0x10040040, 0x00001000, 0x00041040,
     0x10001000, 0x00000040, 0x10000040, 0x10040000, 0x10040040, 0x10000000, 0x00040000, 0x10001040,
     0x00000000, 0x10041040, 0x00040040, 0x10000040, 0x10040000, 0x10001000, 0x10001040, 0x00000000,
     0x10041040, 0x00041000, 0x00041000, 0x00001040, 0x00001040, 0x00040040, 0x10000000, 0x10041000,
     0x10001040, 0x00001000, 0x00040000, 0x10041040, 0x10000000, 0x10001040, 0x00000040, 0x10000000,
     0x00040040, 0x10040000, 0x10041040, 0x00041000, 0x10041000, 0x00041040, 0x00001000, 0x00000040,
     0x10040000, 0x10000040, 0x10001000, 0x00001040, 0x00041000, 0x00040040, 0x10040040, 0x10041000,
     0x00001040, 0x00000000, 0x00000000, 0x10040040, 0x10000040, 0x10001000, 0x00041040, 0x00040000,
     0x00041040, 0x00040000, 0x10041000, 0x00001000, 0x00000040, 0x10040040, 0x00001000, 0x00041040,
     0x10001000, 0x00000040, 0x10000040, 0x10040000, 0x10040040, 0x10000000, 0x00040000, 0x10001040,
     0x00000000, 0x10041040, 0x00040040, 0x10000040, 0x10040000, 0x10001000, 0x10001040, 0x00000000,
     0x10041040, 0x00041000, 0x00041000, 0x00001040, 0x00001040, 0x00040040, 0x10000000, 0x10041000,
     0x10001040, 0x00001000, 0x00040000, 0x10041040, 0x10000000, 0x10001040, 0x00000040, 0x10000000,
     0x00040040, 0x10040000, 0x10041040, 0x00041000, 0x10041000, 0x00041040, 0x00001000, 0x00000040,
     0x10040000, 0x10000040, 0x10001000, 0x00001040, 0x00041000, 0x00040040, 0x10040040, 0x10041000,
     0x00001040, 0x00000000, 0x00000000, 0x10040040, 0x10000040, 0x10001000, 0x00041040, 0x00040000,
     0x00041040, 0x00040000, 0x10041000, 0x00001000, 0x00000040, 0x10040040, 0x00001000, 0x00041040,
     0x10001000, 0x00000040, 0x10000040, 0x10040000, 0x10040040, 0x10000000, 0x00040000, 0x10001040,
     0x00000000, 0x10041040, 0x00040040, 0x10000040, 0x10040000, 0x10001000, 0x10001040, 0x00000000,
     0x10041040, 0x00041000, 0x00041000, 0x00001040, 0x00001040, 0x00040040, 0x10000000, 0x10041000]"

definition DES_IPTAB1 :: "u64bit list" where
  "DES_IPTAB1 = [
     0x0000000000000000, 0x0000000200000000, 0x0000000000000002, 0x0000000200000002,
     0x0000020000000000, 0x0000020200000000, 0x0000020000000002, 0x0000020200000002,
     0x0000000000000200, 0x0000000200000200, 0x0000000000000202, 0x0000000200000202,
     0x0000020000000200, 0x0000020200000200, 0x0000020000000202, 0x0000020200000202,
     0x0002000000000000, 0x0002000200000000, 0x0002000000000002, 0x0002000200000002,
     0x0002020000000000, 0x0002020200000000, 0x0002020000000002, 0x0002020200000002,
     0x0002000000000200, 0x0002000200000200, 0x0002000000000202, 0x0002000200000202,
     0x0002020000000200, 0x0002020200000200, 0x0002020000000202, 0x0002020200000202,
     0x0000000000020000, 0x0000000200020000, 0x0000000000020002, 0x0000000200020002,
     0x0000020000020000, 0x0000020200020000, 0x0000020000020002, 0x0000020200020002,
     0x0000000000020200, 0x0000000200020200, 0x0000000000020202, 0x0000000200020202,
     0x0000020000020200, 0x0000020200020200, 0x0000020000020202, 0x0000020200020202,
     0x0002000000020000, 0x0002000200020000, 0x0002000000020002, 0x0002000200020002,
     0x0002020000020000, 0x0002020200020000, 0x0002020000020002, 0x0002020200020002,
     0x0002000000020200, 0x0002000200020200, 0x0002000000020202, 0x0002000200020202,
     0x0002020000020200, 0x0002020200020200, 0x0002020000020202, 0x0002020200020202,
     0x0200000000000000, 0x0200000200000000, 0x0200000000000002, 0x0200000200000002,
     0x0200020000000000, 0x0200020200000000, 0x0200020000000002, 0x0200020200000002,
     0x0200000000000200, 0x0200000200000200, 0x0200000000000202, 0x0200000200000202,
     0x0200020000000200, 0x0200020200000200, 0x0200020000000202, 0x0200020200000202,
     0x0202000000000000, 0x0202000200000000, 0x0202000000000002, 0x0202000200000002,
     0x0202020000000000, 0x0202020200000000, 0x0202020000000002, 0x0202020200000002,
     0x0202000000000200, 0x0202000200000200, 0x0202000000000202, 0x0202000200000202,
     0x0202020000000200, 0x0202020200000200, 0x0202020000000202, 0x0202020200000202,
     0x0200000000020000, 0x0200000200020000, 0x0200000000020002, 0x0200000200020002,
     0x0200020000020000, 0x0200020200020000, 0x0200020000020002, 0x0200020200020002,
     0x0200000000020200, 0x0200000200020200, 0x0200000000020202, 0x0200000200020202,
     0x0200020000020200, 0x0200020200020200, 0x0200020000020202, 0x0200020200020202,
     0x0202000000020000, 0x0202000200020000, 0x0202000000020002, 0x0202000200020002,
     0x0202020000020000, 0x0202020200020000, 0x0202020000020002, 0x0202020200020002,
     0x0202000000020200, 0x0202000200020200, 0x0202000000020202, 0x0202000200020202,
     0x0202020000020200, 0x0202020200020200, 0x0202020000020202, 0x0202020200020202,
     0x0000000002000000, 0x0000000202000000, 0x0000000002000002, 0x0000000202000002,
     0x0000020002000000, 0x0000020202000000, 0x0000020002000002, 0x0000020202000002,
     0x0000000002000200, 0x0000000202000200, 0x0000000002000202, 0x0000000202000202,
     0x0000020002000200, 0x0000020202000200, 0x0000020002000202, 0x0000020202000202,
     0x0002000002000000, 0x0002000202000000, 0x0002000002000002, 0x0002000202000002,
     0x0002020002000000, 0x0002020202000000, 0x0002020002000002, 0x0002020202000002,
     0x0002000002000200, 0x0002000202000200, 0x0002000002000202, 0x0002000202000202,
     0x0002020002000200, 0x0002020202000200, 0x0002020002000202, 0x0002020202000202,
     0x0000000002020000, 0x0000000202020000, 0x0000000002020002, 0x0000000202020002,
     0x0000020002020000, 0x0000020202020000, 0x0000020002020002, 0x0000020202020002,
     0x0000000002020200, 0x0000000202020200, 0x0000000002020202, 0x0000000202020202,
     0x0000020002020200, 0x0000020202020200, 0x0000020002020202, 0x0000020202020202,
     0x0002000002020000, 0x0002000202020000, 0x0002000002020002, 0x0002000202020002,
     0x0002020002020000, 0x0002020202020000, 0x0002020002020002, 0x0002020202020002,
     0x0002000002020200, 0x0002000202020200, 0x0002000002020202, 0x0002000202020202,
     0x0002020002020200, 0x0002020202020200, 0x0002020002020202, 0x0002020202020202,
     0x0200000002000000, 0x0200000202000000, 0x0200000002000002, 0x0200000202000002,
     0x0200020002000000, 0x0200020202000000, 0x0200020002000002, 0x0200020202000002,
     0x0200000002000200, 0x0200000202000200, 0x0200000002000202, 0x0200000202000202,
     0x0200020002000200, 0x0200020202000200, 0x0200020002000202, 0x0200020202000202,
     0x0202000002000000, 0x0202000202000000, 0x0202000002000002, 0x0202000202000002,
     0x0202020002000000, 0x0202020202000000, 0x0202020002000002, 0x0202020202000002,
     0x0202000002000200, 0x0202000202000200, 0x0202000002000202, 0x0202000202000202,
     0x0202020002000200, 0x0202020202000200, 0x0202020002000202, 0x0202020202000202,
     0x0200000002020000, 0x0200000202020000, 0x0200000002020002, 0x0200000202020002,
     0x0200020002020000, 0x0200020202020000, 0x0200020002020002, 0x0200020202020002,
     0x0200000002020200, 0x0200000202020200, 0x0200000002020202, 0x0200000202020202,
     0x0200020002020200, 0x0200020202020200, 0x0200020002020202, 0x0200020202020202,
     0x0202000002020000, 0x0202000202020000, 0x0202000002020002, 0x0202000202020002,
     0x0202020002020000, 0x0202020202020000, 0x0202020002020002, 0x0202020202020002,
     0x0202000002020200, 0x0202000202020200, 0x0202000002020202, 0x0202000202020202,
     0x0202020002020200, 0x0202020202020200, 0x0202020002020202, 0x0202020202020202]"

definition DES_IPTAB2 :: "u64bit list" where
  "DES_IPTAB2 = [
     0x0000000000000000, 0x0000010000000000, 0x0000000000000100, 0x0000010000000100,
     0x0001000000000000, 0x0001010000000000, 0x0001000000000100, 0x0001010000000100,
     0x0000000000010000, 0x0000010000010000, 0x0000000000010100, 0x0000010000010100,
     0x0001000000010000, 0x0001010000010000, 0x0001000000010100, 0x0001010000010100,
     0x0100000000000000, 0x0100010000000000, 0x0100000000000100, 0x0100010000000100,
     0x0101000000000000, 0x0101010000000000, 0x0101000000000100, 0x0101010000000100,
     0x0100000000010000, 0x0100010000010000, 0x0100000000010100, 0x0100010000010100,
     0x0101000000010000, 0x0101010000010000, 0x0101000000010100, 0x0101010000010100,
     0x0000000001000000, 0x0000010001000000, 0x0000000001000100, 0x0000010001000100,
     0x0001000001000000, 0x0001010001000000, 0x0001000001000100, 0x0001010001000100,
     0x0000000001010000, 0x0000010001010000, 0x0000000001010100, 0x0000010001010100,
     0x0001000001010000, 0x0001010001010000, 0x0001000001010100, 0x0001010001010100,
     0x0100000001000000, 0x0100010001000000, 0x0100000001000100, 0x0100010001000100,
     0x0101000001000000, 0x0101010001000000, 0x0101000001000100, 0x0101010001000100,
     0x0100000001010000, 0x0100010001010000, 0x0100000001010100, 0x0100010001010100,
     0x0101000001010000, 0x0101010001010000, 0x0101000001010100, 0x0101010001010100,
     0x0000000100000000, 0x0000010100000000, 0x0000000100000100, 0x0000010100000100,
     0x0001000100000000, 0x0001010100000000, 0x0001000100000100, 0x0001010100000100,
     0x0000000100010000, 0x0000010100010000, 0x0000000100010100, 0x0000010100010100,
     0x0001000100010000, 0x0001010100010000, 0x0001000100010100, 0x0001010100010100,
     0x0100000100000000, 0x0100010100000000, 0x0100000100000100, 0x0100010100000100,
     0x0101000100000000, 0x0101010100000000, 0x0101000100000100, 0x0101010100000100,
     0x0100000100010000, 0x0100010100010000, 0x0100000100010100, 0x0100010100010100,
     0x0101000100010000, 0x0101010100010000, 0x0101000100010100, 0x0101010100010100,
     0x0000000101000000, 0x0000010101000000, 0x0000000101000100, 0x0000010101000100,
     0x0001000101000000, 0x0001010101000000, 0x0001000101000100, 0x0001010101000100,
     0x0000000101010000, 0x0000010101010000, 0x0000000101010100, 0x0000010101010100,
     0x0001000101010000, 0x0001010101010000, 0x0001000101010100, 0x0001010101010100,
     0x0100000101000000, 0x0100010101000000, 0x0100000101000100, 0x0100010101000100,
     0x0101000101000000, 0x0101010101000000, 0x0101000101000100, 0x0101010101000100,
     0x0100000101010000, 0x0100010101010000, 0x0100000101010100, 0x0100010101010100,
     0x0101000101010000, 0x0101010101010000, 0x0101000101010100, 0x0101010101010100,
     0x0000000000000001, 0x0000010000000001, 0x0000000000000101, 0x0000010000000101,
     0x0001000000000001, 0x0001010000000001, 0x0001000000000101, 0x0001010000000101,
     0x0000000000010001, 0x0000010000010001, 0x0000000000010101, 0x0000010000010101,
     0x0001000000010001, 0x0001010000010001, 0x0001000000010101, 0x0001010000010101,
     0x0100000000000001, 0x0100010000000001, 0x0100000000000101, 0x0100010000000101,
     0x0101000000000001, 0x0101010000000001, 0x0101000000000101, 0x0101010000000101,
     0x0100000000010001, 0x0100010000010001, 0x0100000000010101, 0x0100010000010101,
     0x0101000000010001, 0x0101010000010001, 0x0101000000010101, 0x0101010000010101,
     0x0000000001000001, 0x0000010001000001, 0x0000000001000101, 0x0000010001000101,
     0x0001000001000001, 0x0001010001000001, 0x0001000001000101, 0x0001010001000101,
     0x0000000001010001, 0x0000010001010001, 0x0000000001010101, 0x0000010001010101,
     0x0001000001010001, 0x0001010001010001, 0x0001000001010101, 0x0001010001010101,
     0x0100000001000001, 0x0100010001000001, 0x0100000001000101, 0x0100010001000101,
     0x0101000001000001, 0x0101010001000001, 0x0101000001000101, 0x0101010001000101,
     0x0100000001010001, 0x0100010001010001, 0x0100000001010101, 0x0100010001010101,
     0x0101000001010001, 0x0101010001010001, 0x0101000001010101, 0x0101010001010101,
     0x0000000100000001, 0x0000010100000001, 0x0000000100000101, 0x0000010100000101,
     0x0001000100000001, 0x0001010100000001, 0x0001000100000101, 0x0001010100000101,
     0x0000000100010001, 0x0000010100010001, 0x0000000100010101, 0x0000010100010101,
     0x0001000100010001, 0x0001010100010001, 0x0001000100010101, 0x0001010100010101,
     0x0100000100000001, 0x0100010100000001, 0x0100000100000101, 0x0100010100000101,
     0x0101000100000001, 0x0101010100000001, 0x0101000100000101, 0x0101010100000101,
     0x0100000100010001, 0x0100010100010001, 0x0100000100010101, 0x0100010100010101,
     0x0101000100010001, 0x0101010100010001, 0x0101000100010101, 0x0101010100010101,
     0x0000000101000001, 0x0000010101000001, 0x0000000101000101, 0x0000010101000101,
     0x0001000101000001, 0x0001010101000001, 0x0001000101000101, 0x0001010101000101,
     0x0000000101010001, 0x0000010101010001, 0x0000000101010101, 0x0000010101010101,
     0x0001000101010001, 0x0001010101010001, 0x0001000101010101, 0x0001010101010101,
     0x0100000101000001, 0x0100010101000001, 0x0100000101000101, 0x0100010101000101,
     0x0101000101000001, 0x0101010101000001, 0x0101000101000101, 0x0101010101000101,
     0x0100000101010001, 0x0100010101010001, 0x0100000101010101, 0x0100010101010101,
     0x0101000101010001, 0x0101010101010001, 0x0101000101010101, 0x0101010101010101]"

definition DES_FPTAB1 :: "u64bit list" where
  "DES_FPTAB1 = [
     0x0000000000000000, 0x0000000100000000, 0x0000000004000000, 0x0000000104000000,
     0x0000000000040000, 0x0000000100040000, 0x0000000004040000, 0x0000000104040000,
     0x0000000000000400, 0x0000000100000400, 0x0000000004000400, 0x0000000104000400,
     0x0000000000040400, 0x0000000100040400, 0x0000000004040400, 0x0000000104040400,
     0x0000000000000004, 0x0000000100000004, 0x0000000004000004, 0x0000000104000004,
     0x0000000000040004, 0x0000000100040004, 0x0000000004040004, 0x0000000104040004,
     0x0000000000000404, 0x0000000100000404, 0x0000000004000404, 0x0000000104000404,
     0x0000000000040404, 0x0000000100040404, 0x0000000004040404, 0x0000000104040404,
     0x0400000000000000, 0x0400000100000000, 0x0400000004000000, 0x0400000104000000,
     0x0400000000040000, 0x0400000100040000, 0x0400000004040000, 0x0400000104040000,
     0x0400000000000400, 0x0400000100000400, 0x0400000004000400, 0x0400000104000400,
     0x0400000000040400, 0x0400000100040400, 0x0400000004040400, 0x0400000104040400,
     0x0400000000000004, 0x0400000100000004, 0x0400000004000004, 0x0400000104000004,
     0x0400000000040004, 0x0400000100040004, 0x0400000004040004, 0x0400000104040004,
     0x0400000000000404, 0x0400000100000404, 0x0400000004000404, 0x0400000104000404,
     0x0400000000040404, 0x0400000100040404, 0x0400000004040404, 0x0400000104040404,
     0x0004000000000000, 0x0004000100000000, 0x0004000004000000, 0x0004000104000000,
     0x0004000000040000, 0x0004000100040000, 0x0004000004040000, 0x0004000104040000,
     0x0004000000000400, 0x0004000100000400, 0x0004000004000400, 0x0004000104000400,
     0x0004000000040400, 0x0004000100040400, 0x0004000004040400, 0x0004000104040400,
     0x0004000000000004, 0x0004000100000004, 0x0004000004000004, 0x0004000104000004,
     0x0004000000040004, 0x0004000100040004, 0x0004000004040004, 0x0004000104040004,
     0x0004000000000404, 0x0004000100000404, 0x0004000004000404, 0x0004000104000404,
     0x0004000000040404, 0x0004000100040404, 0x0004000004040404, 0x0004000104040404,
     0x0404000000000000, 0x0404000100000000, 0x0404000004000000, 0x0404000104000000,
     0x0404000000040000, 0x0404000100040000, 0x0404000004040000, 0x0404000104040000,
     0x0404000000000400, 0x0404000100000400, 0x0404000004000400, 0x0404000104000400,
     0x0404000000040400, 0x0404000100040400, 0x0404000004040400, 0x0404000104040400,
     0x0404000000000004, 0x0404000100000004, 0x0404000004000004, 0x0404000104000004,
     0x0404000000040004, 0x0404000100040004, 0x0404000004040004, 0x0404000104040004,
     0x0404000000000404, 0x0404000100000404, 0x0404000004000404, 0x0404000104000404,
     0x0404000000040404, 0x0404000100040404, 0x0404000004040404, 0x0404000104040404,
     0x0000040000000000, 0x0000040100000000, 0x0000040004000000, 0x0000040104000000,
     0x0000040000040000, 0x0000040100040000, 0x0000040004040000, 0x0000040104040000,
     0x0000040000000400, 0x0000040100000400, 0x0000040004000400, 0x0000040104000400,
     0x0000040000040400, 0x0000040100040400, 0x0000040004040400, 0x0000040104040400,
     0x0000040000000004, 0x0000040100000004, 0x0000040004000004, 0x0000040104000004,
     0x0000040000040004, 0x0000040100040004, 0x0000040004040004, 0x0000040104040004,
     0x0000040000000404, 0x0000040100000404, 0x0000040004000404, 0x0000040104000404,
     0x0000040000040404, 0x0000040100040404, 0x0000040004040404, 0x0000040104040404,
     0x0400040000000000, 0x0400040100000000, 0x0400040004000000, 0x0400040104000000,
     0x0400040000040000, 0x0400040100040000, 0x0400040004040000, 0x0400040104040000,
     0x0400040000000400, 0x0400040100000400, 0x0400040004000400, 0x0400040104000400,
     0x0400040000040400, 0x0400040100040400, 0x0400040004040400, 0x0400040104040400,
     0x0400040000000004, 0x0400040100000004, 0x0400040004000004, 0x0400040104000004,
     0x0400040000040004, 0x0400040100040004, 0x0400040004040004, 0x0400040104040004,
     0x0400040000000404, 0x0400040100000404, 0x0400040004000404, 0x0400040104000404,
     0x0400040000040404, 0x0400040100040404, 0x0400040004040404, 0x0400040104040404,
     0x0004040000000000, 0x0004040100000000, 0x0004040004000000, 0x0004040104000000,
     0x0004040000040000, 0x0004040100040000, 0x0004040004040000, 0x0004040104040000,
     0x0004040000000400, 0x0004040100000400, 0x0004040004000400, 0x0004040104000400,
     0x0004040000040400, 0x0004040100040400, 0x0004040004040400, 0x0004040104040400,
     0x0004040000000004, 0x0004040100000004, 0x0004040004000004, 0x0004040104000004,
     0x0004040000040004, 0x0004040100040004, 0x0004040004040004, 0x0004040104040004,
     0x0004040000000404, 0x0004040100000404, 0x0004040004000404, 0x0004040104000404,
     0x0004040000040404, 0x0004040100040404, 0x0004040004040404, 0x0004040104040404,
     0x0404040000000000, 0x0404040100000000, 0x0404040004000000, 0x0404040104000000,
     0x0404040000040000, 0x0404040100040000, 0x0404040004040000, 0x0404040104040000,
     0x0404040000000400, 0x0404040100000400, 0x0404040004000400, 0x0404040104000400,
     0x0404040000040400, 0x0404040100040400, 0x0404040004040400, 0x0404040104040400,
     0x0404040000000004, 0x0404040100000004, 0x0404040004000004, 0x0404040104000004,
     0x0404040000040004, 0x0404040100040004, 0x0404040004040004, 0x0404040104040004,
     0x0404040000000404, 0x0404040100000404, 0x0404040004000404, 0x0404040104000404,
     0x0404040000040404, 0x0404040100040404, 0x0404040004040404, 0x0404040104040404]"

definition DES_FPTAB2 :: "u64bit list" where
  "DES_FPTAB2 = [
     0x0000000000000000, 0x0000004000000000, 0x0000000001000000, 0x0000004001000000,
     0x0000000000010000, 0x0000004000010000, 0x0000000001010000, 0x0000004001010000,
     0x0000000000000100, 0x0000004000000100, 0x0000000001000100, 0x0000004001000100,
     0x0000000000010100, 0x0000004000010100, 0x0000000001010100, 0x0000004001010100,
     0x0000000000000001, 0x0000004000000001, 0x0000000001000001, 0x0000004001000001,
     0x0000000000010001, 0x0000004000010001, 0x0000000001010001, 0x0000004001010001,
     0x0000000000000101, 0x0000004000000101, 0x0000000001000101, 0x0000004001000101,
     0x0000000000010101, 0x0000004000010101, 0x0000000001010101, 0x0000004001010101,
     0x0100000000000000, 0x0100004000000000, 0x0100000001000000, 0x0100004001000000,
     0x0100000000010000, 0x0100004000010000, 0x0100000001010000, 0x0100004001010000,
     0x0100000000000100, 0x0100004000000100, 0x0100000001000100, 0x0100004001000100,
     0x0100000000010100, 0x0100004000010100, 0x0100000001010100, 0x0100004001010100,
     0x0100000000000001, 0x0100004000000001, 0x0100000001000001, 0x0100004001000001,
     0x0100000000010001, 0x0100004000010001, 0x0100000001010001, 0x0100004001010001,
     0x0100000000000101, 0x0100004000000101, 0x0100000001000101, 0x0100004001000101,
     0x0100000000010101, 0x0100004000010101, 0x0100000001010101, 0x0100004001010101,
     0x0001000000000000, 0x0001004000000000, 0x0001000001000000, 0x0001004001000000,
     0x0001000000010000, 0x0001004000010000, 0x0001000001010000, 0x0001004001010000,
     0x0001000000000100, 0x0001004000000100, 0x0001000001000100, 0x0001004001000100,
     0x0001000000010100, 0x0001004000010100, 0x0001000001010100, 0x0001004001010100,
     0x0001000000000001, 0x0001004000000001, 0x0001000001000001, 0x0001004001000001,
     0x0001000000010001, 0x0001004000010001, 0x0001000001010001, 0x0001004001010001,
     0x0001000000000101, 0x0001004000000101, 0x0001000001000101, 0x0001004001000101,
     0x0001000000010101, 0x0001004000010101, 0x0001000001010101, 0x0001004001010101,
     0x0101000000000000, 0x0101004000000000, 0x0101000001000000, 0x0101004001000000,
     0x0101000000010000, 0x0101004000010000, 0x0101000001010000, 0x0101004001010000,
     0x0101000000000100, 0x0101004000000100, 0x0101000001000100, 0x0101004001000100,
     0x0101000000010100, 0x0101004000010100, 0x0101000001010100, 0x0101004001010100,
     0x0101000000000001, 0x0101004000000001, 0x0101000001000001, 0x0101004001000001,
     0x0101000000010001, 0x0101004000010001, 0x0101000001010001, 0x0101004001010001,
     0x0101000000000101, 0x0101004000000101, 0x0101000001000101, 0x0101004001000101,
     0x0101000000010101, 0x0101004000010101, 0x0101000001010101, 0x0101004001010101,
     0x0000010000000000, 0x0000014000000000, 0x0000010001000000, 0x0000014001000000,
     0x0000010000010000, 0x0000014000010000, 0x0000010001010000, 0x0000014001010000,
     0x0000010000000100, 0x0000014000000100, 0x0000010001000100, 0x0000014001000100,
     0x0000010000010100, 0x0000014000010100, 0x0000010001010100, 0x0000014001010100,
     0x0000010000000001, 0x0000014000000001, 0x0000010001000001, 0x0000014001000001,
     0x0000010000010001, 0x0000014000010001, 0x0000010001010001, 0x0000014001010001,
     0x0000010000000101, 0x0000014000000101, 0x0000010001000101, 0x0000014001000101,
     0x0000010000010101, 0x0000014000010101, 0x0000010001010101, 0x0000014001010101,
     0x0100010000000000, 0x0100014000000000, 0x0100010001000000, 0x0100014001000000,
     0x0100010000010000, 0x0100014000010000, 0x0100010001010000, 0x0100014001010000,
     0x0100010000000100, 0x0100014000000100, 0x0100010001000100, 0x0100014001000100,
     0x0100010000010100, 0x0100014000010100, 0x0100010001010100, 0x0100014001010100,
     0x0100010000000001, 0x0100014000000001, 0x0100010001000001, 0x0100014001000001,
     0x0100010000010001, 0x0100014000010001, 0x0100010001010001, 0x0100014001010001,
     0x0100010000000101, 0x0100014000000101, 0x0100010001000101, 0x0100014001000101,
     0x0100010000010101, 0x0100014000010101, 0x0100010001010101, 0x0100014001010101,
     0x0001010000000000, 0x0001014000000000, 0x0001010001000000, 0x0001014001000000,
     0x0001010000010000, 0x0001014000010000, 0x0001010001010000, 0x0001014001010000,
     0x0001010000000100, 0x0001014000000100, 0x0001010001000100, 0x0001014001000100,
     0x0001010000010100, 0x0001014000010100, 0x0001010001010100, 0x0001014001010100,
     0x0001010000000001, 0x0001014000000001, 0x0001010001000001, 0x0001014001000001,
     0x0001010000010001, 0x0001014000010001, 0x0001010001010001, 0x0001014001010001,
     0x0001010000000101, 0x0001014000000101, 0x0001010001000101, 0x0001014001000101,
     0x0001010000010101, 0x0001014000010101, 0x0001010001010101, 0x0001014001010101,
     0x0101010000000000, 0x0101014000000000, 0x0101010001000000, 0x0101014001000000,
     0x0101010000010000, 0x0101014000010000, 0x0101010001010000, 0x0101014001010000,
     0x0101010000000100, 0x0101014000000100, 0x0101010001000100, 0x0101014001000100,
     0x0101010000010100, 0x0101014000010100, 0x0101010001010100, 0x0101014001010100,
     0x0101010000000001, 0x0101014000000001, 0x0101010001000001, 0x0101014001000001,
     0x0101010000010001, 0x0101014000010001, 0x0101010001010001, 0x0101014001010001,
     0x0101010000000101, 0x0101014000000101, 0x0101010001000101, 0x0101014001000101,
     0x0101010000010101, 0x0101014000010101, 0x0101010001010101, 0x0101014001010101]"


section \<open>Key schedule\<close>

definition DES_ROT :: "nat list" where
  "DES_ROT = [1, 1, 2, 2, 2, 2, 2, 2, 1, 2, 2, 2, 2, 2, 2, 1]"

definition des_key_C :: "byte list \<Rightarrow> u32bit" where
  "des_key_C key = (let kb = \<lambda>i. ucast (key ! i) :: u32bit in
           push_bit 20 (kb 7 AND 0x80) OR push_bit 19 (kb 6 AND 0x80) OR push_bit 18 (kb 5 AND 0x80) OR
           push_bit 17 (kb 4 AND 0x80) OR push_bit 16 (kb 3 AND 0x80) OR push_bit 15 (kb 2 AND 0x80) OR
           push_bit 14 (kb 1 AND 0x80) OR push_bit 13 (kb 0 AND 0x80) OR push_bit 13 (kb 7 AND 0x40) OR
           push_bit 12 (kb 6 AND 0x40) OR push_bit 11 (kb 5 AND 0x40) OR push_bit 10 (kb 4 AND 0x40) OR
           push_bit 9 (kb 3 AND 0x40) OR push_bit 8 (kb 2 AND 0x40) OR push_bit 7 (kb 1 AND 0x40) OR
           push_bit 6 (kb 0 AND 0x40) OR push_bit 6 (kb 7 AND 0x20) OR push_bit 5 (kb 6 AND 0x20) OR
           push_bit 4 (kb 5 AND 0x20) OR push_bit 3 (kb 4 AND 0x20) OR push_bit 2 (kb 3 AND 0x20) OR
           push_bit 1 (kb 2 AND 0x20) OR (kb 1 AND 0x20) OR drop_bit 1 (kb 0 AND 0x20) OR
           drop_bit 1 (kb 7 AND 0x10) OR drop_bit 2 (kb 6 AND 0x10) OR drop_bit 3 (kb 5 AND 0x10) OR
           drop_bit 4 (kb 4 AND 0x10))"

definition des_key_D :: "byte list \<Rightarrow> u32bit" where
  "des_key_D key = (let kb = \<lambda>i. ucast (key ! i) :: u32bit in
           push_bit 26 (kb 7 AND 0x02) OR push_bit 25 (kb 6 AND 0x02) OR push_bit 24 (kb 5 AND 0x02) OR
           push_bit 23 (kb 4 AND 0x02) OR push_bit 22 (kb 3 AND 0x02) OR push_bit 21 (kb 2 AND 0x02) OR
           push_bit 20 (kb 1 AND 0x02) OR push_bit 19 (kb 0 AND 0x02) OR push_bit 17 (kb 7 AND 0x04) OR
           push_bit 16 (kb 6 AND 0x04) OR push_bit 15 (kb 5 AND 0x04) OR push_bit 14 (kb 4 AND 0x04) OR
           push_bit 13 (kb 3 AND 0x04) OR push_bit 12 (kb 2 AND 0x04) OR push_bit 11 (kb 1 AND 0x04) OR
           push_bit 10 (kb 0 AND 0x04) OR push_bit 8 (kb 7 AND 0x08) OR push_bit 7 (kb 6 AND 0x08) OR
           push_bit 6 (kb 5 AND 0x08) OR push_bit 5 (kb 4 AND 0x08) OR push_bit 4 (kb 3 AND 0x08) OR
           push_bit 3 (kb 2 AND 0x08) OR push_bit 2 (kb 1 AND 0x08) OR push_bit 1 (kb 0 AND 0x08) OR
           drop_bit 1 (kb 3 AND 0x10) OR drop_bit 2 (kb 2 AND 0x10) OR drop_bit 3 (kb 1 AND 0x10) OR
           drop_bit 4 (kb 0 AND 0x10))"

definition des_round_key_0 :: "u32bit \<Rightarrow> u32bit \<Rightarrow> u32bit" where
  "des_round_key_0 C D =
          (push_bit 22 (C AND 0x00000010) OR push_bit 17 (C AND 0x00000800) OR push_bit 16 (C AND 0x00000020) OR
           push_bit 15 (C AND 0x00004004) OR push_bit 11 (C AND 0x00000200) OR push_bit 10 (C AND 0x00020000) OR
           drop_bit 6 (C AND 0x01000000) OR drop_bit 4 (C AND 0x00100000) OR push_bit 3 (C AND 0x00010000) OR
           drop_bit 2 (C AND 0x08000000) OR push_bit 1 (C AND 0x00800000) OR push_bit 8 (D AND 0x00000010) OR
           push_bit 7 (D AND 0x00000002) OR push_bit 2 (D AND 0x00000001) OR (D AND 0x00000200) OR
           drop_bit 2 (D AND 0x00008000) OR drop_bit 3 (D AND 0x00000088) OR drop_bit 7 (D AND 0x00001000) OR
           drop_bit 9 (D AND 0x00080000) OR drop_bit 14 (D AND 0x02020000) OR drop_bit 21 (D AND 0x00400000))"

definition des_round_key_1 :: "u32bit \<Rightarrow> u32bit \<Rightarrow> u32bit" where
  "des_round_key_1 C D =
          (push_bit 28 (C AND 0x00000001) OR push_bit 18 (C AND 0x00000082) OR push_bit 14 (C AND 0x00002000) OR
           push_bit 10 (C AND 0x00000100) OR push_bit 9 (C AND 0x00001000) OR push_bit 6 (C AND 0x00040000) OR
           push_bit 4 (C AND 0x02400000) OR push_bit 2 (C AND 0x00008000) OR drop_bit 1 (C AND 0x00200000) OR
           drop_bit 10 (C AND 0x04000000) OR push_bit 6 (D AND 0x00000020) OR (D AND 0x00000100) OR
           drop_bit 1 (D AND 0x00000800) OR drop_bit 3 (D AND 0x00000040) OR drop_bit 4 (D AND 0x00010000) OR
           drop_bit 5 (D AND 0x00000400) OR drop_bit 10 (D AND 0x00004000) OR drop_bit 13 (D AND 0x04000000) OR
           drop_bit 14 (D AND 0x00800000) OR drop_bit 18 (D AND 0x00100000) OR drop_bit 24 (D AND 0x01000000) OR
           drop_bit 26 (D AND 0x08000000))"

definition des_key_schedule :: "byte list \<Rightarrow> u32bit list \<Rightarrow> u32bit list" where
  "des_key_schedule key round_key =
     fst (for_up 0 16 (\<lambda>j s. case s of (round_key, C, D) \<Rightarrow>
       let C = (push_bit (DES_ROT ! j) C OR drop_bit (28 - DES_ROT ! j) C) AND 0x0FFFFFFF;
           D = (push_bit (DES_ROT ! j) D OR drop_bit (28 - DES_ROT ! j) D) AND 0x0FFFFFFF;
           round_key = round_key[2 * j := des_round_key_0 C D];
           round_key = round_key[2 * j + 1 := des_round_key_1 C D]
       in (round_key, C, D)) (round_key, des_key_C key, des_key_D key))"

section \<open>Rounds\<close>

text \<open>The lookups xored to one half, from the other half and a pair of round keys.\<close>

definition des_F :: "u32bit \<Rightarrow> u32bit \<Rightarrow> u32bit \<Rightarrow> u32bit" where
  "des_F X k0 k1 =
     (let T0 = rotate_right X 4 XOR k0; T1 = X XOR k1
      in DES_SPBOX1 ! unat (get_byte 0 T0) XOR DES_SPBOX2 ! unat (get_byte 0 T1) XOR
         DES_SPBOX3 ! unat (get_byte 1 T0) XOR DES_SPBOX4 ! unat (get_byte 1 T1) XOR
         DES_SPBOX5 ! unat (get_byte 2 T0) XOR DES_SPBOX6 ! unat (get_byte 2 T1) XOR
         DES_SPBOX7 ! unat (get_byte 3 T0) XOR DES_SPBOX8 ! unat (get_byte 3 T1))"

definition des_encrypt :: "u32bit list \<Rightarrow> u32bit \<times> u32bit \<Rightarrow> u32bit \<times> u32bit" where
  "des_encrypt round_key s = for_up 0 8 (\<lambda>i (L, R).
     let j = 2 * i;
         L = L XOR des_F R (round_key ! (2 * j)) (round_key ! (2 * j + 1));
         R = R XOR des_F L (round_key ! (2 * j + 2)) (round_key ! (2 * j + 3))
     in (L, R)) s"

definition des_decrypt :: "u32bit list \<Rightarrow> u32bit \<times> u32bit \<Rightarrow> u32bit \<times> u32bit" where
  "des_decrypt round_key s = for_up 0 8 (\<lambda>i (L, R).
     let j = 16 - 2 * i;
         L = L XOR des_F R (round_key ! (2 * j - 2)) (round_key ! (2 * j - 1));
         R = R XOR des_F L (round_key ! (2 * j - 4)) (round_key ! (2 * j - 3))
     in (L, R)) s"

section \<open>The ciphers\<close>

definition des_load :: "byte list \<Rightarrow> u32bit \<times> u32bit" where
  "des_load inp =
     (let T = DES_IPTAB1 ! unat (inp ! 0) OR push_bit 1 (DES_IPTAB1 ! unat (inp ! 1)) OR
              push_bit 2 (DES_IPTAB1 ! unat (inp ! 2)) OR push_bit 3 (DES_IPTAB1 ! unat (inp ! 3)) OR
              push_bit 4 (DES_IPTAB1 ! unat (inp ! 4)) OR push_bit 5 (DES_IPTAB1 ! unat (inp ! 5)) OR
              push_bit 6 (DES_IPTAB1 ! unat (inp ! 6)) OR DES_IPTAB2 ! unat (inp ! 7)
      in (ucast (drop_bit 32 T), ucast T))"

definition des_store :: "u32bit \<times> u32bit \<Rightarrow> byte list" where
  "des_store s = (case s of (L, R) \<Rightarrow>
     let T = push_bit 5 (DES_FPTAB1 ! unat (get_byte 0 L)) OR push_bit 3 (DES_FPTAB1 ! unat (get_byte 1 L)) OR
             push_bit 1 (DES_FPTAB1 ! unat (get_byte 2 L)) OR push_bit 1 (DES_FPTAB2 ! unat (get_byte 3 L)) OR
             push_bit 4 (DES_FPTAB1 ! unat (get_byte 0 R)) OR push_bit 2 (DES_FPTAB1 ! unat (get_byte 1 R)) OR
             DES_FPTAB1 ! unat (get_byte 2 R) OR DES_FPTAB2 ! unat (get_byte 3 R);
         T = rotate_left T 32
     in store_be_u64 T)"

definition DES_key :: SymmetricAlgorithm where
  "DES_key = new_SymmetricAlgorithm 8 0 1"

definition DES_key_schedule :: "byte list \<Rightarrow> nat \<Rightarrow> u32bit list" where
  "DES_key_schedule key n = des_key_schedule key (replicate 32 0)"

definition DES_enc :: "u32bit list \<Rightarrow> byte list \<Rightarrow> byte list" where
  "DES_enc round_key inp = des_store (des_encrypt round_key (des_load inp))"

definition DES_dec :: "u32bit list \<Rightarrow> byte list \<Rightarrow> byte list" where
  "DES_dec round_key inp = des_store (des_decrypt round_key (des_load inp))"

text \<open>In the middle the halves are passed in the other order.\<close>

definition TripleDES_key :: SymmetricAlgorithm where
  "TripleDES_key = new_SymmetricAlgorithm 16 24 8"

definition TripleDES_key_schedule :: "byte list \<Rightarrow> nat \<Rightarrow> u32bit list" where
  "TripleDES_key_schedule key n =
     (let round_key = at_ptr 0 (des_key_schedule key) (replicate 96 0);
          round_key = at_ptr 32 (des_key_schedule (drop 8 key)) round_key
      in if n = 24 then at_ptr 64 (des_key_schedule (drop 16 key)) round_key
         else at_ptr 64 (\<lambda>p. copy_mem p round_key 32) round_key)"

definition TripleDES_enc :: "u32bit list \<Rightarrow> byte list \<Rightarrow> byte list" where
  "TripleDES_enc round_key inp =
     (let (L, R) = des_load inp;
          (L, R) = des_encrypt round_key (L, R);
          (R, L) = des_decrypt (drop 32 round_key) (R, L);
          (L, R) = des_encrypt (drop 64 round_key) (L, R)
      in des_store (L, R))"

definition TripleDES_dec :: "u32bit list \<Rightarrow> byte list \<Rightarrow> byte list" where
  "TripleDES_dec round_key inp =
     (let (L, R) = des_load inp;
          (L, R) = des_decrypt (drop 64 round_key) (L, R);
          (R, L) = des_encrypt (drop 32 round_key) (R, L);
          (L, R) = des_decrypt round_key (L, R)
      in des_store (L, R))"

section \<open>The permutations\<close>

text \<open>A table that spreads the bits of a byte over a word: bit \<open>i\<close> goes to position \<open>ks ! i\<close>.\<close>

definition spread_table :: "nat list \<Rightarrow> u64bit list" where
  "spread_table ks = fold (\<lambda>k xs. xs @ map (\<lambda>x. x OR push_bit k 1) xs) ks [0]"

lemma length_spread_table: "length (spread_table ks) = 2 ^ length ks"
  by (induction ks rule: rev_induct) (simp_all add: spread_table_def)

lemma bit_spread_table:
  assumes "b < 2 ^ length ks" and "\<forall>k \<in> set ks. k < 64"
  shows "bit (spread_table ks ! b) j \<longleftrightarrow> (\<exists>i < length ks. ks ! i = j \<and> bit b i)"
  using assms
proof (induction ks arbitrary: b rule: rev_induct)
  case Nil
  then show ?case by (simp add: spread_table_def)
next
  case (snoc k ks)
  let ?t = "spread_table ks" and ?n = "2 ^ length ks"
  have t: "spread_table (ks @ [k]) = ?t @ map (\<lambda>x. x OR push_bit k 1) ?t" by (simp add: spread_table_def)
  show ?case
  proof (cases "b < ?n")
    case True
    then have "\<not> bit b (length ks)" using bit_iff_odd by (metis div_less even_zero)
    then show ?thesis using snoc True by (auto simp: t nth_append length_spread_table less_Suc_eq)
  next
    case False
    define c where "c = b - ?n"
    have c: "b = ?n + c" "c < ?n" using False snoc.prems(1) by (simp_all add: c_def)
    have "bit b i \<longleftrightarrow> bit c i" if "i < length ks" for i
    proof -
      have "take_bit (length ks) b = take_bit (length ks) c" by (simp add: c(1) take_bit_eq_mod)
      then show ?thesis using that by (metis bit_take_bit_iff)
    qed
    moreover have "bit b (length ks)" using c by (simp add: bit_iff_odd div_add_self1)
    moreover have "bit (push_bit k 1 :: u64bit) j \<longleftrightarrow> j = k" using snoc.prems(2) by (auto simp: bit_simps)
    ultimately show ?thesis using snoc.IH[of c] snoc.prems c
      by (auto simp: t nth_append length_spread_table less_Suc_eq bit_or_iff)
  qed
qed

lemma less_eight: "i < (8 :: nat) \<longleftrightarrow> i = 0 \<or> i = 1 \<or> i = 2 \<or> i = 3 \<or> i = 4 \<or> i = 5 \<or> i = 6 \<or> i = 7"
  by presburger

lemma DES_IPTAB: "DES_IPTAB1 = spread_table [33, 1, 41, 9, 49, 17, 57, 25]" "DES_IPTAB2 = spread_table [40, 8, 48, 16, 56, 24, 32, 0]"
  by (simp_all add: DES_IPTAB1_def DES_IPTAB2_def spread_table_def push_bit_eq_mult)

lemma DES_FPTAB: "DES_FPTAB1 = spread_table [32, 26, 18, 10, 2, 58, 50, 42]" "DES_FPTAB2 = spread_table [38, 24, 16, 8, 0, 56, 48, 40]"
  by (simp_all add: DES_FPTAB1_def DES_FPTAB2_def spread_table_def push_bit_eq_mult)

lemmas DES_tables = DES_IPTAB DES_FPTAB

lemma bit_spread_byte:
  fixes b :: byte
  assumes "ks = [k0, k1, k2, k3, k4, k5, k6, k7]" and "\<forall>k \<in> set ks. k < 64"
  shows "bit (spread_table ks ! unat b) j \<longleftrightarrow> j = k0 \<and> bit b 0 \<or> j = k1 \<and> bit b 1 \<or> j = k2 \<and> bit b 2 \<or> j = k3 \<and> bit b 3 \<or>
      j = k4 \<and> bit b 4 \<or> j = k5 \<and> bit b 5 \<or> j = k6 \<and> bit b 6 \<or> j = k7 \<and> bit b 7"
proof -
  have l: "length ks = 8" by (simp add: assms(1))
  have "unat b < 2 ^ length ks" using unat_less_base[of b] l by simp
  moreover have "(\<exists>i < 8. P i) \<longleftrightarrow> P 0 \<or> P 1 \<or> P 2 \<or> P 3 \<or> P 4 \<or> P 5 \<or> P 6 \<or> P 7" for P :: "nat \<Rightarrow> bool"
    by (auto simp: less_eight)
  moreover have "bit (unat b) i \<longleftrightarrow> bit b i" for i by (simp add: bit_unsigned_iff)
  moreover have "ks ! 0 = k0" "ks ! 1 = k1" "ks ! 2 = k2" "ks ! 3 = k3" "ks ! 4 = k4" "ks ! 5 = k5" "ks ! 6 = k6" "ks ! 7 = k7"
    by (simp_all add: assms(1))
  moreover have "bit (spread_table ks ! unat b) j \<longleftrightarrow> (\<exists>i < 8. j = ks ! i \<and> bit (unat b) i)"
    using bit_spread_table[of "unat b" ks j] assms(2) calculation(1) unfolding l by blast
  ultimately show ?thesis by simp
qed

lemma bit_DES_tables:
  fixes b :: byte
  shows "bit (DES_IPTAB1 ! unat b) j \<longleftrightarrow> j = 33 \<and> bit b 0 \<or> j = 1 \<and> bit b 1 \<or> j = 41 \<and> bit b 2 \<or> j = 9 \<and> bit b 3 \<or>
      j = 49 \<and> bit b 4 \<or> j = 17 \<and> bit b 5 \<or> j = 57 \<and> bit b 6 \<or> j = 25 \<and> bit b 7"
    and "bit (DES_IPTAB2 ! unat b) j \<longleftrightarrow> j = 40 \<and> bit b 0 \<or> j = 8 \<and> bit b 1 \<or> j = 48 \<and> bit b 2 \<or> j = 16 \<and> bit b 3 \<or>
      j = 56 \<and> bit b 4 \<or> j = 24 \<and> bit b 5 \<or> j = 32 \<and> bit b 6 \<or> j = 0 \<and> bit b 7"
    and "bit (DES_FPTAB1 ! unat b) j \<longleftrightarrow> j = 32 \<and> bit b 0 \<or> j = 26 \<and> bit b 1 \<or> j = 18 \<and> bit b 2 \<or> j = 10 \<and> bit b 3 \<or>
      j = 2 \<and> bit b 4 \<or> j = 58 \<and> bit b 5 \<or> j = 50 \<and> bit b 6 \<or> j = 42 \<and> bit b 7"
    and "bit (DES_FPTAB2 ! unat b) j \<longleftrightarrow> j = 38 \<and> bit b 0 \<or> j = 24 \<and> bit b 1 \<or> j = 16 \<and> bit b 2 \<or> j = 8 \<and> bit b 3 \<or>
      j = 0 \<and> bit b 4 \<or> j = 56 \<and> bit b 5 \<or> j = 48 \<and> bit b 6 \<or> j = 40 \<and> bit b 7"
  unfolding DES_tables by (rule bit_spread_byte[OF refl]; simp)+

text \<open>The bits of the words after the initial permutation and of the bytes of the final one.\<close>

lemma bit_get_byte:
  "bit (get_byte 0 (x :: u32bit)) n \<longleftrightarrow> n < 8 \<and> bit x (24 + n)" "bit (get_byte 1 x) n \<longleftrightarrow> n < 8 \<and> bit x (16 + n)"
  "bit (get_byte 2 x) n \<longleftrightarrow> n < 8 \<and> bit x (8 + n)" "bit (get_byte 3 x) n \<longleftrightarrow> n < 8 \<and> bit x n"
  by (auto simp: get_byte_simps bit_simps)

lemma word_eq_bits:
  "(\<And>n. n \<in> {0, 1, 2, 3, 4, 5, 6, 7} \<Longrightarrow> bit a n = bit b n) \<Longrightarrow> a = b" for a b :: byte
  by (rule bit_word_eqI) (simp add: less_eight)

lemma word32_eq_bits:
  "(\<And>n. n \<in> {0, 1, 2, 3, 4, 5, 6, 7, 8, 9, 10, 11, 12, 13, 14, 15, 16, 17, 18, 19, 20, 21, 22, 23, 24, 25, 26, 27, 28, 29, 30, 31} \<Longrightarrow>
     bit a n = bit b n) \<Longrightarrow> a = b" for a b :: u32bit
proof (rule bit_word_eqI)
  have s: "set [0..<32] = {0, 1, 2, 3, 4, 5, 6, 7, 8, 9, 10, 11, 12, 13, 14, 15, 16, 17, 18, 19, 20, 21, 22, 23, 24, 25, 26, 27, 28, 29, 30, 31}"
    by code_simp
  fix n assume h: "\<And>n. n \<in> {0, 1, 2, 3, 4, 5, 6, 7, 8, 9, 10, 11, 12, 13, 14, 15, 16, 17, 18, 19, 20, 21, 22, 23, 24, 25, 26, 27, 28, 29, 30, 31} \<Longrightarrow>
     bit a n = bit b n" and "n < LENGTH(32)"
  then show "bit a n = bit b n" unfolding s[symmetric] by simp
qed

text \<open>The word of the initial permutation and the word of the final one, bit by bit.\<close>

definition des_IP :: "byte list \<Rightarrow> u64bit" where
  "des_IP inp = DES_IPTAB1 ! unat (inp ! 0) OR push_bit 1 (DES_IPTAB1 ! unat (inp ! 1)) OR
     push_bit 2 (DES_IPTAB1 ! unat (inp ! 2)) OR push_bit 3 (DES_IPTAB1 ! unat (inp ! 3)) OR
     push_bit 4 (DES_IPTAB1 ! unat (inp ! 4)) OR push_bit 5 (DES_IPTAB1 ! unat (inp ! 5)) OR
     push_bit 6 (DES_IPTAB1 ! unat (inp ! 6)) OR DES_IPTAB2 ! unat (inp ! 7)"

definition des_FP :: "u32bit \<Rightarrow> u32bit \<Rightarrow> u64bit" where
  "des_FP L R = push_bit 5 (DES_FPTAB1 ! unat (get_byte 0 L)) OR push_bit 3 (DES_FPTAB1 ! unat (get_byte 1 L)) OR
     push_bit 1 (DES_FPTAB1 ! unat (get_byte 2 L)) OR push_bit 1 (DES_FPTAB2 ! unat (get_byte 3 L)) OR
     push_bit 4 (DES_FPTAB1 ! unat (get_byte 0 R)) OR push_bit 2 (DES_FPTAB1 ! unat (get_byte 1 R)) OR
     DES_FPTAB1 ! unat (get_byte 2 R) OR DES_FPTAB2 ! unat (get_byte 3 R)"

lemmas bit_ors = bit_or_iff bit_push_bit_iff possible_bit_word

lemma bit_des_IP:
  "\<forall>i \<in> {0, 1, 2, 3}. \<forall>k \<in> {0, 1, 2, 3, 4, 5, 6}. bit (des_IP inp) (8 * i + k + 1) = bit (inp ! k) (2 * i + 1) \<and>
     bit (des_IP inp) (32 + (8 * i + k + 1)) = bit (inp ! k) (2 * i)"
  "\<forall>i \<in> {0, 1, 2, 3}. bit (des_IP inp) (8 * i) = bit (inp ! 7) (2 * ((i + 3) mod 4) + 1) \<and>
     bit (des_IP inp) (32 + 8 * i) = bit (inp ! 7) (2 * ((i + 3) mod 4))"
  unfolding des_IP_def bit_ors by (simp_all add: bit_DES_tables)

lemmas des_IP_bits = bit_des_IP[simplified] bit_des_IP[simplified, folded numeral_2_eq_2] bit_des_IP[simplified, folded numeral_3_eq_3]

lemma des_load_IP: "des_load inp = (ucast (drop_bit 32 (des_IP inp)), ucast (des_IP inp))"
  by (simp add: des_load_def des_IP_def)

lemma des_store_FP: "des_store (L, R) = store_be_u64 (rotate_left (des_FP L R) 32)"
  by (simp add: des_store_def des_FP_def)

lemma bit_des_FP:
  "\<forall>a \<in> {0, 1, 2, 3}. \<forall>b \<in> {0, 1, 2, 3}. bit (des_FP L R) (8 * a + 2 * b) = bit R (4 - a + 8 * b) \<and>
     bit (des_FP L R) (8 * a + 2 * b + 1) = bit L (4 - a + 8 * b)"
  "\<forall>a \<in> {5, 6, 7}. \<forall>b \<in> {0, 1, 2, 3}. bit (des_FP L R) (8 * a + 2 * b) = bit R (12 - a + 8 * b) \<and>
     bit (des_FP L R) (8 * a + 2 * b + 1) = bit L (12 - a + 8 * b)"
  "\<forall>b \<in> {0, 1, 2, 3}. bit (des_FP L R) (32 + 2 * b) = bit R ((8 + 8 * b) mod 32) \<and>
     bit (des_FP L R) (32 + 2 * b + 1) = bit L ((8 + 8 * b) mod 32)"
  unfolding des_FP_def bit_ors by (simp_all add: bit_DES_tables bit_get_byte bit_get_byte[simplified])

lemmas des_FP_bits = bit_des_FP[simplified] bit_des_FP[simplified, folded numeral_2_eq_2] bit_des_FP[simplified, folded numeral_3_eq_3]

lemma bit_rotated: "bit (rotate_left (x :: u64bit) 32) n \<longleftrightarrow> n < 64 \<and> (if 32 \<le> n then bit x (n - 32) else bit x (32 + n))"
  unfolding rotate_left_def bit_ors by (auto simp: bit_drop_bit_eq dest: bit_imp_le_length)

lemma bit_get_byte64:
  "k < 8 \<Longrightarrow> bit (get_byte m (x :: u64bit)) k \<longleftrightarrow> bit x (8 * (7 - (m AND 7)) + k)"
  by (simp add: get_byte_def bit_simps)

lemma des_store_nth:
  "des_store (L, R) ! 0 = get_byte 0 (rotate_left (des_FP L R) 32)" "des_store (L, R) ! 1 = get_byte 1 (rotate_left (des_FP L R) 32)"
  "des_store (L, R) ! 2 = get_byte 2 (rotate_left (des_FP L R) 32)" "des_store (L, R) ! 3 = get_byte 3 (rotate_left (des_FP L R) 32)"
  "des_store (L, R) ! 4 = get_byte 4 (rotate_left (des_FP L R) 32)" "des_store (L, R) ! 5 = get_byte 5 (rotate_left (des_FP L R) 32)"
  "des_store (L, R) ! 6 = get_byte 6 (rotate_left (des_FP L R) 32)" "des_store (L, R) ! 7 = get_byte 7 (rotate_left (des_FP L R) 32)"
  by (simp_all add: des_store_FP store_be_u64_def)

lemmas des_store_bits = des_store_nth des_store_nth[unfolded One_nat_def] bit_get_byte64 bit_rotated des_FP_bits

lemma length_des_store: "length (des_store s) = 8"
  by (cases s) (simp add: des_store_FP store_be_u64_def)


lemma des_load_store: "des_load (des_store (L, R)) = (R, L)"
proof -
  let ?T = "des_IP (des_store (L, R))"
  have "ucast ?T = L"
    by (rule word32_eq_bits)
      (auto simp: bit_simps des_IP_bits des_store_bits)
  moreover have "ucast (drop_bit 32 ?T) = R"
    by (rule word32_eq_bits)
      (auto simp: bit_simps des_IP_bits des_store_bits)
  ultimately show ?thesis by (simp add: des_load_IP)
qed

lemma des_store_load:
  assumes "length b = 8"
  shows "des_store (prod.swap (des_load b)) = b"
proof (rule nth_equalityI)
  show "length (des_store (prod.swap (des_load b))) = length b" using assms by (simp add: length_des_store)
  fix m assume "m < length (des_store (prod.swap (des_load b)))"
  then have "m \<in> {0, 1, 2, 3, 4, 5, 6, 7}" by (simp add: length_des_store less_eight)
  then show "des_store (prod.swap (des_load b)) ! m = b ! m"
    by (elim insertE emptyE; hypsubst; intro word_eq_bits)
      (auto simp: des_load_IP des_store_bits bit_simps des_IP_bits)
qed

interpretation des_block: word_block 8 des_load "\<lambda>s. des_store (prod.swap s)"
  by unfold_locales (auto simp: des_load_store length_des_store des_store_load)

section \<open>Correctness\<close>

lemma des_decrypt_encrypt: "des_decrypt K (prod.swap (des_encrypt K s)) = prod.swap s"
proof -
  let ?f = "\<lambda>i (L, R). let j = 2 * i;
         L = L XOR des_F R (K ! (2 * j)) (K ! (2 * j + 1));
         R = R XOR des_F L (K ! (2 * j + 2)) (K ! (2 * j + 3)) in (L, R)"
  let ?g = "\<lambda>i (L, R).
     let L = L XOR des_F R (K ! (4 * i + 2)) (K ! (4 * i + 3));
         R = R XOR des_F L (K ! (4 * i)) (K ! (4 * i + 1)) in (L, R)"
  have "des_decrypt K t = for_up 0 8 (\<lambda>i. ?g (8 - Suc i)) t" for t
    unfolding des_decrypt_def
  proof (rule for_up_cong)
    fix i t assume "(i :: nat) < 8"
    then have "2 * (16 - 2 * i) - 2 = 4 * (8 - Suc i) + 2" "2 * (16 - 2 * i) - 1 = 4 * (8 - Suc i) + 3"
      "2 * (16 - 2 * i) - 4 = 4 * (8 - Suc i)" "2 * (16 - 2 * i) - 3 = 4 * (8 - Suc i) + 1" by auto
    then show "(case t of (L, R) \<Rightarrow> let j = 16 - 2 * i;
           L = L XOR des_F R (K ! (2 * j - 2)) (K ! (2 * j - 1));
           R = R XOR des_F L (K ! (2 * j - 4)) (K ! (2 * j - 3)) in (L, R)) = ?g (8 - Suc i) t"
      by (simp only: Let_def)
  qed
  moreover have "?g i (prod.swap (?f i s)) = prod.swap s" for i s
    by (simp add: Let_def xor.assoc split: prod.split)
  ultimately show ?thesis using rounds_inverse_swap[of 8 ?g prod.swap ?f s] by (simp add: des_encrypt_def)
qed

lemma des_encrypt_decrypt: "des_encrypt K (prod.swap (des_decrypt K s)) = prod.swap s"
proof -
  let ?f = "\<lambda>i (L, R). let j = 16 - 2 * i;
         L = L XOR des_F R (K ! (2 * j - 2)) (K ! (2 * j - 1));
         R = R XOR des_F L (K ! (2 * j - 4)) (K ! (2 * j - 3)) in (L, R)"
  let ?g = "\<lambda>i (L, R).
     let j = 16 - 2 * i; L = L XOR des_F R (K ! (2 * j - 4)) (K ! (2 * j - 3));
         R = R XOR des_F L (K ! (2 * j - 2)) (K ! (2 * j - 1)) in (L, R)"
  have "des_encrypt K t = for_up 0 8 (\<lambda>i. ?g (8 - Suc i)) t" for t
    unfolding des_encrypt_def
  proof (rule for_up_cong)
    fix i t assume "(i :: nat) < 8"
    then have "2 * (16 - 2 * (8 - Suc i)) - 4 = 2 * (2 * i)" "2 * (16 - 2 * (8 - Suc i)) - 3 = 2 * (2 * i) + 1"
      "2 * (16 - 2 * (8 - Suc i)) - 2 = 2 * (2 * i) + 2" "2 * (16 - 2 * (8 - Suc i)) - 1 = 2 * (2 * i) + 3" by auto
    then show "(case t of (L, R) \<Rightarrow> let j = 2 * i;
           L = L XOR des_F R (K ! (2 * j)) (K ! (2 * j + 1));
           R = R XOR des_F L (K ! (2 * j + 2)) (K ! (2 * j + 3)) in (L, R)) = ?g (8 - Suc i) t"
      by (simp only: Let_def)
  qed
  moreover have "?g i (prod.swap (?f i s)) = prod.swap s" for i s
    by (simp add: Let_def xor.assoc split: prod.split)
  ultimately show ?thesis using rounds_inverse_swap[of 8 ?g prod.swap ?f s] by (simp add: des_decrypt_def)
qed

interpretation des_cipher: block_cipher 8 "\<lambda>_. True" DES_enc DES_dec
  using des_block.block_cipherI[of "\<lambda>_. True" "\<lambda>k s. prod.swap (des_decrypt k s)" "\<lambda>k s. prod.swap (des_encrypt k s)"]
  by (simp add: DES_enc_def[abs_def] DES_dec_def[abs_def] des_decrypt_encrypt)

text \<open>The three passes of Triple DES are undone in the opposite order.\<close>

definition tdes_enc :: "u32bit list \<Rightarrow> u32bit \<times> u32bit \<Rightarrow> u32bit \<times> u32bit" where
  "tdes_enc k s = des_encrypt (drop 64 k) (prod.swap (des_decrypt (drop 32 k) (prod.swap (des_encrypt k s))))"

definition tdes_dec :: "u32bit list \<Rightarrow> u32bit \<times> u32bit \<Rightarrow> u32bit \<times> u32bit" where
  "tdes_dec k s = des_decrypt k (prod.swap (des_encrypt (drop 32 k) (prod.swap (des_decrypt (drop 64 k) s))))"

lemma TripleDES_eqs:
  "TripleDES_enc k b = des_store (tdes_enc k (des_load b))" "TripleDES_dec k b = des_store (tdes_dec k (des_load b))"
  by (simp_all add: TripleDES_enc_def TripleDES_dec_def tdes_enc_def tdes_dec_def Let_def prod.swap_def split_beta)

lemma tdes_dec_enc: "tdes_dec k (prod.swap (tdes_enc k s)) = prod.swap s"
  unfolding tdes_dec_def tdes_enc_def des_decrypt_encrypt swap_swap des_encrypt_decrypt ..

interpretation tripledes_cipher: block_cipher 8 "\<lambda>_. True" TripleDES_enc TripleDES_dec
  using des_block.block_cipherI[of "\<lambda>_. True" "\<lambda>k s. prod.swap (tdes_dec k s)" "\<lambda>k s. prod.swap (tdes_enc k s)"]
  by (simp add: TripleDES_eqs[abs_def] tdes_dec_enc)


end
