(* ===== verification/Cipher_Properties.thy ===== *)
theory Cipher_Properties
  imports TEA_Ciphers Noekeon RC_Ciphers Skipjack GOST Blowfish SEED DES
begin

text \<open>
  The block ciphers of the library against their contract. Each one is an interpretation of the
  locale \<open>block_cipher\<close> in its own theory; here the facts of the interpretations are collected over the
  models of \<open>enc\<close>, \<open>dec\<close> and \<open>key_schedule\<close>, and the check of the key length is stated.
\<close>

text \<open>C14. The ciphers with a block of eight bytes are permutations of the blocks: whatever subkeys and tables they
  hold, decryption undoes encryption and encryption undoes decryption.\<close>

theorem ciphers_64_bit_decrypt:
  assumes "length b = 8"
  shows "TEA_dec tea (TEA_enc tea b) = b \<and> TEA_enc tea (TEA_dec tea b) = b \<and>
      XTEA_dec xtea (XTEA_enc xtea b) = b \<and> XTEA_enc xtea (XTEA_dec xtea b) = b \<and>
      RC5_dec rc5 (RC5_enc rc5 b) = b \<and> RC5_enc rc5 (RC5_dec rc5 b) = b \<and>
      Skipjack_dec skipjack (Skipjack_enc skipjack b) = b \<and> Skipjack_enc skipjack (Skipjack_dec skipjack b) = b \<and>
      GOST_dec gost (GOST_enc gost b) = b \<and> GOST_enc gost (GOST_dec gost b) = b \<and>
      Blowfish_dec blowfish (Blowfish_enc blowfish b) = b \<and> Blowfish_enc blowfish (Blowfish_dec blowfish b) = b \<and>
      DES_dec des (DES_enc des b) = b \<and> DES_enc des (DES_dec des b) = b \<and>
      TripleDES_dec tdes (TripleDES_enc tdes b) = b \<and> TripleDES_enc tdes (TripleDES_dec tdes b) = b"
  using assms
  by (simp_all add: tea_cipher.dec_enc tea_cipher.enc_dec xtea_cipher.dec_enc xtea_cipher.enc_dec rc5_cipher.dec_enc rc5_cipher.enc_dec
      skipjack_cipher.dec_enc skipjack_cipher.enc_dec gost_cipher.dec_enc gost_cipher.enc_dec blowfish_cipher.dec_enc blowfish_cipher.enc_dec
      des_cipher.dec_enc des_cipher.enc_dec tripledes_cipher.dec_enc tripledes_cipher.enc_dec)

theorem ciphers_64_bit_decrypt_witness:
  "Blowfish_dec new_Blowfish (Blowfish_enc new_Blowfish [1, 2, 3, 4, 5, 6, 7, 8]) = [1, 2, 3, 4, 5, 6, 7, 8] \<and>
   TEA_dec [1, 2, 3, 4] (TEA_enc [1, 2, 3, 4] [1, 2, 3, 4, 5, 6, 7, 8]) = [1, 2, 3, 4, 5, 6, 7, 8]"
  using ciphers_64_bit_decrypt[of "[1, 2, 3, 4, 5, 6, 7, 8]"] by simp

text \<open>C15. The ciphers with a block of sixteen bytes, under any key of their own key schedule. Noekeon
  needs its schedule: decryption uses the working key, and encryption must use its image under theta.\<close>

theorem ciphers_128_bit_decrypt:
  assumes "length b = 16"
  shows "Noekeon_dec (Noekeon_key_schedule key n) (Noekeon_enc (Noekeon_key_schedule key n) b) = b \<and>
      Noekeon_enc (Noekeon_key_schedule key n) (Noekeon_dec (Noekeon_key_schedule key n) b) = b \<and>
      RC6_dec rc6 (RC6_enc rc6 b) = b \<and> RC6_enc rc6 (RC6_dec rc6 b) = b \<and>
      SEED_dec seed (SEED_enc seed b) = b \<and> SEED_enc seed (SEED_dec seed b) = b"
  using assms Noekeon_key_schedule_keyed[of key n]
  by (simp_all add: noekeon_cipher.dec_enc noekeon_cipher.enc_dec rc6_cipher.dec_enc rc6_cipher.enc_dec seed_cipher.dec_enc seed_cipher.enc_dec)

theorem ciphers_128_bit_decrypt_witness:
  "Noekeon_dec (Noekeon_key_schedule (replicate 16 7) 16) (Noekeon_enc (Noekeon_key_schedule (replicate 16 7) 16) (replicate 16 1)) =
    replicate 16 1"
  using ciphers_128_bit_decrypt[of "replicate 16 1" "replicate 16 7" 16] by simp

text \<open>\<open>set_key\<close> runs the key schedule exactly when the length lies between the bounds and is a multiple
  of the unit the cipher declares, and reports the length otherwise.\<close>

lemma set_key_checks_length:
  "set_key (new_SymmetricAlgorithm lo hi u) name sched key n =
    (if lo \<le> n \<and> n \<le> (if hi = 0 then lo else hi) \<and> u dvd n then Inr (sched key n) else Inl (Invalid_Key_Length name n))"
  by (auto simp: set_key_def valid_keylength_def new_SymmetricAlgorithm_def mod_eq_0_iff_dvd)

end
