(* ===== verification/Mode_Padding.thy ===== *)
theory Mode_Padding
  imports Exceptn Prelude
begin

text \<open>
  The padding methods of the block cipher modes (\<open>src/modes/mode_pad/mode_pad.cpp\<close>): what a mode
  appends to the last block and how the length is found again. The result of \<open>unpad\<close> is \<open>None\<close> where the code
  reads outside of the block.
\<close>

record PaddingMethod =
  pad_name :: string
  pad :: "byte list \<Rightarrow> nat \<Rightarrow> nat \<Rightarrow> byte list"
  unpad :: "byte list \<Rightarrow> nat \<Rightarrow> (botan_error + nat) option"
  pad_bytes :: "nat \<Rightarrow> nat \<Rightarrow> nat"
  valid_blocksize :: "nat \<Rightarrow> bool"

definition default_pad_bytes :: "nat \<Rightarrow> nat \<Rightarrow> nat" where
  "default_pad_bytes bs pos = bs - pos"

text \<open>\<open>for (j = start; j != stop; ++j) if (block[j] != v) throw\<close>\<close>

function check_bytes :: "byte list \<Rightarrow> nat \<Rightarrow> nat \<Rightarrow> nat \<Rightarrow> bool option" where
  "check_bytes block v j stop =
     (if j = stop then Some True
      else if j \<ge> length block then None
      else if unat (block ! j) \<noteq> v then Some False
      else check_bytes block v (j + 1) stop)"
  by pat_completeness auto
termination
  by (relation "measure (\<lambda>(block, v, j, stop). length block - j)") auto

declare check_bytes.simps [simp del]

definition PKCS7_pad :: "byte list \<Rightarrow> nat \<Rightarrow> nat \<Rightarrow> byte list" where
  "PKCS7_pad block sz position = for_up 0 sz (\<lambda>j block. block[j := of_nat (sz - position)]) block"

definition PKCS7_unpad :: "byte list \<Rightarrow> nat \<Rightarrow> (botan_error + nat) option" where
  "PKCS7_unpad block sz =
     (let position = unat (block ! (sz - 1))
      in if position > sz then Some (Inl (Decoding_Error ''PKCS7''))
         else map_option (\<lambda>ok. if ok then Inr (sz - position) else Inl (Decoding_Error ''PKCS7''))
           (check_bytes block position (sz - position) (sz - 1)))"

definition PKCS7_valid_blocksize :: "nat \<Rightarrow> bool" where
  "PKCS7_valid_blocksize sz = (sz > 0 \<and> sz < 256)"

definition PKCS7_Padding :: PaddingMethod where
  "PKCS7_Padding = \<lparr>pad_name = ''PKCS7'', pad = PKCS7_pad, unpad = PKCS7_unpad,
     pad_bytes = default_pad_bytes, valid_blocksize = PKCS7_valid_blocksize\<rparr>"

definition X923_pad :: "byte list \<Rightarrow> nat \<Rightarrow> nat \<Rightarrow> byte list" where
  "X923_pad block sz position =
     (for_up 0 (sz - position) (\<lambda>j block. block[j := 0]) block)[sz - position - 1 := of_nat (sz - position)]"

definition X923_unpad :: "byte list \<Rightarrow> nat \<Rightarrow> (botan_error + nat) option" where
  "X923_unpad block sz =
     (let position = unat (block ! (sz - 1))
      in if position > sz then Some (Inl (Decoding_Error ''X9.23''))
         else map_option (\<lambda>ok. if ok then Inr (sz - position) else Inl (Decoding_Error ''X9.23''))
           (check_bytes block 0 (sz - position) (sz - 1)))"

definition X923_valid_blocksize :: "nat \<Rightarrow> bool" where
  "X923_valid_blocksize sz = (sz > 0 \<and> sz < 256)"

definition ANSI_X923_Padding :: PaddingMethod where
  "ANSI_X923_Padding = \<lparr>pad_name = ''X9.23'', pad = X923_pad, unpad = X923_unpad,
     pad_bytes = default_pad_bytes, valid_blocksize = X923_valid_blocksize\<rparr>"

definition OneAndZeros_pad :: "byte list \<Rightarrow> nat \<Rightarrow> nat \<Rightarrow> byte list" where
  "OneAndZeros_pad block sz position = for_up 1 sz (\<lambda>j block. block[j := 0]) (block[0 := 0x80])"

fun OneAndZeros_unpad :: "byte list \<Rightarrow> nat \<Rightarrow> (botan_error + nat) option" where
  "OneAndZeros_unpad block 0 = Some (Inl (Decoding_Error ''OneAndZeros''))"
| "OneAndZeros_unpad block (Suc n) =
     (if block ! n = 0x80 then Some (Inr n)
      else if block ! n \<noteq> 0 then Some (Inl (Decoding_Error ''OneAndZeros''))
      else OneAndZeros_unpad block n)"

definition OneAndZeros_valid_blocksize :: "nat \<Rightarrow> bool" where
  "OneAndZeros_valid_blocksize sz = (sz \<noteq> 0)"

definition OneAndZeros_Padding :: PaddingMethod where
  "OneAndZeros_Padding = \<lparr>pad_name = ''OneAndZeros'', pad = OneAndZeros_pad, unpad = OneAndZeros_unpad,
     pad_bytes = default_pad_bytes, valid_blocksize = OneAndZeros_valid_blocksize\<rparr>"

definition Null_Padding :: PaddingMethod where
  "Null_Padding = \<lparr>pad_name = ''NoPadding'', pad = (\<lambda>block _ _. block), unpad = (\<lambda>_ sz. Some (Inr sz)),
     pad_bytes = (\<lambda>_ _. 0), valid_blocksize = (\<lambda>_. True)\<rparr>"

section \<open>The contract of a padding method\<close>

text \<open>The bytes a mode appends when the last block holds \<open>data\<close>.\<close>

definition padding_of :: "PaddingMethod \<Rightarrow> nat \<Rightarrow> nat \<Rightarrow> byte list" where
  "padding_of p bs pos = take (pad_bytes p bs pos) (pad p (replicate bs 0) bs pos)"

locale padding =
  fixes p :: PaddingMethod
  assumes padding_fills: "valid_blocksize p bs \<Longrightarrow> pos < bs \<Longrightarrow> length (padding_of p bs pos) = bs - pos"
    and pad_bytes_le: "valid_blocksize p bs \<Longrightarrow> pos < bs \<Longrightarrow> pad_bytes p bs pos \<le> bs"
    and length_pad: "valid_blocksize p bs \<Longrightarrow> pos < bs \<Longrightarrow> length (pad p (replicate bs 0) bs pos) = bs"
    and unpad_padding: "valid_blocksize p bs \<Longrightarrow> length data < bs \<Longrightarrow>
      unpad p (data @ padding_of p bs (length data)) bs = Some (Inr (length data))"

lemma fill_loop: "n \<le> length xs \<Longrightarrow> for_up 0 n (\<lambda>j xs. xs[j := v]) xs = replicate n v @ drop n xs"
proof (induction n)
  case (Suc n)
  then have "drop n xs = xs ! n # drop (Suc n) xs" by (simp add: Cons_nth_drop_Suc)
  then show ?case using Suc by (simp add: for_up_Suc list_update_append replicate_append_same)
qed simp

lemma check_bytes_ok:
  assumes "j \<le> stop" and "stop \<le> length block" and "\<And>i. j \<le> i \<Longrightarrow> i < stop \<Longrightarrow> unat (block ! i) = v"
  shows "check_bytes block v j stop = Some True"
  using assms
proof (induction "stop - j" arbitrary: j)
  case (Suc n)
  then have "check_bytes block v (j + 1) stop = Some True" by simp
  then show ?case using Suc.hyps(2) Suc.prems by (subst check_bytes.simps) auto
qed (subst check_bytes.simps, simp)

lemma pad_length_byte: "pos < bs \<Longrightarrow> bs < 256 \<Longrightarrow> unat (of_nat (bs - pos) :: byte) = bs - pos"
  by (simp add: unat_of_nat take_bit_nat_eq_self del: of_nat_diff)

interpretation pkcs7: padding PKCS7_Padding
proof
  fix bs pos assume "valid_blocksize PKCS7_Padding bs" and "pos < bs"
  then show "length (padding_of PKCS7_Padding bs pos) = bs - pos"
    and "pad_bytes PKCS7_Padding bs pos \<le> bs" and "length (pad PKCS7_Padding (replicate bs 0) bs pos) = bs"
    by (simp_all add: padding_of_def PKCS7_Padding_def PKCS7_pad_def fill_loop default_pad_bytes_def)
next
  fix bs :: nat and data :: "byte list"
  assume bs: "valid_blocksize PKCS7_Padding bs" "length data < bs"
  define v where "v = (of_nat (bs - length data) :: byte)"
  let ?n = "bs - length data" and ?b = "data @ replicate (bs - length data) v"
  have b: "data @ padding_of PKCS7_Padding bs (length data) = ?b"
    using bs by (simp add: padding_of_def PKCS7_Padding_def PKCS7_pad_def fill_loop default_pad_bytes_def v_def del: of_nat_diff)
  have n: "unat v = ?n"
    unfolding v_def using bs by (intro pad_length_byte) (simp_all add: PKCS7_Padding_def PKCS7_valid_blocksize_def)
  have last: "?b ! (bs - 1) = v" using bs by (auto simp: nth_append)
  have "check_bytes ?b ?n (length data) (bs - 1) = Some True"
    using bs n by (intro check_bytes_ok) (auto simp: nth_append)
  then show "unpad PKCS7_Padding (data @ padding_of PKCS7_Padding bs (length data)) bs = Some (Inr (length data))"
    unfolding b using bs n last by (simp add: PKCS7_Padding_def PKCS7_unpad_def Let_def)
qed

interpretation x923: padding ANSI_X923_Padding
proof
  fix bs pos assume "valid_blocksize ANSI_X923_Padding bs" and "pos < bs"
  then show "length (padding_of ANSI_X923_Padding bs pos) = bs - pos"
    and "pad_bytes ANSI_X923_Padding bs pos \<le> bs" and "length (pad ANSI_X923_Padding (replicate bs 0) bs pos) = bs"
    by (simp_all add: padding_of_def ANSI_X923_Padding_def X923_pad_def fill_loop default_pad_bytes_def)
next
  fix bs :: nat and data :: "byte list"
  assume bs: "valid_blocksize ANSI_X923_Padding bs" "length data < bs"
  define v where "v = (of_nat (bs - length data) :: byte)"
  let ?n = "bs - length data" and ?b = "data @ replicate (bs - length data - 1) 0 @ [v]"
  have "replicate (Suc m) 0 = replicate m 0 @ [0 :: byte]" for m by (simp add: replicate_append_same)
  then have "(replicate ?n 0 @ zs)[?n - 1 := v] = replicate (?n - 1) 0 @ [v] @ zs" for zs
    using bs by (cases ?n) (simp_all add: list_update_append del: replicate_Suc)
  then have b: "data @ padding_of ANSI_X923_Padding bs (length data) = ?b"
    using bs by (simp add: padding_of_def ANSI_X923_Padding_def X923_pad_def fill_loop default_pad_bytes_def v_def del: of_nat_diff)
  have last: "?b ! (bs - 1) = v" using bs by (auto simp: nth_append)
  have n: "unat v = ?n"
    unfolding v_def using bs by (intro pad_length_byte) (simp_all add: ANSI_X923_Padding_def X923_valid_blocksize_def)
  have "check_bytes ?b 0 (length data) (bs - 1) = Some True"
    using bs by (intro check_bytes_ok) (auto simp: nth_append)
  then show "unpad ANSI_X923_Padding (data @ padding_of ANSI_X923_Padding bs (length data)) bs = Some (Inr (length data))"
    unfolding b using bs n last by (simp add: ANSI_X923_Padding_def X923_unpad_def Let_def)
qed

lemma OneAndZeros_unpad_zeros:
  "block ! m = 0x80 \<Longrightarrow> (\<And>i. m < i \<Longrightarrow> i < n \<Longrightarrow> block ! i = 0) \<Longrightarrow> m < n \<Longrightarrow> OneAndZeros_unpad block n = Some (Inr m)"
  by (induction n) (auto simp: less_Suc_eq)

lemma OneAndZeros_pad_eq: "0 < bs \<Longrightarrow> OneAndZeros_pad (replicate bs 0) bs pos = 0x80 # replicate (bs - 1) 0"
proof -
  have "for_up (Suc 0) bs (\<lambda>j block. block[j := 0]) (0x80 # replicate (bs - 1) 0) = (0x80 # replicate (bs - 1) 0 :: byte list)"
    if "0 < bs" for bs
    by (rule for_up_invariant[where I = "\<lambda>_ xs. xs = 0x80 # replicate (bs - 1) 0"])
      (use that in \<open>auto simp: list_update_id nth_Cons' list_eq_iff_nth_eq nth_list_update\<close>)
  moreover assume "0 < bs"
  moreover from this have "(replicate bs 0)[0 := 0x80 :: byte] = 0x80 # replicate (bs - 1) 0" by (cases bs) simp_all
  ultimately show ?thesis by (simp add: OneAndZeros_pad_def)
qed

interpretation one_and_zeros: padding OneAndZeros_Padding
proof
  fix bs pos :: nat assume "valid_blocksize OneAndZeros_Padding bs" and "pos < bs"
  then show "length (padding_of OneAndZeros_Padding bs pos) = bs - pos"
    and "pad_bytes OneAndZeros_Padding bs pos \<le> bs" and "length (pad OneAndZeros_Padding (replicate bs 0) bs pos) = bs"
    by (simp_all add: padding_of_def OneAndZeros_Padding_def OneAndZeros_pad_eq default_pad_bytes_def)
next
  fix bs :: nat and data :: "byte list"
  assume bs: "valid_blocksize OneAndZeros_Padding bs" "length data < bs"
  then have "data @ padding_of OneAndZeros_Padding bs (length data) = data @ 0x80 # replicate (bs - length data - 1) 0"
    by (cases "bs - length data") (simp_all add: padding_of_def OneAndZeros_Padding_def OneAndZeros_pad_eq default_pad_bytes_def)
  then show "unpad OneAndZeros_Padding (data @ padding_of OneAndZeros_Padding bs (length data)) bs = Some (Inr (length data))"
    using bs by (simp add: OneAndZeros_Padding_def, intro OneAndZeros_unpad_zeros) (auto simp: nth_append nth_Cons')
qed

end
