(* ===== verification/Mode_Base.thy ===== *)
theory Mode_Base
  imports BlockCipher SecMem Mode_Padding
begin

text \<open>
  What the modes of operation share (\<open>src/modes/modebase.cpp\<close>): the buffers of a \<open>BlockCipherMode\<close> and
  \<open>set_iv\<close>. A mode is a filter, it receives its input in pieces of any size and sends its output on; here the
  state keeps what has been sent. The keyed cipher is an argument of every operation, the pointer never changes.

  The locale \<open>byte_machine\<close> is the specification all modes are held against: a machine that takes one byte at a time
  and does something to its buffer when it is full. A mode whose \<open>write\<close> is that machine does not depend on how
  its input is cut into pieces.
\<close>

record Mode =
  bcm_buffer :: "byte list"
  bcm_state :: "byte list"
  position :: nat
  sent :: "byte list"

definition new_Mode :: "BlockCipher \<Rightarrow> nat \<Rightarrow> nat \<Rightarrow> Mode" where
  "new_Mode c iv_size buf_mult =
     \<lparr>bcm_buffer = reg_create (buf_mult * block_size c), bcm_state = reg_create iv_size, position = 0, sent = []\<rparr>"

definition mode_name :: "BlockCipher \<Rightarrow> string \<Rightarrow> string" where
  "mode_name c nm = cipher_name c @ ''/'' @ nm"

definition set_iv :: "BlockCipher \<Rightarrow> string \<Rightarrow> nat \<Rightarrow> byte list \<Rightarrow> Mode \<Rightarrow> botan_error + Mode" where
  "set_iv c nm iv_method new_iv m =
     (if length new_iv \<noteq> length (bcm_state m) then Inl (Invalid_IV_Length nm (length new_iv))
      else
        let m = m\<lparr>bcm_state := new_iv, bcm_buffer := reg_clear (bcm_buffer m), position := 0\<rparr>
        in Inr (if iv_method = 1 then m\<lparr>bcm_buffer := copy_mem (bcm_buffer m) (encrypt c (bcm_state m)) (block_size c)\<rparr>
                else if iv_method = 2 then m\<lparr>bcm_state := encrypt c (bcm_state m)\<rparr>
                else m))"

text \<open>\<open>send(bytes, n)\<close>\<close>

definition send :: "byte list \<Rightarrow> nat \<Rightarrow> Mode \<Rightarrow> Mode" where
  "send bs n m = m\<lparr>sent := sent m @ take n bs\<rparr>"

text \<open>A message in pieces.\<close>

fun write_all :: "('s \<Rightarrow> byte list \<Rightarrow> 's option) \<Rightarrow> byte list list \<Rightarrow> 's \<Rightarrow> 's option" where
  "write_all write [] s = Some s"
| "write_all write (xs # xss) s = (case write s xs of None \<Rightarrow> None | Some s \<Rightarrow> write_all write xss s)"

definition run_message ::
  "('s \<Rightarrow> byte list \<Rightarrow> 's option) \<Rightarrow> ('s \<Rightarrow> (botan_error + 's) option) \<Rightarrow> byte list list \<Rightarrow> 's \<Rightarrow> (botan_error + 's) option" where
  "run_message write end_msg xss s = (case write_all write xss s of None \<Rightarrow> None | Some s \<Rightarrow> end_msg s)"

abbreviation xor_bytes :: "byte list \<Rightarrow> byte list \<Rightarrow> byte list" where
  "xor_bytes xs ys \<equiv> map2 (XOR) xs ys"

lemma xor_buf_map2:
  assumes "n \<le> length out" and "n \<le> length inp"
  shows "xor_buf out inp n = xor_bytes (take n out) (take n inp) @ drop n out"
  using assms by (simp add: xor_buf_val, intro nth_equalityI) simp_all

lemma xor_buf3_map2:
  assumes "n \<le> length out" and "n \<le> length inp" and "n \<le> length inp2"
  shows "xor_buf3 out inp inp2 n = xor_bytes (take n inp) (take n inp2) @ drop n out"
  using assms by (simp add: xor_buf3_val, intro nth_equalityI) simp_all

lemma xor_bytes_cancel: "length xs = length ys \<Longrightarrow> xor_bytes (xor_bytes xs ys) ys = xs"
  by (induction xs ys rule: list_induct2) (simp_all add: xor.assoc)

lemma xor_bytes_cancel_left: "length xs = length ys \<Longrightarrow> xor_bytes xs (xor_bytes xs ys) = ys"
  by (induction xs ys rule: list_induct2) (simp_all flip: xor.assoc)

lemma xor_bytes_commute: "xor_bytes xs ys = xor_bytes ys xs"
  by (induction xs ys rule: list_induct2') (simp_all add: xor.commute)

text \<open>A message of full blocks.\<close>

lemma split_blocks:
  assumes "0 < n" and "n dvd length xs"
  shows "\<exists>ps. xs = concat ps \<and> (\<forall>p \<in> set ps. length p = n)"
  using assms(2)
proof (induction "length xs" arbitrary: xs rule: less_induct)
  case less
  show ?case
  proof (cases "xs = []")
    case True
    then show ?thesis by (intro exI[of _ "[]"]) simp
  next
    case False
    then have n: "n \<le> length xs" using less.prems by (simp add: dvd_imp_le)
    then have "n dvd length (drop n xs)" using less.prems by (simp add: dvd_diff_nat)
    then obtain ps where ps: "drop n xs = concat ps" "\<forall>p \<in> set ps. length p = n"
      using less.hyps[of "drop n xs"] n assms(1) False by auto
    have "xs = concat (take n xs # ps)" by (simp add: ps(1)[symmetric])
    then show ?thesis using ps(2) n by (intro exI[of _ "take n xs # ps"]) simp
  qed
qed

lemma split_message:
  assumes "0 < n"
  shows "\<exists>ps r. xs = concat ps @ r \<and> (\<forall>p \<in> set ps. length p = n) \<and> length r = length xs mod n"
proof -
  let ?k = "n * (length xs div n)"
  have k: "?k \<le> length xs" by simp
  then have "n dvd length (take ?k xs)" by simp
  then obtain ps where "take ?k xs = concat ps" "\<forall>p \<in> set ps. length p = n" using split_blocks[OF assms] by blast
  moreover have "length (drop ?k xs) = length xs mod n" by (simp add: minus_mult_div_eq_mod)
  moreover have "xs = take ?k xs @ drop ?k xs" by simp
  ultimately show ?thesis by metis
qed

section \<open>Byte machines\<close>

text \<open>A machine that acts as soon as its buffer is full, and one that acts only when more input arrives.\<close>

definition eager_step :: "nat \<Rightarrow> ('s \<Rightarrow> nat) \<Rightarrow> (byte \<Rightarrow> 's \<Rightarrow> 's) \<Rightarrow> ('s \<Rightarrow> 's) \<Rightarrow> byte \<Rightarrow> 's \<Rightarrow> 's" where
  "eager_step n pos absorb flush b s = (let s = absorb b s in if pos s = n then flush s else s)"

definition lazy_step :: "nat \<Rightarrow> ('s \<Rightarrow> nat) \<Rightarrow> (byte \<Rightarrow> 's \<Rightarrow> 's) \<Rightarrow> ('s \<Rightarrow> 's) \<Rightarrow> byte \<Rightarrow> 's \<Rightarrow> 's" where
  "lazy_step n pos absorb flush b s = absorb b (if pos s = n then flush s else s)"

locale byte_machine =
  fixes n :: nat and pos :: "'s \<Rightarrow> nat" and absorb :: "byte \<Rightarrow> 's \<Rightarrow> 's" and flush :: "'s \<Rightarrow> 's" and wf :: "'s \<Rightarrow> bool"
  assumes wf_absorb: "wf s \<Longrightarrow> pos s < n \<Longrightarrow> wf (absorb b s) \<and> pos (absorb b s) = Suc (pos s)"
    and wf_flush: "wf s \<Longrightarrow> pos s = n \<Longrightarrow> wf (flush s) \<and> pos (flush s) < n"
    and wf_pos: "wf s \<Longrightarrow> pos s \<le> n"
begin

lemma fold_absorb:
  "wf s \<Longrightarrow> pos s + length xs \<le> n \<Longrightarrow> wf (fold absorb xs s) \<and> pos (fold absorb xs s) = pos s + length xs"
  by (induction xs arbitrary: s) (auto simp: wf_absorb)

lemma eager_chunk:
  assumes "wf s" and "pos s < n" and "pos s + length xs \<le> n"
  shows "fold (eager_step n pos absorb flush) xs s =
    (let s = fold absorb xs s in if pos s = n then flush s else s)"
  using assms
proof (induction xs arbitrary: s)
  case (Cons b xs)
  show ?case
  proof (cases xs)
    case Nil
    then show ?thesis by (simp add: eager_step_def)
  next
    case (Cons b' xs')
    then have "pos (absorb b s) < n" "wf (absorb b s)" "pos (absorb b s) + length xs \<le> n"
      using wf_absorb[of s b] Cons.prems by auto
    then show ?thesis using Cons.IH[of "absorb b s"] by (simp add: eager_step_def Let_def)
  qed
qed simp

lemma lazy_chunk:
  assumes "wf s" and "pos s + length xs \<le> n"
  shows "fold (lazy_step n pos absorb flush) xs s = fold absorb xs s"
  using assms by (induction xs arbitrary: s) (auto simp: lazy_step_def wf_absorb)

lemma lazy_flush: "pos s = n \<Longrightarrow> wf s \<Longrightarrow> xs \<noteq> [] \<Longrightarrow>
    fold (lazy_step n pos absorb flush) xs s = fold (lazy_step n pos absorb flush) xs (flush s)"
  using wf_flush[of s] by (cases xs) (auto simp: lazy_step_def)

lemma eager_wf:
  assumes "wf s" and "pos s < n"
  shows "wf (fold (eager_step n pos absorb flush) xs s) \<and> pos (fold (eager_step n pos absorb flush) xs s) < n"
  using assms
proof (induction xs arbitrary: s)
  case (Cons b xs)
  then have "wf (eager_step n pos absorb flush b s)" "pos (eager_step n pos absorb flush b s) < n"
    using wf_absorb[of s b] wf_flush[of "absorb b s"] by (auto simp: eager_step_def Let_def)
  then show ?case using Cons.IH by simp
qed simp

lemma lazy_wf: "wf s \<Longrightarrow> wf (fold (lazy_step n pos absorb flush) xs s)"
proof (induction xs arbitrary: s)
  case (Cons b xs)
  then have "wf (lazy_step n pos absorb flush b s)"
    using wf_absorb[of s b] wf_absorb[of "flush s" b] wf_flush[of s] wf_pos[of s]
    by (cases "pos s = n") (auto simp: lazy_step_def)
  then show ?case using Cons.IH by simp
qed simp

text \<open>The shapes of \<open>while (length)\<close> loop the modes have.\<close>

lemma eager_loop:
  assumes loop: "\<And>s xs. wf s \<Longrightarrow> pos s < n \<Longrightarrow> xs \<noteq> [] \<Longrightarrow> write s xs =
      (let k = min (n - pos s) (length xs); s = fold absorb (take k xs) s
       in write (if pos s = n then flush s else s) (drop k xs))"
    and nil: "\<And>s. write s [] = Some s"
    and "wf s" and "pos s < n"
  shows "write s xs = Some (fold (eager_step n pos absorb flush) xs s)"
  using assms(3,4)
proof (induction "length xs" arbitrary: xs s rule: less_induct)
  case less
  show ?case
  proof (cases "xs = []")
    case False
    let ?k = "min (n - pos s) (length xs)" and ?step = "eager_step n pos absorb flush"
    have k: "pos s + length (take ?k xs) \<le> n" "0 < ?k" using less.prems(2) False by auto
    have "write s xs = write (fold ?step (take ?k xs) s) (drop ?k xs)"
      using loop[OF less.prems False] eager_chunk[OF less.prems k(1)] by (simp add: Let_def)
    also have "\<dots> = Some (fold ?step (drop ?k xs) (fold ?step (take ?k xs) s))"
      using less.hyps[of "drop ?k xs"] eager_wf[OF less.prems, of "take ?k xs"] k(2) False by simp
    also have "fold ?step (drop ?k xs) (fold ?step (take ?k xs) s) = fold ?step (take ?k xs @ drop ?k xs) s"
      by (simp only: fold_append comp_apply)
    finally show ?thesis by simp
  qed (simp add: nil)
qed

lemma lazy_loop:
  assumes loop: "\<And>s xs. wf s \<Longrightarrow> xs \<noteq> [] \<Longrightarrow> write s xs =
      (let s = (if pos s = n then flush s else s); k = min (n - pos s) (length xs)
       in write (fold absorb (take k xs) s) (drop k xs))"
    and nil: "\<And>s. write s [] = Some s"
    and "wf s"
  shows "write s xs = Some (fold (lazy_step n pos absorb flush) xs s)"
  using assms(3)
proof (induction "length xs" arbitrary: xs s rule: less_induct)
  case less
  show ?case
  proof (cases "xs = []")
    case False
    define t where "t = (if pos s = n then flush s else s)"
    let ?k = "min (n - pos t) (length xs)" and ?step = "lazy_step n pos absorb flush"
    have t: "wf t" "pos t < n" using less.prems wf_flush[of s] wf_pos[of s] by (auto simp: t_def)
    then have k: "pos t + length (take ?k xs) \<le> n" "0 < ?k" using False by auto
    have "write s xs = write (fold ?step (take ?k xs) t) (drop ?k xs)"
      using loop[OF less.prems False] lazy_chunk[OF t(1) k(1)] by (simp add: Let_def t_def)
    also have "\<dots> = Some (fold ?step (drop ?k xs) (fold ?step (take ?k xs) t))"
      using less.hyps[of "drop ?k xs"] lazy_wf[OF t(1), of "take ?k xs"] k(2) False by simp
    also have "fold ?step (drop ?k xs) (fold ?step (take ?k xs) t) = fold ?step (take ?k xs @ drop ?k xs) t"
      by (simp only: fold_append comp_apply)
    also have "\<dots> = fold ?step xs s" using lazy_flush[of s xs] less.prems False by (simp add: t_def)
    finally show ?thesis .
  qed (simp add: nil)
qed

end

text \<open>A \<open>write\<close> that is a fold over the bytes, on the part \<open>v\<close> of the state that matters, does not see where its
  input is cut.\<close>

lemma write_all_view:
  assumes "\<And>s xs. I s \<Longrightarrow> \<exists>s'. write s xs = Some s' \<and> I s' \<and> v s' = fold step xs (v s)" and "I s"
  shows "\<exists>s'. write_all write xss s = Some s' \<and> I s' \<and> v s' = fold step (concat xss) (v s)"
  using assms(2)
proof (induction xss arbitrary: s)
  case (Cons xs xss)
  obtain s' where s': "write s xs = Some s'" "I s'" "v s' = fold step xs (v s)" using assms(1)[OF Cons.prems] by blast
  then show ?case using Cons.IH[of s'] by simp
qed simp

lemma write_all_fold:
  assumes "\<And>s xs. I s \<Longrightarrow> write s xs = Some (fold step xs s) \<and> I (fold step xs s)" and "I s"
  shows "write_all write xss s = Some (fold step (concat xss) s)"
  using write_all_view[where v = id and I = I] assms by fastforce

section \<open>Stream modes\<close>

text \<open>A machine whose output is its input xored with bytes \<open>K s 0\<close>, \<open>K s 1\<close>, ... that depend on its state alone.\<close>

lemma keystream:
  assumes "\<And>s b. I s \<Longrightarrow> I (step b s) \<and> out (step b s) = out s @ [b XOR K s 0] \<and> (\<forall>i. K (step b s) i = K s (Suc i))"
    and "I s"
  shows "out (fold step xs s) = out s @ map (\<lambda>i. xs ! i XOR K s i) [0..<length xs]"
  using assms(2)
proof (induction xs arbitrary: s)
  case (Cons b xs)
  note b = assms(1)[OF Cons.prems, of b]
  have "map (\<lambda>i. (b # xs) ! i XOR K s i) [0..<Suc (length xs)] = (b XOR K s 0) # map (\<lambda>i. xs ! i XOR K s (Suc i)) [0..<length xs]"
    by (simp add: upt_conv_Cons map_Suc_upt[symmetric] comp_def del: upt_Suc map_Suc_upt)
  then show ?case using b Cons.IH[of "step b s"] by (simp del: upt_Suc)
qed simp

text \<open>Two machines that stay in step when the second reads what the first writes.\<close>

lemma stream_inverse:
  assumes "\<And>s t b. R s t \<Longrightarrow> \<exists>y. out (f b s) = out s @ [y] \<and> out (g y t) = out t @ [b] \<and> R (f b s) (g y t)"
    and "R s t"
  shows "\<exists>ys. out (fold f xs s) = out s @ ys \<and> out (fold g ys t) = out t @ xs \<and> length ys = length xs"
  using assms(2)
proof (induction xs arbitrary: s t)
  case (Cons b xs)
  obtain y where y: "out (f b s) = out s @ [y]" "out (g y t) = out t @ [b]" "R (f b s) (g y t)"
    using assms(1)[OF Cons.prems] by blast
  then obtain ys where "out (fold f xs (f b s)) = out s @ [y] @ ys" "out (fold g ys (g y t)) = out t @ [b] @ xs" "length ys = length xs"
    using Cons.IH[of "f b s" "g y t"] by auto
  then show ?case by (intro exI[of _ "y # ys"]) simp
qed simp

end
