(* ===== verification/Mode_Stream.thy ===== *)
theory Mode_Stream
  imports Mode_Base Parsing
begin

text \<open>
  The modes that turn a block cipher into a stream cipher: CTR (\<open>src/modes/ctr/ctr.cpp\<close>), OFB
  (\<open>src/modes/ofb/ofb.cpp\<close>) and CFB (\<open>src/modes/cfb/cfb.cpp\<close>). CTR and OFB output the input xored with a
  key stream; CFB feeds its ciphertext back.
\<close>

section \<open>CTR\<close>

text \<open>\<open>for (j = BLOCK_SIZE - 1; j >= 0; --j) if (++state[j]) break;\<close>\<close>

fun increment_loop :: "byte list \<Rightarrow> nat \<Rightarrow> byte list" where
  "increment_loop st 0 = st"
| "increment_loop st (Suc j) =
     (let st = st[j := st ! j + 1] in if st ! j \<noteq> 0 then st else increment_loop st j)"

definition increment_counter :: "BlockCipher \<Rightarrow> Mode \<Rightarrow> Mode" where
  "increment_counter c m =
     (let m = m\<lparr>bcm_state := increment_loop (bcm_state m) (block_size c)\<rparr>
      in m\<lparr>bcm_buffer := copy_mem (bcm_buffer m) (encrypt c (bcm_state m)) (block_size c), position := 0\<rparr>)"

partial_function (option) CTR_BE_blocks :: "BlockCipher \<Rightarrow> Mode \<Rightarrow> byte list \<Rightarrow> (Mode \<times> byte list) option" where
  "CTR_BE_blocks c m input =
     (if length input \<ge> block_size c then
        let m = m\<lparr>bcm_buffer := xor_buf (bcm_buffer m) input (block_size c)\<rparr>;
            m = send (bcm_buffer m) (block_size c) m
        in CTR_BE_blocks c (increment_counter c m) (drop (block_size c) input)
      else Some (m, input))"

definition CTR_BE_write :: "BlockCipher \<Rightarrow> Mode \<Rightarrow> byte list \<Rightarrow> Mode option" where
  "CTR_BE_write c m input =
     (let copied = min (block_size c - position m) (length input);
          m = m\<lparr>bcm_buffer := at_ptr (position m) (\<lambda>p. xor_buf p input copied) (bcm_buffer m)\<rparr>;
          m = send (drop (position m) (bcm_buffer m)) copied m;
          input = drop copied input;
          m = m\<lparr>position := position m + copied\<rparr>;
          m = (if position m = block_size c then increment_counter c m else m)
      in case CTR_BE_blocks c m input of None \<Rightarrow> None
         | Some (m, input) \<Rightarrow>
             let m = m\<lparr>bcm_buffer := at_ptr (position m) (\<lambda>p. xor_buf p input (length input)) (bcm_buffer m)\<rparr>;
                 m = send (drop (position m) (bcm_buffer m)) (length input) m
             in Some (m\<lparr>position := position m + length input\<rparr>))"

section \<open>OFB\<close>

partial_function (option) OFB_blocks :: "BlockCipher \<Rightarrow> Mode \<Rightarrow> byte list \<Rightarrow> (Mode \<times> byte list) option" where
  "OFB_blocks c m input =
     (if length input \<ge> block_size c then
        let m = m\<lparr>bcm_buffer := xor_buf3 (bcm_buffer m) input (bcm_state m) (block_size c)\<rparr>;
            m = send (bcm_buffer m) (block_size c) m
        in OFB_blocks c (m\<lparr>bcm_state := encrypt c (bcm_state m)\<rparr>) (drop (block_size c) input)
      else Some (m, input))"

definition OFB_write :: "BlockCipher \<Rightarrow> Mode \<Rightarrow> byte list \<Rightarrow> Mode option" where
  "OFB_write c m input =
     (let copied = min (block_size c - position m) (length input);
          m = m\<lparr>bcm_buffer := xor_buf3 (bcm_buffer m) input (drop (position m) (bcm_state m)) copied\<rparr>;
          m = send (bcm_buffer m) copied m;
          input = drop copied input;
          m = m\<lparr>position := position m + copied\<rparr>;
          m = (if position m = block_size c then m\<lparr>bcm_state := encrypt c (bcm_state m), position := 0\<rparr> else m)
      in case OFB_blocks c m input of None \<Rightarrow> None
         | Some (m, input) \<Rightarrow>
             let m = m\<lparr>bcm_buffer := xor_buf3 (bcm_buffer m) input (drop (position m) (bcm_state m)) (length input)\<rparr>;
                 m = send (bcm_buffer m) (length input) m
             in Some (m\<lparr>position := position m + length input\<rparr>))"

section \<open>CFB\<close>

text \<open>The feedback size in bytes, after \<open>check_feedback\<close>.\<close>

definition CFB_feedback_size :: "BlockCipher \<Rightarrow> nat \<Rightarrow> botan_error + nat" where
  "CFB_feedback_size c bits =
     (let FEEDBACK_SIZE = (if bits \<noteq> 0 then bits div 8 else block_size c)
      in if FEEDBACK_SIZE = 0 \<or> FEEDBACK_SIZE > block_size c \<or> bits mod 8 \<noteq> 0
         then Inl (Invalid_Argument (mode_name c ''CFB'' @ '': Invalid feedback size '' @ to_string bits 0))
         else Inr FEEDBACK_SIZE)"

definition CFB_feedback :: "BlockCipher \<Rightarrow> nat \<Rightarrow> Mode \<Rightarrow> Mode" where
  "CFB_feedback c F m =
     (let st = for_up 0 (block_size c - F) (\<lambda>j st. st[j := st ! (j + F)]) (bcm_state m);
          st = reg_copy st (block_size c - F) (bcm_buffer m) F
      in m\<lparr>bcm_state := st, bcm_buffer := copy_mem (bcm_buffer m) (encrypt c st) (block_size c), position := 0\<rparr>)"

partial_function (option) CFB_Encryption_write :: "BlockCipher \<Rightarrow> nat \<Rightarrow> Mode \<Rightarrow> byte list \<Rightarrow> Mode option" where
  "CFB_Encryption_write c F m input =
     (if input = [] then Some m
      else
        let xored = min (F - position m) (length input);
            m = m\<lparr>bcm_buffer := at_ptr (position m) (\<lambda>p. xor_buf p input xored) (bcm_buffer m)\<rparr>;
            m = send (drop (position m) (bcm_buffer m)) xored m;
            m = m\<lparr>position := position m + xored\<rparr>
        in CFB_Encryption_write c F (if position m = F then CFB_feedback c F m else m) (drop xored input))"

partial_function (option) CFB_Decryption_write :: "BlockCipher \<Rightarrow> nat \<Rightarrow> Mode \<Rightarrow> byte list \<Rightarrow> Mode option" where
  "CFB_Decryption_write c F m input =
     (if input = [] then Some m
      else
        let xored = min (F - position m) (length input);
            m = m\<lparr>bcm_buffer := at_ptr (position m) (\<lambda>p. xor_buf p input xored) (bcm_buffer m)\<rparr>;
            m = send (drop (position m) (bcm_buffer m)) xored m;
            m = m\<lparr>bcm_buffer := reg_copy (bcm_buffer m) (position m) input xored\<rparr>;
            m = m\<lparr>position := position m + xored\<rparr>
        in CFB_Decryption_write c F (if position m = F then CFB_feedback c F m else m) (drop xored input))"

section \<open>CTR is a byte machine\<close>

definition ctr_wf :: "BlockCipher \<Rightarrow> Mode \<Rightarrow> bool" where
  "ctr_wf c m \<longleftrightarrow> cipher_ok c \<and> length (bcm_state m) = block_size c \<and> length (bcm_buffer m) = block_size c \<and>
     position m \<le> block_size c"

definition ctr_absorb :: "byte \<Rightarrow> Mode \<Rightarrow> Mode" where
  "ctr_absorb b m =
     m\<lparr>bcm_buffer := (bcm_buffer m)[position m := bcm_buffer m ! position m XOR b],
       sent := sent m @ [bcm_buffer m ! position m XOR b], position := position m + 1\<rparr>"

lemma length_increment_loop [simp, size_simps]: "length (increment_loop st j) = length st"
  by (induction j arbitrary: st) (simp_all add: Let_def)

interpretation ctr: byte_machine "block_size c" position ctr_absorb "increment_counter c" "ctr_wf c" for c
  by unfold_locales (auto simp: ctr_wf_def ctr_absorb_def increment_counter_def cipher_okD copy_mem_def Let_def)

abbreviation ctr_step :: "BlockCipher \<Rightarrow> byte \<Rightarrow> Mode \<Rightarrow> Mode" where
  "ctr_step c \<equiv> eager_step (block_size c) position ctr_absorb (increment_counter c)"

lemma ctr_absorb_bulk:
  "position m + length xs \<le> length (bcm_buffer m) \<Longrightarrow> fold ctr_absorb xs m =
    m\<lparr>bcm_buffer := at_ptr (position m) (\<lambda>p. xor_buf p xs (length xs)) (bcm_buffer m),
      sent := sent m @ xor_bytes (take (length xs) (drop (position m) (bcm_buffer m))) xs,
      position := position m + length xs\<rparr>"
proof (induction xs arbitrary: m)
  case Nil
  then show ?case by (simp add: at_ptr_def xor_buf_map2)
next
  case (Cons b xs)
  let ?k = "position m" and ?s = "bcm_buffer m"
  have k: "?k < length ?s" "drop ?k ?s = ?s ! ?k # drop (Suc ?k) ?s" using Cons.prems by (simp_all add: Cons_nth_drop_Suc)
  show ?case using Cons.IH[of "ctr_absorb b m"] Cons.prems k
    by (simp add: ctr_absorb_def[of b m] at_ptr_def xor_buf_map2 take_Suc_nth)
qed

text \<open>One piece that ends at or before the end of the block.\<close>

lemma ctr_piece:
  assumes "ctr_wf c m" and "position m < block_size c" and "position m + n \<le> block_size c" and "n \<le> length xs"
  shows "fold (ctr_step c) (take n xs) m =
    (let m = m\<lparr>bcm_buffer := at_ptr (position m) (\<lambda>p. xor_buf p xs n) (bcm_buffer m)\<rparr>;
         m = send (drop (position m) (bcm_buffer m)) n m;
         m = m\<lparr>position := position m + n\<rparr>
     in if position m = block_size c then increment_counter c m else m)"
proof -
  have "length (bcm_buffer m) = block_size c" using assms(1) by (simp add: ctr_wf_def)
  then have "fold ctr_absorb (take n xs) m =
      (send (drop (position m) (at_ptr (position m) (\<lambda>p. xor_buf p xs n) (bcm_buffer m))) n
        (m\<lparr>bcm_buffer := at_ptr (position m) (\<lambda>p. xor_buf p xs n) (bcm_buffer m)\<rparr>))\<lparr>position := position m + n\<rparr>"
    using assms by (subst ctr_absorb_bulk) (simp_all add: at_ptr_def xor_buf_map2 send_def min_absorb2)
  then show ?thesis using ctr.eager_chunk[OF assms(1,2), of "take n xs"] assms(3,4) by (simp add: Let_def send_def)
qed

lemma CTR_BE_blocks_step:
  assumes "ctr_wf c m" and "position m < block_size c" and "length xs \<ge> block_size c \<Longrightarrow> position m = 0"
  shows "\<exists>ys zs. CTR_BE_blocks c m xs = Some (fold (ctr_step c) ys m, zs) \<and> xs = ys @ zs \<and> length zs < block_size c \<and>
    (ys \<noteq> [] \<longrightarrow> position (fold (ctr_step c) ys m) = 0)"
  using assms
proof (induction "length xs" arbitrary: xs m rule: less_induct)
  case less
  show ?case
  proof (cases "block_size c \<le> length xs")
    case True
    let ?b = "block_size c" and ?m = "fold (ctr_step c) (take (block_size c) xs) m"
    have l: "length (bcm_buffer m) = ?b" using less.prems(1) by (simp add: ctr_wf_def)
    have "?m = increment_counter c (send (xor_buf (bcm_buffer m) xs ?b) ?b (m\<lparr>bcm_buffer := xor_buf (bcm_buffer m) xs ?b\<rparr>))"
      using ctr_piece[OF less.prems(1,2), of ?b xs] True less.prems(3)
      by (simp add: Let_def at_ptr_def increment_counter_def send_def)
    then have s: "CTR_BE_blocks c m xs = CTR_BE_blocks c ?m (drop ?b xs)"
      using True by (subst CTR_BE_blocks.simps) (simp add: Let_def)
    have m: "ctr_wf c ?m" "position ?m < ?b" using ctr.eager_wf[OF less.prems(1,2), of "take ?b xs"] by simp_all
    have m0: "position ?m = 0"
      using ctr_piece[OF less.prems(1,2), of ?b xs] True less.prems(3) by (simp add: Let_def send_def increment_counter_def)
    have "length (drop ?b xs) < length xs" using True less.prems(2) by simp
    then obtain ys zs where "CTR_BE_blocks c ?m (drop ?b xs) = Some (fold (ctr_step c) ys ?m, zs)" "drop ?b xs = ys @ zs"
        "length zs < ?b" "ys \<noteq> [] \<longrightarrow> position (fold (ctr_step c) ys ?m) = 0"
      using less.hyps[of "drop ?b xs" ?m] m m0 by blast
    moreover from this have "xs = (take ?b xs @ ys) @ zs" by (metis append_assoc append_take_drop_id)
    ultimately have "CTR_BE_blocks c m xs = Some (fold (ctr_step c) (take ?b xs @ ys) m, zs) \<and> xs = (take ?b xs @ ys) @ zs \<and>
        length zs < ?b \<and> position (fold (ctr_step c) (take ?b xs @ ys) m) = 0"
      using s m0 by (cases "ys = []") simp_all
    then show ?thesis by blast
  next
    case False
    then have "CTR_BE_blocks c m xs = Some (m, xs)" by (subst CTR_BE_blocks.simps) simp
    then show ?thesis using False by (intro exI[of _ "[]"] exI[of _ xs]) simp
  qed
qed

lemma CTR_BE_write_step:
  assumes "ctr_wf c m" and "position m < block_size c"
  shows "CTR_BE_write c m xs = Some (fold (ctr_step c) xs m)"
proof -
  define k where "k = min (block_size c - position m) (length xs)"
  define m1 where "m1 = fold (ctr_step c) (take k xs) m"
  have k: "position m + k \<le> block_size c" "k \<le> length xs" using assms by (auto simp: k_def)
  note p1 = ctr_piece[OF assms k, folded m1_def]
  have m1: "ctr_wf c m1" "position m1 < block_size c" using ctr.eager_wf[OF assms] by (simp_all add: m1_def)
  have pos: "drop k xs = [] \<or> position m1 = 0"
    unfolding p1 using k by (auto simp: Let_def k_def send_def increment_counter_def min_def split: if_splits)
  then have "length (drop k xs) \<ge> block_size c \<Longrightarrow> position m1 = 0" using assms(2) by auto
  from CTR_BE_blocks_step[OF m1 this] obtain ys zs where b: "CTR_BE_blocks c m1 (drop k xs) = Some (fold (ctr_step c) ys m1, zs)"
      "drop k xs = ys @ zs" "length zs < block_size c" "ys \<noteq> [] \<longrightarrow> position (fold (ctr_step c) ys m1) = 0" by blast
  define m2 where "m2 = fold (ctr_step c) ys m1"
  have m2: "ctr_wf c m2" "position m2 < block_size c" using ctr.eager_wf[OF m1] by (simp_all add: m2_def)
  have z: "position m2 + length zs < block_size c" "length zs \<le> length zs"
    using pos b m1(2) by (cases "ys = []"; auto simp: m2_def)+
  have "fold (ctr_step c) zs m2 =
      (let m = m2\<lparr>bcm_buffer := at_ptr (position m2) (\<lambda>p. xor_buf p zs (length zs)) (bcm_buffer m2)\<rparr>;
           m = send (drop (position m) (bcm_buffer m)) (length zs) m
       in m\<lparr>position := position m + length zs\<rparr>)"
    using ctr_piece[OF m2 less_imp_le[OF z(1)] z(2)] z(1) by (simp add: Let_def send_def)
  moreover have "xs = take k xs @ ys @ zs" by (simp flip: b(2))
  then have "fold (ctr_step c) xs m = fold (ctr_step c) zs m2" by (metis fold_append comp_apply m1_def m2_def)
  ultimately show ?thesis
    unfolding CTR_BE_write_def k_def[symmetric] using p1 b(1) by (simp add: Let_def m2_def)
qed

text \<open>The key stream: block \<open>i\<close> is the encryption of the counter after \<open>i\<close> increments.\<close>

definition ctr_key :: "BlockCipher \<Rightarrow> Mode \<Rightarrow> nat \<Rightarrow> byte" where
  "ctr_key c m i =
     (let j = position m + i
      in if j < block_size c then bcm_buffer m ! j
         else encrypt c (((\<lambda>st. increment_loop st (block_size c)) ^^ (j div block_size c)) (bcm_state m)) ! (j mod block_size c))"

lemma ctr_key_step:
  assumes "ctr_wf c m" and "position m < block_size c"
  shows "sent (ctr_step c b m) = sent m @ [b XOR ctr_key c m 0]" and "ctr_key c (ctr_step c b m) i = ctr_key c m (Suc i)"
proof -
  let ?b = "block_size c"
  have l: "length (bcm_buffer m) = ?b" "length (bcm_state m) = ?b" "cipher_ok c" using assms(1) by (simp_all add: ctr_wf_def)
  show "sent (ctr_step c b m) = sent m @ [b XOR ctr_key c m 0]"
    using assms(2) by (simp add: eager_step_def ctr_absorb_def increment_counter_def Let_def ctr_key_def xor.commute)
  show "ctr_key c (ctr_step c b m) i = ctr_key c m (Suc i)"
  proof (cases "position m + 1 = ?b")
    case True
    have s: "position m + Suc i = ?b + i" using True by simp
    have "ctr_step c b m = increment_counter c (ctr_absorb b m)"
      using True by (simp add: eager_step_def ctr_absorb_def Let_def)
    moreover have "?b \<noteq> 0" using assms(2) by linarith
    then have "(?b + i) div ?b = Suc (i div ?b)" using div_add_self1[of ?b i] by simp
    ultimately show ?thesis unfolding ctr_key_def s using l funpow_swap1[of "\<lambda>st. increment_loop st ?b" "i div ?b" "bcm_state m"]
      by (simp add: Let_def increment_counter_def ctr_absorb_def copy_mem_def nth_append cipher_okD)
  next
    case False
    then show ?thesis using assms(2) by (simp add: eager_step_def ctr_absorb_def Let_def ctr_key_def)
  qed
qed

lemma ctr_output:
  assumes "ctr_wf c m" and "position m < block_size c"
  shows "sent (fold (ctr_step c) xs m) = sent m @ map (\<lambda>i. xs ! i XOR ctr_key c m i) [0..<length xs]"
  by (rule keystream[where I = "\<lambda>m. ctr_wf c m \<and> position m < block_size c"])
    (use assms ctr_key_step ctr.eager_wf[of c _ "[b]" for b] in auto)

text \<open>The counter is a big-endian number.\<close>

lemma increment_loop_val:
  assumes "n \<le> length st"
  shows "be_val (take n (increment_loop st n)) = (be_val (take n st) + 1) mod 256 ^ n \<and>
    drop n (increment_loop st n) = drop n st"
  using assms
proof (induction n arbitrary: st)
  case (Suc n)
  let ?x = "st ! n" and ?s = "st[n := st ! n + 1]"
  have t: "take (Suc n) xs = take n xs @ [xs ! n]" if "length xs = length st" for xs
    using Suc.prems that by (simp add: take_Suc_conv_app_nth)
  let ?v = "be_val (take n st)"
  have v: "?v < 256 ^ n" using be_val_bound[of "take n st"] Suc.prems by (simp add: min_def split: if_splits)
  show ?case
  proof (cases "?x + 1 = 0")
    case True
    have x: "unat ?x = 255" using add_overflow_val[of ?x 1] unat_less_base[of ?x] True by (auto simp: of_bool_def split: if_splits)
    let ?r = "increment_loop ?s n"
    have r: "be_val (take n ?r) = (?v + 1) mod 256 ^ n" "drop n ?r = drop n ?s" using Suc.IH[of ?s] Suc.prems by simp_all
    have "?r ! n = ?s ! n" using arg_cong[OF r(2), of hd] Suc.prems by (simp add: hd_drop_conv_nth)
    then have "be_val (take (Suc n) ?r) = ((?v + 1) mod 256 ^ n) * 256"
      using True Suc.prems r(1) by (simp add: t be_val_append)
    also have "\<dots> = ((?v + 1) * 256) mod 256 ^ Suc n" 
      using mult_mod_right[of 256 "?v + 1" "256 ^ n"] by (simp add: algebra_simps)
    also have "\<dots> = (be_val (take (Suc n) st) + 1) mod 256 ^ Suc n" using x by (simp add: t be_val_append)
    finally have "be_val (take (Suc n) ?r) = (be_val (take (Suc n) st) + 1) mod 256 ^ Suc n" .
    moreover have "drop (Suc n) ?r = drop (Suc n) st" using drop_eq_Suc[OF r(2)] by simp
    ultimately show ?thesis using True Suc.prems by simp
  next
    case False
    have x: "unat (?x + 1) = unat ?x + 1" using False unatSuc[of ?x] by (simp add: add.commute)
    then have "?v * 256 + (unat ?x + 1) < 256 ^ Suc n" using v unat_less_base[of "?x + 1"] by simp
    then show ?thesis using False x Suc.prems by (simp add: t be_val_append)
  qed
qed simp

section \<open>OFB is a byte machine\<close>

text \<open>The buffer only passes the output on; the machine is stated without it.\<close>

abbreviation ofb_view :: "Mode \<Rightarrow> Mode" where
  "ofb_view m \<equiv> m\<lparr>bcm_buffer := []\<rparr>"

definition ofb_wf :: "BlockCipher \<Rightarrow> Mode \<Rightarrow> bool" where
  "ofb_wf c m \<longleftrightarrow> cipher_ok c \<and> length (bcm_state m) = block_size c \<and> position m \<le> block_size c"

definition ofb_absorb :: "byte \<Rightarrow> Mode \<Rightarrow> Mode" where
  "ofb_absorb b m = m\<lparr>sent := sent m @ [b XOR bcm_state m ! position m], position := position m + 1\<rparr>"

definition ofb_flush :: "BlockCipher \<Rightarrow> Mode \<Rightarrow> Mode" where
  "ofb_flush c m = m\<lparr>bcm_state := encrypt c (bcm_state m), position := 0\<rparr>"

interpretation ofb: byte_machine "block_size c" position ofb_absorb "ofb_flush c" "ofb_wf c" for c
  by unfold_locales (auto simp: ofb_wf_def ofb_absorb_def ofb_flush_def cipher_okD)

abbreviation ofb_step :: "BlockCipher \<Rightarrow> byte \<Rightarrow> Mode \<Rightarrow> Mode" where
  "ofb_step c \<equiv> eager_step (block_size c) position ofb_absorb (ofb_flush c)"

lemma ofb_absorb_bulk:
  "position m + length xs \<le> length (bcm_state m) \<Longrightarrow> fold ofb_absorb xs m =
    m\<lparr>sent := sent m @ xor_bytes xs (take (length xs) (drop (position m) (bcm_state m))), position := position m + length xs\<rparr>"
proof (induction xs arbitrary: m)
  case (Cons b xs)
  then have "drop (position m) (bcm_state m) = bcm_state m ! position m # drop (Suc (position m)) (bcm_state m)"
    by (simp add: Cons_nth_drop_Suc)
  then show ?case using Cons.IH[of "ofb_absorb b m"] Cons.prems by (simp add: ofb_absorb_def[of b m])
qed simp

definition ofb_ok :: "BlockCipher \<Rightarrow> Mode \<Rightarrow> bool" where
  "ofb_ok c m \<longleftrightarrow> ofb_wf c m \<and> length (bcm_buffer m) = block_size c \<and> position m < block_size c"

lemma ofb_ok_view: "ofb_ok c m \<longleftrightarrow> ofb_wf c (ofb_view m) \<and> length (bcm_buffer m) = block_size c \<and> position (ofb_view m) < block_size c"
  by (simp add: ofb_ok_def ofb_wf_def)

definition ofb_piece :: "BlockCipher \<Rightarrow> nat \<Rightarrow> byte list \<Rightarrow> Mode \<Rightarrow> Mode" where
  "ofb_piece c n xs m =
     (let m = m\<lparr>bcm_buffer := xor_buf3 (bcm_buffer m) xs (drop (position m) (bcm_state m)) n\<rparr>;
          m = send (bcm_buffer m) n m;
          m = m\<lparr>position := position m + n\<rparr>
      in if position m = block_size c then m\<lparr>bcm_state := encrypt c (bcm_state m), position := 0\<rparr> else m)"

lemma ofb_piece_step:
  assumes "ofb_ok c m" and "position m + n \<le> block_size c" and "n \<le> length xs"
  shows "ofb_view (ofb_piece c n xs m) = fold (ofb_step c) (take n xs) (ofb_view m)" and "ofb_ok c (ofb_piece c n xs m)"
proof -
  have l: "length (bcm_state m) = block_size c" "length (bcm_buffer m) = block_size c" "position m < block_size c"
    using assms(1) by (simp_all add: ofb_ok_def ofb_wf_def)
  have "fold (ofb_step c) (take n xs) (ofb_view m) =
      (let s = fold ofb_absorb (take n xs) (ofb_view m) in if position s = block_size c then ofb_flush c s else s)"
    using ofb.eager_chunk[of c "ofb_view m" "take n xs"] assms by (simp add: ofb_ok_view min_def split: if_splits)
  then show v: "ofb_view (ofb_piece c n xs m) = fold (ofb_step c) (take n xs) (ofb_view m)"
    using ofb_absorb_bulk[of "ofb_view m" "take n xs"] assms(2,3) l
    by (simp add: ofb_piece_def Let_def send_def xor_buf3_map2 ofb_flush_def min_absorb2 take_map[symmetric])
  have "length (bcm_buffer (ofb_piece c n xs m)) = block_size c"
    using assms(2,3) l by (simp add: ofb_piece_def Let_def send_def xor_buf3_map2)
  then show "ofb_ok c (ofb_piece c n xs m)"
    using ofb.eager_wf[of c "ofb_view m" "take n xs"] assms(1) unfolding ofb_ok_view v by simp
qed

lemma OFB_blocks_step:
  assumes "ofb_ok c m" and "length xs \<ge> block_size c \<Longrightarrow> position m = 0"
  shows "\<exists>m' ys zs. OFB_blocks c m xs = Some (m', zs) \<and> ofb_ok c m' \<and> ofb_view m' = fold (ofb_step c) ys (ofb_view m) \<and>
    xs = ys @ zs \<and> length zs < block_size c \<and> (if ys = [] then m' = m else position m' = 0)"
  using assms
proof (induction "length xs" arbitrary: xs m rule: less_induct)
  case less
  show ?case
  proof (cases "block_size c \<le> length xs")
    case True
    let ?b = "block_size c" and ?m = "ofb_piece c (block_size c) xs m"
    have b: "0 < ?b" "position m = 0" using less.prems True by (auto simp: ofb_ok_def)
    have m: "ofb_view ?m = fold (ofb_step c) (take ?b xs) (ofb_view m)" "ofb_ok c ?m"
      using ofb_piece_step[OF less.prems(1), of ?b xs] True b by simp_all
    have s: "OFB_blocks c m xs = OFB_blocks c ?m (drop ?b xs)" and m0: "position ?m = 0"
      using True b by (cases m, subst OFB_blocks.simps, simp_all add: ofb_piece_def Let_def send_def)
    have "length (drop ?b xs) < length xs" using True b by simp
    then obtain m' ys zs where r: "OFB_blocks c ?m (drop ?b xs) = Some (m', zs)" "ofb_ok c m'"
        "ofb_view m' = fold (ofb_step c) ys (ofb_view ?m)" "drop ?b xs = ys @ zs" "length zs < ?b"
        "if ys = [] then m' = ?m else position m' = 0"
      using less.hyps[of "drop ?b xs" ?m] m m0 by blast
    have "xs = (take ?b xs @ ys) @ zs" using r(4) by (metis append_assoc append_take_drop_id)
    moreover have "ofb_view m' = fold (ofb_step c) (take ?b xs @ ys) (ofb_view m)" using r(3) m(1) by simp
    moreover have "take ?b xs @ ys \<noteq> []" using b True by auto
    ultimately have "OFB_blocks c m xs = Some (m', zs) \<and> ofb_ok c m' \<and> ofb_view m' = fold (ofb_step c) (take ?b xs @ ys) (ofb_view m) \<and>
        xs = (take ?b xs @ ys) @ zs \<and> length zs < ?b \<and> (if take ?b xs @ ys = [] then m' = m else position m' = 0)"
      using r s m0 by (simp split: if_splits)
    then show ?thesis by blast
  next
    case False
    then have "OFB_blocks c m xs = Some (m, xs)" by (subst OFB_blocks.simps) simp
    then show ?thesis using False less.prems(1) by (intro exI[of _ m]) auto
  qed
qed

lemma OFB_write_step:
  assumes "ofb_ok c m"
  shows "\<exists>m'. OFB_write c m xs = Some m' \<and> ofb_ok c m' \<and> ofb_view m' = fold (ofb_step c) xs (ofb_view m)"
proof -
  define k where "k = min (block_size c - position m) (length xs)"
  define m1 where "m1 = ofb_piece c k xs m"
  have k: "position m + k \<le> block_size c" "k \<le> length xs" using assms by (auto simp: k_def ofb_ok_def)
  note p1 = ofb_piece_step[OF assms k, folded m1_def]
  have pos: "drop k xs = [] \<or> position m1 = 0"
    using k by (auto simp: m1_def ofb_piece_def Let_def k_def send_def min_def split: if_splits)
  then have "length (drop k xs) \<ge> block_size c \<Longrightarrow> position m1 = 0" using assms by (auto simp: ofb_ok_def)
  from OFB_blocks_step[OF p1(2) this] obtain m2 ys zs where b: "OFB_blocks c m1 (drop k xs) = Some (m2, zs)" "ofb_ok c m2"
      "ofb_view m2 = fold (ofb_step c) ys (ofb_view m1)" "drop k xs = ys @ zs" "length zs < block_size c"
      "if ys = [] then m2 = m1 else position m2 = 0" by blast
  have z: "position m2 + length zs < block_size c" using pos b by (cases "ys = []") (auto simp: ofb_ok_def)
  define m3 where "m3 = ofb_piece c (length zs) zs m2"
  note p3 = ofb_piece_step[OF b(2) less_imp_le[OF z] order_refl, folded m3_def]
  have "OFB_write c m xs = Some m3"
    using b(1) z unfolding OFB_write_def k_def[symmetric]
    by (simp add: Let_def m1_def m3_def ofb_piece_def send_def)
  moreover have "xs = take k xs @ ys @ zs" by (simp flip: b(4))
  then have "ofb_view m3 = fold (ofb_step c) xs (ofb_view m)"
    using p1(1) b(3) p3(1) by (metis fold_append comp_apply take_all_iff order_refl)
  ultimately show ?thesis using p3(2) by blast
qed

definition ofb_key :: "BlockCipher \<Rightarrow> Mode \<Rightarrow> nat \<Rightarrow> byte" where
  "ofb_key c m i =
     (encrypt c ^^ ((position m + i) div block_size c)) (bcm_state m) ! ((position m + i) mod block_size c)"

lemma ofb_key_step:
  assumes "ofb_wf c m" and "position m < block_size c"
  shows "sent (ofb_step c b m) = sent m @ [b XOR ofb_key c m 0]" and "ofb_key c (ofb_step c b m) i = ofb_key c m (Suc i)"
proof -
  let ?b = "block_size c"
  show "sent (ofb_step c b m) = sent m @ [b XOR ofb_key c m 0]"
    using assms(2) by (simp add: eager_step_def ofb_absorb_def ofb_flush_def Let_def ofb_key_def)
  show "ofb_key c (ofb_step c b m) i = ofb_key c m (Suc i)"
  proof (cases "position m + 1 = ?b")
    case True
    have s: "position m + Suc i = ?b + i" using True by simp
    have "?b \<noteq> 0" using assms(2) by linarith
    then have "(?b + i) div ?b = Suc (i div ?b)" using div_add_self1[of ?b i] by simp
    then show ?thesis unfolding ofb_key_def s using True
      by (simp add: eager_step_def Let_def ofb_flush_def ofb_absorb_def funpow_swap1)
  next
    case False
    then show ?thesis using assms(2) by (simp add: eager_step_def ofb_absorb_def Let_def ofb_key_def)
  qed
qed

lemma ofb_output:
  assumes "ofb_wf c m" and "position m < block_size c"
  shows "sent (fold (ofb_step c) xs m) = sent m @ map (\<lambda>i. xs ! i XOR ofb_key c m i) [0..<length xs]"
  by (rule keystream[where I = "\<lambda>m. ofb_wf c m \<and> position m < block_size c"])
    (use assms ofb_key_step ofb.eager_wf[of c _ "[b]" for b] in auto)

section \<open>CFB is a byte machine\<close>

definition cfb_wf :: "BlockCipher \<Rightarrow> nat \<Rightarrow> Mode \<Rightarrow> bool" where
  "cfb_wf c F m \<longleftrightarrow> cipher_ok c \<and> 0 < F \<and> F \<le> block_size c \<and> length (bcm_state m) = block_size c \<and>
     length (bcm_buffer m) = block_size c \<and> position m \<le> F"

definition cfb_dec_absorb :: "byte \<Rightarrow> Mode \<Rightarrow> Mode" where
  "cfb_dec_absorb b m =
     m\<lparr>bcm_buffer := (bcm_buffer m)[position m := b],
       sent := sent m @ [bcm_buffer m ! position m XOR b], position := position m + 1\<rparr>"

lemma length_shift_loop: "length (for_up 0 n (\<lambda>j st. st[j := st ! (j + F)]) st) = length st"
  by (rule for_up_invariant[where I = "\<lambda>_ xs. length xs = length st"]) simp_all

lemma length_reg_copy: "off \<le> length xs \<Longrightarrow> n \<le> length inp \<Longrightarrow> length (reg_copy xs off inp n) = length xs"
  by (auto simp: reg_copy_def at_ptr_def copy_mem_def)

lemma CFB_feedback_wf: "cfb_wf c F m \<Longrightarrow> cfb_wf c F (CFB_feedback c F m) \<and> position (CFB_feedback c F m) < F"
  by (simp add: cfb_wf_def CFB_feedback_def Let_def length_shift_loop length_reg_copy copy_mem_def cipher_okD)

interpretation cfb_enc: byte_machine F position ctr_absorb "CFB_feedback c F" "cfb_wf c F" for c F
  by unfold_locales (auto simp: CFB_feedback_wf, auto simp: cfb_wf_def ctr_absorb_def)

interpretation cfb_dec: byte_machine F position cfb_dec_absorb "CFB_feedback c F" "cfb_wf c F" for c F
  by unfold_locales (auto simp: CFB_feedback_wf, auto simp: cfb_wf_def cfb_dec_absorb_def)

abbreviation cfb_enc_step :: "BlockCipher \<Rightarrow> nat \<Rightarrow> byte \<Rightarrow> Mode \<Rightarrow> Mode" where
  "cfb_enc_step c F \<equiv> eager_step F position ctr_absorb (CFB_feedback c F)"

abbreviation cfb_dec_step :: "BlockCipher \<Rightarrow> nat \<Rightarrow> byte \<Rightarrow> Mode \<Rightarrow> Mode" where
  "cfb_dec_step c F \<equiv> eager_step F position cfb_dec_absorb (CFB_feedback c F)"

lemma cfb_dec_absorb_bulk:
  "position m + length xs \<le> length (bcm_buffer m) \<Longrightarrow> fold cfb_dec_absorb xs m =
    m\<lparr>bcm_buffer := take (position m) (bcm_buffer m) @ xs @ drop (position m + length xs) (bcm_buffer m),
      sent := sent m @ xor_bytes (take (length xs) (drop (position m) (bcm_buffer m))) xs,
      position := position m + length xs\<rparr>"
proof (induction xs arbitrary: m)
  case (Cons b xs)
  let ?k = "position m" and ?s = "bcm_buffer m"
  have k: "?k < length ?s" "drop ?k ?s = ?s ! ?k # drop (Suc ?k) ?s" using Cons.prems by (simp_all add: Cons_nth_drop_Suc)
  show ?case using Cons.IH[of "cfb_dec_absorb b m"] Cons.prems k
    by (simp add: cfb_dec_absorb_def[of b m] take_Suc_nth)
qed simp

lemma CFB_Encryption_write_step:
  assumes "cfb_wf c F m" and "position m < F"
  shows "CFB_Encryption_write c F m xs = Some (fold (cfb_enc_step c F) xs m)"
proof (rule cfb_enc.eager_loop[OF _ _ assms])
  fix s and xs :: "byte list"
  assume s: "cfb_wf c F s" "position s < F" "xs \<noteq> []"
  define k where "k = min (F - position s) (length xs)"
  define u where "u = fold ctr_absorb (take k xs) s"
  have l: "k \<le> length xs" "position s + k \<le> length (bcm_buffer s)" using s by (auto simp: k_def cfb_wf_def)
  have u: "u = (let m = s\<lparr>bcm_buffer := at_ptr (position s) (\<lambda>p. xor_buf p xs k) (bcm_buffer s)\<rparr>;
          m = send (drop (position m) (bcm_buffer m)) k m
      in m\<lparr>position := position m + k\<rparr>)"
    unfolding u_def using l
    by (subst ctr_absorb_bulk) (simp_all add: Let_def at_ptr_def xor_buf_map2 send_def min_absorb2)
  show "CFB_Encryption_write c F s xs =
      (let k = min (F - position s) (length xs); s = fold ctr_absorb (take k xs) s
       in CFB_Encryption_write c F (if position s = F then CFB_feedback c F s else s) (drop k xs))"
    unfolding Let_def k_def[symmetric] u_def[symmetric] using s(3)
    by (subst CFB_Encryption_write.simps) (simp only: Let_def u k_def if_False)
qed (subst CFB_Encryption_write.simps, simp)

lemma CFB_Decryption_write_step:
  assumes "cfb_wf c F m" and "position m < F"
  shows "CFB_Decryption_write c F m xs = Some (fold (cfb_dec_step c F) xs m)"
proof (rule cfb_dec.eager_loop[OF _ _ assms])
  fix s and xs :: "byte list"
  assume s: "cfb_wf c F s" "position s < F" "xs \<noteq> []"
  define k where "k = min (F - position s) (length xs)"
  define u where "u = fold cfb_dec_absorb (take k xs) s"
  have l: "k \<le> length xs" "position s + k \<le> length (bcm_buffer s)" using s by (auto simp: k_def cfb_wf_def)
  have u: "u = (let m = s\<lparr>bcm_buffer := at_ptr (position s) (\<lambda>p. xor_buf p xs k) (bcm_buffer s)\<rparr>;
          m = send (drop (position m) (bcm_buffer m)) k m;
          m = m\<lparr>bcm_buffer := reg_copy (bcm_buffer m) (position m) xs k\<rparr>
      in m\<lparr>position := position m + k\<rparr>)"
    unfolding u_def using l
    by (subst cfb_dec_absorb_bulk)
      (simp_all add: Let_def at_ptr_def xor_buf_map2 send_def min_absorb2 reg_copy_def copy_mem_def add.commute)
  show "CFB_Decryption_write c F s xs =
      (let k = min (F - position s) (length xs); s = fold cfb_dec_absorb (take k xs) s
       in CFB_Decryption_write c F (if position s = F then CFB_feedback c F s else s) (drop k xs))"
    unfolding Let_def k_def[symmetric] u_def[symmetric] using s(3)
    by (subst CFB_Decryption_write.simps) (simp only: Let_def u k_def if_False)
qed (subst CFB_Decryption_write.simps, simp)

text \<open>Decryption stays in step with encryption: after every byte the buffers agree.\<close>

definition cfb_synced :: "BlockCipher \<Rightarrow> nat \<Rightarrow> Mode \<Rightarrow> Mode \<Rightarrow> bool" where
  "cfb_synced c F s t \<longleftrightarrow> cfb_wf c F s \<and> position s < F \<and> bcm_state s = bcm_state t \<and> bcm_buffer s = bcm_buffer t \<and>
     position s = position t"

lemma cfb_step_synced:
  assumes "cfb_synced c F s t"
  shows "\<exists>y. sent (cfb_enc_step c F b s) = sent s @ [y] \<and> sent (cfb_dec_step c F y t) = sent t @ [b] \<and>
    cfb_synced c F (cfb_enc_step c F b s) (cfb_dec_step c F y t)"
proof -
  let ?y = "bcm_buffer s ! position s XOR b"
  have w: "cfb_wf c F (cfb_enc_step c F b s)" "position (cfb_enc_step c F b s) < F"
    using assms cfb_enc.eager_wf[of c F s "[b]"] by (simp_all add: cfb_synced_def)
  have "sent (cfb_enc_step c F b s) = sent s @ [?y]"
    by (simp add: eager_step_def ctr_absorb_def CFB_feedback_def Let_def)
  moreover have "sent (cfb_dec_step c F ?y t) = sent t @ [b]"
    using assms by (simp add: eager_step_def cfb_dec_absorb_def CFB_feedback_def Let_def cfb_synced_def flip: xor.assoc)
  moreover have "bcm_state (cfb_enc_step c F b s) = bcm_state (cfb_dec_step c F ?y t) \<and>
      bcm_buffer (cfb_enc_step c F b s) = bcm_buffer (cfb_dec_step c F ?y t) \<and>
      position (cfb_enc_step c F b s) = position (cfb_dec_step c F ?y t)"
    using assms by (simp add: eager_step_def cfb_dec_absorb_def ctr_absorb_def CFB_feedback_def Let_def cfb_synced_def)
  ultimately show ?thesis using w unfolding cfb_synced_def by blast
qed

end
