(* ===== verification/Mode_CBC.thy ===== *)
theory Mode_CBC
  imports Mode_Base
begin

text \<open>
  CBC mode (\<open>src/modes/cbc/cbc.cpp\<close>). Encryption folds input into the chaining block and sends it as soon as it
  is full; decryption keeps the last full block back, because only \<open>end_msg\<close> knows that it carries the padding.
\<close>

definition CBC_name :: "BlockCipher \<Rightarrow> PaddingMethod \<Rightarrow> string" where
  "CBC_name c p = cipher_name c @ ''/'' @ ''CBC'' @ ''/'' @ pad_name p"

definition new_CBC :: "BlockCipher \<Rightarrow> PaddingMethod \<Rightarrow> botan_error + Mode" where
  "new_CBC c p =
     (if \<not> valid_blocksize p (block_size c) then Inl (Invalid_Block_Size (CBC_name c p) (pad_name p))
      else Inr (new_Mode c (block_size c) 1))"

partial_function (option) CBC_Encryption_write :: "BlockCipher \<Rightarrow> Mode \<Rightarrow> byte list \<Rightarrow> Mode option" where
  "CBC_Encryption_write c m input =
     (if input = [] then Some m
      else
        let xored = min (block_size c - position m) (length input);
            m = m\<lparr>bcm_state := at_ptr (position m) (\<lambda>p. xor_buf p input xored) (bcm_state m)\<rparr>;
            input = drop xored input;
            m = m\<lparr>position := position m + xored\<rparr>;
            m = (if position m = block_size c then
                   let m = m\<lparr>bcm_state := encrypt c (bcm_state m)\<rparr>;
                       m = send (bcm_state m) (block_size c) m
                   in m\<lparr>position := 0\<rparr>
                 else m)
        in CBC_Encryption_write c m input)"

definition CBC_Encryption_end_msg :: "BlockCipher \<Rightarrow> PaddingMethod \<Rightarrow> Mode \<Rightarrow> (botan_error + Mode) option" where
  "CBC_Encryption_end_msg c p m =
     (let padding = pad p (reg_create (block_size c)) (block_size c) (position m)
      in case CBC_Encryption_write c m (take (pad_bytes p (block_size c) (position m)) padding) of
           None \<Rightarrow> None
         | Some m \<Rightarrow> Some (if position m \<noteq> 0 then Inl (Exception (CBC_name c p @ '': Did not pad to full blocksize''))
                          else Inr m))"

text \<open>The member \<open>temp\<close> of the decryption is written before it is read in every use, so it is a local here.\<close>

partial_function (option) CBC_Decryption_write :: "BlockCipher \<Rightarrow> Mode \<Rightarrow> byte list \<Rightarrow> Mode option" where
  "CBC_Decryption_write c m input =
     (if input = [] then Some m
      else
        let m = (if position m = block_size c then
                   let temp = decrypt c (bcm_buffer m);
                       temp = xor_buf temp (bcm_state m) (block_size c);
                       m = send temp (block_size c) m
                   in m\<lparr>bcm_state := bcm_buffer m, position := 0\<rparr>
                 else m);
            added = min (block_size c - position m) (length input);
            m = m\<lparr>bcm_buffer := reg_copy (bcm_buffer m) (position m) input added\<rparr>
        in CBC_Decryption_write c (m\<lparr>position := position m + added\<rparr>) (drop added input))"

definition CBC_Decryption_end_msg :: "BlockCipher \<Rightarrow> PaddingMethod \<Rightarrow> Mode \<Rightarrow> (botan_error + Mode) option" where
  "CBC_Decryption_end_msg c p m =
     (if position m \<noteq> block_size c then Some (Inl (Decoding_Error (CBC_name c p)))
      else
        let temp = decrypt c (bcm_buffer m);
            temp = xor_buf temp (bcm_state m) (block_size c)
        in case unpad p temp (block_size c) of
             None \<Rightarrow> None
           | Some (Inl e) \<Rightarrow> Some (Inl e)
           | Some (Inr k) \<Rightarrow> Some (Inr ((send temp k m)\<lparr>bcm_state := bcm_buffer m, position := 0\<rparr>)))"

section \<open>The byte machines\<close>

definition cbc_wf :: "BlockCipher \<Rightarrow> Mode \<Rightarrow> bool" where
  "cbc_wf c m \<longleftrightarrow> cipher_ok c \<and> length (bcm_state m) = block_size c \<and> length (bcm_buffer m) = block_size c \<and>
     position m \<le> block_size c"

definition cbc_enc_absorb :: "byte \<Rightarrow> Mode \<Rightarrow> Mode" where
  "cbc_enc_absorb b m =
     m\<lparr>bcm_state := (bcm_state m)[position m := bcm_state m ! position m XOR b], position := position m + 1\<rparr>"

definition cbc_enc_flush :: "BlockCipher \<Rightarrow> Mode \<Rightarrow> Mode" where
  "cbc_enc_flush c m =
     m\<lparr>bcm_state := encrypt c (bcm_state m), sent := sent m @ encrypt c (bcm_state m), position := 0\<rparr>"

definition cbc_dec_absorb :: "byte \<Rightarrow> Mode \<Rightarrow> Mode" where
  "cbc_dec_absorb b m = m\<lparr>bcm_buffer := (bcm_buffer m)[position m := b], position := position m + 1\<rparr>"

definition cbc_dec_flush :: "BlockCipher \<Rightarrow> Mode \<Rightarrow> Mode" where
  "cbc_dec_flush c m =
     m\<lparr>bcm_state := bcm_buffer m, sent := sent m @ xor_bytes (decrypt c (bcm_buffer m)) (bcm_state m), position := 0\<rparr>"

interpretation cbc_enc: byte_machine "block_size c" position cbc_enc_absorb "cbc_enc_flush c" "cbc_wf c" for c
  by unfold_locales (auto simp: cbc_wf_def cbc_enc_absorb_def cbc_enc_flush_def cipher_okD)

interpretation cbc_dec: byte_machine "block_size c" position cbc_dec_absorb "cbc_dec_flush c" "cbc_wf c" for c
  by unfold_locales (auto simp: cbc_wf_def cbc_dec_absorb_def cbc_dec_flush_def cipher_okD)

abbreviation cbc_enc_step :: "BlockCipher \<Rightarrow> byte \<Rightarrow> Mode \<Rightarrow> Mode" where
  "cbc_enc_step c \<equiv> eager_step (block_size c) position cbc_enc_absorb (cbc_enc_flush c)"

abbreviation cbc_dec_step :: "BlockCipher \<Rightarrow> byte \<Rightarrow> Mode \<Rightarrow> Mode" where
  "cbc_dec_step c \<equiv> lazy_step (block_size c) position cbc_dec_absorb (cbc_dec_flush c)"

lemma cbc_enc_absorb_bulk:
  "position m + length xs \<le> length (bcm_state m) \<Longrightarrow> fold cbc_enc_absorb xs m =
    m\<lparr>bcm_state := at_ptr (position m) (\<lambda>p. xor_buf p xs (length xs)) (bcm_state m), position := position m + length xs\<rparr>"
proof (induction xs arbitrary: m)
  case Nil
  then show ?case by (simp add: at_ptr_def xor_buf_map2)
next
  case (Cons b xs)
  let ?k = "position m" and ?s = "bcm_state m"
  have k: "?k < length ?s" "drop ?k ?s = ?s ! ?k # drop (Suc ?k) ?s" using Cons.prems by (simp_all add: Cons_nth_drop_Suc)
  have "fold cbc_enc_absorb (b # xs) m =
      m\<lparr>bcm_state := at_ptr (Suc ?k) (\<lambda>p. xor_buf p xs (length xs)) (?s[?k := ?s ! ?k XOR b]), position := ?k + Suc (length xs)\<rparr>"
    using Cons.IH[of "cbc_enc_absorb b m"] Cons.prems by (simp add: cbc_enc_absorb_def[of b m])
  also have "at_ptr (Suc ?k) (\<lambda>p. xor_buf p xs (length xs)) (?s[?k := ?s ! ?k XOR b]) =
      at_ptr ?k (\<lambda>p. xor_buf p (b # xs) (length (b # xs))) ?s"
    using k Cons.prems by (simp add: at_ptr_def xor_buf_map2 take_Suc_nth)
  finally show ?case by simp
qed

lemma cbc_dec_absorb_bulk:
  "position m + length xs \<le> length (bcm_buffer m) \<Longrightarrow> fold cbc_dec_absorb xs m =
    m\<lparr>bcm_buffer := reg_copy (bcm_buffer m) (position m) xs (length xs), position := position m + length xs\<rparr>"
proof (induction xs arbitrary: m)
  case Nil
  then show ?case by (simp add: reg_copy_def at_ptr_def copy_mem_def)
next
  case (Cons b xs)
  then show ?case using Cons.IH[of "cbc_dec_absorb b m"]
    by (simp add: cbc_dec_absorb_def[of b m] reg_copy_def at_ptr_def copy_mem_def take_Suc_nth)
qed

lemma reg_copy_take: "reg_copy xs k (take n inp) n = reg_copy xs k inp n"
  by (simp add: reg_copy_def at_ptr_def copy_mem_def min_def)

lemma xor_buf_take: "n \<le> length out \<Longrightarrow> n \<le> length inp \<Longrightarrow> xor_buf out (take n inp) n = xor_buf out inp n"
  by (simp add: xor_buf_map2)

text \<open>The refinement: \<open>write\<close> in blocks is the machine byte by byte.\<close>

lemma CBC_Encryption_write_step:
  assumes "cbc_wf c m" and "position m < block_size c"
  shows "CBC_Encryption_write c m xs = Some (fold (cbc_enc_step c) xs m)"
proof (rule cbc_enc.eager_loop[OF _ _ assms])
  fix s and xs :: "byte list"
  assume s: "cbc_wf c s" "position s < block_size c" "xs \<noteq> []"
  let ?k = "min (block_size c - position s) (length xs)"
  have b: "fold cbc_enc_absorb (take ?k xs) s =
      s\<lparr>bcm_state := at_ptr (position s) (\<lambda>p. xor_buf p xs ?k) (bcm_state s), position := position s + ?k\<rparr>"
    using s cbc_enc_absorb_bulk[of s "take ?k xs"] by (simp add: cbc_wf_def at_ptr_def xor_buf_take)
  define u where "u = fold cbc_enc_absorb (take ?k xs) s"
  have u: "cbc_wf c u" unfolding u_def
    using cbc_enc.fold_absorb[OF s(1), of "take ?k xs"] s(2) by simp
  have f: "(if position u = block_size c then
       let m = u\<lparr>bcm_state := encrypt c (bcm_state u)\<rparr>; m = send (bcm_state m) (block_size c) m in m\<lparr>position := 0\<rparr>
     else u) = (if position u = block_size c then cbc_enc_flush c u else u)"
    using u by (simp add: Let_def send_def cbc_enc_flush_def cbc_wf_def cipher_okD)
  have w: "CBC_Encryption_write c s xs = CBC_Encryption_write c (if position u = block_size c then
       let m = u\<lparr>bcm_state := encrypt c (bcm_state u)\<rparr>; m = send (bcm_state m) (block_size c) m in m\<lparr>position := 0\<rparr>
     else u) (drop ?k xs)"
    unfolding u_def b using s(3) by (subst CBC_Encryption_write.simps) (simp add: Let_def)
  show "CBC_Encryption_write c s xs =
      (let k = ?k; s = fold cbc_enc_absorb (take k xs) s
       in CBC_Encryption_write c (if position s = block_size c then cbc_enc_flush c s else s) (drop k xs))"
    unfolding Let_def u_def[symmetric] w by (simp only: f[unfolded Let_def])
qed (subst CBC_Encryption_write.simps, simp)

lemma CBC_Decryption_write_step:
  assumes "cbc_wf c m"
  shows "CBC_Decryption_write c m xs = Some (fold (cbc_dec_step c) xs m)"
proof (rule cbc_dec.lazy_loop[OF _ _ assms])
  fix s and xs :: "byte list"
  assume s: "cbc_wf c s" "xs \<noteq> []"
  define t where "t = (if position s = block_size c then cbc_dec_flush c s else s)"
  have t: "cbc_wf c t" using s(1) cbc_dec.wf_flush[of c s] by (simp add: t_def)
  define k where "k = min (block_size c - position t) (length xs)"
  have k: "length (take k xs) = k" "position t + k \<le> length (bcm_buffer t)" using t by (auto simp: k_def cbc_wf_def)
  have b: "fold cbc_dec_absorb (take k xs) t =
      t\<lparr>bcm_buffer := reg_copy (bcm_buffer t) (position t) xs k, position := position t + k\<rparr>"
    using k cbc_dec_absorb_bulk[of t "take k xs"] by (simp add: reg_copy_take)
  have f: "(if position s = block_size c then
       let temp = decrypt c (bcm_buffer s); temp = xor_buf temp (bcm_state s) (block_size c); m = send temp (block_size c) s
       in m\<lparr>bcm_state := bcm_buffer m, position := 0\<rparr> else s) = t"
    using s(1) by (simp add: t_def cbc_dec_flush_def send_def Let_def cbc_wf_def xor_buf_map2 cipher_okD)
  show "CBC_Decryption_write c s xs =
      (let s = (if position s = block_size c then cbc_dec_flush c s else s); k = min (block_size c - position s) (length xs)
       in CBC_Decryption_write c (fold cbc_dec_absorb (take k xs) s) (drop k xs))"
    unfolding t_def[symmetric] Let_def k_def[symmetric] b using s(2)
    by (subst CBC_Decryption_write.simps) (simp only: Let_def f[unfolded Let_def] k_def if_False, simp)
qed (subst CBC_Decryption_write.simps, simp)

section \<open>Whole messages\<close>

text \<open>CBC on blocks.\<close>

fun cbc_blocks :: "BlockCipher \<Rightarrow> byte list \<Rightarrow> byte list list \<Rightarrow> byte list list" where
  "cbc_blocks c iv [] = []"
| "cbc_blocks c iv (p # ps) = (let y = encrypt c (xor_bytes iv p) in y # cbc_blocks c y ps)"

lemma cbc_enc_block:
  assumes "cbc_wf c m" and "position m = 0" and "length p = block_size c"
  shows "fold (cbc_enc_step c) p m = m\<lparr>bcm_state := encrypt c (xor_bytes (bcm_state m) p),
      sent := sent m @ encrypt c (xor_bytes (bcm_state m) p)\<rparr>"
proof -
  have "0 < block_size c" "length (bcm_state m) = block_size c" using assms by (simp_all add: cbc_wf_def cipher_okD)
  then show ?thesis
    using cbc_enc.eager_chunk[OF assms(1), of p] cbc_enc_absorb_bulk[of m p] assms
    by (simp add: at_ptr_def xor_buf_map2 cbc_enc_flush_def)
qed

lemma cbc_enc_blocks:
  assumes "cbc_wf c m" and "position m = 0" and "\<forall>p \<in> set ps. length p = block_size c"
  shows "cbc_wf c (fold (cbc_enc_step c) (concat ps) m) \<and> position (fold (cbc_enc_step c) (concat ps) m) = 0 \<and>
    sent (fold (cbc_enc_step c) (concat ps) m) = sent m @ concat (cbc_blocks c (bcm_state m) ps)"
  using assms
proof (induction ps arbitrary: m)
  case (Cons p ps)
  let ?m = "fold (cbc_enc_step c) p m"
  have m: "?m = m\<lparr>bcm_state := encrypt c (xor_bytes (bcm_state m) p), sent := sent m @ encrypt c (xor_bytes (bcm_state m) p)\<rparr>"
    using Cons.prems by (intro cbc_enc_block) simp_all
  then have "cbc_wf c ?m" "position ?m = 0" using Cons.prems by (simp_all add: cbc_wf_def cipher_okD)
  then show ?case using Cons.IH[of ?m] Cons.prems(3) by (simp add: m Let_def)
qed simp

text \<open>The decryption holds the ciphertext block of \<open>p\<close> back.\<close>

definition cbc_holds :: "BlockCipher \<Rightarrow> Mode \<Rightarrow> byte list \<Rightarrow> bool" where
  "cbc_holds c m p \<longleftrightarrow> cbc_wf c m \<and> position m = block_size c \<and> length p = block_size c \<and>
     xor_bytes (decrypt c (bcm_buffer m)) (bcm_state m) = p"

lemma cbc_dec_block:
  assumes "cbc_wf c m" and "position m = 0" and "length p = block_size c"
  shows "cbc_holds c (fold (cbc_dec_step c) (encrypt c (xor_bytes (bcm_state m) p)) m) p \<and>
    bcm_buffer (fold (cbc_dec_step c) (encrypt c (xor_bytes (bcm_state m) p)) m) = encrypt c (xor_bytes (bcm_state m) p) \<and>
    sent (fold (cbc_dec_step c) (encrypt c (xor_bytes (bcm_state m) p)) m) = sent m"
proof -
  let ?y = "encrypt c (xor_bytes (bcm_state m) p)"
  have l: "length (bcm_state m) = block_size c" "length (bcm_buffer m) = block_size c" "cipher_ok c"
    using assms by (simp_all add: cbc_wf_def)
  then have y: "length ?y = block_size c" "decrypt c ?y = xor_bytes (bcm_state m) p" using assms(3) by (simp_all add: cipher_okD)
  then have "fold (cbc_dec_step c) ?y m = m\<lparr>bcm_buffer := ?y, position := block_size c\<rparr>"
    using cbc_dec.lazy_chunk[OF assms(1), of ?y] cbc_dec_absorb_bulk[of m ?y] l assms(2)
    by (simp add: reg_copy_def at_ptr_def copy_mem_def)
  then show ?thesis using l y assms(3) xor_bytes_cancel_left[of "bcm_state m" p] xor_bytes_commute[of "xor_bytes (bcm_state m) p"]
    by (simp add: cbc_holds_def cbc_wf_def)
qed

lemma cbc_dec_blocks:
  assumes "cbc_holds c m p" and "\<forall>p \<in> set ps. length p = block_size c"
  shows "\<exists>m'. fold (cbc_dec_step c) (concat (cbc_blocks c (bcm_buffer m) ps)) m = m' \<and> cbc_holds c m' (last (p # ps)) \<and>
    sent m' = sent m @ concat (butlast (p # ps))"
  using assms
proof (induction ps arbitrary: m p)
  case (Cons q ps)
  let ?y = "encrypt c (xor_bytes (bcm_buffer m) q)" and ?f = "cbc_dec_flush c m"
  have f: "cbc_wf c ?f" "position ?f = 0" "bcm_state ?f = bcm_buffer m" "sent ?f = sent m @ p"
    using Cons.prems(1) cbc_dec.wf_flush[of c m] by (simp_all add: cbc_holds_def cbc_dec_flush_def)
  have m: "position m = block_size c" "cbc_wf c m" using Cons.prems(1) by (simp_all add: cbc_holds_def)
  let ?m = "fold (cbc_dec_step c) ?y ?f"
  have b: "cbc_holds c ?m q \<and> bcm_buffer ?m = ?y \<and> sent ?m = sent m @ p"
    using cbc_dec_block[OF f(1,2), of q] f(3,4) Cons.prems(2) by simp
  have "length ?y = block_size c" using m(2) Cons.prems(2) by (simp add: cbc_wf_def cipher_okD)
  moreover have "0 < block_size c" using m(2) by (simp add: cbc_wf_def cipher_okD)
  ultimately have "?y \<noteq> []" by auto
  then have "fold (cbc_dec_step c) (concat (cbc_blocks c (bcm_buffer m) (q # ps))) m =
      fold (cbc_dec_step c) (concat (cbc_blocks c (bcm_buffer ?m) ps)) ?m"
    using cbc_dec.lazy_flush[OF m, of ?y] b by (simp add: Let_def)
  moreover obtain m' where "fold (cbc_dec_step c) (concat (cbc_blocks c (bcm_buffer ?m) ps)) ?m = m'"
      "cbc_holds c m' (last (q # ps))" "sent m' = sent ?m @ concat (butlast (q # ps))"
    using Cons.IH[of ?m q] b Cons.prems(2) by auto
  ultimately show ?case using b by simp
qed simp

lemma CBC_Encryption_writes:
  assumes "cbc_wf c m" and "position m < block_size c"
  shows "write_all (CBC_Encryption_write c) xss m = Some (fold (cbc_enc_step c) (concat xss) m)"
  using assms CBC_Encryption_write_step cbc_enc.eager_wf
  by (intro write_all_fold[where I = "\<lambda>m. cbc_wf c m \<and> position m < block_size c"]) auto

lemma CBC_Decryption_writes:
  assumes "cbc_wf c m"
  shows "write_all (CBC_Decryption_write c) yss m = Some (fold (cbc_dec_step c) (concat yss) m)"
  using assms CBC_Decryption_write_step cbc_dec.lazy_wf
  by (intro write_all_fold[where I = "cbc_wf c"]) auto

context padding
begin

lemma cbc_encrypt_message:
  assumes m: "cbc_wf c m" "position m = 0" and valid: "valid_blocksize p (block_size c)"
    and xs: "concat xss = concat ps @ r" "\<forall>q \<in> set ps. length q = block_size c" "length r < block_size c"
  shows "\<exists>e. run_message (CBC_Encryption_write c) (CBC_Encryption_end_msg c p) xss m = Some (Inr e) \<and>
    sent e = sent m @ concat (cbc_blocks c (bcm_state m) (ps @ [r @ padding_of p (block_size c) (length r)]))"
proof -
  let ?bs = "block_size c" and ?step = "cbc_enc_step c" and ?pd = "padding_of p (block_size c) (length r)"
  have bs: "0 < ?bs" using m(1) by (simp add: cbc_wf_def cipher_okD)
  define m1 where "m1 = fold ?step (concat ps) m"
  define m2 where "m2 = fold ?step r m1"
  have m1: "cbc_wf c m1" "position m1 = 0" using cbc_enc_blocks[OF m xs(2)] by (simp_all add: m1_def)
  then have m2: "cbc_wf c m2" "position m2 < ?bs" using cbc_enc.eager_wf[OF m1(1), of r] bs by (simp_all add: m2_def)
  have "position m2 = length r"
    using cbc_enc.eager_chunk[OF m1(1), of r] cbc_enc_absorb_bulk[of m1 r] m1 xs(3) bs by (simp add: m2_def cbc_wf_def)
  then have pd: "take (pad_bytes p ?bs (position m2)) (pad p (reg_create ?bs) ?bs (position m2)) = ?pd"
    by (simp add: padding_of_def reg_create_def)
  have all: "fold ?step ?pd m2 = fold ?step (concat (ps @ [r @ ?pd])) m" by (simp add: m2_def m1_def)
  have "\<forall>q \<in> set (ps @ [r @ ?pd]). length q = ?bs" using xs(2,3) valid by (simp add: padding_fills)
  note e = cbc_enc_blocks[OF m this, folded all]
  have "write_all (CBC_Encryption_write c) xss m = Some m2"
    using CBC_Encryption_writes[of c m xss] m bs by (simp add: xs(1) m1_def m2_def)
  then have "run_message (CBC_Encryption_write c) (CBC_Encryption_end_msg c p) xss m = Some (Inr (fold ?step ?pd m2))"
    using e CBC_Encryption_write_step[OF m2] by (simp add: run_message_def CBC_Encryption_end_msg_def pd)
  then show ?thesis using e by blast
qed

lemma cbc_decrypt_message:
  assumes m: "cbc_wf c m" "position m = 0" and valid: "valid_blocksize p (block_size c)"
    and ps: "\<forall>q \<in> set ps. length q = block_size c" "length r < block_size c"
    and ys: "concat yss = concat (cbc_blocks c (bcm_state m) (ps @ [r @ padding_of p (block_size c) (length r)]))"
  shows "\<exists>d. run_message (CBC_Decryption_write c) (CBC_Decryption_end_msg c p) yss m = Some (Inr d) \<and>
    sent d = sent m @ concat ps @ r"
proof -
  let ?bs = "block_size c" and ?step = "cbc_dec_step c" and ?last = "r @ padding_of p (block_size c) (length r)"
  obtain q qs where q: "ps @ [?last] = q # qs" by (cases "ps @ [?last]") simp_all
  have lens: "\<forall>b \<in> set (q # qs). length b = ?bs" using ps valid by (simp add: padding_fills flip: q)
  have ends: "last (q # qs) = ?last" "butlast (q # qs) = ps" by (simp_all flip: q)
  let ?y = "encrypt c (xor_bytes (bcm_state m) q)"
  define m1 where "m1 = fold ?step ?y m"
  have m1: "cbc_holds c m1 q" "bcm_buffer m1 = ?y" "sent m1 = sent m"
    using cbc_dec_block[OF m, of q] lens by (simp_all add: m1_def)
  obtain m2 where m2: "fold ?step (concat (cbc_blocks c ?y qs)) m1 = m2" "cbc_holds c m2 ?last"
      "sent m2 = sent m @ concat ps"
    using cbc_dec_blocks[OF m1(1), of qs] m1(2,3) lens ends by auto
  have "write_all (CBC_Decryption_write c) yss m = Some m2"
    using CBC_Decryption_writes[OF m(1), of yss] m2(1) by (simp add: ys q m1_def Let_def)
  moreover have "xor_buf (decrypt c (bcm_buffer m2)) (bcm_state m2) ?bs = ?last"
    using m2(2) by (simp add: cbc_holds_def cbc_wf_def xor_buf_map2 cipher_okD)
  ultimately show ?thesis
    using m2 unpad_padding[OF valid ps(2)]
    by (simp add: run_message_def CBC_Decryption_end_msg_def cbc_holds_def send_def)
qed

theorem cbc_round_trip:
  assumes c: "cipher_ok c" "valid_blocksize p (block_size c)"
    and m: "new_CBC c p = Inr m0" "set_iv c nm 0 iv m0 = Inr m"
  shows "\<exists>e. run_message (CBC_Encryption_write c) (CBC_Encryption_end_msg c p) xss m = Some (Inr e) \<and>
    (\<forall>yss. concat yss = sent e \<longrightarrow>
      (\<exists>d. run_message (CBC_Decryption_write c) (CBC_Decryption_end_msg c p) yss m = Some (Inr d) \<and> sent d = concat xss))"
proof -
  have m: "cbc_wf c m" "position m = 0" "sent m = []"
    using m c by (auto simp: new_CBC_def set_iv_def new_Mode_def cbc_wf_def Let_def split: if_splits)
  have bs: "0 < block_size c" using c(1) by (rule cipher_okD)
  obtain ps r where xs: "concat xss = concat ps @ r" "\<forall>q \<in> set ps. length q = block_size c" "length r < block_size c"
    using split_message[OF bs, of "concat xss"] bs by (metis mod_less_divisor)
  show ?thesis using cbc_encrypt_message[OF m(1,2) c(2) xs] cbc_decrypt_message[OF m(1,2) c(2) xs(2,3)] m(3)
    by (fastforce simp: xs(1))
qed

end

end
