(* ===== verification/Mode_Block.thy ===== *)
theory Mode_Block
  imports Mode_Stream Mode_CBC
begin

text \<open>
  ECB mode (\<open>src/modes/ecb/ecb.cpp\<close>) and CBC with ciphertext stealing (\<open>src/modes/cts/cts.cpp\<close>). Both keep input
  in the buffer and leave old bytes behind its end, so the byte machines are stated on the used part of the buffer.
\<close>

section \<open>ECB\<close>

definition ECB_name :: "BlockCipher \<Rightarrow> PaddingMethod \<Rightarrow> string" where
  "ECB_name c p = cipher_name c @ ''/'' @ ''ECB'' @ ''/'' @ pad_name p"

partial_function (option) ECB_Encryption_blocks :: "BlockCipher \<Rightarrow> Mode \<Rightarrow> byte list \<Rightarrow> (Mode \<times> byte list) option" where
  "ECB_Encryption_blocks c m input =
     (if length input \<ge> block_size c then
        let m = m\<lparr>bcm_buffer := copy_mem (bcm_buffer m) (encrypt c (take (block_size c) input)) (block_size c)\<rparr>;
            m = send (bcm_buffer m) (block_size c) m
        in ECB_Encryption_blocks c m (drop (block_size c) input)
      else Some (m, input))"

definition ECB_Encryption_write :: "BlockCipher \<Rightarrow> Mode \<Rightarrow> byte list \<Rightarrow> Mode option" where
  "ECB_Encryption_write c m input =
     (let m = m\<lparr>bcm_buffer := reg_copy (bcm_buffer m) (position m) input (length input)\<rparr>
      in if position m + length input \<ge> block_size c then
           let m = m\<lparr>bcm_buffer := encrypt c (bcm_buffer m)\<rparr>;
               m = send (bcm_buffer m) (block_size c) m;
               input = drop (block_size c - position m) input
           in case ECB_Encryption_blocks c m input of None \<Rightarrow> None
              | Some (m, input) \<Rightarrow>
                  let m = m\<lparr>bcm_buffer := reg_copy (bcm_buffer m) 0 input (length input), position := 0\<rparr>
                  in Some (m\<lparr>position := position m + length input\<rparr>)
         else Some (m\<lparr>position := position m + length input\<rparr>))"

definition ECB_Encryption_end_msg :: "BlockCipher \<Rightarrow> PaddingMethod \<Rightarrow> Mode \<Rightarrow> (botan_error + Mode) option" where
  "ECB_Encryption_end_msg c p m =
     (let padding = pad p (reg_create (block_size c)) (block_size c) (position m)
      in case ECB_Encryption_write c m (take (pad_bytes p (block_size c) (position m)) padding) of
           None \<Rightarrow> None
         | Some m \<Rightarrow> Some (if position m \<noteq> 0 then Inl (Encoding_Error (ECB_name c p @ '': Did not pad to full blocksize''))
                          else Inr m))"

partial_function (option) ECB_Decryption_blocks :: "BlockCipher \<Rightarrow> Mode \<Rightarrow> byte list \<Rightarrow> (Mode \<times> byte list) option" where
  "ECB_Decryption_blocks c m input =
     (if length input > block_size c then
        let m = m\<lparr>bcm_buffer := copy_mem (bcm_buffer m) (decrypt c (take (block_size c) input)) (block_size c)\<rparr>;
            m = send (bcm_buffer m) (block_size c) m
        in ECB_Decryption_blocks c m (drop (block_size c) input)
      else Some (m, input))"

definition ECB_Decryption_write :: "BlockCipher \<Rightarrow> Mode \<Rightarrow> byte list \<Rightarrow> Mode option" where
  "ECB_Decryption_write c m input =
     (let m = m\<lparr>bcm_buffer := reg_copy (bcm_buffer m) (position m) input (length input)\<rparr>
      in if position m + length input > block_size c then
           let m = m\<lparr>bcm_buffer := decrypt c (bcm_buffer m)\<rparr>;
               m = send (bcm_buffer m) (block_size c) m;
               input = drop (block_size c - position m) input
           in case ECB_Decryption_blocks c m input of None \<Rightarrow> None
              | Some (m, input) \<Rightarrow>
                  let m = m\<lparr>bcm_buffer := reg_copy (bcm_buffer m) 0 input (length input), position := 0\<rparr>
                  in Some (m\<lparr>position := position m + length input\<rparr>)
         else Some (m\<lparr>position := position m + length input\<rparr>))"

definition ECB_Decryption_end_msg :: "BlockCipher \<Rightarrow> PaddingMethod \<Rightarrow> Mode \<Rightarrow> (botan_error + Mode) option" where
  "ECB_Decryption_end_msg c p m =
     (if position m \<noteq> block_size c then Some (Inl (Decoding_Error (ECB_name c p)))
      else
        let m = m\<lparr>bcm_buffer := decrypt c (bcm_buffer m)\<rparr>
        in case unpad p (bcm_buffer m) (block_size c) of
             None \<Rightarrow> None
           | Some (Inl e) \<Rightarrow> Some (Inl e)
           | Some (Inr k) \<Rightarrow> Some (Inr ((send (bcm_buffer m) k m)\<lparr>bcm_state := bcm_buffer m, position := 0\<rparr>)))"

section \<open>CTS\<close>

text \<open>Both directions handle their input alike: all but the last one to two blocks go through \<open>block\<close>, the
  class's \<open>encrypt\<close> or \<open>decrypt\<close>.\<close>

partial_function (option) CTS_blocks :: "nat \<Rightarrow> (byte list \<Rightarrow> Mode \<Rightarrow> Mode) \<Rightarrow> Mode \<Rightarrow> byte list \<Rightarrow> (Mode \<times> byte list) option" where
  "CTS_blocks bs block m input =
     (if length input > 2 * bs then CTS_blocks bs block (block input m) (drop bs input)
      else Some (m, input))"

definition CTS_write :: "nat \<Rightarrow> (byte list \<Rightarrow> Mode \<Rightarrow> Mode) \<Rightarrow> Mode \<Rightarrow> byte list \<Rightarrow> Mode option" where
  "CTS_write bs block m input =
     (let copied = min (2 * bs - position m) (length input);
          m = m\<lparr>bcm_buffer := reg_copy (bcm_buffer m) (position m) input copied\<rparr>;
          input = drop copied input;
          m = m\<lparr>position := position m + copied\<rparr>
      in if input = [] then Some m
         else
           let m = block (bcm_buffer m) m
           in case (if length input > bs then
                      case CTS_blocks bs block (block (drop bs (bcm_buffer m)) m) input of
                        None \<Rightarrow> None
                      | Some (m, input) \<Rightarrow> Some (m\<lparr>position := 0\<rparr>, input)
                    else Some (m\<lparr>bcm_buffer := copy_mem (bcm_buffer m) (drop bs (bcm_buffer m)) bs, position := bs\<rparr>, input)) of
                None \<Rightarrow> None
              | Some (m, input) \<Rightarrow>
                  let m = m\<lparr>bcm_buffer := reg_copy (bcm_buffer m) (position m) input (length input)\<rparr>
                  in Some (m\<lparr>position := position m + length input\<rparr>))"

definition CTS_encrypt :: "BlockCipher \<Rightarrow> byte list \<Rightarrow> Mode \<Rightarrow> Mode" where
  "CTS_encrypt c block m =
     (let m = m\<lparr>bcm_state := encrypt c (xor_buf (bcm_state m) block (block_size c))\<rparr>
      in send (bcm_state m) (block_size c) m)"

definition CTS_Encryption_write :: "BlockCipher \<Rightarrow> Mode \<Rightarrow> byte list \<Rightarrow> Mode option" where
  "CTS_Encryption_write c = CTS_write (block_size c) (CTS_encrypt c)"

definition CTS_Encryption_end_msg :: "BlockCipher \<Rightarrow> Mode \<Rightarrow> botan_error + Mode" where
  "CTS_Encryption_end_msg c m =
     (if position m < block_size c + 1 then Inl (Exception ''CTS_Encryption: insufficient data to encrypt'')
      else
        let m = m\<lparr>bcm_state := encrypt c (xor_buf (bcm_state m) (bcm_buffer m) (block_size c))\<rparr>;
            cn = bcm_state m;
            m = m\<lparr>bcm_buffer := at_ptr (position m) (\<lambda>p. clear_mem p (2 * block_size c - position m)) (bcm_buffer m)\<rparr>;
            m = CTS_encrypt c (drop (block_size c) (bcm_buffer m)) m
        in Inr (send cn (position m - block_size c) m))"

definition CTS_decrypt :: "BlockCipher \<Rightarrow> byte list \<Rightarrow> Mode \<Rightarrow> Mode" where
  "CTS_decrypt c block m =
     (let temp = xor_buf (decrypt c (take (block_size c) block)) (bcm_state m) (block_size c);
          m = send temp (block_size c) m
      in m\<lparr>bcm_state := reg_copy (bcm_state m) 0 block (block_size c)\<rparr>)"

definition CTS_Decryption_write :: "BlockCipher \<Rightarrow> Mode \<Rightarrow> byte list \<Rightarrow> Mode option" where
  "CTS_Decryption_write c = CTS_write (block_size c) (CTS_decrypt c)"

text \<open>There is no check of the length here: with less than a block in the buffer \<open>position - BLOCK_SIZE\<close> wraps
  and \<open>xor_buf\<close> runs over the end of \<open>temp\<close>, which is \<open>None\<close>.\<close>

definition CTS_Decryption_end_msg :: "BlockCipher \<Rightarrow> Mode \<Rightarrow> Mode option" where
  "CTS_Decryption_end_msg c m =
     (if position m < block_size c then None
      else
        let temp = decrypt c (take (block_size c) (bcm_buffer m));
            xn = xor_buf temp (drop (block_size c) (bcm_buffer m)) (position m - block_size c);
            m = m\<lparr>bcm_buffer := at_ptr (position m)
                  (\<lambda>p. copy_mem p (drop (position m - block_size c) xn) (2 * block_size c - position m)) (bcm_buffer m)\<rparr>;
            temp = xor_buf (decrypt c (drop (block_size c) (bcm_buffer m))) (bcm_state m) (block_size c);
            m = send temp (block_size c) m
        in Some (send xn (position m - block_size c) m))"

section \<open>Buffered machines\<close>

text \<open>The machines see the used part of the buffer; \<open>buf_empty\<close> is the machine that has nothing buffered.\<close>

abbreviation buf_view :: "Mode \<Rightarrow> Mode" where
  "buf_view m \<equiv> m\<lparr>bcm_buffer := take (position m) (bcm_buffer m)\<rparr>"

abbreviation buf_empty :: "Mode \<Rightarrow> Mode" where
  "buf_empty m \<equiv> m\<lparr>bcm_buffer := [], position := 0\<rparr>"

definition buf_absorb :: "byte \<Rightarrow> Mode \<Rightarrow> Mode" where
  "buf_absorb b m = m\<lparr>bcm_buffer := bcm_buffer m @ [b], position := position m + 1\<rparr>"

definition buf_wf :: "BlockCipher \<Rightarrow> nat \<Rightarrow> Mode \<Rightarrow> bool" where
  "buf_wf c n m \<longleftrightarrow> cipher_ok c \<and> length (bcm_buffer m) = position m \<and> position m \<le> n"

lemma buf_absorb_bulk:
  "fold buf_absorb xs m = m\<lparr>bcm_buffer := bcm_buffer m @ xs, position := position m + length xs\<rparr>"
  by (induction xs arbitrary: m) (simp_all add: buf_absorb_def)

lemma buf_absorb_view:
  "position m + length xs \<le> length (bcm_buffer m) \<Longrightarrow>
    buf_view (m\<lparr>bcm_buffer := reg_copy (bcm_buffer m) (position m) xs (length xs), position := position m + length xs\<rparr>) =
    fold buf_absorb xs (buf_view m)"
  by (simp add: buf_absorb_bulk reg_copy_def at_ptr_def copy_mem_def)

definition ecb_enc_flush :: "BlockCipher \<Rightarrow> Mode \<Rightarrow> Mode" where
  "ecb_enc_flush c m = m\<lparr>bcm_buffer := [], position := 0, sent := sent m @ encrypt c (bcm_buffer m)\<rparr>"

definition ecb_dec_flush :: "BlockCipher \<Rightarrow> Mode \<Rightarrow> Mode" where
  "ecb_dec_flush c m = m\<lparr>bcm_buffer := [], position := 0, sent := sent m @ decrypt c (bcm_buffer m)\<rparr>"

interpretation ecb_enc: byte_machine "block_size c" position buf_absorb "ecb_enc_flush c" "buf_wf c (block_size c)" for c
  by unfold_locales (auto simp: buf_wf_def buf_absorb_def ecb_enc_flush_def cipher_okD)

interpretation ecb_dec: byte_machine "block_size c" position buf_absorb "ecb_dec_flush c" "buf_wf c (block_size c)" for c
  by unfold_locales (auto simp: buf_wf_def buf_absorb_def ecb_dec_flush_def cipher_okD)

abbreviation ecb_enc_step :: "BlockCipher \<Rightarrow> byte \<Rightarrow> Mode \<Rightarrow> Mode" where
  "ecb_enc_step c \<equiv> eager_step (block_size c) position buf_absorb (ecb_enc_flush c)"

abbreviation ecb_dec_step :: "BlockCipher \<Rightarrow> byte \<Rightarrow> Mode \<Rightarrow> Mode" where
  "ecb_dec_step c \<equiv> lazy_step (block_size c) position buf_absorb (ecb_dec_flush c)"

definition ecb_ok :: "BlockCipher \<Rightarrow> Mode \<Rightarrow> bool" where
  "ecb_ok c m \<longleftrightarrow> cipher_ok c \<and> length (bcm_buffer m) = block_size c"

text \<open>A block through an empty machine.\<close>

lemma ecb_enc_block:
  assumes "cipher_ok c" and "block_size c \<le> length xs"
  shows "fold (ecb_enc_step c) xs (buf_empty m) =
    fold (ecb_enc_step c) (drop (block_size c) xs) (buf_empty (m\<lparr>sent := sent m @ encrypt c (take (block_size c) xs)\<rparr>))"
proof -
  let ?b = "block_size c"
  have "buf_wf c ?b (buf_empty m)" "position (buf_empty m) < ?b" using assms(1) by (simp_all add: buf_wf_def cipher_okD)
  from ecb_enc.eager_chunk[OF this, of "take ?b xs"] assms(2)
  have "fold (ecb_enc_step c) (take ?b xs) (buf_empty m) = buf_empty (m\<lparr>sent := sent m @ encrypt c (take ?b xs)\<rparr>)"
    by (simp add: buf_absorb_bulk ecb_enc_flush_def Let_def)
  moreover have "fold (ecb_enc_step c) xs (buf_empty m) =
      fold (ecb_enc_step c) (drop ?b xs) (fold (ecb_enc_step c) (take ?b xs) (buf_empty m))"
    by (metis append_take_drop_id fold_append comp_apply)
  ultimately show ?thesis by simp
qed

lemma ecb_dec_block:
  assumes "cipher_ok c" and "block_size c < length xs"
  shows "fold (ecb_dec_step c) xs (buf_empty m) =
    fold (ecb_dec_step c) (drop (block_size c) xs) (buf_empty (m\<lparr>sent := sent m @ decrypt c (take (block_size c) xs)\<rparr>))"
proof -
  let ?b = "block_size c" and ?m = "m\<lparr>bcm_buffer := take (block_size c) xs, position := block_size c\<rparr>"
  have w: "buf_wf c ?b (buf_empty m)" "position (buf_empty m) + length (take ?b xs) \<le> ?b" using assms by (simp_all add: buf_wf_def)
  have "fold (ecb_dec_step c) (take ?b xs) (buf_empty m) = ?m"
    using ecb_dec.lazy_chunk[OF w] assms(2) by (simp add: buf_absorb_bulk)
  moreover have "fold (ecb_dec_step c) (drop ?b xs) ?m = fold (ecb_dec_step c) (drop ?b xs) (ecb_dec_flush c ?m)"
    using assms by (intro ecb_dec.lazy_flush) (simp_all add: buf_wf_def)
  moreover have "fold (ecb_dec_step c) xs (buf_empty m) =
      fold (ecb_dec_step c) (drop ?b xs) (fold (ecb_dec_step c) (take ?b xs) (buf_empty m))"
    by (metis append_take_drop_id fold_append comp_apply)
  moreover have "ecb_dec_flush c ?m = buf_empty (m\<lparr>sent := sent m @ decrypt c (take ?b xs)\<rparr>)" by (simp add: ecb_dec_flush_def)
  ultimately show ?thesis by simp
qed

lemma ECB_Encryption_blocks_step:
  assumes "ecb_ok c m"
  shows "\<exists>m' zs. ECB_Encryption_blocks c m xs = Some (m', zs) \<and> ecb_ok c m' \<and> length zs < block_size c \<and>
    fold (ecb_enc_step c) xs (buf_empty m) = fold (ecb_enc_step c) zs (buf_empty m')"
  using assms
proof (induction "length xs" arbitrary: xs m rule: less_induct)
  case less
  let ?b = "block_size c"
  show ?case
  proof (cases "?b \<le> length xs")
    case True
    let ?e = "encrypt c (take ?b xs)"
    let ?m = "m\<lparr>bcm_buffer := ?e, sent := sent m @ ?e\<rparr>"
    have b: "0 < ?b" "length ?e = ?b" using less.prems True by (simp_all add: ecb_ok_def cipher_okD)
    have "ECB_Encryption_blocks c m xs = ECB_Encryption_blocks c ?m (drop ?b xs)"
      using True b less.prems by (subst ECB_Encryption_blocks.simps) (simp add: Let_def send_def copy_mem_def ecb_ok_def)
    moreover have "ecb_ok c ?m" using b less.prems by (simp add: ecb_ok_def)
    moreover have "fold (ecb_enc_step c) xs (buf_empty m) = fold (ecb_enc_step c) (drop ?b xs) (buf_empty ?m)"
      using ecb_enc_block[of c xs m] True less.prems by (simp add: ecb_ok_def)
    ultimately show ?thesis using less.hyps[of "drop ?b xs" ?m] True b by simp
  next
    case False
    then show ?thesis using less.prems by (subst ECB_Encryption_blocks.simps) auto
  qed
qed

lemma ECB_Decryption_blocks_step:
  assumes "ecb_ok c m" and "xs \<noteq> []"
  shows "\<exists>m' zs. ECB_Decryption_blocks c m xs = Some (m', zs) \<and> ecb_ok c m' \<and> length zs \<le> block_size c \<and>
    fold (ecb_dec_step c) xs (buf_empty m) = fold (ecb_dec_step c) zs (buf_empty m')"
  using assms
proof (induction "length xs" arbitrary: xs m rule: less_induct)
  case less
  let ?b = "block_size c"
  show ?case
  proof (cases "?b < length xs")
    case True
    let ?e = "decrypt c (take ?b xs)"
    let ?m = "m\<lparr>bcm_buffer := ?e, sent := sent m @ ?e\<rparr>"
    have b: "0 < ?b" "length ?e = ?b" using less.prems True by (simp_all add: ecb_ok_def cipher_okD)
    have "ECB_Decryption_blocks c m xs = ECB_Decryption_blocks c ?m (drop ?b xs)"
      using True b less.prems by (subst ECB_Decryption_blocks.simps) (simp add: Let_def send_def copy_mem_def ecb_ok_def)
    moreover have "ecb_ok c ?m" using b less.prems by (simp add: ecb_ok_def)
    moreover have "fold (ecb_dec_step c) xs (buf_empty m) = fold (ecb_dec_step c) (drop ?b xs) (buf_empty ?m)"
      using ecb_dec_block[of c xs m] True less.prems by (simp add: ecb_ok_def)
    ultimately show ?thesis using less.hyps[of "drop ?b xs" ?m] True b by simp
  next
    case False
    then show ?thesis using less.prems by (subst ECB_Decryption_blocks.simps) auto
  qed
qed

lemma reg_copy_fill:
  "off \<le> length xs \<Longrightarrow> length xs \<le> off + length ys \<Longrightarrow>
    reg_copy xs off ys (length ys) = take off xs @ take (length xs - off) ys"
  by (simp add: reg_copy_def at_ptr_def copy_mem_def)

lemma ECB_Encryption_write_step:
  assumes "ecb_ok c m" and "position m < block_size c"
  shows "\<exists>m'. ECB_Encryption_write c m xs = Some m' \<and> ecb_ok c m' \<and> position m' < block_size c \<and>
    buf_view m' = fold (ecb_enc_step c) xs (buf_view m)"
proof (cases "position m + length xs \<ge> block_size c")
  case True
  let ?b = "block_size c" and ?k = "block_size c - position m"
  define blk where "blk = take (position m) (bcm_buffer m) @ take ?k xs"
  have l: "length (bcm_buffer m) = ?b" "cipher_ok c" using assms(1) by (simp_all add: ecb_ok_def)
  have blk: "length blk = ?b" "reg_copy (bcm_buffer m) (position m) xs (length xs) = blk"
    using l assms(2) True by (simp_all add: blk_def reg_copy_fill)
  define m1 where "m1 = send (encrypt c blk) ?b (m\<lparr>bcm_buffer := encrypt c blk\<rparr>)"
  have m1: "ecb_ok c m1" using l blk by (simp add: m1_def send_def ecb_ok_def cipher_okD)
  obtain m2 zs where m2: "ECB_Encryption_blocks c m1 (drop ?k xs) = Some (m2, zs)" "ecb_ok c m2" "length zs < ?b"
      "fold (ecb_enc_step c) (drop ?k xs) (buf_empty m1) = fold (ecb_enc_step c) zs (buf_empty m2)"
    using ECB_Encryption_blocks_step[OF m1] by blast
  define m3 where "m3 = m2\<lparr>bcm_buffer := reg_copy (bcm_buffer m2) 0 zs (length zs), position := length zs\<rparr>"
  have "ECB_Encryption_write c m xs = Some m3"
    using True m2(1) by (simp add: ECB_Encryption_write_def Let_def blk m1_def m3_def send_def)
  moreover have "ecb_ok c m3" using m2(2,3) by (simp add: m3_def ecb_ok_def length_reg_copy)
  moreover have "buf_view m3 = fold (ecb_enc_step c) zs (buf_empty m2)"
  proof -
    have w: "buf_wf c ?b (buf_empty m2)" "position (buf_empty m2) < ?b" using l assms(2) by (auto simp: buf_wf_def)
    have "position (fold buf_absorb zs (buf_empty m2)) \<noteq> ?b" using m2(3) by (simp add: buf_absorb_bulk)
    then have "fold (ecb_enc_step c) zs (buf_empty m2) = fold buf_absorb zs (buf_empty m2)"
      using ecb_enc.eager_chunk[OF w, of zs] m2(3) by (simp add: Let_def)
    then show ?thesis using m2(2,3)
      by (simp add: m3_def buf_absorb_bulk reg_copy_def at_ptr_def copy_mem_def ecb_ok_def)
  qed
  moreover have "fold (ecb_enc_step c) xs (buf_view m) = fold (ecb_enc_step c) (drop ?k xs) (buf_empty m1)"
  proof -
    have w: "buf_wf c ?b (buf_view m)" "position (buf_view m) < ?b" using l assms(2) by (simp_all add: buf_wf_def)
    have "fold (ecb_enc_step c) (take ?k xs) (buf_view m) = buf_empty m1"
      using ecb_enc.eager_chunk[OF w, of "take ?k xs"] assms(2) True l blk(1)
      by (simp add: Let_def buf_absorb_bulk ecb_enc_flush_def m1_def send_def blk_def[symmetric] cipher_okD)
    then show ?thesis by (metis append_take_drop_id fold_append comp_apply)
  qed
  ultimately show ?thesis using m2(3,4) by (auto simp: m3_def)
next
  case False
  let ?m = "m\<lparr>bcm_buffer := reg_copy (bcm_buffer m) (position m) xs (length xs), position := position m + length xs\<rparr>"
  have l: "length (bcm_buffer m) = block_size c" "cipher_ok c" using assms(1) by (simp_all add: ecb_ok_def)
  have w: "buf_wf c (block_size c) (buf_view m)" "position (buf_view m) < block_size c" using l assms(2) by (simp_all add: buf_wf_def)
  have "fold (ecb_enc_step c) xs (buf_view m) = fold buf_absorb xs (buf_view m)"
    using ecb_enc.eager_chunk[OF w, of xs] False by (simp add: Let_def buf_absorb_bulk)
  moreover have "buf_view ?m = fold buf_absorb xs (buf_view m)" using False l by (intro buf_absorb_view) simp
  moreover have "ecb_ok c ?m" using l assms(2) by (simp add: ecb_ok_def length_reg_copy)
  moreover have "ECB_Encryption_write c m xs = Some ?m" using False by (simp add: ECB_Encryption_write_def Let_def)
  ultimately show ?thesis using False by auto
qed

lemma ECB_Decryption_write_step:
  assumes "ecb_ok c m" and "position m \<le> block_size c"
  shows "\<exists>m'. ECB_Decryption_write c m xs = Some m' \<and> ecb_ok c m' \<and> position m' \<le> block_size c \<and>
    buf_view m' = fold (ecb_dec_step c) xs (buf_view m)"
proof (cases "position m + length xs > block_size c")
  case True
  let ?b = "block_size c" and ?k = "block_size c - position m"
  define blk where "blk = take (position m) (bcm_buffer m) @ take ?k xs"
  have l: "length (bcm_buffer m) = ?b" "cipher_ok c" using assms(1) by (simp_all add: ecb_ok_def)
  have blk: "length blk = ?b" "reg_copy (bcm_buffer m) (position m) xs (length xs) = blk"
    using l assms(2) True by (simp_all add: blk_def reg_copy_fill)
  define m1 where "m1 = send (decrypt c blk) ?b (m\<lparr>bcm_buffer := decrypt c blk\<rparr>)"
  have m1: "ecb_ok c m1" using l blk by (simp add: m1_def send_def ecb_ok_def cipher_okD)
  have "drop ?k xs \<noteq> []" using True assms(2) by auto
  from ECB_Decryption_blocks_step[OF m1 this]
  obtain m2 zs where m2: "ECB_Decryption_blocks c m1 (drop ?k xs) = Some (m2, zs)" "ecb_ok c m2" "length zs \<le> ?b"
      "fold (ecb_dec_step c) (drop ?k xs) (buf_empty m1) = fold (ecb_dec_step c) zs (buf_empty m2)" by blast
  define m3 where "m3 = m2\<lparr>bcm_buffer := reg_copy (bcm_buffer m2) 0 zs (length zs), position := length zs\<rparr>"
  have "ECB_Decryption_write c m xs = Some m3"
    using True m2(1) by (simp add: ECB_Decryption_write_def Let_def blk m1_def m3_def send_def)
  moreover have "ecb_ok c m3" using m2(2,3) by (simp add: m3_def ecb_ok_def length_reg_copy)
  moreover have "buf_view m3 = fold (ecb_dec_step c) zs (buf_empty m2)"
  proof -
    have w: "buf_wf c ?b (buf_empty m2)" "position (buf_empty m2) + length zs \<le> ?b" using l m2(3) by (simp_all add: buf_wf_def)
    then show ?thesis using ecb_dec.lazy_chunk[OF w] m2(2,3)
      by (simp add: m3_def buf_absorb_bulk reg_copy_def at_ptr_def copy_mem_def ecb_ok_def)
  qed
  moreover have "fold (ecb_dec_step c) xs (buf_view m) = fold (ecb_dec_step c) (drop ?k xs) (buf_empty m1)"
  proof -
    have w: "buf_wf c ?b (buf_view m)" "position (buf_view m) + length (take ?k xs) \<le> ?b"
      using l assms(2) by (auto simp: buf_wf_def)
    let ?m = "m\<lparr>bcm_buffer := blk, position := ?b\<rparr>"
    have "fold (ecb_dec_step c) (take ?k xs) (buf_view m) = ?m"
      using ecb_dec.lazy_chunk[OF w] assms(2) blk(1) l by (simp add: buf_absorb_bulk blk_def)
    moreover have "fold (ecb_dec_step c) (drop ?k xs) ?m = fold (ecb_dec_step c) (drop ?k xs) (ecb_dec_flush c ?m)"
      using l blk(1) True assms(2) by (intro ecb_dec.lazy_flush) (auto simp: buf_wf_def)
    moreover have "ecb_dec_flush c ?m = buf_empty m1" using l blk(1) by (simp add: ecb_dec_flush_def m1_def send_def cipher_okD)
    ultimately show ?thesis by (metis append_take_drop_id fold_append comp_apply)
  qed
  ultimately show ?thesis using m2(3,4) by (auto simp: m3_def)
next
  case False
  let ?m = "m\<lparr>bcm_buffer := reg_copy (bcm_buffer m) (position m) xs (length xs), position := position m + length xs\<rparr>"
  have l: "length (bcm_buffer m) = block_size c" "cipher_ok c" using assms(1) by (simp_all add: ecb_ok_def)
  have w: "buf_wf c (block_size c) (buf_view m)" "position (buf_view m) + length xs \<le> block_size c"
    using l assms(2) False by (simp_all add: buf_wf_def)
  have "buf_view ?m = fold (ecb_dec_step c) xs (buf_view m)"
    using buf_absorb_view[of m xs] False l ecb_dec.lazy_chunk[OF w] by simp
  moreover have "ecb_ok c ?m" using l assms(2) by (simp add: ecb_ok_def length_reg_copy)
  moreover have "ECB_Decryption_write c m xs = Some ?m" using False by (simp add: ECB_Decryption_write_def Let_def)
  ultimately show ?thesis using False by auto
qed

lemma ecb_enc_blocks:
  assumes "cipher_ok c" and "\<forall>p \<in> set ps. length p = block_size c"
  shows "fold (ecb_enc_step c) (concat ps) (buf_empty m) = buf_empty (m\<lparr>sent := sent m @ concat (map (encrypt c) ps)\<rparr>)"
  using assms(2)
proof (induction ps arbitrary: m)
  case (Cons p ps)
  then show ?case using ecb_enc_block[OF assms(1), of "concat (p # ps)" m] Cons.IH[of "m\<lparr>sent := sent m @ encrypt c p\<rparr>"] by simp
qed simp

lemma ecb_dec_blocks:
  assumes "cipher_ok c" and "\<forall>p \<in> set (ps @ [q]). length p = block_size c"
  shows "fold (ecb_dec_step c) (concat (map (encrypt c) (ps @ [q]))) (buf_empty m) =
    m\<lparr>bcm_buffer := encrypt c q, position := block_size c, sent := sent m @ concat ps\<rparr>"
  using assms(2)
proof (induction ps arbitrary: m)
  case Nil
  have w: "buf_wf c (block_size c) (buf_empty m)" "position (buf_empty m) + length (encrypt c q) \<le> block_size c"
    using assms(1) Nil by (simp_all add: buf_wf_def cipher_okD)
  show ?case using ecb_dec.lazy_chunk[OF w] Nil assms(1) by (simp add: buf_absorb_bulk cipher_okD)
next
  case (Cons p ps)
  have l: "length (encrypt c p) = block_size c" "decrypt c (encrypt c p) = p" "0 < length (encrypt c q)"
    using Cons.prems assms(1) by (simp_all add: cipher_okD)
  then show ?case
    using ecb_dec_block[OF assms(1), of "concat (map (encrypt c) ((p # ps) @ [q]))" m] Cons.IH[of "m\<lparr>sent := sent m @ p\<rparr>"] Cons.prems
    by simp
qed

lemma ECB_Encryption_writes:
  "ecb_ok c m \<Longrightarrow> position m < block_size c \<Longrightarrow> \<exists>m'. write_all (ECB_Encryption_write c) xss m = Some m' \<and>
    (ecb_ok c m' \<and> position m' < block_size c) \<and> buf_view m' = fold (ecb_enc_step c) (concat xss) (buf_view m)"
  using ECB_Encryption_write_step
  by (intro write_all_view[where v = buf_view and I = "\<lambda>m. ecb_ok c m \<and> position m < block_size c"]) auto

lemma ECB_Decryption_writes:
  "ecb_ok c m \<Longrightarrow> position m \<le> block_size c \<Longrightarrow> \<exists>m'. write_all (ECB_Decryption_write c) xss m = Some m' \<and>
    (ecb_ok c m' \<and> position m' \<le> block_size c) \<and> buf_view m' = fold (ecb_dec_step c) (concat xss) (buf_view m)"
  using ECB_Decryption_write_step
  by (intro write_all_view[where v = buf_view and I = "\<lambda>m. ecb_ok c m \<and> position m \<le> block_size c"]) auto

context padding
begin

lemma ecb_encrypt_message:
  assumes m: "ecb_ok c m" "position m = 0" and valid: "valid_blocksize p (block_size c)"
    and xs: "concat xss = concat ps @ r" "\<forall>q \<in> set ps. length q = block_size c" "length r < block_size c"
  shows "\<exists>e. run_message (ECB_Encryption_write c) (ECB_Encryption_end_msg c p) xss m = Some (Inr e) \<and>
    sent e = sent m @ concat (map (encrypt c) (ps @ [r @ padding_of p (block_size c) (length r)]))"
proof -
  let ?b = "block_size c" and ?pd = "padding_of p (block_size c) (length r)"
  have c: "cipher_ok c" "0 < ?b" using m(1) by (simp_all add: ecb_ok_def cipher_okD)
  have e: "buf_view m = buf_empty m" using m(2) by simp
  obtain m1 where m1: "write_all (ECB_Encryption_write c) xss m = Some m1" "ecb_ok c m1" "position m1 < ?b"
      "buf_view m1 = fold (ecb_enc_step c) (concat ps @ r) (buf_empty m)"
    using ECB_Encryption_writes[of c m xss] m c(2) unfolding xs(1) e by auto
  let ?s = "buf_empty (m\<lparr>sent := sent m @ concat (map (encrypt c) ps)\<rparr>)"
  have w: "buf_wf c ?b ?s" "position ?s < ?b" using c by (simp_all add: buf_wf_def)
  have "buf_view m1 = fold buf_absorb r ?s"
    using ecb_enc.eager_chunk[OF w, of r] xs(3) unfolding m1(4)
    by (simp add: ecb_enc_blocks[OF c(1) xs(2)] Let_def buf_absorb_bulk)
  from arg_cong[OF this, of position] have "position m1 = length r" by (simp add: buf_absorb_bulk)
  then have pd: "take (pad_bytes p ?b (position m1)) (pad p (reg_create ?b) ?b (position m1)) = ?pd"
    by (simp add: padding_of_def reg_create_def)
  obtain m2 where m2: "ECB_Encryption_write c m1 ?pd = Some m2" "buf_view m2 = fold (ecb_enc_step c) ?pd (buf_view m1)"
    using ECB_Encryption_write_step[OF m1(2,3)] by blast
  have "concat ps @ r @ ?pd = concat (ps @ [r @ ?pd])" by simp
  moreover have "\<forall>q \<in> set (ps @ [r @ ?pd]). length q = ?b" using xs(2,3) valid by (simp add: padding_fills)
  ultimately have "buf_view m2 = buf_empty (m\<lparr>sent := sent m @ concat (map (encrypt c) (ps @ [r @ ?pd]))\<rparr>)"
    unfolding m2(2) m1(4) using ecb_enc_blocks[OF c(1), of "ps @ [r @ ?pd]" m] by simp
  from arg_cong[OF this, of position] arg_cong[OF this, of sent]
  have "position m2 = 0" "sent m2 = sent m @ concat (map (encrypt c) (ps @ [r @ ?pd]))" by simp_all
  then show ?thesis using m1(1) m2(1) by (simp add: run_message_def ECB_Encryption_end_msg_def pd)
qed

lemma ecb_decrypt_message:
  assumes m: "ecb_ok c m" "position m = 0" and valid: "valid_blocksize p (block_size c)"
    and ps: "\<forall>q \<in> set ps. length q = block_size c" "length r < block_size c"
    and ys: "concat yss = concat (map (encrypt c) (ps @ [r @ padding_of p (block_size c) (length r)]))"
  shows "\<exists>d. run_message (ECB_Decryption_write c) (ECB_Decryption_end_msg c p) yss m = Some (Inr d) \<and>
    sent d = sent m @ concat ps @ r"
proof -
  let ?b = "block_size c" and ?last = "r @ padding_of p (block_size c) (length r)"
  have c: "cipher_ok c" using m(1) by (simp add: ecb_ok_def)
  have e: "buf_view m = buf_empty m" using m(2) by simp
  obtain m1 where m1: "write_all (ECB_Decryption_write c) yss m = Some m1" "ecb_ok c m1"
      "buf_view m1 = fold (ecb_dec_step c) (concat yss) (buf_empty m)"
    using ECB_Decryption_writes[of c m yss] m unfolding e by auto
  have l: "\<forall>q \<in> set (ps @ [?last]). length q = ?b" "length ?last = ?b" using ps valid by (simp_all add: padding_fills)
  have v: "buf_view m1 = m\<lparr>bcm_buffer := encrypt c ?last, position := ?b, sent := sent m @ concat ps\<rparr>"
    unfolding m1(3) ys by (rule ecb_dec_blocks[OF c l(1)])
  have s: "position m1 = ?b" "sent m1 = sent m @ concat ps"
    using arg_cong[OF v, of position] arg_cong[OF v, of sent] by simp_all
  have "bcm_buffer m1 = encrypt c ?last" using arg_cong[OF v, of bcm_buffer] s m1(2) by (simp add: ecb_ok_def)
  then show ?thesis using m1(1) s l(2) c unpad_padding[OF valid ps(2)]
    by (simp add: run_message_def ECB_Decryption_end_msg_def send_def cipher_okD)
qed

lemma ecb_round_trip:
  assumes c: "cipher_ok c" "valid_blocksize p (block_size c)"
    and m: "set_iv c nm 0 [] (new_Mode c 0 1) = Inr m"
  shows "\<exists>e. run_message (ECB_Encryption_write c) (ECB_Encryption_end_msg c p) xss m = Some (Inr e) \<and>
    (\<forall>yss. concat yss = sent e \<longrightarrow>
      (\<exists>d. run_message (ECB_Decryption_write c) (ECB_Decryption_end_msg c p) yss m = Some (Inr d) \<and> sent d = concat xss))"
proof -
  have m: "ecb_ok c m" "position m = 0" "sent m = []"
    using m c by (auto simp: set_iv_def new_Mode_def ecb_ok_def Let_def reg_create_def reg_clear_def split: if_splits)
  have bs: "0 < block_size c" using c(1) by (rule cipher_okD)
  obtain ps r where xs: "concat xss = concat ps @ r" "\<forall>q \<in> set ps. length q = block_size c" "length r < block_size c"
    using split_message[OF bs, of "concat xss"] bs by (metis mod_less_divisor)
  show ?thesis using ecb_encrypt_message[OF m(1,2) c(2) xs] ecb_decrypt_message[OF m(1,2) c(2) xs(2,3)] m(3)
    by (fastforce simp: xs(1))
qed

end

end
