(* ===== verification/Mode_CTS.thy ===== *)
theory Mode_CTS
  imports Mode_Block
begin

text \<open>
  Correctness of ciphertext stealing. The locale \<open>block_writer\<close> is the interface \<open>write\<close> has to the block function
  of the class: it changes only what is not buffered and reads one block.
\<close>

locale block_writer =
  fixes bs :: nat and f :: "byte list \<Rightarrow> Mode \<Rightarrow> Mode" and ok :: "Mode \<Rightarrow> bool"
  assumes bs_pos: "0 < bs"
    and f_view: "f b (m\<lparr>bcm_buffer := x, position := i\<rparr>) = (f b m)\<lparr>bcm_buffer := x, position := i\<rparr>"
    and f_take: "bs \<le> length b \<Longrightarrow> ok m \<Longrightarrow> f (take bs b) m = f b m"
    and ok_f: "bs \<le> length b \<Longrightarrow> ok m \<Longrightarrow> ok (f b m)"
    and ok_view: "ok (m\<lparr>bcm_buffer := x, position := i\<rparr>) = ok m"
begin

definition flush :: "Mode \<Rightarrow> Mode" where
  "flush m = (f (bcm_buffer m) m)\<lparr>bcm_buffer := drop bs (bcm_buffer m), position := bs\<rparr>"

abbreviation inv :: "Mode \<Rightarrow> bool" where
  "inv m \<equiv> ok m \<and> length (bcm_buffer m) = position m \<and> position m \<le> 2 * bs"

sublocale machine: byte_machine "2 * bs" position buf_absorb flush inv
proof
  fix s b assume s: "inv s" "position s < 2 * bs"
  have "buf_absorb b s = s\<lparr>bcm_buffer := bcm_buffer s @ [b], position := position s + 1\<rparr>" by (simp add: buf_absorb_def)
  then show "inv (buf_absorb b s) \<and> position (buf_absorb b s) = Suc (position s)" using s ok_view by simp
next
  fix s assume s: "inv s" "position s = 2 * bs"
  then show "inv (flush s) \<and> position (flush s) < 2 * bs" using ok_view ok_f bs_pos by (simp add: flush_def)
qed simp

abbreviation "step \<equiv> lazy_step (2 * bs) position buf_absorb flush"

lemma f_buffer: "bcm_buffer (f b m) = bcm_buffer m" and f_position: "position (f b m) = position m"
  using f_view[where b = b and m = m and x = "bcm_buffer m" and i = "position m"] by (cases "f b m", cases m, simp)+

lemma absorb_empty:
  assumes "ok m" and "length xs \<le> 2 * bs"
  shows "fold step xs (buf_empty m) = m\<lparr>bcm_buffer := xs, position := length xs\<rparr>"
  using machine.lazy_chunk[of "buf_empty m" xs] assms ok_view[where m = m and x = "[]" and i = 0] by (simp add: buf_absorb_bulk)

text \<open>One block leaves the buffer when more than two blocks have arrived.\<close>

lemma step_block:
  assumes "ok m" and "2 * bs < length xs"
  shows "fold step xs (buf_empty m) = fold step (drop bs xs) (buf_empty (f xs m))"
proof -
  let ?m = "m\<lparr>bcm_buffer := take (2 * bs) xs, position := 2 * bs\<rparr>" and ?ys = "take bs (drop bs xs)"
  have x: "xs = take (2 * bs) xs @ drop (2 * bs) xs" "drop bs xs = ?ys @ drop (2 * bs) xs"
    using append_take_drop_id[of bs "drop bs xs"] by (simp_all add: mult_2)
  have "fold step xs (buf_empty m) = fold step (drop (2 * bs) xs) ?m"
    using absorb_empty[OF assms(1), of "take (2 * bs) xs"] assms(2) by (subst x(1), subst fold_append) simp
  also have "\<dots> = fold step (drop (2 * bs) xs) (flush ?m)"
    using assms ok_view by (intro machine.lazy_flush) simp_all
  also have "flush ?m = (f (take (2 * bs) xs) m)\<lparr>bcm_buffer := ?ys, position := bs\<rparr>"
    by (simp add: flush_def f_view mult_2 take_drop[symmetric])
  also have "f (take (2 * bs) xs) m = f xs m"
    using f_take[of "take (2 * bs) xs" m] f_take[of xs m] assms by simp
  also have "(f xs m)\<lparr>bcm_buffer := ?ys, position := bs\<rparr> = fold step ?ys (buf_empty (f xs m))"
    using absorb_empty[of "f xs m" ?ys] ok_f[of xs m] assms by simp
  finally show ?thesis by (subst x(2)) simp
qed

lemma step_blocks:
  assumes "ok m" and "\<forall>p \<in> set ps. length p = bs" and "bs < length xs"
  shows "fold step (concat ps @ xs) (buf_empty m) = fold step xs (buf_empty (fold f ps m)) \<and> ok (fold f ps m)"
  using assms
proof (induction ps arbitrary: m)
  case (Cons p ps)
  have "f (p @ concat ps @ xs) m = f p m" using f_take[of "p @ concat ps @ xs" m] Cons.prems by simp
  then show ?case using step_block[of m "p @ concat ps @ xs"] Cons.prems Cons.IH[of "f p m"] ok_f[of p m] by simp
qed simp

lemma CTS_blocks_step:
  assumes "ok m" and "bs < length xs"
  shows "\<exists>m' zs. CTS_blocks bs f m xs = Some (m', zs) \<and> ok m' \<and> bcm_buffer m' = bcm_buffer m \<and> length zs \<le> 2 * bs \<and>
    fold step xs (buf_empty m) = fold step zs (buf_empty m')"
  using assms
proof (induction "length xs" arbitrary: xs m rule: less_induct)
  case less
  show ?case
  proof (cases "2 * bs < length xs")
    case True
    have "CTS_blocks bs f m xs = CTS_blocks bs f (f xs m) (drop bs xs)" using True by (subst CTS_blocks.simps) simp
    moreover have "fold step xs (buf_empty m) = fold step (drop bs xs) (buf_empty (f xs m))"
      using step_block less.prems(1) True by blast
    moreover have "length (drop bs xs) < length xs" "ok (f xs m)" "bs < length (drop bs xs)"
      using True bs_pos ok_f[of xs m] less.prems(1) by auto
    ultimately show ?thesis using less.hyps[of "drop bs xs" "f xs m"] by (simp add: f_buffer)
  next
    case False
    then show ?thesis using less.prems by (subst CTS_blocks.simps) auto
  qed
qed

definition ready :: "Mode \<Rightarrow> bool" where
  "ready m \<longleftrightarrow> ok m \<and> length (bcm_buffer m) = 2 * bs \<and> position m \<le> 2 * bs"

lemma view_fill:
  assumes "ready m" and "position m + length xs \<le> 2 * bs"
  shows "buf_view (m\<lparr>bcm_buffer := reg_copy (bcm_buffer m) (position m) xs (length xs), position := position m + length xs\<rparr>) =
    fold step xs (buf_view m)"
proof -
  have "fold step xs (buf_view m) = fold buf_absorb xs (buf_view m)"
    using assms ok_view[where m = m and i = "position m"] by (intro machine.lazy_chunk) (auto simp: ready_def)
  then show ?thesis using buf_absorb_view[of m xs] assms by (simp add: ready_def)
qed

lemma ready_fill:
  "ready m \<Longrightarrow> position m + length xs \<le> 2 * bs \<Longrightarrow>
    ready (m\<lparr>bcm_buffer := reg_copy (bcm_buffer m) (position m) xs (length xs), position := position m + length xs\<rparr>)"
  using ok_view by (simp add: ready_def length_reg_copy)

lemma CTS_write_step:
  assumes "ready m"
  shows "\<exists>m'. CTS_write bs f m xs = Some m' \<and> ready m' \<and> buf_view m' = fold step xs (buf_view m)"
proof -
  define k where "k = min (2 * bs - position m) (length xs)"
  define m1 where "m1 = m\<lparr>bcm_buffer := reg_copy (bcm_buffer m) (position m) (take k xs) (length (take k xs)),
      position := position m + length (take k xs)\<rparr>"
  have k: "length (take k xs) = k" "position m + length (take k xs) \<le> 2 * bs" using assms by (auto simp: k_def ready_def)
  have m1: "ready m1" "buf_view m1 = fold step (take k xs) (buf_view m)" "position m1 = position m + k"
    using ready_fill[OF assms k(2)] view_fill[OF assms k(2)] k(1) by (simp_all add: m1_def)
  have w: "CTS_write bs f m xs = (let input = drop k xs in if input = [] then Some m1
         else
           let m = f (bcm_buffer m1) m1
           in case (if length input > bs then
                      case CTS_blocks bs f (f (drop bs (bcm_buffer m)) m) input of
                        None \<Rightarrow> None
                      | Some (m, input) \<Rightarrow> Some (m\<lparr>position := 0\<rparr>, input)
                    else Some (m\<lparr>bcm_buffer := copy_mem (bcm_buffer m) (drop bs (bcm_buffer m)) bs, position := bs\<rparr>, input)) of
                None \<Rightarrow> None
              | Some (m, input) \<Rightarrow>
                  let m = m\<lparr>bcm_buffer := reg_copy (bcm_buffer m) (position m) input (length input)\<rparr>
                  in Some (m\<lparr>position := position m + length input\<rparr>))"
    unfolding m1_def CTS_write_def k_def[symmetric] k(1) reg_copy_take by (simp add: Let_def)
  show ?thesis
  proof (cases "drop k xs = []")
    case True
    then have "take k xs = xs" by simp
    then show ?thesis using m1 w True by (simp add: Let_def)
  next
    case False
    define rest where "rest = drop k xs"
    define blk where "blk = bcm_buffer m1"
    define m2 where "m2 = f blk m1"
    have pos: "position m1 = 2 * bs" "length blk = 2 * bs" using False m1(1,3) by (auto simp: k_def blk_def ready_def)
    have ok1: "ok m1" "ok m" using m1(1) assms by (simp_all add: ready_def)
    have ok2: "ok m2" "bcm_buffer m2 = blk" unfolding m2_def using ok1 pos ok_f[of blk m1] f_buffer[of blk m1] by (simp_all add: blk_def)
    have "fold step blk (buf_empty m1) = buf_view m1"
      using absorb_empty[OF ok1(1), of blk] pos by (simp add: blk_def)
    then have "fold step xs (buf_view m) = fold step (blk @ rest) (buf_empty m1)"
      using m1(2) by (simp add: rest_def) (metis append_take_drop_id fold_append comp_apply)
    also have "\<dots> = fold step (drop bs blk @ rest) (buf_empty m2)"
      using step_block[OF ok1(1), of "blk @ rest"] pos f_take[of "blk @ rest" m1] f_take[of blk m1] ok1 False
      by (simp add: m2_def rest_def)
    finally have all: "fold step xs (buf_view m) = fold step (drop bs blk @ rest) (buf_empty m2)" .
    show ?thesis
    proof (cases "length rest > bs")
      case True
      define m3 where "m3 = f (drop bs blk) m2"
      have m3: "ok m3" "bcm_buffer m3 = blk" unfolding m3_def using ok2 ok_f[of "drop bs blk" m2] pos by (simp_all add: f_buffer)
      have "fold step (drop bs blk @ rest) (buf_empty m2) = fold step rest (buf_empty m3)"
        using step_block[OF ok2(1), of "drop bs blk @ rest"] True pos f_take[of "drop bs blk @ rest" m2] ok2
        by (simp add: m3_def)
      moreover obtain m4 zs where b: "CTS_blocks bs f m3 rest = Some (m4, zs)" "ok m4" "bcm_buffer m4 = blk" "length zs \<le> 2 * bs"
          "fold step rest (buf_empty m3) = fold step zs (buf_empty m4)"
        using CTS_blocks_step[OF m3(1) True] m3(2) by auto
      moreover define m5 where "m5 = m4\<lparr>bcm_buffer := reg_copy (bcm_buffer m4) 0 zs (length zs), position := length zs\<rparr>"
      moreover have "CTS_write bs f m xs = Some m5"
        using w False True b ok2 unfolding rest_def[symmetric] by (simp add: Let_def m5_def m3_def blk_def[symmetric] m2_def[symmetric])
      moreover have "ready m5" using b pos ok_view by (simp add: m5_def ready_def length_reg_copy)
      moreover have "buf_view m5 = fold step zs (buf_empty m4)"
        using absorb_empty[OF b(2,4)] b(3,4) pos by (simp add: m5_def reg_copy_def at_ptr_def copy_mem_def)
      ultimately show ?thesis using all by simp
    next
      case small: False
      define m5 where "m5 = m2\<lparr>bcm_buffer := reg_copy (copy_mem blk (drop bs blk) bs) bs rest (length rest), position := bs + length rest\<rparr>"
      have "CTS_write bs f m xs = Some m5"
        using w False small ok2 unfolding rest_def[symmetric] by (simp add: Let_def m5_def blk_def[symmetric] m2_def[symmetric])
      moreover have "ready m5" using ok2 small pos ok_view by (simp add: m5_def ready_def length_reg_copy copy_mem_def)
      moreover have "buf_view m5 = fold step (drop bs blk @ rest) (buf_empty m2)"
        using absorb_empty[OF ok2(1), of "drop bs blk @ rest"] small pos
        by (simp add: m5_def reg_copy_def at_ptr_def copy_mem_def)
      ultimately show ?thesis using all by simp
    qed
  qed
qed

lemma CTS_writes:
  "ready m \<Longrightarrow> \<exists>m'. write_all (CTS_write bs f) xss m = Some m' \<and> ready m' \<and> buf_view m' = fold step (concat xss) (buf_view m)"
  using CTS_write_step by (intro write_all_view[where v = buf_view and I = ready]) auto

text \<open>A message longer than a block: all but the last one to two blocks have been processed.\<close>

lemma CTS_message:
  assumes "ready m" and "position m = 0" and "concat xss = concat ps @ xs" and "\<forall>p \<in> set ps. length p = bs"
    and "bs < length xs" and "length xs \<le> 2 * bs"
  shows "\<exists>m'. write_all (CTS_write bs f) xss m = Some m' \<and> position m' = length xs \<and> length (bcm_buffer m') = 2 * bs \<and>
    take (length xs) (bcm_buffer m') = xs \<and> bcm_state m' = bcm_state (fold f ps m) \<and> sent m' = sent (fold f ps m)"
proof -
  have ok: "ok m" "buf_view m = buf_empty m" using assms(1,2) by (simp_all add: ready_def)
  obtain m' where m': "write_all (CTS_write bs f) xss m = Some m'" "ready m'"
      "buf_view m' = fold step (concat ps @ xs) (buf_empty m)"
    using CTS_writes[OF assms(1), of xss] unfolding ok(2) assms(3) by blast
  have v: "buf_view m' = (fold f ps m)\<lparr>bcm_buffer := xs, position := length xs\<rparr>"
    unfolding m'(3) using step_blocks[OF ok(1) assms(4,5)] absorb_empty[of "fold f ps m" xs] assms(6) by simp
  then show ?thesis using m'(1,2) arg_cong[OF v, of position] arg_cong[OF v, of bcm_buffer] arg_cong[OF v, of bcm_state]
      arg_cong[OF v, of sent] by (simp add: ready_def)
qed

end

definition cts_ok :: "BlockCipher \<Rightarrow> Mode \<Rightarrow> bool" where
  "cts_ok c m \<longleftrightarrow> length (bcm_state m) = block_size c"

lemma CTS_encrypt_block:
  assumes "cipher_ok c" and "cts_ok c m" and "block_size c \<le> length b"
  shows "CTS_encrypt c b m = m\<lparr>bcm_state := encrypt c (xor_bytes (bcm_state m) (take (block_size c) b)),
     sent := sent m @ encrypt c (xor_bytes (bcm_state m) (take (block_size c) b))\<rparr>"
  using assms by (simp add: CTS_encrypt_def Let_def send_def cts_ok_def xor_buf_map2 cipher_okD)

lemma CTS_decrypt_block:
  assumes "cipher_ok c" and "cts_ok c m" and "block_size c \<le> length b"
  shows "CTS_decrypt c b m = m\<lparr>bcm_state := take (block_size c) b,
     sent := sent m @ xor_bytes (decrypt c (take (block_size c) b)) (bcm_state m)\<rparr>"
  using assms
  by (simp add: CTS_decrypt_def Let_def send_def cts_ok_def xor_buf_map2 cipher_okD reg_copy_def at_ptr_def copy_mem_def)

text \<open>A keyed cipher gives the two block functions.\<close>

locale keyed_cipher =
  fixes c :: BlockCipher
  assumes ok: "cipher_ok c"
begin

sublocale enc: block_writer "block_size c" "CTS_encrypt c" "cts_ok c"
proof
  show "0 < block_size c" using ok by (rule cipher_okD)
  fix b :: "byte list" and m assume "block_size c \<le> length b" "cts_ok c m"
  then show "CTS_encrypt c (take (block_size c) b) m = CTS_encrypt c b m" "cts_ok c (CTS_encrypt c b m)"
    using ok by (simp_all add: CTS_encrypt_block) (simp add: cts_ok_def cipher_okD)
qed (simp_all add: CTS_encrypt_def Let_def send_def cts_ok_def)

sublocale dec: block_writer "block_size c" "CTS_decrypt c" "cts_ok c"
proof
  show "0 < block_size c" using ok by (rule cipher_okD)
  fix b :: "byte list" and m assume "block_size c \<le> length b" "cts_ok c m"
  then show "CTS_decrypt c (take (block_size c) b) m = CTS_decrypt c b m" "cts_ok c (CTS_decrypt c b m)"
    using ok by (simp_all add: CTS_decrypt_block) (simp add: cts_ok_def)
qed (simp_all add: CTS_decrypt_def Let_def send_def cts_ok_def)

lemma fold_CTS_encrypt:
  assumes "cts_ok c m" and "\<forall>p \<in> set ps. length p = block_size c"
  shows "sent (fold (CTS_encrypt c) ps m) = sent m @ concat (cbc_blocks c (bcm_state m) ps) \<and>
    bcm_state (fold (CTS_encrypt c) ps m) = last (bcm_state m # cbc_blocks c (bcm_state m) ps) \<and> cts_ok c (fold (CTS_encrypt c) ps m)"
  using assms
proof (induction ps arbitrary: m)
  case (Cons p ps)
  have b: "CTS_encrypt c p m = m\<lparr>bcm_state := encrypt c (xor_bytes (bcm_state m) p), sent := sent m @ encrypt c (xor_bytes (bcm_state m) p)\<rparr>"
    using CTS_encrypt_block[OF ok, of m p] Cons.prems by simp
  then show ?case using Cons.IH[of "CTS_encrypt c p m"] Cons.prems enc.ok_f[of p m] by (simp add: Let_def)
qed simp

lemma fold_CTS_decrypt:
  assumes "cts_ok c m" and "\<forall>p \<in> set ps. length p = block_size c"
  shows "sent (fold (CTS_decrypt c) (cbc_blocks c (bcm_state m) ps) m) = sent m @ concat ps \<and>
    bcm_state (fold (CTS_decrypt c) (cbc_blocks c (bcm_state m) ps) m) = last (bcm_state m # cbc_blocks c (bcm_state m) ps)"
  using assms
proof (induction ps arbitrary: m)
  case (Cons p ps)
  let ?y = "encrypt c (xor_bytes (bcm_state m) p)"
  have y: "length ?y = block_size c" "decrypt c ?y = xor_bytes (bcm_state m) p"
    using Cons.prems ok by (simp_all add: cts_ok_def cipher_okD)
  have b: "CTS_decrypt c ?y m = m\<lparr>bcm_state := ?y, sent := sent m @ p\<rparr>"
    using CTS_decrypt_block[OF ok, of m ?y] Cons.prems y xor_bytes_cancel_left[of "bcm_state m" p] xor_bytes_commute[of "xor_bytes (bcm_state m) p"]
    by (simp add: cts_ok_def)
  then show ?case using Cons.IH[of "CTS_decrypt c ?y m"] Cons.prems dec.ok_f[of ?y m] y(1) by (simp add: Let_def)
qed simp

lemma length_cbc_blocks:
  "length st = block_size c \<Longrightarrow> \<forall>p \<in> set ps. length p = block_size c \<Longrightarrow>
    (\<forall>y \<in> set (cbc_blocks c st ps). length y = block_size c) \<and> length (concat (cbc_blocks c st ps)) = length (concat ps)"
proof (induction ps arbitrary: st)
  case (Cons p ps)
  have "length (encrypt c (xor_bytes st p)) = block_size c" using Cons.prems ok by (simp add: cipher_okD)
  then show ?case using Cons.prems Cons.IH[of "encrypt c (xor_bytes st p)"] by (simp add: Let_def)
qed simp

lemma split_last_blocks:
  assumes "block_size c < length xs"
  shows "\<exists>ps q r. xs = concat ps @ q @ r \<and> (\<forall>p \<in> set ps. length p = block_size c) \<and> length q = block_size c \<and>
    0 < length r \<and> length r \<le> block_size c"
proof -
  let ?b = "block_size c"
  define k where "k = ?b * ((length xs - 1) div ?b)"
  have b: "0 < ?b" using ok by (rule cipher_okD)
  have k: "k + (length xs - 1) mod ?b = length xs - 1" "(length xs - 1) mod ?b < ?b" using b by (simp_all add: k_def)
  then have "0 < length xs - k" "length xs - k \<le> ?b" using assms by linarith+
  moreover have "?b \<le> k" using assms b by (simp add: k_def div_greater_zero_iff Suc_leI)
  ultimately have l: "0 < length (drop k xs)" "length (drop k xs) \<le> ?b" "?b \<le> k" by simp_all
  have "length (take k xs) = k" using k(1) assms by simp
  then have "?b dvd length (take k xs)" by (simp add: k_def)
  then obtain ps where ps: "take k xs = concat ps" "\<forall>p \<in> set ps. length p = ?b" using split_blocks[OF b] by blast
  have "ps \<noteq> []" using ps(1) l b assms k by auto
  then have "take k xs = concat (butlast ps) @ last ps" using ps(1) append_butlast_last_id[of ps] by (metis concat_append concat.simps append_Nil2)
  then have "xs = concat (butlast ps) @ last ps @ drop k xs" by (metis append_assoc append_take_drop_id)
  then show ?thesis using ps(2) \<open>ps \<noteq> []\<close> l by (metis in_set_butlastD last_in_set)
qed

text \<open>The ciphertext is as long as the message and decrypts to it, however both are cut into pieces.\<close>

lemma cts_round_trip:
  assumes m: "set_iv c nm 0 iv (new_Mode c (block_size c) 2) = Inr m" and len: "block_size c < length (concat xss)"
  shows "\<exists>e. run_message (CTS_Encryption_write c) (\<lambda>m. Some (CTS_Encryption_end_msg c m)) xss m = Some (Inr e) \<and>
    length (sent e) = length (concat xss) \<and>
    (\<forall>yss. concat yss = sent e \<longrightarrow>
      (\<exists>d. run_message (CTS_Decryption_write c) (\<lambda>m. map_option Inr (CTS_Decryption_end_msg c m)) yss m = Some (Inr d) \<and>
        sent d = concat xss))"
proof -
  let ?b = "block_size c"
  have m: "length (bcm_state m) = ?b" "length (bcm_buffer m) = 2 * ?b" "position m = 0" "sent m = []"
    using m by (auto simp: set_iv_def new_Mode_def Let_def split: if_splits)
  have b: "0 < ?b" using ok by (rule cipher_okD)
  obtain ps q r where xs: "concat xss = concat ps @ q @ r" "\<forall>p \<in> set ps. length p = ?b" "length q = ?b"
      "0 < length r" "length r \<le> ?b" using split_last_blocks[OF len] by blast
  have ready: "enc.ready m" "dec.ready m" "cts_ok c m" using m by (simp_all add: enc.ready_def dec.ready_def cts_ok_def)
  define st where "st = last (bcm_state m # cbc_blocks c (bcm_state m) ps)"
  define cn where "cn = encrypt c (xor_bytes st q)"
  define y where "y = encrypt c (xor_bytes cn (r @ replicate (?b - length r) 0))"
  obtain m1 where m1: "write_all (CTS_Encryption_write c) xss m = Some m1" "position m1 = ?b + length r"
      "length (bcm_buffer m1) = 2 * ?b" "take (?b + length r) (bcm_buffer m1) = q @ r" "bcm_state m1 = st"
      "sent m1 = concat (cbc_blocks c (bcm_state m) ps)"
    using enc.CTS_message[OF ready(1) m(3) xs(1,2)] xs(3-5) fold_CTS_encrypt[OF ready(3) xs(2)]
    by (auto simp: CTS_Encryption_write_def st_def m(4))
  have st: "length st = ?b" using length_cbc_blocks[OF m(1) xs(2)] m(1) by (auto simp: st_def)
  have cn: "length cn = ?b" "length y = ?b" using st ok xs(3,5) by (simp_all add: cn_def y_def cipher_okD)
  have buf: "take ?b (bcm_buffer m1) = q" "take (length r) (drop ?b (bcm_buffer m1)) = r"
    using arg_cong[OF m1(4), of "take ?b"] arg_cong[OF m1(4), of "drop ?b"] xs(3) by (simp_all add: drop_take)
  have zs: "xor_bytes xs (replicate (length xs) 0) = xs" for xs by (induction xs) simp_all
  obtain e where e: "CTS_Encryption_end_msg c m1 = Inr e" "sent e = sent m1 @ y @ take (length r) cn"
  proof -
    let ?m = "m1\<lparr>bcm_state := cn, bcm_buffer := q @ r @ replicate (?b - length r) 0\<rparr>"
    have "at_ptr (position m1) (\<lambda>p. clear_mem p (2 * ?b - position m1)) (bcm_buffer m1) = q @ r @ replicate (?b - length r) 0"
      using m1(2-4) by (simp add: at_ptr_def clear_mem_def)
    moreover have "encrypt c (xor_buf (bcm_state m1) (bcm_buffer m1) ?b) = cn"
      using m1(3,5) st buf by (simp add: xor_buf_map2 cn_def)
    moreover have "CTS_encrypt c (drop ?b (q @ r @ replicate (?b - length r) 0)) ?m = ?m\<lparr>bcm_state := y, sent := sent m1 @ y\<rparr>"
      using CTS_encrypt_block[OF ok, of ?m "r @ replicate (?b - length r) 0"] cn(1) xs(3,5) by (simp add: cts_ok_def y_def)
    ultimately show thesis using that m1(2) xs(4) by (simp add: CTS_Encryption_end_msg_def Let_def send_def)
  qed
  have "\<exists>d. run_message (CTS_Decryption_write c) (\<lambda>m. map_option Inr (CTS_Decryption_end_msg c m)) yss m = Some (Inr d) \<and>
      sent d = concat xss" if yss: "concat yss = sent e" for yss
  proof -
    let ?ys = "cbc_blocks c (bcm_state m) ps" and ?last = "y @ take (length r) cn"
    have ys: "concat yss = concat ?ys @ ?last" "\<forall>y \<in> set ?ys. length y = ?b"
      using yss e(2) m1(6) length_cbc_blocks[OF m(1) xs(2)] by simp_all
    have l: "length ?last = ?b + length r" using cn xs(5) by simp
    obtain d1 where d1: "write_all (CTS_Decryption_write c) yss m = Some d1" "position d1 = ?b + length r"
        "length (bcm_buffer d1) = 2 * ?b" "take (?b + length r) (bcm_buffer d1) = ?last" "bcm_state d1 = st" "sent d1 = concat ps"
      using dec.CTS_message[OF ready(2) m(3) ys] l xs(4,5) fold_CTS_decrypt[OF ready(3) xs(2)]
      by (auto simp: CTS_Decryption_write_def st_def m(4))
    have buf: "take ?b (bcm_buffer d1) = y" "take (length r) (drop ?b (bcm_buffer d1)) = take (length r) cn"
      using arg_cong[OF d1(4), of "take ?b"] arg_cong[OF d1(4), of "drop ?b"] cn by (simp_all add: drop_take)
    have temp: "decrypt c y = xor_bytes cn (r @ replicate (?b - length r) 0)"
      using ok cn(1) xs(5) by (simp add: y_def cipher_okD)
    have cut: "cn = take (length r) cn @ drop (length r) cn" by simp
    have "xor_bytes cn (r @ replicate (?b - length r) 0) =
        xor_bytes (take (length r) cn) r @ xor_bytes (drop (length r) cn) (replicate (?b - length r) 0)"
      using cn(1) xs(5) by (subst cut, subst zip_append) simp_all
    also have "xor_bytes (drop (length r) cn) (replicate (?b - length r) 0) = drop (length r) cn"
      using zs[of "drop (length r) cn"] cn(1) by simp
    finally have xn: "xor_buf (decrypt c y) (drop ?b (bcm_buffer d1)) (length r) = r @ drop (length r) cn"
      using temp cn(1) xs(5) d1(3) buf(2) xor_bytes_cancel_left[of "take (length r) cn" r]
        xor_bytes_commute[of "xor_bytes (take (length r) cn) r" "take (length r) cn"]
      by (simp add: xor_buf_map2)
    have bufc: "at_ptr (position d1) (\<lambda>p. copy_mem p (drop (length r) cn) (2 * ?b - position d1)) (bcm_buffer d1) = y @ cn"
      using d1(2-4) cn(1) xs(5) by (simp add: at_ptr_def copy_mem_def)
    have q: "xor_buf (decrypt c cn) st ?b = q"
      using ok st cn(1) xs(3) xor_bytes_cancel_left[of st q] xor_bytes_commute[of "xor_bytes st q" st]
      by (simp add: cn_def xor_buf_map2 cipher_okD)
    have "\<exists>d. CTS_Decryption_end_msg c d1 = Some d \<and> sent d = concat ps @ q @ r"
      using d1(2,5,6) buf(1) xn bufc q cn xs(3,5)
      by (simp add: CTS_Decryption_end_msg_def Let_def send_def)
    then show ?thesis using d1(1) by (auto simp: run_message_def xs(1))
  qed
  then show ?thesis
    using m1 e cn xs length_cbc_blocks[OF m(1) xs(2)] by (auto simp: run_message_def)
qed

end

end
