(* ===== verification/Mode_Properties.thy ===== *)
theory Mode_Properties
  imports Mode_CTS Cipher_Properties
begin

text \<open>
  The modes of operation over any keyed block cipher. \<open>cipher_ok\<close> is what the ciphers of the library provide
  (fact \<open>cipher_object\<close> of each interpretation of \<open>block_cipher\<close>); messages come in pieces, \<open>xss\<close> for the
  plaintext and \<open>yss\<close> for the ciphertext, and every theorem holds for all ways to cut them.
\<close>

interpretation blowfish_modes: keyed_cipher
    "\<lparr>cipher_name = ''Blowfish'', block_size = 8, encrypt = Blowfish_enc k, decrypt = Blowfish_dec k\<rparr>" for k
  by unfold_locales (rule blowfish_cipher.cipher_object, simp)

interpretation seed_modes: keyed_cipher
    "\<lparr>cipher_name = ''SEED'', block_size = 16, encrypt = SEED_enc k, decrypt = SEED_dec k\<rparr>" for k
  by unfold_locales (rule seed_cipher.cipher_object, simp)

abbreviation blowfish_object :: BlockCipher where
  "blowfish_object \<equiv> \<lparr>cipher_name = ''Blowfish'', block_size = 8, encrypt = Blowfish_enc new_Blowfish, decrypt = Blowfish_dec new_Blowfish\<rparr>"

text \<open>C21. CBC with any of the padding methods: encryption never fails on a configuration the constructor accepts, and
  decryption returns the message, for every cutting of both into pieces.\<close>

theorem cbc_message:
  assumes "cipher_ok c" and "p \<in> {PKCS7_Padding, ANSI_X923_Padding, OneAndZeros_Padding}"
    and "new_CBC c p = Inr m0" and "set_iv c nm 0 iv m0 = Inr m"
  shows "\<exists>e. run_message (CBC_Encryption_write c) (CBC_Encryption_end_msg c p) xss m = Some (Inr e) \<and>
    (\<forall>yss. concat yss = sent e \<longrightarrow>
      (\<exists>d. run_message (CBC_Decryption_write c) (CBC_Decryption_end_msg c p) yss m = Some (Inr d) \<and> sent d = concat xss))"
proof -
  have "valid_blocksize p (block_size c)" using assms(3) by (simp add: new_CBC_def split: if_splits)
  then show ?thesis
    using assms(2) pkcs7.cbc_round_trip[OF assms(1)] x923.cbc_round_trip[OF assms(1)] one_and_zeros.cbc_round_trip[OF assms(1)]
      assms(3,4) by blast
qed

theorem cbc_message_witness:
  "\<exists>e. run_message (CBC_Encryption_write blowfish_object) (CBC_Encryption_end_msg blowfish_object PKCS7_Padding) [[1, 2, 3], [4]]
     (new_Mode blowfish_object 8 1) = Some (Inr e)"
  using cbc_message[where c = blowfish_object and p = PKCS7_Padding and m0 = "new_Mode blowfish_object 8 1" and nm = "''CBC''"
    and iv = "replicate 8 0" and m = "new_Mode blowfish_object 8 1" and xss = "[[1, 2, 3], [4]]"]
    blowfish_modes.ok[of new_Blowfish]
  by (simp add: new_CBC_def PKCS7_Padding_def PKCS7_valid_blocksize_def set_iv_def new_Mode_def reg_create_def reg_clear_def Let_def)
    blast

text \<open>C25. ECB with any of the padding methods: decryption returns the message.\<close>

theorem ecb_message:
  assumes "cipher_ok c" and "p \<in> {PKCS7_Padding, ANSI_X923_Padding, OneAndZeros_Padding}"
    and "valid_blocksize p (block_size c)" and "set_iv c nm 0 [] (new_Mode c 0 1) = Inr m"
  shows "\<exists>e. run_message (ECB_Encryption_write c) (ECB_Encryption_end_msg c p) xss m = Some (Inr e) \<and>
    (\<forall>yss. concat yss = sent e \<longrightarrow>
      (\<exists>d. run_message (ECB_Decryption_write c) (ECB_Decryption_end_msg c p) yss m = Some (Inr d) \<and> sent d = concat xss))"
  using assms(2-4) pkcs7.ecb_round_trip[OF assms(1)] x923.ecb_round_trip[OF assms(1)] one_and_zeros.ecb_round_trip[OF assms(1)]
  by blast

theorem ecb_message_witness:
  "\<exists>e. run_message (ECB_Encryption_write blowfish_object) (ECB_Encryption_end_msg blowfish_object OneAndZeros_Padding) [[1, 2, 3], [4]]
     (new_Mode blowfish_object 0 1) = Some (Inr e)"
  using ecb_message[where c = blowfish_object and p = OneAndZeros_Padding and nm = "''ECB''"
    and m = "new_Mode blowfish_object 0 1" and xss = "[[1, 2, 3], [4]]"] blowfish_modes.ok[of new_Blowfish]
  by (simp add: OneAndZeros_Padding_def OneAndZeros_valid_blocksize_def set_iv_def new_Mode_def reg_create_def reg_clear_def Let_def)
    blast

text \<open>C22. Ciphertext stealing: for a message longer than a block the ciphertext has its length and decrypts to it.\<close>

theorem cts_message:
  assumes "cipher_ok c" and "set_iv c nm 0 iv (new_Mode c (block_size c) 2) = Inr m" and "block_size c < length (concat xss)"
  shows "\<exists>e. run_message (CTS_Encryption_write c) (\<lambda>m. Some (CTS_Encryption_end_msg c m)) xss m = Some (Inr e) \<and>
    length (sent e) = length (concat xss) \<and>
    (\<forall>yss. concat yss = sent e \<longrightarrow>
      (\<exists>d. run_message (CTS_Decryption_write c) (\<lambda>m. map_option Inr (CTS_Decryption_end_msg c m)) yss m = Some (Inr d) \<and>
        sent d = concat xss))"
  using keyed_cipher.cts_round_trip[OF keyed_cipher.intro[OF assms(1)] assms(2,3)] .

theorem cts_message_witness:
  "\<exists>e. run_message (CTS_Encryption_write blowfish_object) (\<lambda>m. Some (CTS_Encryption_end_msg blowfish_object m))
     [replicate 5 1, replicate 6 2] (new_Mode blowfish_object 8 2) = Some (Inr e) \<and> length (sent e) = 11"
  using cts_message[where c = blowfish_object and nm = "''CTS''" and iv = "replicate 8 0" and m = "new_Mode blowfish_object 8 2"
    and xss = "[replicate 5 1, replicate 6 2]"] blowfish_modes.ok[of new_Blowfish]
  by (simp add: set_iv_def new_Mode_def reg_create_def reg_clear_def Let_def) blast

text \<open>C23. CTR xors the message with the encryptions of the counter, which counts in big-endian numbers from the
  initialisation vector and wraps around; the same call decrypts. The result does not depend on the pieces.\<close>

theorem ctr_message:
  assumes "cipher_ok c" and "set_iv c nm 1 iv (new_Mode c (block_size c) 1) = Inr m"
  shows "\<exists>e. write_all (CTR_BE_write c) xss m = Some e \<and>
      sent e = map (\<lambda>i. concat xss ! i XOR
        encrypt c (((\<lambda>st. increment_loop st (block_size c)) ^^ (i div block_size c)) iv) ! (i mod block_size c)) [0..<length (concat xss)] \<and>
      (\<forall>yss. concat yss = sent e \<longrightarrow> (\<exists>d. write_all (CTR_BE_write c) yss m = Some d \<and> sent d = concat xss)) \<and>
      be_val (increment_loop iv (block_size c)) = (be_val iv + 1) mod 256 ^ block_size c"
proof -
  let ?b = "block_size c" and ?k = "\<lambda>i. encrypt c (((\<lambda>st. increment_loop st (block_size c)) ^^ (i div block_size c)) iv) ! (i mod block_size c)"
  have b: "0 < ?b" using assms(1) by (rule cipher_okD)
  have m: "length iv = ?b" "ctr_wf c m" "position m < ?b" "sent m = []" "bcm_state m = iv" "bcm_buffer m = encrypt c iv" "position m = 0"
    using assms b by (auto simp: set_iv_def new_Mode_def ctr_wf_def Let_def cipher_okD copy_mem_def split: if_splits)
  have key: "ctr_key c m i = ?k i" for i using m b by (simp add: ctr_key_def Let_def)
  have all: "write_all (CTR_BE_write c) zss m = Some (fold (ctr_step c) (concat zss) m)" for zss
    using CTR_BE_write_step ctr.eager_wf m by (intro write_all_fold[where I = "\<lambda>m. ctr_wf c m \<and> position m < ?b"]) auto
  have out: "sent (fold (ctr_step c) zs m) = map (\<lambda>i. zs ! i XOR ?k i) [0..<length zs]" for zs
    using ctr_output[OF m(2,3), of zs] key by (simp add: m(4))
  have "sent (fold (ctr_step c) (sent (fold (ctr_step c) zs m)) m) = zs" for zs
    unfolding out by (rule nth_equalityI) (simp_all add: xor.assoc)
  moreover have "be_val (increment_loop iv ?b) = (be_val iv + 1) mod 256 ^ ?b"
    using increment_loop_val[of ?b iv] m(1) by simp
  ultimately show ?thesis using out all by simp
qed

theorem ctr_message_witness:
  "\<exists>m e. set_iv blowfish_object ''CTR-BE'' 1 (replicate 8 0) (new_Mode blowfish_object 8 1) = Inr m \<and>
     write_all (CTR_BE_write blowfish_object) [[1, 2], [3]] m = Some e \<and> length (sent e) = 3"
proof -
  obtain m where m: "set_iv blowfish_object ''CTR-BE'' 1 (replicate 8 0) (new_Mode blowfish_object 8 1) = Inr m"
    by (simp add: set_iv_def new_Mode_def Let_def)
  then show ?thesis
    using ctr_message[where c = blowfish_object and nm = "''CTR-BE''" and iv = "replicate 8 0" and m = m and xss = "[[1, 2], [3]]"]
      blowfish_modes.ok[of new_Blowfish] by auto
qed

text \<open>OFB xors the message with the iterated encryptions of the initialisation vector.\<close>

theorem ofb_message:
  assumes "cipher_ok c" and "set_iv c nm 2 iv (new_Mode c (block_size c) 1) = Inr m"
  shows "\<exists>e. write_all (OFB_write c) xss m = Some e \<and>
      sent e = map (\<lambda>i. concat xss ! i XOR (encrypt c ^^ (Suc (i div block_size c))) iv ! (i mod block_size c)) [0..<length (concat xss)] \<and>
      (\<forall>yss. concat yss = sent e \<longrightarrow> (\<exists>d. write_all (OFB_write c) yss m = Some d \<and> sent d = concat xss))"
proof -
  let ?b = "block_size c" and ?k = "\<lambda>i. (encrypt c ^^ (Suc (i div block_size c))) iv ! (i mod block_size c)"
  have b: "0 < ?b" using assms(1) by (rule cipher_okD)
  have m: "ofb_ok c m" "ofb_wf c (ofb_view m)" "position m < ?b" "sent m = []" "bcm_state m = encrypt c iv" "position m = 0"
    using assms b by (auto simp: set_iv_def new_Mode_def ofb_ok_def ofb_wf_def Let_def cipher_okD split: if_splits)
  have key: "ofb_key c (ofb_view m) i = ?k i" for i using m by (simp add: ofb_key_def funpow_swap1)
  have all: "\<exists>e. write_all (OFB_write c) zss m = Some e \<and> sent e = map (\<lambda>i. concat zss ! i XOR ?k i) [0..<length (concat zss)]" for zss
  proof -
    obtain e where e: "write_all (OFB_write c) zss m = Some e" "ofb_view e = fold (ofb_step c) (concat zss) (ofb_view m)"
      using write_all_view[where I = "ofb_ok c" and v = ofb_view, OF OFB_write_step m(1)] by blast
    from arg_cong[OF e(2), of sent] show ?thesis using e(1) ofb_output[OF m(2), of "concat zss"] m(3,4) key by simp
  qed
  have "map (\<lambda>i. map (\<lambda>i. zs ! i XOR ?k i) [0..<length zs] ! i XOR ?k i) [0..<length zs] = zs" for zs
    by (rule nth_equalityI) (simp_all add: xor.assoc)
  then have "\<exists>d. write_all (OFB_write c) yss m = Some d \<and> sent d = concat xss"
    if "concat yss = map (\<lambda>i. concat xss ! i XOR ?k i) [0..<length (concat xss)]" for yss
    using all[of yss] that by simp
  then show ?thesis using all[of xss] by auto
qed

text \<open>C24. CFB with any feedback size the constructor accepts: decryption stays in step with encryption and returns the
  message, for every cutting of both into pieces.\<close>

theorem cfb_message:
  assumes "cipher_ok c" and "CFB_feedback_size c bits = Inr F" and "set_iv c nm 1 iv (new_Mode c (block_size c) 1) = Inr m"
  shows "\<exists>e. write_all (CFB_Encryption_write c F) xss m = Some e \<and> length (sent e) = length (concat xss) \<and>
      (\<forall>yss. concat yss = sent e \<longrightarrow> (\<exists>d. write_all (CFB_Decryption_write c F) yss m = Some d \<and> sent d = concat xss))"
proof -
  let ?E = "fold (cfb_enc_step c F)" and ?D = "fold (cfb_dec_step c F)"
  have m: "cfb_wf c F m" "position m < F" "sent m = []"
    using assms cipher_okD(1)[OF assms(1)]
    by (auto simp: set_iv_def new_Mode_def cfb_wf_def CFB_feedback_size_def Let_def cipher_okD copy_mem_def split: if_splits)
  have enc: "write_all (CFB_Encryption_write c F) zss m = Some (?E (concat zss) m)" for zss
    using CFB_Encryption_write_step cfb_enc.eager_wf m by (intro write_all_fold[where I = "\<lambda>m. cfb_wf c F m \<and> position m < F"]) auto
  have dec: "write_all (CFB_Decryption_write c F) zss m = Some (?D (concat zss) m)" for zss
    using CFB_Decryption_write_step cfb_dec.eager_wf m by (intro write_all_fold[where I = "\<lambda>m. cfb_wf c F m \<and> position m < F"]) auto
  have "cfb_synced c F m m" using m by (simp add: cfb_synced_def)
  from stream_inverse[where R = "cfb_synced c F" and out = sent, OF cfb_step_synced this]
  obtain ys where "sent (?E (concat xss) m) = ys" "sent (?D ys m) = concat xss" "length ys = length (concat xss)"
    using m(3) by auto
  then show ?thesis using enc[of xss] dec by auto
qed

theorem cfb_message_witness:
  "\<exists>m e. set_iv blowfish_object ''CFB'' 1 (replicate 8 0) (new_Mode blowfish_object 8 1) = Inr m \<and>
     write_all (CFB_Encryption_write blowfish_object 2) [[1, 2], [3]] m = Some e \<and> length (sent e) = 3"
proof -
  obtain m where m: "set_iv blowfish_object ''CFB'' 1 (replicate 8 0) (new_Mode blowfish_object 8 1) = Inr m"
    by (simp add: set_iv_def new_Mode_def Let_def)
  then show ?thesis
    using cfb_message[where c = blowfish_object and bits = 16 and F = 2 and nm = "''CFB''" and iv = "replicate 8 0" and m = m
      and xss = "[[1, 2], [3]]"] blowfish_modes.ok[of new_Blowfish] by (auto simp: CFB_feedback_size_def)
qed

text \<open>A last block that ends with a zero byte makes \<open>unpad\<close> read past it: the loop starts behind its bound.\<close>

theorem unpad_zero_reads_past:
  assumes "block \<noteq> []" and "last block = 0"
  shows "PKCS7_unpad block (length block) = None \<and> X923_unpad block (length block) = None"
proof -
  have "length block \<noteq> length block - 1" using assms(1) by (cases block) simp_all
  then show ?thesis using assms
    by (simp add: PKCS7_unpad_def X923_unpad_def last_conv_nth Let_def check_bytes.simps[of _ _ "length block"])
qed

end
