(* ===== verification/Hash_Base.thy ===== *)
theory Hash_Base
  imports Exceptn LoadStore SecMem
begin

text \<open>
  Buffered computations and hash functions (\<open>src/utils/buf_comp/buf_comp.h\<close>, \<open>src/hash/hash.h\<close>), and the
  Merkle-Damgard construction (\<open>src/hash/mdx_hash/mdx_hash.cpp\<close>).

  A hash function is used through its virtual functions, a record \<open>HashFunction\<close> here. What a client relies on
  is \<open>hash_ok\<close>: a state stands for the message it has absorbed, however it was cut into calls of \<open>update\<close>, and
  \<open>final\<close> returns a function of that message and leaves the state of a new object. The locale \<open>hash_function\<close>
  holds what follows, for MACs and key derivation; \<open>mdx_hash_ok\<close> shows that the construction keeps that promise for
  every compression function, with the digest of the padded message as its value.
\<close>

text \<open>The rest of a function after a call that may throw.\<close>

definition try_bind :: "'e + 'a \<Rightarrow> ('a \<Rightarrow> 'e + 'b) \<Rightarrow> 'e + 'b" where
  "try_bind r f = (case r of Inl e \<Rightarrow> Inl e | Inr x \<Rightarrow> f x)"

lemma try_bind_simps [simp]: "try_bind (Inl e) f = Inl e" "try_bind (Inr x) f = f x"
  by (simp_all add: try_bind_def)

section \<open>The interface\<close>

record 's HashFunction =
  hash_name :: string
  OUTPUT_LENGTH :: nat
  HASH_BLOCK_SIZE :: nat
  add_data :: "byte list \<Rightarrow> 's \<Rightarrow> 's"
  final_result :: "'s \<Rightarrow> botan_error + byte list \<times> 's"
  hash_clear :: "'s \<Rightarrow> 's"

text \<open>\<open>process\<close> of \<open>BufferedComputation\<close>, and a message that arrives in pieces.\<close>

definition hash_process :: "'s HashFunction \<Rightarrow> byte list \<Rightarrow> 's \<Rightarrow> botan_error + byte list \<times> 's" where
  "hash_process h inp s = final_result h (add_data h inp s)"

definition hash_pieces :: "'s HashFunction \<Rightarrow> byte list list \<Rightarrow> 's \<Rightarrow> botan_error + byte list \<times> 's" where
  "hash_pieces h xss s = final_result h (fold (add_data h) xss s)"

definition hash_ok :: "'s HashFunction \<Rightarrow> ('s \<Rightarrow> byte list \<Rightarrow> bool) \<Rightarrow> (byte list \<Rightarrow> byte list) \<Rightarrow> bool" where
  "hash_ok h R H \<longleftrightarrow> (\<forall>s m. R s m \<longrightarrow>
     (\<forall>xs. R (add_data h xs s) (m @ xs)) \<and> (\<exists>s'. final_result h s = Inr (H m, s') \<and> R s' []) \<and>
     length (H m) = OUTPUT_LENGTH h)"

definition hash_clears :: "'s HashFunction \<Rightarrow> ('s \<Rightarrow> byte list \<Rightarrow> bool) \<Rightarrow> bool" where
  "hash_clears h R \<longleftrightarrow> (\<forall>s m. R s m \<longrightarrow> R (hash_clear h s) [])"

locale hash_function =
  fixes h :: "'s HashFunction" and R :: "'s \<Rightarrow> byte list \<Rightarrow> bool" and H :: "byte list \<Rightarrow> byte list"
  assumes update: "R s m \<Longrightarrow> R (add_data h xs s) (m @ xs)"
    and final: "R s m \<Longrightarrow> \<exists>s'. final_result h s = Inr (H m, s') \<and> R s' []"
    and length_H: "R s m \<Longrightarrow> length (H m) = OUTPUT_LENGTH h"
begin

lemma updates: "R s m \<Longrightarrow> R (fold (add_data h) xss s) (m @ concat xss)"
proof (induction xss arbitrary: s m)
  case (Cons xs xss)
  then show ?case using Cons.IH[OF update[OF Cons.prems, of xs]] by simp
qed simp

lemma pieces: "R s m \<Longrightarrow> \<exists>s'. hash_pieces h xss s = Inr (H (m @ concat xss), s') \<and> R s' []"
  unfolding hash_pieces_def using final updates by blast

lemma process: "R s m \<Longrightarrow> \<exists>s'. hash_process h xs s = Inr (H (m @ xs), s') \<and> R s' []"
  unfolding hash_process_def using final update by blast

lemma is_ok: "hash_ok h R H"
  unfolding hash_ok_def using update final length_H by blast

end

text \<open>A hash function whose \<open>clear\<close> leaves a new object, as HMAC needs it.\<close>

locale clearing_hash = hash_function +
  assumes clear: "R s m \<Longrightarrow> R (hash_clear h s) []"
begin

lemma is_clearing: "hash_ok h R H \<and> hash_clears h R"
  using is_ok clear by (auto simp: hash_clears_def)

lemma clear_process: "R s m \<Longrightarrow> \<exists>s'. hash_process h xs (hash_clear h s) = Inr (H xs, s') \<and> R s' []"
  using process[OF clear] by simp

end

lemma hash_functionI: "hash_ok h R H \<Longrightarrow> hash_function h R H"
  by unfold_locales (auto simp: hash_ok_def)

lemma clearing_hashI: "hash_ok h R H \<Longrightarrow> hash_clears h R \<Longrightarrow> clearing_hash h R H"
  by unfold_locales (auto simp: hash_ok_def hash_clears_def)

section \<open>Merkle-Damgard hash functions\<close>

text \<open>The constants and virtual functions of an \<open>MDx_HashFunction\<close> over digests of type \<open>'d\<close>, and its state.
  \<open>initial\<close> is the digest \<open>clear()\<close> leaves.\<close>

record 'd MDx_HashFunction =
  mdx_name :: string
  mdx_output :: nat
  mdx_block :: nat
  BIG_BYTE_ENDIAN :: bool
  BIG_BIT_ENDIAN :: bool
  COUNT_SIZE :: nat
  compress_n :: "byte list \<Rightarrow> nat \<Rightarrow> 'd \<Rightarrow> 'd"
  copy_out :: "'d \<Rightarrow> byte list"
  initial :: 'd

record 'd MDx =
  digest :: 'd
  mdx_buffer :: "byte list"
  mdx_count :: u64bit
  mdx_position :: nat

definition mdx_clear :: "'d MDx_HashFunction \<Rightarrow> 'd MDx \<Rightarrow> 'd MDx" where
  "mdx_clear p s = \<lparr>digest = initial p, mdx_buffer = reg_clear (mdx_buffer s), mdx_count = 0, mdx_position = 0\<rparr>"

definition new_MDx :: "'d MDx_HashFunction \<Rightarrow> botan_error + 'd MDx" where
  "new_MDx p =
     (if COUNT_SIZE p \<ge> mdx_output p \<or> COUNT_SIZE p \<ge> mdx_block p
      then Inl (Invalid_Argument ''MDx_HashFunction: COUNT_SIZE is too big'')
      else Inr \<lparr>digest = initial p, mdx_buffer = reg_create (mdx_block p), mdx_count = 0, mdx_position = 0\<rparr>)"

definition mdx_add_data :: "'d MDx_HashFunction \<Rightarrow> byte list \<Rightarrow> 'd MDx \<Rightarrow> 'd MDx" where
  "mdx_add_data p inp s =
     (let n = mdx_block p;
          s = s\<lparr>mdx_count := mdx_count s + of_nat (length inp)\<rparr>;
          (s, inp) =
            (if mdx_position s \<noteq> 0 then
               (let s = s\<lparr>mdx_buffer := reg_copy (mdx_buffer s) (mdx_position s) inp (length inp)\<rparr>
                in if mdx_position s + length inp \<ge> n
                   then (s\<lparr>digest := compress_n p (mdx_buffer s) 1 (digest s), mdx_position := 0\<rparr>,
                         drop (n - mdx_position s) inp)
                   else (s, inp))
             else (s, inp));
          full_blocks = length inp div n;
          remaining = length inp mod n;
          s = (if full_blocks \<noteq> 0 then s\<lparr>digest := compress_n p inp full_blocks (digest s)\<rparr> else s)
      in s\<lparr>mdx_buffer := reg_copy (mdx_buffer s) (mdx_position s) (drop (full_blocks * n) inp) remaining,
           mdx_position := mdx_position s + remaining\<rparr>)"

definition write_count :: "'d MDx_HashFunction \<Rightarrow> u64bit \<Rightarrow> byte list \<Rightarrow> botan_error + byte list" where
  "write_count p count out =
     (if COUNT_SIZE p < 8 then Inl (Invalid_State ''MDx_HashFunction::write_count: COUNT_SIZE < 8'')
      else
        let bit_count = count * 8
        in Inr (at_ptr (COUNT_SIZE p - 8)
             (\<lambda>q. copy_mem q (if BIG_BYTE_ENDIAN p then store_be_u64 bit_count else store_le_u64 bit_count) 8) out))"

definition mdx_final_result :: "'d MDx_HashFunction \<Rightarrow> 'd MDx \<Rightarrow> botan_error + byte list \<times> 'd MDx" where
  "mdx_final_result p s =
     (let n = mdx_block p;
          buffer = (mdx_buffer s)[mdx_position s := (if BIG_BIT_ENDIAN p then 0x80 else 0x01)];
          buffer = for_up (mdx_position s + 1) n (\<lambda>j b. b[j := 0]) buffer;
          s = s\<lparr>mdx_buffer := buffer\<rparr>;
          s = (if mdx_position s \<ge> n - COUNT_SIZE p
               then s\<lparr>digest := compress_n p (mdx_buffer s) 1 (digest s), mdx_buffer := reg_clear (mdx_buffer s)\<rparr>
               else s);
          off = n - COUNT_SIZE p
      in try_bind (write_count p (mdx_count s) (drop off (mdx_buffer s))) (\<lambda>out.
           let s = s\<lparr>mdx_buffer := take off (mdx_buffer s) @ out\<rparr>;
               s = s\<lparr>digest := compress_n p (mdx_buffer s) 1 (digest s)\<rparr>
           in Inr (copy_out p (digest s), mdx_clear p s)))"

definition mdx_hash :: "'d MDx_HashFunction \<Rightarrow> 'd MDx HashFunction" where
  "mdx_hash p =
     \<lparr>hash_name = mdx_name p, OUTPUT_LENGTH = mdx_output p, HASH_BLOCK_SIZE = mdx_block p,
      add_data = mdx_add_data p, final_result = mdx_final_result p, hash_clear = mdx_clear p\<rparr>"

text \<open>\<open>compress_n\<close> of the subclasses: a loop over the blocks, \<open>input\<close> moving on by a block.\<close>

definition compress_blocks :: "nat \<Rightarrow> (byte list \<Rightarrow> 'd \<Rightarrow> 'd) \<Rightarrow> byte list \<Rightarrow> nat \<Rightarrow> 'd \<Rightarrow> 'd" where
  "compress_blocks n f inp blocks d = for_up 0 blocks (\<lambda>i d. f (drop (i * n) inp) d) d"

section \<open>The digest of a message\<close>

text \<open>What a compression function promises, the padded message, and its digest.\<close>

definition mdx_ok :: "'d MDx_HashFunction \<Rightarrow> bool" where
  "mdx_ok p \<longleftrightarrow> 8 \<le> COUNT_SIZE p \<and> COUNT_SIZE p < mdx_block p \<and> COUNT_SIZE p < mdx_output p \<and>
     (\<forall>xs d. compress_n p xs 0 d = d) \<and>
     (\<forall>a b k d. length a = mdx_block p \<longrightarrow> compress_n p (a @ b) (Suc k) d = compress_n p b k (compress_n p a 1 d)) \<and>
     (\<forall>d. length (copy_out p d) = mdx_output p)"

definition md_zeros :: "nat \<Rightarrow> nat \<Rightarrow> nat \<Rightarrow> nat" where
  "md_zeros n c len = (c - 8) + (n - Suc (len + c) mod n) mod n"

definition md_pad :: "'d MDx_HashFunction \<Rightarrow> byte list \<Rightarrow> byte list" where
  "md_pad p m =
     m @ [if BIG_BIT_ENDIAN p then 0x80 else 0x01] @ replicate (md_zeros (mdx_block p) (COUNT_SIZE p) (length m)) 0 @
     (if BIG_BYTE_ENDIAN p then store_be_u64 (of_nat (8 * length m)) else store_le_u64 (of_nat (8 * length m)))"

definition md_digest :: "'d MDx_HashFunction \<Rightarrow> byte list \<Rightarrow> byte list" where
  "md_digest p m = (let x = md_pad p m in copy_out p (compress_n p x (length x div mdx_block p) (initial p)))"

text \<open>The state after a message: its blocks are compressed, what is left is in the buffer.\<close>

definition mdx_absorbed :: "'d MDx_HashFunction \<Rightarrow> 'd MDx \<Rightarrow> byte list \<Rightarrow> bool" where
  "mdx_absorbed p s m \<longleftrightarrow> length (mdx_buffer s) = mdx_block p \<and> mdx_position s = length m mod mdx_block p \<and>
     take (mdx_position s) (mdx_buffer s) = drop (length m - mdx_position s) m \<and>
     digest s = compress_n p m (length m div mdx_block p) (initial p) \<and> mdx_count s = of_nat (length m)"


lemma mdx_okD:
  assumes "mdx_ok p"
  shows "8 \<le> COUNT_SIZE p" "COUNT_SIZE p < mdx_block p" "COUNT_SIZE p < mdx_output p" "compress_n p xs 0 d = d"
    "length a = mdx_block p \<Longrightarrow> compress_n p (a @ b) (Suc k) d = compress_n p b k (compress_n p a 1 d)"
    "length (copy_out p d) = mdx_output p"
  using assms by (simp_all add: mdx_ok_def)

lemma compress_split:
  assumes "mdx_ok p" and "length a = j * mdx_block p"
  shows "compress_n p (a @ b) (j + k) d = compress_n p b k (compress_n p a j d)"
  using assms(2)
proof (induction j arbitrary: a d)
  case 0
  then show ?case by (simp add: mdx_okD(4)[OF assms(1)])
next
  case (Suc j)
  let ?n = "mdx_block p"
  have l: "length (take ?n a) = ?n" "length (drop ?n a) = j * ?n" using Suc.prems by simp_all
  have one: "compress_n p (take ?n a @ x) (Suc i) d = compress_n p x i (compress_n p (take ?n a) 1 d)" for x i
    using mdx_okD(5)[OF assms(1) l(1)] .
  have "compress_n p (a @ b) (Suc j + k) d = compress_n p (take ?n a @ drop ?n a @ b) (Suc (j + k)) d"
    by (simp only: append_take_drop_id add_Suc flip: append_assoc)
  also have "\<dots> = compress_n p b k (compress_n p (drop ?n a) j (compress_n p (take ?n a) 1 d))"
    using Suc.IH[OF l(2)] one by (simp only:)
  also have "\<dots> = compress_n p b k (compress_n p a (Suc j) d)" using one[of "drop ?n a" j] by simp
  finally show ?case .
qed

lemma compress_more:
  "mdx_ok p \<Longrightarrow> length a = j * mdx_block p \<Longrightarrow> compress_n p (a @ b) j d = compress_n p a j d"
  using compress_split[of p a j b 0 d] mdx_okD(4) by simp

lemma compress_two:
  assumes "mdx_ok p" and "length a = j * mdx_block p" and "length b = mdx_block p"
  shows "compress_n p (a @ b @ x) (Suc j) d = compress_n p b 1 (compress_n p a j d)"
  using compress_split[OF assms(1,2), of "b @ x" 1 d] compress_more[OF assms(1), of b 1 x] assms(3) by simp

lemma compress_blocks_ok:
  assumes "\<And>a b d. length a = n \<Longrightarrow> f (a @ b) d = f a d"
  shows "compress_blocks n f xs 0 d = d"
    "length a = n \<Longrightarrow> compress_blocks n f (a @ b) (Suc k) d = compress_blocks n f b k (compress_blocks n f a 1 d)"
proof -
  show "compress_blocks n f xs 0 d = d" by (simp add: compress_blocks_def)
  assume a: "length a = n"
  have "for_up 0 (Suc k) (\<lambda>i d. f (drop (i * n) (a @ b)) d) d =
      for_up (Suc 0) (Suc k) (\<lambda>i d. f (drop (i * n) (a @ b)) d) (f (a @ b) d)"
    by (simp add: for_up_first)
  also have "\<dots> = for_up 0 k (\<lambda>i d. f (drop (i * n) b) d) (f a d)"
    using for_up_shift[of 1 0 k "\<lambda>i d. f (drop (i * n) (a @ b)) d"] a assms by simp
  finally show "compress_blocks n f (a @ b) (Suc k) d = compress_blocks n f b k (compress_blocks n f a 1 d)"
    by (simp add: compress_blocks_def for_up_Suc)
qed

text \<open>Once the buffer is empty, the rest of the input: its full blocks, then what stays.\<close>

lemma split_at_block: "0 < n \<Longrightarrow> xs = take (length xs div n * n) xs @ drop (length xs div n * n) xs \<and>
    length (take (length xs div n * n) xs) = length xs div n * n \<and>
    length (drop (length xs div n * n) xs) = length xs mod n" for n :: nat
  by (simp add: minus_div_mult_eq_mod)

lemma take_reg_copy:
  "off + n \<le> length b \<Longrightarrow> n \<le> length xs \<Longrightarrow> take (off + n) (reg_copy b off xs n) = take off b @ take n xs"
  "off + n \<le> length b \<Longrightarrow> n \<le> length xs \<Longrightarrow> length (reg_copy b off xs n) = length b"
  "off + n \<ge> length b \<Longrightarrow> off \<le> length b \<Longrightarrow> n \<le> length xs \<Longrightarrow>
     reg_copy b off xs n = take off b @ take (length b - off) xs"
proof -
  assume "off + n \<ge> length b" "off \<le> length b" "n \<le> length xs"
  moreover from this have "n = length b - off" if "n \<le> length b - off" using that by linarith
  ultimately show "reg_copy b off xs n = take off b @ take (length b - off) xs"
    by (auto simp: reg_copy_def at_ptr_def copy_mem_def)
qed (auto simp: reg_copy_def at_ptr_def copy_mem_def min_def)

lemma take_reg_copy_before: "off \<le> length b \<Longrightarrow> take off (reg_copy b off xs n) = take off b"
  by (simp add: reg_copy_def at_ptr_def)

lemma absorb_blocks:
  assumes ok: "mdx_ok p" and m: "length m = j * mdx_block p"
    and s: "length (mdx_buffer s) = mdx_block p" "mdx_position s = 0" "digest s = compress_n p m j (initial p)"
      "mdx_count s = of_nat (length (m @ inp))"
    and t: "t = s\<lparr>digest := (if length inp div mdx_block p \<noteq> 0 then compress_n p inp (length inp div mdx_block p) (digest s) else digest s),
        mdx_buffer := reg_copy (mdx_buffer s) 0 (drop (length inp div mdx_block p * mdx_block p) inp) (length inp mod mdx_block p),
        mdx_position := length inp mod mdx_block p\<rparr>"
  shows "mdx_absorbed p t (m @ inp)"
proof -
  let ?n = "mdx_block p"
  let ?k = "length inp div ?n" and ?r = "length inp mod ?n"
  have n: "0 < ?n" using mdx_okD(2)[OF ok] by simp
  have d: "(length m + length inp) div ?n = j + ?k" "(length m + length inp) mod ?n = ?r"
    using n by (simp_all add: m)
  have tail: "drop (length m + length inp - ?r) (m @ inp) = drop (?k * ?n) inp"
  proof -
    have "length m + length inp - ?r = length m + ?k * ?n"
      using minus_mod_eq_div_mult[of "length inp" ?n] mod_less_eq_dividend[of "length inp" ?n] by linarith
    then show ?thesis by simp
  qed
  have l: "length (drop (?k * ?n) inp) = ?r" by (simp add: minus_div_mult_eq_mod)
  have r: "?r \<le> ?n" using n by (simp add: less_imp_le)
  have b: "take ?r (reg_copy (mdx_buffer s) 0 (drop (?k * ?n) inp) ?r) = drop (?k * ?n) inp"
      "length (reg_copy (mdx_buffer s) 0 (drop (?k * ?n) inp) ?r) = ?n"
    using take_reg_copy(1,2)[of 0 ?r "mdx_buffer s" "drop (?k * ?n) inp"] l r s(1) by simp_all
  have c: "digest t = compress_n p (m @ inp) (j + ?k) (initial p)"
    using compress_split[OF ok m, of inp ?k "initial p"] mdx_okD(4)[OF ok] s(3) t by simp
  show ?thesis unfolding mdx_absorbed_def using b tail d c s(4) by (simp add: t)
qed

lemma mdx_update:
  assumes ok: "mdx_ok p" and s: "mdx_absorbed p s m"
  shows "mdx_absorbed p (mdx_add_data p inp s) (m @ inp)"
proof -
  let ?n = "mdx_block p" and ?c = "mdx_count s + of_nat (length inp)"
  define j q where "j = length m div ?n" and "q = mdx_position s"
  note s = s[unfolded mdx_absorbed_def, folded j_def q_def]
  have n: "0 < ?n" using mdx_okD(2)[OF ok] by simp
  have len: "length m = j * ?n + q" and q: "q < ?n" using s n by (simp_all add: j_def)
  define m1 m2 where "m1 = take (j * ?n) m" and "m2 = drop (j * ?n) m"
  have m: "m = m1 @ m2" "length m1 = j * ?n" "length m2 = q" using len by (simp_all add: m1_def m2_def)
  have sub: "length m - q = j * ?n" using len by linarith
  have buf: "length (mdx_buffer s) = ?n" "take q (mdx_buffer s) = m2" "mdx_count s = of_nat (length m)"
    using s unfolding sub m2_def by blast+
  have dig: "digest s = compress_n p m1 j (initial p)"
    using s compress_more[OF ok m(2), of m2] unfolding m(1)[symmetric] by simp
  note buf = buf(1,2) dig buf(3)
  note pos = q_def[symmetric]
  show ?thesis
  proof (cases "q = 0")
    case True
    then show ?thesis
      using pos absorb_blocks[OF ok m(2), of "s\<lparr>mdx_count := ?c\<rparr>" inp "mdx_add_data p inp s"] buf m
      by (simp add: mdx_add_data_def Let_def)
  next
    case False
    note q0 = this
    show ?thesis
    proof (cases "q + length inp \<ge> ?n")
      case True
      define x y where "x = take (?n - q) inp" and "y = drop (?n - q) inp"
      have xy: "inp = x @ y" "length x = ?n - q" using True by (simp_all add: x_def y_def)
      have full: "reg_copy (mdx_buffer s) q inp (length inp) = m2 @ x"
        using take_reg_copy(3)[of "mdx_buffer s" q "length inp" inp] True q buf by (simp add: x_def)
      define u where "u = s\<lparr>mdx_count := ?c, mdx_buffer := m2 @ x, digest := compress_n p (m2 @ x) 1 (digest s), mdx_position := 0\<rparr>"
      have "compress_n p (m1 @ m2 @ x) (Suc j) (initial p) = digest u"
        using compress_two[OF ok m(2), of "m2 @ x" "[]"] m q xy buf(3) by (simp add: u_def)
      then have "mdx_absorbed p (mdx_add_data p inp s) ((m1 @ m2 @ x) @ y)"
        using q0 True full m xy q buf pos
        by (intro absorb_blocks[OF ok, where j = "Suc j" and s = u]) (simp_all add: mdx_add_data_def Let_def u_def flip: y_def)
      then show ?thesis using m(1) xy(1) by simp
    next
      case False
      let ?b = "reg_copy (mdx_buffer s) q inp (length inp)"
      have l: "length inp < ?n" using False by simp
      have t: "mdx_add_data p inp s = s\<lparr>mdx_count := ?c, mdx_buffer := reg_copy ?b q inp (length inp), mdx_position := q + length inp\<rparr>"
        using q0 False l pos by (simp add: mdx_add_data_def Let_def)
      have b: "take (q + length inp) (reg_copy ?b q inp (length inp)) = m2 @ inp" "length (reg_copy ?b q inp (length inp)) = ?n"
      proof -
        have fits: "q + length inp \<le> length (mdx_buffer s)" "q \<le> length (mdx_buffer s)" using False q buf(1) by simp_all
        have l: "length ?b = ?n" "take q ?b = m2"
          using take_reg_copy(2)[OF fits(1)] take_reg_copy_before[OF fits(2)] buf(1,2) by simp_all
        then show "take (q + length inp) (reg_copy ?b q inp (length inp)) = m2 @ inp" "length (reg_copy ?b q inp (length inp)) = ?n"
          using take_reg_copy(1,2)[of q "length inp" ?b inp] fits(1) buf(1) by simp_all
      qed
      have d: "(length m + length inp) div ?n = j" "(length m + length inp) mod ?n = q + length inp"
        using False n by (simp_all add: len add.assoc)
      have e: "drop (length m + length inp - (q + length inp)) (m @ inp) = m2 @ inp"
        using sub by (simp add: m2_def)
      have c: "compress_n p (m @ inp) j (initial p) = digest s"
        using compress_more[OF ok m(2), of "m2 @ inp"] dig m(1) by simp
      show ?thesis unfolding mdx_absorbed_def t using b d c e buf(1,4) by simp
    qed
  qed
qed

text \<open>The last block or the last two.\<close>

lemma clear_loop: "a \<le> b \<Longrightarrow> b \<le> length xs \<Longrightarrow>
    for_up a b (\<lambda>j b. b[j := 0]) xs = take a xs @ replicate (b - a) (0 :: byte) @ drop b xs"
proof (induction b)
  case (Suc b)
  show ?case
  proof (cases "a = Suc b")
    case False
    let ?ys = "take a xs @ replicate (b - a) (0 :: byte)"
    have "drop b xs = xs ! b # drop (Suc b) xs" using Suc.prems by (simp add: Cons_nth_drop_Suc)
    moreover have "length ?ys = b" using Suc.prems False by simp
    ultimately have "(?ys @ drop b xs)[b := 0] = ?ys @ 0 # drop (Suc b) xs"
      using list_update_length[of ?ys "xs ! b" "drop (Suc b) xs" 0] by (simp only:)
    moreover have "replicate (Suc b - a) (0 :: byte) = replicate (b - a) 0 @ [0]"
      using Suc.prems False by (simp add: Suc_diff_le replicate_append_same)
    ultimately show ?thesis using Suc False by (simp add: for_up_Suc)
  qed simp
qed simp

lemma length_store_u64 [simp]: "length (store_be_u64 x) = 8" "length (store_le_u64 x) = 8"
  by (simp_all add: store_be_u64_def store_le_u64_def)

abbreviation count_bytes :: "'d MDx_HashFunction \<Rightarrow> u64bit \<Rightarrow> byte list" where
  "count_bytes p c \<equiv> (if BIG_BYTE_ENDIAN p then store_be_u64 (c * 8) else store_le_u64 (c * 8))"

lemma write_count_val:
  assumes "mdx_ok p" and "length b = mdx_block p"
  shows "\<exists>out. write_count p c (drop (mdx_block p - COUNT_SIZE p) b) = Inr out \<and>
    take (mdx_block p - COUNT_SIZE p) b @ out = take (mdx_block p - 8) b @ count_bytes p c"
proof -
  note c = mdx_okD(1,2)[OF assms(1)]
  have "write_count p c (drop (mdx_block p - COUNT_SIZE p) b) =
      Inr (take (COUNT_SIZE p - 8) (drop (mdx_block p - COUNT_SIZE p) b) @ count_bytes p c)"
    using c assms(2) by (simp add: write_count_def Let_def at_ptr_def copy_mem_def)
  moreover have "take (mdx_block p - 8) b = take (mdx_block p - COUNT_SIZE p) b @
      take (COUNT_SIZE p - 8) (drop (mdx_block p - COUNT_SIZE p) b)"
    using c by (simp flip: take_add)
  ultimately show ?thesis by simp
qed

lemma md_zeros_val:
  assumes "len mod n = q" and "q < n" and "8 \<le> c" and "c < n"
  shows "md_zeros n c len = (if n - c \<le> q then (n - Suc q) + (n - 8) else n - Suc q - 8)"
proof -
  have m: "Suc (len + c) mod n = (Suc q + c) mod n" using mod_add_left_eq[of len n "Suc c"] assms(1) by simp
  show ?thesis
  proof (cases "n - c \<le> q")
    case True
    then have "(Suc q + c) mod n = Suc q + c - n" using assms by (simp add: mod_if)
    then show ?thesis using True assms m by (simp add: md_zeros_def)
  next
    case False
    then show ?thesis using assms m by (cases "Suc q + c = n") (simp_all add: md_zeros_def)
  qed
qed

lemma mdx_final:
  assumes ok: "mdx_ok p" and s: "mdx_absorbed p s m"
  shows "\<exists>s'. mdx_final_result p s = Inr (md_digest p m, s') \<and> mdx_absorbed p s' []"
proof -
  let ?n = "mdx_block p" and ?c = "COUNT_SIZE p" and ?pad = "if BIG_BIT_ENDIAN p then 0x80 else 0x01 :: byte"
  define j q where "j = length m div ?n" and "q = mdx_position s"
  note s = s[unfolded mdx_absorbed_def, folded j_def q_def]
  note c = mdx_okD(1,2)[OF ok]
  have len: "length m = j * ?n + q" and q: "q < ?n" using s c by (simp_all add: j_def)
  then have sub: "length m - q = j * ?n" by linarith
  define m1 m2 where "m1 = take (j * ?n) m" and "m2 = drop (j * ?n) m"
  have m: "m = m1 @ m2" "length m1 = j * ?n" "length m2 = q" using len by (simp_all add: m1_def m2_def)
  have buf: "length (mdx_buffer s) = ?n" "take q (mdx_buffer s) = m2" "mdx_count s = of_nat (length m)"
    using s unfolding sub m2_def by blast+
  have dig: "digest s = compress_n p m1 j (initial p)"
    using s compress_more[OF ok m(2), of m2] unfolding m(1)[symmetric] by simp
  define b where "b = m2 @ [?pad] @ replicate (?n - Suc q) 0"
  have b: "for_up (q + 1) ?n (\<lambda>j b. b[j := 0]) ((mdx_buffer s)[q := ?pad]) = b" "length b = ?n"
    using clear_loop[of "q + 1" ?n "(mdx_buffer s)[q := ?pad]"] q buf(1,2) m(3) by (simp_all add: b_def take_Suc_conv_app_nth)
  define X where "X = (if ?n - ?c \<le> q then b @ replicate (?n - 8) 0 else take (?n - 8) b) @ count_bytes p (of_nat (length m))"
  have pad: "md_pad p m = m1 @ X"
  proof -
    have "md_zeros ?n ?c (length m) = (if ?n - ?c \<le> q then (?n - Suc q) + (?n - 8) else ?n - Suc q - 8)"
      using s q c by (intro md_zeros_val) simp_all
    moreover have "take (?n - 8) b = m2 @ [?pad] @ replicate (?n - Suc q - 8) 0" if "\<not> ?n - ?c \<le> q"
      using that c m(3) by (simp add: b_def take_Cons')
    ultimately show ?thesis by (simp add: md_pad_def X_def b_def m(1) replicate_add mult.commute)
  qed
  define t where "t = (if ?n - ?c \<le> q then s\<lparr>digest := compress_n p b 1 (digest s), mdx_buffer := replicate ?n 0\<rparr> else s\<lparr>mdx_buffer := b\<rparr>)"
  have lt: "length (mdx_buffer t) = ?n" using b(2) by (simp add: t_def)
  obtain out where out: "write_count p (mdx_count s) (drop (?n - ?c) (mdx_buffer t)) = Inr out"
      "take (?n - ?c) (mdx_buffer t) @ out = take (?n - 8) (mdx_buffer t) @ count_bytes p (mdx_count s)"
    using write_count_val[OF ok, of "mdx_buffer t" "mdx_count s"] lt by blast
  define d where "d = compress_n p (take (?n - 8) (mdx_buffer t) @ count_bytes p (mdx_count s)) 1 (digest t)"
  have run: "mdx_final_result p s = Inr (copy_out p d, mdx_clear p
      (t\<lparr>mdx_buffer := take (?n - ?c) (mdx_buffer t) @ out, digest := d\<rparr>))"
  proof -
    have cnt: "mdx_count t = mdx_count s" by (simp add: t_def)
    have "mdx_final_result p s = try_bind (write_count p (mdx_count t) (drop (?n - ?c) (mdx_buffer t))) (\<lambda>out.
        let s = t\<lparr>mdx_buffer := take (?n - ?c) (mdx_buffer t) @ out\<rparr>;
            s = s\<lparr>digest := compress_n p (mdx_buffer s) 1 (digest s)\<rparr>
        in Inr (copy_out p (digest s), mdx_clear p s))"
      using b by (cases "?n - ?c \<le> q") (simp_all add: mdx_final_result_def Let_def t_def reg_clear_def flip: q_def)
    then show ?thesis by (simp add: cnt out d_def)
  qed
  have "d = compress_n p (m1 @ X) (length (m1 @ X) div ?n) (initial p)"
  proof (cases "?n - ?c \<le> q")
    case True
    let ?y = "replicate (?n - 8) 0 @ count_bytes p (of_nat (length m))"
    have y: "length ?y = ?n" "length (m1 @ b) = Suc j * ?n" using c m(2) b(2) by simp_all
    have "d = compress_n p ?y 1 (compress_n p b 1 (compress_n p m1 j (initial p)))"
      using True dig buf(3) by (simp add: d_def t_def min_def)
    also have "\<dots> = compress_n p ?y 1 (compress_n p (m1 @ b) (Suc j) (initial p))"
      using compress_two[OF ok m(2) b(2), of "[]" "initial p"] by simp
    also have "\<dots> = compress_n p ((m1 @ b) @ ?y) (Suc (Suc j)) (initial p)"
      using compress_two[OF ok y(2,1), of "[]" "initial p"] by simp
    also have "(m1 @ b) @ ?y = m1 @ X" using True by (simp add: X_def)
    moreover have "length (m1 @ X) div ?n = Suc (Suc j)" using True c m(2) b(2) by (simp add: X_def)
    ultimately show ?thesis by simp
  next
    case False
    have l: "length X = ?n" using False c b(2) by (simp add: X_def)
    have "d = compress_n p X 1 (compress_n p m1 j (initial p))" using False dig buf(3) by (simp add: d_def t_def X_def)
    also have "\<dots> = compress_n p (m1 @ X) (Suc j) (initial p)"
      using compress_two[OF ok m(2) l, of "[]" "initial p"] by simp
    moreover have "length (m1 @ X) div ?n = Suc j" using c m(2) l by simp
    ultimately show ?thesis by simp
  qed
  then have "copy_out p d = md_digest p m" by (simp add: md_digest_def pad)
  moreover have "length (take (?n - ?c) (mdx_buffer t) @ out) = ?n"
    using b(2) c unfolding out(2) by (simp add: t_def)
  ultimately show ?thesis using run mdx_okD(4)[OF ok] by (simp add: mdx_absorbed_def mdx_clear_def)
qed

lemma mdx_hash_simps [simp]:
  "add_data (mdx_hash p) = mdx_add_data p" "final_result (mdx_hash p) = mdx_final_result p"
  "hash_clear (mdx_hash p) = mdx_clear p" "OUTPUT_LENGTH (mdx_hash p) = mdx_output p"
  "HASH_BLOCK_SIZE (mdx_hash p) = mdx_block p" "hash_name (mdx_hash p) = mdx_name p"
  by (simp_all add: mdx_hash_def)

lemma mdx_hash_ok:
  assumes "mdx_ok p"
  shows "clearing_hash (mdx_hash p) (mdx_absorbed p) (md_digest p)"
proof (unfold_locales, unfold mdx_hash_simps)
  fix s m and xs :: "byte list"
  assume s: "mdx_absorbed p s m"
  show "mdx_absorbed p (mdx_add_data p xs s) (m @ xs)" using mdx_update[OF assms s] .
  show "\<exists>s'. mdx_final_result p s = Inr (md_digest p m, s') \<and> mdx_absorbed p s' []" using mdx_final[OF assms s] .
  show "mdx_absorbed p (mdx_clear p s) []"
    using s mdx_okD(4)[OF assms] by (simp add: mdx_absorbed_def mdx_clear_def)
  show "length (md_digest p m) = mdx_output p" using mdx_okD(6)[OF assms] by (simp add: md_digest_def Let_def)
qed

lemma new_MDx_absorbed:
  assumes "mdx_ok p"
  shows "\<exists>s. new_MDx p = Inr s \<and> mdx_absorbed p s []"
  using mdx_okD(1-4)[OF assms] by (simp add: new_MDx_def mdx_absorbed_def)

end
