(* ===== verification/Hash_Rounds.thy ===== *)
theory Hash_Rounds
  imports Hash_Base
begin

text \<open>
  What the compression functions of the MD4 family share. Their working variables \<open>A\<close>, \<open>B\<close>, ... are passed by
  reference to an inline round function and change their roles from call to call; here they are the registers of a
  list, and a round function gets the registers it works on by index. The locale \<open>register_rounds\<close> relates such an
  unrolled sequence of calls to the textbook loop that moves the values instead of the roles.
\<close>

abbreviation (input) rA :: nat where "rA \<equiv> 0"
abbreviation (input) rB :: nat where "rB \<equiv> 1"
abbreviation (input) rC :: nat where "rC \<equiv> 2"
abbreviation (input) rD :: nat where "rD \<equiv> 3"
abbreviation (input) rE :: nat where "rE \<equiv> 4"
abbreviation (input) rF :: nat where "rF \<equiv> 5"
abbreviation (input) rG :: nat where "rG \<equiv> 6"
abbreviation (input) rH :: nat where "rH \<equiv> 7"

text \<open>Calls one after the other, and \<open>for (j = a; j != b; j += k)\<close>.\<close>

definition run_calls :: "('s \<Rightarrow> 's) list \<Rightarrow> 's \<Rightarrow> 's" where
  "run_calls fs s = fold (\<lambda>f s. f s) fs s"

definition for_by :: "nat \<Rightarrow> nat \<Rightarrow> nat \<Rightarrow> (nat \<Rightarrow> 's \<Rightarrow> 's) \<Rightarrow> 's \<Rightarrow> 's" where
  "for_by k a b f s = for_up 0 ((b - a) div k) (\<lambda>i. f (a + k * i)) s"

text \<open>\<open>A = (digest[0] += A)\<close> and so on, and the loops of \<open>copy_out\<close>.\<close>

definition add_digest :: "'a::len word list \<Rightarrow> 'a word list \<Rightarrow> 'a word list" where
  "add_digest d v = map2 (+) d v"

definition copy_out_be32 :: "nat \<Rightarrow> u32bit list \<Rightarrow> byte list" where
  "copy_out_be32 n d = concat (map (\<lambda>j. store_be_u32 (d ! j)) [0..<n div 4])"

definition copy_out_le32 :: "nat \<Rightarrow> u32bit list \<Rightarrow> byte list" where
  "copy_out_le32 n d = concat (map (\<lambda>j. store_le_u32 (d ! j)) [0..<n div 4])"

definition copy_out_be64 :: "nat \<Rightarrow> u64bit list \<Rightarrow> byte list" where
  "copy_out_be64 n d = concat (map (\<lambda>j. store_be_u64 (d ! j)) [0..<n div 8])"

lemma length_concat_map: "(\<And>x. x \<in> set xs \<Longrightarrow> length (f x) = k) \<Longrightarrow> length (concat (map f xs)) = k * length xs"
  by (induction xs) simp_all

lemma length_copy_out:
  "4 dvd n \<Longrightarrow> length (copy_out_be32 n d) = n" "4 dvd n \<Longrightarrow> length (copy_out_le32 n d) = n"
  "8 dvd n \<Longrightarrow> length (copy_out_be64 n e) = n"
  unfolding copy_out_be32_def copy_out_le32_def copy_out_be64_def
  by (subst length_concat_map[where k = 4], simp_all add: store_be_u32_def)
    (subst length_concat_map[where k = 4], simp_all add: store_le_u32_def,
      subst length_concat_map[where k = 8], simp_all)

text \<open>Words of the first block only.\<close>

lemma load_prefix:
  "j * 4 + 4 \<le> length a \<Longrightarrow> load_be_u32 (a @ b) j = load_be_u32 a j"
  "j * 4 + 4 \<le> length a \<Longrightarrow> load_le_u32 (a @ b) j = load_le_u32 a j"
  "j * 8 + 8 \<le> length a \<Longrightarrow> load_be_u64 (a @ b) j = load_be_u64 a j"
  "j * 8 + 8 \<le> length a \<Longrightarrow> load_le_u64 (a @ b) j = load_le_u64 a j"
  by (simp_all add: load_be_u32_def load_le_u32_def load_be_u64_def load_le_u64_def nth_append less_diff_conv)

lemma mdx_okI:
  assumes "compress_n p = compress_blocks (mdx_block p) f" and "\<And>a b d. length a = mdx_block p \<Longrightarrow> f (a @ b) d = f a d"
    and "8 \<le> COUNT_SIZE p" and "COUNT_SIZE p < mdx_block p" and "COUNT_SIZE p < mdx_output p"
    and "\<And>d. length (copy_out p d) = mdx_output p"
  shows "mdx_ok p"
  unfolding mdx_ok_def assms(1) using assms(3-6) compress_blocks_ok[of "mdx_block p" f, OF assms(2)] by simp

section \<open>Rotating roles\<close>

text \<open>\<open>call r m\<close> is a round with the roles moved on by \<open>r\<close> registers; \<open>step m\<close> is a round of the textbook, which
  moves the values to the right.\<close>

locale register_rounds =
  fixes n :: nat and call :: "nat \<Rightarrow> 'm \<Rightarrow> 'w list \<Rightarrow> 'w list" and step :: "'m \<Rightarrow> 'w list \<Rightarrow> 'w list"
  assumes n: "0 < n"
    and round: "r < n \<Longrightarrow> length v = n \<Longrightarrow>
      length (call r m v) = n \<and> rotate ((n - 1) * Suc r) (call r m v) = step m (rotate ((n - 1) * r) v)"
begin

lemma rotate_mult: "length v = n \<Longrightarrow> rotate ((n - 1) * (n * k + r)) v = rotate ((n - 1) * r) v"
proof -
  assume v: "length v = n"
  have "(n - 1) * (n * k + r) = (n - 1) * r + n * ((n - 1) * k)" by (simp only: distrib_left mult_ac add.commute)
  then have "(n - 1) * (n * k + r) mod n = (n - 1) * r mod n" by (simp only: mod_mult_self2)
  then show ?thesis using rotate_conv_mod[of "(n - 1) * (n * k + r)" v] rotate_conv_mod[of "(n - 1) * r" v] v by simp
qed

lemma round_at:
  assumes "length v = n"
  shows "length (call (t mod n) m v) = n"
    "rotate ((n - 1) * Suc t) (call (t mod n) m v) = step m (rotate ((n - 1) * t) v)"
proof -
  let ?r = "t mod n"
  have r: "length (call ?r m v) = n" "rotate ((n - 1) * Suc ?r) (call ?r m v) = step m (rotate ((n - 1) * ?r) v)"
    using round[of ?r v m] assms n by simp_all
  then show "length (call ?r m v) = n" by simp
  have t: "t = n * (t div n) + ?r" "Suc t = n * (t div n) + Suc ?r" by simp_all
  have "rotate ((n - 1) * Suc t) (call ?r m v) = rotate ((n - 1) * Suc ?r) (call ?r m v)"
    using rotate_mult[OF r(1), of "t div n" "Suc ?r"] unfolding t(2)[symmetric] .
  also have "\<dots> = step m (rotate ((n - 1) * t) v)"
    using r(2) rotate_mult[OF assms, of "t div n" ?r] unfolding t(1)[symmetric] by (simp only:)
  finally show "rotate ((n - 1) * Suc t) (call ?r m v) = step m (rotate ((n - 1) * t) v)" .
qed

lemma rounds:
  assumes "length v = n"
  shows "length (fold (\<lambda>t. call (t mod n) (m t)) [0..<T] v) = n \<and>
    rotate ((n - 1) * T) (fold (\<lambda>t. call (t mod n) (m t)) [0..<T] v) = fold (\<lambda>t. step (m t)) [0..<T] v"
proof (induction T)
  case (Suc T)
  then show ?case using round_at[of "fold (\<lambda>t. call (t mod n) (m t)) [0..<T] v" T "m T"] by simp
qed (simp add: assms)

theorem textbook:
  assumes "length v = n" and "n dvd T"
  shows "run_calls (map (\<lambda>t. call (t mod n) (m t)) [0..<T]) v = fold (\<lambda>t. step (m t)) [0..<T] v"
proof -
  let ?w = "fold (\<lambda>t. call (t mod n) (m t)) [0..<T] v"
  obtain k where "T = n * k" using assms(2) by blast
  then have "rotate ((n - 1) * T) ?w = ?w" using rotate_mult[of ?w k 0] rounds[OF assms(1), of m T] by (simp only: add_0_right mult_0_right rotate0 id_apply)
  then show ?thesis using rounds[OF assms(1), of m T] by (simp add: run_calls_def fold_map comp_def)
qed

end

text \<open>A computation on registers \<open>a\<close>, \<open>b\<close>, ... whose values are at hand.\<close>

lemma registers:
  "length v = 4 \<Longrightarrow> \<exists>a b c d. v = [a, b, c, d]"
  "length v = 5 \<Longrightarrow> \<exists>a b c d e. v = [a, b, c, d, e]"
  "length v = 8 \<Longrightarrow> \<exists>a b c d e f g h. v = [a, b, c, d, e, f, g, h]"
  by (simp_all add: length_Suc_conv numeral_eq_Suc) blast+

lemma less_cases: "r < 4 \<Longrightarrow> r = 0 \<or> r = 1 \<or> r = 2 \<or> r = (3 :: nat)"
  "r < 5 \<Longrightarrow> r = 0 \<or> r = 1 \<or> r = 2 \<or> r = 3 \<or> r = (4 :: nat)"
  "r < 8 \<Longrightarrow> r = 0 \<or> r = 1 \<or> r = 2 \<or> r = 3 \<or> r = 4 \<or> r = 5 \<or> r = 6 \<or> r = (7 :: nat)"
  by linarith+

lemma upt_from_0: "2 \<le> n \<Longrightarrow> [0..<n] = 0 # 1 # [2..<n]"
  by (simp add: upt_conv_Cons numeral_2_eq_2)

lemmas upt_values = upt_from_0 upt_rec_numeral

text \<open>The choice and the majority, as the codes write them.\<close>

lemma choose_eqs:
  fixes x y z :: "'a::len word"
  shows "z XOR (x AND (y XOR z)) = (x AND y) XOR (NOT x AND z)"
    and "(x AND y) OR ((x OR y) AND z) = (x AND y) XOR (x AND z) XOR (y AND z)"
    and "(x AND y) OR (z AND (x OR y)) = (x AND y) XOR (x AND z) XOR (y AND z)"
  by (rule bit_word_eqI; auto simp: bit_simps)+

end
