(* ===== verification/SHA160.thy ===== *)
theory SHA160
  imports Hash_Rounds
begin

text \<open>
  SHA-160 (\<open>src/hash/sha1/sha160.cpp\<close>): the compression function as it is unrolled in the source, and the theorem
  that it is the loop of FIPS 180. The member \<open>W\<close> is scratch space that is filled before it is read; it is
  local here.
\<close>

definition sha1_F1 :: "nat \<Rightarrow> nat \<Rightarrow> nat \<Rightarrow> nat \<Rightarrow> nat \<Rightarrow> u32bit \<Rightarrow> u32bit list \<Rightarrow> u32bit list" where
  "sha1_F1 A B C D E msg v =
     (let v = v[E := v ! E + ((v ! D XOR (v ! B AND (v ! C XOR v ! D))) + msg + 0x5A827999 + rotate_left (v ! A) 5)]
      in v[B := rotate_left (v ! B) 30])"

definition sha1_F2 :: "nat \<Rightarrow> nat \<Rightarrow> nat \<Rightarrow> nat \<Rightarrow> nat \<Rightarrow> u32bit \<Rightarrow> u32bit list \<Rightarrow> u32bit list" where
  "sha1_F2 A B C D E msg v =
     (let v = v[E := v ! E + ((v ! B XOR v ! C XOR v ! D) + msg + 0x6ED9EBA1 + rotate_left (v ! A) 5)]
      in v[B := rotate_left (v ! B) 30])"

definition sha1_F3 :: "nat \<Rightarrow> nat \<Rightarrow> nat \<Rightarrow> nat \<Rightarrow> nat \<Rightarrow> u32bit \<Rightarrow> u32bit list \<Rightarrow> u32bit list" where
  "sha1_F3 A B C D E msg v =
     (let v = v[E := v ! E + (((v ! B AND v ! C) OR ((v ! B OR v ! C) AND v ! D)) + msg + 0x8F1BBCDC + rotate_left (v ! A) 5)]
      in v[B := rotate_left (v ! B) 30])"

definition sha1_F4 :: "nat \<Rightarrow> nat \<Rightarrow> nat \<Rightarrow> nat \<Rightarrow> nat \<Rightarrow> u32bit \<Rightarrow> u32bit list \<Rightarrow> u32bit list" where
  "sha1_F4 A B C D E msg v =
     (let v = v[E := v ! E + ((v ! B XOR v ! C XOR v ! D) + msg + 0xCA62C1D6 + rotate_left (v ! A) 5)]
      in v[B := rotate_left (v ! B) 30])"

definition sha1_schedule :: "byte list \<Rightarrow> u32bit list" where
  "sha1_schedule inp =
     (let W = replicate 80 0;
          W = for_by 4 0 16 (\<lambda>j W.
            let W = W[j := load_be_u32 inp j];
                W = W[j + 1 := load_be_u32 inp (j + 1)];
                W = W[j + 2 := load_be_u32 inp (j + 2)]
            in W[j + 3 := load_be_u32 inp (j + 3)]) W
      in for_by 4 16 80 (\<lambda>j W.
            let W = W[j := rotate_left (W ! (j - 3) XOR W ! (j - 8) XOR W ! (j - 14) XOR W ! (j - 16)) 1];
                W = W[j + 1 := rotate_left (W ! (j - 2) XOR W ! (j - 7) XOR W ! (j - 13) XOR W ! (j - 15)) 1];
                W = W[j + 2 := rotate_left (W ! (j - 1) XOR W ! (j - 6) XOR W ! (j - 12) XOR W ! (j - 14)) 1]
            in W[j + 3 := rotate_left (W ! j XOR W ! (j - 5) XOR W ! (j - 11) XOR W ! (j - 13)) 1]) W)"

definition sha1_calls :: "u32bit list \<Rightarrow> (u32bit list \<Rightarrow> u32bit list) list" where
  "sha1_calls W =
     [sha1_F1 rA rB rC rD rE (W ! 0), sha1_F1 rE rA rB rC rD (W ! 1),
      sha1_F1 rD rE rA rB rC (W ! 2), sha1_F1 rC rD rE rA rB (W ! 3),
      sha1_F1 rB rC rD rE rA (W ! 4), sha1_F1 rA rB rC rD rE (W ! 5),
      sha1_F1 rE rA rB rC rD (W ! 6), sha1_F1 rD rE rA rB rC (W ! 7),
      sha1_F1 rC rD rE rA rB (W ! 8), sha1_F1 rB rC rD rE rA (W ! 9),
      sha1_F1 rA rB rC rD rE (W ! 10), sha1_F1 rE rA rB rC rD (W ! 11),
      sha1_F1 rD rE rA rB rC (W ! 12), sha1_F1 rC rD rE rA rB (W ! 13),
      sha1_F1 rB rC rD rE rA (W ! 14), sha1_F1 rA rB rC rD rE (W ! 15),
      sha1_F1 rE rA rB rC rD (W ! 16), sha1_F1 rD rE rA rB rC (W ! 17),
      sha1_F1 rC rD rE rA rB (W ! 18), sha1_F1 rB rC rD rE rA (W ! 19),
      sha1_F2 rA rB rC rD rE (W ! 20), sha1_F2 rE rA rB rC rD (W ! 21),
      sha1_F2 rD rE rA rB rC (W ! 22), sha1_F2 rC rD rE rA rB (W ! 23),
      sha1_F2 rB rC rD rE rA (W ! 24), sha1_F2 rA rB rC rD rE (W ! 25),
      sha1_F2 rE rA rB rC rD (W ! 26), sha1_F2 rD rE rA rB rC (W ! 27),
      sha1_F2 rC rD rE rA rB (W ! 28), sha1_F2 rB rC rD rE rA (W ! 29),
      sha1_F2 rA rB rC rD rE (W ! 30), sha1_F2 rE rA rB rC rD (W ! 31),
      sha1_F2 rD rE rA rB rC (W ! 32), sha1_F2 rC rD rE rA rB (W ! 33),
      sha1_F2 rB rC rD rE rA (W ! 34), sha1_F2 rA rB rC rD rE (W ! 35),
      sha1_F2 rE rA rB rC rD (W ! 36), sha1_F2 rD rE rA rB rC (W ! 37),
      sha1_F2 rC rD rE rA rB (W ! 38), sha1_F2 rB rC rD rE rA (W ! 39),
      sha1_F3 rA rB rC rD rE (W ! 40), sha1_F3 rE rA rB rC rD (W ! 41),
      sha1_F3 rD rE rA rB rC (W ! 42), sha1_F3 rC rD rE rA rB (W ! 43),
      sha1_F3 rB rC rD rE rA (W ! 44), sha1_F3 rA rB rC rD rE (W ! 45),
      sha1_F3 rE rA rB rC rD (W ! 46), sha1_F3 rD rE rA rB rC (W ! 47),
      sha1_F3 rC rD rE rA rB (W ! 48), sha1_F3 rB rC rD rE rA (W ! 49),
      sha1_F3 rA rB rC rD rE (W ! 50), sha1_F3 rE rA rB rC rD (W ! 51),
      sha1_F3 rD rE rA rB rC (W ! 52), sha1_F3 rC rD rE rA rB (W ! 53),
      sha1_F3 rB rC rD rE rA (W ! 54), sha1_F3 rA rB rC rD rE (W ! 55),
      sha1_F3 rE rA rB rC rD (W ! 56), sha1_F3 rD rE rA rB rC (W ! 57),
      sha1_F3 rC rD rE rA rB (W ! 58), sha1_F3 rB rC rD rE rA (W ! 59),
      sha1_F4 rA rB rC rD rE (W ! 60), sha1_F4 rE rA rB rC rD (W ! 61),
      sha1_F4 rD rE rA rB rC (W ! 62), sha1_F4 rC rD rE rA rB (W ! 63),
      sha1_F4 rB rC rD rE rA (W ! 64), sha1_F4 rA rB rC rD rE (W ! 65),
      sha1_F4 rE rA rB rC rD (W ! 66), sha1_F4 rD rE rA rB rC (W ! 67),
      sha1_F4 rC rD rE rA rB (W ! 68), sha1_F4 rB rC rD rE rA (W ! 69),
      sha1_F4 rA rB rC rD rE (W ! 70), sha1_F4 rE rA rB rC rD (W ! 71),
      sha1_F4 rD rE rA rB rC (W ! 72), sha1_F4 rC rD rE rA rB (W ! 73),
      sha1_F4 rB rC rD rE rA (W ! 74), sha1_F4 rA rB rC rD rE (W ! 75),
      sha1_F4 rE rA rB rC rD (W ! 76), sha1_F4 rD rE rA rB rC (W ! 77),
      sha1_F4 rC rD rE rA rB (W ! 78), sha1_F4 rB rC rD rE rA (W ! 79)]"

definition sha1_block :: "byte list \<Rightarrow> u32bit list \<Rightarrow> u32bit list" where
  "sha1_block inp d = add_digest d (run_calls (sha1_calls (sha1_schedule inp)) d)"

definition SHA_160 :: "u32bit list MDx_HashFunction" where
  "SHA_160 =
     \<lparr>mdx_name = ''SHA-160'', mdx_output = 20, mdx_block = 64, BIG_BYTE_ENDIAN = True, BIG_BIT_ENDIAN = True,
      COUNT_SIZE = 8, compress_n = compress_blocks 64 sha1_block, copy_out = copy_out_be32 20,
      initial = [0x67452301, 0xEFCDAB89, 0x98BADCFE, 0x10325476, 0xC3D2E1F0]\<rparr>"

section \<open>The standard\<close>

text \<open>FIPS 180-2, sections 4.1.1, 4.2.1 and 6.1.2.\<close>

definition sha1_f :: "nat \<Rightarrow> u32bit \<Rightarrow> u32bit \<Rightarrow> u32bit \<Rightarrow> u32bit" where
  "sha1_f t x y z =
     (if t < 20 then (x AND y) XOR (NOT x AND z) else if t < 40 then x XOR y XOR z
      else if t < 60 then (x AND y) XOR (x AND z) XOR (y AND z) else x XOR y XOR z)"

definition sha1_k :: "nat \<Rightarrow> u32bit" where
  "sha1_k t = (if t < 20 then 0x5A827999 else if t < 40 then 0x6ED9EBA1 else if t < 60 then 0x8F1BBCDC else 0xCA62C1D6)"

fun sha1_W :: "(nat \<Rightarrow> u32bit) \<Rightarrow> nat \<Rightarrow> u32bit" where
  "sha1_W m t = (if t < 16 then m t
     else rotate_left (sha1_W m (t - 3) XOR sha1_W m (t - 8) XOR sha1_W m (t - 14) XOR sha1_W m (t - 16)) 1)"

declare sha1_W.simps [simp del]

definition sha1_step :: "nat \<times> u32bit \<Rightarrow> u32bit list \<Rightarrow> u32bit list" where
  "sha1_step m v = (case m of (t, w) \<Rightarrow>
     [rotate_left (v ! 0) 5 + sha1_f t (v ! 1) (v ! 2) (v ! 3) + v ! 4 + sha1_k t + w, v ! 0, rotate_left (v ! 1) 30, v ! 2, v ! 3])"

definition sha1_standard :: "(nat \<Rightarrow> u32bit) \<Rightarrow> u32bit list \<Rightarrow> u32bit list" where
  "sha1_standard m h = map2 (+) h (fold (\<lambda>t. sha1_step (t, sha1_W m t)) [0..<80] h)"

text \<open>A call with the roles moved on.\<close>

definition sha1_call :: "nat \<Rightarrow> nat \<times> u32bit \<Rightarrow> u32bit list \<Rightarrow> u32bit list" where
  "sha1_call r m = (case m of (t, w) \<Rightarrow>
     (if t < 20 then sha1_F1 else if t < 40 then sha1_F2 else if t < 60 then sha1_F3 else sha1_F4)
       (4 * r mod 5) ((1 + 4 * r) mod 5) ((2 + 4 * r) mod 5) ((3 + 4 * r) mod 5) ((4 + 4 * r) mod 5) w)"

interpretation sha1_rounds: register_rounds 5 sha1_call sha1_step
proof
  fix r :: nat and v :: "u32bit list" and m :: "nat \<times> u32bit"
  assume r: "r < 5" and v: "length v = 5"
  obtain a b c d e where v: "v = [a, b, c, d, e]" using registers(2)[OF v] by blast
  obtain t w where m: "m = (t, w)" by (cases m)
  note defs = sha1_call_def sha1_step_def sha1_F1_def sha1_F2_def sha1_F3_def sha1_F4_def sha1_f_def sha1_k_def
  show "length (sha1_call r m v) = 5 \<and> rotate ((5 - 1) * Suc r) (sha1_call r m v) = sha1_step m (rotate ((5 - 1) * r) v)"
    using less_cases(2)[OF r] unfolding v m
    by (elim disjE) (simp_all add: defs choose_eqs rotate_drop_take add_ac)
qed simp

lemma sha1_calls_rounds: "sha1_calls W = map (\<lambda>t. sha1_call (t mod 5) (t, W ! t)) [0..<80]"
  by (simp add: sha1_calls_def sha1_call_def upt_values flip: numeral_2_eq_2)

lemma sha1_schedule_W:
  "length (sha1_schedule inp) = 80 \<and> (\<forall>t < 80. sha1_schedule inp ! t = sha1_W (load_be_u32 inp) t)"
proof -
  let ?m = "load_be_u32 inp"
  define f where "f = (\<lambda>j (W :: u32bit list).
            let W = W[j := load_be_u32 inp j];
                W = W[j + 1 := load_be_u32 inp (j + 1)];
                W = W[j + 2 := load_be_u32 inp (j + 2)]
            in W[j + 3 := load_be_u32 inp (j + 3)])"
  define g where "g = (\<lambda>j (W :: u32bit list).
            let W = W[j := rotate_left (W ! (j - 3) XOR W ! (j - 8) XOR W ! (j - 14) XOR W ! (j - 16)) 1];
                W = W[j + 1 := rotate_left (W ! (j - 2) XOR W ! (j - 7) XOR W ! (j - 13) XOR W ! (j - 15)) 1];
                W = W[j + 2 := rotate_left (W ! (j - 1) XOR W ! (j - 6) XOR W ! (j - 12) XOR W ! (j - 14)) 1]
            in W[j + 3 := rotate_left (W ! j XOR W ! (j - 5) XOR W ! (j - 11) XOR W ! (j - 13)) 1])"
  let ?I = "\<lambda>k W. length W = 80 \<and> (\<forall>t < k. W ! t = sha1_W ?m t)"
  have run: "sha1_schedule inp = for_up 0 16 (\<lambda>i. g (16 + 4 * i)) (for_up 0 4 (\<lambda>i. f (4 * i)) (replicate 80 0))"
    by (simp add: sha1_schedule_def for_by_def f_def g_def)
  have small: "sha1_W ?m t = ?m t" if "t < 16" for t using that by (simp add: sha1_W.simps)
  have large: "sha1_W ?m t = rotate_left (sha1_W ?m (t - 3) XOR sha1_W ?m (t - 8) XOR sha1_W ?m (t - 14) XOR sha1_W ?m (t - 16)) 1"
    if "16 \<le> t" for t using that by (subst sha1_W.simps) simp
  define ext where "ext = (\<lambda>k (W :: u32bit list).
    W[k := rotate_left (W ! (k - 3) XOR W ! (k - 8) XOR W ! (k - 14) XOR W ! (k - 16)) 1])"
  have extend: "?I (k + 1) (ext k W)" if "?I k W" and "16 \<le> k" and "k < 80" for k W
    using that large[OF that(2)] by (auto simp: ext_def nth_list_update less_Suc_eq)
  have "?I (4 * 4) (for_up 0 4 (\<lambda>i. f (4 * i)) (replicate 80 0))"
  proof (rule for_up_invariant[where I = "\<lambda>i. ?I (4 * i)"])
    fix i and W :: "u32bit list"
    assume i: "i < 4" and W: "?I (4 * i) W"
    show "?I (4 * Suc i) (f (4 * i) W)"
      using i W small by (auto simp: f_def Let_def nth_list_update less_Suc_eq)
  qed simp_all
  then have "?I (16 + 4 * 16) (for_up 0 16 (\<lambda>i. g (16 + 4 * i)) (for_up 0 4 (\<lambda>i. f (4 * i)) (replicate 80 0)))"
  proof (intro for_up_invariant[where I = "\<lambda>i. ?I (16 + 4 * i)"])
    fix i and W :: "u32bit list"
    assume i: "i < 16" and W: "?I (16 + 4 * i) W"
    let ?j = "16 + 4 * i"
    have four: "g ?j W = ext (?j + 3) (ext (?j + 2) (ext (?j + 1) (ext ?j W)))"
      by (simp add: g_def ext_def Let_def)
    have "?I (?j + 4) (ext (?j + 3) (ext (?j + 2) (ext (?j + 1) (ext ?j W))))"
      using i extend[OF extend[OF extend[OF extend[OF W]]]] by simp
    then show "?I (16 + 4 * Suc i) (g ?j W)" unfolding four by simp
  qed simp_all
  then show ?thesis by (simp add: run)
qed

theorem sha1_block_standard:
  assumes "length d = 5"
  shows "sha1_block inp d = sha1_standard (load_be_u32 inp) d"
proof -
  have "run_calls (sha1_calls (sha1_schedule inp)) d = fold (\<lambda>t. sha1_step (t, sha1_schedule inp ! t)) [0..<80] d"
    unfolding sha1_calls_rounds using assms by (intro sha1_rounds.textbook) simp_all
  also have "\<dots> = fold (\<lambda>t. sha1_step (t, sha1_W (load_be_u32 inp) t)) [0..<80] d"
    using sha1_schedule_W[of inp] by (intro fold_cong) simp_all
  finally show ?thesis by (simp add: sha1_block_def add_digest_def sha1_standard_def)
qed

lemma sha1_W_cong: "(\<And>t. t < 16 \<Longrightarrow> m t = m' t) \<Longrightarrow> sha1_W m t = sha1_W m' t"
proof (induction m t rule: sha1_W.induct)
  case (1 m t)
  then show ?case by (cases "t < 16") (simp_all add: sha1_W.simps[of m t] sha1_W.simps[of m' t])
qed

lemma SHA_160_ok: "mdx_ok SHA_160"
proof (rule mdx_okI[where f = sha1_block])
  fix a b :: "byte list" and d assume "length a = mdx_block SHA_160"
  then have "load_be_u32 (a @ b) t = load_be_u32 a t" if "t < 16" for t using that by (simp add: load_prefix SHA_160_def)
  then have "sha1_schedule (a @ b) = sha1_schedule a"
    using sha1_schedule_W[of "a @ b"] sha1_schedule_W[of a] sha1_W_cong[of "load_be_u32 (a @ b)" "load_be_u32 a"]
    by (intro nth_equalityI) simp_all
  then show "sha1_block (a @ b) d = sha1_block a d" by (simp add: sha1_block_def)
qed (simp_all add: SHA_160_def length_copy_out)

interpretation sha_160: clearing_hash "mdx_hash SHA_160" "mdx_absorbed SHA_160" "md_digest SHA_160"
  by (rule mdx_hash_ok[OF SHA_160_ok])

end
