(* ===== verification/MD4_MD5.thy ===== *)
theory MD4_MD5
  imports Hash_Rounds
begin

text \<open>
  MD4 and MD5 (\<open>src/hash/md4/md4.cpp\<close>, \<open>src/hash/md5/md5.cpp\<close>), and the theorems that their unrolled compression
  functions are the loops of RFC 1320 and RFC 1321. The member \<open>M\<close> holds the words of the block; it is local here.
\<close>

definition load_words_le :: "byte list \<Rightarrow> u32bit list" where
  "load_words_le inp = for_up 0 16 (\<lambda>j M. M[j := load_le_u32 inp j]) (replicate 16 0)"

lemma load_words_le_val: "length (load_words_le inp) = 16 \<and> (\<forall>j < 16. load_words_le inp ! j = load_le_u32 inp j)"
  unfolding load_words_le_def
  by (rule for_up_invariant[where I = "\<lambda>k M. length M = 16 \<and> (\<forall>j < k. M ! j = load_le_u32 inp j)"])
    (auto simp: nth_list_update less_Suc_eq)

lemma load_words_le_prefix: "length a = 64 \<Longrightarrow> load_words_le (a @ b) = load_words_le a"
  using load_words_le_val[of "a @ b"] load_words_le_val[of a]
  by (intro nth_equalityI) (simp_all add: load_prefix)

section \<open>MD4\<close>

definition md4_FF :: "nat \<Rightarrow> nat \<Rightarrow> nat \<Rightarrow> nat \<Rightarrow> u32bit \<Rightarrow> nat \<Rightarrow> u32bit list \<Rightarrow> u32bit list" where
  "md4_FF A B C D M S' v =
     (let v = v[A := v ! A + ((v ! D XOR (v ! B AND (v ! C XOR v ! D))) + M)]
      in v[A := rotate_left (v ! A) S'])"

definition md4_GG :: "nat \<Rightarrow> nat \<Rightarrow> nat \<Rightarrow> nat \<Rightarrow> u32bit \<Rightarrow> nat \<Rightarrow> u32bit list \<Rightarrow> u32bit list" where
  "md4_GG A B C D M S' v =
     (let v = v[A := v ! A + (((v ! B AND v ! C) OR (v ! D AND (v ! B OR v ! C))) + M + 0x5A827999)]
      in v[A := rotate_left (v ! A) S'])"

definition md4_HH :: "nat \<Rightarrow> nat \<Rightarrow> nat \<Rightarrow> nat \<Rightarrow> u32bit \<Rightarrow> nat \<Rightarrow> u32bit list \<Rightarrow> u32bit list" where
  "md4_HH A B C D M S' v =
     (let v = v[A := v ! A + ((v ! B XOR v ! C XOR v ! D) + M + 0x6ED9EBA1)]
      in v[A := rotate_left (v ! A) S'])"

definition md4_calls :: "u32bit list \<Rightarrow> (u32bit list \<Rightarrow> u32bit list) list" where
  "md4_calls M =
     [md4_FF rA rB rC rD (M ! 0) 3, md4_FF rD rA rB rC (M ! 1) 7, md4_FF rC rD rA rB (M ! 2) 11,
      md4_FF rB rC rD rA (M ! 3) 19, md4_FF rA rB rC rD (M ! 4) 3, md4_FF rD rA rB rC (M ! 5) 7,
      md4_FF rC rD rA rB (M ! 6) 11, md4_FF rB rC rD rA (M ! 7) 19, md4_FF rA rB rC rD (M ! 8) 3,
      md4_FF rD rA rB rC (M ! 9) 7, md4_FF rC rD rA rB (M ! 10) 11, md4_FF rB rC rD rA (M ! 11) 19,
      md4_FF rA rB rC rD (M ! 12) 3, md4_FF rD rA rB rC (M ! 13) 7, md4_FF rC rD rA rB (M ! 14) 11,
      md4_FF rB rC rD rA (M ! 15) 19, md4_GG rA rB rC rD (M ! 0) 3, md4_GG rD rA rB rC (M ! 4) 5,
      md4_GG rC rD rA rB (M ! 8) 9, md4_GG rB rC rD rA (M ! 12) 13, md4_GG rA rB rC rD (M ! 1) 3,
      md4_GG rD rA rB rC (M ! 5) 5, md4_GG rC rD rA rB (M ! 9) 9, md4_GG rB rC rD rA (M ! 13) 13,
      md4_GG rA rB rC rD (M ! 2) 3, md4_GG rD rA rB rC (M ! 6) 5, md4_GG rC rD rA rB (M ! 10) 9,
      md4_GG rB rC rD rA (M ! 14) 13, md4_GG rA rB rC rD (M ! 3) 3, md4_GG rD rA rB rC (M ! 7) 5,
      md4_GG rC rD rA rB (M ! 11) 9, md4_GG rB rC rD rA (M ! 15) 13, md4_HH rA rB rC rD (M ! 0) 3,
      md4_HH rD rA rB rC (M ! 8) 9, md4_HH rC rD rA rB (M ! 4) 11, md4_HH rB rC rD rA (M ! 12) 15,
      md4_HH rA rB rC rD (M ! 2) 3, md4_HH rD rA rB rC (M ! 10) 9, md4_HH rC rD rA rB (M ! 6) 11,
      md4_HH rB rC rD rA (M ! 14) 15, md4_HH rA rB rC rD (M ! 1) 3, md4_HH rD rA rB rC (M ! 9) 9,
      md4_HH rC rD rA rB (M ! 5) 11, md4_HH rB rC rD rA (M ! 13) 15, md4_HH rA rB rC rD (M ! 3) 3,
      md4_HH rD rA rB rC (M ! 11) 9, md4_HH rC rD rA rB (M ! 7) 11, md4_HH rB rC rD rA (M ! 15) 15]"

definition md4_block :: "byte list \<Rightarrow> u32bit list \<Rightarrow> u32bit list" where
  "md4_block inp d = add_digest d (run_calls (md4_calls (load_words_le inp)) d)"

definition MD4 :: "u32bit list MDx_HashFunction" where
  "MD4 =
     \<lparr>mdx_name = ''MD4'', mdx_output = 16, mdx_block = 64, BIG_BYTE_ENDIAN = False, BIG_BIT_ENDIAN = True,
      COUNT_SIZE = 8, compress_n = compress_blocks 64 md4_block, copy_out = copy_out_le32 16,
      initial = [0x67452301, 0xEFCDAB89, 0x98BADCFE, 0x10325476]\<rparr>"

text \<open>RFC 1320, section 3.4: the function, the word and the shift of step \<open>t\<close>.\<close>

definition md4_f :: "nat \<Rightarrow> u32bit \<Rightarrow> u32bit \<Rightarrow> u32bit \<Rightarrow> u32bit" where
  "md4_f t x y z =
     (if t < 16 then (x AND y) OR (NOT x AND z)
      else if t < 32 then ((x AND y) OR (x AND z) OR (y AND z)) + 0x5A827999
      else (x XOR y XOR z) + 0x6ED9EBA1)"

definition md4_k :: "nat \<Rightarrow> nat" where
  "md4_k t = (if t < 16 then t else if t < 32 then 4 * (t mod 4) + (t - 16) div 4
     else [0, 8, 4, 12, 2, 10, 6, 14, 1, 9, 5, 13, 3, 11, 7, 15] ! (t - 32))"

definition md4_s :: "nat \<Rightarrow> nat" where
  "md4_s t = (if t < 16 then [3, 7, 11, 19] else if t < 32 then [3, 5, 9, 13] else [3, 9, 11, 15]) ! (t mod 4)"

definition md4_step :: "nat \<times> nat \<times> u32bit \<Rightarrow> u32bit list \<Rightarrow> u32bit list" where
  "md4_step m v = (case m of (t, i, w) \<Rightarrow>
     [v ! 3, rotate_left (v ! 0 + md4_f t (v ! 1) (v ! 2) (v ! 3) + w) i, v ! 1, v ! 2])"

definition md4_standard :: "(nat \<Rightarrow> u32bit) \<Rightarrow> u32bit list \<Rightarrow> u32bit list" where
  "md4_standard x h = map2 (+) h (fold (\<lambda>t. md4_step (t, md4_s t, x (md4_k t))) [0..<48] h)"

definition md4_call :: "nat \<Rightarrow> nat \<times> nat \<times> u32bit \<Rightarrow> u32bit list \<Rightarrow> u32bit list" where
  "md4_call r m = (case m of (t, i, w) \<Rightarrow>
     (if t < 16 then md4_FF else if t < 32 then md4_GG else md4_HH)
       (3 * r mod 4) ((1 + 3 * r) mod 4) ((2 + 3 * r) mod 4) ((3 + 3 * r) mod 4) w i)"

lemma or_eqs:
  fixes x y z :: "'a::len word"
  shows "z XOR (x AND (y XOR z)) = (x AND y) OR (NOT x AND z)"
    and "y XOR (z AND (x XOR y)) = (x AND z) OR (y AND NOT z)"
    and "(x AND y) OR (z AND (x OR y)) = (x AND y) OR (x AND z) OR (y AND z)"
  by (rule bit_word_eqI; auto simp: bit_simps)+

interpretation md4_rounds: register_rounds 4 md4_call md4_step
proof
  fix r :: nat and v :: "u32bit list" and m :: "nat \<times> nat \<times> u32bit"
  assume r: "r < 4" and v: "length v = 4"
  obtain a b c d where v: "v = [a, b, c, d]" using registers(1)[OF v] by blast
  obtain t i w where m: "m = (t, i, w)" by (cases m)
  note defs = md4_call_def md4_step_def md4_FF_def md4_GG_def md4_HH_def md4_f_def
  show "length (md4_call r m v) = 4 \<and> rotate ((4 - 1) * Suc r) (md4_call r m v) = md4_step m (rotate ((4 - 1) * r) v)"
    using less_cases(1)[OF r] unfolding v m
    by (elim disjE) (simp_all add: defs or_eqs rotate_drop_take add_ac)
qed simp

lemma md4_calls_rounds: "md4_calls M = map (\<lambda>t. md4_call (t mod 4) (t, md4_s t, M ! md4_k t)) [0..<48]"
  by (simp add: md4_calls_def md4_call_def md4_s_def md4_k_def upt_values flip: numeral_2_eq_2)

theorem md4_block_standard:
  assumes "length d = 4"
  shows "md4_block inp d = md4_standard (load_le_u32 inp) d"
proof -
  have "\<forall>t \<in> set [0..<48]. md4_k t < 16" by code_simp
  then have k: "md4_k t < 16" if "t < 48" for t using that by simp
  have "run_calls (md4_calls (load_words_le inp)) d =
      fold (\<lambda>t. md4_step (t, md4_s t, load_words_le inp ! md4_k t)) [0..<48] d"
    unfolding md4_calls_rounds using assms by (intro md4_rounds.textbook) simp_all
  also have "\<dots> = fold (\<lambda>t. md4_step (t, md4_s t, load_le_u32 inp (md4_k t))) [0..<48] d"
    using load_words_le_val[of inp] k by (intro fold_cong) simp_all
  finally show ?thesis by (simp add: md4_block_def add_digest_def md4_standard_def)
qed

lemma MD4_ok: "mdx_ok MD4"
  by (rule mdx_okI[where f = md4_block]) (simp_all add: MD4_def md4_block_def load_words_le_prefix length_copy_out)

interpretation md4_hash: clearing_hash "mdx_hash MD4" "mdx_absorbed MD4" "md_digest MD4"
  by (rule mdx_hash_ok[OF MD4_ok])

section \<open>MD5\<close>

definition md5_FF :: "nat \<Rightarrow> nat \<Rightarrow> nat \<Rightarrow> nat \<Rightarrow> u32bit \<Rightarrow> nat \<Rightarrow> u32bit \<Rightarrow> u32bit list \<Rightarrow> u32bit list" where
  "md5_FF A B C D msg S' magic v =
     (let v = v[A := v ! A + ((v ! D XOR (v ! B AND (v ! C XOR v ! D))) + msg + magic)]
      in v[A := rotate_left (v ! A) S' + v ! B])"

definition md5_GG :: "nat \<Rightarrow> nat \<Rightarrow> nat \<Rightarrow> nat \<Rightarrow> u32bit \<Rightarrow> nat \<Rightarrow> u32bit \<Rightarrow> u32bit list \<Rightarrow> u32bit list" where
  "md5_GG A B C D msg S' magic v =
     (let v = v[A := v ! A + ((v ! C XOR (v ! D AND (v ! B XOR v ! C))) + msg + magic)]
      in v[A := rotate_left (v ! A) S' + v ! B])"

definition md5_HH :: "nat \<Rightarrow> nat \<Rightarrow> nat \<Rightarrow> nat \<Rightarrow> u32bit \<Rightarrow> nat \<Rightarrow> u32bit \<Rightarrow> u32bit list \<Rightarrow> u32bit list" where
  "md5_HH A B C D msg S' magic v =
     (let v = v[A := v ! A + ((v ! B XOR v ! C XOR v ! D) + msg + magic)]
      in v[A := rotate_left (v ! A) S' + v ! B])"

definition md5_II :: "nat \<Rightarrow> nat \<Rightarrow> nat \<Rightarrow> nat \<Rightarrow> u32bit \<Rightarrow> nat \<Rightarrow> u32bit \<Rightarrow> u32bit list \<Rightarrow> u32bit list" where
  "md5_II A B C D msg S' magic v =
     (let v = v[A := v ! A + ((v ! C XOR (v ! B OR NOT (v ! D))) + msg + magic)]
      in v[A := rotate_left (v ! A) S' + v ! B])"

definition md5_calls :: "u32bit list \<Rightarrow> (u32bit list \<Rightarrow> u32bit list) list" where
  "md5_calls M =
     [md5_FF rA rB rC rD (M ! 0) 7 0xD76AA478, md5_FF rD rA rB rC (M ! 1) 12 0xE8C7B756,
      md5_FF rC rD rA rB (M ! 2) 17 0x242070DB, md5_FF rB rC rD rA (M ! 3) 22 0xC1BDCEEE,
      md5_FF rA rB rC rD (M ! 4) 7 0xF57C0FAF, md5_FF rD rA rB rC (M ! 5) 12 0x4787C62A,
      md5_FF rC rD rA rB (M ! 6) 17 0xA8304613, md5_FF rB rC rD rA (M ! 7) 22 0xFD469501,
      md5_FF rA rB rC rD (M ! 8) 7 0x698098D8, md5_FF rD rA rB rC (M ! 9) 12 0x8B44F7AF,
      md5_FF rC rD rA rB (M ! 10) 17 0xFFFF5BB1, md5_FF rB rC rD rA (M ! 11) 22 0x895CD7BE,
      md5_FF rA rB rC rD (M ! 12) 7 0x6B901122, md5_FF rD rA rB rC (M ! 13) 12 0xFD987193,
      md5_FF rC rD rA rB (M ! 14) 17 0xA679438E, md5_FF rB rC rD rA (M ! 15) 22 0x49B40821,
      md5_GG rA rB rC rD (M ! 1) 5 0xF61E2562, md5_GG rD rA rB rC (M ! 6) 9 0xC040B340,
      md5_GG rC rD rA rB (M ! 11) 14 0x265E5A51, md5_GG rB rC rD rA (M ! 0) 20 0xE9B6C7AA,
      md5_GG rA rB rC rD (M ! 5) 5 0xD62F105D, md5_GG rD rA rB rC (M ! 10) 9 0x02441453,
      md5_GG rC rD rA rB (M ! 15) 14 0xD8A1E681, md5_GG rB rC rD rA (M ! 4) 20 0xE7D3FBC8,
      md5_GG rA rB rC rD (M ! 9) 5 0x21E1CDE6, md5_GG rD rA rB rC (M ! 14) 9 0xC33707D6,
      md5_GG rC rD rA rB (M ! 3) 14 0xF4D50D87, md5_GG rB rC rD rA (M ! 8) 20 0x455A14ED,
      md5_GG rA rB rC rD (M ! 13) 5 0xA9E3E905, md5_GG rD rA rB rC (M ! 2) 9 0xFCEFA3F8,
      md5_GG rC rD rA rB (M ! 7) 14 0x676F02D9, md5_GG rB rC rD rA (M ! 12) 20 0x8D2A4C8A,
      md5_HH rA rB rC rD (M ! 5) 4 0xFFFA3942, md5_HH rD rA rB rC (M ! 8) 11 0x8771F681,
      md5_HH rC rD rA rB (M ! 11) 16 0x6D9D6122, md5_HH rB rC rD rA (M ! 14) 23 0xFDE5380C,
      md5_HH rA rB rC rD (M ! 1) 4 0xA4BEEA44, md5_HH rD rA rB rC (M ! 4) 11 0x4BDECFA9,
      md5_HH rC rD rA rB (M ! 7) 16 0xF6BB4B60, md5_HH rB rC rD rA (M ! 10) 23 0xBEBFBC70,
      md5_HH rA rB rC rD (M ! 13) 4 0x289B7EC6, md5_HH rD rA rB rC (M ! 0) 11 0xEAA127FA,
      md5_HH rC rD rA rB (M ! 3) 16 0xD4EF3085, md5_HH rB rC rD rA (M ! 6) 23 0x04881D05,
      md5_HH rA rB rC rD (M ! 9) 4 0xD9D4D039, md5_HH rD rA rB rC (M ! 12) 11 0xE6DB99E5,
      md5_HH rC rD rA rB (M ! 15) 16 0x1FA27CF8, md5_HH rB rC rD rA (M ! 2) 23 0xC4AC5665,
      md5_II rA rB rC rD (M ! 0) 6 0xF4292244, md5_II rD rA rB rC (M ! 7) 10 0x432AFF97,
      md5_II rC rD rA rB (M ! 14) 15 0xAB9423A7, md5_II rB rC rD rA (M ! 5) 21 0xFC93A039,
      md5_II rA rB rC rD (M ! 12) 6 0x655B59C3, md5_II rD rA rB rC (M ! 3) 10 0x8F0CCC92,
      md5_II rC rD rA rB (M ! 10) 15 0xFFEFF47D, md5_II rB rC rD rA (M ! 1) 21 0x85845DD1,
      md5_II rA rB rC rD (M ! 8) 6 0x6FA87E4F, md5_II rD rA rB rC (M ! 15) 10 0xFE2CE6E0,
      md5_II rC rD rA rB (M ! 6) 15 0xA3014314, md5_II rB rC rD rA (M ! 13) 21 0x4E0811A1,
      md5_II rA rB rC rD (M ! 4) 6 0xF7537E82, md5_II rD rA rB rC (M ! 11) 10 0xBD3AF235,
      md5_II rC rD rA rB (M ! 2) 15 0x2AD7D2BB, md5_II rB rC rD rA (M ! 9) 21 0xEB86D391]"

definition md5_block :: "byte list \<Rightarrow> u32bit list \<Rightarrow> u32bit list" where
  "md5_block inp d = add_digest d (run_calls (md5_calls (load_words_le inp)) d)"

definition MD5 :: "u32bit list MDx_HashFunction" where
  "MD5 =
     \<lparr>mdx_name = ''MD5'', mdx_output = 16, mdx_block = 64, BIG_BYTE_ENDIAN = False, BIG_BIT_ENDIAN = True,
      COUNT_SIZE = 8, compress_n = compress_blocks 64 md5_block, copy_out = copy_out_le32 16,
      initial = [0x67452301, 0xEFCDAB89, 0x98BADCFE, 0x10325476]\<rparr>"

text \<open>RFC 1321, section 3.4: the function, the word, the shift and the sine of step \<open>t\<close>.\<close>

definition md5_f :: "nat \<Rightarrow> u32bit \<Rightarrow> u32bit \<Rightarrow> u32bit \<Rightarrow> u32bit" where
  "md5_f t x y z =
     (if t < 16 then (x AND y) OR (NOT x AND z) else if t < 32 then (x AND z) OR (y AND NOT z)
      else if t < 48 then x XOR y XOR z else y XOR (x OR NOT z))"

definition md5_k :: "nat \<Rightarrow> nat" where
  "md5_k t = (if t < 16 then t else if t < 32 then (5 * t + 1) mod 16 else if t < 48 then (3 * t + 5) mod 16 else 7 * t mod 16)"

definition md5_s :: "nat \<Rightarrow> nat" where
  "md5_s t = (if t < 16 then [7, 12, 17, 22] else if t < 32 then [5, 9, 14, 20]
     else if t < 48 then [4, 11, 16, 23] else [6, 10, 15, 21]) ! (t mod 4)"

definition md5_T :: "u32bit list" where
  "md5_T =
     [0xD76AA478, 0xE8C7B756, 0x242070DB, 0xC1BDCEEE, 0xF57C0FAF, 0x4787C62A,
      0xA8304613, 0xFD469501, 0x698098D8, 0x8B44F7AF, 0xFFFF5BB1, 0x895CD7BE,
      0x6B901122, 0xFD987193, 0xA679438E, 0x49B40821, 0xF61E2562, 0xC040B340,
      0x265E5A51, 0xE9B6C7AA, 0xD62F105D, 0x02441453, 0xD8A1E681, 0xE7D3FBC8,
      0x21E1CDE6, 0xC33707D6, 0xF4D50D87, 0x455A14ED, 0xA9E3E905, 0xFCEFA3F8,
      0x676F02D9, 0x8D2A4C8A, 0xFFFA3942, 0x8771F681, 0x6D9D6122, 0xFDE5380C,
      0xA4BEEA44, 0x4BDECFA9, 0xF6BB4B60, 0xBEBFBC70, 0x289B7EC6, 0xEAA127FA,
      0xD4EF3085, 0x04881D05, 0xD9D4D039, 0xE6DB99E5, 0x1FA27CF8, 0xC4AC5665,
      0xF4292244, 0x432AFF97, 0xAB9423A7, 0xFC93A039, 0x655B59C3, 0x8F0CCC92,
      0xFFEFF47D, 0x85845DD1, 0x6FA87E4F, 0xFE2CE6E0, 0xA3014314, 0x4E0811A1,
      0xF7537E82, 0xBD3AF235, 0x2AD7D2BB, 0xEB86D391]"

definition md5_step :: "nat \<times> nat \<times> u32bit \<times> u32bit \<Rightarrow> u32bit list \<Rightarrow> u32bit list" where
  "md5_step m v = (case m of (t, i, w, k) \<Rightarrow>
     [v ! 3, v ! 1 + rotate_left (v ! 0 + md5_f t (v ! 1) (v ! 2) (v ! 3) + w + k) i, v ! 1, v ! 2])"

definition md5_standard :: "(nat \<Rightarrow> u32bit) \<Rightarrow> u32bit list \<Rightarrow> u32bit list" where
  "md5_standard x h = map2 (+) h (fold (\<lambda>t. md5_step (t, md5_s t, x (md5_k t), md5_T ! t)) [0..<64] h)"

definition md5_call :: "nat \<Rightarrow> nat \<times> nat \<times> u32bit \<times> u32bit \<Rightarrow> u32bit list \<Rightarrow> u32bit list" where
  "md5_call r m = (case m of (t, i, w, k) \<Rightarrow>
     (if t < 16 then md5_FF else if t < 32 then md5_GG else if t < 48 then md5_HH else md5_II)
       (3 * r mod 4) ((1 + 3 * r) mod 4) ((2 + 3 * r) mod 4) ((3 + 3 * r) mod 4) w i k)"

lemma or_flip: "(x AND y) OR (NOT x AND z) = (y AND x) OR (z AND NOT x)" for x y z :: "'a::len word"
  by (simp only: and.commute)

interpretation md5_rounds: register_rounds 4 md5_call md5_step
proof
  fix r :: nat and v :: "u32bit list" and m :: "nat \<times> nat \<times> u32bit \<times> u32bit"
  assume r: "r < 4" and v: "length v = 4"
  obtain a b c d where v: "v = [a, b, c, d]" using registers(1)[OF v] by blast
  obtain t i w k where m: "m = (t, i, w, k)" by (cases m)
  note defs = md5_call_def md5_step_def md5_FF_def md5_GG_def md5_HH_def md5_II_def md5_f_def
  show "length (md5_call r m v) = 4 \<and> rotate ((4 - 1) * Suc r) (md5_call r m v) = md5_step m (rotate ((4 - 1) * r) v)"
    using less_cases(1)[OF r] unfolding v m
    by (elim disjE) (simp_all add: defs or_eqs or_flip rotate_drop_take add_ac)
qed simp

lemma md5_calls_rounds:
  "md5_calls M = map (\<lambda>t. md5_call (t mod 4) (t, md5_s t, M ! md5_k t, md5_T ! t)) [0..<64]"
  by (simp add: md5_calls_def md5_call_def md5_s_def md5_k_def md5_T_def upt_values flip: numeral_2_eq_2)

theorem md5_block_standard:
  assumes "length d = 4"
  shows "md5_block inp d = md5_standard (load_le_u32 inp) d"
proof -
  have k: "md5_k t < 16" for t by (simp add: md5_k_def)
  have "run_calls (md5_calls (load_words_le inp)) d =
      fold (\<lambda>t. md5_step (t, md5_s t, load_words_le inp ! md5_k t, md5_T ! t)) [0..<64] d"
    unfolding md5_calls_rounds using assms by (intro md5_rounds.textbook) simp_all
  also have "\<dots> = fold (\<lambda>t. md5_step (t, md5_s t, load_le_u32 inp (md5_k t), md5_T ! t)) [0..<64] d"
    using load_words_le_val[of inp] k by (intro fold_cong) simp_all
  finally show ?thesis by (simp add: md5_block_def add_digest_def md5_standard_def)
qed

lemma MD5_ok: "mdx_ok MD5"
  by (rule mdx_okI[where f = md5_block]) (simp_all add: MD5_def md5_block_def load_words_le_prefix length_copy_out)

interpretation md5_hash: clearing_hash "mdx_hash MD5" "mdx_absorbed MD5" "md_digest MD5"
  by (rule mdx_hash_ok[OF MD5_ok])

end
