(* ===== verification/SHA2.thy ===== *)
theory SHA2
  imports Hash_Rounds
begin

text \<open>
  SHA-224, SHA-256, SHA-384 and SHA-512 (\<open>src/hash/sha2/sha2_32.cpp\<close>, \<open>sha2_64.cpp\<close>), and the theorems that their
  unrolled compression functions are the loops of FIPS 180-2 with the constants the standard prescribes: the first
  bits of the fractional parts of the cube roots of the first primes. The member \<open>W\<close> is scratch space, local here.
\<close>

text \<open>The textbook step both share: \<open>m\<close> is \<open>K\<^sub>t\<close> and \<open>W\<^sub>t\<close>.\<close>

definition sha2_step :: "('a::len word \<Rightarrow> 'a word) \<Rightarrow> ('a word \<Rightarrow> 'a word) \<Rightarrow> 'a word \<times> 'a word \<Rightarrow> 'a word list \<Rightarrow> 'a word list" where
  "sha2_step Sigma0 Sigma1 m v = (case m of (k, w) \<Rightarrow>
     let T1 = v ! 7 + Sigma1 (v ! 4) + ((v ! 4 AND v ! 5) XOR (NOT (v ! 4) AND v ! 6)) + k + w;
         T2 = Sigma0 (v ! 0) + ((v ! 0 AND v ! 1) XOR (v ! 0 AND v ! 2) XOR (v ! 1 AND v ! 2))
     in [T1 + T2, v ! 0, v ! 1, v ! 2, v ! 3 + T1, v ! 4, v ! 5, v ! 6])"

fun sha2_W :: "('a::len word \<Rightarrow> 'a word) \<Rightarrow> ('a word \<Rightarrow> 'a word) \<Rightarrow> (nat \<Rightarrow> 'a word) \<Rightarrow> nat \<Rightarrow> 'a word" where
  "sha2_W s0 s1 m t = (if t < 16 then m t
     else s1 (sha2_W s0 s1 m (t - 2)) + sha2_W s0 s1 m (t - 7) + s0 (sha2_W s0 s1 m (t - 15)) + sha2_W s0 s1 m (t - 16))"

declare sha2_W.simps [simp del]

lemma sha2_W_cong: "(\<And>t. t < 16 \<Longrightarrow> m t = m' t) \<Longrightarrow> sha2_W s0 s1 m t = sha2_W s0 s1 m' t"
proof (induction s0 s1 m t rule: sha2_W.induct)
  case (1 s0 s1 m t)
  then show ?case by (cases "t < 16") (simp_all add: sha2_W.simps[of s0 s1 m t] sha2_W.simps[of s0 s1 m' t])
qed

text \<open>The schedule as an array that is filled from the left.\<close>

lemma sha2_schedule:
  fixes W :: "'a::len word list"
  assumes "length W = n" and "16 \<le> n"
  shows "let W' = for_up 16 n (\<lambda>j W. W[j := s1 (W ! (j - 2)) + W ! (j - 7) + s0 (W ! (j - 15)) + W ! (j - 16)])
      (for_up 0 16 (\<lambda>j W. W[j := m j]) W)
    in length W' = n \<and> (\<forall>t < n. W' ! t = sha2_W s0 s1 m t)"
proof -
  let ?I = "\<lambda>k W. length W = n \<and> (\<forall>t < k. W ! t = sha2_W s0 s1 m t)"
  have "?I 16 (for_up 0 16 (\<lambda>j W. W[j := m j]) W)"
    using assms by (intro for_up_invariant[where I = ?I]) (auto simp: nth_list_update less_Suc_eq sha2_W.simps)
  note start = this
  have "?I n (for_up 16 n (\<lambda>j W. W[j := s1 (W ! (j - 2)) + W ! (j - 7) + s0 (W ! (j - 15)) + W ! (j - 16)])
      (for_up 0 16 (\<lambda>j W. W[j := m j]) W))"
  proof (rule for_up_invariant[where I = ?I])
    fix j W assume "16 \<le> j" "j < n" and W: "?I j W"
    moreover from this have "sha2_W s0 s1 m j = s1 (W ! (j - 2)) + W ! (j - 7) + s0 (W ! (j - 15)) + W ! (j - 16)"
      by (subst sha2_W.simps) simp
    ultimately show "?I (Suc j) (W[j := s1 (W ! (j - 2)) + W ! (j - 7) + s0 (W ! (j - 15)) + W ! (j - 16)])"
      by (auto simp: nth_list_update less_Suc_eq)
  qed (use assms start in simp_all)
  then show ?thesis by (simp add: Let_def)
qed

text \<open>The constants: \<open>b\<close> bits of the fractional part of the cube root of a prime below 512, without rounding.\<close>

definition is_cbrt_frac :: "nat \<Rightarrow> int \<Rightarrow> int \<Rightarrow> bool" where
  "is_cbrt_frac b p k =
     (let c = int (length (filter (\<lambda>i. i * i * i \<le> p) [1, 2, 3, 4, 5, 6, 7])); x = c * 2 ^ b + k
      in 0 \<le> k \<and> k < 2 ^ b \<and> x * x * x \<le> p * 2 ^ (3 * b) \<and> p * 2 ^ (3 * b) < (x + 1) * (x + 1) * (x + 1))"

definition primes80 :: "int list" where
  "primes80 =
     [2, 3, 5, 7, 11, 13, 17, 19, 23, 29, 31, 37, 41, 43, 47, 53,
      59, 61, 67, 71, 73, 79, 83, 89, 97, 101, 103, 107, 109, 113, 127, 131,
      137, 139, 149, 151, 157, 163, 167, 173, 179, 181, 191, 193, 197, 199, 211, 223,
      227, 229, 233, 239, 241, 251, 257, 263, 269, 271, 277, 281, 283, 293, 307, 311,
      313, 317, 331, 337, 347, 349, 353, 359, 367, 373, 379, 383, 389, 397, 401, 409]"

section \<open>SHA-224 and SHA-256\<close>

definition sha256_rho :: "u32bit \<Rightarrow> nat \<Rightarrow> nat \<Rightarrow> nat \<Rightarrow> u32bit" where
  "sha256_rho X rot1 rot2 rot3 = rotate_right X rot1 XOR rotate_right X rot2 XOR rotate_right X rot3"

definition sha256_sigma :: "u32bit \<Rightarrow> nat \<Rightarrow> nat \<Rightarrow> nat \<Rightarrow> u32bit" where
  "sha256_sigma X rot1 rot2 shift = rotate_right X rot1 XOR rotate_right X rot2 XOR drop_bit shift X"

definition sha256_F1 :: "nat \<Rightarrow> nat \<Rightarrow> nat \<Rightarrow> nat \<Rightarrow> nat \<Rightarrow> nat \<Rightarrow> nat \<Rightarrow> nat \<Rightarrow> u32bit \<Rightarrow> u32bit \<Rightarrow> u32bit list \<Rightarrow> u32bit list" where
  "sha256_F1 A B C D E F G H msg magic v =
     (let magic = magic + (sha256_rho (v ! E) 6 11 25 + ((v ! E AND v ! F) XOR (NOT (v ! E) AND v ! G)) + msg);
          v = v[D := v ! D + (magic + v ! H)]
      in v[H := v ! H + (magic + sha256_rho (v ! A) 2 13 22 + ((v ! A AND v ! B) XOR (v ! A AND v ! C) XOR (v ! B AND v ! C)))])"

definition sha256_schedule :: "byte list \<Rightarrow> u32bit list" where
  "sha256_schedule inp =
     for_up 16 64 (\<lambda>j W. W[j := sha256_sigma (W ! (j - 2)) 17 19 10 + W ! (j - 7) + sha256_sigma (W ! (j - 15)) 7 18 3 + W ! (j - 16)])
       (for_up 0 16 (\<lambda>j W. W[j := load_be_u32 inp j]) (replicate 64 0))"

definition sha256_calls :: "u32bit list \<Rightarrow> (u32bit list \<Rightarrow> u32bit list) list" where
  "sha256_calls W =
     [sha256_F1 rA rB rC rD rE rF rG rH (W ! 0) 0x428A2F98,
      sha256_F1 rH rA rB rC rD rE rF rG (W ! 1) 0x71374491,
      sha256_F1 rG rH rA rB rC rD rE rF (W ! 2) 0xB5C0FBCF,
      sha256_F1 rF rG rH rA rB rC rD rE (W ! 3) 0xE9B5DBA5,
      sha256_F1 rE rF rG rH rA rB rC rD (W ! 4) 0x3956C25B,
      sha256_F1 rD rE rF rG rH rA rB rC (W ! 5) 0x59F111F1,
      sha256_F1 rC rD rE rF rG rH rA rB (W ! 6) 0x923F82A4,
      sha256_F1 rB rC rD rE rF rG rH rA (W ! 7) 0xAB1C5ED5,
      sha256_F1 rA rB rC rD rE rF rG rH (W ! 8) 0xD807AA98,
      sha256_F1 rH rA rB rC rD rE rF rG (W ! 9) 0x12835B01,
      sha256_F1 rG rH rA rB rC rD rE rF (W ! 10) 0x243185BE,
      sha256_F1 rF rG rH rA rB rC rD rE (W ! 11) 0x550C7DC3,
      sha256_F1 rE rF rG rH rA rB rC rD (W ! 12) 0x72BE5D74,
      sha256_F1 rD rE rF rG rH rA rB rC (W ! 13) 0x80DEB1FE,
      sha256_F1 rC rD rE rF rG rH rA rB (W ! 14) 0x9BDC06A7,
      sha256_F1 rB rC rD rE rF rG rH rA (W ! 15) 0xC19BF174,
      sha256_F1 rA rB rC rD rE rF rG rH (W ! 16) 0xE49B69C1,
      sha256_F1 rH rA rB rC rD rE rF rG (W ! 17) 0xEFBE4786,
      sha256_F1 rG rH rA rB rC rD rE rF (W ! 18) 0x0FC19DC6,
      sha256_F1 rF rG rH rA rB rC rD rE (W ! 19) 0x240CA1CC,
      sha256_F1 rE rF rG rH rA rB rC rD (W ! 20) 0x2DE92C6F,
      sha256_F1 rD rE rF rG rH rA rB rC (W ! 21) 0x4A7484AA,
      sha256_F1 rC rD rE rF rG rH rA rB (W ! 22) 0x5CB0A9DC,
      sha256_F1 rB rC rD rE rF rG rH rA (W ! 23) 0x76F988DA,
      sha256_F1 rA rB rC rD rE rF rG rH (W ! 24) 0x983E5152,
      sha256_F1 rH rA rB rC rD rE rF rG (W ! 25) 0xA831C66D,
      sha256_F1 rG rH rA rB rC rD rE rF (W ! 26) 0xB00327C8,
      sha256_F1 rF rG rH rA rB rC rD rE (W ! 27) 0xBF597FC7,
      sha256_F1 rE rF rG rH rA rB rC rD (W ! 28) 0xC6E00BF3,
      sha256_F1 rD rE rF rG rH rA rB rC (W ! 29) 0xD5A79147,
      sha256_F1 rC rD rE rF rG rH rA rB (W ! 30) 0x06CA6351,
      sha256_F1 rB rC rD rE rF rG rH rA (W ! 31) 0x14292967,
      sha256_F1 rA rB rC rD rE rF rG rH (W ! 32) 0x27B70A85,
      sha256_F1 rH rA rB rC rD rE rF rG (W ! 33) 0x2E1B2138,
      sha256_F1 rG rH rA rB rC rD rE rF (W ! 34) 0x4D2C6DFC,
      sha256_F1 rF rG rH rA rB rC rD rE (W ! 35) 0x53380D13,
      sha256_F1 rE rF rG rH rA rB rC rD (W ! 36) 0x650A7354,
      sha256_F1 rD rE rF rG rH rA rB rC (W ! 37) 0x766A0ABB,
      sha256_F1 rC rD rE rF rG rH rA rB (W ! 38) 0x81C2C92E,
      sha256_F1 rB rC rD rE rF rG rH rA (W ! 39) 0x92722C85,
      sha256_F1 rA rB rC rD rE rF rG rH (W ! 40) 0xA2BFE8A1,
      sha256_F1 rH rA rB rC rD rE rF rG (W ! 41) 0xA81A664B,
      sha256_F1 rG rH rA rB rC rD rE rF (W ! 42) 0xC24B8B70,
      sha256_F1 rF rG rH rA rB rC rD rE (W ! 43) 0xC76C51A3,
      sha256_F1 rE rF rG rH rA rB rC rD (W ! 44) 0xD192E819,
      sha256_F1 rD rE rF rG rH rA rB rC (W ! 45) 0xD6990624,
      sha256_F1 rC rD rE rF rG rH rA rB (W ! 46) 0xF40E3585,
      sha256_F1 rB rC rD rE rF rG rH rA (W ! 47) 0x106AA070,
      sha256_F1 rA rB rC rD rE rF rG rH (W ! 48) 0x19A4C116,
      sha256_F1 rH rA rB rC rD rE rF rG (W ! 49) 0x1E376C08,
      sha256_F1 rG rH rA rB rC rD rE rF (W ! 50) 0x2748774C,
      sha256_F1 rF rG rH rA rB rC rD rE (W ! 51) 0x34B0BCB5,
      sha256_F1 rE rF rG rH rA rB rC rD (W ! 52) 0x391C0CB3,
      sha256_F1 rD rE rF rG rH rA rB rC (W ! 53) 0x4ED8AA4A,
      sha256_F1 rC rD rE rF rG rH rA rB (W ! 54) 0x5B9CCA4F,
      sha256_F1 rB rC rD rE rF rG rH rA (W ! 55) 0x682E6FF3,
      sha256_F1 rA rB rC rD rE rF rG rH (W ! 56) 0x748F82EE,
      sha256_F1 rH rA rB rC rD rE rF rG (W ! 57) 0x78A5636F,
      sha256_F1 rG rH rA rB rC rD rE rF (W ! 58) 0x84C87814,
      sha256_F1 rF rG rH rA rB rC rD rE (W ! 59) 0x8CC70208,
      sha256_F1 rE rF rG rH rA rB rC rD (W ! 60) 0x90BEFFFA,
      sha256_F1 rD rE rF rG rH rA rB rC (W ! 61) 0xA4506CEB,
      sha256_F1 rC rD rE rF rG rH rA rB (W ! 62) 0xBEF9A3F7,
      sha256_F1 rB rC rD rE rF rG rH rA (W ! 63) 0xC67178F2]"

definition sha256_block :: "byte list \<Rightarrow> u32bit list \<Rightarrow> u32bit list" where
  "sha256_block inp d = add_digest d (run_calls (sha256_calls (sha256_schedule inp)) d)"

definition SHA_224 :: "u32bit list MDx_HashFunction" where
  "SHA_224 =
     \<lparr>mdx_name = ''SHA-224'', mdx_output = 28, mdx_block = 64, BIG_BYTE_ENDIAN = True, BIG_BIT_ENDIAN = True,
      COUNT_SIZE = 8, compress_n = compress_blocks 64 sha256_block, copy_out = copy_out_be32 28,
      initial = [0xc1059ed8, 0x367cd507, 0x3070dd17, 0xf70e5939, 0xffc00b31, 0x68581511, 0x64f98fa7, 0xbefa4fa4]\<rparr>"

definition SHA_256 :: "u32bit list MDx_HashFunction" where
  "SHA_256 =
     \<lparr>mdx_name = ''SHA-256'', mdx_output = 32, mdx_block = 64, BIG_BYTE_ENDIAN = True, BIG_BIT_ENDIAN = True,
      COUNT_SIZE = 8, compress_n = compress_blocks 64 sha256_block, copy_out = copy_out_be32 32,
      initial = [0x6A09E667, 0xBB67AE85, 0x3C6EF372, 0xA54FF53A, 0x510E527F, 0x9B05688C, 0x1F83D9AB, 0x5BE0CD19]\<rparr>"

text \<open>FIPS 180-2, sections 4.1.2, 4.2.2 and 6.2.2.\<close>

definition sha256_K :: "u32bit list" where
  "sha256_K =
     [0x428A2F98, 0x71374491, 0xB5C0FBCF, 0xE9B5DBA5, 0x3956C25B, 0x59F111F1,
      0x923F82A4, 0xAB1C5ED5, 0xD807AA98, 0x12835B01, 0x243185BE, 0x550C7DC3,
      0x72BE5D74, 0x80DEB1FE, 0x9BDC06A7, 0xC19BF174, 0xE49B69C1, 0xEFBE4786,
      0x0FC19DC6, 0x240CA1CC, 0x2DE92C6F, 0x4A7484AA, 0x5CB0A9DC, 0x76F988DA,
      0x983E5152, 0xA831C66D, 0xB00327C8, 0xBF597FC7, 0xC6E00BF3, 0xD5A79147,
      0x06CA6351, 0x14292967, 0x27B70A85, 0x2E1B2138, 0x4D2C6DFC, 0x53380D13,
      0x650A7354, 0x766A0ABB, 0x81C2C92E, 0x92722C85, 0xA2BFE8A1, 0xA81A664B,
      0xC24B8B70, 0xC76C51A3, 0xD192E819, 0xD6990624, 0xF40E3585, 0x106AA070,
      0x19A4C116, 0x1E376C08, 0x2748774C, 0x34B0BCB5, 0x391C0CB3, 0x4ED8AA4A,
      0x5B9CCA4F, 0x682E6FF3, 0x748F82EE, 0x78A5636F, 0x84C87814, 0x8CC70208,
      0x90BEFFFA, 0xA4506CEB, 0xBEF9A3F7, 0xC67178F2]"

lemma sha256_K_cube_roots: "list_all2 (is_cbrt_frac 32) (take 64 primes80) (map uint sha256_K)"
  by code_simp

definition sha256_standard :: "(nat \<Rightarrow> u32bit) \<Rightarrow> u32bit list \<Rightarrow> u32bit list" where
  "sha256_standard m h =
     (let s0 = (\<lambda>x. rotate_right x 7 XOR rotate_right x 18 XOR drop_bit 3 x);
          s1 = (\<lambda>x. rotate_right x 17 XOR rotate_right x 19 XOR drop_bit 10 x);
          S0 = (\<lambda>x. rotate_right x 2 XOR rotate_right x 13 XOR rotate_right x 22);
          S1 = (\<lambda>x. rotate_right x 6 XOR rotate_right x 11 XOR rotate_right x 25)
      in map2 (+) h (fold (\<lambda>t. sha2_step S0 S1 (sha256_K ! t, sha2_W s0 s1 m t)) [0..<64] h))"

definition sha256_call :: "nat \<Rightarrow> u32bit \<times> u32bit \<Rightarrow> u32bit list \<Rightarrow> u32bit list" where
  "sha256_call r m = (case m of (k, w) \<Rightarrow>
     sha256_F1 (7 * r mod 8) ((1 + 7 * r) mod 8) ((2 + 7 * r) mod 8) ((3 + 7 * r) mod 8)
       ((4 + 7 * r) mod 8) ((5 + 7 * r) mod 8) ((6 + 7 * r) mod 8) ((7 + 7 * r) mod 8) w k)"

abbreviation sha256_step :: "u32bit \<times> u32bit \<Rightarrow> u32bit list \<Rightarrow> u32bit list" where
  "sha256_step \<equiv> sha2_step (\<lambda>x. sha256_rho x 2 13 22) (\<lambda>x. sha256_rho x 6 11 25)"

interpretation sha256_rounds: register_rounds 8 sha256_call sha256_step
proof
  fix r :: nat and v :: "u32bit list" and m :: "u32bit \<times> u32bit"
  assume r: "r < 8" and v: "length v = 8"
  obtain a b c d e f g h where v: "v = [a, b, c, d, e, f, g, h]" using registers(3)[OF v] by blast
  obtain k w where m: "m = (k, w)" by (cases m)
  note defs = sha256_call_def sha2_step_def sha256_F1_def
  show "length (sha256_call r m v) = 8 \<and> rotate ((8 - 1) * Suc r) (sha256_call r m v) = sha256_step m (rotate ((8 - 1) * r) v)"
    using less_cases(3)[OF r] unfolding v m
    by (elim disjE) (simp_all add: defs Let_def rotate_drop_take add_ac)
qed simp

lemma sha256_calls_rounds: "sha256_calls W = map (\<lambda>t. sha256_call (t mod 8) (sha256_K ! t, W ! t)) [0..<64]"
  by (simp add: sha256_calls_def sha256_call_def sha256_K_def upt_values flip: numeral_2_eq_2)

lemma sha256_schedule_W: "length (sha256_schedule inp) = 64 \<and>
    (\<forall>t < 64. sha256_schedule inp ! t = sha2_W (\<lambda>x. sha256_sigma x 7 18 3) (\<lambda>x. sha256_sigma x 17 19 10) (load_be_u32 inp) t)"
  using sha2_schedule[of "replicate 64 0" 64 "\<lambda>x. sha256_sigma x 17 19 10" "\<lambda>x. sha256_sigma x 7 18 3" "load_be_u32 inp"]
  by (simp add: Let_def sha256_schedule_def)

theorem sha256_block_standard:
  assumes "length d = 8"
  shows "sha256_block inp d = sha256_standard (load_be_u32 inp) d"
proof -
  let ?W = "sha2_W (\<lambda>x. sha256_sigma x 7 18 3) (\<lambda>x. sha256_sigma x 17 19 10) (load_be_u32 inp)"
  have "run_calls (sha256_calls (sha256_schedule inp)) d = fold (\<lambda>t. sha256_step (sha256_K ! t, sha256_schedule inp ! t)) [0..<64] d"
    unfolding sha256_calls_rounds using assms by (intro sha256_rounds.textbook) simp_all
  also have "\<dots> = fold (\<lambda>t. sha256_step (sha256_K ! t, ?W t)) [0..<64] d"
    using sha256_schedule_W[of inp] by (intro fold_cong) simp_all
  finally show ?thesis
    by (simp only: sha256_block_def add_digest_def sha256_standard_def sha256_sigma_def sha256_rho_def Let_def)
qed

lemma sha256_block_prefix: "length a = 64 \<Longrightarrow> sha256_block (a @ b) d = sha256_block a d"
proof -
  assume "length a = 64"
  then have "load_be_u32 (a @ b) t = load_be_u32 a t" if "t < 16" for t using that by (simp add: load_prefix)
  then have "sha256_schedule (a @ b) = sha256_schedule a"
    using sha256_schedule_W[of "a @ b"] sha256_schedule_W[of a]
      sha2_W_cong[of "load_be_u32 (a @ b)" "load_be_u32 a" "\<lambda>x. sha256_sigma x 7 18 3" "\<lambda>x. sha256_sigma x 17 19 10"]
    by (intro nth_equalityI) simp_all
  then show ?thesis by (simp add: sha256_block_def)
qed

lemma sha256_ok: "mdx_ok SHA_224" "mdx_ok SHA_256"
  by (rule mdx_okI[where f = sha256_block], simp_all add: SHA_224_def sha256_block_prefix length_copy_out)
    (rule mdx_okI[where f = sha256_block], simp_all add: SHA_256_def sha256_block_prefix length_copy_out)

interpretation sha_224: clearing_hash "mdx_hash SHA_224" "mdx_absorbed SHA_224" "md_digest SHA_224"
  by (rule mdx_hash_ok[OF sha256_ok(1)])

interpretation sha_256: clearing_hash "mdx_hash SHA_256" "mdx_absorbed SHA_256" "md_digest SHA_256"
  by (rule mdx_hash_ok[OF sha256_ok(2)])

section \<open>SHA-384 and SHA-512\<close>

definition sha512_rho :: "u64bit \<Rightarrow> nat \<Rightarrow> nat \<Rightarrow> nat \<Rightarrow> u64bit" where
  "sha512_rho X rot1 rot2 rot3 = rotate_right X rot1 XOR rotate_right X rot2 XOR rotate_right X rot3"

definition sha512_sigma :: "u64bit \<Rightarrow> nat \<Rightarrow> nat \<Rightarrow> nat \<Rightarrow> u64bit" where
  "sha512_sigma X rot1 rot2 shift = rotate_right X rot1 XOR rotate_right X rot2 XOR drop_bit shift X"

definition sha512_F1 :: "nat \<Rightarrow> nat \<Rightarrow> nat \<Rightarrow> nat \<Rightarrow> nat \<Rightarrow> nat \<Rightarrow> nat \<Rightarrow> nat \<Rightarrow> u64bit \<Rightarrow> u64bit \<Rightarrow> u64bit list \<Rightarrow> u64bit list" where
  "sha512_F1 A B C D E F G H msg magic v =
     (let magic = magic + (sha512_rho (v ! E) 14 18 41 + ((v ! E AND v ! F) XOR (NOT (v ! E) AND v ! G)) + msg);
          v = v[D := v ! D + (magic + v ! H)]
      in v[H := v ! H + (magic + sha512_rho (v ! A) 28 34 39 + ((v ! A AND v ! B) XOR (v ! A AND v ! C) XOR (v ! B AND v ! C)))])"

definition sha512_schedule :: "byte list \<Rightarrow> u64bit list" where
  "sha512_schedule inp =
     for_up 16 80 (\<lambda>j W. W[j := sha512_sigma (W ! (j - 2)) 19 61 6 + W ! (j - 7) + sha512_sigma (W ! (j - 15)) 1 8 7 + W ! (j - 16)])
       (for_up 0 16 (\<lambda>j W. W[j := load_be_u64 inp j]) (replicate 80 0))"

definition sha512_calls :: "u64bit list \<Rightarrow> (u64bit list \<Rightarrow> u64bit list) list" where
  "sha512_calls W =
     [sha512_F1 rA rB rC rD rE rF rG rH (W ! 0) 0x428A2F98D728AE22,
      sha512_F1 rH rA rB rC rD rE rF rG (W ! 1) 0x7137449123EF65CD,
      sha512_F1 rG rH rA rB rC rD rE rF (W ! 2) 0xB5C0FBCFEC4D3B2F,
      sha512_F1 rF rG rH rA rB rC rD rE (W ! 3) 0xE9B5DBA58189DBBC,
      sha512_F1 rE rF rG rH rA rB rC rD (W ! 4) 0x3956C25BF348B538,
      sha512_F1 rD rE rF rG rH rA rB rC (W ! 5) 0x59F111F1B605D019,
      sha512_F1 rC rD rE rF rG rH rA rB (W ! 6) 0x923F82A4AF194F9B,
      sha512_F1 rB rC rD rE rF rG rH rA (W ! 7) 0xAB1C5ED5DA6D8118,
      sha512_F1 rA rB rC rD rE rF rG rH (W ! 8) 0xD807AA98A3030242,
      sha512_F1 rH rA rB rC rD rE rF rG (W ! 9) 0x12835B0145706FBE,
      sha512_F1 rG rH rA rB rC rD rE rF (W ! 10) 0x243185BE4EE4B28C,
      sha512_F1 rF rG rH rA rB rC rD rE (W ! 11) 0x550C7DC3D5FFB4E2,
      sha512_F1 rE rF rG rH rA rB rC rD (W ! 12) 0x72BE5D74F27B896F,
      sha512_F1 rD rE rF rG rH rA rB rC (W ! 13) 0x80DEB1FE3B1696B1,
      sha512_F1 rC rD rE rF rG rH rA rB (W ! 14) 0x9BDC06A725C71235,
      sha512_F1 rB rC rD rE rF rG rH rA (W ! 15) 0xC19BF174CF692694,
      sha512_F1 rA rB rC rD rE rF rG rH (W ! 16) 0xE49B69C19EF14AD2,
      sha512_F1 rH rA rB rC rD rE rF rG (W ! 17) 0xEFBE4786384F25E3,
      sha512_F1 rG rH rA rB rC rD rE rF (W ! 18) 0x0FC19DC68B8CD5B5,
      sha512_F1 rF rG rH rA rB rC rD rE (W ! 19) 0x240CA1CC77AC9C65,
      sha512_F1 rE rF rG rH rA rB rC rD (W ! 20) 0x2DE92C6F592B0275,
      sha512_F1 rD rE rF rG rH rA rB rC (W ! 21) 0x4A7484AA6EA6E483,
      sha512_F1 rC rD rE rF rG rH rA rB (W ! 22) 0x5CB0A9DCBD41FBD4,
      sha512_F1 rB rC rD rE rF rG rH rA (W ! 23) 0x76F988DA831153B5,
      sha512_F1 rA rB rC rD rE rF rG rH (W ! 24) 0x983E5152EE66DFAB,
      sha512_F1 rH rA rB rC rD rE rF rG (W ! 25) 0xA831C66D2DB43210,
      sha512_F1 rG rH rA rB rC rD rE rF (W ! 26) 0xB00327C898FB213F,
      sha512_F1 rF rG rH rA rB rC rD rE (W ! 27) 0xBF597FC7BEEF0EE4,
      sha512_F1 rE rF rG rH rA rB rC rD (W ! 28) 0xC6E00BF33DA88FC2,
      sha512_F1 rD rE rF rG rH rA rB rC (W ! 29) 0xD5A79147930AA725,
      sha512_F1 rC rD rE rF rG rH rA rB (W ! 30) 0x06CA6351E003826F,
      sha512_F1 rB rC rD rE rF rG rH rA (W ! 31) 0x142929670A0E6E70,
      sha512_F1 rA rB rC rD rE rF rG rH (W ! 32) 0x27B70A8546D22FFC,
      sha512_F1 rH rA rB rC rD rE rF rG (W ! 33) 0x2E1B21385C26C926,
      sha512_F1 rG rH rA rB rC rD rE rF (W ! 34) 0x4D2C6DFC5AC42AED,
      sha512_F1 rF rG rH rA rB rC rD rE (W ! 35) 0x53380D139D95B3DF,
      sha512_F1 rE rF rG rH rA rB rC rD (W ! 36) 0x650A73548BAF63DE,
      sha512_F1 rD rE rF rG rH rA rB rC (W ! 37) 0x766A0ABB3C77B2A8,
      sha512_F1 rC rD rE rF rG rH rA rB (W ! 38) 0x81C2C92E47EDAEE6,
      sha512_F1 rB rC rD rE rF rG rH rA (W ! 39) 0x92722C851482353B,
      sha512_F1 rA rB rC rD rE rF rG rH (W ! 40) 0xA2BFE8A14CF10364,
      sha512_F1 rH rA rB rC rD rE rF rG (W ! 41) 0xA81A664BBC423001,
      sha512_F1 rG rH rA rB rC rD rE rF (W ! 42) 0xC24B8B70D0F89791,
      sha512_F1 rF rG rH rA rB rC rD rE (W ! 43) 0xC76C51A30654BE30,
      sha512_F1 rE rF rG rH rA rB rC rD (W ! 44) 0xD192E819D6EF5218,
      sha512_F1 rD rE rF rG rH rA rB rC (W ! 45) 0xD69906245565A910,
      sha512_F1 rC rD rE rF rG rH rA rB (W ! 46) 0xF40E35855771202A,
      sha512_F1 rB rC rD rE rF rG rH rA (W ! 47) 0x106AA07032BBD1B8,
      sha512_F1 rA rB rC rD rE rF rG rH (W ! 48) 0x19A4C116B8D2D0C8,
      sha512_F1 rH rA rB rC rD rE rF rG (W ! 49) 0x1E376C085141AB53,
      sha512_F1 rG rH rA rB rC rD rE rF (W ! 50) 0x2748774CDF8EEB99,
      sha512_F1 rF rG rH rA rB rC rD rE (W ! 51) 0x34B0BCB5E19B48A8,
      sha512_F1 rE rF rG rH rA rB rC rD (W ! 52) 0x391C0CB3C5C95A63,
      sha512_F1 rD rE rF rG rH rA rB rC (W ! 53) 0x4ED8AA4AE3418ACB,
      sha512_F1 rC rD rE rF rG rH rA rB (W ! 54) 0x5B9CCA4F7763E373,
      sha512_F1 rB rC rD rE rF rG rH rA (W ! 55) 0x682E6FF3D6B2B8A3,
      sha512_F1 rA rB rC rD rE rF rG rH (W ! 56) 0x748F82EE5DEFB2FC,
      sha512_F1 rH rA rB rC rD rE rF rG (W ! 57) 0x78A5636F43172F60,
      sha512_F1 rG rH rA rB rC rD rE rF (W ! 58) 0x84C87814A1F0AB72,
      sha512_F1 rF rG rH rA rB rC rD rE (W ! 59) 0x8CC702081A6439EC,
      sha512_F1 rE rF rG rH rA rB rC rD (W ! 60) 0x90BEFFFA23631E28,
      sha512_F1 rD rE rF rG rH rA rB rC (W ! 61) 0xA4506CEBDE82BDE9,
      sha512_F1 rC rD rE rF rG rH rA rB (W ! 62) 0xBEF9A3F7B2C67915,
      sha512_F1 rB rC rD rE rF rG rH rA (W ! 63) 0xC67178F2E372532B,
      sha512_F1 rA rB rC rD rE rF rG rH (W ! 64) 0xCA273ECEEA26619C,
      sha512_F1 rH rA rB rC rD rE rF rG (W ! 65) 0xD186B8C721C0C207,
      sha512_F1 rG rH rA rB rC rD rE rF (W ! 66) 0xEADA7DD6CDE0EB1E,
      sha512_F1 rF rG rH rA rB rC rD rE (W ! 67) 0xF57D4F7FEE6ED178,
      sha512_F1 rE rF rG rH rA rB rC rD (W ! 68) 0x06F067AA72176FBA,
      sha512_F1 rD rE rF rG rH rA rB rC (W ! 69) 0x0A637DC5A2C898A6,
      sha512_F1 rC rD rE rF rG rH rA rB (W ! 70) 0x113F9804BEF90DAE,
      sha512_F1 rB rC rD rE rF rG rH rA (W ! 71) 0x1B710B35131C471B,
      sha512_F1 rA rB rC rD rE rF rG rH (W ! 72) 0x28DB77F523047D84,
      sha512_F1 rH rA rB rC rD rE rF rG (W ! 73) 0x32CAAB7B40C72493,
      sha512_F1 rG rH rA rB rC rD rE rF (W ! 74) 0x3C9EBE0A15C9BEBC,
      sha512_F1 rF rG rH rA rB rC rD rE (W ! 75) 0x431D67C49C100D4C,
      sha512_F1 rE rF rG rH rA rB rC rD (W ! 76) 0x4CC5D4BECB3E42B6,
      sha512_F1 rD rE rF rG rH rA rB rC (W ! 77) 0x597F299CFC657E2A,
      sha512_F1 rC rD rE rF rG rH rA rB (W ! 78) 0x5FCB6FAB3AD6FAEC,
      sha512_F1 rB rC rD rE rF rG rH rA (W ! 79) 0x6C44198C4A475817]"

definition sha512_block :: "byte list \<Rightarrow> u64bit list \<Rightarrow> u64bit list" where
  "sha512_block inp d = add_digest d (run_calls (sha512_calls (sha512_schedule inp)) d)"

definition SHA_384 :: "u64bit list MDx_HashFunction" where
  "SHA_384 =
     \<lparr>mdx_name = ''SHA-384'', mdx_output = 48, mdx_block = 128, BIG_BYTE_ENDIAN = True, BIG_BIT_ENDIAN = True,
      COUNT_SIZE = 16, compress_n = compress_blocks 128 sha512_block, copy_out = copy_out_be64 48,
      initial = [0xCBBB9D5DC1059ED8, 0x629A292A367CD507, 0x9159015A3070DD17, 0x152FECD8F70E5939,
      0x67332667FFC00B31, 0x8EB44A8768581511, 0xDB0C2E0D64F98FA7, 0x47B5481DBEFA4FA4]\<rparr>"

definition SHA_512 :: "u64bit list MDx_HashFunction" where
  "SHA_512 =
     \<lparr>mdx_name = ''SHA-512'', mdx_output = 64, mdx_block = 128, BIG_BYTE_ENDIAN = True, BIG_BIT_ENDIAN = True,
      COUNT_SIZE = 16, compress_n = compress_blocks 128 sha512_block, copy_out = copy_out_be64 64,
      initial = [0x6A09E667F3BCC908, 0xBB67AE8584CAA73B, 0x3C6EF372FE94F82B, 0xA54FF53A5F1D36F1,
      0x510E527FADE682D1, 0x9B05688C2B3E6C1F, 0x1F83D9ABFB41BD6B, 0x5BE0CD19137E2179]\<rparr>"

text \<open>FIPS 180-2, sections 4.1.3, 4.2.3 and 6.3.2.\<close>

definition sha512_K :: "u64bit list" where
  "sha512_K =
     [0x428A2F98D728AE22, 0x7137449123EF65CD, 0xB5C0FBCFEC4D3B2F, 0xE9B5DBA58189DBBC,
      0x3956C25BF348B538, 0x59F111F1B605D019, 0x923F82A4AF194F9B, 0xAB1C5ED5DA6D8118,
      0xD807AA98A3030242, 0x12835B0145706FBE, 0x243185BE4EE4B28C, 0x550C7DC3D5FFB4E2,
      0x72BE5D74F27B896F, 0x80DEB1FE3B1696B1, 0x9BDC06A725C71235, 0xC19BF174CF692694,
      0xE49B69C19EF14AD2, 0xEFBE4786384F25E3, 0x0FC19DC68B8CD5B5, 0x240CA1CC77AC9C65,
      0x2DE92C6F592B0275, 0x4A7484AA6EA6E483, 0x5CB0A9DCBD41FBD4, 0x76F988DA831153B5,
      0x983E5152EE66DFAB, 0xA831C66D2DB43210, 0xB00327C898FB213F, 0xBF597FC7BEEF0EE4,
      0xC6E00BF33DA88FC2, 0xD5A79147930AA725, 0x06CA6351E003826F, 0x142929670A0E6E70,
      0x27B70A8546D22FFC, 0x2E1B21385C26C926, 0x4D2C6DFC5AC42AED, 0x53380D139D95B3DF,
      0x650A73548BAF63DE, 0x766A0ABB3C77B2A8, 0x81C2C92E47EDAEE6, 0x92722C851482353B,
      0xA2BFE8A14CF10364, 0xA81A664BBC423001, 0xC24B8B70D0F89791, 0xC76C51A30654BE30,
      0xD192E819D6EF5218, 0xD69906245565A910, 0xF40E35855771202A, 0x106AA07032BBD1B8,
      0x19A4C116B8D2D0C8, 0x1E376C085141AB53, 0x2748774CDF8EEB99, 0x34B0BCB5E19B48A8,
      0x391C0CB3C5C95A63, 0x4ED8AA4AE3418ACB, 0x5B9CCA4F7763E373, 0x682E6FF3D6B2B8A3,
      0x748F82EE5DEFB2FC, 0x78A5636F43172F60, 0x84C87814A1F0AB72, 0x8CC702081A6439EC,
      0x90BEFFFA23631E28, 0xA4506CEBDE82BDE9, 0xBEF9A3F7B2C67915, 0xC67178F2E372532B,
      0xCA273ECEEA26619C, 0xD186B8C721C0C207, 0xEADA7DD6CDE0EB1E, 0xF57D4F7FEE6ED178,
      0x06F067AA72176FBA, 0x0A637DC5A2C898A6, 0x113F9804BEF90DAE, 0x1B710B35131C471B,
      0x28DB77F523047D84, 0x32CAAB7B40C72493, 0x3C9EBE0A15C9BEBC, 0x431D67C49C100D4C,
      0x4CC5D4BECB3E42B6, 0x597F299CFC657E2A, 0x5FCB6FAB3AD6FAEC, 0x6C44198C4A475817]"

lemma sha512_K_cube_roots: "list_all2 (is_cbrt_frac 64) (take 80 primes80) (map uint sha512_K)"
  by code_simp

definition sha512_standard :: "(nat \<Rightarrow> u64bit) \<Rightarrow> u64bit list \<Rightarrow> u64bit list" where
  "sha512_standard m h =
     (let s0 = (\<lambda>x. rotate_right x 1 XOR rotate_right x 8 XOR drop_bit 7 x);
          s1 = (\<lambda>x. rotate_right x 19 XOR rotate_right x 61 XOR drop_bit 6 x);
          S0 = (\<lambda>x. rotate_right x 28 XOR rotate_right x 34 XOR rotate_right x 39);
          S1 = (\<lambda>x. rotate_right x 14 XOR rotate_right x 18 XOR rotate_right x 41)
      in map2 (+) h (fold (\<lambda>t. sha2_step S0 S1 (sha512_K ! t, sha2_W s0 s1 m t)) [0..<80] h))"

definition sha512_call :: "nat \<Rightarrow> u64bit \<times> u64bit \<Rightarrow> u64bit list \<Rightarrow> u64bit list" where
  "sha512_call r m = (case m of (k, w) \<Rightarrow>
     sha512_F1 (7 * r mod 8) ((1 + 7 * r) mod 8) ((2 + 7 * r) mod 8) ((3 + 7 * r) mod 8)
       ((4 + 7 * r) mod 8) ((5 + 7 * r) mod 8) ((6 + 7 * r) mod 8) ((7 + 7 * r) mod 8) w k)"

abbreviation sha512_step :: "u64bit \<times> u64bit \<Rightarrow> u64bit list \<Rightarrow> u64bit list" where
  "sha512_step \<equiv> sha2_step (\<lambda>x. sha512_rho x 28 34 39) (\<lambda>x. sha512_rho x 14 18 41)"

interpretation sha512_rounds: register_rounds 8 sha512_call sha512_step
proof
  fix r :: nat and v :: "u64bit list" and m :: "u64bit \<times> u64bit"
  assume r: "r < 8" and v: "length v = 8"
  obtain a b c d e f g h where v: "v = [a, b, c, d, e, f, g, h]" using registers(3)[OF v] by blast
  obtain k w where m: "m = (k, w)" by (cases m)
  note defs = sha512_call_def sha2_step_def sha512_F1_def
  show "length (sha512_call r m v) = 8 \<and> rotate ((8 - 1) * Suc r) (sha512_call r m v) = sha512_step m (rotate ((8 - 1) * r) v)"
    using less_cases(3)[OF r] unfolding v m
    by (elim disjE) (simp_all add: defs Let_def rotate_drop_take add_ac)
qed simp

lemma sha512_calls_rounds: "sha512_calls W = map (\<lambda>t. sha512_call (t mod 8) (sha512_K ! t, W ! t)) [0..<80]"
  by (simp add: sha512_calls_def sha512_call_def sha512_K_def upt_values flip: numeral_2_eq_2)

lemma sha512_schedule_W: "length (sha512_schedule inp) = 80 \<and>
    (\<forall>t < 80. sha512_schedule inp ! t = sha2_W (\<lambda>x. sha512_sigma x 1 8 7) (\<lambda>x. sha512_sigma x 19 61 6) (load_be_u64 inp) t)"
  using sha2_schedule[of "replicate 80 0" 80 "\<lambda>x. sha512_sigma x 19 61 6" "\<lambda>x. sha512_sigma x 1 8 7" "load_be_u64 inp"]
  by (simp add: Let_def sha512_schedule_def)

theorem sha512_block_standard:
  assumes "length d = 8"
  shows "sha512_block inp d = sha512_standard (load_be_u64 inp) d"
proof -
  let ?W = "sha2_W (\<lambda>x. sha512_sigma x 1 8 7) (\<lambda>x. sha512_sigma x 19 61 6) (load_be_u64 inp)"
  have "run_calls (sha512_calls (sha512_schedule inp)) d = fold (\<lambda>t. sha512_step (sha512_K ! t, sha512_schedule inp ! t)) [0..<80] d"
    unfolding sha512_calls_rounds using assms by (intro sha512_rounds.textbook) simp_all
  also have "\<dots> = fold (\<lambda>t. sha512_step (sha512_K ! t, ?W t)) [0..<80] d"
    using sha512_schedule_W[of inp] by (intro fold_cong) simp_all
  finally show ?thesis
    by (simp only: sha512_block_def add_digest_def sha512_standard_def sha512_sigma_def sha512_rho_def Let_def)
qed

lemma sha512_block_prefix: "length a = 128 \<Longrightarrow> sha512_block (a @ b) d = sha512_block a d"
proof -
  assume "length a = 128"
  then have "load_be_u64 (a @ b) t = load_be_u64 a t" if "t < 16" for t using that by (simp add: load_prefix)
  then have "sha512_schedule (a @ b) = sha512_schedule a"
    using sha512_schedule_W[of "a @ b"] sha512_schedule_W[of a]
      sha2_W_cong[of "load_be_u64 (a @ b)" "load_be_u64 a" "\<lambda>x. sha512_sigma x 1 8 7" "\<lambda>x. sha512_sigma x 19 61 6"]
    by (intro nth_equalityI) simp_all
  then show ?thesis by (simp add: sha512_block_def)
qed

lemma sha512_ok: "mdx_ok SHA_384" "mdx_ok SHA_512"
  by (rule mdx_okI[where f = sha512_block], simp_all add: SHA_384_def sha512_block_prefix length_copy_out)
    (rule mdx_okI[where f = sha512_block], simp_all add: SHA_512_def sha512_block_prefix length_copy_out)

interpretation sha_384: clearing_hash "mdx_hash SHA_384" "mdx_absorbed SHA_384" "md_digest SHA_384"
  by (rule mdx_hash_ok[OF sha512_ok(1)])

interpretation sha_512: clearing_hash "mdx_hash SHA_512" "mdx_absorbed SHA_512" "md_digest SHA_512"
  by (rule mdx_hash_ok[OF sha512_ok(2)])

end
