(* ===== verification/RIPEMD.thy ===== *)
theory RIPEMD
  imports MD4_MD5
begin

text \<open>
  RIPEMD-128 and RIPEMD-160 (\<open>src/hash/rmd128/rmd128.cpp\<close>, \<open>src/hash/rmd160/rmd160.cpp\<close>). The variables of the two
  lines, \<open>A1\<close>, \<open>A2\<close> and so on, are the registers of one list, those of the second line behind those of the first;
  the calls are interleaved as in the source.
\<close>

section \<open>RIPEMD-128\<close>

definition rmd128_F1 :: "nat \<Rightarrow> nat \<Rightarrow> nat \<Rightarrow> nat \<Rightarrow> u32bit \<Rightarrow> nat \<Rightarrow> u32bit list \<Rightarrow> u32bit list" where
  "rmd128_F1 A B C D msg shift v =
     (let v = v[A := v ! A + ((v ! B XOR v ! C XOR v ! D) + msg)]
      in v[A := rotate_left (v ! A) shift])"

definition rmd128_F2 :: "nat \<Rightarrow> nat \<Rightarrow> nat \<Rightarrow> nat \<Rightarrow> u32bit \<Rightarrow> nat \<Rightarrow> u32bit \<Rightarrow> u32bit list \<Rightarrow> u32bit list" where
  "rmd128_F2 A B C D msg shift magic v =
     (let v = v[A := v ! A + ((v ! D XOR (v ! B AND (v ! C XOR v ! D))) + msg + magic)]
      in v[A := rotate_left (v ! A) shift])"

definition rmd128_F3 :: "nat \<Rightarrow> nat \<Rightarrow> nat \<Rightarrow> nat \<Rightarrow> u32bit \<Rightarrow> nat \<Rightarrow> u32bit \<Rightarrow> u32bit list \<Rightarrow> u32bit list" where
  "rmd128_F3 A B C D msg shift magic v =
     (let v = v[A := v ! A + ((v ! D XOR (v ! B OR NOT (v ! C))) + msg + magic)]
      in v[A := rotate_left (v ! A) shift])"

definition rmd128_F4 :: "nat \<Rightarrow> nat \<Rightarrow> nat \<Rightarrow> nat \<Rightarrow> u32bit \<Rightarrow> nat \<Rightarrow> u32bit \<Rightarrow> u32bit list \<Rightarrow> u32bit list" where
  "rmd128_F4 A B C D msg shift magic v =
     (let v = v[A := v ! A + ((v ! C XOR (v ! D AND (v ! B XOR v ! C))) + msg + magic)]
      in v[A := rotate_left (v ! A) shift])"

definition rmd128_calls :: "u32bit list \<Rightarrow> (u32bit list \<Rightarrow> u32bit list) list" where
  "rmd128_calls M =
     (let MAGIC2 = 0x5A827999; MAGIC3 = 0x6ED9EBA1; MAGIC4 = 0x8F1BBCDC; MAGIC5 = 0x50A28BE6;
          MAGIC6 = 0x5C4DD124; MAGIC7 = 0x6D703EF3
      in [rmd128_F1 rA rB rC rD (M ! 0) 11, rmd128_F4 (4 + rA) (4 + rB) (4 + rC) (4 + rD) (M ! 5) 8 MAGIC5,
          rmd128_F1 rD rA rB rC (M ! 1) 14, rmd128_F4 (4 + rD) (4 + rA) (4 + rB) (4 + rC) (M ! 14) 9 MAGIC5,
          rmd128_F1 rC rD rA rB (M ! 2) 15, rmd128_F4 (4 + rC) (4 + rD) (4 + rA) (4 + rB) (M ! 7) 9 MAGIC5,
          rmd128_F1 rB rC rD rA (M ! 3) 12, rmd128_F4 (4 + rB) (4 + rC) (4 + rD) (4 + rA) (M ! 0) 11 MAGIC5,
          rmd128_F1 rA rB rC rD (M ! 4) 5, rmd128_F4 (4 + rA) (4 + rB) (4 + rC) (4 + rD) (M ! 9) 13 MAGIC5,
          rmd128_F1 rD rA rB rC (M ! 5) 8, rmd128_F4 (4 + rD) (4 + rA) (4 + rB) (4 + rC) (M ! 2) 15 MAGIC5,
          rmd128_F1 rC rD rA rB (M ! 6) 7, rmd128_F4 (4 + rC) (4 + rD) (4 + rA) (4 + rB) (M ! 11) 15 MAGIC5,
          rmd128_F1 rB rC rD rA (M ! 7) 9, rmd128_F4 (4 + rB) (4 + rC) (4 + rD) (4 + rA) (M ! 4) 5 MAGIC5,
          rmd128_F1 rA rB rC rD (M ! 8) 11, rmd128_F4 (4 + rA) (4 + rB) (4 + rC) (4 + rD) (M ! 13) 7 MAGIC5,
          rmd128_F1 rD rA rB rC (M ! 9) 13, rmd128_F4 (4 + rD) (4 + rA) (4 + rB) (4 + rC) (M ! 6) 7 MAGIC5,
          rmd128_F1 rC rD rA rB (M ! 10) 14, rmd128_F4 (4 + rC) (4 + rD) (4 + rA) (4 + rB) (M ! 15) 8 MAGIC5,
          rmd128_F1 rB rC rD rA (M ! 11) 15, rmd128_F4 (4 + rB) (4 + rC) (4 + rD) (4 + rA) (M ! 8) 11 MAGIC5,
          rmd128_F1 rA rB rC rD (M ! 12) 6, rmd128_F4 (4 + rA) (4 + rB) (4 + rC) (4 + rD) (M ! 1) 14 MAGIC5,
          rmd128_F1 rD rA rB rC (M ! 13) 7, rmd128_F4 (4 + rD) (4 + rA) (4 + rB) (4 + rC) (M ! 10) 14 MAGIC5,
          rmd128_F1 rC rD rA rB (M ! 14) 9, rmd128_F4 (4 + rC) (4 + rD) (4 + rA) (4 + rB) (M ! 3) 12 MAGIC5,
          rmd128_F1 rB rC rD rA (M ! 15) 8, rmd128_F4 (4 + rB) (4 + rC) (4 + rD) (4 + rA) (M ! 12) 6 MAGIC5,
          rmd128_F2 rA rB rC rD (M ! 7) 7 MAGIC2, rmd128_F3 (4 + rA) (4 + rB) (4 + rC) (4 + rD) (M ! 6) 9 MAGIC6,
          rmd128_F2 rD rA rB rC (M ! 4) 6 MAGIC2, rmd128_F3 (4 + rD) (4 + rA) (4 + rB) (4 + rC) (M ! 11) 13 MAGIC6,
          rmd128_F2 rC rD rA rB (M ! 13) 8 MAGIC2, rmd128_F3 (4 + rC) (4 + rD) (4 + rA) (4 + rB) (M ! 3) 15 MAGIC6,
          rmd128_F2 rB rC rD rA (M ! 1) 13 MAGIC2, rmd128_F3 (4 + rB) (4 + rC) (4 + rD) (4 + rA) (M ! 7) 7 MAGIC6,
          rmd128_F2 rA rB rC rD (M ! 10) 11 MAGIC2, rmd128_F3 (4 + rA) (4 + rB) (4 + rC) (4 + rD) (M ! 0) 12 MAGIC6,
          rmd128_F2 rD rA rB rC (M ! 6) 9 MAGIC2, rmd128_F3 (4 + rD) (4 + rA) (4 + rB) (4 + rC) (M ! 13) 8 MAGIC6,
          rmd128_F2 rC rD rA rB (M ! 15) 7 MAGIC2, rmd128_F3 (4 + rC) (4 + rD) (4 + rA) (4 + rB) (M ! 5) 9 MAGIC6,
          rmd128_F2 rB rC rD rA (M ! 3) 15 MAGIC2, rmd128_F3 (4 + rB) (4 + rC) (4 + rD) (4 + rA) (M ! 10) 11 MAGIC6,
          rmd128_F2 rA rB rC rD (M ! 12) 7 MAGIC2, rmd128_F3 (4 + rA) (4 + rB) (4 + rC) (4 + rD) (M ! 14) 7 MAGIC6,
          rmd128_F2 rD rA rB rC (M ! 0) 12 MAGIC2, rmd128_F3 (4 + rD) (4 + rA) (4 + rB) (4 + rC) (M ! 15) 7 MAGIC6,
          rmd128_F2 rC rD rA rB (M ! 9) 15 MAGIC2, rmd128_F3 (4 + rC) (4 + rD) (4 + rA) (4 + rB) (M ! 8) 12 MAGIC6,
          rmd128_F2 rB rC rD rA (M ! 5) 9 MAGIC2, rmd128_F3 (4 + rB) (4 + rC) (4 + rD) (4 + rA) (M ! 12) 7 MAGIC6,
          rmd128_F2 rA rB rC rD (M ! 2) 11 MAGIC2, rmd128_F3 (4 + rA) (4 + rB) (4 + rC) (4 + rD) (M ! 4) 6 MAGIC6,
          rmd128_F2 rD rA rB rC (M ! 14) 7 MAGIC2, rmd128_F3 (4 + rD) (4 + rA) (4 + rB) (4 + rC) (M ! 9) 15 MAGIC6,
          rmd128_F2 rC rD rA rB (M ! 11) 13 MAGIC2, rmd128_F3 (4 + rC) (4 + rD) (4 + rA) (4 + rB) (M ! 1) 13 MAGIC6,
          rmd128_F2 rB rC rD rA (M ! 8) 12 MAGIC2, rmd128_F3 (4 + rB) (4 + rC) (4 + rD) (4 + rA) (M ! 2) 11 MAGIC6,
          rmd128_F3 rA rB rC rD (M ! 3) 11 MAGIC3, rmd128_F2 (4 + rA) (4 + rB) (4 + rC) (4 + rD) (M ! 15) 9 MAGIC7,
          rmd128_F3 rD rA rB rC (M ! 10) 13 MAGIC3, rmd128_F2 (4 + rD) (4 + rA) (4 + rB) (4 + rC) (M ! 5) 7 MAGIC7,
          rmd128_F3 rC rD rA rB (M ! 14) 6 MAGIC3, rmd128_F2 (4 + rC) (4 + rD) (4 + rA) (4 + rB) (M ! 1) 15 MAGIC7,
          rmd128_F3 rB rC rD rA (M ! 4) 7 MAGIC3, rmd128_F2 (4 + rB) (4 + rC) (4 + rD) (4 + rA) (M ! 3) 11 MAGIC7,
          rmd128_F3 rA rB rC rD (M ! 9) 14 MAGIC3, rmd128_F2 (4 + rA) (4 + rB) (4 + rC) (4 + rD) (M ! 7) 8 MAGIC7,
          rmd128_F3 rD rA rB rC (M ! 15) 9 MAGIC3, rmd128_F2 (4 + rD) (4 + rA) (4 + rB) (4 + rC) (M ! 14) 6 MAGIC7,
          rmd128_F3 rC rD rA rB (M ! 8) 13 MAGIC3, rmd128_F2 (4 + rC) (4 + rD) (4 + rA) (4 + rB) (M ! 6) 6 MAGIC7,
          rmd128_F3 rB rC rD rA (M ! 1) 15 MAGIC3, rmd128_F2 (4 + rB) (4 + rC) (4 + rD) (4 + rA) (M ! 9) 14 MAGIC7,
          rmd128_F3 rA rB rC rD (M ! 2) 14 MAGIC3, rmd128_F2 (4 + rA) (4 + rB) (4 + rC) (4 + rD) (M ! 11) 12 MAGIC7,
          rmd128_F3 rD rA rB rC (M ! 7) 8 MAGIC3, rmd128_F2 (4 + rD) (4 + rA) (4 + rB) (4 + rC) (M ! 8) 13 MAGIC7,
          rmd128_F3 rC rD rA rB (M ! 0) 13 MAGIC3, rmd128_F2 (4 + rC) (4 + rD) (4 + rA) (4 + rB) (M ! 12) 5 MAGIC7,
          rmd128_F3 rB rC rD rA (M ! 6) 6 MAGIC3, rmd128_F2 (4 + rB) (4 + rC) (4 + rD) (4 + rA) (M ! 2) 14 MAGIC7,
          rmd128_F3 rA rB rC rD (M ! 13) 5 MAGIC3, rmd128_F2 (4 + rA) (4 + rB) (4 + rC) (4 + rD) (M ! 10) 13 MAGIC7,
          rmd128_F3 rD rA rB rC (M ! 11) 12 MAGIC3, rmd128_F2 (4 + rD) (4 + rA) (4 + rB) (4 + rC) (M ! 0) 13 MAGIC7,
          rmd128_F3 rC rD rA rB (M ! 5) 7 MAGIC3, rmd128_F2 (4 + rC) (4 + rD) (4 + rA) (4 + rB) (M ! 4) 7 MAGIC7,
          rmd128_F3 rB rC rD rA (M ! 12) 5 MAGIC3, rmd128_F2 (4 + rB) (4 + rC) (4 + rD) (4 + rA) (M ! 13) 5 MAGIC7,
          rmd128_F4 rA rB rC rD (M ! 1) 11 MAGIC4, rmd128_F1 (4 + rA) (4 + rB) (4 + rC) (4 + rD) (M ! 8) 15,
          rmd128_F4 rD rA rB rC (M ! 9) 12 MAGIC4, rmd128_F1 (4 + rD) (4 + rA) (4 + rB) (4 + rC) (M ! 6) 5,
          rmd128_F4 rC rD rA rB (M ! 11) 14 MAGIC4, rmd128_F1 (4 + rC) (4 + rD) (4 + rA) (4 + rB) (M ! 4) 8,
          rmd128_F4 rB rC rD rA (M ! 10) 15 MAGIC4, rmd128_F1 (4 + rB) (4 + rC) (4 + rD) (4 + rA) (M ! 1) 11,
          rmd128_F4 rA rB rC rD (M ! 0) 14 MAGIC4, rmd128_F1 (4 + rA) (4 + rB) (4 + rC) (4 + rD) (M ! 3) 14,
          rmd128_F4 rD rA rB rC (M ! 8) 15 MAGIC4, rmd128_F1 (4 + rD) (4 + rA) (4 + rB) (4 + rC) (M ! 11) 14,
          rmd128_F4 rC rD rA rB (M ! 12) 9 MAGIC4, rmd128_F1 (4 + rC) (4 + rD) (4 + rA) (4 + rB) (M ! 15) 6,
          rmd128_F4 rB rC rD rA (M ! 4) 8 MAGIC4, rmd128_F1 (4 + rB) (4 + rC) (4 + rD) (4 + rA) (M ! 0) 14,
          rmd128_F4 rA rB rC rD (M ! 13) 9 MAGIC4, rmd128_F1 (4 + rA) (4 + rB) (4 + rC) (4 + rD) (M ! 5) 6,
          rmd128_F4 rD rA rB rC (M ! 3) 14 MAGIC4, rmd128_F1 (4 + rD) (4 + rA) (4 + rB) (4 + rC) (M ! 12) 9,
          rmd128_F4 rC rD rA rB (M ! 7) 5 MAGIC4, rmd128_F1 (4 + rC) (4 + rD) (4 + rA) (4 + rB) (M ! 2) 12,
          rmd128_F4 rB rC rD rA (M ! 15) 6 MAGIC4, rmd128_F1 (4 + rB) (4 + rC) (4 + rD) (4 + rA) (M ! 13) 9,
          rmd128_F4 rA rB rC rD (M ! 14) 8 MAGIC4, rmd128_F1 (4 + rA) (4 + rB) (4 + rC) (4 + rD) (M ! 9) 12,
          rmd128_F4 rD rA rB rC (M ! 5) 6 MAGIC4, rmd128_F1 (4 + rD) (4 + rA) (4 + rB) (4 + rC) (M ! 7) 5,
          rmd128_F4 rC rD rA rB (M ! 6) 5 MAGIC4, rmd128_F1 (4 + rC) (4 + rD) (4 + rA) (4 + rB) (M ! 10) 15,
          rmd128_F4 rB rC rD rA (M ! 2) 12 MAGIC4, rmd128_F1 (4 + rB) (4 + rC) (4 + rD) (4 + rA) (M ! 14) 8])"

definition rmd128_block :: "byte list \<Rightarrow> u32bit list \<Rightarrow> u32bit list" where
  "rmd128_block inp d =
     (let v = run_calls (rmd128_calls (load_words_le inp)) (take 4 d @ take 4 d);
          D2 = d ! 1 + v ! rC + v ! (4 + rD);
          d = d[1 := d ! 2 + v ! rD + v ! (4 + rA)];
          d = d[2 := d ! 3 + v ! rA + v ! (4 + rB)];
          d = d[3 := d ! 0 + v ! rB + v ! (4 + rC)]
      in d[0 := D2])"

definition RIPEMD_128 :: "u32bit list MDx_HashFunction" where
  "RIPEMD_128 =
     \<lparr>mdx_name = ''RIPEMD-128'', mdx_output = 16, mdx_block = 64, BIG_BYTE_ENDIAN = False, BIG_BIT_ENDIAN = True,
      COUNT_SIZE = 8, compress_n = compress_blocks 64 rmd128_block, copy_out = copy_out_le32 16,
      initial = [0x67452301, 0xEFCDAB89, 0x98BADCFE, 0x10325476]\<rparr>"

lemma RIPEMD_128_ok: "mdx_ok RIPEMD_128"
  by (rule mdx_okI[where f = rmd128_block]) (simp_all add: RIPEMD_128_def rmd128_block_def load_words_le_prefix length_copy_out)

interpretation ripemd_128: clearing_hash "mdx_hash RIPEMD_128" "mdx_absorbed RIPEMD_128" "md_digest RIPEMD_128"
  by (rule mdx_hash_ok[OF RIPEMD_128_ok])

section \<open>RIPEMD-160\<close>

definition rmd160_F1 :: "nat \<Rightarrow> nat \<Rightarrow> nat \<Rightarrow> nat \<Rightarrow> nat \<Rightarrow> u32bit \<Rightarrow> nat \<Rightarrow> u32bit list \<Rightarrow> u32bit list" where
  "rmd160_F1 A B C D E msg shift v =
     (let v = v[A := v ! A + ((v ! B XOR v ! C XOR v ! D) + msg)];
          v = v[A := rotate_left (v ! A) shift + v ! E]
      in v[C := rotate_left (v ! C) 10])"

definition rmd160_F2 :: "nat \<Rightarrow> nat \<Rightarrow> nat \<Rightarrow> nat \<Rightarrow> nat \<Rightarrow> u32bit \<Rightarrow> nat \<Rightarrow> u32bit \<Rightarrow> u32bit list \<Rightarrow> u32bit list" where
  "rmd160_F2 A B C D E msg shift magic v =
     (let v = v[A := v ! A + ((v ! D XOR (v ! B AND (v ! C XOR v ! D))) + msg + magic)];
          v = v[A := rotate_left (v ! A) shift + v ! E]
      in v[C := rotate_left (v ! C) 10])"

definition rmd160_F3 :: "nat \<Rightarrow> nat \<Rightarrow> nat \<Rightarrow> nat \<Rightarrow> nat \<Rightarrow> u32bit \<Rightarrow> nat \<Rightarrow> u32bit \<Rightarrow> u32bit list \<Rightarrow> u32bit list" where
  "rmd160_F3 A B C D E msg shift magic v =
     (let v = v[A := v ! A + ((v ! D XOR (v ! B OR NOT (v ! C))) + msg + magic)];
          v = v[A := rotate_left (v ! A) shift + v ! E]
      in v[C := rotate_left (v ! C) 10])"

definition rmd160_F4 :: "nat \<Rightarrow> nat \<Rightarrow> nat \<Rightarrow> nat \<Rightarrow> nat \<Rightarrow> u32bit \<Rightarrow> nat \<Rightarrow> u32bit \<Rightarrow> u32bit list \<Rightarrow> u32bit list" where
  "rmd160_F4 A B C D E msg shift magic v =
     (let v = v[A := v ! A + ((v ! C XOR (v ! D AND (v ! B XOR v ! C))) + msg + magic)];
          v = v[A := rotate_left (v ! A) shift + v ! E]
      in v[C := rotate_left (v ! C) 10])"

definition rmd160_F5 :: "nat \<Rightarrow> nat \<Rightarrow> nat \<Rightarrow> nat \<Rightarrow> nat \<Rightarrow> u32bit \<Rightarrow> nat \<Rightarrow> u32bit \<Rightarrow> u32bit list \<Rightarrow> u32bit list" where
  "rmd160_F5 A B C D E msg shift magic v =
     (let v = v[A := v ! A + ((v ! B XOR (v ! C OR NOT (v ! D))) + msg + magic)];
          v = v[A := rotate_left (v ! A) shift + v ! E]
      in v[C := rotate_left (v ! C) 10])"

definition rmd160_calls :: "u32bit list \<Rightarrow> (u32bit list \<Rightarrow> u32bit list) list" where
  "rmd160_calls M =
     (let MAGIC2 = 0x5A827999; MAGIC3 = 0x6ED9EBA1; MAGIC4 = 0x8F1BBCDC; MAGIC5 = 0xA953FD4E;
          MAGIC6 = 0x50A28BE6; MAGIC7 = 0x5C4DD124; MAGIC8 = 0x6D703EF3; MAGIC9 = 0x7A6D76E9
      in [rmd160_F1 rA rB rC rD rE (M ! 0) 11, rmd160_F5 (5 + rA) (5 + rB) (5 + rC) (5 + rD) (5 + rE) (M ! 5) 8 MAGIC6,
          rmd160_F1 rE rA rB rC rD (M ! 1) 14, rmd160_F5 (5 + rE) (5 + rA) (5 + rB) (5 + rC) (5 + rD) (M ! 14) 9 MAGIC6,
          rmd160_F1 rD rE rA rB rC (M ! 2) 15, rmd160_F5 (5 + rD) (5 + rE) (5 + rA) (5 + rB) (5 + rC) (M ! 7) 9 MAGIC6,
          rmd160_F1 rC rD rE rA rB (M ! 3) 12, rmd160_F5 (5 + rC) (5 + rD) (5 + rE) (5 + rA) (5 + rB) (M ! 0) 11 MAGIC6,
          rmd160_F1 rB rC rD rE rA (M ! 4) 5, rmd160_F5 (5 + rB) (5 + rC) (5 + rD) (5 + rE) (5 + rA) (M ! 9) 13 MAGIC6,
          rmd160_F1 rA rB rC rD rE (M ! 5) 8, rmd160_F5 (5 + rA) (5 + rB) (5 + rC) (5 + rD) (5 + rE) (M ! 2) 15 MAGIC6,
          rmd160_F1 rE rA rB rC rD (M ! 6) 7, rmd160_F5 (5 + rE) (5 + rA) (5 + rB) (5 + rC) (5 + rD) (M ! 11) 15 MAGIC6,
          rmd160_F1 rD rE rA rB rC (M ! 7) 9, rmd160_F5 (5 + rD) (5 + rE) (5 + rA) (5 + rB) (5 + rC) (M ! 4) 5 MAGIC6,
          rmd160_F1 rC rD rE rA rB (M ! 8) 11, rmd160_F5 (5 + rC) (5 + rD) (5 + rE) (5 + rA) (5 + rB) (M ! 13) 7 MAGIC6,
          rmd160_F1 rB rC rD rE rA (M ! 9) 13, rmd160_F5 (5 + rB) (5 + rC) (5 + rD) (5 + rE) (5 + rA) (M ! 6) 7 MAGIC6,
          rmd160_F1 rA rB rC rD rE (M ! 10) 14, rmd160_F5 (5 + rA) (5 + rB) (5 + rC) (5 + rD) (5 + rE) (M ! 15) 8 MAGIC6,
          rmd160_F1 rE rA rB rC rD (M ! 11) 15, rmd160_F5 (5 + rE) (5 + rA) (5 + rB) (5 + rC) (5 + rD) (M ! 8) 11 MAGIC6,
          rmd160_F1 rD rE rA rB rC (M ! 12) 6, rmd160_F5 (5 + rD) (5 + rE) (5 + rA) (5 + rB) (5 + rC) (M ! 1) 14 MAGIC6,
          rmd160_F1 rC rD rE rA rB (M ! 13) 7, rmd160_F5 (5 + rC) (5 + rD) (5 + rE) (5 + rA) (5 + rB) (M ! 10) 14 MAGIC6,
          rmd160_F1 rB rC rD rE rA (M ! 14) 9, rmd160_F5 (5 + rB) (5 + rC) (5 + rD) (5 + rE) (5 + rA) (M ! 3) 12 MAGIC6,
          rmd160_F1 rA rB rC rD rE (M ! 15) 8, rmd160_F5 (5 + rA) (5 + rB) (5 + rC) (5 + rD) (5 + rE) (M ! 12) 6 MAGIC6,
          rmd160_F2 rE rA rB rC rD (M ! 7) 7 MAGIC2, rmd160_F4 (5 + rE) (5 + rA) (5 + rB) (5 + rC) (5 + rD) (M ! 6) 9 MAGIC7,
          rmd160_F2 rD rE rA rB rC (M ! 4) 6 MAGIC2, rmd160_F4 (5 + rD) (5 + rE) (5 + rA) (5 + rB) (5 + rC) (M ! 11) 13 MAGIC7,
          rmd160_F2 rC rD rE rA rB (M ! 13) 8 MAGIC2, rmd160_F4 (5 + rC) (5 + rD) (5 + rE) (5 + rA) (5 + rB) (M ! 3) 15 MAGIC7,
          rmd160_F2 rB rC rD rE rA (M ! 1) 13 MAGIC2, rmd160_F4 (5 + rB) (5 + rC) (5 + rD) (5 + rE) (5 + rA) (M ! 7) 7 MAGIC7,
          rmd160_F2 rA rB rC rD rE (M ! 10) 11 MAGIC2, rmd160_F4 (5 + rA) (5 + rB) (5 + rC) (5 + rD) (5 + rE) (M ! 0) 12 MAGIC7,
          rmd160_F2 rE rA rB rC rD (M ! 6) 9 MAGIC2, rmd160_F4 (5 + rE) (5 + rA) (5 + rB) (5 + rC) (5 + rD) (M ! 13) 8 MAGIC7,
          rmd160_F2 rD rE rA rB rC (M ! 15) 7 MAGIC2, rmd160_F4 (5 + rD) (5 + rE) (5 + rA) (5 + rB) (5 + rC) (M ! 5) 9 MAGIC7,
          rmd160_F2 rC rD rE rA rB (M ! 3) 15 MAGIC2, rmd160_F4 (5 + rC) (5 + rD) (5 + rE) (5 + rA) (5 + rB) (M ! 10) 11 MAGIC7,
          rmd160_F2 rB rC rD rE rA (M ! 12) 7 MAGIC2, rmd160_F4 (5 + rB) (5 + rC) (5 + rD) (5 + rE) (5 + rA) (M ! 14) 7 MAGIC7,
          rmd160_F2 rA rB rC rD rE (M ! 0) 12 MAGIC2, rmd160_F4 (5 + rA) (5 + rB) (5 + rC) (5 + rD) (5 + rE) (M ! 15) 7 MAGIC7,
          rmd160_F2 rE rA rB rC rD (M ! 9) 15 MAGIC2, rmd160_F4 (5 + rE) (5 + rA) (5 + rB) (5 + rC) (5 + rD) (M ! 8) 12 MAGIC7,
          rmd160_F2 rD rE rA rB rC (M ! 5) 9 MAGIC2, rmd160_F4 (5 + rD) (5 + rE) (5 + rA) (5 + rB) (5 + rC) (M ! 12) 7 MAGIC7,
          rmd160_F2 rC rD rE rA rB (M ! 2) 11 MAGIC2, rmd160_F4 (5 + rC) (5 + rD) (5 + rE) (5 + rA) (5 + rB) (M ! 4) 6 MAGIC7,
          rmd160_F2 rB rC rD rE rA (M ! 14) 7 MAGIC2, rmd160_F4 (5 + rB) (5 + rC) (5 + rD) (5 + rE) (5 + rA) (M ! 9) 15 MAGIC7,
          rmd160_F2 rA rB rC rD rE (M ! 11) 13 MAGIC2, rmd160_F4 (5 + rA) (5 + rB) (5 + rC) (5 + rD) (5 + rE) (M ! 1) 13 MAGIC7,
          rmd160_F2 rE rA rB rC rD (M ! 8) 12 MAGIC2, rmd160_F4 (5 + rE) (5 + rA) (5 + rB) (5 + rC) (5 + rD) (M ! 2) 11 MAGIC7,
          rmd160_F3 rD rE rA rB rC (M ! 3) 11 MAGIC3, rmd160_F3 (5 + rD) (5 + rE) (5 + rA) (5 + rB) (5 + rC) (M ! 15) 9 MAGIC8,
          rmd160_F3 rC rD rE rA rB (M ! 10) 13 MAGIC3, rmd160_F3 (5 + rC) (5 + rD) (5 + rE) (5 + rA) (5 + rB) (M ! 5) 7 MAGIC8,
          rmd160_F3 rB rC rD rE rA (M ! 14) 6 MAGIC3, rmd160_F3 (5 + rB) (5 + rC) (5 + rD) (5 + rE) (5 + rA) (M ! 1) 15 MAGIC8,
          rmd160_F3 rA rB rC rD rE (M ! 4) 7 MAGIC3, rmd160_F3 (5 + rA) (5 + rB) (5 + rC) (5 + rD) (5 + rE) (M ! 3) 11 MAGIC8,
          rmd160_F3 rE rA rB rC rD (M ! 9) 14 MAGIC3, rmd160_F3 (5 + rE) (5 + rA) (5 + rB) (5 + rC) (5 + rD) (M ! 7) 8 MAGIC8,
          rmd160_F3 rD rE rA rB rC (M ! 15) 9 MAGIC3, rmd160_F3 (5 + rD) (5 + rE) (5 + rA) (5 + rB) (5 + rC) (M ! 14) 6 MAGIC8,
          rmd160_F3 rC rD rE rA rB (M ! 8) 13 MAGIC3, rmd160_F3 (5 + rC) (5 + rD) (5 + rE) (5 + rA) (5 + rB) (M ! 6) 6 MAGIC8,
          rmd160_F3 rB rC rD rE rA (M ! 1) 15 MAGIC3, rmd160_F3 (5 + rB) (5 + rC) (5 + rD) (5 + rE) (5 + rA) (M ! 9) 14 MAGIC8,
          rmd160_F3 rA rB rC rD rE (M ! 2) 14 MAGIC3, rmd160_F3 (5 + rA) (5 + rB) (5 + rC) (5 + rD) (5 + rE) (M ! 11) 12 MAGIC8,
          rmd160_F3 rE rA rB rC rD (M ! 7) 8 MAGIC3, rmd160_F3 (5 + rE) (5 + rA) (5 + rB) (5 + rC) (5 + rD) (M ! 8) 13 MAGIC8,
          rmd160_F3 rD rE rA rB rC (M ! 0) 13 MAGIC3, rmd160_F3 (5 + rD) (5 + rE) (5 + rA) (5 + rB) (5 + rC) (M ! 12) 5 MAGIC8,
          rmd160_F3 rC rD rE rA rB (M ! 6) 6 MAGIC3, rmd160_F3 (5 + rC) (5 + rD) (5 + rE) (5 + rA) (5 + rB) (M ! 2) 14 MAGIC8,
          rmd160_F3 rB rC rD rE rA (M ! 13) 5 MAGIC3, rmd160_F3 (5 + rB) (5 + rC) (5 + rD) (5 + rE) (5 + rA) (M ! 10) 13 MAGIC8,
          rmd160_F3 rA rB rC rD rE (M ! 11) 12 MAGIC3, rmd160_F3 (5 + rA) (5 + rB) (5 + rC) (5 + rD) (5 + rE) (M ! 0) 13 MAGIC8,
          rmd160_F3 rE rA rB rC rD (M ! 5) 7 MAGIC3, rmd160_F3 (5 + rE) (5 + rA) (5 + rB) (5 + rC) (5 + rD) (M ! 4) 7 MAGIC8,
          rmd160_F3 rD rE rA rB rC (M ! 12) 5 MAGIC3, rmd160_F3 (5 + rD) (5 + rE) (5 + rA) (5 + rB) (5 + rC) (M ! 13) 5 MAGIC8,
          rmd160_F4 rC rD rE rA rB (M ! 1) 11 MAGIC4, rmd160_F2 (5 + rC) (5 + rD) (5 + rE) (5 + rA) (5 + rB) (M ! 8) 15 MAGIC9,
          rmd160_F4 rB rC rD rE rA (M ! 9) 12 MAGIC4, rmd160_F2 (5 + rB) (5 + rC) (5 + rD) (5 + rE) (5 + rA) (M ! 6) 5 MAGIC9,
          rmd160_F4 rA rB rC rD rE (M ! 11) 14 MAGIC4, rmd160_F2 (5 + rA) (5 + rB) (5 + rC) (5 + rD) (5 + rE) (M ! 4) 8 MAGIC9,
          rmd160_F4 rE rA rB rC rD (M ! 10) 15 MAGIC4, rmd160_F2 (5 + rE) (5 + rA) (5 + rB) (5 + rC) (5 + rD) (M ! 1) 11 MAGIC9,
          rmd160_F4 rD rE rA rB rC (M ! 0) 14 MAGIC4, rmd160_F2 (5 + rD) (5 + rE) (5 + rA) (5 + rB) (5 + rC) (M ! 3) 14 MAGIC9,
          rmd160_F4 rC rD rE rA rB (M ! 8) 15 MAGIC4, rmd160_F2 (5 + rC) (5 + rD) (5 + rE) (5 + rA) (5 + rB) (M ! 11) 14 MAGIC9,
          rmd160_F4 rB rC rD rE rA (M ! 12) 9 MAGIC4, rmd160_F2 (5 + rB) (5 + rC) (5 + rD) (5 + rE) (5 + rA) (M ! 15) 6 MAGIC9,
          rmd160_F4 rA rB rC rD rE (M ! 4) 8 MAGIC4, rmd160_F2 (5 + rA) (5 + rB) (5 + rC) (5 + rD) (5 + rE) (M ! 0) 14 MAGIC9,
          rmd160_F4 rE rA rB rC rD (M ! 13) 9 MAGIC4, rmd160_F2 (5 + rE) (5 + rA) (5 + rB) (5 + rC) (5 + rD) (M ! 5) 6 MAGIC9,
          rmd160_F4 rD rE rA rB rC (M ! 3) 14 MAGIC4, rmd160_F2 (5 + rD) (5 + rE) (5 + rA) (5 + rB) (5 + rC) (M ! 12) 9 MAGIC9,
          rmd160_F4 rC rD rE rA rB (M ! 7) 5 MAGIC4, rmd160_F2 (5 + rC) (5 + rD) (5 + rE) (5 + rA) (5 + rB) (M ! 2) 12 MAGIC9,
          rmd160_F4 rB rC rD rE rA (M ! 15) 6 MAGIC4, rmd160_F2 (5 + rB) (5 + rC) (5 + rD) (5 + rE) (5 + rA) (M ! 13) 9 MAGIC9,
          rmd160_F4 rA rB rC rD rE (M ! 14) 8 MAGIC4, rmd160_F2 (5 + rA) (5 + rB) (5 + rC) (5 + rD) (5 + rE) (M ! 9) 12 MAGIC9,
          rmd160_F4 rE rA rB rC rD (M ! 5) 6 MAGIC4, rmd160_F2 (5 + rE) (5 + rA) (5 + rB) (5 + rC) (5 + rD) (M ! 7) 5 MAGIC9,
          rmd160_F4 rD rE rA rB rC (M ! 6) 5 MAGIC4, rmd160_F2 (5 + rD) (5 + rE) (5 + rA) (5 + rB) (5 + rC) (M ! 10) 15 MAGIC9,
          rmd160_F4 rC rD rE rA rB (M ! 2) 12 MAGIC4, rmd160_F2 (5 + rC) (5 + rD) (5 + rE) (5 + rA) (5 + rB) (M ! 14) 8 MAGIC9,
          rmd160_F5 rB rC rD rE rA (M ! 4) 9 MAGIC5, rmd160_F1 (5 + rB) (5 + rC) (5 + rD) (5 + rE) (5 + rA) (M ! 12) 8,
          rmd160_F5 rA rB rC rD rE (M ! 0) 15 MAGIC5, rmd160_F1 (5 + rA) (5 + rB) (5 + rC) (5 + rD) (5 + rE) (M ! 15) 5,
          rmd160_F5 rE rA rB rC rD (M ! 5) 5 MAGIC5, rmd160_F1 (5 + rE) (5 + rA) (5 + rB) (5 + rC) (5 + rD) (M ! 10) 12,
          rmd160_F5 rD rE rA rB rC (M ! 9) 11 MAGIC5, rmd160_F1 (5 + rD) (5 + rE) (5 + rA) (5 + rB) (5 + rC) (M ! 4) 9,
          rmd160_F5 rC rD rE rA rB (M ! 7) 6 MAGIC5, rmd160_F1 (5 + rC) (5 + rD) (5 + rE) (5 + rA) (5 + rB) (M ! 1) 12,
          rmd160_F5 rB rC rD rE rA (M ! 12) 8 MAGIC5, rmd160_F1 (5 + rB) (5 + rC) (5 + rD) (5 + rE) (5 + rA) (M ! 5) 5,
          rmd160_F5 rA rB rC rD rE (M ! 2) 13 MAGIC5, rmd160_F1 (5 + rA) (5 + rB) (5 + rC) (5 + rD) (5 + rE) (M ! 8) 14,
          rmd160_F5 rE rA rB rC rD (M ! 10) 12 MAGIC5, rmd160_F1 (5 + rE) (5 + rA) (5 + rB) (5 + rC) (5 + rD) (M ! 7) 6,
          rmd160_F5 rD rE rA rB rC (M ! 14) 5 MAGIC5, rmd160_F1 (5 + rD) (5 + rE) (5 + rA) (5 + rB) (5 + rC) (M ! 6) 8,
          rmd160_F5 rC rD rE rA rB (M ! 1) 12 MAGIC5, rmd160_F1 (5 + rC) (5 + rD) (5 + rE) (5 + rA) (5 + rB) (M ! 2) 13,
          rmd160_F5 rB rC rD rE rA (M ! 3) 13 MAGIC5, rmd160_F1 (5 + rB) (5 + rC) (5 + rD) (5 + rE) (5 + rA) (M ! 13) 6,
          rmd160_F5 rA rB rC rD rE (M ! 8) 14 MAGIC5, rmd160_F1 (5 + rA) (5 + rB) (5 + rC) (5 + rD) (5 + rE) (M ! 14) 5,
          rmd160_F5 rE rA rB rC rD (M ! 11) 11 MAGIC5, rmd160_F1 (5 + rE) (5 + rA) (5 + rB) (5 + rC) (5 + rD) (M ! 0) 15,
          rmd160_F5 rD rE rA rB rC (M ! 6) 8 MAGIC5, rmd160_F1 (5 + rD) (5 + rE) (5 + rA) (5 + rB) (5 + rC) (M ! 3) 13,
          rmd160_F5 rC rD rE rA rB (M ! 15) 5 MAGIC5, rmd160_F1 (5 + rC) (5 + rD) (5 + rE) (5 + rA) (5 + rB) (M ! 9) 11,
          rmd160_F5 rB rC rD rE rA (M ! 13) 6 MAGIC5, rmd160_F1 (5 + rB) (5 + rC) (5 + rD) (5 + rE) (5 + rA) (M ! 11) 11])"

definition rmd160_block :: "byte list \<Rightarrow> u32bit list \<Rightarrow> u32bit list" where
  "rmd160_block inp d =
     (let v = run_calls (rmd160_calls (load_words_le inp)) (take 5 d @ take 5 d);
          C1 = d ! 1 + v ! rC + v ! (5 + rD);
          d = d[1 := d ! 2 + v ! rD + v ! (5 + rE)];
          d = d[2 := d ! 3 + v ! rE + v ! (5 + rA)];
          d = d[3 := d ! 4 + v ! rA + v ! (5 + rB)];
          d = d[4 := d ! 0 + v ! rB + v ! (5 + rC)]
      in d[0 := C1])"

definition RIPEMD_160 :: "u32bit list MDx_HashFunction" where
  "RIPEMD_160 =
     \<lparr>mdx_name = ''RIPEMD-160'', mdx_output = 20, mdx_block = 64, BIG_BYTE_ENDIAN = False, BIG_BIT_ENDIAN = True,
      COUNT_SIZE = 8, compress_n = compress_blocks 64 rmd160_block, copy_out = copy_out_le32 20,
      initial = [0x67452301, 0xEFCDAB89, 0x98BADCFE, 0x10325476, 0xC3D2E1F0]\<rparr>"

lemma RIPEMD_160_ok: "mdx_ok RIPEMD_160"
  by (rule mdx_okI[where f = rmd160_block]) (simp_all add: RIPEMD_160_def rmd160_block_def load_words_le_prefix length_copy_out)

interpretation ripemd_160: clearing_hash "mdx_hash RIPEMD_160" "mdx_absorbed RIPEMD_160" "md_digest RIPEMD_160"
  by (rule mdx_hash_ok[OF RIPEMD_160_ok])

end
