(* ===== verification/HAS_FORK.thy ===== *)
theory HAS_FORK
  imports MD4_MD5
begin

text \<open>
  HAS-160 (\<open>src/hash/has160/has160.cpp\<close>) and FORK-256 (\<open>src/hash/fork256/fork256.cpp\<close>). The loop of
  \<open>HAS_160::compress_n\<close> does not move \<open>input\<close> on to the next block, so of several full blocks in one call of
  \<open>update\<close> only the first is read, once for each of them; the lemmas say what that does to the digest.
\<close>

section \<open>HAS-160\<close>

definition has160_F1 :: "nat \<Rightarrow> nat \<Rightarrow> nat \<Rightarrow> nat \<Rightarrow> nat \<Rightarrow> u32bit \<Rightarrow> nat \<Rightarrow> u32bit list \<Rightarrow> u32bit list" where
  "has160_F1 A B C D E msg rot v =
     (let v = v[E := v ! E + (rotate_left (v ! A) rot + (v ! D XOR (v ! B AND (v ! C XOR v ! D))) + msg)]
      in v[B := rotate_left (v ! B) 10])"

definition has160_F2 :: "nat \<Rightarrow> nat \<Rightarrow> nat \<Rightarrow> nat \<Rightarrow> nat \<Rightarrow> u32bit \<Rightarrow> nat \<Rightarrow> u32bit list \<Rightarrow> u32bit list" where
  "has160_F2 A B C D E msg rot v =
     (let v = v[E := v ! E + (rotate_left (v ! A) rot + (v ! B XOR v ! C XOR v ! D) + msg + 0x5A827999)]
      in v[B := rotate_left (v ! B) 17])"

definition has160_F3 :: "nat \<Rightarrow> nat \<Rightarrow> nat \<Rightarrow> nat \<Rightarrow> nat \<Rightarrow> u32bit \<Rightarrow> nat \<Rightarrow> u32bit list \<Rightarrow> u32bit list" where
  "has160_F3 A B C D E msg rot v =
     (let v = v[E := v ! E + (rotate_left (v ! A) rot + (v ! C XOR (v ! B OR NOT (v ! D))) + msg + 0x6ED9EBA1)]
      in v[B := rotate_left (v ! B) 25])"

definition has160_F4 :: "nat \<Rightarrow> nat \<Rightarrow> nat \<Rightarrow> nat \<Rightarrow> nat \<Rightarrow> u32bit \<Rightarrow> nat \<Rightarrow> u32bit list \<Rightarrow> u32bit list" where
  "has160_F4 A B C D E msg rot v =
     (let v = v[E := v ! E + (rotate_left (v ! A) rot + (v ! B XOR v ! C XOR v ! D) + msg + 0x8F1BBCDC)]
      in v[B := rotate_left (v ! B) 30])"

definition has160_calls :: "u32bit list \<Rightarrow> (u32bit list \<Rightarrow> u32bit list) list" where
  "has160_calls X =
     ((let X = X[16 := X ! 0 XOR X ! 1 XOR X ! 2 XOR X ! 3];
           X = X[17 := X ! 4 XOR X ! 5 XOR X ! 6 XOR X ! 7];
           X = X[18 := X ! 8 XOR X ! 9 XOR X ! 10 XOR X ! 11];
           X = X[19 := X ! 12 XOR X ! 13 XOR X ! 14 XOR X ! 15]
       in [has160_F1 rA rB rC rD rE (X ! 18) 5, has160_F1 rE rA rB rC rD (X ! 0) 11,
           has160_F1 rD rE rA rB rC (X ! 1) 7, has160_F1 rC rD rE rA rB (X ! 2) 15,
           has160_F1 rB rC rD rE rA (X ! 3) 6, has160_F1 rA rB rC rD rE (X ! 19) 13,
           has160_F1 rE rA rB rC rD (X ! 4) 8, has160_F1 rD rE rA rB rC (X ! 5) 14,
           has160_F1 rC rD rE rA rB (X ! 6) 7, has160_F1 rB rC rD rE rA (X ! 7) 12,
           has160_F1 rA rB rC rD rE (X ! 16) 9, has160_F1 rE rA rB rC rD (X ! 8) 11,
           has160_F1 rD rE rA rB rC (X ! 9) 8, has160_F1 rC rD rE rA rB (X ! 10) 15,
           has160_F1 rB rC rD rE rA (X ! 11) 6, has160_F1 rA rB rC rD rE (X ! 17) 12,
           has160_F1 rE rA rB rC rD (X ! 12) 9, has160_F1 rD rE rA rB rC (X ! 13) 14,
           has160_F1 rC rD rE rA rB (X ! 14) 5, has160_F1 rB rC rD rE rA (X ! 15) 13])
      @ (let X = X[16 := X ! 3 XOR X ! 6 XOR X ! 9 XOR X ! 12];
           X = X[17 := X ! 2 XOR X ! 5 XOR X ! 8 XOR X ! 15];
           X = X[18 := X ! 1 XOR X ! 4 XOR X ! 11 XOR X ! 14];
           X = X[19 := X ! 0 XOR X ! 7 XOR X ! 10 XOR X ! 13]
       in [has160_F2 rA rB rC rD rE (X ! 18) 5, has160_F2 rE rA rB rC rD (X ! 3) 11,
           has160_F2 rD rE rA rB rC (X ! 6) 7, has160_F2 rC rD rE rA rB (X ! 9) 15,
           has160_F2 rB rC rD rE rA (X ! 12) 6, has160_F2 rA rB rC rD rE (X ! 19) 13,
           has160_F2 rE rA rB rC rD (X ! 15) 8, has160_F2 rD rE rA rB rC (X ! 2) 14,
           has160_F2 rC rD rE rA rB (X ! 5) 7, has160_F2 rB rC rD rE rA (X ! 8) 12,
           has160_F2 rA rB rC rD rE (X ! 16) 9, has160_F2 rE rA rB rC rD (X ! 11) 11,
           has160_F2 rD rE rA rB rC (X ! 14) 8, has160_F2 rC rD rE rA rB (X ! 1) 15,
           has160_F2 rB rC rD rE rA (X ! 4) 6, has160_F2 rA rB rC rD rE (X ! 17) 12,
           has160_F2 rE rA rB rC rD (X ! 7) 9, has160_F2 rD rE rA rB rC (X ! 10) 14,
           has160_F2 rC rD rE rA rB (X ! 13) 5, has160_F2 rB rC rD rE rA (X ! 0) 13])
      @ (let X = X[16 := X ! 5 XOR X ! 7 XOR X ! 12 XOR X ! 14];
           X = X[17 := X ! 0 XOR X ! 2 XOR X ! 9 XOR X ! 11];
           X = X[18 := X ! 4 XOR X ! 6 XOR X ! 13 XOR X ! 15];
           X = X[19 := X ! 1 XOR X ! 3 XOR X ! 8 XOR X ! 10]
       in [has160_F3 rA rB rC rD rE (X ! 18) 5, has160_F3 rE rA rB rC rD (X ! 12) 11,
           has160_F3 rD rE rA rB rC (X ! 5) 7, has160_F3 rC rD rE rA rB (X ! 14) 15,
           has160_F3 rB rC rD rE rA (X ! 7) 6, has160_F3 rA rB rC rD rE (X ! 19) 13,
           has160_F3 rE rA rB rC rD (X ! 0) 8, has160_F3 rD rE rA rB rC (X ! 9) 14,
           has160_F3 rC rD rE rA rB (X ! 2) 7, has160_F3 rB rC rD rE rA (X ! 11) 12,
           has160_F3 rA rB rC rD rE (X ! 16) 9, has160_F3 rE rA rB rC rD (X ! 4) 11,
           has160_F3 rD rE rA rB rC (X ! 13) 8, has160_F3 rC rD rE rA rB (X ! 6) 15,
           has160_F3 rB rC rD rE rA (X ! 15) 6, has160_F3 rA rB rC rD rE (X ! 17) 12,
           has160_F3 rE rA rB rC rD (X ! 8) 9, has160_F3 rD rE rA rB rC (X ! 1) 14,
           has160_F3 rC rD rE rA rB (X ! 10) 5, has160_F3 rB rC rD rE rA (X ! 3) 13])
      @ (let X = X[16 := X ! 2 XOR X ! 7 XOR X ! 8 XOR X ! 13];
           X = X[17 := X ! 3 XOR X ! 4 XOR X ! 9 XOR X ! 14];
           X = X[18 := X ! 0 XOR X ! 5 XOR X ! 10 XOR X ! 15];
           X = X[19 := X ! 1 XOR X ! 6 XOR X ! 11 XOR X ! 12]
       in [has160_F4 rA rB rC rD rE (X ! 18) 5, has160_F4 rE rA rB rC rD (X ! 7) 11,
           has160_F4 rD rE rA rB rC (X ! 2) 7, has160_F4 rC rD rE rA rB (X ! 13) 15,
           has160_F4 rB rC rD rE rA (X ! 8) 6, has160_F4 rA rB rC rD rE (X ! 19) 13,
           has160_F4 rE rA rB rC rD (X ! 3) 8, has160_F4 rD rE rA rB rC (X ! 14) 14,
           has160_F4 rC rD rE rA rB (X ! 9) 7, has160_F4 rB rC rD rE rA (X ! 4) 12,
           has160_F4 rA rB rC rD rE (X ! 16) 9, has160_F4 rE rA rB rC rD (X ! 15) 11,
           has160_F4 rD rE rA rB rC (X ! 10) 8, has160_F4 rC rD rE rA rB (X ! 5) 15,
           has160_F4 rB rC rD rE rA (X ! 0) 6, has160_F4 rA rB rC rD rE (X ! 17) 12,
           has160_F4 rE rA rB rC rD (X ! 11) 9, has160_F4 rD rE rA rB rC (X ! 6) 14,
           has160_F4 rC rD rE rA rB (X ! 1) 5, has160_F4 rB rC rD rE rA (X ! 12) 13]))"

definition has160_block :: "byte list \<Rightarrow> u32bit list \<Rightarrow> u32bit list" where
  "has160_block inp d =
     (let X = for_up 0 16 (\<lambda>j X. X[j := load_le_u32 inp j]) (replicate 20 0)
      in add_digest d (run_calls (has160_calls X) d))"

definition has160_compress_n :: "byte list \<Rightarrow> nat \<Rightarrow> u32bit list \<Rightarrow> u32bit list" where
  "has160_compress_n inp blocks d = for_up 0 blocks (\<lambda>i d. has160_block inp d) d"

definition HAS_160 :: "u32bit list MDx_HashFunction" where
  "HAS_160 =
     \<lparr>mdx_name = ''HAS-160'', mdx_output = 20, mdx_block = 64, BIG_BYTE_ENDIAN = False, BIG_BIT_ENDIAN = True,
      COUNT_SIZE = 8, compress_n = has160_compress_n, copy_out = copy_out_le32 20,
      initial = [0x67452301, 0xEFCDAB89, 0x98BADCFE, 0x10325476, 0xC3D2E1F0]\<rparr>"

section \<open>FORK-256\<close>

definition DELTA :: "u32bit list" where
  "DELTA =
     [0x428A2F98, 0x71374491, 0xB5C0FBCF, 0xE9B5DBA5, 0x3956C25B, 0x59F111F1, 0x923F82A4, 0xAB1C5ED5,
      0xD807AA98, 0x12835B01, 0x243185BE, 0x550C7DC3, 0x72BE5D74, 0x80DEB1FE, 0x9BDC06A7, 0xC19BF174]"

definition fork_step :: "nat \<Rightarrow> nat \<Rightarrow> nat \<Rightarrow> nat \<Rightarrow> nat \<Rightarrow> nat \<Rightarrow> nat \<Rightarrow> nat \<Rightarrow>
    u32bit \<Rightarrow> u32bit \<Rightarrow> u32bit \<Rightarrow> u32bit \<Rightarrow> u32bit list \<Rightarrow> u32bit list" where
  "fork_step A B C D E F G H M1 M2 D1 D2 v =
     (let v = v[A := v ! A + M1]; T0 = v ! A + (rotate_left (v ! A) 7 XOR rotate_left (v ! A) 22);
          v = v[A := v ! A + D1]; T1 = v ! A XOR (rotate_left (v ! A) 13 + rotate_left (v ! A) 27);
          v = v[B := (v ! B + T0) XOR T1];
          v = v[C := (v ! C + rotate_left T0 5) XOR rotate_left T1 9];
          v = v[D := (v ! D + rotate_left T0 17) XOR rotate_left T1 21];
          v = v[E := v ! E + M2]; T0 = v ! E XOR (rotate_left (v ! E) 13 + rotate_left (v ! E) 27);
          v = v[E := v ! E + D2]; T1 = v ! E + (rotate_left (v ! E) 7 XOR rotate_left (v ! E) 22);
          v = v[F := (v ! F + T0) XOR T1];
          v = v[G := (v ! G + rotate_left T0 9) XOR rotate_left T1 5]
      in v[H := (v ! H + rotate_left T0 21) XOR rotate_left T1 17])"

definition fork_calls :: "u32bit list \<Rightarrow> (u32bit list \<Rightarrow> u32bit list) list" where
  "fork_calls M =
     [fork_step rA rB rC rD rE rF rG rH (M ! 0) (M ! 1) (DELTA ! 0) (DELTA ! 1),
      fork_step (8 + rA) (8 + rB) (8 + rC) (8 + rD) (8 + rE) (8 + rF) (8 + rG) (8 + rH) (M ! 14) (M ! 15) (DELTA ! 15) (DELTA ! 14),
      fork_step (16 + rA) (16 + rB) (16 + rC) (16 + rD) (16 + rE) (16 + rF) (16 + rG) (16 + rH) (M ! 7) (M ! 6) (DELTA ! 1) (DELTA ! 0),
      fork_step (24 + rA) (24 + rB) (24 + rC) (24 + rD) (24 + rE) (24 + rF) (24 + rG) (24 + rH) (M ! 5) (M ! 12) (DELTA ! 14) (DELTA ! 15),
      fork_step rH rA rB rC rD rE rF rG (M ! 2) (M ! 3) (DELTA ! 2) (DELTA ! 3),
      fork_step (8 + rH) (8 + rA) (8 + rB) (8 + rC) (8 + rD) (8 + rE) (8 + rF) (8 + rG) (M ! 11) (M ! 9) (DELTA ! 13) (DELTA ! 12),
      fork_step (16 + rH) (16 + rA) (16 + rB) (16 + rC) (16 + rD) (16 + rE) (16 + rF) (16 + rG) (M ! 10) (M ! 14) (DELTA ! 3) (DELTA ! 2),
      fork_step (24 + rH) (24 + rA) (24 + rB) (24 + rC) (24 + rD) (24 + rE) (24 + rF) (24 + rG) (M ! 1) (M ! 8) (DELTA ! 12) (DELTA ! 13),
      fork_step rG rH rA rB rC rD rE rF (M ! 4) (M ! 5) (DELTA ! 4) (DELTA ! 5),
      fork_step (8 + rG) (8 + rH) (8 + rA) (8 + rB) (8 + rC) (8 + rD) (8 + rE) (8 + rF) (M ! 8) (M ! 10) (DELTA ! 11) (DELTA ! 10),
      fork_step (16 + rG) (16 + rH) (16 + rA) (16 + rB) (16 + rC) (16 + rD) (16 + rE) (16 + rF) (M ! 13) (M ! 2) (DELTA ! 5) (DELTA ! 4),
      fork_step (24 + rG) (24 + rH) (24 + rA) (24 + rB) (24 + rC) (24 + rD) (24 + rE) (24 + rF) (M ! 15) (M ! 0) (DELTA ! 10) (DELTA ! 11),
      fork_step rF rG rH rA rB rC rD rE (M ! 6) (M ! 7) (DELTA ! 6) (DELTA ! 7),
      fork_step (8 + rF) (8 + rG) (8 + rH) (8 + rA) (8 + rB) (8 + rC) (8 + rD) (8 + rE) (M ! 3) (M ! 4) (DELTA ! 9) (DELTA ! 8),
      fork_step (16 + rF) (16 + rG) (16 + rH) (16 + rA) (16 + rB) (16 + rC) (16 + rD) (16 + rE) (M ! 9) (M ! 12) (DELTA ! 7) (DELTA ! 6),
      fork_step (24 + rF) (24 + rG) (24 + rH) (24 + rA) (24 + rB) (24 + rC) (24 + rD) (24 + rE) (M ! 13) (M ! 11) (DELTA ! 8) (DELTA ! 9),
      fork_step rE rF rG rH rA rB rC rD (M ! 8) (M ! 9) (DELTA ! 8) (DELTA ! 9),
      fork_step (8 + rE) (8 + rF) (8 + rG) (8 + rH) (8 + rA) (8 + rB) (8 + rC) (8 + rD) (M ! 2) (M ! 13) (DELTA ! 7) (DELTA ! 6),
      fork_step (16 + rE) (16 + rF) (16 + rG) (16 + rH) (16 + rA) (16 + rB) (16 + rC) (16 + rD) (M ! 11) (M ! 4) (DELTA ! 9) (DELTA ! 8),
      fork_step (24 + rE) (24 + rF) (24 + rG) (24 + rH) (24 + rA) (24 + rB) (24 + rC) (24 + rD) (M ! 3) (M ! 10) (DELTA ! 6) (DELTA ! 7),
      fork_step rD rE rF rG rH rA rB rC (M ! 10) (M ! 11) (DELTA ! 10) (DELTA ! 11),
      fork_step (8 + rD) (8 + rE) (8 + rF) (8 + rG) (8 + rH) (8 + rA) (8 + rB) (8 + rC) (M ! 0) (M ! 5) (DELTA ! 5) (DELTA ! 4),
      fork_step (16 + rD) (16 + rE) (16 + rF) (16 + rG) (16 + rH) (16 + rA) (16 + rB) (16 + rC) (M ! 15) (M ! 8) (DELTA ! 11) (DELTA ! 10),
      fork_step (24 + rD) (24 + rE) (24 + rF) (24 + rG) (24 + rH) (24 + rA) (24 + rB) (24 + rC) (M ! 9) (M ! 2) (DELTA ! 4) (DELTA ! 5),
      fork_step rC rD rE rF rG rH rA rB (M ! 12) (M ! 13) (DELTA ! 12) (DELTA ! 13),
      fork_step (8 + rC) (8 + rD) (8 + rE) (8 + rF) (8 + rG) (8 + rH) (8 + rA) (8 + rB) (M ! 6) (M ! 7) (DELTA ! 3) (DELTA ! 2),
      fork_step (16 + rC) (16 + rD) (16 + rE) (16 + rF) (16 + rG) (16 + rH) (16 + rA) (16 + rB) (M ! 5) (M ! 0) (DELTA ! 13) (DELTA ! 12),
      fork_step (24 + rC) (24 + rD) (24 + rE) (24 + rF) (24 + rG) (24 + rH) (24 + rA) (24 + rB) (M ! 7) (M ! 14) (DELTA ! 2) (DELTA ! 3),
      fork_step rB rC rD rE rF rG rH rA (M ! 14) (M ! 15) (DELTA ! 14) (DELTA ! 15),
      fork_step (8 + rB) (8 + rC) (8 + rD) (8 + rE) (8 + rF) (8 + rG) (8 + rH) (8 + rA) (M ! 12) (M ! 1) (DELTA ! 1) (DELTA ! 0),
      fork_step (16 + rB) (16 + rC) (16 + rD) (16 + rE) (16 + rF) (16 + rG) (16 + rH) (16 + rA) (M ! 1) (M ! 3) (DELTA ! 15) (DELTA ! 14),
      fork_step (24 + rB) (24 + rC) (24 + rD) (24 + rE) (24 + rF) (24 + rG) (24 + rH) (24 + rA) (M ! 4) (M ! 6) (DELTA ! 0) (DELTA ! 1)]"

definition load_words_be :: "byte list \<Rightarrow> u32bit list" where
  "load_words_be inp = for_up 0 16 (\<lambda>j M. M[j := load_be_u32 inp j]) (replicate 16 0)"

definition fork_block :: "byte list \<Rightarrow> u32bit list \<Rightarrow> u32bit list" where
  "fork_block inp d =
     (let v = run_calls (fork_calls (load_words_be inp)) (take 8 d @ take 8 d @ take 8 d @ take 8 d)
      in for_up 0 8 (\<lambda>j d. d[j := d ! j + ((v ! j + v ! (8 + j)) XOR (v ! (16 + j) + v ! (24 + j)))]) d)"

definition FORK_256 :: "u32bit list MDx_HashFunction" where
  "FORK_256 =
     \<lparr>mdx_name = ''FORK-256'', mdx_output = 32, mdx_block = 64, BIG_BYTE_ENDIAN = True, BIG_BIT_ENDIAN = True,
      COUNT_SIZE = 8, compress_n = compress_blocks 64 fork_block, copy_out = copy_out_be32 32,
      initial = [0x6A09E667, 0xBB67AE85, 0x3C6EF372, 0xA54FF53A, 0x510E527F, 0x9B05688C, 0x1F83D9AB, 0x5BE0CD19]\<rparr>"

lemma load_words_be_val: "length (load_words_be inp) = 16 \<and> (\<forall>j < 16. load_words_be inp ! j = load_be_u32 inp j)"
  unfolding load_words_be_def
  by (rule for_up_invariant[where I = "\<lambda>k M. length M = 16 \<and> (\<forall>j < k. M ! j = load_be_u32 inp j)"])
    (auto simp: nth_list_update less_Suc_eq)

lemma load_words_be_prefix: "length a = 64 \<Longrightarrow> load_words_be (a @ b) = load_words_be a"
  using load_words_be_val[of "a @ b"] load_words_be_val[of a]
  by (intro nth_equalityI) (simp_all add: load_prefix)

lemma FORK_256_ok: "mdx_ok FORK_256"
  by (rule mdx_okI[where f = fork_block]) (simp_all add: FORK_256_def fork_block_def load_words_be_prefix length_copy_out)

interpretation fork_256: clearing_hash "mdx_hash FORK_256" "mdx_absorbed FORK_256" "md_digest FORK_256"
  by (rule mdx_hash_ok[OF FORK_256_ok])

section \<open>What HAS-160 does with several blocks\<close>

lemma has160_block_prefix: "length a = 64 \<Longrightarrow> has160_block (a @ b) d = has160_block a d"
proof -
  assume a: "length a = 64"
  have "for_up 0 16 (\<lambda>j X. X[j := load_le_u32 (a @ b) j]) X = for_up 0 16 (\<lambda>j X. X[j := load_le_u32 a j]) X" for X
    using a by (intro for_up_cong) (simp add: load_prefix)
  then show ?thesis by (simp add: has160_block_def)
qed

lemma has160_compress_first: "length a = 64 \<Longrightarrow> has160_compress_n (a @ b) k d = has160_compress_n a k d"
  by (simp add: has160_compress_n_def has160_block_prefix)

text \<open>In a call of \<open>update\<close> at a block boundary the blocks after the first are not read.\<close>

lemma has160_update_ignores:
  assumes "mdx_position s = 0" and "length a = 64" and "length b = length b'" and "64 dvd length b"
  shows "mdx_add_data HAS_160 (a @ b @ r) s = mdx_add_data HAS_160 (a @ b' @ r) s"
proof -
  obtain k where k: "length b = 64 * k" using assms(4) by blast
  have "drop ((64 + (64 * k + length r)) div 64 * 64) (a @ x @ r) = drop (length r div 64 * 64) r"
    if "length x = 64 * k" for x :: "byte list"
  proof -
    have "(64 + (64 * k + length r)) div 64 = Suc k + length r div 64" by presburger
    then show ?thesis using that assms(2) by simp
  qed
  then show ?thesis using assms(1-3) k
    by (simp add: mdx_add_data_def HAS_160_def has160_compress_first Let_def)
qed

end
