(* ===== verification/Checksum.thy ===== *)
theory Checksum
  imports Hash_Base
begin

text \<open>
  The checksums (\<open>src/checksum\<close>), hash functions by interface: Adler32 sums bytes sixteen at a time and reduces after 5552
  of them, CRC24 and CRC32 go through a table, sixteen bytes to a turn. Their specifications are the sums modulo 65521
  and the shift registers a bit at a time.
\<close>

text \<open>\<open>while(length >= 16)\<close> with the body unrolled, and the loop over the rest: \<open>f\<close> is one byte.\<close>

function unrolled_16 :: "(byte \<Rightarrow> 'a \<Rightarrow> 'a) \<Rightarrow> byte list \<Rightarrow> 'a \<Rightarrow> 'a" where
  "unrolled_16 f input s =
     (if length input \<ge> 16 then unrolled_16 f (drop 16 input) (fold (\<lambda>j. f (input ! j)) [0..<16] s)
      else for_up 0 (length input) (\<lambda>j. f (input ! j)) s)"
  by pat_completeness auto
termination by (relation "measure (\<lambda>(_, input, _). length input)") auto

declare unrolled_16.simps [simp del]

section \<open>Adler32\<close>

record Adler32 =
  S1 :: u16bit
  S2 :: u16bit

definition adler32_clear :: "Adler32 \<Rightarrow> Adler32" where
  "adler32_clear s = \<lparr>S1 = 1, S2 = 0\<rparr>"

definition new_Adler32 :: Adler32 where
  "new_Adler32 = \<lparr>S1 = 1, S2 = 0\<rparr>"

definition adler32_byte :: "byte \<Rightarrow> u32bit \<times> u32bit \<Rightarrow> u32bit \<times> u32bit" where
  "adler32_byte b s = (let S1x = fst s + ucast b; S2x = snd s + S1x in (S1x, S2x))"

definition adler32_hash :: "byte list \<Rightarrow> Adler32 \<Rightarrow> Adler32" where
  "adler32_hash input s =
     (let (S1x, S2x) = unrolled_16 adler32_byte input (ucast (S1 s), ucast (S2 s))
      in \<lparr>S1 = ucast (S1x mod 65521), S2 = ucast (S2x mod 65521)\<rparr>)"

definition PROCESS_AMOUNT :: nat where
  "PROCESS_AMOUNT = 5552"

function adler32_add_data :: "byte list \<Rightarrow> Adler32 \<Rightarrow> Adler32" where
  "adler32_add_data input s =
     (if length input \<ge> PROCESS_AMOUNT
      then adler32_add_data (drop PROCESS_AMOUNT input) (adler32_hash (take PROCESS_AMOUNT input) s)
      else adler32_hash input s)"
  by pat_completeness auto
termination by (relation "measure (\<lambda>(input, _). length input)") (auto simp: PROCESS_AMOUNT_def)

declare adler32_add_data.simps [simp del]

definition adler32_final_result :: "Adler32 \<Rightarrow> botan_error + byte list \<times> Adler32" where
  "adler32_final_result s = Inr (store_be_u16 (S2 s) @ store_be_u16 (S1 s), adler32_clear s)"

definition Adler32_fn :: "Adler32 HashFunction" where
  "Adler32_fn = \<lparr>hash_name = ''Adler32'', OUTPUT_LENGTH = 4, HASH_BLOCK_SIZE = 0, add_data = adler32_add_data,
     final_result = adler32_final_result, hash_clear = adler32_clear\<rparr>"

section \<open>CRC24 and CRC32\<close>

definition CRC24_TABLE :: "u32bit list" where
  "CRC24_TABLE = [
     0x00000000, 0x00864CFB, 0x008AD50D, 0x000C99F6, 0x0093E6E1, 0x0015AA1A, 0x001933EC, 0x009F7F17,
     0x00A18139, 0x0027CDC2, 0x002B5434, 0x00AD18CF, 0x003267D8, 0x00B42B23, 0x00B8B2D5, 0x003EFE2E,
     0x00C54E89, 0x00430272, 0x004F9B84, 0x00C9D77F, 0x0056A868, 0x00D0E493, 0x00DC7D65, 0x005A319E,
     0x0064CFB0, 0x00E2834B, 0x00EE1ABD, 0x00685646, 0x00F72951, 0x007165AA, 0x007DFC5C, 0x00FBB0A7,
     0x000CD1E9, 0x008A9D12, 0x008604E4, 0x0000481F, 0x009F3708, 0x00197BF3, 0x0015E205, 0x0093AEFE,
     0x00AD50D0, 0x002B1C2B, 0x002785DD, 0x00A1C926, 0x003EB631, 0x00B8FACA, 0x00B4633C, 0x00322FC7,
     0x00C99F60, 0x004FD39B, 0x00434A6D, 0x00C50696, 0x005A7981, 0x00DC357A, 0x00D0AC8C, 0x0056E077,
     0x00681E59, 0x00EE52A2, 0x00E2CB54, 0x006487AF, 0x00FBF8B8, 0x007DB443, 0x00712DB5, 0x00F7614E,
     0x0019A3D2, 0x009FEF29, 0x009376DF, 0x00153A24, 0x008A4533, 0x000C09C8, 0x0000903E, 0x0086DCC5,
     0x00B822EB, 0x003E6E10, 0x0032F7E6, 0x00B4BB1D, 0x002BC40A, 0x00AD88F1, 0x00A11107, 0x00275DFC,
     0x00DCED5B, 0x005AA1A0, 0x00563856, 0x00D074AD, 0x004F0BBA, 0x00C94741, 0x00C5DEB7, 0x0043924C,
     0x007D6C62, 0x00FB2099, 0x00F7B96F, 0x0071F594, 0x00EE8A83, 0x0068C678, 0x00645F8E, 0x00E21375,
     0x0015723B, 0x00933EC0, 0x009FA736, 0x0019EBCD, 0x008694DA, 0x0000D821, 0x000C41D7, 0x008A0D2C,
     0x00B4F302, 0x0032BFF9, 0x003E260F, 0x00B86AF4, 0x002715E3, 0x00A15918, 0x00ADC0EE, 0x002B8C15,
     0x00D03CB2, 0x00567049, 0x005AE9BF, 0x00DCA544, 0x0043DA53, 0x00C596A8, 0x00C90F5E, 0x004F43A5,
     0x0071BD8B, 0x00F7F170, 0x00FB6886, 0x007D247D, 0x00E25B6A, 0x00641791, 0x00688E67, 0x00EEC29C,
     0x003347A4, 0x00B50B5F, 0x00B992A9, 0x003FDE52, 0x00A0A145, 0x0026EDBE, 0x002A7448, 0x00AC38B3,
     0x0092C69D, 0x00148A66, 0x00181390, 0x009E5F6B, 0x0001207C, 0x00876C87, 0x008BF571, 0x000DB98A,
     0x00F6092D, 0x007045D6, 0x007CDC20, 0x00FA90DB, 0x0065EFCC, 0x00E3A337, 0x00EF3AC1, 0x0069763A,
     0x00578814, 0x00D1C4EF, 0x00DD5D19, 0x005B11E2, 0x00C46EF5, 0x0042220E, 0x004EBBF8, 0x00C8F703,
     0x003F964D, 0x00B9DAB6, 0x00B54340, 0x00330FBB, 0x00AC70AC, 0x002A3C57, 0x0026A5A1, 0x00A0E95A,
     0x009E1774, 0x00185B8F, 0x0014C279, 0x00928E82, 0x000DF195, 0x008BBD6E, 0x00872498, 0x00016863,
     0x00FAD8C4, 0x007C943F, 0x00700DC9, 0x00F64132, 0x00693E25, 0x00EF72DE, 0x00E3EB28, 0x0065A7D3,
     0x005B59FD, 0x00DD1506, 0x00D18CF0, 0x0057C00B, 0x00C8BF1C, 0x004EF3E7, 0x00426A11, 0x00C426EA,
     0x002AE476, 0x00ACA88D, 0x00A0317B, 0x00267D80, 0x00B90297, 0x003F4E6C, 0x0033D79A, 0x00B59B61,
     0x008B654F, 0x000D29B4, 0x0001B042, 0x0087FCB9, 0x001883AE, 0x009ECF55, 0x009256A3, 0x00141A58,
     0x00EFAAFF, 0x0069E604, 0x00657FF2, 0x00E33309, 0x007C4C1E, 0x00FA00E5, 0x00F69913, 0x0070D5E8,
     0x004E2BC6, 0x00C8673D, 0x00C4FECB, 0x0042B230, 0x00DDCD27, 0x005B81DC, 0x0057182A, 0x00D154D1,
     0x0026359F, 0x00A07964, 0x00ACE092, 0x002AAC69, 0x00B5D37E, 0x00339F85, 0x003F0673, 0x00B94A88,
     0x0087B4A6, 0x0001F85D, 0x000D61AB, 0x008B2D50, 0x00145247, 0x00921EBC, 0x009E874A, 0x0018CBB1,
     0x00E37B16, 0x006537ED, 0x0069AE1B, 0x00EFE2E0, 0x00709DF7, 0x00F6D10C, 0x00FA48FA, 0x007C0401,
     0x0042FA2F, 0x00C4B6D4, 0x00C82F22, 0x004E63D9, 0x00D11CCE, 0x00575035, 0x005BC9C3, 0x00DD8538]"

definition CRC32_TABLE :: "u32bit list" where
  "CRC32_TABLE = [
     0x00000000, 0x77073096, 0xEE0E612C, 0x990951BA, 0x076DC419, 0x706AF48F, 0xE963A535, 0x9E6495A3,
     0x0EDB8832, 0x79DCB8A4, 0xE0D5E91E, 0x97D2D988, 0x09B64C2B, 0x7EB17CBD, 0xE7B82D07, 0x90BF1D91,
     0x1DB71064, 0x6AB020F2, 0xF3B97148, 0x84BE41DE, 0x1ADAD47D, 0x6DDDE4EB, 0xF4D4B551, 0x83D385C7,
     0x136C9856, 0x646BA8C0, 0xFD62F97A, 0x8A65C9EC, 0x14015C4F, 0x63066CD9, 0xFA0F3D63, 0x8D080DF5,
     0x3B6E20C8, 0x4C69105E, 0xD56041E4, 0xA2677172, 0x3C03E4D1, 0x4B04D447, 0xD20D85FD, 0xA50AB56B,
     0x35B5A8FA, 0x42B2986C, 0xDBBBC9D6, 0xACBCF940, 0x32D86CE3, 0x45DF5C75, 0xDCD60DCF, 0xABD13D59,
     0x26D930AC, 0x51DE003A, 0xC8D75180, 0xBFD06116, 0x21B4F4B5, 0x56B3C423, 0xCFBA9599, 0xB8BDA50F,
     0x2802B89E, 0x5F058808, 0xC60CD9B2, 0xB10BE924, 0x2F6F7C87, 0x58684C11, 0xC1611DAB, 0xB6662D3D,
     0x76DC4190, 0x01DB7106, 0x98D220BC, 0xEFD5102A, 0x71B18589, 0x06B6B51F, 0x9FBFE4A5, 0xE8B8D433,
     0x7807C9A2, 0x0F00F934, 0x9609A88E, 0xE10E9818, 0x7F6A0DBB, 0x086D3D2D, 0x91646C97, 0xE6635C01,
     0x6B6B51F4, 0x1C6C6162, 0x856530D8, 0xF262004E, 0x6C0695ED, 0x1B01A57B, 0x8208F4C1, 0xF50FC457,
     0x65B0D9C6, 0x12B7E950, 0x8BBEB8EA, 0xFCB9887C, 0x62DD1DDF, 0x15DA2D49, 0x8CD37CF3, 0xFBD44C65,
     0x4DB26158, 0x3AB551CE, 0xA3BC0074, 0xD4BB30E2, 0x4ADFA541, 0x3DD895D7, 0xA4D1C46D, 0xD3D6F4FB,
     0x4369E96A, 0x346ED9FC, 0xAD678846, 0xDA60B8D0, 0x44042D73, 0x33031DE5, 0xAA0A4C5F, 0xDD0D7CC9,
     0x5005713C, 0x270241AA, 0xBE0B1010, 0xC90C2086, 0x5768B525, 0x206F85B3, 0xB966D409, 0xCE61E49F,
     0x5EDEF90E, 0x29D9C998, 0xB0D09822, 0xC7D7A8B4, 0x59B33D17, 0x2EB40D81, 0xB7BD5C3B, 0xC0BA6CAD,
     0xEDB88320, 0x9ABFB3B6, 0x03B6E20C, 0x74B1D29A, 0xEAD54739, 0x9DD277AF, 0x04DB2615, 0x73DC1683,
     0xE3630B12, 0x94643B84, 0x0D6D6A3E, 0x7A6A5AA8, 0xE40ECF0B, 0x9309FF9D, 0x0A00AE27, 0x7D079EB1,
     0xF00F9344, 0x8708A3D2, 0x1E01F268, 0x6906C2FE, 0xF762575D, 0x806567CB, 0x196C3671, 0x6E6B06E7,
     0xFED41B76, 0x89D32BE0, 0x10DA7A5A, 0x67DD4ACC, 0xF9B9DF6F, 0x8EBEEFF9, 0x17B7BE43, 0x60B08ED5,
     0xD6D6A3E8, 0xA1D1937E, 0x38D8C2C4, 0x4FDFF252, 0xD1BB67F1, 0xA6BC5767, 0x3FB506DD, 0x48B2364B,
     0xD80D2BDA, 0xAF0A1B4C, 0x36034AF6, 0x41047A60, 0xDF60EFC3, 0xA867DF55, 0x316E8EEF, 0x4669BE79,
     0xCB61B38C, 0xBC66831A, 0x256FD2A0, 0x5268E236, 0xCC0C7795, 0xBB0B4703, 0x220216B9, 0x5505262F,
     0xC5BA3BBE, 0xB2BD0B28, 0x2BB45A92, 0x5CB36A04, 0xC2D7FFA7, 0xB5D0CF31, 0x2CD99E8B, 0x5BDEAE1D,
     0x9B64C2B0, 0xEC63F226, 0x756AA39C, 0x026D930A, 0x9C0906A9, 0xEB0E363F, 0x72076785, 0x05005713,
     0x95BF4A82, 0xE2B87A14, 0x7BB12BAE, 0x0CB61B38, 0x92D28E9B, 0xE5D5BE0D, 0x7CDCEFB7, 0x0BDBDF21,
     0x86D3D2D4, 0xF1D4E242, 0x68DDB3F8, 0x1FDA836E, 0x81BE16CD, 0xF6B9265B, 0x6FB077E1, 0x18B74777,
     0x88085AE6, 0xFF0F6A70, 0x66063BCA, 0x11010B5C, 0x8F659EFF, 0xF862AE69, 0x616BFFD3, 0x166CCF45,
     0xA00AE278, 0xD70DD2EE, 0x4E048354, 0x3903B3C2, 0xA7672661, 0xD06016F7, 0x4969474D, 0x3E6E77DB,
     0xAED16A4A, 0xD9D65ADC, 0x40DF0B66, 0x37D83BF0, 0xA9BCAE53, 0xDEBB9EC5, 0x47B2CF7F, 0x30B5FFE9,
     0xBDBDF21C, 0xCABAC28A, 0x53B39330, 0x24B4A3A6, 0xBAD03605, 0xCDD70693, 0x54DE5729, 0x23D967BF,
     0xB3667A2E, 0xC4614AB8, 0x5D681B02, 0x2A6F2B94, 0xB40BBE37, 0xC30C8EA1, 0x5A05DF1B, 0x2D02EF8D]"

text \<open>The member \<open>crc\<close> is the state of both.\<close>

definition crc24_clear :: "u32bit \<Rightarrow> u32bit" where
  "crc24_clear crc = 0xB704CE"

definition crc24_byte :: "byte \<Rightarrow> u32bit \<Rightarrow> u32bit" where
  "crc24_byte b tmp = CRC24_TABLE ! unat ((drop_bit 16 tmp XOR ucast b) AND 0xFF) XOR push_bit 8 tmp"

definition crc24_add_data :: "byte list \<Rightarrow> u32bit \<Rightarrow> u32bit" where
  "crc24_add_data input crc = unrolled_16 crc24_byte input crc"

definition crc24_final_result :: "u32bit \<Rightarrow> botan_error + byte list \<times> u32bit" where
  "crc24_final_result crc = Inr (map (\<lambda>j. get_byte (j + 1) crc) [0..<3], crc24_clear crc)"

definition CRC24_fn :: "u32bit HashFunction" where
  "CRC24_fn = \<lparr>hash_name = ''CRC24'', OUTPUT_LENGTH = 3, HASH_BLOCK_SIZE = 0, add_data = crc24_add_data,
     final_result = crc24_final_result, hash_clear = crc24_clear\<rparr>"

definition crc32_clear :: "u32bit \<Rightarrow> u32bit" where
  "crc32_clear crc = 0xFFFFFFFF"

definition crc32_byte :: "byte \<Rightarrow> u32bit \<Rightarrow> u32bit" where
  "crc32_byte b tmp = CRC32_TABLE ! unat ((tmp XOR ucast b) AND 0xFF) XOR drop_bit 8 tmp"

definition crc32_add_data :: "byte list \<Rightarrow> u32bit \<Rightarrow> u32bit" where
  "crc32_add_data input crc = unrolled_16 crc32_byte input crc"

definition crc32_final_result :: "u32bit \<Rightarrow> botan_error + byte list \<times> u32bit" where
  "crc32_final_result crc = (let crc = crc XOR 0xFFFFFFFF in Inr (store_be_u32 crc, crc32_clear crc))"

definition CRC32_fn :: "u32bit HashFunction" where
  "CRC32_fn = \<lparr>hash_name = ''CRC32'', OUTPUT_LENGTH = 4, HASH_BLOCK_SIZE = 0, add_data = crc32_add_data,
     final_result = crc32_final_result, hash_clear = crc32_clear\<rparr>"

section \<open>The loops\<close>

lemma unrolled_16_fold: "unrolled_16 f input s = fold f input s"
proof (induction f input s rule: unrolled_16.induct)
  case (1 f input s)
  have idx: "for_up 0 (length xs) (\<lambda>j. f (xs ! j)) t = fold f xs t" for xs t
  proof (induction xs rule: rev_induct)
    case (snoc x xs)
    have "for_up 0 (length xs) (\<lambda>j. f ((xs @ [x]) ! j)) t = for_up 0 (length xs) (\<lambda>j. f (xs ! j)) t"
      by (intro for_up_cong) (simp add: nth_append)
    then show ?case using snoc by (simp add: for_up_Suc)
  qed simp
  show ?case
  proof (cases "length input \<ge> 16")
    case True
    have l: "length (take 16 input) = 16" using True by simp
    have "fold (\<lambda>j. f (input ! j)) [0..<16] s = fold (\<lambda>j. f (take 16 input ! j)) [0..<16] s" by (intro fold_cong) auto
    also have "\<dots> = fold f (take 16 input) s" using idx[of "take 16 input" s] unfolding l for_up_def .
    finally have "unrolled_16 f input s = fold f (drop 16 input) (fold f (take 16 input) s)"
      using 1[OF True] True by (subst unrolled_16.simps) simp
    also have "\<dots> = fold f (take 16 input @ drop 16 input) s" by (simp only: fold_append comp_apply)
    finally show ?thesis by simp
  qed (use idx in \<open>simp add: unrolled_16.simps\<close>)
qed

section \<open>The shift registers\<close>

definition crc32_bit :: "u32bit \<Rightarrow> u32bit" where
  "crc32_bit c = (if bit c 0 then drop_bit 1 c XOR 0xEDB88320 else drop_bit 1 c)"

definition crc32_register :: "byte list \<Rightarrow> u32bit" where
  "crc32_register m = fold (\<lambda>b c. (crc32_bit ^^ 8) (c XOR ucast b)) m 0xFFFFFFFF XOR 0xFFFFFFFF"

definition crc24_bit :: "u32bit \<Rightarrow> u32bit" where
  "crc24_bit c = (if bit c 23 then push_bit 1 c XOR 0x1864CFB else push_bit 1 c)"

definition crc24_register :: "byte list \<Rightarrow> u32bit" where
  "crc24_register m = fold (\<lambda>b c. (crc24_bit ^^ 8) (c XOR push_bit 16 (ucast b))) m 0xB704CE"

text \<open>One bit is linear, so a table of eight bits is the span of its entries at the powers of two.\<close>

definition span :: "u32bit list \<Rightarrow> u32bit list" where
  "span basis = fold (\<lambda>x xs. xs @ map (\<lambda>y. y XOR x) xs) basis [0]"

lemma of_nat_high:
  assumes "i < 2 ^ k"
  shows "word_of_nat (2 ^ k + i) = (word_of_nat i XOR 2 ^ k :: u32bit)"
proof -
  have "\<not> bit i k" using assms by (simp add: bit_iff_odd)
  then have "(word_of_nat i :: u32bit) AND 2 ^ k = 0"
    by (intro bit_word_eqI) (auto simp: bit_simps)
  from disjunctive_add_eq_xor[OF this] show ?thesis by (simp add: add.commute)
qed

lemma span_of:
  fixes g :: "u32bit \<Rightarrow> u32bit"
  assumes "\<And>a b. g (a XOR b) = g a XOR g b" and "k \<le> 31"
  shows "map (\<lambda>i. g (word_of_nat i)) [0..<2 ^ k] = span (map (\<lambda>j. g (2 ^ j)) [0..<k])"
  using assms(2)
proof (induction k)
  case 0
  have "g 0 = 0" using assms(1)[of 0 0] by simp
  then show ?case by (simp add: span_def)
next
  case (Suc k)
  have "[0..<2 ^ Suc k] = [0..<2 ^ k] @ map (\<lambda>i. 2 ^ k + i) [0..<(2 :: nat) ^ k]"
    using upt_add_eq_append[of 0 "2 ^ k" "2 ^ k"] map_add_upt[of "2 ^ k" "2 ^ k"] by (simp add: add.commute mult_2)
  then have "map (\<lambda>i. g (word_of_nat i)) [0..<2 ^ Suc k] =
      map (\<lambda>i. g (word_of_nat i)) [0..<2 ^ k] @ map (\<lambda>i. g (word_of_nat (2 ^ k + i))) [0..<2 ^ k]"
    by (simp add: comp_def)
  moreover have "map (\<lambda>i. g (word_of_nat (2 ^ k + i))) [0..<2 ^ k] = map (\<lambda>i. g (word_of_nat i) XOR g (2 ^ k)) [0..<2 ^ k]"
  proof (intro map_cong refl)
    fix i assume "i \<in> set [0..<2 ^ k]"
    then have "i < 2 ^ k" by simp
    show "g (word_of_nat (2 ^ k + i)) = g (word_of_nat i) XOR g (2 ^ k)"
      unfolding of_nat_high[OF \<open>i < 2 ^ k\<close>] by (rule assms(1))
  qed
  moreover have "map (\<lambda>i. g (word_of_nat i) XOR g (2 ^ k)) [0..<2 ^ k] = map (\<lambda>y. y XOR g (2 ^ k)) (map (\<lambda>i. g (word_of_nat i)) [0..<2 ^ k])"
    by simp
  moreover have "span (map (\<lambda>j. g (2 ^ j)) [0..<Suc k]) =
      (let xs = span (map (\<lambda>j. g (2 ^ j)) [0..<k]) in xs @ map (\<lambda>y. y XOR g (2 ^ k)) xs)" by (simp add: span_def Let_def)
  ultimately show ?case using Suc unfolding Let_def by (metis Suc_leD)
qed

lemma funpow_linear:
  fixes g :: "u32bit \<Rightarrow> u32bit"
  assumes "\<And>a b. g (a XOR b) = g a XOR g b"
  shows "(g ^^ n) (a XOR b) = (g ^^ n) a XOR (g ^^ n) b"
  by (induction n arbitrary: a b) (simp_all add: assms)

lemma crc_bit_linear:
  "crc32_bit (a XOR b) = crc32_bit a XOR crc32_bit b" "crc24_bit (a XOR b) = crc24_bit a XOR crc24_bit b"
proof -
  show "crc32_bit (a XOR b) = crc32_bit a XOR crc32_bit b"
    unfolding crc32_bit_def by (simp add: bit_xor_iff drop_bit_xor xor_ac)
  show "crc24_bit (a XOR b) = crc24_bit a XOR crc24_bit b"
    unfolding crc24_bit_def by (simp add: bit_xor_iff push_bit_xor xor_ac)
qed

lemma funpow_8: "(g ^^ 8) x = g (g (g (g (g (g (g (g x)))))))"
  by (simp add: eval_nat_numeral)

lemma crc32_basis: "map (\<lambda>j. (crc32_bit ^^ 8) (2 ^ j)) [0..<8] =
   [0x77073096, 0xEE0E612C, 0x076DC419, 0x0EDB8832, 0x1DB71064, 0x3B6E20C8, 0x76DC4190, 0xEDB88320]"
  unfolding funpow_8 by (simp add: crc32_bit_def upt_rec)

lemma crc24_basis: "map (\<lambda>j. (crc24_bit ^^ 8) (push_bit 16 (2 ^ j))) [0..<8] =
   [0x00864CFB, 0x008AD50D, 0x0093E6E1, 0x00A18139, 0x00C54E89, 0x000CD1E9, 0x0019A3D2, 0x003347A4]"
  unfolding funpow_8 by (simp add: crc24_bit_def upt_rec)

lemma crc32_table: "map (\<lambda>i. (crc32_bit ^^ 8) (word_of_nat i)) [0..<256] = CRC32_TABLE"
proof -
  have "span (map (\<lambda>j. (crc32_bit ^^ 8) (2 ^ j)) [0..<8]) = CRC32_TABLE"
    unfolding crc32_basis by (simp add: span_def CRC32_TABLE_def)
  then show ?thesis using span_of[of "crc32_bit ^^ 8" 8] funpow_linear[OF crc_bit_linear(1)] by simp
qed

lemma crc24_table: "map (\<lambda>i. (crc24_bit ^^ 8) (push_bit 16 (word_of_nat i))) [0..<256] = CRC24_TABLE"
proof -
  have "span (map (\<lambda>j. (crc24_bit ^^ 8) (push_bit 16 (2 ^ j))) [0..<8]) = CRC24_TABLE"
    unfolding crc24_basis by (simp add: span_def CRC24_TABLE_def)
  moreover have "(crc24_bit ^^ 8) (push_bit 16 (a XOR b)) = (crc24_bit ^^ 8) (push_bit 16 a) XOR (crc24_bit ^^ 8) (push_bit 16 b)" for a b
    by (simp only: push_bit_xor funpow_linear[OF crc_bit_linear(2)])
  ultimately show ?thesis using span_of[of "\<lambda>x. (crc24_bit ^^ 8) (push_bit 16 x)" 8] by simp
qed

lemma table_entry:
  "unat x < 256 \<Longrightarrow> CRC32_TABLE ! unat x = (crc32_bit ^^ 8) x"
  "unat x < 256 \<Longrightarrow> CRC24_TABLE ! unat x = (crc24_bit ^^ 8) (push_bit 16 x)"
  by (simp_all flip: crc32_table crc24_table)

text \<open>Eight bits of a register whose next eight bits are zero are a shift.\<close>

lemma crc32_shift: "n \<le> 8 \<Longrightarrow> (\<And>i. i < 8 \<Longrightarrow> \<not> bit c i) \<Longrightarrow> (crc32_bit ^^ n) c = drop_bit n c"
  by (induction n) (simp_all add: crc32_bit_def bit_simps)

lemma crc24_shift: "n \<le> 8 \<Longrightarrow> (\<And>i. 16 \<le> i \<Longrightarrow> i < 24 \<Longrightarrow> \<not> bit c i) \<Longrightarrow> (crc24_bit ^^ n) c = push_bit n c"
  by (induction n) (simp_all add: crc24_bit_def bit_simps)

lemma low_byte: "unat (x AND 0xFF) < 256" for x :: u32bit
proof -
  have ff: "x AND 0xFF = take_bit 8 x" by (simp add: take_bit_eq_mask mask_eq_exp_minus_1)
  show ?thesis unfolding ff unsigned_take_bit_eq by (simp add: take_bit_eq_mod)
qed

lemma crc32_byte_register: "crc32_byte b c = (crc32_bit ^^ 8) (c XOR ucast b)"
proof -
  let ?x = "c XOR ucast b"
  define lo hi where "lo = ?x AND 0xFF" and "hi = push_bit 8 (drop_bit 8 c)"
  have ff: "(0xFF :: u32bit) = mask 8" by (simp add: mask_eq_exp_minus_1)
  have "?x = lo XOR hi" unfolding lo_def hi_def ff
    by (intro bit_word_eqI) (auto simp: bit_simps dest: bit_imp_le_length)
  moreover have "(crc32_bit ^^ 8) hi = drop_bit 8 hi" by (intro crc32_shift) (simp_all add: hi_def bit_simps)
  moreover have "drop_bit 8 hi = drop_bit 8 c" unfolding hi_def
  proof (intro bit_word_eqI)
    fix n
    have "bit c (8 + n) \<Longrightarrow> n < 24" using bit_imp_le_length[of c "8 + n"] by simp
    then show "bit (drop_bit 8 (push_bit 8 (drop_bit 8 c))) n = bit (drop_bit 8 c) n" by (auto simp: bit_simps)
  qed
  ultimately have "(crc32_bit ^^ 8) ?x = (crc32_bit ^^ 8) lo XOR drop_bit 8 c"
    by (simp only: funpow_linear[OF crc_bit_linear(1)])
  then show ?thesis unfolding crc32_byte_def using table_entry(1)[OF low_byte[of ?x]] by (simp add: lo_def)
qed

lemma crc24_byte_register: "take_bit 24 (crc24_byte b c) = take_bit 24 ((crc24_bit ^^ 8) (c XOR push_bit 16 (ucast b)))"
proof -
  let ?x = "c XOR push_bit 16 (ucast b)"
  define hi lo where "hi = (drop_bit 16 c XOR ucast b) AND 0xFF" and "lo = ?x XOR push_bit 16 hi"
  have ff: "(0xFF :: u32bit) = mask 8" by (simp add: mask_eq_exp_minus_1)
  have "(crc24_bit ^^ 8) lo = push_bit 8 lo"
    unfolding lo_def hi_def ff by (intro crc24_shift) (auto simp: bit_simps)
  moreover have "?x = push_bit 16 hi XOR lo" by (simp add: lo_def xor_ac)
  ultimately have "(crc24_bit ^^ 8) ?x = (crc24_bit ^^ 8) (push_bit 16 hi) XOR push_bit 8 lo"
    by (simp only: funpow_linear[OF crc_bit_linear(2)])
  moreover have "take_bit 24 (push_bit 8 lo) = take_bit 24 (push_bit 8 c)"
    unfolding lo_def hi_def ff by (intro bit_word_eqI) (auto simp: bit_simps)
  ultimately show ?thesis unfolding crc24_byte_def
    using table_entry(2)[OF low_byte[of "drop_bit 16 c XOR ucast b"]] by (simp add: hi_def take_bit_xor)
qed

text \<open>The register in the code keeps more than 24 bits, which never matter.\<close>

lemma crc24_low: "take_bit 24 c = take_bit 24 d \<Longrightarrow> take_bit 24 ((crc24_bit ^^ n) c) = take_bit 24 ((crc24_bit ^^ n) d)"
proof (induction n)
  case (Suc n)
  have "bit x 23 = bit y 23 \<and> take_bit 24 (push_bit 1 x) = take_bit 24 (push_bit 1 y)"
    if "take_bit 24 x = take_bit 24 y" for x y :: u32bit
  proof -
    have b: "bit x i = bit y i" if "i < 24" for i
      using arg_cong[OF \<open>take_bit 24 x = take_bit 24 y\<close>, of "\<lambda>z. bit z i"] that by (simp add: bit_simps)
    have "take_bit 24 (push_bit 1 x) = take_bit 24 (push_bit 1 y)"
      by (intro bit_word_eqI) (simp only: bit_take_bit_iff bit_push_bit_iff, use b in fastforce)
    then show ?thesis using b by simp
  qed
  from this[OF Suc.IH[OF Suc.prems]] show ?case by (simp add: crc24_bit_def take_bit_xor)
qed simp

lemma crc_registers:
  "fold crc32_byte m c = fold (\<lambda>b c. (crc32_bit ^^ 8) (c XOR ucast b)) m c"
  "take_bit 24 c = take_bit 24 d \<Longrightarrow>
     take_bit 24 (fold crc24_byte m c) = take_bit 24 (fold (\<lambda>b c. (crc24_bit ^^ 8) (c XOR push_bit 16 (ucast b))) m d)"
proof -
  show "fold crc32_byte m c = fold (\<lambda>b c. (crc32_bit ^^ 8) (c XOR ucast b)) m c"
    by (intro fold_cong) (simp_all add: crc32_byte_register fun_eq_iff)
  show "take_bit 24 c = take_bit 24 d \<Longrightarrow>
     take_bit 24 (fold crc24_byte m c) = take_bit 24 (fold (\<lambda>b c. (crc24_bit ^^ 8) (c XOR push_bit 16 (ucast b))) m d)"
  proof (induction m arbitrary: c d)
    case (Cons b m)
    let ?y = "push_bit 16 (ucast b) :: u32bit"
    have "take_bit 24 (c XOR ?y) = take_bit 24 (d XOR ?y)" using Cons.prems by (simp add: take_bit_xor)
    from crc24_low[OF this, of 8] have "take_bit 24 (crc24_byte b c) = take_bit 24 ((crc24_bit ^^ 8) (d XOR ?y))"
      by (simp only: crc24_byte_register)
    from Cons.IH[OF this] show ?case by simp
  qed simp
qed

section \<open>The sums of Adler32\<close>

text \<open>The sum of the bytes and the sum of its prefixes, with the initial 1.\<close>

definition adler_sums :: "byte list \<Rightarrow> nat \<times> nat \<Rightarrow> nat \<times> nat" where
  "adler_sums m s = fold (\<lambda>b s. (fst s + unat b, snd s + (fst s + unat b))) m s"

definition adler32_value :: "byte list \<Rightarrow> nat \<times> nat" where
  "adler32_value m = (let s = adler_sums m (1, 0) in (fst s mod 65521, snd s mod 65521))"

lemma adler_sums_append: "adler_sums (xs @ ys) s = adler_sums ys (adler_sums xs s)"
  by (simp add: adler_sums_def)

lemma adler_sums_mod:
  assumes "fst s mod 65521 = fst t mod 65521" and "snd s mod 65521 = snd t mod 65521"
  shows "fst (adler_sums m s) mod 65521 = fst (adler_sums m t) mod 65521 \<and>
    snd (adler_sums m s) mod 65521 = snd (adler_sums m t) mod 65521"
  using assms
proof (induction m arbitrary: s t)
  case (Cons b m)
  have "(fst s + unat b) mod 65521 = (fst t + unat b) mod 65521" using Cons.prems(1) by (rule mod_add_cong) simp
  moreover from this have "(snd s + (fst s + unat b)) mod 65521 = (snd t + (fst t + unat b)) mod 65521"
    using Cons.prems(2) by (intro mod_add_cong[of "snd s" _ "snd t"])
  ultimately show ?case using Cons.IH[of "(fst s + unat b, snd s + (fst s + unat b))" "(fst t + unat b, snd t + (fst t + unat b))"]
    by (simp add: adler_sums_def)
qed (simp add: adler_sums_def)

text \<open>How large they get, which is why 5552 bytes fit into 32 bits.\<close>

lemma adler_sums_bound:
  "fst (adler_sums m s) \<le> fst s + 255 * length m \<and>
   snd (adler_sums m s) \<le> snd s + length m * fst s + 255 * (length m * (length m + 1) div 2)"
proof (induction m rule: rev_induct)
  case (snoc b m)
  let ?n = "length m"
  have b: "unat b \<le> 255" using unat_less_base[of b] by simp
  have e: "(?n + 1) * (?n + 2) div 2 = ?n * (?n + 1) div 2 + (?n + 1)"
  proof -
    have "(?n + 1) * (?n + 2) = ?n * (?n + 1) + 2 * (?n + 1)" by (simp add: algebra_simps)
    then show ?thesis by simp
  qed
  have "fst (adler_sums m s) + unat b \<le> fst s + 255 * (?n + 1)" using snoc b by simp
  moreover from this have "snd (adler_sums m s) + (fst (adler_sums m s) + unat b) \<le>
      snd s + (?n + 1) * fst s + 255 * (?n * (?n + 1) div 2 + (?n + 1))"
    using snoc by (simp add: algebra_simps)
  ultimately show ?case unfolding e[symmetric] by (simp add: adler_sums_append) (simp add: adler_sums_def)
qed (simp add: adler_sums_def)

lemma adler32_bytes:
  assumes "fst (adler_sums m (unat a, unat b)) < 2 ^ 32" and "snd (adler_sums m (unat a, unat b)) < 2 ^ 32"
  shows "unat (fst (fold adler32_byte m (a, b))) = fst (adler_sums m (unat a, unat b)) \<and>
    unat (snd (fold adler32_byte m (a, b))) = snd (adler_sums m (unat a, unat b))"
  using assms
proof (induction m rule: rev_induct)
  case (snoc x m)
  define s where "s = adler_sums m (unat a, unat b)"
  have s: "adler_sums (m @ [x]) (unat a, unat b) = (fst s + unat x, snd s + (fst s + unat x))"
    by (simp add: adler_sums_append s_def) (simp add: adler_sums_def)
  note p = snoc.prems[unfolded s fst_conv snd_conv]
  define w where "w = fold adler32_byte m (a, b)"
  have "unat (fst w) = fst s \<and> unat (snd w) = snd s"
    using snoc.IH p unfolding s_def w_def by simp
  moreover have "unat (ucast x :: u32bit) = unat x" 
    using unat_less_base[of x] by (simp add: unsigned_ucast_eq take_bit_nat_eq_self)
  moreover have f: "fold adler32_byte (m @ [x]) (a, b) = adler32_byte x w" by (simp add: w_def)
  ultimately show ?case unfolding s f using p by (simp add: adler32_byte_def Let_def unat_plus)
qed (simp add: adler_sums_def)

lemma adler32_hash_value:
  assumes "length m \<le> 5552" and "unat (S1 s) < 65521" and "unat (S2 s) < 65521"
  shows "unat (S1 (adler32_hash m s)) = fst (adler_sums m (unat (S1 s), unat (S2 s))) mod 65521 \<and>
    unat (S2 (adler32_hash m s)) = snd (adler_sums m (unat (S1 s), unat (S2 s))) mod 65521"
proof -
  let ?s = "(unat (S1 s), unat (S2 s))" and ?n = "length m"
  have u: "unat (ucast x :: u32bit) = unat x" for x :: u16bit
    using unat_less_base[of x] by (simp add: unsigned_ucast_eq take_bit_nat_eq_self)
  have d: "unat (ucast (x mod 65521) :: u16bit) = unat x mod 65521" for x :: u32bit
  proof -
    have "unat (x mod 65521) = unat x mod 65521" by (simp add: unat_mod_distrib)
    moreover have "unat x mod 65521 < 65521" by simp
    ultimately show ?thesis by (simp add: unsigned_ucast_eq take_bit_nat_eq_self)
  qed
  have "?n * (?n + 1) div 2 \<le> 5552 * 5553 div 2" using assms(1) by (intro div_le_mono mult_le_mono) simp_all
  moreover have "?n * fst ?s \<le> 5552 * 65520" using assms by (intro mult_le_mono) simp_all
  ultimately have b: "fst (adler_sums m ?s) < 2 ^ 32" "snd (adler_sums m ?s) < 2 ^ 32"
    using adler_sums_bound[of m ?s] assms by simp_all
  show ?thesis
    using adler32_bytes[of m "ucast (S1 s)" "ucast (S2 s)", unfolded u, OF b] d
    by (simp add: adler32_hash_def unrolled_16_fold split_beta)
qed

definition adler32_absorbed :: "Adler32 \<Rightarrow> byte list \<Rightarrow> bool" where
  "adler32_absorbed s m \<longleftrightarrow> (unat (S1 s), unat (S2 s)) = adler32_value m"

lemma adler32_update_one:
  assumes "adler32_absorbed s m" and "length xs \<le> 5552"
  shows "adler32_absorbed (adler32_hash xs s) (m @ xs)"
proof -
  have v: "unat (S1 s) = fst (adler_sums m (1, 0)) mod 65521" "unat (S2 s) = snd (adler_sums m (1, 0)) mod 65521"
    using assms(1) by (simp_all add: adler32_absorbed_def adler32_value_def Let_def)
  then have "unat (S1 s) < 65521" "unat (S2 s) < 65521" by simp_all
  from adler32_hash_value[OF assms(2) this] show ?thesis
    using adler_sums_mod[of "(unat (S1 s), unat (S2 s))" "adler_sums m (1, 0)" xs] v
    by (simp add: adler32_absorbed_def adler32_value_def Let_def adler_sums_append)
qed

lemma adler32_update: "adler32_absorbed s m \<Longrightarrow> adler32_absorbed (adler32_add_data xs s) (m @ xs)"
proof (induction xs s arbitrary: m rule: adler32_add_data.induct)
  case (1 xs s)
  show ?case
  proof (cases "length xs \<ge> PROCESS_AMOUNT")
    case True
    have "adler32_absorbed (adler32_hash (take PROCESS_AMOUNT xs) s) (m @ take PROCESS_AMOUNT xs)"
      using 1(2) by (rule adler32_update_one) (simp add: PROCESS_AMOUNT_def)
    from 1(1)[OF True this] show ?thesis using True by (simp add: adler32_add_data.simps[of xs])
  next
    case False
    then have "length xs \<le> 5552" by (simp add: PROCESS_AMOUNT_def)
    from adler32_update_one[OF 1(2) this] show ?thesis using False by (simp add: adler32_add_data.simps[of xs])
  qed
qed

section \<open>As hash functions\<close>

text \<open>The checksum of a message: what \<open>final\<close> returns.\<close>

definition adler32_sum :: "byte list \<Rightarrow> byte list" where
  "adler32_sum m = store_be_u16 (of_nat (snd (adler32_value m))) @ store_be_u16 (of_nat (fst (adler32_value m)))"

definition crc32_sum :: "byte list \<Rightarrow> byte list" where
  "crc32_sum m = store_be_u32 (crc32_register m)"

definition crc24_sum :: "byte list \<Rightarrow> byte list" where
  "crc24_sum m = drop 1 (store_be_u32 (take_bit 24 (crc24_register m)))"

interpretation adler32: hash_function Adler32_fn adler32_absorbed adler32_sum
proof
  fix s m and xs :: "byte list"
  assume s: "adler32_absorbed s m"
  show "adler32_absorbed (add_data Adler32_fn xs s) (m @ xs)" using adler32_update[OF s] by (simp add: Adler32_fn_def)
  have "fst (adler32_value m) = unat (S1 s)" "snd (adler32_value m) = unat (S2 s)"
    using s unfolding adler32_absorbed_def by (metis fst_conv, metis snd_conv)
  then have "S1 s = of_nat (fst (adler32_value m))" "S2 s = of_nat (snd (adler32_value m))" by simp_all
  then show "\<exists>s'. final_result Adler32_fn s = Inr (adler32_sum m, s') \<and> adler32_absorbed s' []"
    by (simp add: Adler32_fn_def adler32_final_result_def adler32_sum_def adler32_clear_def adler32_absorbed_def
      adler32_value_def adler_sums_def)
  show "length (adler32_sum m) = OUTPUT_LENGTH Adler32_fn" by (simp add: adler32_sum_def store_be_u16_def Adler32_fn_def)
qed

definition crc32_absorbed :: "u32bit \<Rightarrow> byte list \<Rightarrow> bool" where
  "crc32_absorbed c m \<longleftrightarrow> c XOR 0xFFFFFFFF = crc32_register m"

interpretation crc32: hash_function CRC32_fn crc32_absorbed crc32_sum
proof
  fix c m and xs :: "byte list"
  assume c: "crc32_absorbed c m"
  then have "c XOR 0xFFFFFFFF = crc32_register m" by (simp only: crc32_absorbed_def)
  then have "(c XOR 0xFFFFFFFF) XOR 0xFFFFFFFF = crc32_register m XOR 0xFFFFFFFF"
    by (rule arg_cong[where f = "\<lambda>x. x XOR (0xFFFFFFFF :: u32bit)"])
  then have "c = fold crc32_byte m 0xFFFFFFFF"
    by (simp only: xor.assoc xor_self_eq xor.right_neutral crc32_register_def crc_registers(1))
  then show "crc32_absorbed (add_data CRC32_fn xs c) (m @ xs)"
    by (simp add: CRC32_fn_def crc32_add_data_def unrolled_16_fold crc32_absorbed_def crc32_register_def crc_registers(1))
  show "\<exists>s'. final_result CRC32_fn c = Inr (crc32_sum m, s') \<and> crc32_absorbed s' []"
    using c by (simp add: CRC32_fn_def crc32_final_result_def crc32_sum_def crc32_absorbed_def crc32_clear_def crc32_register_def Let_def)
  show "length (crc32_sum m) = OUTPUT_LENGTH CRC32_fn" by (simp add: crc32_sum_def store_be_u32_def CRC32_fn_def)
qed

definition crc24_absorbed :: "u32bit \<Rightarrow> byte list \<Rightarrow> bool" where
  "crc24_absorbed c m \<longleftrightarrow> take_bit 24 c = take_bit 24 (crc24_register m)"

lemma get_byte_24: "1 \<le> j \<Longrightarrow> j < 4 \<Longrightarrow> get_byte j (take_bit 24 x) = get_byte j (x :: u32bit)"
proof (intro bit_word_eqI)
  fix n assume j: "1 \<le> j" "j < 4" and n: "n < LENGTH(8)"
  have "8 * (3 - (j AND 3)) + n < 24"
  proof -
    have "j = 1 \<or> j = 2 \<or> j = 3" using j by linarith
    then show ?thesis using n by auto
  qed
  then show "bit (get_byte j (take_bit 24 x)) n = bit (get_byte j x) n" using n by (auto simp: get_byte_def bit_simps)
qed

interpretation crc24: hash_function CRC24_fn crc24_absorbed crc24_sum
proof
  fix c m and xs :: "byte list"
  assume c: "crc24_absorbed c m"
  show "crc24_absorbed (add_data CRC24_fn xs c) (m @ xs)"
    using crc_registers(2)[OF c[unfolded crc24_absorbed_def], of xs]
    by (simp add: CRC24_fn_def crc24_add_data_def unrolled_16_fold crc24_absorbed_def crc24_register_def)
  have "get_byte j c = get_byte j (take_bit 24 (crc24_register m))" if "1 \<le> j" "j < 4" for j
    using get_byte_24[OF that, of c] c by (simp add: crc24_absorbed_def)
  then show "\<exists>s'. final_result CRC24_fn c = Inr (crc24_sum m, s') \<and> crc24_absorbed s' []"
    by (simp add: CRC24_fn_def crc24_final_result_def crc24_sum_def crc24_absorbed_def crc24_clear_def crc24_register_def
      store_be_u32_def upt_rec numeral_2_eq_2 numeral_3_eq_3)
  show "length (crc24_sum m) = OUTPUT_LENGTH CRC24_fn" by (simp add: crc24_sum_def store_be_u32_def CRC24_fn_def)
qed

end
