(* ===== verification/Hash_Properties.thy ===== *)
theory Hash_Properties
  imports SHA160 MD4_MD5 SHA2 RIPEMD HAS_FORK TIGER WHIRLPOOL Checksum
begin

text \<open>
  What the hash functions compute: the digest of the padded message however it is cut into calls of \<open>update\<close>, with
  compression functions that are those of the standards; and the one that does not.
\<close>

text \<open>The Merkle-Damgard hash functions, over 32-bit and over 64-bit words. HAS-160 is not among them.\<close>

definition mdx_hashes_32 :: "u32bit list MDx_HashFunction list" where
  "mdx_hashes_32 = [SHA_160, MD4, MD5, SHA_224, SHA_256, RIPEMD_128, RIPEMD_160, FORK_256]"

definition mdx_hashes_64 :: "u64bit list MDx_HashFunction list" where
  "mdx_hashes_64 = [SHA_384, SHA_512, Tiger 16 3, Tiger 20 3, Tiger 24 3, Whirlpool]"

lemma mdx_hashes_ok: "p \<in> set mdx_hashes_32 \<Longrightarrow> mdx_ok p" "q \<in> set mdx_hashes_64 \<Longrightarrow> mdx_ok q"
  by (auto simp: mdx_hashes_32_def mdx_hashes_64_def SHA_160_ok MD4_ok MD5_ok sha256_ok sha512_ok RIPEMD_128_ok
    RIPEMD_160_ok FORK_256_ok Tiger_ok Whirlpool_ok)

lemma mdx_message:
  assumes "mdx_ok p"
  shows "\<exists>s. new_MDx p = Inr s \<and> (\<exists>s'. hash_pieces (mdx_hash p) xss s = Inr (md_digest p (concat xss), s') \<and>
    (\<exists>t. hash_pieces (mdx_hash p) yss s' = Inr (md_digest p (concat yss), t)) \<and>
    (\<exists>t. hash_pieces (mdx_hash p) yss (mdx_clear p (fold (mdx_add_data p) xss s)) = Inr (md_digest p (concat yss), t)))"
proof -
  note h = mdx_hash_ok[OF assms]
  note pieces = hash_function.pieces[OF clearing_hash.axioms(1)[OF h]]
  obtain s where s: "new_MDx p = Inr s" "mdx_absorbed p s []" using new_MDx_absorbed[OF assms] by blast
  obtain s' where s': "hash_pieces (mdx_hash p) xss s = Inr (md_digest p (concat xss), s')" "mdx_absorbed p s' []"
    using pieces[OF s(2), of xss] by auto
  have "mdx_absorbed p (mdx_clear p (fold (mdx_add_data p) xss s)) []"
    using clearing_hash.clear[OF h hash_function.updates[OF clearing_hash.axioms(1)[OF h] s(2), of xss]] by simp
  then show ?thesis using s s' pieces[of _ "[]" yss] by fastforce
qed

text \<open>C26. A message hashed by a new object, in pieces of any sizes, gives the digest of the padded message: the
  compression function over its blocks from the initial digest, where the padding is the bit, the least number of
  zeros and the length. The object can then be used again, after \<open>final\<close> as after \<open>clear\<close>. No call throws.\<close>

theorem hash_message:
  assumes "p \<in> set mdx_hashes_32" and "q \<in> set mdx_hashes_64"
  shows "(\<exists>s. new_MDx p = Inr s \<and> (\<exists>s'. hash_pieces (mdx_hash p) xss s = Inr (md_digest p (concat xss), s') \<and>
      (\<exists>t. hash_pieces (mdx_hash p) yss s' = Inr (md_digest p (concat yss), t)) \<and>
      (\<exists>t. hash_pieces (mdx_hash p) yss (mdx_clear p (fold (mdx_add_data p) xss s)) = Inr (md_digest p (concat yss), t)))) \<and>
    (\<exists>s. new_MDx q = Inr s \<and> (\<exists>s'. hash_pieces (mdx_hash q) xss s = Inr (md_digest q (concat xss), s') \<and>
      (\<exists>t. hash_pieces (mdx_hash q) yss s' = Inr (md_digest q (concat yss), t)) \<and>
      (\<exists>t. hash_pieces (mdx_hash q) yss (mdx_clear q (fold (mdx_add_data q) xss s)) = Inr (md_digest q (concat yss), t))))"
  using mdx_message[OF mdx_hashes_ok(1)[OF assms(1)]] mdx_message[OF mdx_hashes_ok(2)[OF assms(2)]]
  by (rule conjI)

theorem hash_message_witness:
  "\<exists>s s' t. new_MDx SHA_160 = Inr s \<and>
     hash_pieces (mdx_hash SHA_160) [[1, 2], [], [3]] s = Inr (md_digest SHA_160 [1, 2, 3], s') \<and>
     hash_pieces (mdx_hash SHA_160) [[4]] s' = Inr (md_digest SHA_160 [4], t)"
  using hash_message[of SHA_160 SHA_512 "[[1, 2], [], [3]]" "[[4]]"]
  by (auto simp: mdx_hashes_32_def mdx_hashes_64_def)

text \<open>C27. The unrolled compression functions with their rotating roles are the loops of the standards, for every block
  and digest: SHA-160 and SHA-2 of FIPS 180-2, MD4 of RFC 1320 and MD5 of RFC 1321. The constants of SHA-2 are the first
  bits of the fractional parts of the cube roots of the first primes.\<close>

theorem compression_standard:
  assumes "length d5 = 5" and "length d4 = 4" and "length d8 = 8" and "length e8 = 8"
  shows "sha1_block inp d5 = sha1_standard (load_be_u32 inp) d5 \<and>
    md4_block inp d4 = md4_standard (load_le_u32 inp) d4 \<and>
    md5_block inp d4 = md5_standard (load_le_u32 inp) d4 \<and>
    sha256_block inp d8 = sha256_standard (load_be_u32 inp) d8 \<and>
    sha512_block inp e8 = sha512_standard (load_be_u64 inp) e8 \<and>
    list_all2 (is_cbrt_frac 32) (take 64 primes80) (map uint sha256_K) \<and>
    list_all2 (is_cbrt_frac 64) (take 80 primes80) (map uint sha512_K)"
  using assms sha1_block_standard md4_block_standard md5_block_standard sha256_block_standard
    sha512_block_standard sha256_K_cube_roots sha512_K_cube_roots by blast

theorem compression_standard_witness:
  "sha1_block (replicate 64 7) [1, 2, 3, 4, 5] = sha1_standard (load_be_u32 (replicate 64 7)) [1, 2, 3, 4, 5]"
  using compression_standard[of "[1, 2, 3, 4, 5]" "[1, 2, 3, 4]" "[1, 2, 3, 4, 5, 6, 7, 8]" "[1, 2, 3, 4, 5, 6, 7, 8]"]
  by simp

text \<open>C28. HAS-160 reads only the first of the full blocks it is given in one call at a block boundary: replacing the
  others by anything does not change the digest, and they count as copies of the first.\<close>

theorem has160_collision:
  assumes "mdx_position s = 0" and "length a = 64" and "length b = length b'" and "64 dvd length b"
  shows "hash_process (mdx_hash HAS_160) (a @ b @ r) s = hash_process (mdx_hash HAS_160) (a @ b' @ r) s"
  using has160_update_ignores[OF assms] by (simp add: hash_process_def)

theorem has160_collision_witness:
  "\<exists>s. new_MDx HAS_160 = Inr s \<and>
     hash_process (mdx_hash HAS_160) (replicate 64 1 @ replicate 64 2 @ [3]) s =
     hash_process (mdx_hash HAS_160) (replicate 64 1 @ replicate 64 4 @ [3]) s"
proof -
  obtain s where s: "new_MDx HAS_160 = Inr s" "mdx_position s = 0" by (simp add: new_MDx_def HAS_160_def)
  then show ?thesis using has160_collision[OF s(2), of "replicate 64 1" "replicate 64 2" "replicate 64 4" "[3]"] by auto
qed

text \<open>C38. The checksums, for messages in any pieces and one after the other in the same object. Adler32 is the two sums
  modulo 65521: in the 5552 bytes between reductions they do not overflow 32 bits. CRC24 and CRC32, which go through a
  table sixteen bytes to a turn, are the shift registers of RFC 2440 and IEEE 802.3 that take a bit at a time.\<close>

theorem checksum_message:
  "(\<exists>s s'. hash_pieces Adler32_fn xss new_Adler32 = Inr (adler32_sum (concat xss), s) \<and>
     hash_pieces Adler32_fn yss s = Inr (adler32_sum (concat yss), s')) \<and>
   (\<exists>s s'. hash_pieces CRC32_fn xss (crc32_clear c) = Inr (crc32_sum (concat xss), s) \<and>
     hash_pieces CRC32_fn yss s = Inr (crc32_sum (concat yss), s')) \<and>
   (\<exists>s s'. hash_pieces CRC24_fn xss (crc24_clear d) = Inr (crc24_sum (concat xss), s) \<and>
     hash_pieces CRC24_fn yss s = Inr (crc24_sum (concat yss), s'))"
proof -
  have "adler32_absorbed new_Adler32 []" by (simp add: adler32_absorbed_def new_Adler32_def adler32_value_def adler_sums_def)
  moreover have "crc32_absorbed (crc32_clear c) []" by (simp add: crc32_absorbed_def crc32_clear_def crc32_register_def)
  moreover have "crc24_absorbed (crc24_clear d) []" by (simp add: crc24_absorbed_def crc24_clear_def crc24_register_def)
  ultimately show ?thesis
    using adler32.pieces[of _ "[]"] crc32.pieces[of _ "[]"] crc24.pieces[of _ "[]"] by (metis append_Nil)
qed

end
