(* ===== verification/MAC_Base.thy ===== *)
theory MAC_Base
  imports Hash_Base BlockCipher
begin

text \<open>
  Message authentication codes (\<open>src/mac/mac.h\<close>, \<open>mac.cpp\<close>): the virtual functions of a
  \<open>MessageAuthenticationCode\<close>, \<open>set_key\<close> and \<open>verify_mac\<close>, and what a client relies on. A state stands for a key
  and the message since; the locale \<open>mac_function\<close> has the laws and what follows from them.
\<close>

record 's MAC =
  mac_name :: string
  mac_output :: nat
  mac_keylength :: SymmetricAlgorithm
  mac_add_data :: "byte list \<Rightarrow> 's \<Rightarrow> 's"
  mac_final_result :: "'s \<Rightarrow> botan_error + byte list \<times> 's"
  mac_key_schedule :: "byte list \<Rightarrow> 's \<Rightarrow> botan_error + 's"
  mac_clear :: "'s \<Rightarrow> 's"

definition mac_set_key :: "'s MAC \<Rightarrow> byte list \<Rightarrow> 's \<Rightarrow> botan_error + 's" where
  "mac_set_key a key s =
     (if \<not> valid_keylength (mac_keylength a) (length key) then Inl (Invalid_Key_Length (mac_name a) (length key))
      else mac_key_schedule a key s)"

definition mac_process :: "'s MAC \<Rightarrow> byte list \<Rightarrow> 's \<Rightarrow> botan_error + byte list \<times> 's" where
  "mac_process a inp s = mac_final_result a (mac_add_data a inp s)"

definition mac_pieces :: "'s MAC \<Rightarrow> byte list list \<Rightarrow> 's \<Rightarrow> botan_error + byte list \<times> 's" where
  "mac_pieces a xss s = mac_final_result a (fold (mac_add_data a) xss s)"

text \<open>The loop of \<open>verify_mac\<close> over the last \<open>n\<close> bytes; a difference returns at once.\<close>

fun verify_loop :: "byte list \<Rightarrow> byte list \<Rightarrow> nat \<Rightarrow> nat \<Rightarrow> bool" where
  "verify_loop mac our_mac j 0 = True"
| "verify_loop mac our_mac j (Suc n) = (if mac ! j \<noteq> our_mac ! j then False else verify_loop mac our_mac (Suc j) n)"

definition verify_mac :: "'s MAC \<Rightarrow> byte list \<Rightarrow> 's \<Rightarrow> botan_error + bool \<times> 's" where
  "verify_mac a mac s =
     try_bind (mac_final_result a s) (\<lambda>(our_mac, s).
       if length our_mac \<noteq> length mac then Inr (False, s)
       else Inr (verify_loop mac our_mac 0 (length mac), s))"

lemma verify_loop_drop:
  "length mac = length our_mac \<Longrightarrow> j + n = length mac \<Longrightarrow> verify_loop mac our_mac j n \<longleftrightarrow> drop j mac = drop j our_mac"
proof (induction n arbitrary: j)
  case (Suc n)
  then have "drop j mac = mac ! j # drop (Suc j) mac" "drop j our_mac = our_mac ! j # drop (Suc j) our_mac"
    by (simp_all add: Cons_nth_drop_Suc)
  then show ?case using Suc by simp
qed simp

lemma verify_mac_val:
  "mac_final_result a s = Inr (m, s') \<Longrightarrow> verify_mac a mac s = Inr (mac = m, s')"
  using verify_loop_drop[of mac m 0 "length mac"] by (auto simp: verify_mac_def)

text \<open>The contract: \<open>I\<close> holds of an object between messages, \<open>R s k x\<close> of one with key \<open>k\<close> that has absorbed \<open>x\<close>, and
  \<open>M k x\<close> is the code of \<open>x\<close> under \<open>k\<close>.\<close>

definition mac_ok :: "'s MAC \<Rightarrow> ('s \<Rightarrow> bool) \<Rightarrow> ('s \<Rightarrow> byte list \<Rightarrow> byte list \<Rightarrow> bool) \<Rightarrow>
    (byte list \<Rightarrow> byte list \<Rightarrow> byte list) \<Rightarrow> bool" where
  "mac_ok a I R M \<longleftrightarrow>
     (\<forall>s k. I s \<longrightarrow> valid_keylength (mac_keylength a) (length k) \<longrightarrow> (\<exists>s'. mac_key_schedule a k s = Inr s' \<and> R s' k [])) \<and>
     (\<forall>s k x. R s k x \<longrightarrow> (x = [] \<longrightarrow> I s) \<and> (\<forall>ys. R (mac_add_data a ys s) k (x @ ys)) \<and>
        (\<exists>s'. mac_final_result a s = Inr (M k x, s') \<and> R s' k []) \<and> length (M k x) = mac_output a)"

locale mac_function =
  fixes a :: "'s MAC" and I :: "'s \<Rightarrow> bool" and R :: "'s \<Rightarrow> byte list \<Rightarrow> byte list \<Rightarrow> bool"
    and M :: "byte list \<Rightarrow> byte list \<Rightarrow> byte list"
  assumes key: "I s \<Longrightarrow> valid_keylength (mac_keylength a) (length k) \<Longrightarrow> \<exists>s'. mac_key_schedule a k s = Inr s' \<and> R s' k []"
    and keyed: "R s k [] \<Longrightarrow> I s"
    and update: "R s k x \<Longrightarrow> R (mac_add_data a ys s) k (x @ ys)"
    and final: "R s k x \<Longrightarrow> \<exists>s'. mac_final_result a s = Inr (M k x, s') \<and> R s' k []"
    and length_M: "R s k x \<Longrightarrow> length (M k x) = mac_output a"
begin

lemma set_key: "I s \<Longrightarrow> valid_keylength (mac_keylength a) (length k) \<Longrightarrow> \<exists>s'. mac_set_key a k s = Inr s' \<and> R s' k []"
  using key by (simp add: mac_set_key_def)

lemma updates: "R s k x \<Longrightarrow> R (fold (mac_add_data a) yss s) k (x @ concat yss)"
proof (induction yss arbitrary: s x)
  case (Cons ys yss)
  then show ?case using Cons.IH[OF update[OF Cons.prems, of ys]] by simp
qed simp

lemma pieces: "R s k x \<Longrightarrow> \<exists>s'. mac_pieces a yss s = Inr (M k (x @ concat yss), s') \<and> R s' k []"
  unfolding mac_pieces_def using final updates by blast

lemma process: "R s k x \<Longrightarrow> \<exists>s'. mac_process a ys s = Inr (M k (x @ ys), s') \<and> R s' k []"
  unfolding mac_process_def using final update by blast

lemma verify: "R s k x \<Longrightarrow> \<exists>s'. verify_mac a mac s = Inr (mac = M k x, s') \<and> R s' k []"
  using final[of s k x] verify_mac_val[of a s "M k x"] by fastforce

text \<open>Whatever was done with the object before, a key and a message give the code of that message.\<close>

theorem message:
  assumes "I s" and "valid_keylength (mac_keylength a) (length k)"
  shows "\<exists>t. mac_set_key a k s = Inr t \<and> (\<exists>t'. mac_pieces a xss t = Inr (M k (concat xss), t') \<and>
      (\<exists>u. mac_pieces a yss t' = Inr (M k (concat yss), u))) \<and>
    (\<exists>u. verify_mac a tag (fold (mac_add_data a) xss t) = Inr (tag = M k (concat xss), u))"
proof -
  obtain t where t: "mac_set_key a k s = Inr t" "R t k []" using set_key[OF assms] by blast
  obtain t' where "mac_pieces a xss t = Inr (M k (concat xss), t')" "R t' k []" using pieces[OF t(2), of xss] by auto
  then show ?thesis using t pieces[of t' k "[]" yss] verify[OF updates[OF t(2), of xss], of tag] by fastforce
qed

lemma is_ok: "mac_ok a I R M"
  unfolding mac_ok_def using key keyed update final length_M by blast

end

lemma mac_functionI: "mac_ok a I R M \<Longrightarrow> mac_function a I R M"
  by unfold_locales (auto simp: mac_ok_def)

end
