(* ===== verification/HMAC.thy ===== *)
theory HMAC
  imports MAC_Base Mode_Base
begin

text \<open>
  HMAC (\<open>src/mac/hmac/hmac.cpp\<close>) and the MAC of SSL 3 (\<open>src/mac/ssl3mac/ssl3_mac.cpp\<close>), over any hash function
  that keeps its contract and whose \<open>clear\<close> leaves a new object. The hash object is part of the state.
\<close>

record 's HMAC =
  hmac_hash :: 's
  i_key :: "byte list"
  o_key :: "byte list"

definition new_HMAC :: "'s HashFunction \<Rightarrow> 's \<Rightarrow> botan_error + 's HMAC" where
  "new_HMAC h hash =
     (if HASH_BLOCK_SIZE h = 0 then Inl (Invalid_Argument (''HMAC cannot be used with '' @ hash_name h))
      else Inr \<lparr>hmac_hash = hash, i_key = reg_create (HASH_BLOCK_SIZE h), o_key = reg_create (HASH_BLOCK_SIZE h)\<rparr>)"

definition hmac_add_data :: "'s HashFunction \<Rightarrow> byte list \<Rightarrow> 's HMAC \<Rightarrow> 's HMAC" where
  "hmac_add_data h inp s = s\<lparr>hmac_hash := add_data h inp (hmac_hash s)\<rparr>"

definition hmac_final_result :: "'s HashFunction \<Rightarrow> 's HMAC \<Rightarrow> botan_error + byte list \<times> 's HMAC" where
  "hmac_final_result h s =
     try_bind (final_result h (hmac_hash s)) (\<lambda>(mac, hash).
       let hash = add_data h (o_key s) hash;
           hash = add_data h (take (OUTPUT_LENGTH h) mac) hash
       in try_bind (final_result h hash) (\<lambda>(mac, hash).
            Inr (mac, s\<lparr>hmac_hash := add_data h (i_key s) hash\<rparr>)))"

definition hmac_key_schedule :: "'s HashFunction \<Rightarrow> byte list \<Rightarrow> 's HMAC \<Rightarrow> botan_error + 's HMAC" where
  "hmac_key_schedule h key s =
     (let hash = hash_clear h (hmac_hash s);
          ik = replicate (length (i_key s)) 0x36;
          ok = replicate (length (o_key s)) 0x5C
      in try_bind
          (if length key > HASH_BLOCK_SIZE h then
             try_bind (hash_process h key hash) (\<lambda>(hmac_key, hash).
               Inr (hash, xor_buf ik hmac_key (length hmac_key), xor_buf ok hmac_key (length hmac_key)))
           else Inr (hash, xor_buf ik key (length key), xor_buf ok key (length key)))
          (\<lambda>(hash, ik, ok). Inr (s\<lparr>hmac_hash := add_data h ik hash, i_key := ik, o_key := ok\<rparr>)))"

definition hmac_clear :: "'s HashFunction \<Rightarrow> 's HMAC \<Rightarrow> 's HMAC" where
  "hmac_clear h s =
     s\<lparr>hmac_hash := hash_clear h (hmac_hash s), i_key := reg_clear (i_key s), o_key := reg_clear (o_key s)\<rparr>"

definition hmac :: "'s HashFunction \<Rightarrow> 's HMAC MAC" where
  "hmac h =
     \<lparr>mac_name = ''HMAC('' @ hash_name h @ '')'', mac_output = OUTPUT_LENGTH h,
      mac_keylength = new_SymmetricAlgorithm 1 (2 * HASH_BLOCK_SIZE h) 1, mac_add_data = hmac_add_data h,
      mac_final_result = hmac_final_result h, mac_key_schedule = hmac_key_schedule h, mac_clear = hmac_clear h\<rparr>"

text \<open>SSL 3: the constructor, the key schedule; the rest is the same code.\<close>

definition INNER_HASH_LENGTH :: "'s HashFunction \<Rightarrow> nat" where
  "INNER_HASH_LENGTH h = (if hash_name h = ''SHA-160'' then 60 else HASH_BLOCK_SIZE h)"

definition new_SSL3_MAC :: "'s HashFunction \<Rightarrow> 's \<Rightarrow> botan_error + 's HMAC" where
  "new_SSL3_MAC h hash =
     (if HASH_BLOCK_SIZE h = 0 then Inl (Invalid_Argument (''SSL3-MAC cannot be used with '' @ hash_name h))
      else Inr \<lparr>hmac_hash = hash, i_key = reg_create (INNER_HASH_LENGTH h), o_key = reg_create (INNER_HASH_LENGTH h)\<rparr>)"

definition ssl3_add_data :: "'s HashFunction \<Rightarrow> byte list \<Rightarrow> 's HMAC \<Rightarrow> 's HMAC" where
  "ssl3_add_data h inp s = s\<lparr>hmac_hash := add_data h inp (hmac_hash s)\<rparr>"

definition ssl3_final_result :: "'s HashFunction \<Rightarrow> 's HMAC \<Rightarrow> botan_error + byte list \<times> 's HMAC" where
  "ssl3_final_result h s =
     try_bind (final_result h (hmac_hash s)) (\<lambda>(mac, hash).
       let hash = add_data h (o_key s) hash;
           hash = add_data h (take (OUTPUT_LENGTH h) mac) hash
       in try_bind (final_result h hash) (\<lambda>(mac, hash).
            Inr (mac, s\<lparr>hmac_hash := add_data h (i_key s) hash\<rparr>)))"

definition ssl3_key_schedule :: "'s HashFunction \<Rightarrow> byte list \<Rightarrow> 's HMAC \<Rightarrow> botan_error + 's HMAC" where
  "ssl3_key_schedule h key s =
     (let hash = hash_clear h (hmac_hash s);
          ik = reg_copy (replicate (length (i_key s)) 0x36) 0 key (length key);
          ok = reg_copy (replicate (length (o_key s)) 0x5C) 0 key (length key)
      in Inr (s\<lparr>hmac_hash := add_data h ik hash, i_key := ik, o_key := ok\<rparr>))"

definition ssl3_clear :: "'s HashFunction \<Rightarrow> 's HMAC \<Rightarrow> 's HMAC" where
  "ssl3_clear h s =
     s\<lparr>hmac_hash := hash_clear h (hmac_hash s), i_key := reg_clear (i_key s), o_key := reg_clear (o_key s)\<rparr>"

definition ssl3_mac :: "'s HashFunction \<Rightarrow> 's HMAC MAC" where
  "ssl3_mac h =
     \<lparr>mac_name = ''SSL3-MAC('' @ hash_name h @ '')'', mac_output = OUTPUT_LENGTH h,
      mac_keylength = new_SymmetricAlgorithm (OUTPUT_LENGTH h) 0 1, mac_add_data = ssl3_add_data h,
      mac_final_result = ssl3_final_result h, mac_key_schedule = ssl3_key_schedule h, mac_clear = ssl3_clear h\<rparr>"

section \<open>The codes\<close>

text \<open>RFC 2104, and section 5.2.3.1 of the SSL 3.0 specification.\<close>

definition hmac_key :: "nat \<Rightarrow> (byte list \<Rightarrow> byte list) \<Rightarrow> byte list \<Rightarrow> byte list" where
  "hmac_key B H k = (let k' = (if length k > B then H k else k) in k' @ replicate (B - length k') 0)"

definition hmac_code :: "nat \<Rightarrow> (byte list \<Rightarrow> byte list) \<Rightarrow> byte list \<Rightarrow> byte list \<Rightarrow> byte list" where
  "hmac_code B H k m =
     H (xor_bytes (hmac_key B H k) (replicate B 0x5C) @ H (xor_bytes (hmac_key B H k) (replicate B 0x36) @ m))"

definition ssl3_code :: "nat \<Rightarrow> (byte list \<Rightarrow> byte list) \<Rightarrow> byte list \<Rightarrow> byte list \<Rightarrow> byte list" where
  "ssl3_code B H k m =
     H (k @ replicate (B - length k) 0x5C @ H (k @ replicate (B - length k) 0x36 @ m))"

text \<open>Both have an inner and an outer prefix.\<close>

definition nested_object :: "('s \<Rightarrow> byte list \<Rightarrow> bool) \<Rightarrow> nat \<Rightarrow> 's HMAC \<Rightarrow> bool" where
  "nested_object R n s \<longleftrightarrow> (\<exists>m. R (hmac_hash s) m) \<and> length (i_key s) = n \<and> length (o_key s) = n"

definition nested_absorbed ::
  "('s \<Rightarrow> byte list \<Rightarrow> bool) \<Rightarrow> nat \<Rightarrow> (byte \<Rightarrow> byte list \<Rightarrow> byte list) \<Rightarrow> 's HMAC \<Rightarrow> byte list \<Rightarrow> byte list \<Rightarrow> bool" where
  "nested_absorbed R n pre s k x \<longleftrightarrow>
     R (hmac_hash s) (pre 0x36 k @ x) \<and> i_key s = pre 0x36 k \<and> o_key s = pre 0x5C k \<and>
     length (pre 0x36 k) = n \<and> length (pre 0x5C k) = n"

lemma xor_buf_fill:
  assumes "length k \<le> n"
  shows "xor_buf (replicate n c) k (length k) = xor_bytes (k @ replicate (n - length k) 0) (replicate n c)"
proof -
  have "xor_buf (replicate n c) k (length k) = xor_bytes (replicate (length k) c) k @ replicate (n - length k) c"
    using xor_buf_map2[of "length k" "replicate n c" k] assms by (simp add: min_def)
  also have "xor_bytes (replicate (length k) c) k = xor_bytes k (replicate (length k) c)"
    by (rule xor_bytes_commute)
  also have "\<dots> @ replicate (n - length k) c =
      xor_bytes (k @ replicate (n - length k) 0) (replicate (length k) c @ replicate (n - length k) c)"
    by (simp add: zip_replicate)
  finally show ?thesis using assms by (simp flip: replicate_add)
qed

context clearing_hash begin

lemma nested_final:
  assumes "nested_absorbed R n pre s k x"
  shows "\<exists>s'. hmac_final_result h s = Inr (H (pre 0x5C k @ H (pre 0x36 k @ x)), s') \<and> nested_absorbed R n pre s' k []"
proof -
  have s: "R (hmac_hash s) (pre 0x36 k @ x)" "i_key s = pre 0x36 k" "o_key s = pre 0x5C k"
    using assms by (simp_all add: nested_absorbed_def)
  let ?m = "H (pre 0x36 k @ x)"
  obtain u where u: "final_result h (hmac_hash s) = Inr (?m, u)" "R u []" using final[OF s(1)] by blast
  have m: "take (OUTPUT_LENGTH h) ?m = ?m" using length_H[OF s(1)] by simp
  have "R (add_data h ?m (add_data h (pre 0x5C k) u)) (pre 0x5C k @ ?m)"
    using update[OF update[OF u(2), where xs = "pre 0x5C k"], where xs = ?m] by simp
  then obtain t where "final_result h (add_data h ?m (add_data h (pre 0x5C k) u)) = Inr (H (pre 0x5C k @ ?m), t)" "R t []"
    using final by blast
  then show ?thesis using u(1) s m assms update[of t "[]" "pre 0x36 k"]
    by (simp add: hmac_final_result_def nested_absorbed_def)
qed

text \<open>What the two have in common; \<open>pre c k\<close> is the prefix with the filler \<open>c\<close>.\<close>

lemma nested_mac:
  assumes "mac_add_data a = hmac_add_data h" and "mac_final_result a = hmac_final_result h" and "mac_output a = OUTPUT_LENGTH h"
    and key: "\<And>s k. nested_object R n s \<Longrightarrow> valid_keylength (mac_keylength a) (length k) \<Longrightarrow>
      \<exists>hash. mac_key_schedule a k s = Inr (s\<lparr>hmac_hash := add_data h (pre 0x36 k) hash, i_key := pre 0x36 k, o_key := pre 0x5C k\<rparr>) \<and>
        R hash [] \<and> length (pre 0x36 k) = n \<and> length (pre 0x5C k) = n"
  shows "mac_function a (nested_object R n) (nested_absorbed R n pre) (\<lambda>k x. H (pre 0x5C k @ H (pre 0x36 k @ x)))"
proof
  fix s and k :: "byte list" assume "nested_object R n s" "valid_keylength (mac_keylength a) (length k)"
  then obtain hash where "mac_key_schedule a k s =
      Inr (s\<lparr>hmac_hash := add_data h (pre 0x36 k) hash, i_key := pre 0x36 k, o_key := pre 0x5C k\<rparr>)" "R hash []"
      "length (pre 0x36 k) = n" "length (pre 0x5C k) = n" using key by blast
  then show "\<exists>s'. mac_key_schedule a k s = Inr s' \<and> nested_absorbed R n pre s' k []"
    using update[of hash "[]" "pre 0x36 k"] by (simp add: nested_absorbed_def)
next
  fix s and k x ys :: "byte list" assume s: "nested_absorbed R n pre s k x"
  then have r: "R (hmac_hash s) (pre 0x36 k @ x)" by (simp add: nested_absorbed_def)
  show "nested_absorbed R n pre (mac_add_data a ys s) k (x @ ys)"
    using s update[OF r, of ys] by (simp add: assms(1) hmac_add_data_def nested_absorbed_def)
  show "\<exists>s'. mac_final_result a s = Inr (H (pre 0x5C k @ H (pre 0x36 k @ x)), s') \<and> nested_absorbed R n pre s' k []"
    using nested_final[OF s] by (simp add: assms(2))
  obtain u where "R u (pre 0x5C k @ H (pre 0x36 k @ x))"
    using final[OF r] update[where m = "[]"] update by fastforce
  then show "length (H (pre 0x5C k @ H (pre 0x36 k @ x))) = mac_output a" using length_H assms(3) by simp
next
  fix s and k :: "byte list" assume "nested_absorbed R n pre s k []"
  then show "nested_object R n s" by (auto simp: nested_absorbed_def nested_object_def)
qed

theorem hmac_ok:
  assumes "OUTPUT_LENGTH h \<le> HASH_BLOCK_SIZE h"
  defines "n \<equiv> HASH_BLOCK_SIZE h"
  shows "mac_function (hmac h) (nested_object R n) (nested_absorbed R n (\<lambda>c k. xor_bytes (hmac_key n H k) (replicate n c)))
    (hmac_code n H)"
proof -
  let ?pre = "\<lambda>c k. xor_bytes (hmac_key n H k) (replicate n c)"
  have "mac_function (hmac h) (nested_object R n) (nested_absorbed R n ?pre) (\<lambda>k x. H (?pre 0x5C k @ H (?pre 0x36 k @ x)))"
  proof (rule nested_mac)
    fix s and k :: "byte list" assume "nested_object R n s"
    then obtain m where m: "R (hmac_hash s) m" "length (i_key s) = n" "length (o_key s) = n" by (auto simp: nested_object_def)
    note c = clear[OF m(1)]
    have l: "length (H k) \<le> n" using length_H[OF update[OF c, of k]] assms by simp
    show "\<exists>hash. mac_key_schedule (hmac h) k s = Inr (s\<lparr>hmac_hash := add_data h (?pre 0x36 k) hash, i_key := ?pre 0x36 k, o_key := ?pre 0x5C k\<rparr>) \<and>
        R hash [] \<and> length (?pre 0x36 k) = n \<and> length (?pre 0x5C k) = n"
    proof (cases "n < length k")
      case True
      obtain u where u: "hash_process h k (hash_clear h (hmac_hash s)) = Inr (H k, u)" "R u []"
        using clear_process[OF m(1)] by blast
      show ?thesis using True u m xor_buf_fill[OF l] l
        by (intro exI[of _ u]) (simp add: hmac_def hmac_key_schedule_def hmac_key_def Let_def n_def)
    next
      case False
      then show ?thesis using m c xor_buf_fill[of k n]
        by (intro exI[of _ "hash_clear h (hmac_hash s)"]) (simp add: hmac_def hmac_key_schedule_def hmac_key_def Let_def n_def)
    qed
  qed (simp_all add: hmac_def)
  then show ?thesis by (simp add: hmac_code_def[abs_def])
qed

theorem ssl3_ok:
  assumes "OUTPUT_LENGTH h \<le> INNER_HASH_LENGTH h"
  defines "n \<equiv> INNER_HASH_LENGTH h"
  shows "mac_function (ssl3_mac h) (nested_object R n) (nested_absorbed R n (\<lambda>c k. k @ replicate (n - length k) c)) (ssl3_code n H)"
proof -
  let ?pre = "\<lambda>c k. k @ replicate (n - length k) c"
  have "mac_function (ssl3_mac h) (nested_object R n) (nested_absorbed R n ?pre) (\<lambda>k x. H (?pre 0x5C k @ H (?pre 0x36 k @ x)))"
  proof (rule nested_mac)
    show "mac_add_data (ssl3_mac h) = hmac_add_data h"
      by (simp add: ssl3_mac_def fun_eq_iff ssl3_add_data_def hmac_add_data_def)
    show "mac_final_result (ssl3_mac h) = hmac_final_result h"
      by (simp add: ssl3_mac_def fun_eq_iff ssl3_final_result_def hmac_final_result_def)
    fix s and k :: "byte list" assume "nested_object R n s" and k: "valid_keylength (mac_keylength (ssl3_mac h)) (length k)"
    then obtain m where m: "R (hmac_hash s) m" "length (i_key s) = n" "length (o_key s) = n" by (auto simp: nested_object_def)
    have "length k \<le> n" using k assms by (simp add: ssl3_mac_def valid_keylength_def new_SymmetricAlgorithm_def)
    then show "\<exists>hash. mac_key_schedule (ssl3_mac h) k s = Inr (s\<lparr>hmac_hash := add_data h (?pre 0x36 k) hash, i_key := ?pre 0x36 k, o_key := ?pre 0x5C k\<rparr>) \<and>
        R hash [] \<and> length (?pre 0x36 k) = n \<and> length (?pre 0x5C k) = n"
      using m clear[OF m(1)]
      by (intro exI[of _ "hash_clear h (hmac_hash s)"])
        (simp add: ssl3_mac_def ssl3_key_schedule_def reg_copy_def at_ptr_def copy_mem_def Let_def)
  qed (simp_all add: ssl3_mac_def)
  then show ?thesis by (simp add: ssl3_code_def[abs_def])
qed

end

end
