(* ===== verification/Cipher_MAC.thy ===== *)
theory Cipher_MAC
  imports MAC_Base Mode_Base
begin

text \<open>
  The MACs over a block cipher: CBC-MAC (\<open>src/mac/cbc_mac/cbc_mac.cpp\<close>), the ANSI X9.19 MAC
  (\<open>src/mac/x919_mac/x919_mac.cpp\<close>) and CMAC (\<open>src/mac/cmac/cmac.cpp\<close>). The cipher is an object that can be
  keyed, a \<open>CipherAlgorithm\<close>; the keyed cipher is part of the state. The first two encrypt a block as soon as it
  is full, CMAC only when more input arrives: they are the two kinds of \<open>byte_machine\<close>.
\<close>

record CipherAlgorithm =
  alg_name :: string
  alg_block :: nat
  alg_keylength :: SymmetricAlgorithm
  alg_schedule :: "byte list \<Rightarrow> nat \<Rightarrow> BlockCipher"
  alg_clear :: "BlockCipher \<Rightarrow> BlockCipher"

definition alg_set_key :: "CipherAlgorithm \<Rightarrow> byte list \<Rightarrow> nat \<Rightarrow> botan_error + BlockCipher" where
  "alg_set_key alg key n = set_key (alg_keylength alg) (alg_name alg) (alg_schedule alg) key n"

definition alg_ok :: "CipherAlgorithm \<Rightarrow> bool" where
  "alg_ok alg \<longleftrightarrow> 0 < alg_block alg \<and>
     (\<forall>k n. cipher_ok (alg_schedule alg k n) \<and> block_size (alg_schedule alg k n) = alg_block alg)"

section \<open>CBC-MAC\<close>

record CBC_MAC =
  cm_e :: BlockCipher
  cm_state :: "byte list"
  cm_position :: nat

text \<open>\<open>while(length >= n)\<close>; a cipher with blocks of no bytes would not return.\<close>

fun cbc_mac_loop :: "BlockCipher \<Rightarrow> nat \<Rightarrow> byte list \<Rightarrow> byte list \<Rightarrow> byte list \<times> byte list" where
  "cbc_mac_loop e n inp st =
     (if 0 < n \<and> length inp \<ge> n then cbc_mac_loop e n (drop n inp) (encrypt e (xor_buf st inp n)) else (inp, st))"

declare cbc_mac_loop.simps [simp del]

definition cbc_mac_add_data :: "CipherAlgorithm \<Rightarrow> byte list \<Rightarrow> CBC_MAC \<Rightarrow> CBC_MAC" where
  "cbc_mac_add_data alg inp s =
     (let n = alg_block alg;
          xored = min (n - cm_position s) (length inp);
          s = s\<lparr>cm_state := at_ptr (cm_position s) (\<lambda>p. xor_buf p inp xored) (cm_state s),
                cm_position := cm_position s + xored\<rparr>
      in if cm_position s < n then s
         else
           let st = encrypt (cm_e s) (cm_state s);
               (inp, st) = cbc_mac_loop (cm_e s) n (drop xored inp) st
           in s\<lparr>cm_state := xor_buf st inp (length inp), cm_position := length inp\<rparr>)"

definition cbc_mac_final_result :: "CipherAlgorithm \<Rightarrow> CBC_MAC \<Rightarrow> botan_error + byte list \<times> CBC_MAC" where
  "cbc_mac_final_result alg s =
     (let s = (if cm_position s \<noteq> 0 then s\<lparr>cm_state := encrypt (cm_e s) (cm_state s)\<rparr> else s)
      in Inr (cm_state s, s\<lparr>cm_state := reg_clear (cm_state s), cm_position := 0\<rparr>))"

definition cbc_mac_key_schedule :: "CipherAlgorithm \<Rightarrow> byte list \<Rightarrow> CBC_MAC \<Rightarrow> botan_error + CBC_MAC" where
  "cbc_mac_key_schedule alg key s = try_bind (alg_set_key alg key (length key)) (\<lambda>e. Inr (s\<lparr>cm_e := e\<rparr>))"

definition cbc_mac_clear :: "CipherAlgorithm \<Rightarrow> CBC_MAC \<Rightarrow> CBC_MAC" where
  "cbc_mac_clear alg s = s\<lparr>cm_e := alg_clear alg (cm_e s), cm_state := reg_clear (cm_state s), cm_position := 0\<rparr>"

definition new_CBC_MAC :: "CipherAlgorithm \<Rightarrow> BlockCipher \<Rightarrow> CBC_MAC" where
  "new_CBC_MAC alg e = \<lparr>cm_e = e, cm_state = reg_create (alg_block alg), cm_position = 0\<rparr>"

definition cbc_mac :: "CipherAlgorithm \<Rightarrow> CBC_MAC MAC" where
  "cbc_mac alg =
     \<lparr>mac_name = ''CBC-MAC('' @ alg_name alg @ '')'', mac_output = alg_block alg, mac_keylength = alg_keylength alg,
      mac_add_data = cbc_mac_add_data alg, mac_final_result = cbc_mac_final_result alg,
      mac_key_schedule = cbc_mac_key_schedule alg, mac_clear = cbc_mac_clear alg\<rparr>"

section \<open>The ANSI X9.19 MAC\<close>

record X919_MAC =
  x9_e :: BlockCipher
  x9_d :: BlockCipher
  x9_state :: "byte list"
  x9_position :: nat

definition x919_add_data :: "byte list \<Rightarrow> X919_MAC \<Rightarrow> X919_MAC" where
  "x919_add_data inp s =
     (let xored = min (8 - x9_position s) (length inp);
          s = s\<lparr>x9_state := at_ptr (x9_position s) (\<lambda>p. xor_buf p inp xored) (x9_state s),
                x9_position := x9_position s + xored\<rparr>
      in if x9_position s < 8 then s
         else
           let st = encrypt (x9_e s) (x9_state s);
               (inp, st) = cbc_mac_loop (x9_e s) 8 (drop xored inp) st
           in s\<lparr>x9_state := xor_buf st inp (length inp), x9_position := length inp\<rparr>)"

definition x919_final_result :: "X919_MAC \<Rightarrow> botan_error + byte list \<times> X919_MAC" where
  "x919_final_result s =
     (let s = (if x9_position s \<noteq> 0 then s\<lparr>x9_state := encrypt (x9_e s) (x9_state s)\<rparr> else s);
          mac = decrypt (x9_d s) (x9_state s);
          mac = encrypt (x9_e s) mac
      in Inr (mac, s\<lparr>x9_state := reg_clear (x9_state s), x9_position := 0\<rparr>))"

text \<open>The second cipher gets the eight bytes behind the first eight; the model of the read behind the key's end is
  what is left of it.\<close>

definition x919_key_schedule :: "CipherAlgorithm \<Rightarrow> byte list \<Rightarrow> X919_MAC \<Rightarrow> botan_error + X919_MAC" where
  "x919_key_schedule alg key s =
     try_bind (alg_set_key alg key 8) (\<lambda>e.
     try_bind (if length key = 8 then alg_set_key alg key 8 else alg_set_key alg (drop 8 key) 8) (\<lambda>d.
       Inr (s\<lparr>x9_e := e, x9_d := d\<rparr>)))"

definition x919_clear :: "CipherAlgorithm \<Rightarrow> X919_MAC \<Rightarrow> X919_MAC" where
  "x919_clear alg s =
     s\<lparr>x9_e := alg_clear alg (x9_e s), x9_d := alg_clear alg (x9_d s), x9_state := reg_clear (x9_state s), x9_position := 0\<rparr>"

definition new_X919_MAC :: "CipherAlgorithm \<Rightarrow> BlockCipher \<Rightarrow> BlockCipher \<Rightarrow> botan_error + X919_MAC" where
  "new_X919_MAC alg e d =
     (if alg_name alg \<noteq> ''DES'' then Inl (Invalid_Argument ''ANSI X9.19 MAC only supports DES'')
      else Inr \<lparr>x9_e = e, x9_d = d, x9_state = reg_create 8, x9_position = 0\<rparr>)"

definition x919_mac :: "CipherAlgorithm \<Rightarrow> X919_MAC MAC" where
  "x919_mac alg =
     \<lparr>mac_name = ''X9.19-MAC'', mac_output = alg_block alg,
      mac_keylength = new_SymmetricAlgorithm (MINIMUM_KEYLENGTH (alg_keylength alg))
        (2 * MAXIMUM_KEYLENGTH (alg_keylength alg)) (2 * KEYLENGTH_MULTIPLE (alg_keylength alg)),
      mac_add_data = x919_add_data, mac_final_result = x919_final_result,
      mac_key_schedule = x919_key_schedule alg, mac_clear = x919_clear alg\<rparr>"

section \<open>CMAC\<close>

record CMAC =
  cmac_e :: BlockCipher
  cmac_buffer :: "byte list"
  cmac_state :: "byte list"
  cmac_B :: "byte list"
  cmac_P :: "byte list"
  cmac_position :: nat

definition cmac_polynomial :: "CipherAlgorithm \<Rightarrow> byte" where
  "cmac_polynomial alg = (if alg_block alg = 16 then 0x87 else 0x1B)"

definition new_CMAC :: "CipherAlgorithm \<Rightarrow> BlockCipher \<Rightarrow> botan_error + CMAC" where
  "new_CMAC alg e =
     (if alg_block alg \<noteq> 16 \<and> alg_block alg \<noteq> 8 then Inl (Invalid_Argument (''CMAC cannot use the cipher '' @ alg_name alg))
      else
        let n = alg_block alg
        in Inr \<lparr>cmac_e = e, cmac_buffer = reg_create n, cmac_state = reg_create n, cmac_B = reg_create n,
                cmac_P = reg_create n, cmac_position = 0\<rparr>)"

definition poly_double_step :: "nat \<Rightarrow> byte list \<times> byte \<Rightarrow> byte list \<times> byte" where
  "poly_double_step j s = (case s of (out, carry) \<Rightarrow>
     let temp = out ! (j - 1) in (out[j - 1 := push_bit 1 temp OR carry], drop_bit 7 temp))"

definition poly_double :: "byte list \<Rightarrow> byte \<Rightarrow> byte list" where
  "poly_double inp polynomial =
     (let do_xor = (inp ! 0 AND 0x80 \<noteq> 0);
          (out, carry) = for_down (length inp) 0 poly_double_step (inp, 0)
      in if do_xor then out[length out - 1 := out ! (length out - 1) XOR polynomial] else out)"

fun cmac_loop :: "BlockCipher \<Rightarrow> nat \<Rightarrow> byte list \<Rightarrow> byte list \<Rightarrow> byte list \<times> byte list" where
  "cmac_loop e n inp st =
     (if 0 < n \<and> length inp > n then cmac_loop e n (drop n inp) (encrypt e (xor_buf st inp n)) else (inp, st))"

declare cmac_loop.simps [simp del]

definition cmac_add_data :: "CipherAlgorithm \<Rightarrow> byte list \<Rightarrow> CMAC \<Rightarrow> CMAC" where
  "cmac_add_data alg inp s =
     (let n = alg_block alg;
          s = s\<lparr>cmac_buffer := reg_copy (cmac_buffer s) (cmac_position s) inp (length inp)\<rparr>
      in if cmac_position s + length inp > n then
           let st = encrypt (cmac_e s) (xor_buf (cmac_state s) (cmac_buffer s) n);
               (inp, st) = cmac_loop (cmac_e s) n (drop (n - cmac_position s) inp) st
           in s\<lparr>cmac_state := st, cmac_buffer := reg_copy (cmac_buffer s) 0 inp (length inp), cmac_position := length inp\<rparr>
         else s\<lparr>cmac_position := cmac_position s + length inp\<rparr>)"

definition cmac_final_result :: "CipherAlgorithm \<Rightarrow> CMAC \<Rightarrow> botan_error + byte list \<times> CMAC" where
  "cmac_final_result alg s =
     (let n = alg_block alg;
          st = xor_buf (cmac_state s) (cmac_buffer s) (cmac_position s);
          st = (if cmac_position s = n then xor_buf st (cmac_B s) n
                else xor_buf (st[cmac_position s := st ! cmac_position s XOR 0x80]) (cmac_P s) n);
          st = encrypt (cmac_e s) st
      in Inr (take n st, s\<lparr>cmac_state := reg_clear st, cmac_buffer := reg_clear (cmac_buffer s), cmac_position := 0\<rparr>))"

definition cmac_clear :: "CipherAlgorithm \<Rightarrow> CMAC \<Rightarrow> CMAC" where
  "cmac_clear alg s =
     s\<lparr>cmac_e := alg_clear alg (cmac_e s), cmac_state := reg_clear (cmac_state s), cmac_buffer := reg_clear (cmac_buffer s),
       cmac_B := reg_clear (cmac_B s), cmac_P := reg_clear (cmac_P s), cmac_position := 0\<rparr>"

definition cmac_key_schedule :: "CipherAlgorithm \<Rightarrow> byte list \<Rightarrow> CMAC \<Rightarrow> botan_error + CMAC" where
  "cmac_key_schedule alg key s =
     (let s = cmac_clear alg s
      in try_bind (alg_set_key alg key (length key)) (\<lambda>e.
           let B = encrypt e (cmac_B s);
               B = poly_double B (cmac_polynomial alg);
               P = poly_double B (cmac_polynomial alg)
           in Inr (s\<lparr>cmac_e := e, cmac_B := B, cmac_P := P\<rparr>)))"

definition cmac :: "CipherAlgorithm \<Rightarrow> CMAC MAC" where
  "cmac alg =
     \<lparr>mac_name = ''CMAC('' @ alg_name alg @ '')'', mac_output = alg_block alg, mac_keylength = alg_keylength alg,
      mac_add_data = cmac_add_data alg, mac_final_result = cmac_final_result alg,
      mac_key_schedule = cmac_key_schedule alg, mac_clear = cmac_clear alg\<rparr>"

section \<open>The codes\<close>

fun chop :: "nat \<Rightarrow> byte list \<Rightarrow> byte list list" where
  "chop n xs = (if n = 0 \<or> xs = [] then [] else take n xs # chop n (drop n xs))"

declare chop.simps [simp del]

definition zero_pad :: "nat \<Rightarrow> byte list \<Rightarrow> byte list" where
  "zero_pad n m = m @ replicate ((n - length m mod n) mod n) 0"

definition cbc_chain :: "(byte list \<Rightarrow> byte list) \<Rightarrow> byte list list \<Rightarrow> byte list \<Rightarrow> byte list" where
  "cbc_chain E bs c = fold (\<lambda>b c. E (xor_bytes c b)) bs c"

definition cbc_mac_code :: "BlockCipher \<Rightarrow> byte list \<Rightarrow> byte list" where
  "cbc_mac_code e m = cbc_chain (encrypt e) (chop (block_size e) (zero_pad (block_size e) m)) (replicate (block_size e) 0)"

definition x919_code :: "BlockCipher \<Rightarrow> BlockCipher \<Rightarrow> byte list \<Rightarrow> byte list" where
  "x919_code e d m = encrypt e (decrypt d (cbc_mac_code e m))"

text \<open>NIST SP 800-38B: all blocks but the last are chained; the last is masked with the first subkey when it is full
  and padded and masked with the second otherwise.\<close>

definition cmac_code :: "BlockCipher \<Rightarrow> byte \<Rightarrow> byte list \<Rightarrow> byte list" where
  "cmac_code e poly m =
     (let n = block_size e; q = (length m - 1) div n;
          C = cbc_chain (encrypt e) (chop n (take (q * n) m)) (replicate n 0);
          r = drop (q * n) m;
          K1 = poly_double (encrypt e (replicate n 0)) poly;
          K2 = poly_double K1 poly
      in encrypt e (xor_bytes C (if length r = n then xor_bytes r K1
           else xor_bytes (r @ 0x80 # replicate (n - Suc (length r)) 0) K2)))"

end
