(* ===== verification/Cipher_MAC_Proofs.thy ===== *)
theory Cipher_MAC_Proofs
  imports Cipher_MAC
begin

text \<open>
  The MACs of \<open>Cipher_MAC\<close> keep the contract \<open>mac_function\<close>, with the codes of the standards as their values.
\<close>

section \<open>Messages as blocks\<close>

lemma chop_blocks:
  assumes "0 < n" and "\<And>p. p \<in> set ps \<Longrightarrow> length p = n"
  shows "chop n (concat ps @ r) = ps @ chop n r"
  using assms(2)
proof (induction ps)
  case (Cons p ps)
  then have "length p = n" "p \<noteq> []" using assms(1) by force+
  then show ?case using Cons assms(1) by (simp add: chop.simps[of n "p @ _"])
qed simp

lemma chop_nil [simp]: "chop n [] = []"
  by (simp add: chop.simps)

lemma chop_one: "0 < n \<Longrightarrow> xs \<noteq> [] \<Longrightarrow> length xs \<le> n \<Longrightarrow> chop n xs = [xs]"
  by (simp add: chop.simps[of n xs])

lemma cbc_chain_simps [simp]:
  "cbc_chain E [] c = c" "cbc_chain E (b # bs) c = cbc_chain E bs (E (xor_bytes c b))"
  "cbc_chain E (as @ bs) c = cbc_chain E bs (cbc_chain E as c)"
  by (simp_all add: cbc_chain_def)

lemma length_cbc_chain:
  "length c = n \<Longrightarrow> (\<And>x. length x = n \<Longrightarrow> length (E x) = n) \<Longrightarrow> (\<And>b. b \<in> set bs \<Longrightarrow> length b = n) \<Longrightarrow>
    length (cbc_chain E bs c) = n"
  by (induction bs arbitrary: c) simp_all

lemma length_concat_same: "(\<And>p. p \<in> set ps \<Longrightarrow> length p = n) \<Longrightarrow> length (concat ps) = n * length ps"
  by (induction ps) simp_all

section \<open>CBC-MAC and X9.19\<close>

text \<open>The machine: a byte is xored into the state, a full state is encrypted.\<close>

definition cm_absorb :: "byte \<Rightarrow> byte list \<times> nat \<Rightarrow> byte list \<times> nat" where
  "cm_absorb b s = (case s of (st, p) \<Rightarrow> (st[p := st ! p XOR b], Suc p))"

definition cm_flush :: "BlockCipher \<Rightarrow> byte list \<times> nat \<Rightarrow> byte list \<times> nat" where
  "cm_flush e s = (encrypt e (fst s), 0)"

abbreviation cm_step :: "BlockCipher \<Rightarrow> byte \<Rightarrow> byte list \<times> nat \<Rightarrow> byte list \<times> nat" where
  "cm_step e \<equiv> eager_step (block_size e) snd cm_absorb (cm_flush e)"

definition cm_wf :: "nat \<Rightarrow> byte list \<times> nat \<Rightarrow> bool" where
  "cm_wf n s \<longleftrightarrow> length (fst s) = n \<and> snd s \<le> n"

lemma cm_machine:
  assumes "cipher_ok e"
  shows "byte_machine (block_size e) snd cm_absorb (cm_flush e) (cm_wf (block_size e))"
  using cipher_okD[OF assms] by unfold_locales (auto simp: cm_wf_def cm_absorb_def cm_flush_def)

lemma fold_cm_absorb:
  "p + length xs \<le> length st \<Longrightarrow> fold cm_absorb xs (st, p) = (at_ptr p (\<lambda>q. xor_buf q xs (length xs)) st, p + length xs)"
proof (induction xs arbitrary: st p)
  case Nil
  then show ?case by (simp add: at_ptr_def xor_buf_map2)
next
  case (Cons b xs)
  have p: "p < length st" using Cons.prems by simp
  have "drop p st = st ! p # drop (Suc p) st" using p by (simp add: Cons_nth_drop_Suc)
  moreover have "take (Suc p) (st[p := x]) = take p st @ [x]" for x using p by (simp add: take_Suc_conv_app_nth)
  ultimately show ?case using Cons.prems Cons.IH[of "Suc p" "st[p := st ! p XOR b]"]
    by (simp add: cm_absorb_def at_ptr_def xor_buf_map2 min_def)
qed

lemma xor_buf_prefix: "n \<le> length out \<Longrightarrow> n \<le> length xs \<Longrightarrow> xor_buf out (take n xs) n = xor_buf out xs n"
  by (simp add: xor_buf_map2)

lemma xor_buf_all: "length out = n \<Longrightarrow> n \<le> length xs \<Longrightarrow> xor_buf out xs n = xor_bytes out (take n xs)"
  by (simp add: xor_buf_map2)

lemma at_ptr_0 [simp]: "at_ptr 0 f xs = f xs"
  by (simp add: at_ptr_def)

lemma cm_chunk:
  assumes e: "cipher_ok e" and st: "length st = block_size e" and p: "p < block_size e" "p + length xs \<le> block_size e"
  shows "fold (cm_step e) xs (st, p) =
    (let s = (at_ptr p (\<lambda>q. xor_buf q xs (length xs)) st, p + length xs) in if snd s = block_size e then cm_flush e s else s)"
  using byte_machine.eager_chunk[OF cm_machine[OF e], of "(st, p)" xs] fold_cm_absorb[of p xs st] st p
  by (simp add: cm_wf_def)

lemma cm_block:
  assumes "cipher_ok e" and "length st = block_size e" and "length b = block_size e"
  shows "fold (cm_step e) b (st, 0) = (encrypt e (xor_bytes st b), 0)"
  using cm_chunk[OF assms(1,2), of 0 b] assms cipher_okD(1)[OF assms(1)]
  by (simp add: cm_flush_def xor_buf_all)

lemma cm_tail:
  assumes "cipher_ok e" and "length st = block_size e" and "length r < block_size e"
  shows "fold (cm_step e) r (st, 0) = (xor_buf st r (length r), length r)"
  using cm_chunk[OF assms(1,2), of 0 r] assms by simp

lemma cbc_mac_loop_steps:
  assumes e: "cipher_ok e" and st: "length st = block_size e"
  shows "\<exists>r st'. cbc_mac_loop e (block_size e) inp st = (r, st') \<and> length r < block_size e \<and> length st' = block_size e \<and>
    fold (cm_step e) inp (st, 0) = (xor_buf st' r (length r), length r)"
  using st
proof (induction "length inp" arbitrary: inp st rule: less_induct)
  case less
  let ?n = "block_size e"
  show ?case
  proof (cases "length inp < ?n")
    case True
    then show ?thesis using less.prems cm_tail[OF e] by (simp add: cbc_mac_loop.simps[of e ?n inp st])
  next
    case False
    let ?st = "encrypt e (xor_bytes st (take ?n inp))"
    have l: "length ?st = ?n" using less.prems False cipher_okD(2)[OF e] by simp
    have loop: "cbc_mac_loop e ?n inp st = cbc_mac_loop e ?n (drop ?n inp) ?st"
      using False cipher_okD(1)[OF e] less.prems by (simp add: cbc_mac_loop.simps[of e ?n inp st] xor_buf_all)
    have "fold (cm_step e) inp (st, 0) = fold (cm_step e) (drop ?n inp) (fold (cm_step e) (take ?n inp) (st, 0))"
      by (metis append_take_drop_id comp_apply fold_append)
    also have "\<dots> = fold (cm_step e) (drop ?n inp) (?st, 0)" using cm_block[OF e less.prems, of "take ?n inp"] False by simp
    finally show ?thesis using less.hyps[of "drop ?n inp" ?st] l loop False cipher_okD(1)[OF e] by simp
  qed
qed

lemma cm_add_data:
  assumes e: "cipher_ok e" and st: "length st = block_size e" and p: "p < block_size e"
    and k: "k = min (block_size e - p) (length inp)" and st': "st' = at_ptr p (\<lambda>q. xor_buf q inp k) st"
  shows "fold (cm_step e) inp (st, p) =
      (if p + k < block_size e then (st', p + k)
       else let (r, u) = cbc_mac_loop e (block_size e) (drop k inp) (encrypt e st') in (xor_buf u r (length r), length r))"
proof -
  let ?n = "block_size e"
  have kn: "p + k \<le> ?n" "k \<le> length inp" using p by (simp_all add: k)
  then have tk: "length (take k inp) = k" by simp
  have l: "length st' = ?n" using st kn by (simp add: st' at_ptr_def xor_buf_map2)
  have "xor_buf (drop p st) (take k inp) k = xor_buf (drop p st) inp k" using st kn by (intro xor_buf_prefix) simp_all
  then have "at_ptr p (\<lambda>q. xor_buf q (take k inp) k) st = st'" by (simp add: st' at_ptr_def)
  moreover have "fold (cm_step e) inp (st, p) = fold (cm_step e) (drop k inp) (fold (cm_step e) (take k inp) (st, p))"
    by (metis append_take_drop_id comp_apply fold_append)
  ultimately have split: "fold (cm_step e) inp (st, p) =
      fold (cm_step e) (drop k inp) (if p + k = ?n then (encrypt e st', 0) else (st', p + k))"
    using cm_chunk[OF e st p, of "take k inp"] kn unfolding tk by (simp add: Let_def cm_flush_def)
  show ?thesis
  proof (cases "p + k < ?n")
    case True
    then have "k = length inp" by (simp add: k)
    then show ?thesis using True split by simp
  next
    case False
    then have "p + k = ?n" using kn by simp
    then show ?thesis using split cbc_mac_loop_steps[OF e, of "encrypt e st'" "drop k inp"] cipher_okD(2)[OF e l] by auto
  qed
qed

text \<open>What the machine computes.\<close>

lemma cm_blocks:
  assumes e: "cipher_ok e" and "\<And>p. p \<in> set ps \<Longrightarrow> length p = block_size e" and "length st = block_size e"
  shows "fold (cm_step e) (concat ps) (st, 0) = (cbc_chain (encrypt e) ps st, 0)"
  using assms(2,3)
proof (induction ps arbitrary: st)
  case (Cons p ps)
  then show ?case using cm_block[OF e Cons.prems(2), of p] cipher_okD(2)[OF e] by simp
qed simp

lemma cm_message:
  assumes e: "cipher_ok e"
  shows "let s = fold (cm_step e) m (replicate (block_size e) 0, 0)
    in (if snd s \<noteq> 0 then encrypt e (fst s) else fst s) = cbc_mac_code e m \<and> cm_wf (block_size e) s \<and> snd s < block_size e"
proof -
  let ?n = "block_size e" and ?z = "replicate (block_size e) (0 :: byte)"
  have n: "0 < ?n" using cipher_okD(1)[OF e] .
  obtain ps r where m: "m = concat ps @ r" "\<forall>p \<in> set ps. length p = ?n" "length r = length m mod ?n"
    using split_message[OF n] by blast
  have r: "length r < ?n" using m(3) n by simp
  define st where "st = cbc_chain (encrypt e) ps ?z"
  have l: "length st = ?n" unfolding st_def using m(2) cipher_okD(2)[OF e] by (intro length_cbc_chain) simp_all
  have run: "fold (cm_step e) m (?z, 0) = (xor_buf st r (length r), length r)"
    using cm_blocks[OF e, of ps ?z] m cm_tail[OF e l r] by (simp add: st_def)
  have "zero_pad ?n m = concat ps @ zero_pad ?n r"
    using r by (simp add: zero_pad_def m(1) flip: m(3)) (metis m(1,3) length_append mod_less)
  then have code: "cbc_mac_code e m = cbc_chain (encrypt e) (chop ?n (zero_pad ?n r)) st"
    using chop_blocks[OF n, of ps] m(2) by (simp add: cbc_mac_code_def st_def)
  have "(if length r \<noteq> 0 then encrypt e (xor_buf st r (length r)) else xor_buf st r (length r)) = cbc_mac_code e m"
  proof (cases "r = []")
    case True
    then show ?thesis using code by (simp add: zero_pad_def xor_buf_map2)
  next
    case False
    have pad: "zero_pad ?n r = r @ replicate (?n - length r) 0" using r False by (simp add: zero_pad_def)
    have "xor_bytes st (r @ replicate (?n - length r) 0) = xor_buf st r (length r)"
      using r l by (simp add: xor_buf_map2 zip_append2 zip_replicate2 min_def comp_def)
    then show ?thesis using False code r by (simp add: pad chop_one)
  qed
  moreover have "length (xor_buf st r (length r)) = ?n" using r l by (simp add: xor_buf_map2)
  ultimately show ?thesis using run r by (cases "r = []") (simp_all add: Let_def cm_wf_def)
qed


definition cbc_mac_object :: "CipherAlgorithm \<Rightarrow> CBC_MAC \<Rightarrow> bool" where
  "cbc_mac_object alg s \<longleftrightarrow> cm_state s = replicate (alg_block alg) 0 \<and> cm_position s = 0"

definition cbc_mac_absorbed :: "CipherAlgorithm \<Rightarrow> CBC_MAC \<Rightarrow> byte list \<Rightarrow> byte list \<Rightarrow> bool" where
  "cbc_mac_absorbed alg s k x \<longleftrightarrow> valid_keylength (alg_keylength alg) (length k) \<and> cm_e s = alg_schedule alg k (length k) \<and>
     (cm_state s, cm_position s) = fold (cm_step (cm_e s)) x (replicate (alg_block alg) 0, 0)"

lemma alg_okD:
  assumes "alg_ok alg"
  shows "0 < alg_block alg" "cipher_ok (alg_schedule alg k n)" "block_size (alg_schedule alg k n) = alg_block alg"
  using assms by (simp_all add: alg_ok_def)

lemma alg_set_key_ok: "valid_keylength (alg_keylength alg) n \<Longrightarrow> alg_set_key alg k n = Inr (alg_schedule alg k n)"
  by (simp add: alg_set_key_def set_key_def)

theorem cbc_mac_ok:
  assumes "alg_ok alg"
  shows "mac_function (cbc_mac alg) (cbc_mac_object alg) (cbc_mac_absorbed alg)
    (\<lambda>k x. cbc_mac_code (alg_schedule alg k (length k)) x)"
proof
  fix s and k :: "byte list"
  assume s: "cbc_mac_object alg s" and "valid_keylength (mac_keylength (cbc_mac alg)) (length k)"
  then have k: "valid_keylength (alg_keylength alg) (length k)" by (simp add: cbc_mac_def)
  then show "\<exists>s'. mac_key_schedule (cbc_mac alg) k s = Inr s' \<and> cbc_mac_absorbed alg s' k []"
    using s by (simp add: cbc_mac_def cbc_mac_key_schedule_def alg_set_key_ok cbc_mac_absorbed_def cbc_mac_object_def)
next
  fix s and k x ys :: "byte list"
  let ?e = "alg_schedule alg k (length k)"
  note e = alg_okD(1)[OF assms] alg_okD(2,3)[OF assms, of k "length k"]
  assume s: "cbc_mac_absorbed alg s k x"
  then have k: "cm_e s = ?e" "valid_keylength (alg_keylength alg) (length k)" by (simp_all add: cbc_mac_absorbed_def)
  have v: "fold (cm_step ?e) x (replicate (block_size ?e) 0, 0) = (cm_state s, cm_position s)"
    using s by (simp add: cbc_mac_absorbed_def e(3) k(1))
  have w: "(if cm_position s \<noteq> 0 then encrypt ?e (cm_state s) else cm_state s) = cbc_mac_code ?e x"
      "length (cm_state s) = block_size ?e" "cm_position s < block_size ?e"
    using cm_message[OF e(2), of x] unfolding v Let_def fst_conv snd_conv cm_wf_def by blast+
  note add = cm_add_data[OF e(2) w(2,3) refl refl, of ys]
  have "(cm_state (mac_add_data (cbc_mac alg) ys s), cm_position (mac_add_data (cbc_mac alg) ys s)) =
      fold (cm_step ?e) ys (cm_state s, cm_position s)"
    unfolding add using w(3) by (simp add: cbc_mac_def cbc_mac_add_data_def Let_def k e(3) split: prod.split)
  moreover have "cm_e (mac_add_data (cbc_mac alg) ys s) = ?e"
    by (simp add: cbc_mac_def cbc_mac_add_data_def Let_def k split: prod.split)
  ultimately show "cbc_mac_absorbed alg (mac_add_data (cbc_mac alg) ys s) k (x @ ys)"
    using v k by (simp add: cbc_mac_absorbed_def e(3))
  have len: "length (cbc_mac_code ?e x) = alg_block alg"
    using w(1,2) cipher_okD(2)[OF e(2), of "cm_state s"] e(3) by (cases "cm_position s = 0") auto
  then show "length (cbc_mac_code ?e x) = mac_output (cbc_mac alg)" by (simp add: cbc_mac_def)
  show "\<exists>s'. mac_final_result (cbc_mac alg) s = Inr (cbc_mac_code ?e x, s') \<and> cbc_mac_absorbed alg s' k []"
    using w(1) k len by (cases "cm_position s = 0")
      (auto simp: cbc_mac_def cbc_mac_final_result_def cbc_mac_absorbed_def reg_clear_def Let_def w(2) e(3))
next
  fix s and k :: "byte list"
  assume "cbc_mac_absorbed alg s k []"
  then show "cbc_mac_object alg s" by (simp add: cbc_mac_absorbed_def cbc_mac_object_def)
qed

text \<open>X9.19: the machine is that of CBC-MAC with blocks of eight bytes.\<close>

definition x919_d_key :: "byte list \<Rightarrow> byte list" where
  "x919_d_key k = (if length k = 8 then k else drop 8 k)"

definition x919_object :: "X919_MAC \<Rightarrow> bool" where
  "x919_object s \<longleftrightarrow> x9_state s = replicate 8 0 \<and> x9_position s = 0"

definition x919_absorbed :: "CipherAlgorithm \<Rightarrow> X919_MAC \<Rightarrow> byte list \<Rightarrow> byte list \<Rightarrow> bool" where
  "x919_absorbed alg s k x \<longleftrightarrow> x9_e s = alg_schedule alg k 8 \<and> x9_d s = alg_schedule alg (x919_d_key k) 8 \<and>
     (x9_state s, x9_position s) = fold (cm_step (x9_e s)) x (replicate 8 0, 0)"

theorem x919_ok:
  assumes "alg_ok alg" and "alg_block alg = 8" and "valid_keylength (alg_keylength alg) 8"
  shows "mac_function (x919_mac alg) x919_object (x919_absorbed alg)
    (\<lambda>k x. x919_code (alg_schedule alg k 8) (alg_schedule alg (x919_d_key k) 8) x)"
proof
  fix s and k :: "byte list"
  assume s: "x919_object s" and "valid_keylength (mac_keylength (x919_mac alg)) (length k)"
  show "\<exists>s'. mac_key_schedule (x919_mac alg) k s = Inr s' \<and> x919_absorbed alg s' k []"
    using s alg_set_key_ok[OF assms(3)]
    by (simp add: x919_mac_def x919_key_schedule_def x919_absorbed_def x919_object_def x919_d_key_def)
next
  fix s and k x ys :: "byte list"
  let ?e = "alg_schedule alg k 8" and ?d = "alg_schedule alg (x919_d_key k) 8"
  note e = alg_okD(2,3)[OF assms(1), of k 8, unfolded assms(2)]
    and d = alg_okD(2,3)[OF assms(1), of "x919_d_key k" 8, unfolded assms(2)]
  assume s: "x919_absorbed alg s k x"
  then have k: "x9_e s = ?e" "x9_d s = ?d" by (simp_all add: x919_absorbed_def)
  have v: "fold (cm_step ?e) x (replicate (block_size ?e) 0, 0) = (x9_state s, x9_position s)"
    using s by (simp add: x919_absorbed_def e(2) k(1))
  have w: "(if x9_position s \<noteq> 0 then encrypt ?e (x9_state s) else x9_state s) = cbc_mac_code ?e x"
      "length (x9_state s) = block_size ?e" "x9_position s < block_size ?e"
    using cm_message[OF e(1), of x] unfolding v Let_def fst_conv snd_conv cm_wf_def by blast+
  note add = cm_add_data[OF e(1) w(2,3) refl refl, of ys]
  have "(x9_state (mac_add_data (x919_mac alg) ys s), x9_position (mac_add_data (x919_mac alg) ys s)) =
      fold (cm_step ?e) ys (x9_state s, x9_position s)"
    unfolding add using w(3) by (simp add: x919_mac_def x919_add_data_def Let_def k e(2) split: prod.split)
  moreover have "x9_e (mac_add_data (x919_mac alg) ys s) = ?e" "x9_d (mac_add_data (x919_mac alg) ys s) = ?d"
    by (simp_all add: x919_mac_def x919_add_data_def Let_def k split: prod.split)
  ultimately show "x919_absorbed alg (mac_add_data (x919_mac alg) ys s) k (x @ ys)"
    using v k by (simp add: x919_absorbed_def e(2))
  have len: "length (cbc_mac_code ?e x) = 8"
    using w(1,2) cipher_okD(2)[OF e(1), of "x9_state s"] e(2) by (cases "x9_position s = 0") auto
  then show "length (x919_code ?e ?d x) = mac_output (x919_mac alg)"
    using cipher_okD(2)[OF e(1)] cipher_okD(3)[OF d(1)] e(2) d(2) by (simp add: x919_mac_def x919_code_def assms(2))
  show "\<exists>s'. mac_final_result (x919_mac alg) s = Inr (x919_code ?e ?d x, s') \<and> x919_absorbed alg s' k []"
    using w(1) k len by (cases "x9_position s = 0")
      (auto simp: x919_mac_def x919_final_result_def x919_absorbed_def x919_code_def reg_clear_def Let_def w(2) e(2))
next
  fix s and k :: "byte list"
  assume "x919_absorbed alg s k []"
  then show "x919_object s" by (simp add: x919_absorbed_def x919_object_def)
qed

section \<open>CMAC\<close>

text \<open>The machine: a byte is put into the buffer, a full buffer is chained when the next byte arrives.\<close>

definition cmac_absorb :: "byte \<Rightarrow> byte list \<times> byte list \<Rightarrow> byte list \<times> byte list" where
  "cmac_absorb b s = (fst s, snd s @ [b])"

definition cmac_flush :: "BlockCipher \<Rightarrow> byte list \<times> byte list \<Rightarrow> byte list \<times> byte list" where
  "cmac_flush e s = (encrypt e (xor_bytes (fst s) (snd s)), [])"

abbreviation cmac_step :: "BlockCipher \<Rightarrow> byte \<Rightarrow> byte list \<times> byte list \<Rightarrow> byte list \<times> byte list" where
  "cmac_step e \<equiv> lazy_step (block_size e) (\<lambda>s. length (snd s)) cmac_absorb (cmac_flush e)"

definition cmac_wf :: "nat \<Rightarrow> byte list \<times> byte list \<Rightarrow> bool" where
  "cmac_wf n s \<longleftrightarrow> length (fst s) = n \<and> length (snd s) \<le> n"

lemma cmac_machine:
  assumes "cipher_ok e"
  shows "byte_machine (block_size e) (\<lambda>s. length (snd s)) cmac_absorb (cmac_flush e) (cmac_wf (block_size e))"
  using cipher_okD[OF assms] by unfold_locales (auto simp: cmac_wf_def cmac_absorb_def cmac_flush_def)

lemma fold_cmac_absorb: "fold cmac_absorb xs (st, bf) = (st, bf @ xs)"
  by (induction xs arbitrary: bf) (simp_all add: cmac_absorb_def)

lemma cmac_chunk:
  assumes "cipher_ok e" and "length st = block_size e" and "length (bf @ xs) \<le> block_size e"
  shows "fold (cmac_step e) xs (st, bf) = (st, bf @ xs)"
  using byte_machine.lazy_chunk[OF cmac_machine[OF assms(1)], of "(st, bf)" xs] assms
  by (simp add: cmac_wf_def fold_cmac_absorb)

lemma cmac_full:
  assumes e: "cipher_ok e" and st: "length st = block_size e" and b: "length b = block_size e" and "xs \<noteq> []"
  shows "fold (cmac_step e) xs (st, b) = fold (cmac_step e) xs (encrypt e (xor_bytes st b), [])"
  using byte_machine.lazy_flush[OF cmac_machine[OF e], of "(st, b)" xs] assms by (simp add: cmac_wf_def cmac_flush_def)

lemma cmac_next:
  assumes e: "cipher_ok e" and st: "length st = block_size e" and l: "length bf \<le> block_size e"
    and k: "k = block_size e - length bf" "k < length xs"
  shows "fold (cmac_step e) xs (st, bf) = fold (cmac_step e) (drop k xs) (encrypt e (xor_bytes st (bf @ take k xs)), [])"
proof -
  have len: "length (bf @ take k xs) = block_size e" "drop k xs \<noteq> []" using l k by simp_all
  have "fold (cmac_step e) xs (st, bf) = fold (cmac_step e) (drop k xs) (fold (cmac_step e) (take k xs) (st, bf))"
    by (metis append_take_drop_id comp_apply fold_append)
  then show ?thesis using cmac_chunk[OF e st, of bf "take k xs"] cmac_full[OF e st len] len(1) by simp
qed

lemma cmac_loop_steps:
  assumes e: "cipher_ok e" and "length st = block_size e" and "inp \<noteq> []"
  shows "\<exists>r st'. cmac_loop e (block_size e) inp st = (r, st') \<and> length r \<le> block_size e \<and>
    fold (cmac_step e) inp (st, []) = (st', r)"
  using assms(2,3)
proof (induction "length inp" arbitrary: inp st rule: less_induct)
  case less
  let ?n = "block_size e"
  show ?case
  proof (cases "length inp \<le> ?n")
    case True
    then show ?thesis using less.prems cmac_chunk[OF e less.prems(1), of "[]" inp] by (simp add: cmac_loop.simps[of e ?n inp st])
  next
    case False
    let ?st = "encrypt e (xor_bytes st (take ?n inp))"
    have l: "length ?st = ?n" using less.prems False cipher_okD(2)[OF e] by simp
    have loop: "cmac_loop e ?n inp st = cmac_loop e ?n (drop ?n inp) ?st"
      using False cipher_okD(1)[OF e] less.prems by (simp add: cmac_loop.simps[of e ?n inp st] xor_buf_all)
    have "fold (cmac_step e) inp (st, []) = fold (cmac_step e) (drop ?n inp) (?st, [])"
      using cmac_next[OF e less.prems(1), of "[]" ?n inp] False by simp
    then show ?thesis using less.hyps[of "drop ?n inp" ?st] l loop False cipher_okD(1)[OF e] by simp
  qed
qed

lemma cmac_add_data_steps:
  assumes e: "cipher_ok (cmac_e s)" "block_size (cmac_e s) = alg_block alg" and st: "length (cmac_state s) = alg_block alg"
    and b: "length (cmac_buffer s) = alg_block alg" "cmac_position s \<le> alg_block alg"
  shows "let s' = cmac_add_data alg inp s in
    (cmac_state s', take (cmac_position s') (cmac_buffer s')) =
      fold (cmac_step (cmac_e s)) inp (cmac_state s, take (cmac_position s) (cmac_buffer s)) \<and>
    length (cmac_buffer s') = alg_block alg \<and> cmac_position s' \<le> alg_block alg \<and>
    cmac_e s' = cmac_e s \<and> cmac_B s' = cmac_B s \<and> cmac_P s' = cmac_P s"
proof -
  let ?n = "alg_block alg" and ?q = "cmac_position s" and ?bf = "take (cmac_position s) (cmac_buffer s)"
  let ?buf = "reg_copy (cmac_buffer s) ?q inp (length inp)"
  have l: "length ?bf = ?q" using b by simp
  show ?thesis
  proof (cases "?q + length inp > ?n")
    case False
    have c: "take (?q + length inp) ?buf = ?bf @ inp" "length ?buf = ?n"
      using take_reg_copy(1,2)[of ?q "length inp" "cmac_buffer s" inp] False b(1) by simp_all
    have "fold (cmac_step (cmac_e s)) inp (cmac_state s, ?bf) = (cmac_state s, ?bf @ inp)"
      using cmac_chunk[OF e(1), of "cmac_state s" ?bf inp] st b False l e(2) by simp
    then show ?thesis using False c by (simp add: cmac_add_data_def Let_def)
  next
    case True
    let ?k = "?n - ?q"
    let ?st = "encrypt (cmac_e s) (xor_bytes (cmac_state s) (?bf @ take ?k inp))"
    have full: "?buf = ?bf @ take ?k inp" "length ?buf = ?n"
      using take_reg_copy(3)[of "cmac_buffer s" ?q "length inp" inp] True b by simp_all
    have x: "xor_buf (cmac_state s) ?buf ?n = xor_bytes (cmac_state s) (?bf @ take ?k inp)"
    proof -
      have "take ?n ?buf = ?bf @ take ?k inp" using full(1) unfolding full(2)[symmetric] take_all[OF order_refl] .
      then show ?thesis using xor_buf_all[OF st, of ?buf] full(2) by (metis order_refl)
    qed
    have lst: "length ?st = ?n" using cipher_okD(2)[OF e(1)] st True b e(2) by simp
    have ne: "drop ?k inp \<noteq> []" using True b(2) by simp
    obtain r u where r: "cmac_loop (cmac_e s) ?n (drop ?k inp) ?st = (r, u)" "length r \<le> ?n"
        "fold (cmac_step (cmac_e s)) (drop ?k inp) (?st, []) = (u, r)"
      using cmac_loop_steps[OF e(1), of ?st "drop ?k inp", OF _ ne] lst unfolding e(2) by blast
    have "fold (cmac_step (cmac_e s)) inp (cmac_state s, ?bf) = (u, r)"
      using cmac_next[OF e(1), of "cmac_state s" ?bf ?k inp] st b l True e(2) r(3) by simp
    moreover have "take (length r) (reg_copy ?buf 0 r (length r)) = r" "length (reg_copy ?buf 0 r (length r)) = ?n"
      using take_reg_copy(1,2)[of 0 "length r" ?buf r] r(2) full(2) by simp_all
    ultimately show ?thesis using True r(1,2) x by (simp add: cmac_add_data_def Let_def)
  qed
qed

text \<open>What the machine computes.\<close>

lemma cmac_blocks:
  assumes e: "cipher_ok e" and "\<And>p. p \<in> set ps \<Longrightarrow> length p = block_size e" and "length st = block_size e"
    and r: "length r \<le> block_size e" "ps \<noteq> [] \<longrightarrow> r \<noteq> []"
  shows "fold (cmac_step e) (concat ps @ r) (st, []) = (cbc_chain (encrypt e) ps st, r)"
  using assms(2,3) r(2)
proof (induction ps arbitrary: st)
  case Nil
  then show ?case using cmac_chunk[OF e, of st "[]" r] r(1) by simp
next
  case (Cons p ps)
  have p: "length p = block_size e" using Cons.prems(1) by simp
  have "fold (cmac_step e) (p @ (concat ps @ r)) (st, []) = fold (cmac_step e) (concat ps @ r) (encrypt e (xor_bytes st p), [])"
    using cmac_next[OF e Cons.prems(2), of "[]" "block_size e" "p @ (concat ps @ r)"] p Cons.prems(3) by simp
  then show ?case using Cons cipher_okD(2)[OF e] p by simp
qed

lemma chop_exact:
  assumes "0 < n" and "length xs = q * n"
  shows "concat (chop n xs) = xs" and "p \<in> set (chop n xs) \<Longrightarrow> length p = n"
proof -
  obtain ps r where s: "xs = concat ps @ r" "\<forall>p \<in> set ps. length p = n" "length r = length xs mod n"
    using split_message[OF assms(1)] by blast
  then have "chop n xs = ps" "r = []" using chop_blocks[OF assms(1), of ps "[]"] assms by auto
  then show "concat (chop n xs) = xs" "p \<in> set (chop n xs) \<Longrightarrow> length p = n" using s by auto
qed

lemma cmac_message:
  assumes e: "cipher_ok e"
  defines "n \<equiv> block_size e"
  defines "r \<equiv> \<lambda>m. drop ((length m - 1) div n * n) m"
  defines "C \<equiv> \<lambda>m. cbc_chain (encrypt e) (chop n (take ((length m - 1) div n * n) m)) (replicate n 0)"
  shows "fold (cmac_step e) m (replicate n 0, []) = (C m, r m)" and "length (C m) = n" and "length (r m) \<le> n"
proof -
  define q where "q = (length m - 1) div n"
  have n: "0 < n" using cipher_okD(1)[OF e] by (simp add: n_def)
  have q: "q * n \<le> length m - 1" unfolding q_def by simp
  have "length m - 1 < q * n + n" unfolding q_def using dividend_less_div_times[OF n] by (simp add: add.commute)
  then show rl: "length (r m) \<le> n" using q unfolding r_def q_def[symmetric] length_drop by linarith
  have "length (take (q * n) m) = q * n" using q by simp
  note ch = chop_exact[OF n this]
  show "length (C m) = n"
    unfolding C_def q_def[symmetric] using ch(2) cipher_okD(2)[OF e] by (intro length_cbc_chain) (simp_all add: n_def)
  have "chop n (take (q * n) m) \<noteq> [] \<longrightarrow> r m \<noteq> []"
  proof (cases "m = []")
    case False
    then have "q * n < length m" using q by (metis Suc_pred' le_imp_less_Suc length_greater_0_conv diff_Suc_1 One_nat_def)
    then show ?thesis unfolding r_def q_def[symmetric] by simp
  qed simp
  then have "fold (cmac_step e) (concat (chop n (take (q * n) m)) @ r m) (replicate n 0, []) = (C m, r m)"
    unfolding C_def q_def[symmetric] using cmac_blocks[OF e] ch(2) rl by (simp add: n_def)
  moreover have "concat (chop n (take (q * n) m)) @ r m = m" unfolding ch(1) r_def q_def[symmetric] by simp
  ultimately show "fold (cmac_step e) m (replicate n 0, []) = (C m, r m)" by simp
qed

text \<open>Doubling in the field: a shift of the whole block, reduced when the top bit falls out.\<close>

lemma double_byte:
  fixes t c :: byte
  assumes "unat c < 2"
  shows "unat (push_bit 1 t OR c) + 256 * unat (drop_bit 7 t) = 2 * unat t + unat c"
proof -
  have "c = 0 \<or> c = 1" using assms by (simp add: word_unat_eq_iff less_2_cases_iff)
  then have "push_bit 1 t AND c = 0" by (elim disjE; hypsubst; intro bit_eqI) (simp_all only: bit_and_iff bit_push_bit_iff bit_1_iff bit_0_eq bot_apply, auto)
  then have "push_bit 1 t OR c = push_bit 1 t + c" by (simp add: disjunctive_add_eq_or)
  moreover have p: "unat (push_bit 1 t) = 2 * (unat t mod 128)"
    using mult_mod_right[of 2 "unat t" 128] by (simp add: push_bit_eq_mult unat_word_ariths mult.commute)
  moreover have "unat (push_bit 1 t + c) = unat (push_bit 1 t) + unat c"
    using assms p mod_less_divisor[of 128 "unat t"] by (intro unat_add_lem[THEN iffD1]) simp
  moreover have "unat (drop_bit 7 t) = unat t div 128" by (subst unat_drop_bit_eq) (simp add: drop_bit_eq_div)
  ultimately have "unat (push_bit 1 t OR c) + 256 * unat (drop_bit 7 t) = 2 * (unat t div 128 * 128 + unat t mod 128) + unat c"
    by (simp only: distrib_left)
  then show ?thesis unfolding div_mult_mod_eq .
qed

lemma be_val_snoc: "be_val (xs @ [c]) = push_bit 8 (be_val xs) XOR unat c"
proof -
  have "push_bit 8 (be_val xs) AND unat c = 0"
  proof (rule bit_eqI)
    fix n
    have "\<not> bit (unat c) n" if "8 \<le> n" using that bit_imp_le_length[of c n] by (auto simp: bit_unsigned_iff)
    then show "bit (push_bit 8 (be_val xs) AND unat c) n \<longleftrightarrow> bit (0 :: nat) n" by (auto simp: bit_simps)
  qed
  then have "push_bit 8 (be_val xs) + unat c = push_bit 8 (be_val xs) XOR unat c" by (simp add: disjunctive_add_eq_xor)
  then show ?thesis by (simp add: be_val_append push_bit_eq_mult)
qed

lemma be_val_xor_last:
  "xs \<noteq> [] \<Longrightarrow> be_val (xs[length xs - 1 := xs ! (length xs - 1) XOR p]) = be_val xs XOR unat p"
  by (induction xs rule: rev_induct) (simp_all add: be_val_snoc unsigned_xor_eq xor.assoc)

lemma poly_double_shift:
  fixes x :: "byte list"
  defines "w \<equiv> for_down (length x) 0 poly_double_step (x, 0)"
  shows "length (fst w) = length x \<and> be_val (fst w) + 256 ^ length x * unat (snd w) = 2 * be_val x"
proof -
  let ?I = "\<lambda>j (s :: byte list \<times> byte). length (fst s) = length x \<and> take j (fst s) = take j x \<and> unat (snd s) < 2 \<and>
    be_val (drop j (fst s)) + 256 ^ (length x - j) * unat (snd s) = 2 * be_val (drop j x)"
  have "?I 0 (for_down (length x) 0 poly_double_step (x, 0))"
  proof (rule for_down_invariant[where I = ?I])
    fix j and s :: "byte list \<times> byte"
    assume j: "0 < j" "j \<le> length x" and I: "?I j s"
    obtain k where k: "j = Suc k" using j by (cases j) auto
    obtain out c where s: "s = (out, c)" by (cases s)
    define t where "t = x ! k"
    have t: "out ! k = t" using I j s k by (metis fst_conv lessI nth_take t_def)
    have l: "k < length out" "k < length x" using I j s k by simp_all
    let ?b = "push_bit 1 t OR c" and ?c = "drop_bit 7 t"
    have step: "poly_double_step j s = (out[k := ?b], ?c)" using t by (simp add: poly_double_step_def s k)
    have d: "drop k (out[k := ?b]) = ?b # drop j out" "drop k x = t # drop j x"
      using l by (simp_all add: k drop_update_swap t_def flip: Cons_nth_drop_Suc)
    have n: "length (drop j out) = length x - j" "length (drop j x) = length x - j" "length x - k = Suc (length x - j)"
      using I s j k by simp_all
    have c: "unat c < 2" and v: "be_val (drop j out) + 256 ^ (length x - j) * unat c = 2 * be_val (drop j x)" using I s by simp_all
    have "unat ?c < 2" using unat_less_base[of t] by (subst unat_drop_bit_eq) (simp add: drop_bit_eq_div)
    moreover have "(unat ?b + 256 * unat ?c) * 256 ^ (length x - j) = (2 * unat t + unat c) * 256 ^ (length x - j)"
      using double_byte[OF c, of t] by simp
    then have "be_val (drop k (out[k := ?b])) + 256 ^ (length x - k) * unat ?c = 2 * be_val (drop k x)"
      using v unfolding d be_val.simps n by (simp add: algebra_simps)
    moreover have "take k (out[k := ?b]) = take k x" using I s k by (metis fst_conv less_imp_le_nat lessI min.absorb1 order_refl take_take take_update_cancel)
    ultimately show "?I (j - 1) (poly_double_step j s)" using step I s k by simp
  qed simp_all
  then show ?thesis unfolding w_def by simp
qed

lemma top_bit: "(b AND 0x80 \<noteq> 0) = (128 \<le> unat b)" for b :: byte
proof -
  have "(b AND 0x80 \<noteq> 0) = bit b 7"
    using and_exp_eq_0_iff_not_bit[of b 7] by simp
  also have "\<dots> = odd (unat b div 128)" using bit_unsigned_iff[of b 7, where ?'a = nat] by (simp add: bit_iff_odd)
  also have "unat b div 128 = (if 128 \<le> unat b then 1 else 0)"
    using unat_less_base[of b] by (auto intro: div_nat_eqI)
  also have "odd (if 128 \<le> unat b then 1 else 0 :: nat) = (128 \<le> unat b)" by simp
  finally show ?thesis .
qed

lemma poly_double_val:
  assumes "x \<noteq> []"
  shows "length (poly_double x p) = length x \<and>
    be_val (poly_double x p) = (2 * be_val x mod 256 ^ length x) XOR (if 128 \<le> unat (hd x) then unat p else 0)"
proof -
  obtain out c where w: "for_down (length x) 0 poly_double_step (x, 0) = (out, c)" by fastforce
  have l: "length out = length x" and v: "be_val out + 256 ^ length x * unat c = 2 * be_val x"
    using poly_double_shift[of x] w by simp_all
  have ne: "out \<noteq> []" using l assms by auto
  have "2 * be_val x mod 256 ^ length x = be_val out"
    using be_val_bound[of out] l by (simp flip: v)
  moreover have "poly_double x p = (if 128 \<le> unat (hd x) then out[length out - 1 := out ! (length out - 1) XOR p] else out)"
    using assms w by (simp add: poly_double_def top_bit hd_conv_nth)
  ultimately show ?thesis using be_val_xor_last[OF ne, of p] l by simp
qed

definition cmac_subkey :: "CipherAlgorithm \<Rightarrow> byte list \<Rightarrow> byte list" where
  "cmac_subkey alg k =
     poly_double (encrypt (alg_schedule alg k (length k)) (replicate (alg_block alg) 0)) (cmac_polynomial alg)"

definition cmac_object :: "CipherAlgorithm \<Rightarrow> CMAC \<Rightarrow> bool" where
  "cmac_object alg s \<longleftrightarrow> length (cmac_buffer s) = alg_block alg \<and> length (cmac_state s) = alg_block alg \<and>
     length (cmac_B s) = alg_block alg \<and> length (cmac_P s) = alg_block alg"

definition cmac_absorbed :: "CipherAlgorithm \<Rightarrow> CMAC \<Rightarrow> byte list \<Rightarrow> byte list \<Rightarrow> bool" where
  "cmac_absorbed alg s k x \<longleftrightarrow> cmac_object alg s \<and> cmac_e s = alg_schedule alg k (length k) \<and>
     cmac_position s \<le> alg_block alg \<and> cmac_B s = cmac_subkey alg k \<and>
     cmac_P s = poly_double (cmac_subkey alg k) (cmac_polynomial alg) \<and>
     (cmac_state s, take (cmac_position s) (cmac_buffer s)) = fold (cmac_step (cmac_e s)) x (replicate (alg_block alg) 0, [])"

text \<open>The last block, full or padded.\<close>

lemma xor_last_full:
  "length C = n \<Longrightarrow> length r = n \<Longrightarrow> length K = n \<Longrightarrow> xor_buf (xor_buf C r n) K n = xor_bytes C (xor_bytes r K)"
  by (rule nth_equalityI) (simp_all add: xor_buf_map2 xor.assoc)

lemma xor_last_padded:
  assumes "length C = n" and "length r < n" and "length K = n" and "st = xor_buf C r (length r)"
  shows "xor_buf (st[length r := st ! length r XOR 0x80]) K n = xor_bytes C (xor_bytes (r @ 0x80 # replicate (n - Suc (length r)) 0) K)"
  using assms
  by (intro nth_equalityI)
    (auto simp: xor_buf_map2 nth_append nth_Cons' nth_list_update xor.assoc xor.left_commute split: if_splits)

lemma cmac_code_state:
  assumes e: "cipher_ok e" and run: "fold (cmac_step e) x (replicate (block_size e) 0, []) = (C, r)"
  shows "cmac_code e p x = (let K1 = poly_double (encrypt e (replicate (block_size e) 0)) p in
    encrypt e (xor_bytes C (if length r = block_size e then xor_bytes r K1
      else xor_bytes (r @ 0x80 # replicate (block_size e - Suc (length r)) 0) (poly_double K1 p))))"
  using cmac_message(1)[OF e, of x] unfolding run prod.inject by (simp only: cmac_code_def Let_def)

lemma length_cmac_subkey:
  assumes "alg_ok alg"
  shows "length (cmac_subkey alg k) = alg_block alg"
    and "length (poly_double (cmac_subkey alg k) (cmac_polynomial alg)) = alg_block alg"
proof -
  have "length (encrypt (alg_schedule alg k (length k)) (replicate (alg_block alg) 0)) = alg_block alg"
    using cipher_okD(2)[OF alg_okD(2)[OF assms], of "replicate (alg_block alg) 0" k "length k"] alg_okD(3)[OF assms] by simp
  then show l: "length (cmac_subkey alg k) = alg_block alg"
    using poly_double_val alg_okD(1)[OF assms] unfolding cmac_subkey_def by (metis length_greater_0_conv)
  then show "length (poly_double (cmac_subkey alg k) (cmac_polynomial alg)) = alg_block alg"
    using poly_double_val alg_okD(1)[OF assms] by (metis length_greater_0_conv)
qed

theorem cmac_ok:
  assumes "alg_ok alg"
  shows "mac_function (cmac alg) (cmac_object alg) (cmac_absorbed alg)
    (\<lambda>k x. cmac_code (alg_schedule alg k (length k)) (cmac_polynomial alg) x)"
proof
    fix s :: CMAC and k :: "byte list"
    assume "cmac_object alg s" and "valid_keylength (mac_keylength (cmac alg)) (length k)"
    then have "mac_key_schedule (cmac alg) k s = Inr ((cmac_clear alg s)\<lparr>cmac_e := alg_schedule alg k (length k),
        cmac_B := cmac_subkey alg k, cmac_P := poly_double (cmac_subkey alg k) (cmac_polynomial alg)\<rparr>)"
      by (simp add: cmac_def cmac_key_schedule_def Let_def alg_set_key_ok cmac_subkey_def cmac_clear_def cmac_object_def reg_clear_def)
    then show "\<exists>s'. mac_key_schedule (cmac alg) k s = Inr s' \<and> cmac_absorbed alg s' k []"
      using \<open>cmac_object alg s\<close> length_cmac_subkey[OF assms] by (simp add: cmac_absorbed_def cmac_object_def cmac_clear_def reg_clear_def)
  next
    fix s :: CMAC and k x ys :: "byte list"
    let ?e = "alg_schedule alg k (length k)" and ?p = "cmac_position s" and ?C = "cmac_state s"
    let ?r = "take (cmac_position s) (cmac_buffer s)" and ?n = "alg_block alg"
    note e = alg_okD(2,3)[OF assms, of k "length k"] and K = length_cmac_subkey[OF assms, of k]
    assume s: "cmac_absorbed alg s k x"
    then have o: "length (cmac_buffer s) = ?n" "length ?C = ?n" "?p \<le> ?n" and k: "cmac_e s = ?e"
        and BP: "cmac_B s = cmac_subkey alg k" "cmac_P s = poly_double (cmac_subkey alg k) (cmac_polynomial alg)"
      by (simp_all add: cmac_absorbed_def cmac_object_def)
    have run: "fold (cmac_step ?e) x (replicate (block_size ?e) 0, []) = (?C, ?r)" using s unfolding cmac_absorbed_def k e(2) by (blast intro: sym)
    have step: "cmac_absorbed alg (cmac_add_data alg ys s) k (x @ ys)"
    proof -
      define t where "t = cmac_add_data alg ys s"
      have "(cmac_state t, take (cmac_position t) (cmac_buffer t)) = fold (cmac_step ?e) ys (?C, ?r)"
          "length (cmac_buffer t) = ?n" "cmac_position t \<le> ?n" "cmac_e t = ?e" "cmac_B t = cmac_B s" "cmac_P t = cmac_P s"
        using cmac_add_data_steps[of s alg ys, unfolded k, OF e o(2,1,3)] unfolding Let_def t_def by blast+
      moreover have "fold (cmac_step ?e) (x @ ys) (replicate (block_size ?e) 0, []) = fold (cmac_step ?e) ys (?C, ?r)"
        unfolding fold_append comp_apply run ..
      ultimately have t: "(cmac_state t, take (cmac_position t) (cmac_buffer t)) =
          fold (cmac_step ?e) (x @ ys) (replicate (block_size ?e) 0, [])"
          "length (cmac_buffer t) = ?n" "cmac_position t \<le> ?n" "cmac_e t = ?e" "cmac_B t = cmac_B s" "cmac_P t = cmac_P s"
        by (simp_all only:)
      have "length (cmac_state t) = ?n"
      proof -
        have "length (fst (fold (cmac_step ?e) (x @ ys) (replicate (block_size ?e) 0, []))) = block_size ?e"
          unfolding cmac_message(1)[OF e(1)] fst_conv by (rule cmac_message(2)[OF e(1)])
        then have "length (fst (cmac_state t, take (cmac_position t) (cmac_buffer t))) = ?n"
          by (simp only: t(1) e(2))
        then show ?thesis by simp
      qed
      then show ?thesis using t BP K unfolding t_def[symmetric] cmac_absorbed_def cmac_object_def e(2) by (simp add: e(2))
    qed
    then show "cmac_absorbed alg (mac_add_data (cmac alg) ys s) k (x @ ys)" by (simp add: cmac_def)
    have lr: "length ?r = ?p" using o by simp
    let ?st = "xor_buf ?C (cmac_buffer s) ?p"
    have st: "?st = xor_buf ?C ?r ?p" "length ?st = ?n" using o xor_buf_prefix[of ?p ?C "cmac_buffer s"] by (simp_all add: xor_buf_map2)
    let ?u = "if ?p = ?n then xor_buf ?st (cmac_B s) ?n else xor_buf (?st[?p := ?st ! ?p XOR 0x80]) (cmac_P s) ?n"
    have u: "encrypt ?e ?u = cmac_code ?e (cmac_polynomial alg) x" "length ?u = ?n"
    proof -
      have "?u = xor_bytes ?C (if length ?r = ?n then xor_bytes ?r (cmac_subkey alg k)
          else xor_bytes (?r @ 0x80 # replicate (?n - Suc (length ?r)) 0) (poly_double (cmac_subkey alg k) (cmac_polynomial alg)))"
      proof (cases "?p = ?n")
        case True
        then show ?thesis using xor_last_full[OF o(2), of ?r "cmac_subkey alg k"] o(1) K BP st(1) by simp
      next
        case False
        then have l: "length ?r < ?n" using o by simp
        show ?thesis using xor_last_padded[OF o(2) l K(2) refl] False BP st(1) unfolding lr by simp
      qed
      then show "encrypt ?e ?u = cmac_code ?e (cmac_polynomial alg) x"
        unfolding cmac_code_state[OF e(1) run] by (simp add: Let_def e(2) cmac_subkey_def)
      show "length ?u = ?n" using st(2) K BP by (cases "?p = ?n") (simp_all add: xor_buf_map2 o)
    qed
    have len: "length (cmac_code ?e (cmac_polynomial alg) x) = ?n"
      using cipher_okD(2)[OF e(1), of ?u] u e(2) by simp
    then show "length (cmac_code ?e (cmac_polynomial alg) x) = mac_output (cmac alg)" by (simp add: cmac_def)
    have "cmac_final_result alg s = Inr (take ?n (encrypt ?e ?u), s\<lparr>cmac_state := reg_clear (encrypt ?e ?u),
        cmac_buffer := reg_clear (cmac_buffer s), cmac_position := 0\<rparr>)"
      by (simp add: cmac_final_result_def Let_def k)
    then have "cmac_final_result alg s = Inr (cmac_code ?e (cmac_polynomial alg) x,
        s\<lparr>cmac_state := replicate ?n 0, cmac_buffer := replicate ?n 0, cmac_position := 0\<rparr>)"
      unfolding u(1) reg_clear_def len o(1) using len by simp
    then show "\<exists>s'. mac_final_result (cmac alg) s = Inr (cmac_code ?e (cmac_polynomial alg) x, s') \<and> cmac_absorbed alg s' k []"
      using s K by (simp add: cmac_def cmac_absorbed_def cmac_object_def)
  next
    fix s :: CMAC and k :: "byte list"
    assume "cmac_absorbed alg s k []"
    then show "cmac_object alg s" by (simp add: cmac_absorbed_def)
qed

end
