(* ===== verification/MAC_Properties.thy ===== *)
theory MAC_Properties
  imports HMAC Cipher_MAC_Proofs Hash_Properties Cipher_Properties
begin

text \<open>
  The message authentication codes on the hash functions and ciphers of the library: after \<open>set_key\<close>, whatever the
  object did before, a message in any pieces has the code of the standard, the object can be used for the next message,
  and \<open>verify_mac\<close> accepts that code only.
\<close>

section \<open>MACs over the library's hash functions\<close>

interpretation hmac_sha_160: mac_function "hmac (mdx_hash SHA_160)"
    "nested_object (mdx_absorbed SHA_160) (HASH_BLOCK_SIZE (mdx_hash SHA_160))"
    "nested_absorbed (mdx_absorbed SHA_160) (HASH_BLOCK_SIZE (mdx_hash SHA_160))
       (\<lambda>c k. xor_bytes (hmac_key (HASH_BLOCK_SIZE (mdx_hash SHA_160)) (md_digest SHA_160) k)
          (replicate (HASH_BLOCK_SIZE (mdx_hash SHA_160)) c))"
    "hmac_code (HASH_BLOCK_SIZE (mdx_hash SHA_160)) (md_digest SHA_160)"
  by (rule clearing_hash.hmac_ok[OF mdx_hash_ok[OF SHA_160_ok]]) (simp add: mdx_hash_def SHA_160_def)

text \<open>What a message gives once the key is set, for any \<open>MAC\<close>; \<open>tag\<close> is checked after the pieces \<open>xss\<close>.\<close>

definition mac_messages :: "'s MAC \<Rightarrow> (byte list \<Rightarrow> byte list \<Rightarrow> byte list) \<Rightarrow> 's \<Rightarrow> byte list \<Rightarrow>
    byte list list \<Rightarrow> byte list list \<Rightarrow> byte list \<Rightarrow> bool" where
  "mac_messages a M s k xss yss tag \<longleftrightarrow>
     (\<exists>t. mac_set_key a k s = Inr t \<and> (\<exists>t'. mac_pieces a xss t = Inr (M k (concat xss), t') \<and>
        (\<exists>u. mac_pieces a yss t' = Inr (M k (concat yss), u))) \<and>
      (\<exists>u. verify_mac a tag (fold (mac_add_data a) xss t) = Inr (tag = M k (concat xss), u)))"

lemma mac_function_messages:
  "mac_function a I R M \<Longrightarrow> I s \<Longrightarrow> valid_keylength (mac_keylength a) (length k) \<Longrightarrow> mac_messages a M s k xss yss tag"
  unfolding mac_messages_def by (rule mac_function.message)

lemma mdx_hash_fields [simp]:
  "OUTPUT_LENGTH (mdx_hash p) = mdx_output p" "HASH_BLOCK_SIZE (mdx_hash p) = mdx_block p" "hash_name (mdx_hash p) = mdx_name p"
  by (simp_all add: mdx_hash_def)

lemma new_nested:
  assumes "mdx_ok p" and "new_MDx p = Inr hash"
  shows "nested_object (mdx_absorbed p) n \<lparr>hmac_hash = hash, i_key = reg_create n, o_key = reg_create n\<rparr>"
  using new_MDx_absorbed[OF assms(1)] assms(2) by (auto simp: nested_object_def)

text \<open>C29. HMAC and the SSL 3 MAC over any Merkle-Damgard hash function whose digest is not longer than its block (than the 60
  bytes of padding the SSL 3 MAC uses for the one named SHA-160), as it is for all of the library: a new object keyed with a key
  of a length it accepts gives, for a message in pieces \<open>xss\<close>, the nested hash of RFC 2104 and of the SSL 3.0 specification,
  for the next message \<open>yss\<close> as well, and \<open>verify_mac\<close> accepts exactly that code. No call throws.\<close>

theorem hmac_message:
  assumes "mdx_ok p" and "mdx_output p \<le> mdx_block p" and "mdx_name p = ''SHA-160'' \<longrightarrow> mdx_output p \<le> 60"
    and "new_MDx p = Inr hash" and "1 \<le> length k1" and "length k1 \<le> 2 * mdx_block p" and "length k2 = mdx_output p"
  shows "(\<exists>s. new_HMAC (mdx_hash p) hash = Inr s \<and>
      mac_messages (hmac (mdx_hash p)) (hmac_code (mdx_block p) (md_digest p)) s k1 xss yss tag) \<and>
    (\<exists>s. new_SSL3_MAC (mdx_hash p) hash = Inr s \<and>
      mac_messages (ssl3_mac (mdx_hash p)) (ssl3_code (if mdx_name p = ''SHA-160'' then 60 else mdx_block p) (md_digest p))
        s k2 xss yss tag)"
proof (rule conjI)
  note h = mdx_hash_ok[OF assms(1)]
  have o: "mdx_output p \<le> mdx_block p" "mdx_output p \<le> INNER_HASH_LENGTH (mdx_hash p)" "mdx_block p \<noteq> 0"
    using assms(2,3) mdx_okD(1,2)[OF assms(1)] by (simp_all add: INNER_HASH_LENGTH_def)
  show "\<exists>s. new_HMAC (mdx_hash p) hash = Inr s \<and>
      mac_messages (hmac (mdx_hash p)) (hmac_code (mdx_block p) (md_digest p)) s k1 xss yss tag"
    using mac_function_messages[OF clearing_hash.hmac_ok[OF h] new_nested[OF assms(1,4)], of k1 xss yss tag] o assms(5,6)
    by (simp add: new_HMAC_def hmac_def valid_keylength_def new_SymmetricAlgorithm_def)
  show "\<exists>s. new_SSL3_MAC (mdx_hash p) hash = Inr s \<and>
      mac_messages (ssl3_mac (mdx_hash p)) (ssl3_code (if mdx_name p = ''SHA-160'' then 60 else mdx_block p) (md_digest p))
        s k2 xss yss tag"
    using mac_function_messages[OF clearing_hash.ssl3_ok[OF h] new_nested[OF assms(1,4)], of k2 xss yss tag] o assms(7)
    by (simp add: new_SSL3_MAC_def ssl3_mac_def valid_keylength_def new_SymmetricAlgorithm_def INNER_HASH_LENGTH_def
      cong: if_cong split: if_splits)
qed

theorem hmac_message_witness:
  "(\<exists>hash s. new_MDx SHA_512 = Inr hash \<and> new_HMAC (mdx_hash SHA_512) hash = Inr s \<and>
     mac_messages (hmac (mdx_hash SHA_512)) (hmac_code 128 (md_digest SHA_512)) s [1, 2, 3] [[4], [5, 6]] [[]] [7]) \<and>
   (\<exists>hash s. new_MDx SHA_160 = Inr hash \<and> new_SSL3_MAC (mdx_hash SHA_160) hash = Inr s \<and>
     mac_messages (ssl3_mac (mdx_hash SHA_160)) (ssl3_code 60 (md_digest SHA_160)) s (replicate 20 9) [[4], [5, 6]] [[]] [7])"
proof (rule conjI)
  obtain h where "new_MDx SHA_512 = Inr h" using new_MDx_absorbed[OF sha512_ok(2)] by blast
  then show "\<exists>hash s. new_MDx SHA_512 = Inr hash \<and> new_HMAC (mdx_hash SHA_512) hash = Inr s \<and>
     mac_messages (hmac (mdx_hash SHA_512)) (hmac_code 128 (md_digest SHA_512)) s [1, 2, 3] [[4], [5, 6]] [[]] [7]"
    using hmac_message[OF sha512_ok(2), of h "[1, 2, 3]" "replicate 64 0" "[[4], [5, 6]]" "[[]]" "[7]"]
    by (auto simp: SHA_512_def)
next
  obtain h where "new_MDx SHA_160 = Inr h" using new_MDx_absorbed[OF SHA_160_ok] by blast
  then show "\<exists>hash s. new_MDx SHA_160 = Inr hash \<and> new_SSL3_MAC (mdx_hash SHA_160) hash = Inr s \<and>
     mac_messages (ssl3_mac (mdx_hash SHA_160)) (ssl3_code 60 (md_digest SHA_160)) s (replicate 20 9) [[4], [5, 6]] [[]] [7]"
    using hmac_message[OF SHA_160_ok, of h "[1]" "replicate 20 9" "[[4], [5, 6]]" "[[]]" "[7]"]
    by (auto simp: SHA_160_def)
qed

section \<open>MACs over the library's ciphers\<close>

definition XTEA_alg :: CipherAlgorithm where
  "XTEA_alg = \<lparr>alg_name = ''XTEA'', alg_block = 8, alg_keylength = XTEA_key,
     alg_schedule = (\<lambda>key n. let EK = XTEA_key_schedule key n
       in \<lparr>cipher_name = ''XTEA'', block_size = 8, encrypt = XTEA_enc EK, decrypt = XTEA_dec EK\<rparr>),
     alg_clear = (\<lambda>c. c\<lparr>encrypt := XTEA_enc (replicate 64 0), decrypt := XTEA_dec (replicate 64 0)\<rparr>)\<rparr>"

definition SEED_alg :: CipherAlgorithm where
  "SEED_alg = \<lparr>alg_name = ''SEED'', alg_block = 16, alg_keylength = SEED_key,
     alg_schedule = (\<lambda>key n. let K = SEED_key_schedule key n
       in \<lparr>cipher_name = ''SEED'', block_size = 16, encrypt = SEED_enc K, decrypt = SEED_dec K\<rparr>),
     alg_clear = (\<lambda>c. c\<lparr>encrypt := SEED_enc (replicate 32 0), decrypt := SEED_dec (replicate 32 0)\<rparr>)\<rparr>"

definition DES_alg :: CipherAlgorithm where
  "DES_alg = \<lparr>alg_name = ''DES'', alg_block = 8, alg_keylength = DES_key,
     alg_schedule = (\<lambda>key n. let K = DES_key_schedule key n
       in \<lparr>cipher_name = ''DES'', block_size = 8, encrypt = DES_enc K, decrypt = DES_dec K\<rparr>),
     alg_clear = (\<lambda>c. c\<lparr>encrypt := DES_enc (replicate 32 0), decrypt := DES_dec (replicate 32 0)\<rparr>)\<rparr>"

lemma DES_alg_ok: "alg_ok DES_alg"
  using des_cipher.cipher_object by (simp add: alg_ok_def DES_alg_def Let_def)

lemma XTEA_alg_ok: "alg_ok XTEA_alg"
  using xtea_cipher.cipher_object by (simp add: alg_ok_def XTEA_alg_def Let_def)

lemma SEED_alg_ok: "alg_ok SEED_alg"
  using seed_cipher.cipher_object by (simp add: alg_ok_def SEED_alg_def Let_def)

interpretation seed_cmac: mac_function "cmac SEED_alg" "cmac_object SEED_alg" "cmac_absorbed SEED_alg"
    "\<lambda>k x. cmac_code (alg_schedule SEED_alg k (length k)) (cmac_polynomial SEED_alg) x"
  by (rule cmac_ok[OF SEED_alg_ok])

text \<open>C30. CBC-MAC and CMAC over any cipher of 64 or 128 bits: a new object keyed with a key the cipher accepts gives, for
  a message in any pieces, the chaining of the zero-padded message and the code of NIST SP 800-38B, and so for
  the next message; \<open>verify_mac\<close> accepts exactly that code. The subkeys of CMAC are doublings in the field: the
  block shifted by one bit, with the polynomial added when the top bit falls out.\<close>

theorem block_mac_message:
  assumes "alg_ok alg" and "alg_block alg = 8 \<or> alg_block alg = 16"
    and "valid_keylength (alg_keylength alg) (length k)"
  shows "mac_messages (cbc_mac alg) (\<lambda>k. cbc_mac_code (alg_schedule alg k (length k))) (new_CBC_MAC alg e) k xss yss tag \<and>
    (\<exists>s. new_CMAC alg e = Inr s \<and> mac_messages (cmac alg)
       (\<lambda>k. cmac_code (alg_schedule alg k (length k)) (if alg_block alg = 16 then 0x87 else 0x1B)) s k xss yss tag) \<and>
    (x \<noteq> [] \<longrightarrow> be_val (poly_double x p) =
       (2 * be_val x mod 2 ^ (8 * length x)) XOR (if 128 \<le> unat (hd x) then unat p else 0))"
proof (intro conjI impI)
  show "mac_messages (cbc_mac alg) (\<lambda>k. cbc_mac_code (alg_schedule alg k (length k))) (new_CBC_MAC alg e) k xss yss tag"
    using mac_function_messages[OF cbc_mac_ok[OF assms(1)], of "new_CBC_MAC alg e" k xss yss tag] assms(3)
    by (simp add: cbc_mac_object_def new_CBC_MAC_def reg_create_def cbc_mac_def)
  obtain s where s: "new_CMAC alg e = Inr s" "cmac_object alg s"
    using assms(2) by (auto simp: new_CMAC_def cmac_object_def Let_def)
  have "mac_messages (cmac alg) (\<lambda>k. cmac_code (alg_schedule alg k (length k)) (cmac_polynomial alg)) s k xss yss tag"
    using mac_function_messages[OF cmac_ok[OF assms(1)] s(2), of k xss yss tag] assms(3) by (simp add: cmac_def)
  then show "\<exists>s. new_CMAC alg e = Inr s \<and> mac_messages (cmac alg)
       (\<lambda>k. cmac_code (alg_schedule alg k (length k)) (if alg_block alg = 16 then 0x87 else 0x1B)) s k xss yss tag"
    using s(1) unfolding cmac_polynomial_def by blast
  assume "x \<noteq> []"
  then show "be_val (poly_double x p) = (2 * be_val x mod 2 ^ (8 * length x)) XOR (if 128 \<le> unat (hd x) then unat p else 0)"
    using poly_double_val[of x p] by (simp add: power_mult)
qed

theorem block_mac_message_witness:
  "mac_messages (cbc_mac XTEA_alg) (\<lambda>k. cbc_mac_code (alg_schedule XTEA_alg k (length k)))
     (new_CBC_MAC XTEA_alg (alg_schedule XTEA_alg [] 0)) (replicate 16 1) [[2], [3, 4]] [] [5] \<and>
   be_val (poly_double [0x80, 0] 0x87) = 0x87"
proof -
  have "alg_block XTEA_alg = 8" "valid_keylength (alg_keylength XTEA_alg) (length (replicate 16 (1 :: byte)))"
    by (simp_all add: XTEA_alg_def XTEA_key_def valid_keylength_def new_SymmetricAlgorithm_def)
  then show ?thesis
    using block_mac_message[OF XTEA_alg_ok, of "replicate 16 1" "alg_schedule XTEA_alg [] 0" "[[2], [3, 4]]" "[]" "[5]"
      "[0x80, 0]" "0x87"] by simp
qed

text \<open>With a single key the last two steps cancel.\<close>

lemma encrypt_decrypt:
  assumes "cipher_ok c" and "length b = block_size c"
  shows "encrypt c (decrypt c b) = b"
proof -
  let ?B = "{b :: byte list. length b = block_size c}"
  have "finite ?B" using finite_lists_length_eq[of "UNIV :: byte set" "block_size c"] by simp
  moreover have "inj_on (encrypt c) ?B" using cipher_okD(4)[OF assms(1)] by (intro inj_on_inverseI[of _ "decrypt c"]) simp
  moreover have "encrypt c ` ?B \<subseteq> ?B" using cipher_okD(2)[OF assms(1)] by auto
  ultimately have "encrypt c ` ?B = ?B" by (simp add: endo_inj_surj)
  then obtain a where "b = encrypt c a" "length a = block_size c" using assms(2) by (metis (mono_tags, lifting) imageE mem_Collect_eq)
  then show ?thesis using cipher_okD(4)[OF assms(1)] by simp
qed

lemma length_cbc_mac_code:
  assumes "cipher_ok e"
  shows "length (cbc_mac_code e m) = block_size e"
  using cm_message[OF assms, of m] cipher_okD(2)[OF assms] unfolding Let_def cm_wf_def by metis

lemma x919_code_single:
  assumes "alg_ok alg" and "alg_block alg = 8" and "length k = 8"
  shows "x919_code (alg_schedule alg k 8) (alg_schedule alg (x919_d_key k) 8) m = cbc_mac_code (alg_schedule alg k 8) m"
  using encrypt_decrypt[OF alg_okD(2)[OF assms(1)] length_cbc_mac_code[OF alg_okD(2)[OF assms(1)]]] assms(3)
  by (simp add: x919_code_def x919_d_key_def)

text \<open>C31. The MAC of ANSI X9.19 over a cipher with blocks and keys of eight bytes: the CBC-MAC under the first half of the
  key with its last block decrypted under the second half and encrypted again. But every even key length between
  eight and sixteen is accepted as well, and a key of nine to fifteen bytes that is accepted has fewer than eight bytes
  behind the first eight.\<close>

theorem x919_message:
  assumes "alg_ok alg" and "alg_block alg = 8" and "alg_keylength alg = new_SymmetricAlgorithm 8 0 1"
    and "alg_name alg = ''DES''"
  shows "\<exists>s. new_X919_MAC alg e d = Inr s \<and>
    (length k = 16 \<longrightarrow> mac_messages (x919_mac alg)
       (\<lambda>k. x919_code (alg_schedule alg k 8) (alg_schedule alg (x919_d_key k) 8)) s k xss yss tag) \<and>
    (length k = 8 \<longrightarrow> x919_code (alg_schedule alg k 8) (alg_schedule alg (x919_d_key k) 8) m = cbc_mac_code (alg_schedule alg k 8) m) \<and>
    (valid_keylength (mac_keylength (x919_mac alg)) (length k) \<longleftrightarrow> length k \<in> {8, 10, 12, 14, 16})"
proof -
  have m: "mac_keylength (x919_mac alg) = \<lparr>MAXIMUM_KEYLENGTH = 16, MINIMUM_KEYLENGTH = 8, KEYLENGTH_MULTIPLE = 2\<rparr>"
    using assms(3) by (simp add: x919_mac_def new_SymmetricAlgorithm_def)
  have v: "valid_keylength (alg_keylength alg) 8" by (simp add: assms(3) valid_keylength_def new_SymmetricAlgorithm_def)
  have "valid_keylength (mac_keylength (x919_mac alg)) n \<longleftrightarrow> n \<in> {8, 10, 12, 14, 16}" for n
    unfolding m valid_keylength_def by simp presburger
  moreover obtain s where "new_X919_MAC alg e d = Inr s" "x919_object s"
    using assms(4) by (simp add: new_X919_MAC_def x919_object_def reg_create_def)
  ultimately show ?thesis
    using mac_function_messages[OF x919_ok[OF assms(1,2) v], of s k xss yss tag] x919_code_single[OF assms(1,2)]
    by (auto simp: x919_d_key_def)
qed

theorem x919_message_witness:
  "\<exists>s. new_X919_MAC DES_alg (alg_schedule DES_alg [] 0) (alg_schedule DES_alg [] 0) = Inr s \<and>
     mac_messages (x919_mac DES_alg)
       (\<lambda>k. x919_code (alg_schedule DES_alg k 8) (alg_schedule DES_alg (x919_d_key k) 8)) s (replicate 16 3) [[1], [2]] [] [4] \<and>
     valid_keylength (mac_keylength (x919_mac DES_alg)) 10"
proof -
  have "alg_block DES_alg = 8" "alg_keylength DES_alg = new_SymmetricAlgorithm 8 0 1" "alg_name DES_alg = ''DES''"
    by (simp_all add: DES_alg_def DES_key_def)
  then show ?thesis
    using x919_message[OF DES_alg_ok, of "alg_schedule DES_alg [] 0" "alg_schedule DES_alg [] 0" "replicate 16 3" "[[1], [2]]" "[]" "[4]" "[]"]
      x919_message[OF DES_alg_ok, of "alg_schedule DES_alg [] 0" "alg_schedule DES_alg [] 0" "replicate 10 3" "[[1], [2]]" "[]" "[4]" "[]"]
    by auto
qed

end
