(* ===== verification/KDF.thy ===== *)
theory KDF
  imports MAC_Base HMAC SHA160 MD4_MD5
begin

text \<open>
  Key derivation: KDF1, KDF2 and MGF1 (\<open>src/kdf/kdf1\<close>, \<open>kdf2\<close>, \<open>mgf1\<close>), the pseudorandom functions of SSL 3 and TLS
  (\<open>src/kdf/ssl_prf\<close>, \<open>tls_prf\<close>), and the passphrase functions PBKDF1, PBKDF2 and OpenPGP S2K (\<open>src/s2k\<close>). They
  are clients of the interfaces \<open>hash_function\<close> and \<open>mac_function\<close>: the object they hold is passed and returned. An
  \<open>OctetString\<close> is its bytes. A loop that ends because the hash has an output is \<open>partial_function (option)\<close>.
\<close>

section \<open>KDF1, KDF2 and MGF1\<close>

definition KDF1_derive :: "'s HashFunction \<Rightarrow> byte list \<Rightarrow> byte list \<Rightarrow> 's \<Rightarrow> botan_error + byte list \<times> 's" where
  "KDF1_derive h secret P s = hash_pieces h [secret, P] s"

text \<open>\<open>for(j = 0; j != 4; ++j) hash->update(get_byte(j, counter))\<close>.\<close>

definition counter_pieces :: "u32bit \<Rightarrow> byte list list" where
  "counter_pieces counter = map (\<lambda>j. [get_byte j counter]) [0..<4]"

function KDF2_loop :: "'s HashFunction \<Rightarrow> byte list \<Rightarrow> byte list \<Rightarrow> nat \<Rightarrow> u32bit \<Rightarrow> byte list \<Rightarrow> 's \<Rightarrow>
    botan_error + byte list \<times> 's" where
  "KDF2_loop h secret P out_len counter output s =
     (if out_len \<noteq> 0 \<and> counter \<noteq> 0 then
        try_bind (hash_pieces h (secret # counter_pieces counter @ [P]) s) (\<lambda>(hash_result, s).
          let added = min (length hash_result) out_len
          in KDF2_loop h secret P (out_len - added) (counter + 1) (output @ take added hash_result) s)
      else Inr (output, s))"
  by pat_completeness auto

termination
proof (relation "measure (\<lambda>(_, _, _, _, c, _, _). if c = 0 then 0 else 2 ^ 32 - unat c)")
  fix c :: u32bit and h :: "'s HashFunction" and secret P o1 o2 :: "byte list" and n n' :: nat and s s' :: 's
  assume "n \<noteq> 0 \<and> c \<noteq> 0"
  moreover have "unat c < 2 ^ 32" using unat_less_base[of c] by simp
  moreover have "unat (c + 1) = unat c + 1" if "c + 1 \<noteq> 0" using unatSuc[of c] that by (simp add: add.commute)
  ultimately show "((h, secret, P, n', c + 1, o2, s'), h, secret, P, n, c, o1, s) \<in>
      measure (\<lambda>(_, _, _, _, c, _, _). if c = 0 then 0 else 2 ^ 32 - unat c)" by auto
qed simp_all

declare KDF2_loop.simps [simp del]

definition KDF2_derive :: "'s HashFunction \<Rightarrow> nat \<Rightarrow> byte list \<Rightarrow> byte list \<Rightarrow> 's \<Rightarrow> botan_error + byte list \<times> 's" where
  "KDF2_derive h out_len secret P s = KDF2_loop h secret P out_len 1 [] s"

text \<open>\<open>off\<close> is how far \<open>out\<close> has moved on.\<close>

partial_function (option) MGF1_loop :: "'s HashFunction \<Rightarrow> byte list \<Rightarrow> byte list \<Rightarrow> nat \<Rightarrow> nat \<Rightarrow> u32bit \<Rightarrow> 's \<Rightarrow>
    (botan_error + byte list \<times> 's) option" where
  "MGF1_loop h inp out off out_len counter s =
     (if out_len \<noteq> 0 then
        case hash_pieces h (inp # counter_pieces counter) s of
          Inl e \<Rightarrow> Some (Inl e)
        | Inr r \<Rightarrow>
            let buffer = fst r; xored = min (length buffer) out_len;
                out = at_ptr off (\<lambda>p. xor_buf p buffer xored) out
            in MGF1_loop h inp out (off + xored) (out_len - xored) (counter + 1) (snd r)
      else Some (Inr (out, s)))"

definition MGF1_mask :: "'s HashFunction \<Rightarrow> byte list \<Rightarrow> byte list \<Rightarrow> nat \<Rightarrow> 's \<Rightarrow> (botan_error + byte list \<times> 's) option" where
  "MGF1_mask h inp out out_len s = MGF1_loop h inp out 0 out_len 0 s"

section \<open>The PRFs of TLS and SSL 3\<close>

partial_function (option) P_hash_loop :: "'s MAC \<Rightarrow> byte list \<Rightarrow> nat \<Rightarrow> byte list \<Rightarrow> byte list \<Rightarrow> 's \<Rightarrow>
    (botan_error + byte list \<times> 's) option" where
  "P_hash_loop mac seed len A out s =
     (if len \<noteq> 0 then
        let this_block_len = min (mac_output mac) len
        in case mac_process mac A s of
             Inl e \<Rightarrow> Some (Inl e)
           | Inr r \<Rightarrow>
               case mac_pieces mac [fst r, seed] (snd r) of
                 Inl e \<Rightarrow> Some (Inl e)
               | Inr b \<Rightarrow> P_hash_loop mac seed (len - this_block_len) (fst r) (out @ take this_block_len (fst b)) (snd b)
      else Some (Inr (out, s)))"

definition P_hash :: "'s MAC \<Rightarrow> nat \<Rightarrow> byte list \<Rightarrow> byte list \<Rightarrow> 's \<Rightarrow> (botan_error + byte list \<times> 's) option" where
  "P_hash mac len secret seed s =
     (case mac_set_key mac secret s of Inl e \<Rightarrow> Some (Inl e) | Inr s \<Rightarrow> P_hash_loop mac seed len seed [] s)"

text \<open>The two objects the constructor makes.\<close>

definition new_TLS_PRF :: "botan_error + u32bit list MDx HMAC \<times> u32bit list MDx HMAC" where
  "new_TLS_PRF =
     try_bind (try_bind (new_MDx MD5) (new_HMAC (mdx_hash MD5))) (\<lambda>hmac_md5.
     try_bind (try_bind (new_MDx SHA_160) (new_HMAC (mdx_hash SHA_160))) (\<lambda>hmac_sha1.
       Inr (hmac_md5, hmac_sha1)))"

definition TLS_PRF_derive :: "'s MAC \<Rightarrow> 't MAC \<Rightarrow> nat \<Rightarrow> byte list \<Rightarrow> byte list \<Rightarrow> 's \<times> 't \<Rightarrow>
    (botan_error + byte list \<times> 's \<times> 't) option" where
  "TLS_PRF_derive hmac_md5 hmac_sha1 key_len secret seed s =
     (let S1_len = (length secret + 1) div 2;
          S2_len = (length secret + 1) div 2;
          S1 = take S1_len secret;
          S2 = take S2_len (drop (length secret - S2_len) secret)
      in case P_hash hmac_md5 key_len S1 seed (fst s) of
           None \<Rightarrow> None
         | Some (Inl e) \<Rightarrow> Some (Inl e)
         | Some (Inr (key1, s1)) \<Rightarrow>
             (case P_hash hmac_sha1 key_len S2 seed (snd s) of
                None \<Rightarrow> None
              | Some (Inl e) \<Rightarrow> Some (Inl e)
              | Some (Inr (key2, s2)) \<Rightarrow> Some (Inr (xor_buf key1 key2 (length key2), s1, s2))))"

definition next_hash :: "'s HashFunction \<Rightarrow> 't HashFunction \<Rightarrow> nat \<Rightarrow> nat \<Rightarrow> byte list \<Rightarrow> byte list \<Rightarrow> 's \<times> 't \<Rightarrow>
    botan_error + byte list \<times> 's \<times> 't" where
  "next_hash md5 sha1 place want secret seed s =
     (if want > OUTPUT_LENGTH md5 then Inl (Internal_Error ''SSL3_PRF:next_hash: want is too big'')
      else
        let ASCII_A_CHAR = 0x41
        in try_bind (hash_pieces sha1 (map (\<lambda>j. [ASCII_A_CHAR + of_nat place]) [0..<place + 1] @ [secret, seed]) (snd s)) (\<lambda>(sha1_hash, s2).
           try_bind (hash_pieces md5 [secret, sha1_hash] (fst s)) (\<lambda>(md5_hash, s1).
             Inr (take want md5_hash, s1, s2))))"

partial_function (option) SSL3_PRF_loop :: "'s HashFunction \<Rightarrow> 't HashFunction \<Rightarrow> byte list \<Rightarrow> byte list \<Rightarrow> nat \<Rightarrow> nat \<Rightarrow>
    byte list \<Rightarrow> 's \<times> 't \<Rightarrow> (botan_error + byte list) option" where
  "SSL3_PRF_loop md5 sha1 secret seed counter key_len output s =
     (if key_len \<noteq> 0 then
        let produce = min key_len (OUTPUT_LENGTH md5)
        in case next_hash md5 sha1 counter produce secret seed s of
             Inl e \<Rightarrow> Some (Inl e)
           | Inr r \<Rightarrow> SSL3_PRF_loop md5 sha1 secret seed (counter + 1) (key_len - produce) (output @ fst r) (snd r)
      else Some (Inr output))"

definition SSL3_PRF_derive :: "nat \<Rightarrow> byte list \<Rightarrow> byte list \<Rightarrow> (botan_error + byte list) option" where
  "SSL3_PRF_derive key_len secret seed =
     (if key_len > 416 then Some (Inl (Internal_Error ''SSL3_PRF: Requested key length is too large''))
      else case new_MDx MD5 of
             Inl e \<Rightarrow> Some (Inl e)
           | Inr md5 \<Rightarrow>
               (case new_MDx SHA_160 of
                  Inl e \<Rightarrow> Some (Inl e)
                | Inr sha1 \<Rightarrow> SSL3_PRF_loop (mdx_hash MD5) (mdx_hash SHA_160) secret seed 0 key_len [] (md5, sha1)))"

section \<open>Passphrases\<close>

text \<open>The object: salt and iteration count. \<open>derive\<close> is the virtual function.\<close>

record S2K =
  s2k_salt :: "byte list"
  s2k_iter :: nat

definition new_S2K :: S2K where
  "new_S2K = \<lparr>s2k_salt = [], s2k_iter = 0\<rparr>"

definition set_iterations :: "nat \<Rightarrow> S2K \<Rightarrow> S2K" where
  "set_iterations i k = k\<lparr>s2k_iter := i\<rparr>"

definition change_salt :: "byte list \<Rightarrow> S2K \<Rightarrow> S2K" where
  "change_salt new_salt k = k\<lparr>s2k_salt := new_salt\<rparr>"

definition S2K_derive_key :: "(nat \<Rightarrow> byte list \<Rightarrow> byte list \<Rightarrow> nat \<Rightarrow> 'r) \<Rightarrow> nat \<Rightarrow> byte list \<Rightarrow> S2K \<Rightarrow> 'r" where
  "S2K_derive_key derive key_len passphrase k = derive key_len passphrase (s2k_salt k) (s2k_iter k)"

definition PBKDF1_derive :: "'s HashFunction \<Rightarrow> nat \<Rightarrow> byte list \<Rightarrow> byte list \<Rightarrow> nat \<Rightarrow> 's \<Rightarrow> botan_error + byte list \<times> 's" where
  "PBKDF1_derive h key_len passphrase salt iterations s =
     (if iterations = 0 then Inl (Invalid_Argument ''PKCS#5 PBKDF1: Invalid iteration count'')
      else if key_len > OUTPUT_LENGTH h then Inl (Exception ''PKCS#5 PBKDF1: Requested output length too long'')
      else
        try_bind (for_up 1 iterations (\<lambda>j r. try_bind r (\<lambda>(key, s). hash_process h key s))
          (hash_pieces h [passphrase, salt] s)) (\<lambda>(key, s).
        Inr (take (min key_len (length key)) key, s)))"

text \<open>One turn of the outer loop of PBKDF2, then the loop; \<open>off\<close> is how far \<open>T\<close> has moved on.\<close>

definition PBKDF2_block :: "'s MAC \<Rightarrow> byte list \<Rightarrow> nat \<Rightarrow> u32bit \<Rightarrow> nat \<Rightarrow> byte list \<Rightarrow> 's \<Rightarrow> botan_error + byte list \<times> 's" where
  "PBKDF2_block mac salt iterations counter T_size T s =
     try_bind (mac_pieces mac (salt # counter_pieces counter) s) (\<lambda>(U, s).
     try_bind (for_up 1 iterations (\<lambda>j r. try_bind r (\<lambda>(T, U, s).
         try_bind (mac_process mac U s) (\<lambda>(U, s). Inr (xor_buf T U T_size, U, s)))) (Inr (xor_buf T U T_size, U, s))) (\<lambda>(T, U, s).
       Inr (T, s)))"

partial_function (option) PBKDF2_loop :: "'s MAC \<Rightarrow> byte list \<Rightarrow> nat \<Rightarrow> nat \<Rightarrow> byte list \<Rightarrow> nat \<Rightarrow> u32bit \<Rightarrow> 's \<Rightarrow>
    (botan_error + byte list \<times> 's) option" where
  "PBKDF2_loop mac salt iterations key_len key off counter s =
     (if key_len \<noteq> 0 then
        let T_size = min (mac_output mac) key_len
        in case PBKDF2_block mac salt iterations counter T_size (drop off key) s of
             Inl e \<Rightarrow> Some (Inl e)
           | Inr r \<Rightarrow> PBKDF2_loop mac salt iterations (key_len - T_size) (take off key @ fst r) (off + T_size) (counter + 1) (snd r)
      else Some (Inr (key, s)))"

definition PBKDF2_derive :: "'s MAC \<Rightarrow> nat \<Rightarrow> byte list \<Rightarrow> byte list \<Rightarrow> nat \<Rightarrow> 's \<Rightarrow> (botan_error + byte list \<times> 's) option" where
  "PBKDF2_derive mac key_len passphrase salt iterations s =
     (if iterations = 0 then Some (Inl (Invalid_Argument ''PKCS#5 PBKDF2: Invalid iteration count''))
      else if length passphrase = 0 then Some (Inl (Invalid_Argument ''PKCS#5 PBKDF2: Empty passphrase is invalid''))
      else case mac_set_key mac passphrase s of
             Inl e \<Rightarrow> Some (Inl e)
           | Inr s \<Rightarrow> PBKDF2_loop mac salt iterations key_len (reg_create key_len) 0 1 s)"

text \<open>OpenPGP: the loop over whole copies of salt and passphrase, then a pass, then the passes.\<close>

partial_function (option) S2K_whole :: "'s HashFunction \<Rightarrow> byte list \<Rightarrow> byte list \<Rightarrow> nat \<Rightarrow> 's \<Rightarrow> (nat \<times> 's) option" where
  "S2K_whole h salt passphrase left s =
     (if left \<ge> length passphrase + length salt then
        S2K_whole h salt passphrase (left - (length passphrase + length salt)) (add_data h passphrase (add_data h salt s))
      else Some (left, s))"

partial_function (option) OpenPGP_S2K_loop :: "'s HashFunction \<Rightarrow> nat \<Rightarrow> byte list \<Rightarrow> byte list \<Rightarrow> nat \<Rightarrow> nat \<Rightarrow> nat \<Rightarrow>
    byte list \<Rightarrow> 's \<Rightarrow> (botan_error + byte list \<times> 's) option" where
  "OpenPGP_S2K_loop h key_len passphrase salt to_hash pass generated key s =
     (if key_len > generated then
        case S2K_whole h salt passphrase to_hash (fold (add_data h) (replicate pass [0]) s) of
          None \<Rightarrow> None
        | Some w \<Rightarrow>
            let left = fst w; s = snd w;
                s = (if left \<le> length salt then add_data h (take left salt) s
                     else add_data h (take (left - length salt) passphrase) (add_data h salt s))
            in case final_result h s of
                 Inl e \<Rightarrow> Some (Inl e)
               | Inr r \<Rightarrow> OpenPGP_S2K_loop h key_len passphrase salt to_hash (pass + 1) (generated + OUTPUT_LENGTH h)
                   (reg_copy key generated (fst r) (OUTPUT_LENGTH h)) (snd r)
      else Some (Inr (key, s)))"

definition OpenPGP_S2K_derive :: "'s HashFunction \<Rightarrow> nat \<Rightarrow> byte list \<Rightarrow> byte list \<Rightarrow> nat \<Rightarrow> 's \<Rightarrow>
    (botan_error + byte list \<times> 's) option" where
  "OpenPGP_S2K_derive h key_len passphrase salt_buf iterations s =
     (let total_size = length passphrase + length salt_buf;
          to_hash = max iterations total_size
      in OpenPGP_S2K_loop h key_len passphrase salt_buf to_hash 0 0 (reg_create key_len) (hash_clear h s))"

end
