(* ===== verification/KDF_Proofs.thy ===== *)
theory KDF_Proofs
  imports KDF
begin

text \<open>
  What the key derivation functions compute, over any hash function or MAC that keeps its contract: the first bytes of
  the blocks of a counter, with the block of each standard.
\<close>

section \<open>Blocks of a counter\<close>

text \<open>The first \<open>n\<close> bytes of \<open>F i\<close>, \<open>F (i + 1)\<close>, and so on; no block is empty, so \<open>n\<close> of them are enough.\<close>

definition counter_stream :: "(nat \<Rightarrow> byte list) \<Rightarrow> nat \<Rightarrow> nat \<Rightarrow> byte list" where
  "counter_stream F i n = take n (concat (map F [i..<i + n]))"

lemma counter_stream_0 [simp]: "counter_stream F i 0 = []"
  by (simp add: counter_stream_def)

lemma length_blocks: "(\<And>j. length (F j) = L) \<Longrightarrow> length (concat (map F [i..<i + n])) = n * L"
  by (induction n) simp_all

lemma length_counter_stream: "(\<And>j. length (F j) = L) \<Longrightarrow> 0 < L \<Longrightarrow> length (counter_stream F i n) = n"
  by (simp add: counter_stream_def length_blocks)

lemma counter_stream_more:
  assumes "\<And>j. length (F j) = L" and "0 < L" and "n \<le> m"
  shows "take n (concat (map F [i..<i + m])) = counter_stream F i n"
proof -
  have "[i..<i + m] = [i..<i + n] @ [i + n..<i + m]" 
    using upt_add_eq_append[of i "i + n" "m - n"] assms(3) by simp
  moreover have "n \<le> length (concat (map F [i..<i + n]))" using assms(2) by (simp add: length_blocks[OF assms(1)])
  ultimately show ?thesis by (simp add: counter_stream_def)
qed

lemma counter_stream_step:
  assumes L: "\<And>j. length (F j) = L" "0 < L" and n: "n \<noteq> 0"
  shows "counter_stream F i n = take (min L n) (F i) @ counter_stream F (Suc i) (n - min L n)"
proof -
  have "[i..<i + n] = i # [Suc i..<Suc i + (n - 1)]" using n by (simp add: upt_conv_Cons)
  then have "counter_stream F i n = take n (F i) @ take (n - L) (concat (map F [Suc i..<Suc i + (n - 1)]))"
    by (simp add: counter_stream_def L(1))
  also have "take (n - L) (concat (map F [Suc i..<Suc i + (n - 1)])) = counter_stream F (Suc i) (n - L)"
    using L n by (intro counter_stream_more) auto
  also have "take n (F i) = take (min L n) (F i)" using L(1)[of i] by (simp add: min_def)
  also have "n - L = n - min L n" by simp
  finally show ?thesis .
qed

lemma concat_counter_pieces: "concat (counter_pieces c) = store_be_u32 c"
  by (simp add: counter_pieces_def store_be_u32_def upt_rec numeral_2_eq_2 numeral_3_eq_3)

section \<open>Over a hash function\<close>

context hash_function
begin

lemma pieces_nil: "R s [] \<Longrightarrow> \<exists>s'. hash_pieces h xss s = Inr (H (concat xss), s') \<and> R s' []"
  using pieces[of s "[]" xss] by simp

lemma kdf1: "R s [] \<Longrightarrow> \<exists>s'. KDF1_derive h secret P s = Inr (H (secret @ P), s') \<and> R s' []"
  using pieces_nil[of s "[secret, P]"] by (simp add: KDF1_derive_def)

abbreviation kdf2_block :: "byte list \<Rightarrow> byte list \<Rightarrow> nat \<Rightarrow> byte list" where
  "kdf2_block secret P i \<equiv> H (secret @ store_be_u32 (of_nat i) @ P)"

lemma kdf2_loop:
  assumes "R s []" and L: "0 < OUTPUT_LENGTH h" and "\<And>m. length (H m) = OUTPUT_LENGTH h"
    and "0 < i" and "i \<le> 2 ^ 32" and "n \<le> (2 ^ 32 - i) * OUTPUT_LENGTH h"
  shows "\<exists>s'. KDF2_loop h secret P n (of_nat i) out s = Inr (out @ counter_stream (kdf2_block secret P) i n, s') \<and> R s' []"
  using assms(1,4-6)
proof (induction n arbitrary: i out s rule: less_induct)
  case (less n)
  let ?L = "OUTPUT_LENGTH h" and ?F = "kdf2_block secret P"
  show ?case
  proof (cases "n = 0")
    case True
    then show ?thesis using less.prems by (simp add: KDF2_loop.simps)
  next
    case False
    then have i: "i < 2 ^ 32" using less.prems by (cases "i = 2 ^ 32") auto
    then have c: "of_nat i \<noteq> (0 :: u32bit)" using less.prems(2) by (simp add: word_of_nat_eq_0_iff nat_dvd_not_less)
    obtain t where t: "hash_pieces h (secret # counter_pieces (of_nat i) @ [P]) s = Inr (?F i, t)" "R t []"
      using pieces_nil[OF less.prems(1), of "secret # counter_pieces (of_nat i) @ [P]"] by (auto simp: concat_counter_pieces)
    let ?a = "min ?L n"
    have "n - ?a \<le> (2 ^ 32 - Suc i) * ?L"
      using less.prems(4) i by (simp add: Suc_diff_Suc[symmetric] min_def diff_le_mono)
        (metis Suc_diff_Suc add_diff_cancel_left' diff_le_mono mult_Suc)
    then obtain s' where "KDF2_loop h secret P (n - ?a) (of_nat (Suc i)) (out @ take ?a (?F i)) t =
        Inr ((out @ take ?a (?F i)) @ counter_stream ?F (Suc i) (n - ?a), s')" "R s' []"
      using less.IH[of "n - ?a" t "Suc i" "out @ take ?a (?F i)"] t(2) False L i by auto
    then show ?thesis
      using c False t(1) counter_stream_step[of ?F ?L n i] L assms(3) by (simp add: KDF2_loop.simps[of h secret P n] add.commute Let_def)
  qed
qed

lemma kdf2:
  assumes "R s []" and "0 < OUTPUT_LENGTH h" and "n \<le> (2 ^ 32 - 1) * OUTPUT_LENGTH h"
  shows "\<exists>s'. KDF2_derive h n secret P s = Inr (counter_stream (kdf2_block secret P) 1 n, s') \<and> R s' []"
proof -
  have "length (H m) = OUTPUT_LENGTH h" for m using length_H[OF update[OF assms(1), of m]] by simp
  then show ?thesis using kdf2_loop[OF assms(1,2), of 1 n secret P "[]"] assms(3) by (simp add: KDF2_derive_def)
qed

abbreviation mgf1_block :: "byte list \<Rightarrow> nat \<Rightarrow> byte list" where
  "mgf1_block seed i \<equiv> H (seed @ store_be_u32 (of_nat i))"

lemma mgf1_loop:
  assumes "R s []" and L: "0 < OUTPUT_LENGTH h" and H: "\<And>m. length (H m) = OUTPUT_LENGTH h" and "off + n \<le> length out"
  shows "\<exists>s'. MGF1_loop h seed out off n (of_nat i) s = Some (Inr (take off out @
      xor_bytes (take n (drop off out)) (counter_stream (mgf1_block seed) i n) @ drop (off + n) out, s')) \<and> R s' []"
  using assms(1,4)
proof (induction n arbitrary: i off out s rule: less_induct)
  case (less n)
  let ?L = "OUTPUT_LENGTH h" and ?F = "mgf1_block seed"
  show ?case
  proof (cases "n = 0")
    case True
    then show ?thesis using less.prems by (subst MGF1_loop.simps) simp
  next
    case False
    obtain t where t: "hash_pieces h (seed # counter_pieces (of_nat i)) s = Inr (?F i, t)" "R t []"
      using pieces_nil[OF less.prems(1), of "seed # counter_pieces (of_nat i)"] by (auto simp: concat_counter_pieces)
    define a where "a = min ?L n"
    have a: "a \<le> n" "a \<le> ?L" "0 < a" using False L by (simp_all add: a_def)
    let ?out = "at_ptr off (\<lambda>p. xor_buf p (?F i) a) out"
    let ?x = "xor_bytes (take a (drop off out)) (take a (?F i))" and ?S = "counter_stream ?F (Suc i) (n - a)"
    have o: "?out = take off out @ ?x @ drop (off + a) out"
      using less.prems(2) a by (simp add: at_ptr_def xor_buf_map2 H add.commute)
    have lo: "length ?out = length out" "take (off + a) ?out = take off out @ ?x" "drop (off + a) ?out = drop (off + a) out"
      unfolding o using less.prems(2) a by (simp_all add: H)
    have step: "MGF1_loop h seed out off n (of_nat i) s = MGF1_loop h seed ?out (off + a) (n - a) (of_nat (Suc i)) t"
      using False t(1) by (subst MGF1_loop.simps) (simp add: H Let_def add.commute flip: a_def)
    obtain s' where s': "MGF1_loop h seed ?out (off + a) (n - a) (of_nat (Suc i)) t = Some (Inr (take (off + a) ?out @
        xor_bytes (take (n - a) (drop (off + a) ?out)) ?S @ drop (off + a + (n - a)) ?out, s'))" "R s' []"
      using less.IH[of "n - a" t "off + a" ?out "Suc i"] t(2) a less.prems(2) lo(1) by auto
    have "drop (off + a + (n - a)) ?out = drop (off + n) out"
    proof -
      have "drop (off + a + (n - a)) ?out = drop (n - a) (drop (off + a) ?out)" by (simp only: drop_drop add.commute)
      also have "\<dots> = drop (n - a + (off + a)) out" unfolding lo(3) drop_drop ..
      also have "n - a + (off + a) = off + n" using a(1) by simp
      finally show ?thesis .
    qed
    moreover have "take n (drop off out) = take a (drop off out) @ take (n - a) (drop (off + a) out)"
      using a(1) take_add[of a "n - a" "drop off out"] by (simp add: add.commute)
    moreover have "counter_stream ?F i n = take a (?F i) @ ?S"
      using counter_stream_step[of ?F ?L n i] H L False by (simp flip: a_def)
    moreover have "length (take a (drop off out)) = length (take a (?F i))" using less.prems(2) a by (simp add: H)
    ultimately have "take (off + a) ?out @ xor_bytes (take (n - a) (drop (off + a) ?out)) ?S @ drop (off + a + (n - a)) ?out =
        take off out @ xor_bytes (take n (drop off out)) (counter_stream ?F i n) @ drop (off + n) out"
      unfolding lo by (simp only: zip_append map_append append_assoc)
    then show ?thesis using s' step by simp
  qed
qed

text \<open>PBKDF1 iterates the hash.\<close>

lemma pbkdf1:
  assumes "R s []" and "0 < iterations" and "key_len \<le> OUTPUT_LENGTH h"
  shows "\<exists>s'. PBKDF1_derive h key_len passphrase salt iterations s = Inr (take key_len ((H ^^ iterations) (passphrase @ salt)), s') \<and> R s' []"
proof -
  obtain t where t: "hash_pieces h [passphrase, salt] s = Inr (H (passphrase @ salt), t)" "R t []"
    using pieces_nil[OF assms(1), of "[passphrase, salt]"] by auto
  let ?f = "\<lambda>j r. try_bind r (\<lambda>(key, s). hash_process h key s)"
  have "\<exists>s'. for_up 1 (Suc k) ?f (Inr (H (passphrase @ salt), t)) = Inr ((H ^^ Suc k) (passphrase @ salt), s') \<and> R s' []" for k
  proof (induction k)
    case 0
    then show ?case using t by simp
  next
    case (Suc k)
    then obtain u where u: "for_up 1 (Suc k) ?f (Inr (H (passphrase @ salt), t)) = Inr ((H ^^ Suc k) (passphrase @ salt), u)" "R u []" by blast
    obtain v where v: "hash_process h ((H ^^ Suc k) (passphrase @ salt)) u = Inr (H ((H ^^ Suc k) (passphrase @ salt)), v)" "R v []"
      using process[OF u(2), of "(H ^^ Suc k) (passphrase @ salt)"] by auto
    have "for_up 1 (Suc (Suc k)) ?f (Inr (H (passphrase @ salt), t)) = ?f (Suc k) (for_up 1 (Suc k) ?f (Inr (H (passphrase @ salt), t)))"
      by (rule for_up_Suc) simp
    then show ?case using u v by simp
  qed
  then obtain s' where "for_up 1 iterations ?f (Inr (H (passphrase @ salt), t)) = Inr ((H ^^ iterations) (passphrase @ salt), s')" "R s' []"
    using assms(2) by (metis Suc_pred')
  moreover have "length ((H ^^ iterations) (passphrase @ salt)) = OUTPUT_LENGTH h"
    using assms(2) length_H[OF update[OF assms(1)]] by (cases iterations) auto
  ultimately show ?thesis using t(1) assms(2,3) by (simp add: PBKDF1_derive_def)
qed

end

section \<open>Over a MAC\<close>

text \<open>RFC 2246: \<open>A(0)\<close> is the seed and \<open>A(i)\<close> the MAC of \<open>A(i - 1)\<close>. RFC 2898: a block is the exclusive or of the iterates of the
  MAC.\<close>

definition P_hash_block :: "(byte list \<Rightarrow> byte list) \<Rightarrow> byte list \<Rightarrow> nat \<Rightarrow> byte list" where
  "P_hash_block f seed i = f ((f ^^ i) seed @ seed)"

definition xor_iterates :: "(byte list \<Rightarrow> byte list) \<Rightarrow> nat \<Rightarrow> byte list \<Rightarrow> byte list" where
  "xor_iterates f c u = fold (\<lambda>j T. xor_bytes T ((f ^^ j) u)) [1..<c] u"

definition pbkdf2_T :: "(byte list \<Rightarrow> byte list) \<Rightarrow> byte list \<Rightarrow> nat \<Rightarrow> nat \<Rightarrow> byte list" where
  "pbkdf2_T f salt c i = xor_iterates f c (f (salt @ store_be_u32 (of_nat i)))"

lemma length_iterate:
  fixes f :: "byte list \<Rightarrow> byte list"
  shows "(\<And>x. length (f x) = L) \<Longrightarrow> length u = L \<Longrightarrow> length ((f ^^ j) u) = L"
  by (cases j) simp_all

lemma length_xor_iterates:
  assumes "\<And>x. length (f x) = L" and "length u = L"
  shows "length (xor_iterates f c u) = L"
proof (induction c)
  case 0
  then show ?case by (simp add: xor_iterates_def assms(2))
next
  case (Suc c)
  then show ?case using length_iterate[OF assms, of c] by (cases "c = 0") (simp_all add: xor_iterates_def assms(2))
qed

context mac_function
begin

lemma pieces_nil: "R s k [] \<Longrightarrow> \<exists>s'. mac_pieces a yss s = Inr (M k (concat yss), s') \<and> R s' k []"
  using pieces[of s k "[]" yss] by simp

lemma process_nil: "R s k [] \<Longrightarrow> \<exists>s'. mac_process a ys s = Inr (M k ys, s') \<and> R s' k []"
  using process[of s k "[]" ys] by simp

lemma M_length: "R s k [] \<Longrightarrow> length (M k x) = mac_output a"
  using length_M[OF update[of s k "[]" x]] by simp

lemma p_hash_loop:
  assumes "R s k []" and L: "0 < mac_output a"
  shows "\<exists>s'. P_hash_loop a seed n ((M k ^^ i) seed) out s =
    Some (Inr (out @ counter_stream (P_hash_block (M k) seed) (Suc i) n, s')) \<and> R s' k []"
  using assms(1)
proof (induction n arbitrary: i out s rule: less_induct)
  case (less n)
  let ?F = "P_hash_block (M k) seed" and ?A = "(M k ^^ Suc i) seed"
  show ?case
  proof (cases "n = 0")
    case True
    then show ?thesis using less.prems by (subst P_hash_loop.simps) simp
  next
    case False
    define b where "b = min (mac_output a) n"
    have b: "b \<le> n" "0 < b" using False L by (simp_all add: b_def)
    obtain t where t: "mac_process a ((M k ^^ i) seed) s = Inr (?A, t)" "R t k []" using process_nil[OF less.prems] by auto
    obtain u where u: "mac_pieces a [?A, seed] t = Inr (?F (Suc i), u)" "R u k []"
      using pieces_nil[OF t(2), of "[?A, seed]"] by (auto simp: P_hash_block_def)
    obtain s' where s': "P_hash_loop a seed (n - b) ?A (out @ take b (?F (Suc i))) u =
        Some (Inr ((out @ take b (?F (Suc i))) @ counter_stream ?F (Suc (Suc i)) (n - b), s'))" "R s' k []"
      using less.IH[of "n - b" u "Suc i" "out @ take b (?F (Suc i))"] u(2) b by auto
    have "P_hash_loop a seed n ((M k ^^ i) seed) out s = P_hash_loop a seed (n - b) ?A (out @ take b (?F (Suc i))) u"
      using False t(1) u(1) by (subst P_hash_loop.simps) (simp add: Let_def flip: b_def)
    moreover have "length (?F j) = mac_output a" for j using M_length[OF less.prems] by (simp add: P_hash_block_def)
    ultimately show ?thesis using s' counter_stream_step[of ?F "mac_output a" n "Suc i"] L False by (simp flip: b_def)
  qed
qed

lemma p_hash:
  assumes "I s" and "0 < mac_output a" and "valid_keylength (mac_keylength a) (length secret)"
  shows "\<exists>s'. P_hash a n secret seed s = Some (Inr (counter_stream (P_hash_block (M secret) seed) 1 n, s')) \<and> R s' secret []"
proof -
  obtain t where t: "mac_set_key a secret s = Inr t" "R t secret []" using set_key[OF assms(1,3)] by blast
  then show ?thesis using p_hash_loop[OF t(2) assms(2), of seed n 0 "[]"] by (simp add: P_hash_def)
qed

lemma p_hash_length:
  assumes "I s" and "0 < mac_output a" and "valid_keylength (mac_keylength a) (length secret)"
  shows "\<exists>s'. P_hash a n secret seed s = Some (Inr (counter_stream (P_hash_block (M secret) seed) 1 n, s')) \<and>
    length (counter_stream (P_hash_block (M secret) seed) 1 n) = n"
proof -
  obtain s' where s': "P_hash a n secret seed s = Some (Inr (counter_stream (P_hash_block (M secret) seed) 1 n, s'))" "R s' secret []"
    using p_hash[OF assms] by blast
  then have "length (P_hash_block (M secret) seed j) = mac_output a" for j using M_length by (simp add: P_hash_block_def)
  then show ?thesis using s'(1) length_counter_stream[of "P_hash_block (M secret) seed" "mac_output a"] assms(2) by simp
qed

lemma pbkdf2_block:
  assumes "R s k []" and "0 < c" and n: "n \<le> mac_output a" "n \<le> length T" and T: "take n T = replicate n 0"
  shows "\<exists>s'. PBKDF2_block a salt c (of_nat i) n T s = Inr (take n (pbkdf2_T (M k) salt c i) @ drop n T, s') \<and> R s' k []"
proof -
  let ?U = "M k (salt @ store_be_u32 (of_nat i))" and ?X = "\<lambda>c. xor_iterates (M k) c (M k (salt @ store_be_u32 (of_nat i)))"
  note L = M_length[OF assms(1)]
  obtain t where t: "mac_pieces a (salt # counter_pieces (of_nat i)) s = Inr (?U, t)" "R t k []"
    using pieces_nil[OF assms(1), of "salt # counter_pieces (of_nat i)"] by (auto simp: concat_counter_pieces)
  let ?f = "\<lambda>j r. try_bind r (\<lambda>(T, U, s). try_bind (mac_process a U s) (\<lambda>(U, s). Inr (xor_buf T U n, U, s)))"
  have "xor_buf T ?U n = take n ?U @ drop n T"
    using n L T by (simp add: xor_buf_map2) (simp add: zip_replicate1 comp_def)
  then have start: "for_up 1 1 ?f (Inr (xor_buf T ?U n, ?U, t)) = Inr (take n (?X 1) @ drop n T, ?U, t)"
    by (simp add: xor_iterates_def)
  have "\<exists>s'. for_up 1 (Suc m) ?f (Inr (xor_buf T ?U n, ?U, t)) = Inr (take n (?X (Suc m)) @ drop n T, (M k ^^ m) ?U, s') \<and> R s' k []" for m
  proof (induction m)
    case 0
    then show ?case using start t(2) by simp
  next
    case (Suc m)
    then obtain u where u: "for_up 1 (Suc m) ?f (Inr (xor_buf T ?U n, ?U, t)) = Inr (take n (?X (Suc m)) @ drop n T, (M k ^^ m) ?U, u)"
      "R u k []" by blast
    obtain v where v: "mac_process a ((M k ^^ m) ?U) u = Inr ((M k ^^ Suc m) ?U, v)" "R v k []" using process_nil[OF u(2)] by auto
    have "?X (Suc (Suc m)) = xor_bytes (?X (Suc m)) ((M k ^^ Suc m) ?U)" by (simp add: xor_iterates_def)
    moreover have "length (?X (Suc m)) = mac_output a" "length ((M k ^^ Suc m) ?U) = mac_output a"
      using length_xor_iterates[of "M k" "mac_output a"] length_iterate[of "M k" "mac_output a"] L by blast+
    ultimately have "xor_buf (take n (?X (Suc m)) @ drop n T) ((M k ^^ Suc m) ?U) n = take n (?X (Suc (Suc m))) @ drop n T"
      using n by (simp only: xor_buf_map2 length_append length_take take_map take_zip) (simp add: min_def)
    moreover have "for_up 1 (Suc (Suc m)) ?f (Inr (xor_buf T ?U n, ?U, t)) = ?f (Suc m) (for_up 1 (Suc m) ?f (Inr (xor_buf T ?U n, ?U, t)))"
      by (rule for_up_Suc) simp
    ultimately show ?case using u v by simp
  qed
  then obtain s' where "for_up 1 c ?f (Inr (xor_buf T ?U n, ?U, t)) = Inr (take n (?X c) @ drop n T, (M k ^^ (c - 1)) ?U, s')" "R s' k []"
    using assms(2) by (cases c) auto
  then show ?thesis using t(1) by (simp add: PBKDF2_block_def pbkdf2_T_def)
qed

lemma pbkdf2_loop:
  assumes "R s k []" and L: "0 < mac_output a" and "0 < c" and "length key = off + n" and "drop off key = replicate n 0"
  shows "\<exists>s'. PBKDF2_loop a salt c n key off (of_nat i) s =
    Some (Inr (take off key @ counter_stream (pbkdf2_T (M k) salt c) i n, s')) \<and> R s' k []"
  using assms(1,4,5)
proof (induction n arbitrary: i off key s rule: less_induct)
  case (less n)
  let ?F = "pbkdf2_T (M k) salt c"
  show ?case
  proof (cases "n = 0")
    case True
    then show ?thesis using less.prems by (subst PBKDF2_loop.simps) simp
  next
    case False
    define b where "b = min (mac_output a) n"
    have b: "b \<le> n" "0 < b" "b \<le> mac_output a" using False L by (simp_all add: b_def)
    have F: "length (?F j) = mac_output a" for j
      unfolding pbkdf2_T_def using length_xor_iterates[of "M k" "mac_output a"] M_length[OF less.prems(1)] by blast
    obtain t where t: "PBKDF2_block a salt c (of_nat i) b (drop off key) s = Inr (take b (?F i) @ drop b (drop off key), t)" "R t k []"
      using pbkdf2_block[OF less.prems(1) assms(3), of b "drop off key" salt i] b less.prems(2,3) by auto
    let ?key = "take off key @ take b (?F i) @ drop b (drop off key)"
    have key: "length ?key = (off + b) + (n - b)" "drop (off + b) ?key = replicate (n - b) 0" "take (off + b) ?key = take off key @ take b (?F i)"
      using less.prems(2,3) b F by simp_all
    obtain s' where s': "PBKDF2_loop a salt c (n - b) ?key (off + b) (of_nat (Suc i)) t =
        Some (Inr ((take off key @ take b (?F i)) @ counter_stream ?F (Suc i) (n - b), s'))" "R s' k []"
      using less.IH[OF _ t(2) key(1,2), of "Suc i"] b unfolding key(3) by (metis False diff_less gr0I)
    have "PBKDF2_loop a salt c n key off (of_nat i) s = PBKDF2_loop a salt c (n - b) ?key (off + b) (of_nat (Suc i)) t"
      using False t(1) by (subst PBKDF2_loop.simps) (simp add: Let_def add.commute flip: b_def)
    then show ?thesis using s' counter_stream_step[of ?F "mac_output a" n i] F L False by (simp flip: b_def)
  qed
qed

lemma pbkdf2:
  assumes "I s" and "0 < mac_output a" and "0 < c" and "passphrase \<noteq> []"
    and "valid_keylength (mac_keylength a) (length passphrase)"
  shows "\<exists>s'. PBKDF2_derive a n passphrase salt c s = Some (Inr (counter_stream (pbkdf2_T (M passphrase) salt c) 1 n, s'))"
proof -
  obtain t where t: "mac_set_key a passphrase s = Inr t" "R t passphrase []" using set_key[OF assms(1,5)] by blast
  then show ?thesis using pbkdf2_loop[OF t(2) assms(2,3), of "reg_create n" 0 n salt 1] assms(3,4)
    by (auto simp: PBKDF2_derive_def reg_create_def)
qed

end

section \<open>OpenPGP S2K\<close>

text \<open>RFC 4880, 3.7.1: salt and passphrase are hashed over and over until \<open>n\<close> bytes have been hashed; the hash of each
  further block of output is preceded by one more zero.\<close>

definition repeat_to :: "nat \<Rightarrow> byte list \<Rightarrow> byte list" where
  "repeat_to n xs = take n (concat (replicate n xs))"

definition s2k_block :: "(byte list \<Rightarrow> byte list) \<Rightarrow> nat \<Rightarrow> byte list \<Rightarrow> byte list \<Rightarrow> nat \<Rightarrow> byte list" where
  "s2k_block H count salt passphrase pass =
     H (replicate pass 0 @ repeat_to (max count (length salt + length passphrase)) (salt @ passphrase))"

lemma repeat_to_parts:
  assumes "xs \<noteq> []"
  shows "repeat_to n xs = concat (replicate (n div length xs) xs) @ take (n mod length xs) xs"
proof -
  let ?q = "n div length xs" and ?r = "n mod length xs"
  have l: "0 < length xs" using assms by simp
  have len: "length (concat (replicate m xs)) = m * length xs" for m by (induction m) simp_all
  have n: "n = ?q * length xs + ?r" by simp
  have "concat (replicate (m + ?q) xs) = concat (replicate ?q xs) @ concat (replicate m xs)" for m
    by (metis add.commute concat_append replicate_add)
  then have "take n (concat (replicate (?q + m) xs)) = concat (replicate ?q xs) @ take ?r (concat (replicate m xs))" for m
    using n len[of ?q] by (simp add: add.commute) (metis add_diff_cancel_left' div_mult_mod_eq)
  then have "repeat_to n xs = concat (replicate ?q xs) @ take ?r (concat (replicate (n - ?q) xs))"
    unfolding repeat_to_def by (metis div_le_dividend le_add_diff_inverse)
  moreover have "take ?r (concat (replicate (n - ?q) xs)) = take ?r xs"
  proof (cases "n - ?q")
    case 0
    moreover have "?q \<le> ?q * length xs" using assms by (cases xs) simp_all
    ultimately have "?r = 0" using n by linarith
    then show ?thesis by simp
  next
    case (Suc m)
    then show ?thesis using mod_less_divisor[OF l, of n] by simp
  qed
  ultimately show ?thesis by simp
qed

lemma S2K_whole_returns:
  assumes "S2K_whole h salt passphrase left s = Some r"
  shows "salt @ passphrase \<noteq> []"
  using _ assms
proof (rule S2K_whole.raw_induct[where P = "\<lambda>h salt passphrase left s r. salt @ passphrase \<noteq> []"])
  fix f :: "'x HashFunction \<Rightarrow> byte list \<Rightarrow> byte list \<Rightarrow> nat \<Rightarrow> 'x \<Rightarrow> (nat \<times> 'x) option"
    and h :: "'x HashFunction" and salt passphrase :: "byte list" and left and s :: 'x and r
  assume IH: "\<And>h salt passphrase left s r. f h salt passphrase left s = Some r \<Longrightarrow> salt @ passphrase \<noteq> []"
    and body: "(if left \<ge> length passphrase + length salt then
        f h salt passphrase (left - (length passphrase + length salt)) (add_data h passphrase (add_data h salt s))
      else Some (left, s)) = Some r"
  show "salt @ passphrase \<noteq> []"
  proof (cases "left \<ge> length passphrase + length salt")
    case True
    then have "f h salt passphrase (left - (length passphrase + length salt)) (add_data h passphrase (add_data h salt s)) = Some r"
      using body by simp
    then show ?thesis by (rule IH)
  qed auto
qed

context clearing_hash
begin

lemma s2k_whole:
  assumes "R s m" and "salt @ passphrase \<noteq> []"
  shows "\<exists>s'. S2K_whole h salt passphrase left s = Some (left mod length (salt @ passphrase), s') \<and>
    R s' (m @ concat (replicate (left div length (salt @ passphrase)) (salt @ passphrase)))"
  using assms(1)
proof (induction left arbitrary: s m rule: less_induct)
  case (less left)
  let ?l = "length (salt @ passphrase)"
  have l: "0 < ?l" using assms(2) by simp
  show ?case
  proof (cases "left < ?l")
    case True
    then show ?thesis using less.prems by (subst S2K_whole.simps) simp
  next
    case False
    let ?t = "add_data h passphrase (add_data h salt s)"
    have t: "R ?t (m @ salt @ passphrase)" using update[OF update[OF less.prems, of salt], of passphrase] by simp
    have lt: "left - ?l < left" using l False by (intro diff_less) linarith+
    have "left div ?l = Suc ((left - ?l) div ?l)" "left mod ?l = (left - ?l) mod ?l"
      using l False by (simp_all add: le_div_geq le_mod_geq del: length_append)
    then show ?thesis using less.IH[OF lt t] False by (subst S2K_whole.simps) (simp add: add.commute)
  qed
qed

lemma s2k_pass:
  assumes "R s []" and ne: "salt @ passphrase \<noteq> []"
  shows "\<exists>left u. S2K_whole h salt passphrase n (fold (add_data h) (replicate pass [0]) s) = Some (left, u) \<and>
    R (if left \<le> length salt then add_data h (take left salt) u
       else add_data h (take (left - length salt) passphrase) (add_data h salt u))
      (replicate pass 0 @ repeat_to n (salt @ passphrase))"
proof -
  let ?l = "length (salt @ passphrase)"
  have z: "concat (replicate pass [0 :: byte]) = replicate pass 0" by (induction pass) simp_all
  have "R (fold (add_data h) (replicate pass [0]) s) (replicate pass 0)"
    using updates[OF assms(1), of "replicate pass [0]"] by (simp add: z)
  from s2k_whole[OF this ne, of n] obtain u where u: "S2K_whole h salt passphrase n (fold (add_data h) (replicate pass [0]) s) = Some (n mod ?l, u)"
    "R u (replicate pass 0 @ concat (replicate (n div ?l) (salt @ passphrase)))" by blast
  have "R (if n mod ?l \<le> length salt then add_data h (take (n mod ?l) salt) u
       else add_data h (take (n mod ?l - length salt) passphrase) (add_data h salt u))
      ((replicate pass 0 @ concat (replicate (n div ?l) (salt @ passphrase))) @ take (n mod ?l) (salt @ passphrase))"
    using update[OF u(2), of "take (n mod ?l) salt"] update[OF update[OF u(2), of salt], of "take (n mod ?l - length salt) passphrase"]
    by simp
  then show ?thesis using u(1) repeat_to_parts[OF ne, of n] by auto
qed

lemma s2k_loop:
  assumes "R s []" and L: "0 < OUTPUT_LENGTH h" and ne: "salt @ passphrase \<noteq> []" and "length key = generated + n"
    and F: "F = (\<lambda>pass. H (replicate pass 0 @ repeat_to to_hash (salt @ passphrase)))" and H: "\<And>m. length (H m) = OUTPUT_LENGTH h"
  shows "\<exists>s'. OpenPGP_S2K_loop h (generated + n) passphrase salt to_hash pass generated key s =
    Some (Inr (take generated key @ counter_stream F pass n, s'))"
  using assms(1,4)
proof (induction n arbitrary: pass generated key s rule: less_induct)
  case (less n)
  show ?case
  proof (cases "n = 0")
    case True
    then show ?thesis using less.prems by (subst OpenPGP_S2K_loop.simps) simp
  next
    case False
    define b where "b = min (OUTPUT_LENGTH h) n"
    have b: "b \<le> n" "0 < b" using False L by (simp_all add: b_def)
    obtain left u where u: "S2K_whole h salt passphrase to_hash (fold (add_data h) (replicate pass [0]) s) = Some (left, u)"
      "R (if left \<le> length salt then add_data h (take left salt) u
         else add_data h (take (left - length salt) passphrase) (add_data h salt u)) (replicate pass 0 @ repeat_to to_hash (salt @ passphrase))"
      using s2k_pass[OF less.prems(1) ne] by blast
    obtain v where v: "final_result h (if left \<le> length salt then add_data h (take left salt) u
         else add_data h (take (left - length salt) passphrase) (add_data h salt u)) = Inr (F pass, v)" "R v []"
      using final[OF u(2)] by (auto simp: F)
    let ?key = "reg_copy key generated (F pass) (OUTPUT_LENGTH h)"
    have FL: "length (F j) = OUTPUT_LENGTH h" for j by (simp add: F H)
    have step: "OpenPGP_S2K_loop h (generated + n) passphrase salt to_hash pass generated key s =
        OpenPGP_S2K_loop h (generated + n) passphrase salt to_hash (pass + 1) (generated + OUTPUT_LENGTH h) ?key v"
      using False u(1) v(1) by (subst OpenPGP_S2K_loop.simps) (simp add: Let_def)
    have S: "counter_stream F pass n = take b (F pass) @ counter_stream F (Suc pass) (n - b)"
      using counter_stream_step[of F "OUTPUT_LENGTH h" n pass] FL L False by (simp flip: b_def)
    show ?thesis
    proof (cases "OUTPUT_LENGTH h \<le> n")
      case True
      then have bL: "b = OUTPUT_LENGTH h" by (simp add: b_def)
      have k: "take (generated + b) ?key = take generated key @ F pass" "length ?key = length key"
        using take_reg_copy(1,2)[of generated "OUTPUT_LENGTH h" key "F pass"] less.prems(2) FL bL b by simp_all
      have "length ?key = generated + b + (n - b)" using k(2) less.prems(2) b by simp
      from less.IH[OF _ v(2) this, of "Suc pass"] b obtain s' where "OpenPGP_S2K_loop h (generated + b + (n - b)) passphrase salt to_hash
          (Suc pass) (generated + b) ?key v = Some (Inr (take (generated + b) ?key @ counter_stream F (Suc pass) (n - b), s'))"
        by (metis False diff_less gr0I)
      moreover have "generated + b + (n - b) = generated + n" using b by simp
      ultimately show ?thesis using step S k(1) FL bL by simp
    next
      case over: False
      then have bn: "b = n" by (simp add: b_def)
      have "?key = take generated key @ take n (F pass)"
        using take_reg_copy(3)[of key generated "OUTPUT_LENGTH h" "F pass"] less.prems(2) over FL by simp
      moreover have "OpenPGP_S2K_loop h (generated + n) passphrase salt to_hash (pass + 1) (generated + OUTPUT_LENGTH h) ?key v = Some (Inr (?key, v))"
        using over by (subst OpenPGP_S2K_loop.simps) simp
      ultimately show ?thesis using step S bn by simp
    qed
  qed
qed

lemma s2k:
  assumes "R s m" and "0 < OUTPUT_LENGTH h" and "salt @ passphrase \<noteq> []"
  shows "\<exists>s'. OpenPGP_S2K_derive h n passphrase salt count s = Some (Inr (counter_stream (s2k_block H count salt passphrase) 0 n, s'))"
proof -
  have "length (H x) = OUTPUT_LENGTH h" for x using length_H[OF update[OF clear[OF assms(1)], of x]] by simp
  then show ?thesis
    using s2k_loop[OF clear[OF assms(1)] assms(2,3), of "reg_create n" 0 n "s2k_block H count salt passphrase" "max count (length passphrase + length salt)" 0]
    by (simp add: OpenPGP_S2K_derive_def s2k_block_def[abs_def] Let_def add.commute)
qed

end

lemma s2k_diverges:
  assumes "0 < n"
  shows "OpenPGP_S2K_derive h n [] [] count s = None"
proof -
  have w: "S2K_whole h [] [] left t = None" for left t using S2K_whole_returns[of h "[]" "[]" left t] by (cases "S2K_whole h [] [] left t") auto
  show ?thesis unfolding OpenPGP_S2K_derive_def Let_def using assms by (subst OpenPGP_S2K_loop.simps) (simp add: w)
qed

end
