(* ===== verification/KDF_Properties.thy ===== *)
theory KDF_Properties
  imports KDF_Proofs Hash_Properties
begin

text \<open>
  The key derivation functions on the hash functions of the library. Each call starts with an object between two
  messages, as every call leaves it.
\<close>

section \<open>The PRFs of SSL 3 and TLS\<close>

text \<open>Block \<open>i\<close> of the SSL 3 PRF: the letter \<open>A + i\<close>, \<open>i + 1\<close> times, is hashed with secret and seed.\<close>

definition ssl3_prf_block :: "byte list \<Rightarrow> byte list \<Rightarrow> nat \<Rightarrow> byte list" where
  "ssl3_prf_block secret seed i = md_digest MD5 (secret @ md_digest SHA_160 (replicate (i + 1) (0x41 + of_nat i) @ secret @ seed))"

lemma md5_contract: "clearing_hash (mdx_hash MD5) (mdx_absorbed MD5) (md_digest MD5)"
  and sha1_contract: "clearing_hash (mdx_hash SHA_160) (mdx_absorbed SHA_160) (md_digest SHA_160)"
  by (rule mdx_hash_ok[OF MD5_ok] mdx_hash_ok[OF SHA_160_ok])+

lemma md5_sha1_sizes [simp]:
  "mdx_output MD5 = 16" "mdx_block MD5 = 64" "mdx_output SHA_160 = 20" "mdx_block SHA_160 = 64"
  by (simp_all add: MD5_def SHA_160_def)

lemma mdx_hash_sizes [simp]: "OUTPUT_LENGTH (mdx_hash p) = mdx_output p" "HASH_BLOCK_SIZE (mdx_hash p) = mdx_block p"
  by (simp_all add: mdx_hash_def)

lemma length_ssl3_prf_block: "length (ssl3_prf_block secret seed i) = 16"
proof -
  obtain s where "mdx_absorbed MD5 s []" using new_MDx_absorbed[OF MD5_ok] by blast
  note hash_function.update[OF clearing_hash.axioms(1)[OF md5_contract] this]
  from hash_function.length_H[OF clearing_hash.axioms(1)[OF md5_contract] this] show ?thesis by (simp add: ssl3_prf_block_def)
qed

lemma next_hash_val:
  assumes "mdx_absorbed MD5 (fst s) []" and "mdx_absorbed SHA_160 (snd s) []" and "want \<le> 16"
  shows "\<exists>t. next_hash (mdx_hash MD5) (mdx_hash SHA_160) i want secret seed s = Inr (take want (ssl3_prf_block secret seed i), t) \<and>
    mdx_absorbed MD5 (fst t) [] \<and> mdx_absorbed SHA_160 (snd t) []"
proof -
  note pieces = hash_function.pieces_nil[OF clearing_hash.axioms(1)]
  let ?c = "0x41 + of_nat i :: byte"
  let ?A = "map (\<lambda>j. [?c]) [0..<i + 1]"
  have A: "concat (map (\<lambda>j. [?c]) [0..<m]) = replicate m ?c" for m by (induction m) (simp_all flip: replicate_append_same)
  obtain u where u: "hash_pieces (mdx_hash SHA_160) (?A @ [secret, seed]) (snd s) =
      Inr (md_digest SHA_160 (replicate (i + 1) ?c @ secret @ seed), u)" "mdx_absorbed SHA_160 u []"
    using pieces[OF sha1_contract assms(2), of "?A @ [secret, seed]"] unfolding concat_append A by auto
  obtain v where v: "hash_pieces (mdx_hash MD5) [secret, md_digest SHA_160 (replicate (i + 1) ?c @ secret @ seed)] (fst s) =
      Inr (ssl3_prf_block secret seed i, v)" "mdx_absorbed MD5 v []"
    using pieces[OF md5_contract assms(1), of "[secret, md_digest SHA_160 (replicate (i + 1) ?c @ secret @ seed)]"]
    by (auto simp: ssl3_prf_block_def)
  show ?thesis using u v assms(3) by (simp add: next_hash_def Let_def del: upt_Suc)
qed

lemma ssl3_prf_loop:
  assumes "mdx_absorbed MD5 (fst s) []" and "mdx_absorbed SHA_160 (snd s) []"
  shows "SSL3_PRF_loop (mdx_hash MD5) (mdx_hash SHA_160) secret seed i n out s =
    Some (Inr (out @ counter_stream (ssl3_prf_block secret seed) i n))"
  using assms
proof (induction n arbitrary: i out s rule: less_induct)
  case (less n)
  let ?F = "ssl3_prf_block secret seed"
  show ?case
  proof (cases "n = 0")
    case True
    then show ?thesis by (subst SSL3_PRF_loop.simps) simp
  next
    case False
    define b where "b = min n 16"
    have b: "b \<le> n" "0 < b" "b \<le> 16" using False by (simp_all add: b_def)
    obtain t where t: "next_hash (mdx_hash MD5) (mdx_hash SHA_160) i b secret seed s = Inr (take b (?F i), t)"
      "mdx_absorbed MD5 (fst t) []" "mdx_absorbed SHA_160 (snd t) []" using next_hash_val[OF less.prems b(3)] by blast
    have "SSL3_PRF_loop (mdx_hash MD5) (mdx_hash SHA_160) secret seed i n out s =
        SSL3_PRF_loop (mdx_hash MD5) (mdx_hash SHA_160) secret seed (Suc i) (n - b) (out @ take b (?F i)) t"
      using False t(1) by (subst SSL3_PRF_loop.simps) (simp add: Let_def flip: b_def)
    also have "\<dots> = Some (Inr ((out @ take b (?F i)) @ counter_stream ?F (Suc i) (n - b)))"
      using less.IH[OF _ t(2,3)] b by simp
    finally show ?thesis using counter_stream_step[of ?F 16 n i] length_ssl3_prf_block False by (simp add: b_def min.commute)
  qed
qed

lemma ssl3_prf:
  "SSL3_PRF_derive n secret seed =
     Some (if n \<le> 416 then Inr (counter_stream (ssl3_prf_block secret seed) 0 n)
           else Inl (Internal_Error ''SSL3_PRF: Requested key length is too large''))"
proof -
  obtain m where m: "new_MDx MD5 = Inr m" "mdx_absorbed MD5 m []" using new_MDx_absorbed[OF MD5_ok] by blast
  obtain h where h: "new_MDx SHA_160 = Inr h" "mdx_absorbed SHA_160 h []" using new_MDx_absorbed[OF SHA_160_ok] by blast
  show ?thesis using ssl3_prf_loop[of "(m, h)" secret seed 0 n "[]"] m h by (simp add: SSL3_PRF_derive_def)
qed

text \<open>TLS: the two halves of the secret key two HMACs, whose outputs are xored.\<close>

abbreviation hmac_md5_code :: "byte list \<Rightarrow> byte list \<Rightarrow> byte list" where
  "hmac_md5_code \<equiv> hmac_code 64 (md_digest MD5)"

abbreviation hmac_sha1_code :: "byte list \<Rightarrow> byte list \<Rightarrow> byte list" where
  "hmac_sha1_code \<equiv> hmac_code 64 (md_digest SHA_160)"

lemma hmac_contract:
  assumes "mdx_ok p" and "mdx_output p \<le> mdx_block p"
  shows "mac_function (hmac (mdx_hash p)) (nested_object (mdx_absorbed p) (mdx_block p))
    (nested_absorbed (mdx_absorbed p) (mdx_block p) (\<lambda>c k. xor_bytes (hmac_key (mdx_block p) (md_digest p) k) (replicate (mdx_block p) c)))
    (hmac_code (mdx_block p) (md_digest p))"
  using clearing_hash.hmac_ok[OF mdx_hash_ok[OF assms(1)]] assms(2) by (simp add: mdx_hash_def)

lemma new_hmac:
  assumes "mdx_ok p" and "0 < mdx_block p"
  shows "\<exists>s. try_bind (new_MDx p) (new_HMAC (mdx_hash p)) = Inr s \<and> nested_object (mdx_absorbed p) (mdx_block p) s"
  using new_MDx_absorbed[OF assms(1)] assms(2) by (auto simp: new_HMAC_def nested_object_def mdx_hash_def)

lemma hmac_lengths: "valid_keylength (mac_keylength (hmac (mdx_hash p))) n \<longleftrightarrow> 1 \<le> n \<and> n \<le> 2 * mdx_block p" if "0 < mdx_block p"
  using that by (auto simp: hmac_def mdx_hash_def valid_keylength_def new_SymmetricAlgorithm_def)

lemma tls_prf:
  fixes secret :: "byte list"
  defines "k \<equiv> (length secret + 1) div 2"
  assumes "0 < length secret" and "length secret \<le> 256"
  shows "\<exists>s t. new_TLS_PRF = Inr s \<and> TLS_PRF_derive (hmac (mdx_hash MD5)) (hmac (mdx_hash SHA_160)) n secret seed s =
    Some (Inr (xor_bytes (counter_stream (P_hash_block (hmac_md5_code (take k secret)) seed) 1 n)
      (counter_stream (P_hash_block (hmac_sha1_code (drop (length secret - k) secret)) seed) 1 n), t))"
proof -
  note B = md5_sha1_sizes
  obtain m where m: "try_bind (new_MDx MD5) (new_HMAC (mdx_hash MD5)) = Inr m" "nested_object (mdx_absorbed MD5) 64 m"
    using new_hmac[OF MD5_ok] B by auto
  obtain h where h: "try_bind (new_MDx SHA_160) (new_HMAC (mdx_hash SHA_160)) = Inr h" "nested_object (mdx_absorbed SHA_160) 64 h"
    using new_hmac[OF SHA_160_ok] B by auto
  let ?S1 = "take k secret" and ?S2 = "drop (length secret - k) secret"
  have "1 \<le> (l + 1) div 2" if "0 < l" for l :: nat using that by presburger
  then have k: "length ?S1 = k" "length ?S2 = k" "1 \<le> k" "k \<le> 128" using assms(2,3) by (auto simp: k_def)
  note c1 = hmac_contract[OF MD5_ok, unfolded B] and c2 = hmac_contract[OF SHA_160_ok, unfolded B]
  let ?K1 = "counter_stream (P_hash_block (hmac_md5_code ?S1) seed) 1 n" and ?K2 = "counter_stream (P_hash_block (hmac_sha1_code ?S2) seed) 1 n"
  obtain t1 where t1: "P_hash (hmac (mdx_hash MD5)) n ?S1 seed m = Some (Inr (?K1, t1))" "length ?K1 = n"
    using mac_function.p_hash_length[OF c1 m(2), of ?S1 n seed] hmac_lengths[of MD5 k] k by (auto simp: hmac_def)
  obtain t2 where t2: "P_hash (hmac (mdx_hash SHA_160)) n ?S2 seed h = Some (Inr (?K2, t2))" "length ?K2 = n"
    using mac_function.p_hash_length[OF c2 h(2), of ?S2 n seed] hmac_lengths[of SHA_160 k] k by (auto simp: hmac_def)
  have S2: "take k ?S2 = ?S2" using k(2) by simp
  have "xor_buf ?K1 ?K2 (length ?K2) = xor_bytes ?K1 ?K2" using t1(2) t2(2) by (simp add: xor_buf_map2)
  then show ?thesis using m(1) h(1) t1(1) t2(1) unfolding new_TLS_PRF_def TLS_PRF_derive_def Let_def k_def[symmetric] S2 by simp
qed

lemma tls_prf_rejects:
  assumes "length secret = 0 \<or> 256 < length secret"
  shows "\<exists>s n. new_TLS_PRF = Inr s \<and> TLS_PRF_derive (hmac (mdx_hash MD5)) (hmac (mdx_hash SHA_160)) key_len secret seed s =
    Some (Inl (Invalid_Key_Length ''HMAC(MD5)'' n))"
proof -
  obtain m where m: "try_bind (new_MDx MD5) (new_HMAC (mdx_hash MD5)) = Inr m" using new_hmac[OF MD5_ok] by auto
  obtain h where h: "try_bind (new_MDx SHA_160) (new_HMAC (mdx_hash SHA_160)) = Inr h" using new_hmac[OF SHA_160_ok] by auto
  let ?S1 = "take ((length secret + 1) div 2) secret"
  have "length ?S1 = 0 \<or> 128 < length ?S1" using assms by auto
  then have "\<not> valid_keylength (mac_keylength (hmac (mdx_hash MD5))) (length ?S1)" using hmac_lengths[of MD5 "length ?S1"] by auto
  then have "P_hash (hmac (mdx_hash MD5)) key_len ?S1 seed m = Some (Inl (Invalid_Key_Length ''HMAC(MD5)'' (length ?S1)))"
    by (simp add: P_hash_def mac_set_key_def) (simp add: hmac_def mdx_hash_def MD5_def)
  then show ?thesis using m h by (simp add: new_TLS_PRF_def TLS_PRF_derive_def Let_def)
qed

section \<open>The theorems\<close>

text \<open>C33. Over every Merkle-Damgard hash function, KDF1, KDF2, MGF1 and PBKDF1 give what IEEE 1363 and PKCS 5 define: the hash
  of secret and parameter, the first bytes of the hashes of a counter from one, the mask from a counter from zero xored
  into the output, and the iterated hash. PBKDF1 refuses a count of zero and more output than a hash.\<close>

theorem kdf_standard:
  assumes "mdx_ok p" and "new_MDx p = Inr s" and "n \<le> (2 ^ 32 - 1) * mdx_output p" and "length out = m"
    and "0 < iterations" and "key_len \<le> mdx_output p"
  shows "(\<exists>t. KDF1_derive (mdx_hash p) secret P s = Inr (md_digest p (secret @ P), t)) \<and>
    (\<exists>t. KDF2_derive (mdx_hash p) n secret P s =
      Inr (counter_stream (\<lambda>i. md_digest p (secret @ store_be_u32 (of_nat i) @ P)) 1 n, t)) \<and>
    (\<exists>t. MGF1_mask (mdx_hash p) secret out m s =
      Some (Inr (xor_bytes out (counter_stream (\<lambda>i. md_digest p (secret @ store_be_u32 (of_nat i))) 0 m), t))) \<and>
    (\<exists>t. PBKDF1_derive (mdx_hash p) key_len secret salt iterations s =
      Inr (take key_len ((md_digest p ^^ iterations) (secret @ salt)), t)) \<and>
    PBKDF1_derive (mdx_hash p) key_len secret salt 0 s = Inl (Invalid_Argument ''PKCS#5 PBKDF1: Invalid iteration count'') \<and>
    (mdx_output p < too_long \<longrightarrow> PBKDF1_derive (mdx_hash p) too_long secret salt iterations s =
      Inl (Exception ''PKCS#5 PBKDF1: Requested output length too long''))"
proof (intro conjI)
  note h = clearing_hash.axioms(1)[OF mdx_hash_ok[OF assms(1)]]
  have s: "mdx_absorbed p s []" using new_MDx_absorbed[OF assms(1)] assms(2) by simp
  have L: "0 < OUTPUT_LENGTH (mdx_hash p)" using mdx_okD(3)[OF assms(1)] by simp
  have H: "length (md_digest p x) = OUTPUT_LENGTH (mdx_hash p)" for x
    using hash_function.length_H[OF h hash_function.update[OF h s, of x]] by simp
  show "\<exists>t. KDF1_derive (mdx_hash p) secret P s = Inr (md_digest p (secret @ P), t)" using hash_function.kdf1[OF h s] by blast
  show "\<exists>t. KDF2_derive (mdx_hash p) n secret P s =
      Inr (counter_stream (\<lambda>i. md_digest p (secret @ store_be_u32 (of_nat i) @ P)) 1 n, t)"
    using hash_function.kdf2[OF h s L, of n secret P] assms(3) by auto
  show "\<exists>t. MGF1_mask (mdx_hash p) secret out m s =
      Some (Inr (xor_bytes out (counter_stream (\<lambda>i. md_digest p (secret @ store_be_u32 (of_nat i))) 0 m), t))"
    using hash_function.mgf1_loop[OF h s L H, of 0 m out secret 0] assms(4) by (auto simp: MGF1_mask_def)
  show "\<exists>t. PBKDF1_derive (mdx_hash p) key_len secret salt iterations s =
      Inr (take key_len ((md_digest p ^^ iterations) (secret @ salt)), t)"
    using hash_function.pbkdf1[OF h s assms(5), of key_len secret salt] assms(6) by auto
qed (use assms(5) in \<open>simp_all add: PBKDF1_derive_def\<close>)

theorem kdf_standard_witness:
  "\<exists>s t. new_MDx SHA_160 = Inr s \<and> KDF2_derive (mdx_hash SHA_160) 50 [1, 2] [3] s =
     Inr (counter_stream (\<lambda>i. md_digest SHA_160 ([1, 2] @ store_be_u32 (of_nat i) @ [3])) 1 50, t)"
proof -
  obtain s where "new_MDx SHA_160 = Inr s" using new_MDx_absorbed[OF SHA_160_ok] by blast
  then show ?thesis using kdf_standard[OF SHA_160_ok, of s 50 "[0]" 1 1 20 "[1, 2]" "[3]"] by auto
qed

text \<open>C32. PBKDF2 over HMAC is the function of PKCS 5: for every count, salt and output length the first bytes of the blocks
  \<open>U(1) xor ... xor U(c)\<close> of a counter from one. The TLS PRF of RFC 2246 xors the two data expansions of the halves of the
  secret, and the SSL 3 PRF is the nested hash of the SSL 3.0 specification. PBKDF2 refuses a passphrase longer than two blocks of the
  hash, and TLS a secret whose halves are.\<close>

theorem prf_standard:
  assumes "mdx_ok p" and "mdx_output p \<le> mdx_block p" and "new_MDx p = Inr hash" and "new_HMAC (mdx_hash p) hash = Inr s"
    and "0 < c" and "1 \<le> length pass" and "length pass \<le> 2 * mdx_block p"
    and "0 < length secret" and "length secret \<le> 256" and "256 < length long" and "n \<le> 416"
  shows "(\<exists>t. PBKDF2_derive (hmac (mdx_hash p)) m pass salt c s =
      Some (Inr (counter_stream (pbkdf2_T (hmac_code (mdx_block p) (md_digest p) pass) salt c) 1 m, t))) \<and>
    (2 * mdx_block p < length too_long \<longrightarrow> PBKDF2_derive (hmac (mdx_hash p)) m too_long salt c s =
      Some (Inl (Invalid_Key_Length (mac_name (hmac (mdx_hash p))) (length too_long)))) \<and>
    (let k = (length secret + 1) div 2 in \<exists>u t. new_TLS_PRF = Inr u \<and>
      TLS_PRF_derive (hmac (mdx_hash MD5)) (hmac (mdx_hash SHA_160)) m secret seed u =
        Some (Inr (xor_bytes (counter_stream (P_hash_block (hmac_md5_code (take k secret)) seed) 1 m)
          (counter_stream (P_hash_block (hmac_sha1_code (drop (length secret - k) secret)) seed) 1 m), t))) \<and>
    (\<exists>u l. new_TLS_PRF = Inr u \<and> TLS_PRF_derive (hmac (mdx_hash MD5)) (hmac (mdx_hash SHA_160)) m long seed u =
      Some (Inl (Invalid_Key_Length ''HMAC(MD5)'' l))) \<and>
    SSL3_PRF_derive n secret seed = Some (Inr (counter_stream (ssl3_prf_block secret seed) 0 n))"
proof (intro conjI)
  have b: "0 < mdx_block p" using mdx_okD(1,2)[OF assms(1)] by simp
  have o: "0 < mac_output (hmac (mdx_hash p))" using mdx_okD(3)[OF assms(1)] by (simp add: hmac_def)
  have "nested_object (mdx_absorbed p) (mdx_block p) s" using new_hmac[OF assms(1) b] assms(3,4) by simp
  then show "\<exists>t. PBKDF2_derive (hmac (mdx_hash p)) m pass salt c s =
      Some (Inr (counter_stream (pbkdf2_T (hmac_code (mdx_block p) (md_digest p) pass) salt c) 1 m, t))"
    using mac_function.pbkdf2[OF hmac_contract[OF assms(1,2)] _ o assms(5), of s pass m salt] hmac_lengths[OF b] assms(6,7)
    by (cases "pass = []") auto
  show "2 * mdx_block p < length too_long \<longrightarrow> PBKDF2_derive (hmac (mdx_hash p)) m too_long salt c s =
      Some (Inl (Invalid_Key_Length (mac_name (hmac (mdx_hash p))) (length too_long)))"
    using assms(5) hmac_lengths[OF b, of "length too_long"] by (auto simp: PBKDF2_derive_def mac_set_key_def)
  show "let k = (length secret + 1) div 2 in \<exists>u t. new_TLS_PRF = Inr u \<and>
      TLS_PRF_derive (hmac (mdx_hash MD5)) (hmac (mdx_hash SHA_160)) m secret seed u =
        Some (Inr (xor_bytes (counter_stream (P_hash_block (hmac_md5_code (take k secret)) seed) 1 m)
          (counter_stream (P_hash_block (hmac_sha1_code (drop (length secret - k) secret)) seed) 1 m), t))"
    unfolding Let_def by (rule tls_prf[OF assms(8,9)])
  show "\<exists>u l. new_TLS_PRF = Inr u \<and> TLS_PRF_derive (hmac (mdx_hash MD5)) (hmac (mdx_hash SHA_160)) m long seed u =
      Some (Inl (Invalid_Key_Length ''HMAC(MD5)'' l))"
    using tls_prf_rejects assms(10) by blast
  show "SSL3_PRF_derive n secret seed = Some (Inr (counter_stream (ssl3_prf_block secret seed) 0 n))"
    using ssl3_prf[of n secret seed] assms(11) by simp
qed

theorem prf_standard_witness:
  "\<exists>hash s t. new_MDx SHA_160 = Inr hash \<and> new_HMAC (mdx_hash SHA_160) hash = Inr s \<and>
     PBKDF2_derive (hmac (mdx_hash SHA_160)) 50 [1, 2] [3] 4 s =
       Some (Inr (counter_stream (pbkdf2_T (hmac_code 64 (md_digest SHA_160) [1, 2]) [3] 4) 1 50, t)) \<and>
     SSL3_PRF_derive 48 [5] [6] = Some (Inr (counter_stream (ssl3_prf_block [5] [6]) 0 48))"
proof -
  obtain hash where h: "new_MDx SHA_160 = Inr hash" using new_MDx_absorbed[OF SHA_160_ok] by blast
  moreover from this obtain s where "new_HMAC (mdx_hash SHA_160) hash = Inr s" using new_hmac[OF SHA_160_ok] by auto
  ultimately show ?thesis
    using prf_standard[OF SHA_160_ok, of hash s 4 "[1, 2]" "[5]" "replicate 257 0" 48 50 "[3]" "[6]"] by (auto simp: Let_def)
qed

text \<open>C34. OpenPGP S2K returns on every input with a salt or a passphrase, with the key of RFC 4880: salt and passphrase hashed
  over and over up to the count, another zero before each further block. When both are empty and a byte is asked
  for it never returns: the loop subtracts the size zero from what is left to hash.\<close>

theorem s2k_returns:
  assumes "mdx_ok p" and "new_MDx p = Inr s" and "0 < n"
  shows "salt @ passphrase = [] \<and> OpenPGP_S2K_derive (mdx_hash p) n passphrase salt count s = None \<or>
    salt @ passphrase \<noteq> [] \<and> (\<exists>t. OpenPGP_S2K_derive (mdx_hash p) n passphrase salt count s =
      Some (Inr (counter_stream (s2k_block (md_digest p) count salt passphrase) 0 n, t)))"
proof (cases "salt @ passphrase = []")
  case True
  then show ?thesis using s2k_diverges[OF assms(3)] by auto
next
  case False
  have s: "mdx_absorbed p s []" using new_MDx_absorbed[OF assms(1)] assms(2) by simp
  have L: "0 < OUTPUT_LENGTH (mdx_hash p)" using mdx_okD(3)[OF assms(1)] by simp
  show ?thesis using clearing_hash.s2k[OF mdx_hash_ok[OF assms(1)] s L False, of n count] False by auto
qed

theorem s2k_returns_witness:
  "\<exists>s t. new_MDx MD5 = Inr s \<and> OpenPGP_S2K_derive (mdx_hash MD5) 24 [] [] 0 s = None \<and>
     OpenPGP_S2K_derive (mdx_hash MD5) 24 [1, 2] [] 5 s = Some (Inr (counter_stream (s2k_block (md_digest MD5) 5 [] [1, 2]) 0 24, t))"
proof -
  obtain s where "new_MDx MD5 = Inr s" using new_MDx_absorbed[OF MD5_ok] by blast
  then show ?thesis using s2k_returns[OF MD5_ok, of s 24 "[]" "[]" 0] s2k_returns[OF MD5_ok, of s 24 "[]" "[1, 2]" 5] by auto
qed

end
