(* ===== verification/Codec_Base.thy ===== *)
theory Codec_Base
  imports Mode_Base Hash_Base Parsing
begin

text \<open>
  What the hexadecimal and Base64 codecs share (\<open>src/codec/hex/hex.cpp\<close>, \<open>src/codec/base64/base64.cpp\<close>). An encoder
  collects input in a buffer of full blocks, encodes them and breaks the output into lines; its constants (the
  length of a line, 0 for no breaks) are arguments of its operations, the members that change are the record. The
  member \<open>out\<close> is written before it is read in every use, so it is a local of the functions here. As for the modes,
  \<open>enc_sent\<close> is what went to \<open>send\<close>.

  The locale \<open>block_encoder\<close> holds what both encoders are: for any pieces of input, the text of the message in lines.
  \<open>block_decoder\<close> does the same for the decoders, which take characters and skip what their table does not know.
\<close>

text \<open>A check of a table at the small indices.\<close>

lemma small_bytes:
  assumes "list_all P (map word_of_nat [0..<n])" and "unat (b :: byte) < n"
  shows "P b"
proof -
  have "unat b \<in> {0..<n}" using assms(2) by simp
  then have "P (word_of_nat (unat b))" using assms(1) unfolding list_all_iff by (metis (mono_tags) image_eqI set_map set_upt)
  then show ?thesis by simp
qed

section \<open>Encoders\<close>

record Encoder =
  enc_in :: "byte list"
  enc_position :: nat
  enc_counter :: nat
  enc_sent :: "byte list"

definition new_Encoder :: "nat \<Rightarrow> Encoder" where
  "new_Encoder n = \<lparr>enc_in = reg_create n, enc_position = 0, enc_counter = 0, enc_sent = []\<rparr>"

definition line_length :: "bool \<Rightarrow> nat \<Rightarrow> nat" where
  "line_length breaks n = (if breaks then n else 0)"

abbreviation (input) newline :: byte where
  "newline \<equiv> 0x0A"

definition enc_send :: "byte list \<Rightarrow> Encoder \<Rightarrow> Encoder" where
  "enc_send bs e = e\<lparr>enc_sent := enc_sent e @ bs\<rparr>"

text \<open>The loop that breaks lines: \<open>while(remaining)\<close>.\<close>

partial_function (option) output_lines :: "nat \<Rightarrow> byte list \<Rightarrow> nat \<Rightarrow> nat \<Rightarrow> Encoder \<Rightarrow> Encoder option" where
  "output_lines L inp remaining offset e =
     (if remaining \<noteq> 0 then
        let n = min (L - enc_counter e) remaining;
            e = enc_send (take n (drop offset inp)) e;
            e = e\<lparr>enc_counter := enc_counter e + n\<rparr>
        in output_lines L inp (remaining - n) (offset + n)
             (if enc_counter e = L then (enc_send [newline] e)\<lparr>enc_counter := 0\<rparr> else e)
      else Some e)"

definition do_output :: "nat \<Rightarrow> byte list \<Rightarrow> nat \<Rightarrow> Encoder \<Rightarrow> Encoder option" where
  "do_output L inp n e = (if L = 0 then Some (enc_send (take n inp) e) else output_lines L inp n 0 e)"

text \<open>\<open>write\<close> is the same function in both encoders; \<open>emit\<close> is \<open>encode_and_send\<close>.\<close>

partial_function (option) write_blocks :: "(byte list \<Rightarrow> nat \<Rightarrow> Encoder \<Rightarrow> Encoder option) \<Rightarrow> byte list \<Rightarrow> Encoder \<Rightarrow>
    (byte list \<times> Encoder) option" where
  "write_blocks emit input e =
     (if length input \<ge> length (enc_in e) then
        case emit input (length (enc_in e)) e of
          None \<Rightarrow> None
        | Some e \<Rightarrow> write_blocks emit (drop (length (enc_in e)) input) e
      else Some (input, e))"

definition encoder_write :: "(byte list \<Rightarrow> nat \<Rightarrow> Encoder \<Rightarrow> Encoder option) \<Rightarrow> Encoder \<Rightarrow> byte list \<Rightarrow> Encoder option" where
  "encoder_write emit e input =
     (let n = length (enc_in e);
          e = e\<lparr>enc_in := reg_copy (enc_in e) (enc_position e) input (length input)\<rparr>
      in if enc_position e + length input \<ge> n then
           case emit (enc_in e) n e of
             None \<Rightarrow> None
           | Some e \<Rightarrow>
               (case write_blocks emit (drop (n - enc_position e) input) e of
                  None \<Rightarrow> None
                | Some (input, e) \<Rightarrow>
                    Some (e\<lparr>enc_in := reg_copy (enc_in e) 0 input (length input), enc_position := 0 + length input\<rparr>))
         else Some (e\<lparr>enc_position := enc_position e + length input\<rparr>))"

section \<open>Lines\<close>

text \<open>The specification: a character at a time, and the whole text.\<close>

definition line_step :: "nat \<Rightarrow> byte \<Rightarrow> nat \<times> byte list \<Rightarrow> nat \<times> byte list" where
  "line_step L b s =
     (if L = 0 then (fst s, snd s @ [b])
      else if fst s + 1 = L then (0, snd s @ [b, newline]) else (fst s + 1, snd s @ [b]))"

definition put_text :: "nat \<Rightarrow> byte list \<Rightarrow> Encoder \<Rightarrow> Encoder" where
  "put_text L cs e = (let s = fold (line_step L) cs (enc_counter e, enc_sent e) in e\<lparr>enc_counter := fst s, enc_sent := snd s\<rparr>)"

function text_lines :: "nat \<Rightarrow> byte list \<Rightarrow> byte list" where
  "text_lines L xs = (if L = 0 \<or> xs = [] then xs else take L xs @ [newline] @ text_lines L (drop L xs))"
  by pat_completeness auto
termination by (relation "measure (length \<circ> snd)") auto

declare text_lines.simps [simp del]

definition line_ok :: "nat \<Rightarrow> Encoder \<Rightarrow> bool" where
  "line_ok L e \<longleftrightarrow> (if L = 0 then enc_counter e = 0 else enc_counter e < L)"

lemma line_step_append:
  "fold (line_step L) xs (c, out) = (fst (fold (line_step L) xs (c, [])), out @ snd (fold (line_step L) xs (c, [])))"
proof (induction xs arbitrary: c out)
  case (Cons b xs)
  obtain c' t where l: "line_step L b (c, []) = (c', t)" by fastforce
  then have "line_step L b (c, out) = (c', out @ t)" by (auto simp: line_step_def split: if_splits)
  then show ?case using l Cons.IH[of c' "out @ t"] Cons.IH[of c' t] by simp
qed simp

lemma line_step_no_break:
  "L = 0 \<Longrightarrow> fold (line_step L) xs (c, out) = (c, out @ xs)"
  by (induction xs arbitrary: out) (simp_all add: line_step_def)

lemma line_step_short:
  "c + length xs < L \<Longrightarrow> fold (line_step L) xs (c, out) = (c + length xs, out @ xs)"
  by (induction xs arbitrary: c out) (simp_all add: line_step_def)

lemma line_step_line:
  assumes "c + length xs = L" and "xs \<noteq> []"
  shows "fold (line_step L) xs (c, out) = (0, out @ xs @ [newline])"
proof -
  obtain ys b where xs: "xs = ys @ [b]" using assms(2) by (metis rev_exhaust)
  then show ?thesis using assms line_step_short[of c ys L out] by (simp add: line_step_def)
qed

lemma line_step_counter:
  "0 < L \<Longrightarrow> c < L \<Longrightarrow> fst (fold (line_step L) xs (c, out)) = (c + length xs) mod L"
proof (induction xs arbitrary: c out)
  case (Cons b xs)
  show ?case
  proof (cases "c + 1 = L")
    case True
    have "c + length (b # xs) = L + length xs" using True by simp
    then have "(c + length (b # xs)) mod L = length xs mod L" by (simp only: mod_add_self1)
    then show ?thesis using Cons True by (simp add: line_step_def)
  next
    case False
    then show ?thesis using Cons by (simp add: line_step_def)
  qed
qed simp

lemma put_text_ok: "line_ok L e \<Longrightarrow> line_ok L (put_text L cs e)"
  by (auto simp: line_ok_def put_text_def Let_def line_step_no_break line_step_counter)

lemma put_text_append: "put_text L (xs @ ys) e = put_text L ys (put_text L xs e)"
  by (simp add: put_text_def Let_def)

lemma put_text_nil [simp]: "put_text L [] e = e"
  by (simp add: put_text_def)

lemma put_text_fields [simp]:
  "enc_in (put_text L cs e) = enc_in e" "enc_position (put_text L cs e) = enc_position e"
  by (simp_all add: put_text_def Let_def)

text \<open>The loop is that specification, and ends.\<close>

lemma output_lines_correct:
  assumes "0 < L" and "enc_counter e < L" and "offset + remaining \<le> length inp"
  shows "output_lines L inp remaining offset e = Some (put_text L (take remaining (drop offset inp)) e)"
  using assms(2,3)
proof (induction remaining arbitrary: offset e rule: less_induct)
  case (less remaining)
  show ?case
  proof (cases "remaining = 0")
    case True
    then show ?thesis by (subst output_lines.simps) simp
  next
    case False
    define n where "n = min (L - enc_counter e) remaining"
    have n: "0 < n" "n \<le> remaining" using False less.prems by (auto simp: n_def)
    define xs where "xs = take n (drop offset inp)"
    have xs: "length xs = n" "xs \<noteq> []" using n less.prems by (auto simp: xs_def)
    define e' where "e' = e\<lparr>enc_sent := enc_sent e @ xs, enc_counter := enc_counter e + n\<rparr>"
    define e'' where "e'' = (if enc_counter e' = L then (enc_send [newline] e')\<lparr>enc_counter := 0\<rparr> else e')"
    have e'': "e'' = put_text L xs e"
    proof (cases "enc_counter e + n = L")
      case True
      then show ?thesis using line_step_line[of "enc_counter e" xs L] xs
        by (simp add: e''_def e'_def put_text_def enc_send_def)
    next
      case False
      then have "enc_counter e + n < L" using less.prems by (auto simp: n_def)
      then show ?thesis using line_step_short[of "enc_counter e" xs L] xs False
        by (simp add: e''_def e'_def put_text_def enc_send_def)
    qed
    have "enc_counter e'' < L" using put_text_ok[of L e xs] assms(1) less.prems(1) by (simp add: e'' line_ok_def)
    then have "output_lines L inp (remaining - n) (offset + n) e'' =
        Some (put_text L (take (remaining - n) (drop (offset + n) inp)) e'')"
      using n less.prems by (intro less.IH) auto
    moreover have "take remaining (drop offset inp) = xs @ take (remaining - n) (drop (offset + n) inp)"
      using n by (simp add: xs_def add.commute flip: take_add drop_drop)
    moreover have "output_lines L inp remaining offset e = output_lines L inp (remaining - n) (offset + n) e''"
      using False by (subst output_lines.simps) (simp add: Let_def e''_def e'_def xs_def n_def enc_send_def)
    ultimately show ?thesis using e'' by (simp add: put_text_append)
  qed
qed

lemma do_output_correct:
  assumes "line_ok L e" and "n \<le> length inp"
  shows "do_output L inp n e = Some (put_text L (take n inp) e)"
proof (cases "L = 0")
  case True
  then show ?thesis by (simp add: do_output_def put_text_def line_step_no_break enc_send_def)
next
  case False
  then show ?thesis using output_lines_correct[of L e 0 n inp] assms by (simp add: do_output_def line_ok_def)
qed

lemma text_lines_put:
  "0 < L \<Longrightarrow> snd (fold (line_step L) xs (0, [])) @ (if length xs mod L \<noteq> 0 then [newline] else []) = text_lines L xs"
proof (induction L xs rule: text_lines.induct)
  case (1 L xs)
  show ?case
  proof (cases "length xs < L")
    case True
    then show ?thesis using line_step_short[of 0 xs L "[]"]
      by (cases "xs = []") (simp_all add: text_lines.simps[of L xs] text_lines.simps[of L "[]"])
  next
    case False
    define ys zs where "ys = take L xs" and "zs = drop L xs"
    have xs: "xs = ys @ zs" "length ys = L" "xs \<noteq> []" using False \<open>0 < L\<close> by (auto simp: ys_def zs_def)
    have "fold (line_step L) xs (0, []) = fold (line_step L) zs (0, ys @ [newline])"
      using line_step_line[of 0 ys L "[]"] xs \<open>0 < L\<close> by force
    then have "snd (fold (line_step L) xs (0, [])) = ys @ [newline] @ snd (fold (line_step L) zs (0, []))"
      using line_step_append[of L zs 0 "ys @ [newline]"] by simp
    moreover have "length xs mod L = length zs mod L" using xs by simp
    moreover have "text_lines L xs = ys @ [newline] @ text_lines L zs"
      using xs \<open>0 < L\<close> by (simp add: text_lines.simps[of L xs] ys_def zs_def)
    ultimately show ?thesis using 1 xs(3) by (simp add: zs_def)
  qed
qed

lemma text_lines_no_break [simp]: "text_lines 0 xs = xs"
  by (simp add: text_lines.simps)

lemma lines_end:
  assumes "(c, out) = fold (line_step L) cs (0, [])"
  shows "out @ (if c \<noteq> 0 \<and> L \<noteq> 0 then [newline] else []) = text_lines L cs" (is ?out)
    and "c = (if L = 0 then 0 else length cs mod L)" (is ?c)
proof -
  have both: "?out \<and> ?c"
  proof (cases "L = 0")
    case True
    then show ?thesis using assms by (simp add: line_step_no_break)
  next
    case False
    then have "c = length cs mod L"
      using line_step_counter[of L 0 cs "[]"] by (simp flip: assms)
    then show ?thesis
      using text_lines_put[of L cs] False by (auto simp flip: assms)
  qed
  show ?out using both by (rule conjunct1)
  show ?c using both by (rule conjunct2)
qed

lemma filter_text_lines: "\<not> P newline \<Longrightarrow> filter P (text_lines L xs) = filter P xs"
proof (induction L xs rule: text_lines.induct)
  case (1 L xs)
  show ?case
  proof (cases "L = 0 \<or> xs = []")
    case False
    then have "filter P (text_lines L (drop L xs)) = filter P (drop L xs)" using 1 by auto
    moreover have "filter P (take L xs) @ filter P (drop L xs) = filter P xs" by (simp flip: filter_append)
    ultimately show ?thesis using False 1(2) by (simp add: text_lines.simps[of L xs])
  qed (auto simp: text_lines.simps[of L xs])
qed

lemma set_text_lines: "set (text_lines L xs) \<subseteq> insert newline (set xs)"
proof (induction L xs rule: text_lines.induct)
  case (1 L xs)
  then show ?case by (cases "L = 0 \<or> xs = []")
    (auto simp: text_lines.simps[of L xs] dest: in_set_takeD in_set_dropD)
qed

section \<open>Any pieces of input\<close>

text \<open>The encoder after the message \<open>m\<close>: its full blocks are sent, what is left is in the buffer.\<close>

definition enc_absorbed :: "nat \<Rightarrow> nat \<Rightarrow> (byte list \<Rightarrow> byte list) \<Rightarrow> Encoder \<Rightarrow> Encoder \<Rightarrow> byte list \<Rightarrow> bool" where
  "enc_absorbed n L enc e0 e m \<longleftrightarrow> (\<exists>a. n dvd length a \<and> m = a @ take (enc_position e) (enc_in e) \<and>
     length (enc_in e) = n \<and> enc_position e < n \<and> line_ok L e \<and>
     (enc_counter e, enc_sent e) = fold (line_step L) (enc a) (enc_counter e0, enc_sent e0))"

locale block_encoder =
  fixes n :: nat and L :: nat and emit :: "byte list \<Rightarrow> nat \<Rightarrow> Encoder \<Rightarrow> Encoder option" and enc :: "byte list \<Rightarrow> byte list"
  assumes n_pos: "0 < n"
    and emit: "line_ok L e \<Longrightarrow> n \<le> length block \<Longrightarrow> emit block n e = Some (put_text L (enc (take n block)) e)"
    and enc_append: "n dvd length xs \<Longrightarrow> enc (xs @ ys) = enc xs @ enc ys"
    and enc_nil: "enc [] = []"
begin

lemma blocks:
  assumes "line_ok L e" and "length (enc_in e) = n"
  shows "\<exists>a r. input = a @ r \<and> n dvd length a \<and> length r < n \<and>
    write_blocks emit input e = Some (r, put_text L (enc a) e)"
  using assms
proof (induction "length input" arbitrary: input e rule: less_induct)
  case less
  show ?case
  proof (cases "n \<le> length input")
    case False
    then have "write_blocks emit input e = Some (input, e)" using less.prems by (subst write_blocks.simps) simp
    then show ?thesis using False by (intro exI[of _ "[]"] exI[of _ input]) (simp add: enc_nil)
  next
    case True
    define b where "b = take n input"
    let ?e = "put_text L (enc b) e"
    have "length (drop n input) < length input" using True n_pos by simp
    from less.hyps[OF this, of ?e] obtain a r where ar: "drop n input = a @ r" "n dvd length a" "length r < n"
      "write_blocks emit (drop n input) ?e = Some (r, put_text L (enc a) ?e)"
      using less.prems put_text_ok[OF less.prems(1)] by force
    have i: "input = (b @ a) @ r" using ar(1) by (metis append_assoc append_take_drop_id b_def)
    have b: "length b = n" using True by (simp add: b_def)
    have "write_blocks emit input e = write_blocks emit (drop n input) ?e"
      using True emit[OF less.prems(1) True] less.prems(2) by (subst write_blocks.simps) (simp add: b_def)
    also have "\<dots> = Some (r, put_text L (enc (b @ a)) e)" using ar(4) b enc_append[of b a] by (simp add: put_text_append)
    finally show ?thesis using ar(2,3) i b by (intro exI[of _ "b @ a"] exI[of _ r]) simp
  qed
qed

lemma absorb:
  assumes "enc_absorbed n L enc e0 e m"
  shows "\<exists>e'. encoder_write emit e input = Some e' \<and> enc_absorbed n L enc e0 e' (m @ input)"
proof -
  define q where "q = enc_position e"
  obtain a where a: "n dvd length a" "m = a @ take q (enc_in e)" "length (enc_in e) = n" "q < n" "line_ok L e"
    "(enc_counter e, enc_sent e) = fold (line_step L) (enc a) (enc_counter e0, enc_sent e0)"
    using assms by (auto simp: enc_absorbed_def q_def)
  define b where "b = reg_copy (enc_in e) q input (length input)"
  show ?thesis
  proof (cases "q + length input < n")
    case True
    have "take (q + length input) b = take q (enc_in e) @ input" "length b = n"
      using take_reg_copy(1,2)[of q "length input" "enc_in e" input] True a(3) by (simp_all add: b_def)
    then have "enc_absorbed n L enc e0 (e\<lparr>enc_in := b, enc_position := q + length input\<rparr>) (m @ input)"
      unfolding enc_absorbed_def using a True by (intro exI[of _ a]) (simp add: line_ok_def)
    moreover have "encoder_write emit e input = Some (e\<lparr>enc_in := b, enc_position := q + length input\<rparr>)"
      using True a(3) by (simp add: encoder_write_def Let_def b_def q_def)
    ultimately show ?thesis by blast
  next
    case False
    have b: "b = take q (enc_in e) @ take (n - q) input" "length b = n"
      using take_reg_copy(3)[of "enc_in e" q "length input" input] False a(3,4) by (simp_all add: b_def)
    define e1 where "e1 = e\<lparr>enc_in := b\<rparr>"
    have e1: "line_ok L e1" "length (enc_in e1) = n" using a(5) b(2) by (simp_all add: e1_def line_ok_def)
    let ?e = "put_text L (enc b) e1"
    obtain c r where c: "drop (n - q) input = c @ r" "n dvd length c" "length r < n"
      "write_blocks emit (drop (n - q) input) ?e = Some (r, put_text L (enc c) ?e)"
      using blocks[of ?e "drop (n - q) input"] e1 put_text_ok[of L e1] by auto
    define e2 where "e2 = (put_text L (enc c) ?e)\<lparr>enc_in := reg_copy b 0 r (length r), enc_position := length r\<rparr>"
    have "encoder_write emit e input = Some e2"
      using False a(3) c(4) emit[OF e1(1), of b] e1(2) unfolding encoder_write_def q_def[symmetric] b_def[symmetric]
      by (simp add: Let_def e1_def e2_def b(2) flip: q_def)
    moreover have "enc_absorbed n L enc e0 e2 (m @ input)"
      unfolding enc_absorbed_def
    proof (intro exI[of _ "a @ b @ c"] conjI)
      show "n dvd length (a @ b @ c)" using a(1) b(2) c(2) by simp
      have "input = take (n - q) input @ c @ r" using c(1) append_take_drop_id[of "n - q" input] by metis
      then have "m @ input = a @ b @ c @ r" using a(2) b(1) by simp
      moreover have "take (length r) (reg_copy b 0 r (length r)) = r"
        using take_reg_copy(1)[of 0 "length r" b r] c(3) b(2) by simp
      ultimately show "m @ input = (a @ b @ c) @ take (enc_position e2) (enc_in e2)" by (simp add: e2_def)
      show "length (enc_in e2) = n" "enc_position e2 < n"
        using take_reg_copy(2)[of 0 "length r" b r] c(3) b(2) by (simp_all add: e2_def)
      have "line_ok L (put_text L (enc c) ?e)" using e1(1) by (intro put_text_ok)
      then show "line_ok L e2" by (cases "L = 0") (simp_all add: e2_def line_ok_def)
      have "enc (a @ b @ c) = enc a @ enc b @ enc c" using enc_append[OF a(1)] enc_append[of b c] b(2) by simp
      then show "(enc_counter e2, enc_sent e2) = fold (line_step L) (enc (a @ b @ c)) (enc_counter e0, enc_sent e0)"
        using a(6)[symmetric] by (simp add: e2_def e1_def put_text_def Let_def)
    qed
    ultimately show ?thesis by blast
  qed
qed

lemma start: "length (enc_in e) = n \<Longrightarrow> enc_position e = 0 \<Longrightarrow> line_ok L e \<Longrightarrow> enc_absorbed n L enc e e []"
  unfolding enc_absorbed_def using n_pos by (intro exI[of _ "[]"]) (simp add: enc_nil)

lemma message:
  assumes "length (enc_in e) = n" and "enc_position e = 0" and "line_ok L e"
  shows "\<exists>e'. write_all (encoder_write emit) xss e = Some e' \<and> enc_absorbed n L enc e e' (concat xss)"
proof -
  have "\<exists>e'. write_all (encoder_write emit) xss e1 = Some e' \<and> enc_absorbed n L enc e e' (m @ concat xss)"
    if "enc_absorbed n L enc e e1 m" for e1 m
    using that
  proof (induction xss arbitrary: e1 m)
    case (Cons xs xss)
    obtain e2 where "encoder_write emit e1 xs = Some e2" "enc_absorbed n L enc e e2 (m @ xs)" using absorb[OF Cons.prems] by blast
    then show ?case using Cons.IH[of e2 "m @ xs"] by simp
  qed simp
  from this[OF start[OF assms]] show ?thesis by simp
qed

end

section \<open>Decoders\<close>

datatype Decoder_Checking = NONE | IGNORE_WS | FULL_CHECK

record Decoder =
  dec_in :: "byte list"
  dec_position :: nat
  dec_sent :: "byte list"

definition new_Decoder :: "nat \<Rightarrow> Decoder" where
  "new_Decoder n = \<lparr>dec_in = reg_create n, dec_position = 0, dec_sent = []\<rparr>"

definition dec_send :: "byte list \<Rightarrow> nat \<Rightarrow> Decoder \<Rightarrow> Decoder" where
  "dec_send bs n d = d\<lparr>dec_sent := dec_sent d @ take n bs\<rparr>"

text \<open>\<open>write\<close> is the same function in both decoders: \<open>handle_bad_char\<close> may throw, \<open>emit\<close> is \<open>decode_and_send\<close>.\<close>

definition dec_put :: "byte \<Rightarrow> Decoder \<Rightarrow> Decoder" where
  "dec_put b d = d\<lparr>dec_in := (dec_in d)[dec_position d := b], dec_position := dec_position d + 1\<rparr>"

definition dec_full :: "(byte list \<Rightarrow> nat \<Rightarrow> Decoder \<Rightarrow> Decoder) \<Rightarrow> Decoder \<Rightarrow> Decoder" where
  "dec_full emit d =
     (if dec_position d = length (dec_in d) then (emit (dec_in d) (length (dec_in d)) d)\<lparr>dec_position := 0\<rparr> else d)"

fun decoder_write :: "(byte \<Rightarrow> bool) \<Rightarrow> (byte \<Rightarrow> botan_error option) \<Rightarrow> (byte list \<Rightarrow> nat \<Rightarrow> Decoder \<Rightarrow> Decoder) \<Rightarrow>
    Decoder \<Rightarrow> byte list \<Rightarrow> botan_error + Decoder" where
  "decoder_write is_valid handle_bad_char emit d [] = Inr d"
| "decoder_write is_valid handle_bad_char emit d (b # bs) =
     (if is_valid b then decoder_write is_valid handle_bad_char emit (dec_full emit (dec_put b d)) bs
      else case handle_bad_char b of
             Some e \<Rightarrow> Inl e
           | None \<Rightarrow> decoder_write is_valid handle_bad_char emit (dec_full emit d) bs)"

fun write_pieces :: "('s \<Rightarrow> byte list \<Rightarrow> botan_error + 's) \<Rightarrow> byte list list \<Rightarrow> 's \<Rightarrow> botan_error + 's" where
  "write_pieces write [] s = Inr s"
| "write_pieces write (xs # xss) s = try_bind (write s xs) (write_pieces write xss)"

text \<open>The decoder after the valid characters \<open>cs\<close>.\<close>

definition dec_absorbed :: "nat \<Rightarrow> (byte list \<Rightarrow> byte list) \<Rightarrow> Decoder \<Rightarrow> Decoder \<Rightarrow> byte list \<Rightarrow> bool" where
  "dec_absorbed n dec d0 d cs \<longleftrightarrow> (\<exists>a. n dvd length a \<and> cs = a @ take (dec_position d) (dec_in d) \<and>
     length (dec_in d) = n \<and> dec_position d < n \<and> dec_sent d = dec_sent d0 @ dec a)"

text \<open>The first character that makes the decoder throw.\<close>

definition first_bad :: "(byte \<Rightarrow> bool) \<Rightarrow> (byte \<Rightarrow> botan_error option) \<Rightarrow> byte list \<Rightarrow> botan_error option" where
  "first_bad is_valid bad cs =
     (case List.find (\<lambda>b. \<not> is_valid b \<and> bad b \<noteq> None) cs of None \<Rightarrow> None | Some b \<Rightarrow> bad b)"

lemma first_bad_simps [simp]:
  "first_bad is_valid bad [] = None"
  "first_bad is_valid bad (b # bs) = (if \<not> is_valid b \<and> bad b \<noteq> None then bad b else first_bad is_valid bad bs)"
  by (simp_all add: first_bad_def)

lemma first_bad_append:
  "first_bad is_valid bad (xs @ ys) = (case first_bad is_valid bad xs of None \<Rightarrow> first_bad is_valid bad ys | Some e \<Rightarrow> Some e)"
  by (induction xs) auto

lemma first_bad_none: "\<forall>x \<in> set cs. is_valid x \<or> bad x = None \<Longrightarrow> first_bad is_valid bad cs = None"
  by (induction cs) auto

lemma first_bad_lines:
  assumes "\<forall>x \<in> set cs. is_valid x \<or> bad x = None" and "\<not> is_valid newline"
  shows "first_bad is_valid bad (text_lines L cs) = (if L = 0 \<or> cs = [] then None else bad newline)"
proof (cases "L = 0 \<or> cs = []")
  case True
  then show ?thesis using first_bad_none[OF assms(1)] by (auto simp: text_lines.simps[of L cs])
next
  case False
  show ?thesis
  proof (cases "bad newline")
    case None
    then have "\<forall>x \<in> set (text_lines L cs). is_valid x \<or> bad x = None"
      using set_text_lines[of L cs] assms(1) by (metis insert_iff subsetD)
    then show ?thesis using first_bad_none None by simp
  next
    case (Some e)
    have "first_bad is_valid bad (take L cs) = None" using assms(1) by (intro first_bad_none) (auto dest: in_set_takeD)
    then show ?thesis using Some False assms(2) by (simp add: text_lines.simps[of L cs] first_bad_append)
  qed
qed

locale block_decoder =
  fixes n :: nat and is_valid :: "byte \<Rightarrow> bool" and bad :: "byte \<Rightarrow> botan_error option"
    and emit :: "byte list \<Rightarrow> nat \<Rightarrow> Decoder \<Rightarrow> Decoder" and dec :: "byte list \<Rightarrow> byte list"
  assumes n_pos: "0 < n"
    and emit: "length block = n \<Longrightarrow> emit block n d = d\<lparr>dec_sent := dec_sent d @ dec block\<rparr>"
    and dec_append: "n dvd length xs \<Longrightarrow> dec (xs @ ys) = dec xs @ dec ys"
    and dec_nil: "dec [] = []"
begin

lemma put:
  assumes "dec_absorbed n dec d0 d cs"
  shows "dec_absorbed n dec d0 (dec_full emit (dec_put b d)) (cs @ [b])"
proof -
  define q where "q = dec_position d"
  obtain a where a: "n dvd length a" "cs = a @ take q (dec_in d)" "length (dec_in d) = n" "q < n"
    "dec_sent d = dec_sent d0 @ dec a"
    using assms by (auto simp: dec_absorbed_def q_def)
  define v where "v = (dec_in d)[q := b]"
  have v: "take (Suc q) v = take q (dec_in d) @ [b]" "length v = n" using a by (simp_all add: v_def take_Suc_nth)
  show ?thesis
  proof (cases "Suc q = n")
    case True
    have w: "v = take q (dec_in d) @ [b]" using True v by simp
    have "dec (a @ v) = dec a @ dec v" using a(1) by (rule dec_append)
    then show ?thesis unfolding dec_absorbed_def
      using a v True emit[of v "dec_put b d"] n_pos w
      by (intro exI[of _ "a @ v"]) (simp add: dec_full_def dec_put_def flip: v_def q_def)
  next
    case False
    then show ?thesis unfolding dec_absorbed_def using a v
      by (intro exI[of _ a]) (simp add: dec_full_def dec_put_def flip: v_def q_def)
  qed
qed

lemma skip: "dec_absorbed n dec d0 d cs \<Longrightarrow> dec_full emit d = d"
  by (auto simp: dec_absorbed_def dec_full_def)

lemma absorb:
  assumes "dec_absorbed n dec d0 d cs"
  shows "case first_bad is_valid bad input of
      Some e \<Rightarrow> decoder_write is_valid bad emit d input = Inl e
    | None \<Rightarrow> \<exists>d'. decoder_write is_valid bad emit d input = Inr d' \<and> dec_absorbed n dec d0 d' (cs @ filter is_valid input)"
  using assms
proof (induction input arbitrary: d cs)
  case (Cons b input)
  show ?case
  proof (cases "is_valid b")
    case True
    then show ?thesis using Cons.IH[OF put[OF Cons.prems, of b]] by (simp split: option.splits)
  next
    case False
    then show ?thesis using Cons.IH[OF Cons.prems] skip[OF Cons.prems] by (cases "bad b") (simp_all split: option.splits)
  qed
qed simp

lemma start: "length (dec_in d) = n \<Longrightarrow> dec_position d = 0 \<Longrightarrow> dec_absorbed n dec d d []"
  unfolding dec_absorbed_def using n_pos by (intro exI[of _ "[]"]) (simp add: dec_nil)

lemma message:
  assumes "dec_absorbed n dec d0 d cs"
  shows "case first_bad is_valid bad (concat xss) of
      Some e \<Rightarrow> write_pieces (decoder_write is_valid bad emit) xss d = Inl e
    | None \<Rightarrow> \<exists>d'. write_pieces (decoder_write is_valid bad emit) xss d = Inr d' \<and>
        dec_absorbed n dec d0 d' (cs @ filter is_valid (concat xss))"
  using assms
proof (induction xss arbitrary: d cs)
  case (Cons xs xss)
  note a = absorb[OF Cons.prems, of xs]
  show ?case
  proof (cases "first_bad is_valid bad xs")
    case None
    then obtain d' where d': "decoder_write is_valid bad emit d xs = Inr d'" "dec_absorbed n dec d0 d' (cs @ filter is_valid xs)"
      using a by auto
    show ?thesis using Cons.IH[OF d'(2)] d'(1) None by (simp add: first_bad_append split: option.splits)
  qed (use a in \<open>simp add: first_bad_append\<close>)
qed simp

end

end
