(* ===== verification/Codec_Hex.thy ===== *)
theory Codec_Hex
  imports Codec_Base
begin

text \<open>
  The hexadecimal codec (\<open>src/codec/hex/hex.cpp\<close>, tables in \<open>hex_char.cpp\<close>): two digits for a byte, in lines. The
  decoder reads digits in both cases; what other characters do is up to its checking, and a last single digit is dropped.
\<close>

definition BIN_TO_HEX_UPPER :: "byte list" where
  "BIN_TO_HEX_UPPER = [
     0x30, 0x31, 0x32, 0x33, 0x34, 0x35, 0x36, 0x37, 0x38, 0x39, 0x41, 0x42, 0x43, 0x44,
     0x45, 0x46]"

definition BIN_TO_HEX_LOWER :: "byte list" where
  "BIN_TO_HEX_LOWER = [
     0x30, 0x31, 0x32, 0x33, 0x34, 0x35, 0x36, 0x37, 0x38, 0x39, 0x61, 0x62, 0x63, 0x64,
     0x65, 0x66]"

definition HEX_TO_BIN :: "byte list" where
  "HEX_TO_BIN = [
     0x80, 0x80, 0x80, 0x80, 0x80, 0x80, 0x80, 0x80, 0x80, 0x80, 0x80, 0x80, 0x80, 0x80,
     0x80, 0x80, 0x80, 0x80, 0x80, 0x80, 0x80, 0x80, 0x80, 0x80, 0x80, 0x80, 0x80, 0x80,
     0x80, 0x80, 0x80, 0x80, 0x80, 0x80, 0x80, 0x80, 0x80, 0x80, 0x80, 0x80, 0x80, 0x80,
     0x80, 0x80, 0x80, 0x80, 0x80, 0x80, 0x00, 0x01, 0x02, 0x03, 0x04, 0x05, 0x06, 0x07,
     0x08, 0x09, 0x80, 0x80, 0x80, 0x80, 0x80, 0x80, 0x80, 0x0A, 0x0B, 0x0C, 0x0D, 0x0E,
     0x0F, 0x80, 0x80, 0x80, 0x80, 0x80, 0x80, 0x80, 0x80, 0x80, 0x80, 0x80, 0x80, 0x80,
     0x80, 0x80, 0x80, 0x80, 0x80, 0x80, 0x80, 0x80, 0x80, 0x80, 0x80, 0x80, 0x80, 0x0A,
     0x0B, 0x0C, 0x0D, 0x0E, 0x0F, 0x80, 0x80, 0x80, 0x80, 0x80, 0x80, 0x80, 0x80, 0x80,
     0x80, 0x80, 0x80, 0x80, 0x80, 0x80, 0x80, 0x80, 0x80, 0x80, 0x80, 0x80, 0x80, 0x80,
     0x80, 0x80, 0x80, 0x80, 0x80, 0x80, 0x80, 0x80, 0x80, 0x80, 0x80, 0x80, 0x80, 0x80,
     0x80, 0x80, 0x80, 0x80, 0x80, 0x80, 0x80, 0x80, 0x80, 0x80, 0x80, 0x80, 0x80, 0x80,
     0x80, 0x80, 0x80, 0x80, 0x80, 0x80, 0x80, 0x80, 0x80, 0x80, 0x80, 0x80, 0x80, 0x80,
     0x80, 0x80, 0x80, 0x80, 0x80, 0x80, 0x80, 0x80, 0x80, 0x80, 0x80, 0x80, 0x80, 0x80,
     0x80, 0x80, 0x80, 0x80, 0x80, 0x80, 0x80, 0x80, 0x80, 0x80, 0x80, 0x80, 0x80, 0x80,
     0x80, 0x80, 0x80, 0x80, 0x80, 0x80, 0x80, 0x80, 0x80, 0x80, 0x80, 0x80, 0x80, 0x80,
     0x80, 0x80, 0x80, 0x80, 0x80, 0x80, 0x80, 0x80, 0x80, 0x80, 0x80, 0x80, 0x80, 0x80,
     0x80, 0x80, 0x80, 0x80, 0x80, 0x80, 0x80, 0x80, 0x80, 0x80, 0x80, 0x80, 0x80, 0x80,
     0x80, 0x80, 0x80, 0x80, 0x80, 0x80, 0x80, 0x80, 0x80, 0x80, 0x80, 0x80, 0x80, 0x80,
     0x80, 0x80, 0x80, 0x80]"

datatype Case = Uppercase | Lowercase

section \<open>The encoder\<close>

definition new_Hex_Encoder :: Encoder where
  "new_Hex_Encoder = new_Encoder 64"

definition Hex_encode :: "Case \<Rightarrow> byte \<Rightarrow> byte list" where
  "Hex_encode casing b =
     (let BIN_TO_HEX = (if casing = Uppercase then BIN_TO_HEX_UPPER else BIN_TO_HEX_LOWER)
      in [BIN_TO_HEX ! unat (drop_bit 4 b AND 0x0F), BIN_TO_HEX ! unat (b AND 0x0F)])"

definition Hex_encode_and_send :: "Case \<Rightarrow> nat \<Rightarrow> byte list \<Rightarrow> nat \<Rightarrow> Encoder \<Rightarrow> Encoder option" where
  "Hex_encode_and_send casing L block len e =
     (let out = concat (map (\<lambda>j. Hex_encode casing (block ! j)) [0..<len]) in do_output L out (2 * len) e)"

definition Hex_Encoder_write :: "Case \<Rightarrow> nat \<Rightarrow> Encoder \<Rightarrow> byte list \<Rightarrow> Encoder option" where
  "Hex_Encoder_write casing L = encoder_write (Hex_encode_and_send casing L)"

definition Hex_Encoder_end_msg :: "Case \<Rightarrow> nat \<Rightarrow> Encoder \<Rightarrow> Encoder option" where
  "Hex_Encoder_end_msg casing L e =
     (case Hex_encode_and_send casing L (enc_in e) (enc_position e) e of
        None \<Rightarrow> None
      | Some e \<Rightarrow>
          let e = (if enc_counter e \<noteq> 0 \<and> L \<noteq> 0 then enc_send [newline] e else e)
          in Some (e\<lparr>enc_counter := 0, enc_position := 0\<rparr>))"

section \<open>The decoder\<close>

definition new_Hex_Decoder :: Decoder where
  "new_Hex_Decoder = new_Decoder 64"

definition Hex_is_valid :: "byte \<Rightarrow> bool" where
  "Hex_is_valid b = (HEX_TO_BIN ! unat b \<noteq> 0x80)"

text \<open>\<open>None\<close> is a return, otherwise the exception.\<close>

definition Hex_handle_bad_char :: "Decoder_Checking \<Rightarrow> byte \<Rightarrow> botan_error option" where
  "Hex_handle_bad_char checking c =
     (if checking = NONE then None
      else if checking = IGNORE_WS \<and> is_space (char_of_byte c) then None
      else Some (Decoding_Error (''Hex_Decoder: Invalid hex character: '' @ to_string (unat c) 0)))"

definition Hex_decode :: "byte \<Rightarrow> byte \<Rightarrow> byte" where
  "Hex_decode a b = push_bit 4 (HEX_TO_BIN ! unat a) OR HEX_TO_BIN ! unat b"

definition Hex_decode_and_send :: "byte list \<Rightarrow> nat \<Rightarrow> Decoder \<Rightarrow> Decoder" where
  "Hex_decode_and_send block len d =
     (let out = map (\<lambda>j. Hex_decode (block ! (2 * j)) (block ! (2 * j + 1))) [0..<len div 2] in dec_send out (len div 2) d)"

definition Hex_Decoder_write :: "Decoder_Checking \<Rightarrow> Decoder \<Rightarrow> byte list \<Rightarrow> botan_error + Decoder" where
  "Hex_Decoder_write checking = decoder_write Hex_is_valid (Hex_handle_bad_char checking) Hex_decode_and_send"

definition Hex_Decoder_end_msg :: "Decoder \<Rightarrow> Decoder" where
  "Hex_Decoder_end_msg d = (Hex_decode_and_send (dec_in d) (dec_position d) d)\<lparr>dec_position := 0\<rparr>"

section \<open>The text of a message\<close>

definition hex_text :: "Case \<Rightarrow> byte list \<Rightarrow> byte list" where
  "hex_text casing m = concat (map (Hex_encode casing) m)"

fun hex_bytes :: "byte list \<Rightarrow> byte list" where
  "hex_bytes (a # b # cs) = Hex_decode a b # hex_bytes cs"
| "hex_bytes _ = []"

lemma length_hex_text: "length (hex_text c m) = 2 * length m"
  by (induction m) (simp_all add: hex_text_def Hex_encode_def Let_def)

lemma hex_text_append: "hex_text c (xs @ ys) = hex_text c xs @ hex_text c ys"
  by (simp add: hex_text_def)

lemma hex_bytes_append: "even (length xs) \<Longrightarrow> hex_bytes (xs @ ys) = hex_bytes xs @ hex_bytes ys"
  by (induction xs rule: hex_bytes.induct) auto

lemma hex_bytes_map:
  "map (\<lambda>j. Hex_decode (cs ! (2 * j)) (cs ! (2 * j + 1))) [0..<length cs div 2] = hex_bytes cs"
proof (induction cs rule: hex_bytes.induct)
  case (1 a b cs)
  have "[0..<length (a # b # cs) div 2] = 0 # map Suc [0..<length cs div 2]"
    by (simp add: upt_conv_Cons map_Suc_upt del: upt_Suc)
  then show ?case using 1 by (simp add: comp_def del: upt_Suc)
qed simp_all

lemma hex_encode_send:
  assumes "line_ok L e" and "n \<le> length block"
  shows "Hex_encode_and_send c L block n e = Some (put_text L (hex_text c (take n block)) e)"
proof -
  have t: "concat (map (\<lambda>j. Hex_encode c (block ! j)) [0..<n]) = hex_text c (take n block)"
    unfolding hex_text_def using assms(2) by (intro arg_cong[where f = concat] nth_equalityI) simp_all
  have "length (hex_text c (take n block)) = 2 * n" using assms(2) by (simp add: length_hex_text)
  then show ?thesis using do_output_correct[OF assms(1), of "2 * n" "hex_text c (take n block)"]
    by (simp add: Hex_encode_and_send_def Let_def t)
qed

lemma hex_decode_send:
  "n \<le> length block \<Longrightarrow> Hex_decode_and_send block n d = d\<lparr>dec_sent := dec_sent d @ hex_bytes (take n block)\<rparr>"
proof -
  assume n: "n \<le> length block"
  have "map (\<lambda>j. Hex_decode (block ! (2 * j)) (block ! (2 * j + 1))) [0..<n div 2] =
      map (\<lambda>j. Hex_decode (take n block ! (2 * j)) (take n block ! (2 * j + 1))) [0..<length (take n block) div 2]"
    using n by simp
  then show ?thesis unfolding Hex_decode_and_send_def Let_def dec_send_def hex_bytes_map using n
    by (simp add: hex_bytes_map[symmetric])
qed

interpretation hex_enc: block_encoder 64 L "Hex_encode_and_send c L" "hex_text c" for c L
  by unfold_locales (simp_all add: hex_encode_send hex_text_append, simp add: hex_text_def)

interpretation hex_dec: block_decoder 64 Hex_is_valid "Hex_handle_bad_char k" Hex_decode_and_send hex_bytes for k
  by unfold_locales (auto simp: hex_decode_send intro!: hex_bytes_append intro: dvd_trans[of 2 64])

text \<open>Decoding a digit of either case: a check of the digits.\<close>

lemma hex_digit:
  assumes "unat (w :: byte) < 16"
  shows "HEX_TO_BIN ! unat (BIN_TO_HEX_UPPER ! unat w) = w \<and> BIN_TO_HEX_UPPER ! unat w \<noteq> newline"
    "HEX_TO_BIN ! unat (BIN_TO_HEX_LOWER ! unat w) = w \<and> BIN_TO_HEX_LOWER ! unat w \<noteq> newline"
proof -
  show "HEX_TO_BIN ! unat (BIN_TO_HEX_UPPER ! unat w) = w \<and> BIN_TO_HEX_UPPER ! unat w \<noteq> newline"
    by (rule small_bytes[OF _ assms]) code_simp
  show "HEX_TO_BIN ! unat (BIN_TO_HEX_LOWER ! unat w) = w \<and> BIN_TO_HEX_LOWER ! unat w \<noteq> newline"
    by (rule small_bytes[OF _ assms]) code_simp
qed

lemma nibbles:
  fixes b :: byte
  shows "unat (drop_bit 4 b AND 0x0F) < 16" "unat (b AND 0x0F) < 16" "push_bit 4 (drop_bit 4 b AND 0x0F) OR (b AND 0x0F) = b"
proof -
  have m: "x AND 0x0F = take_bit 4 x" for x :: byte by (simp add: take_bit_eq_mask mask_eq_exp_minus_1)
  show "unat (drop_bit 4 b AND 0x0F) < 16" "unat (b AND 0x0F) < 16"
    unfolding m unsigned_take_bit_eq by (simp_all add: take_bit_eq_mod)
  show "push_bit 4 (drop_bit 4 b AND 0x0F) OR (b AND 0x0F) = b"
    unfolding m by (rule bit_word_eqI) (auto simp: bit_simps dest: bit_imp_le_length)
qed

lemma hex_digits:
  "Hex_decode (hd (Hex_encode c b)) (Hex_encode c b ! 1) = b \<and> list_all Hex_is_valid (Hex_encode c b) \<and> newline \<notin> set (Hex_encode c b)"
proof -
  have n: "w \<noteq> 0x80" if "unat w < 16" for w :: byte using that by auto
  note d = hex_digit[OF nibbles(1)[of b]] hex_digit[OF nibbles(2)[of b]] n[OF nibbles(1)[of b]] n[OF nibbles(2)[of b]] nibbles(3)[of b]
  show ?thesis
  proof (cases c)
    case Uppercase
    then show ?thesis using d by (simp only: Hex_encode_def Hex_decode_def Hex_is_valid_def Let_def if_True list.sel nth_Cons_0
      One_nat_def nth_Cons_Suc list_all_iff ball_simps list.set insert_iff empty_iff) simp
  next
    case Lowercase
    have "Lowercase \<noteq> Uppercase" by simp
    then show ?thesis using d Lowercase by (simp only: Hex_encode_def Hex_decode_def Hex_is_valid_def Let_def if_False list.sel nth_Cons_0
      One_nat_def nth_Cons_Suc list_all_iff ball_simps list.set insert_iff empty_iff) simp
  qed
qed

lemma hex_bytes_text: "hex_bytes (hex_text c m) = m"
proof (induction m)
  case (Cons b m)
  obtain x y where xy: "Hex_encode c b = [x, y]" by (simp add: Hex_encode_def Let_def)
  then show ?case using Cons hex_digits[of c b] by (simp add: hex_text_def)
qed (simp add: hex_text_def)

lemma hex_text_valid: "\<forall>x \<in> set (hex_text c m). Hex_is_valid x"
  using hex_digits[of c] by (auto simp: hex_text_def list_all_iff)

lemma newline_not_hex: "\<not> Hex_is_valid newline" "is_space (char_of_byte newline)"
  by code_simp+

section \<open>Whole messages\<close>

lemma hex_encoder_message:
  assumes "length (enc_in e) = 64" and "enc_position e = 0" and "enc_counter e = 0" and "enc_sent e = []"
  shows "\<exists>e1 e'. write_all (Hex_Encoder_write c L) xss e = Some e1 \<and> Hex_Encoder_end_msg c L e1 = Some e' \<and>
    enc_sent e' = text_lines L (hex_text c (concat xss)) \<and>
    length (enc_in e') = 64 \<and> enc_position e' = 0 \<and> enc_counter e' = 0"
proof -
  have ok: "line_ok L e" using assms(3) by (simp add: line_ok_def)
  obtain e1 where e1: "write_all (Hex_Encoder_write c L) xss e = Some e1" "enc_absorbed 64 L (hex_text c) e e1 (concat xss)"
    using hex_enc.message[OF assms(1,2) ok] unfolding Hex_Encoder_write_def by blast
  define q where "q = enc_position e1"
  obtain a where a: "concat xss = a @ take q (enc_in e1)" "length (enc_in e1) = 64" "q < 64" "line_ok L e1"
    "(enc_counter e1, enc_sent e1) = fold (line_step L) (hex_text c a) (0, [])"
    using e1(2) assms(3,4) by (auto simp: enc_absorbed_def q_def)
  define e2 where "e2 = put_text L (hex_text c (take q (enc_in e1))) e1"
  have s: "Hex_encode_and_send c L (enc_in e1) q e1 = Some e2"
    using hex_encode_send[OF a(4), of q "enc_in e1" c] a(2,3) by (simp add: e2_def)
  have f: "(enc_counter e2, enc_sent e2) = fold (line_step L) (hex_text c (concat xss)) (0, [])"
    using a(5)[symmetric] a(1) by (simp add: e2_def put_text_def Let_def hex_text_append)
  define e' where "e' = (if enc_counter e2 \<noteq> 0 \<and> L \<noteq> 0 then enc_send [newline] e2 else e2)\<lparr>enc_counter := 0, enc_position := 0\<rparr>"
  have "Hex_Encoder_end_msg c L e1 = Some e'"
    using s by (simp add: Hex_Encoder_end_msg_def q_def e'_def)
  moreover have "enc_sent e' = text_lines L (hex_text c (concat xss))"
    using lines_end(1)[OF f] by (auto simp: e'_def enc_send_def split: if_splits)
  moreover have "length (enc_in e') = 64" "enc_position e' = 0" "enc_counter e' = 0"
    using a(2) by (auto simp: e'_def e2_def enc_send_def)
  ultimately show ?thesis using e1(1) by blast
qed

lemma hex_decoder_message:
  assumes "length (dec_in d) = 64" and "dec_position d = 0"
  shows "case first_bad Hex_is_valid (Hex_handle_bad_char k) (concat yss) of
      Some e \<Rightarrow> write_pieces (Hex_Decoder_write k) yss d = Inl e
    | None \<Rightarrow> \<exists>d'. write_pieces (Hex_Decoder_write k) yss d = Inr d' \<and>
        dec_sent (Hex_Decoder_end_msg d') = dec_sent d @ hex_bytes (filter Hex_is_valid (concat yss))"
proof -
  have e: "dec_sent (Hex_Decoder_end_msg d') = dec_sent d @ hex_bytes cs" if abs: "dec_absorbed 64 hex_bytes d d' cs" for d' cs
  proof -
    obtain a where a: "64 dvd length a" "cs = a @ take (dec_position d') (dec_in d')" "length (dec_in d') = 64"
      "dec_position d' < 64" "dec_sent d' = dec_sent d @ hex_bytes a"
      using abs unfolding dec_absorbed_def by blast
    have "even (length a)" using a(1) by (auto elim!: dvdE)
    then show ?thesis using a by (simp add: Hex_Decoder_end_msg_def hex_decode_send hex_bytes_append)
  qed
  show ?thesis
    using hex_dec.message[OF hex_dec.start[OF assms], where xss = yss and k = k] e
    by (auto simp: Hex_Decoder_write_def split: option.splits)
qed

end
