(* ===== verification/Codec_Base64.thy ===== *)
theory Codec_Base64
  imports Codec_Base
begin

text \<open>
  The Base64 codec (\<open>src/codec/base64/base64.cpp\<close>, tables in \<open>b64_char.cpp\<close>): four characters for three bytes, padded
  with \<open>=\<close>. \<open>base64_text\<close> is RFC 4648 on numbers, the specification of the encoder. The decoder skips padding
  wherever it stands and finds the end by the number of characters that are left.
\<close>

definition BIN_TO_BASE64 :: "byte list" where
  "BIN_TO_BASE64 = [
     0x41, 0x42, 0x43, 0x44, 0x45, 0x46, 0x47, 0x48, 0x49, 0x4A, 0x4B, 0x4C, 0x4D, 0x4E,
     0x4F, 0x50, 0x51, 0x52, 0x53, 0x54, 0x55, 0x56, 0x57, 0x58, 0x59, 0x5A, 0x61, 0x62,
     0x63, 0x64, 0x65, 0x66, 0x67, 0x68, 0x69, 0x6A, 0x6B, 0x6C, 0x6D, 0x6E, 0x6F, 0x70,
     0x71, 0x72, 0x73, 0x74, 0x75, 0x76, 0x77, 0x78, 0x79, 0x7A, 0x30, 0x31, 0x32, 0x33,
     0x34, 0x35, 0x36, 0x37, 0x38, 0x39, 0x2B, 0x2F]"

definition BASE64_TO_BIN :: "byte list" where
  "BASE64_TO_BIN = [
     0x80, 0x80, 0x80, 0x80, 0x80, 0x80, 0x80, 0x80, 0x80, 0x80, 0x80, 0x80, 0x80, 0x80,
     0x80, 0x80, 0x80, 0x80, 0x80, 0x80, 0x80, 0x80, 0x80, 0x80, 0x80, 0x80, 0x80, 0x80,
     0x80, 0x80, 0x80, 0x80, 0x80, 0x80, 0x80, 0x80, 0x80, 0x80, 0x80, 0x80, 0x80, 0x80,
     0x80, 0x3E, 0x80, 0x80, 0x80, 0x3F, 0x34, 0x35, 0x36, 0x37, 0x38, 0x39, 0x3A, 0x3B,
     0x3C, 0x3D, 0x80, 0x80, 0x80, 0x80, 0x80, 0x80, 0x80, 0x00, 0x01, 0x02, 0x03, 0x04,
     0x05, 0x06, 0x07, 0x08, 0x09, 0x0A, 0x0B, 0x0C, 0x0D, 0x0E, 0x0F, 0x10, 0x11, 0x12,
     0x13, 0x14, 0x15, 0x16, 0x17, 0x18, 0x19, 0x80, 0x80, 0x80, 0x80, 0x80, 0x80, 0x1A,
     0x1B, 0x1C, 0x1D, 0x1E, 0x1F, 0x20, 0x21, 0x22, 0x23, 0x24, 0x25, 0x26, 0x27, 0x28,
     0x29, 0x2A, 0x2B, 0x2C, 0x2D, 0x2E, 0x2F, 0x30, 0x31, 0x32, 0x33, 0x80, 0x80, 0x80,
     0x80, 0x80, 0x80, 0x80, 0x80, 0x80, 0x80, 0x80, 0x80, 0x80, 0x80, 0x80, 0x80, 0x80,
     0x80, 0x80, 0x80, 0x80, 0x80, 0x80, 0x80, 0x80, 0x80, 0x80, 0x80, 0x80, 0x80, 0x80,
     0x80, 0x80, 0x80, 0x80, 0x80, 0x80, 0x80, 0x80, 0x80, 0x80, 0x80, 0x80, 0x80, 0x80,
     0x80, 0x80, 0x80, 0x80, 0x80, 0x80, 0x80, 0x80, 0x80, 0x80, 0x80, 0x80, 0x80, 0x80,
     0x80, 0x80, 0x80, 0x80, 0x80, 0x80, 0x80, 0x80, 0x80, 0x80, 0x80, 0x80, 0x80, 0x80,
     0x80, 0x80, 0x80, 0x80, 0x80, 0x80, 0x80, 0x80, 0x80, 0x80, 0x80, 0x80, 0x80, 0x80,
     0x80, 0x80, 0x80, 0x80, 0x80, 0x80, 0x80, 0x80, 0x80, 0x80, 0x80, 0x80, 0x80, 0x80,
     0x80, 0x80, 0x80, 0x80, 0x80, 0x80, 0x80, 0x80, 0x80, 0x80, 0x80, 0x80, 0x80, 0x80,
     0x80, 0x80, 0x80, 0x80, 0x80, 0x80, 0x80, 0x80, 0x80, 0x80, 0x80, 0x80, 0x80, 0x80,
     0x80, 0x80, 0x80, 0x80]"

section \<open>The encoder\<close>

definition new_Base64_Encoder :: Encoder where
  "new_Base64_Encoder = new_Encoder 48"

definition Base64_encode :: "byte list \<Rightarrow> byte list" where
  "Base64_encode inp =
     [BIN_TO_BASE64 ! unat (drop_bit 2 (inp ! 0 AND 0xFC)),
      BIN_TO_BASE64 ! unat (push_bit 4 (inp ! 0 AND 0x03) OR drop_bit 4 (inp ! 1)),
      BIN_TO_BASE64 ! unat (push_bit 2 (inp ! 1 AND 0x0F) OR drop_bit 6 (inp ! 2)),
      BIN_TO_BASE64 ! unat (inp ! 2 AND 0x3F)]"

text \<open>\<open>for(j = 0; j != length; j += 3)\<close>, the lengths it is called with are multiples of three.\<close>

definition Base64_encode_and_send :: "nat \<Rightarrow> byte list \<Rightarrow> nat \<Rightarrow> Encoder \<Rightarrow> Encoder option" where
  "Base64_encode_and_send L block len e =
     for_up 0 (len div 3) (\<lambda>k r. case r of None \<Rightarrow> None
       | Some e \<Rightarrow> let out = Base64_encode (drop (3 * k) block) in do_output L out 4 e) (Some e)"

definition Base64_Encoder_write :: "nat \<Rightarrow> Encoder \<Rightarrow> byte list \<Rightarrow> Encoder option" where
  "Base64_Encoder_write L = encoder_write (Base64_encode_and_send L)"

text \<open>\<open>while(empty_bits >= 8)\<close> of \<open>end_msg\<close>.\<close>

fun pad_loop :: "nat \<Rightarrow> nat \<Rightarrow> byte list \<Rightarrow> byte list" where
  "pad_loop empty_bits index out =
     (if empty_bits \<ge> 8 then pad_loop (empty_bits - 6) (index - 1) (out[index := 0x3D]) else out)"

definition Base64_Encoder_end_msg :: "bool \<Rightarrow> nat \<Rightarrow> Encoder \<Rightarrow> Encoder option" where
  "Base64_Encoder_end_msg trailing_newline L e =
     (let start_of_last_block = 3 * (enc_position e div 3);
          left_over = enc_position e mod 3
      in case Base64_encode_and_send L (enc_in e) start_of_last_block e of
           None \<Rightarrow> None
         | Some e \<Rightarrow>
             (case (if left_over \<noteq> 0 then
                      let remainder = reg_copy (reg_create 3) 0 (drop start_of_last_block (enc_in e)) left_over;
                          out = Base64_encode remainder;
                          out = pad_loop (8 * (3 - left_over)) 3 out
                      in do_output L out 4 e
                    else Some e) of
                None \<Rightarrow> None
              | Some e \<Rightarrow>
                  let e = (if trailing_newline \<or> (enc_counter e \<noteq> 0 \<and> L \<noteq> 0) then enc_send [newline] e else e)
                  in Some (e\<lparr>enc_counter := 0, enc_position := 0\<rparr>)))"

section \<open>The decoder\<close>

definition new_Base64_Decoder :: Decoder where
  "new_Base64_Decoder = new_Decoder 48"

definition Base64_is_valid :: "byte \<Rightarrow> bool" where
  "Base64_is_valid b = (BASE64_TO_BIN ! unat b \<noteq> 0x80)"

definition Base64_handle_bad_char :: "Decoder_Checking \<Rightarrow> byte \<Rightarrow> botan_error option" where
  "Base64_handle_bad_char checking c =
     (if c = 0x3D \<or> checking = NONE then None
      else if checking = IGNORE_WS \<and> is_space (char_of_byte c) then None
      else Some (Decoding_Error (''Base64_Decoder: Invalid base64 character '' @ [CHR 0x27] @ [char_of_byte c] @ [CHR 0x27])))"

definition Base64_decode :: "byte list \<Rightarrow> byte list" where
  "Base64_decode inp =
     [push_bit 2 (BASE64_TO_BIN ! unat (inp ! 0)) OR drop_bit 4 (BASE64_TO_BIN ! unat (inp ! 1)),
      push_bit 4 (BASE64_TO_BIN ! unat (inp ! 1)) OR drop_bit 2 (BASE64_TO_BIN ! unat (inp ! 2)),
      push_bit 6 (BASE64_TO_BIN ! unat (inp ! 2)) OR BASE64_TO_BIN ! unat (inp ! 3)]"

definition Base64_decode_and_send :: "byte list \<Rightarrow> nat \<Rightarrow> Decoder \<Rightarrow> Decoder" where
  "Base64_decode_and_send block len d =
     for_up 0 (len div 4) (\<lambda>k d. let out = Base64_decode (drop (4 * k) block) in dec_send out 3 d) d"

definition Base64_Decoder_write :: "Decoder_Checking \<Rightarrow> Decoder \<Rightarrow> byte list \<Rightarrow> botan_error + Decoder" where
  "Base64_Decoder_write checking = decoder_write Base64_is_valid (Base64_handle_bad_char checking) Base64_decode_and_send"

definition Base64_Decoder_end_msg :: "Decoder \<Rightarrow> Decoder" where
  "Base64_Decoder_end_msg d =
     (let d = (if dec_position d \<noteq> 0 then
                 let start_of_last_block = 4 * (dec_position d div 4);
                     left_over = dec_position d mod 4;
                     d = Base64_decode_and_send (dec_in d) start_of_last_block d
                 in if left_over \<noteq> 0 then
                      let remainder = reg_copy (reg_create 4) 0 (drop start_of_last_block (dec_in d)) left_over;
                          out = Base64_decode remainder
                      in dec_send out (if left_over = 1 then 1 else left_over - 1) d
                    else d
               else d)
      in d\<lparr>dec_position := 0\<rparr>)"

section \<open>RFC 4648\<close>

text \<open>The alphabet and the coding of up to three bytes as a 24-bit number in base 64.\<close>

definition base64_char :: "nat \<Rightarrow> byte" where
  "base64_char v =
     (if v < 26 then of_nat (65 + v) else if v < 52 then of_nat (97 + (v - 26)) else if v < 62 then of_nat (48 + (v - 52))
      else if v = 62 then 43 else 47)"

definition base64_digits :: "nat \<Rightarrow> byte list" where
  "base64_digits v = map base64_char [v div 64 ^ 3, v div 64 ^ 2 mod 64, v div 64 mod 64, v mod 64]"

fun base64_text :: "byte list \<Rightarrow> byte list" where
  "base64_text [] = []"
| "base64_text [a] = take 2 (base64_digits (unat a * 65536)) @ [0x3D, 0x3D]"
| "base64_text [a, b] = take 3 (base64_digits (unat a * 65536 + unat b * 256)) @ [0x3D]"
| "base64_text (a # b # c # xs) = base64_digits (unat a * 65536 + unat b * 256 + unat c) @ base64_text xs"

fun base64_bytes :: "byte list \<Rightarrow> byte list" where
  "base64_bytes (a # b # c # d # cs) = Base64_decode [a, b, c, d] @ base64_bytes cs"
| "base64_bytes [a, b, c] = take 2 (Base64_decode [a, b, c, 0])"
| "base64_bytes [a, b] = take 1 (Base64_decode [a, b, 0, 0])"
| "base64_bytes [a] = take 1 (Base64_decode [a, 0, 0, 0])"
| "base64_bytes [] = []"

lemma base64_table: "v < 64 \<Longrightarrow> BIN_TO_BASE64 ! v = base64_char v"
proof -
  assume "v < 64"
  moreover have "list_all (\<lambda>v. BIN_TO_BASE64 ! v = base64_char v) [0..<64]" by code_simp
  ultimately show ?thesis by (simp add: list_all_iff)
qed

lemma div_mod_parts: "n = k * (m * q + r) + s \<Longrightarrow> r < m \<Longrightarrow> s < k \<Longrightarrow> n div k mod m = (r :: nat)"
  by simp

lemma sextets_arith:
  fixes a b c :: nat
  assumes "b < 256" and "c < 256"
  shows "a mod 4 * 16 + b div 16 = (a * 65536 + b * 256 + c) div 4096 mod 64"
    "b mod 16 * 4 + c div 64 = (a * 65536 + b * 256 + c) div 64 mod 64"
proof -
  obtain a1 a0 where a: "a = 4 * a1 + a0" "a0 < 4" by (metis mod_less_divisor mult_div_mod_eq zero_less_numeral)
  obtain b1 b0 where b: "b = 16 * b1 + b0" "b0 < 16" by (metis mod_less_divisor mult_div_mod_eq zero_less_numeral)
  obtain c1 c0 where c: "c = 64 * c1 + c0" "c0 < 64" by (metis mod_less_divisor mult_div_mod_eq zero_less_numeral)
  have b1: "b1 < 16" and c1: "c1 < 4" using assms b c by simp_all
  have l: "b0 * 256 + c < 4096" "a0 * 16 + b1 < 64" "b0 * 4 + c1 < 64" using b c assms b1 c1 a by simp_all
  have "a * 65536 + b * 256 + c = 4096 * (64 * a1 + (a0 * 16 + b1)) + (b0 * 256 + c)" by (simp add: a b)
  from div_mod_parts[OF this l(2,1)] show "a mod 4 * 16 + b div 16 = (a * 65536 + b * 256 + c) div 4096 mod 64" using a b by simp
  have "a * 65536 + b * 256 + c = 64 * (64 * (a * 16 + b1) + (b0 * 4 + c1)) + c0" by (simp add: b c)
  from div_mod_parts[OF this l(3) c(2)] show "b mod 16 * 4 + c div 64 = (a * 65536 + b * 256 + c) div 64 mod 64" using b c by simp
qed

lemma base64_sextets:
  fixes a b c :: byte
  defines "v \<equiv> unat a * 65536 + unat b * 256 + unat c"
  shows "unat (drop_bit 2 (a AND 0xFC)) = v div 64 ^ 3"
    "unat (push_bit 4 (a AND 0x03) OR drop_bit 4 b) = v div 64 ^ 2 mod 64"
    "unat (push_bit 2 (b AND 0x0F) OR drop_bit 6 c) = v div 64 mod 64"
    "unat (c AND 0x3F) = v mod 64"
proof -
  have m: "x AND 0x03 = take_bit 2 x" "x AND 0x0F = take_bit 4 x" "x AND 0x3F = take_bit 6 x" for x :: byte
    by (simp_all add: take_bit_eq_mask mask_eq_exp_minus_1)
  have l: "unat a < 256" "unat b < 256" "unat c < 256" using unat_less_base[of a] unat_less_base[of b] unat_less_base[of c] by simp_all
  have fc: "drop_bit 2 (a AND 0xFC) = drop_bit 2 a"
    by (rule byte_all[where P = "\<lambda>a. drop_bit 2 (a AND 0xFC) = drop_bit 2 a"]) code_simp
  have "unat (push_bit s (take_bit k x) OR t) = unat x mod 2 ^ k * 2 ^ s + unat t"
    if "unat t < 2 ^ s" "k + s \<le> 8" for s k and x t :: byte
  proof -
    have "unat (push_bit s (take_bit k x)) = 2 ^ s * (unat x mod 2 ^ k) mod 2 ^ 8"
      unfolding unsigned_push_bit_eq[of s "take_bit k x"] unsigned_take_bit_eq
      by (simp add: take_bit_eq_mod push_bit_eq_mult mult.commute)
    also have "\<dots> = 2 ^ s * (unat x mod 2 ^ k)"
    proof -
      have "2 ^ s * (unat x mod 2 ^ k) < 2 ^ s * 2 ^ k" by simp
      also have "\<dots> \<le> 2 ^ 8" using that(2) power_increasing[of "k + s" 8 "2 :: nat"] by (simp add: power_add mult.commute)
      finally show ?thesis by simp
    qed
    finally show ?thesis using push_bit_or[OF that(1), of "take_bit k x"] by (simp add: mult.commute)
  qed
  note pb = this
  show "unat (drop_bit 2 (a AND 0xFC)) = v div 64 ^ 3" using l unfolding fc v_def by (simp add: unat_drop_bit)
  have "unat (take_bit 6 c) = unat c mod 64" unfolding unsigned_take_bit_eq by (simp add: take_bit_eq_mod)
  moreover have "v = 64 * (unat a * 1024 + unat b * 4) + unat c" by (simp add: v_def)
  then have "v mod 64 = unat c mod 64" by (simp only: mod_mult_self4)
  ultimately show "unat (c AND 0x3F) = v mod 64" unfolding m by simp
  have "unat (drop_bit 4 b) < 2 ^ 4" "unat (drop_bit 6 c) < 2 ^ 2" using l by (simp_all add: unat_drop_bit)
  note p = pb[OF this(1), of 2 a] pb[OF this(2), of 4 b]
  have "unat (push_bit 4 (a AND 0x03) OR drop_bit 4 b) = unat a mod 4 * 16 + unat b div 16"
    using p(1) unfolding m by (simp add: unat_drop_bit)
  then show "unat (push_bit 4 (a AND 0x03) OR drop_bit 4 b) = v div 64 ^ 2 mod 64"
    using sextets_arith(1)[OF l(2,3), of "unat a"] by (simp only: v_def power2_eq_square) simp
  have "unat (push_bit 2 (b AND 0x0F) OR drop_bit 6 c) = unat b mod 16 * 4 + unat c div 64"
    using p(2) unfolding m by (simp add: unat_drop_bit)
  then show "unat (push_bit 2 (b AND 0x0F) OR drop_bit 6 c) = v div 64 mod 64"
    using sextets_arith(2)[OF l(2,3), of "unat a"] by (simp only: v_def)
qed

lemma nth_small: "(a # xs) ! 0 = a" "(a # b # xs) ! 1 = b" "(a # b # c # xs) ! 2 = c" "(a # b # c # d # xs) ! 3 = d"
  by simp_all

lemma dvd_small:
  "3 dvd Suc (Suc (Suc n)) \<longleftrightarrow> 3 dvd n" "\<not> 3 dvd Suc 0" "\<not> 3 dvd Suc (Suc 0)"
  "4 dvd Suc (Suc (Suc (Suc n))) \<longleftrightarrow> 4 dvd n" "\<not> 4 dvd Suc 0" "\<not> 4 dvd Suc (Suc 0)" "\<not> 4 dvd Suc (Suc (Suc 0))"
  by presburger+

lemma base64_encode:
  "Base64_encode (a # b # c # xs) = base64_digits (unat a * 65536 + unat b * 256 + unat c)"
proof -
  let ?v = "unat a * 65536 + unat b * 256 + unat c"
  have "?v div 64 ^ 3 < 64" using unat_less_base[of a] unat_less_base[of b] unat_less_base[of c] by simp
  then show ?thesis
    unfolding Base64_encode_def nth_small
    by (simp only: base64_sextets[where a = a and b = b and c = c] base64_digits_def base64_table list.map mod_less_divisor zero_less_numeral)
qed

lemma base64_text_append: "3 dvd length xs \<Longrightarrow> base64_text (xs @ ys) = base64_text xs @ base64_text ys"
  by (induction xs rule: base64_text.induct) (simp_all add: dvd_small)

lemma base64_bytes_append: "4 dvd length xs \<Longrightarrow> base64_bytes (xs @ ys) = base64_bytes xs @ base64_bytes ys"
  by (induction xs rule: base64_bytes.induct) (simp_all add: dvd_small)

lemma length3: "length xs = 3 \<Longrightarrow> \<exists>a b c. xs = [a, b, c]"
  by (auto simp: numeral_3_eq_3 length_Suc_conv)

lemma length4: "length xs = 4 \<Longrightarrow> \<exists>a b c d. xs = [a, b, c, d]"
  by (auto simp: numeral_eq_Suc length_Suc_conv)

lemma base64_block:
  assumes "length xs = 3"
  shows "Base64_encode (xs @ ys) = base64_text xs" "length (base64_text xs) = 4"
  using length3[OF assms] by (auto simp: base64_encode, simp_all add: base64_digits_def)

lemma base64_encode_send:
  assumes "line_ok L e" and "3 * k \<le> length block"
  shows "Base64_encode_and_send L block (3 * k) e = Some (put_text L (base64_text (take (3 * k) block)) e)"
proof -
  have "for_up 0 k (\<lambda>k r. case r of None \<Rightarrow> None | Some e \<Rightarrow> let out = Base64_encode (drop (3 * k) block) in do_output L out 4 e)
      (Some e) = Some (put_text L (base64_text (take (3 * k) block)) e)"
    using assms(2)
  proof (induction k)
    case (Suc k)
    define x where "x = take 3 (drop (3 * k) block)"
    have x: "length x = 3" using Suc.prems by (simp add: x_def)
    have t: "take (3 * Suc k) block = take (3 * k) block @ x" by (simp add: x_def add.commute flip: take_add)
    have d: "Base64_encode (drop (3 * k) block) = base64_text x"
      using base64_block(1)[OF x, of "drop 3 (drop (3 * k) block)"] by (simp only: x_def append_take_drop_id)
    have "do_output L (base64_text x) 4 (put_text L (base64_text (take (3 * k) block)) e) =
        Some (put_text L (base64_text x) (put_text L (base64_text (take (3 * k) block)) e))"
      using do_output_correct[OF put_text_ok[OF assms(1)], of 4 "base64_text x"] base64_block(2)[OF x] by simp
    moreover have "3 * k \<le> length block" using Suc.prems by simp
    ultimately show ?case using t d base64_text_append[of "take (3 * k) block" x]
      unfolding for_up_Suc[OF le0] Suc.IH[OF \<open>3 * k \<le> length block\<close>] by (simp add: put_text_append)
  qed simp
  then show ?thesis by (simp add: Base64_encode_and_send_def)
qed

lemma base64_decode_send:
  assumes "4 * k \<le> length block"
  shows "Base64_decode_and_send block (4 * k) d = d\<lparr>dec_sent := dec_sent d @ base64_bytes (take (4 * k) block)\<rparr>"
proof -
  have "for_up 0 k (\<lambda>k d. let out = Base64_decode (drop (4 * k) block) in dec_send out 3 d) d =
      d\<lparr>dec_sent := dec_sent d @ base64_bytes (take (4 * k) block)\<rparr>"
    using assms
  proof (induction k)
    case (Suc k)
    define x where "x = take 4 (drop (4 * k) block)"
    have "length x = 4" using Suc.prems by (simp add: x_def)
    then obtain a b c e where x: "x = [a, b, c, e]" using length4 by blast
    have t: "take (4 * Suc k) block = take (4 * k) block @ x" by (simp add: x_def add.commute flip: take_add)
    have "drop (4 * k) block = x @ drop 4 (drop (4 * k) block)" by (simp only: x_def append_take_drop_id)
    then have "Base64_decode (drop (4 * k) block) = Base64_decode x" unfolding x by (simp add: Base64_decode_def)
    then show ?case using Suc t base64_bytes_append[of "take (4 * k) block" x]
      by (simp add: for_up_Suc dec_send_def x Base64_decode_def)
  qed simp
  then show ?thesis by (simp add: Base64_decode_and_send_def)
qed

lemma dvd_48: "48 dvd n \<Longrightarrow> 3 dvd n" "48 dvd n \<Longrightarrow> 4 dvd n" for n :: nat
  by (auto elim!: dvdE)

interpretation base64_enc: block_encoder 48 L "Base64_encode_and_send L" base64_text for L
  using base64_encode_send[of L _ 16] by unfold_locales (auto simp: base64_text_append dvd_48)

interpretation base64_dec: block_decoder 48 Base64_is_valid "Base64_handle_bad_char k" Base64_decode_and_send base64_bytes for k
  using base64_decode_send[of 12] by unfold_locales (auto simp: base64_bytes_append dvd_48)

section \<open>Decoding inverts encoding\<close>

lemma base64_alphabet:
  "map (\<lambda>x. BASE64_TO_BIN ! unat x) BIN_TO_BASE64 = map word_of_nat [0..<64]"
  "list_all (\<lambda>x. x \<noteq> newline \<and> x \<noteq> 0x2D) BIN_TO_BASE64" "length BIN_TO_BASE64 = 64"
  by code_simp+

lemma base64_known: "w < 64 \<Longrightarrow> BASE64_TO_BIN ! unat (BIN_TO_BASE64 ! unat w) = w \<and> Base64_is_valid (BIN_TO_BASE64 ! unat w)
    \<and> BIN_TO_BASE64 ! unat w \<noteq> newline \<and> BIN_TO_BASE64 ! unat w \<noteq> 0x2D" for w :: byte
proof -
  assume "w < 64"
  then have w: "unat w < 64" by (simp add: word_less_nat_alt)
  have "BASE64_TO_BIN ! unat (BIN_TO_BASE64 ! unat w) = w"
    using arg_cong[OF base64_alphabet(1), of "\<lambda>xs. xs ! unat w"] w by (simp add: base64_alphabet(3))
  moreover have "w \<noteq> 0x80" using w by auto
  moreover have "BIN_TO_BASE64 ! unat w \<in> set BIN_TO_BASE64" using w by (simp add: base64_alphabet(3))
  ultimately show ?thesis using base64_alphabet(2) by (auto simp: Base64_is_valid_def list_all_iff)
qed

lemma base64_small:
  fixes a b c :: byte
  shows "drop_bit 2 (a AND 0xFC) < 64" "push_bit 4 (a AND 0x03) OR drop_bit 4 b < 64"
    "push_bit 2 (b AND 0x0F) OR drop_bit 6 c < 64" "c AND 0x3F < 64"
proof -
  have "(unat a * 65536 + unat b * 256 + unat c) div 64 ^ 3 < 64"
    using unat_less_base[of a] unat_less_base[of b] unat_less_base[of c] by simp
  then show "drop_bit 2 (a AND 0xFC) < 64" "push_bit 4 (a AND 0x03) OR drop_bit 4 b < 64"
    "push_bit 2 (b AND 0x0F) OR drop_bit 6 c < 64" "c AND 0x3F < 64"
    unfolding word_less_nat_alt base64_sextets(1)[of a b c] base64_sextets(2)[of a b c] base64_sextets(3)[where a = a and b = b and c = c]
      base64_sextets(4)[where a = a and b = b and c = c] by simp_all
qed

lemma sextets_bytes:
  fixes a b c :: byte
  shows "push_bit 2 (drop_bit 2 (a AND 0xFC)) OR drop_bit 4 (push_bit 4 (a AND 0x03) OR drop_bit 4 b) = a"
    "push_bit 4 (push_bit 4 (a AND 0x03) OR drop_bit 4 b) OR drop_bit 2 (push_bit 2 (b AND 0x0F) OR drop_bit 6 c) = b"
    "push_bit 6 (push_bit 2 (b AND 0x0F) OR drop_bit 6 c) OR (c AND 0x3F) = c"
proof -
  have m: "x AND 0x03 = take_bit 2 x" "x AND 0x0F = take_bit 4 x" "x AND 0x3F = take_bit 6 x" for x :: byte
    by (simp_all add: take_bit_eq_mask mask_eq_exp_minus_1)
  have fc: "push_bit 2 (drop_bit 2 (a AND 0xFC)) = push_bit 2 (drop_bit 2 a)"
    by (rule byte_all[where P = "\<lambda>a. push_bit 2 (drop_bit 2 (a AND 0xFC)) = push_bit 2 (drop_bit 2 a)"]) code_simp
  have s: "bit a (Suc (Suc (n - 2))) \<longleftrightarrow> (if 2 \<le> n then bit a n else bit a 2)" for n
    by (cases "2 \<le> n") (simp_all add: Suc_diff_le[symmetric] numeral_2_eq_2)
  show "push_bit 2 (drop_bit 2 (a AND 0xFC)) OR drop_bit 4 (push_bit 4 (a AND 0x03) OR drop_bit 4 b) = a"
    unfolding fc m by (rule bit_word_eqI) (auto simp: bit_simps s dest: bit_imp_le_length)
  have s: "bit b (4 + (n - 4)) \<longleftrightarrow> (if 4 \<le> n then bit b n else bit b 4)" for n by simp
  show "push_bit 4 (push_bit 4 (a AND 0x03) OR drop_bit 4 b) OR drop_bit 2 (push_bit 2 (b AND 0x0F) OR drop_bit 6 c) = b"
    unfolding m by (rule bit_word_eqI) (auto simp: bit_simps s dest: bit_imp_le_length split: if_splits)
  show "push_bit 6 (push_bit 2 (b AND 0x0F) OR drop_bit 6 c) OR (c AND 0x3F) = c"
    unfolding m by (rule bit_word_eqI) (auto simp: bit_simps dest: bit_imp_le_length)
qed

lemma base64_decode_encode: "Base64_decode (Base64_encode (a # b # c # xs)) = [a, b, c]"
  unfolding Base64_encode_def Base64_decode_def nth_small
  by (simp only: base64_known base64_small sextets_bytes)

lemma base64_triples:
  "Base64_decode (base64_digits (unat (a :: byte) * 65536 + unat (b :: byte) * 256 + unat (c :: byte))) = [a, b, c]"
  using base64_decode_encode[of a b c "[]"] by (simp add: base64_encode)

text \<open>The characters of the text: digits of the alphabet, and padding, which the decoder skips.\<close>

lemma base64_digits_known:
  "v < 2 ^ 24 \<Longrightarrow> list_all (\<lambda>x. Base64_is_valid x \<and> x \<noteq> newline \<and> x \<noteq> 0x2D) (base64_digits v)"
proof -
  assume v: "v < 2 ^ 24"
  have "Base64_is_valid (base64_char k) \<and> base64_char k \<noteq> newline \<and> base64_char k \<noteq> 0x2D" if "k < 64" for k
    using base64_known[of "word_of_nat k"] base64_table[OF that] that by (simp add: word_less_nat_alt unat_of_nat)
  then show ?thesis using v by (simp add: base64_digits_def)
qed

lemma base64_pad_char: "\<not> Base64_is_valid 0x3D" "\<not> Base64_is_valid newline" "\<not> Base64_is_valid 0x2D"
  "is_space (char_of_byte newline)"
  by code_simp+

lemma triple_bound: "unat (a :: byte) * 65536 + unat (b :: byte) * 256 + unat (c :: byte) < 2 ^ 24"
  using unat_less_base[of a] unat_less_base[of b] unat_less_base[of c] by simp

lemma base64_last:
  fixes a b :: byte
  obtains w x y z where "base64_digits (unat a * 65536 + unat b * 256) = [w, x, y, z]"
    "list_all (\<lambda>x. Base64_is_valid x \<and> x \<noteq> newline \<and> x \<noteq> 0x2D) [w, x, y, z]"
    "Base64_decode [w, x, y, z] = [a, b, 0]"
proof -
  obtain w x y z where d: "base64_digits (unat a * 65536 + unat b * 256) = [w, x, y, z]" by (simp add: base64_digits_def)
  then show ?thesis
    using that[of w x y z] base64_triples[of a b 0] triple_bound[of a b 0] base64_digits_known[of "unat a * 65536 + unat b * 256"]
    by simp
qed

lemma base64_text_known:
  "\<forall>x \<in> set (base64_text m). (Base64_is_valid x \<or> x = 0x3D) \<and> x \<noteq> newline \<and> x \<noteq> 0x2D"
proof (induction m rule: base64_text.induct)
  case (2 a)
  obtain w x y z where "base64_digits (unat a * 65536 + unat (0 :: byte) * 256) = [w, x, y, z]"
    "list_all (\<lambda>x. Base64_is_valid x \<and> x \<noteq> newline \<and> x \<noteq> 0x2D) [w, x, y, z]" by (rule base64_last)
  then show ?case by auto
next
  case (3 a b)
  obtain w x y z where "base64_digits (unat a * 65536 + unat b * 256) = [w, x, y, z]"
    "list_all (\<lambda>x. Base64_is_valid x \<and> x \<noteq> newline \<and> x \<noteq> 0x2D) [w, x, y, z]" by (rule base64_last)
  then show ?case by auto
next
  case (4 a b c xs)
  then show ?case using base64_digits_known[OF triple_bound[of a b c]] by (auto simp: list_all_iff)
qed simp

lemma base64_bytes_text: "base64_bytes (filter Base64_is_valid (base64_text m)) = m"
proof (induction m rule: base64_text.induct)
  case (2 a)
  obtain w x y z where "base64_digits (unat a * 65536 + unat (0 :: byte) * 256) = [w, x, y, z]"
    "list_all (\<lambda>x. Base64_is_valid x \<and> x \<noteq> newline \<and> x \<noteq> 0x2D) [w, x, y, z]" "Base64_decode [w, x, y, z] = [a, 0, 0]" by (rule base64_last)
  then show ?case by (simp add: base64_pad_char Base64_decode_def)
next
  case (3 a b)
  obtain w x y z where "base64_digits (unat a * 65536 + unat b * 256) = [w, x, y, z]"
    "list_all (\<lambda>x. Base64_is_valid x \<and> x \<noteq> newline \<and> x \<noteq> 0x2D) [w, x, y, z]" "Base64_decode [w, x, y, z] = [a, b, 0]" by (rule base64_last)
  then show ?case by (simp add: base64_pad_char Base64_decode_def)
next
  case (4 a b c xs)
  let ?v = "unat a * 65536 + unat b * 256 + unat c"
  obtain w x y z where d: "base64_digits ?v = [w, x, y, z]" by (simp add: base64_digits_def)
  have "filter Base64_is_valid (base64_digits ?v) = base64_digits ?v"
    using base64_digits_known[OF triple_bound[of a b c]] by (intro filter_True) (auto simp: list_all_iff)
  then have "filter Base64_is_valid (base64_digits ?v @ base64_text xs) = base64_digits ?v @ filter Base64_is_valid (base64_text xs)"
    by simp
  then have "filter Base64_is_valid (base64_text (a # b # c # xs)) = w # x # y # z # filter Base64_is_valid (base64_text xs)"
    by (simp only: base64_text.simps filter_append d append.simps)
  moreover have "Base64_decode [w, x, y, z] = [a, b, c]" using base64_triples[of a b c] d by simp
  ultimately show ?case using 4 by (simp only: base64_bytes.simps append.simps)
qed simp

section \<open>Whole messages\<close>

lemma pad_loop_values: "length out = 4 \<Longrightarrow> pad_loop 16 3 out = take 2 out @ [0x3D, 0x3D]"
  "length out = 4 \<Longrightarrow> pad_loop 8 3 out = take 3 out @ [0x3D]"
  using length4[of out] by (auto simp del: pad_loop.simps simp add: pad_loop.simps[of "numeral _"])

text \<open>The end of a message: what is left of the last block, padded.\<close>

lemma base64_tail:
  assumes "length r = 1 \<or> length r = 2" and "xs = r @ ys"
  shows "pad_loop (8 * (3 - length r)) 3 (Base64_encode (reg_copy (reg_create 3) 0 xs (length r))) = base64_text r"
proof (cases "length r = 1")
  case True
  then obtain a where "r = [a]" by (auto simp: length_Suc_conv)
  moreover from this assms have "reg_copy (reg_create 3) 0 xs (length r) = [a, 0, 0]"
    by (simp add: reg_copy_def reg_create_def at_ptr_def copy_mem_def numeral_3_eq_3)
  ultimately show ?thesis using base64_encode[of a 0 0 "[]"]
    by (simp add: pad_loop_values base64_digits_def del: pad_loop.simps)
next
  case False
  then obtain a b where r: "r = [a, b]" using assms(1) by (auto simp: length_Suc_conv numeral_2_eq_2)
  moreover from this assms have "reg_copy (reg_create 3) 0 xs (length r) = [a, b, 0]"
    by (simp add: reg_copy_def reg_create_def at_ptr_def copy_mem_def numeral_3_eq_3)
  ultimately show ?thesis using base64_encode[of a b 0 "[]"]
    by (simp add: pad_loop_values base64_digits_def del: pad_loop.simps)
qed

lemma base64_tail_length: "length r = 1 \<or> length r = 2 \<Longrightarrow> length (base64_text r) = 4"
proof (induction r rule: base64_text.induct)
  case (2 a)
  then show ?case by (simp add: base64_digits_def)
next
  case (3 a b)
  then show ?case by (simp add: base64_digits_def)
qed simp_all

lemma base64_encoder_message:
  fixes xss :: "byte list list"
  assumes "length (enc_in e) = 48" and "enc_position e = 0" and "enc_counter e = 0" and "enc_sent e = []"
  defines "cs \<equiv> base64_text (concat xss)"
  shows "\<exists>e1 e'. write_all (Base64_Encoder_write L) xss e = Some e1 \<and> Base64_Encoder_end_msg tn L e1 = Some e' \<and>
    enc_sent e' = text_lines L cs @ (if tn \<and> (L = 0 \<or> L dvd length cs) then [newline] else []) \<and>
    length (enc_in e') = 48 \<and> enc_position e' = 0 \<and> enc_counter e' = 0"
proof -
  have ok: "line_ok L e" using assms(3) by (simp add: line_ok_def)
  obtain e1 where e1: "write_all (Base64_Encoder_write L) xss e = Some e1" "enc_absorbed 48 L base64_text e e1 (concat xss)"
    using base64_enc.message[OF assms(1,2) ok] unfolding Base64_Encoder_write_def by blast
  define q where "q = enc_position e1"
  obtain a where a: "48 dvd length a" "concat xss = a @ take q (enc_in e1)" "length (enc_in e1) = 48" "q < 48" "line_ok L e1"
    "(enc_counter e1, enc_sent e1) = fold (line_step L) (base64_text a) (0, [])"
    using e1(2) assms(3,4) by (auto simp: enc_absorbed_def q_def)
  define k where "k = q div 3"
  define b r where "b = take (3 * k) (enc_in e1)" and "r = take (q mod 3) (drop (3 * k) (enc_in e1))"
  have q: "3 * k + q mod 3 = q" by (simp add: k_def)
  have br: "take q (enc_in e1) = b @ r" "length b = 3 * k" "length r = q mod 3"
  proof -
    have "take q (enc_in e1) = take (3 * k + q mod 3) (enc_in e1)" by (simp only: q)
    also have "\<dots> = b @ r" unfolding b_def r_def by (rule take_add)
    finally show "take q (enc_in e1) = b @ r" .
    show "length b = 3 * k" "length r = q mod 3" using q a(3,4) by (simp_all add: b_def r_def)
  qed
  define e2 where "e2 = put_text L (base64_text b) e1"
  have "3 * k \<le> length (enc_in e1)" using q a(3,4) by linarith
  from base64_encode_send[OF a(5) this] have s: "Base64_encode_and_send L (enc_in e1) (3 * k) e1 = Some e2"
    by (simp add: e2_def b_def)
  have ok2: "line_ok L e2" using put_text_ok[OF a(5)] by (simp add: e2_def)
  define e3 where "e3 = put_text L (base64_text r) e2"
  have tail: "(if q mod 3 \<noteq> 0 then do_output L (pad_loop (8 * (3 - q mod 3)) 3
      (Base64_encode (reg_copy (reg_create 3) 0 (drop (3 * k) (enc_in e2)) (q mod 3)))) 4 e2 else Some e2) = Some e3"
  proof (cases "q mod 3 = 0")
    case True
    then show ?thesis using br(3) by (simp add: e3_def)
  next
    case False
    then have r: "length r = 1 \<or> length r = 2" using br(3) mod_less_divisor[of 3 q] by linarith
    have "drop (3 * k) (enc_in e2) = r @ drop (q mod 3) (drop (3 * k) (enc_in e1))" by (simp add: r_def e2_def del: drop_drop)
    from base64_tail[OF r this] have "pad_loop (8 * (3 - q mod 3)) 3
        (Base64_encode (reg_copy (reg_create 3) 0 (drop (3 * k) (enc_in e2)) (q mod 3))) = base64_text r"
      by (simp only: br(3))
    then show ?thesis using False do_output_correct[OF ok2, of 4 "base64_text r"] base64_tail_length[OF r] by (simp add: e3_def)
  qed
  have "3 dvd length a" "3 dvd length b" using a(1) br(2) dvd_48 by simp_all
  then have "cs = base64_text a @ base64_text b @ base64_text r"
    by (simp add: cs_def a(2) br(1) base64_text_append)
  then have f: "(enc_counter e3, enc_sent e3) = fold (line_step L) cs (0, [])"
    using a(6)[symmetric] by (simp add: e3_def e2_def put_text_def Let_def)
  define e' where "e' = (if tn \<or> (enc_counter e3 \<noteq> 0 \<and> L \<noteq> 0) then enc_send [newline] e3 else e3)\<lparr>enc_counter := 0, enc_position := 0\<rparr>"
  have "Base64_Encoder_end_msg tn L e1 = Some e'"
    unfolding Base64_Encoder_end_msg_def q_def[symmetric] k_def[symmetric] Let_def s option.case tail by (simp add: e'_def)
  moreover have "enc_sent e' = text_lines L cs @ (if tn \<and> (L = 0 \<or> L dvd length cs) then [newline] else [])"
  proof -
    have "enc_counter e3 \<noteq> 0 \<and> L \<noteq> 0 \<longleftrightarrow> \<not> (L = 0 \<or> L dvd length cs)"
      using lines_end(2)[OF f] by (auto simp: dvd_eq_mod_eq_0)
    then show ?thesis using lines_end(1)[OF f] by (auto simp: e'_def enc_send_def split: if_splits)
  qed
  moreover have "length (enc_in e') = 48" "enc_position e' = 0" "enc_counter e' = 0"
    using a(3) by (auto simp: e'_def e3_def e2_def enc_send_def)
  ultimately show ?thesis using e1(1) by blast
qed

lemma base64_decoder_message:
  assumes "length (dec_in d) = 48" and "dec_position d = 0"
  shows "case first_bad Base64_is_valid (Base64_handle_bad_char k) (concat yss) of
      Some e \<Rightarrow> write_pieces (Base64_Decoder_write k) yss d = Inl e
    | None \<Rightarrow> \<exists>d'. write_pieces (Base64_Decoder_write k) yss d = Inr d' \<and>
        dec_sent (Base64_Decoder_end_msg d') = dec_sent d @ base64_bytes (filter Base64_is_valid (concat yss))"
proof -
  have e: "dec_sent (Base64_Decoder_end_msg d') = dec_sent d @ base64_bytes cs"
    if abs: "dec_absorbed 48 base64_bytes d d' cs" for d' cs
  proof -
    define q where "q = dec_position d'"
    obtain a where a: "48 dvd length a" "cs = a @ take q (dec_in d')" "length (dec_in d') = 48"
      "q < 48" "dec_sent d' = dec_sent d @ base64_bytes a"
      using abs unfolding dec_absorbed_def q_def by blast
    define j where "j = q div 4"
    define b r where "b = take (4 * j) (dec_in d')" and "r = take (q mod 4) (drop (4 * j) (dec_in d'))"
    have q: "4 * j + q mod 4 = q" by (simp add: j_def)
    have br: "take q (dec_in d') = b @ r" "length b = 4 * j" "length r = q mod 4"
    proof -
      have "take q (dec_in d') = take (4 * j + q mod 4) (dec_in d')" by (simp only: q)
      also have "\<dots> = b @ r" unfolding b_def r_def by (rule take_add)
      finally show "take q (dec_in d') = b @ r" .
      show "length b = 4 * j" "length r = q mod 4" using q a(3,4) by (simp_all add: b_def r_def)
    qed
    have cs: "base64_bytes cs = base64_bytes a @ base64_bytes b @ base64_bytes r"
      using a(1) br by (simp add: a(2) base64_bytes_append dvd_48)
    have "4 * j \<le> length (dec_in d')" using q a(3,4) by linarith
    then have s: "Base64_decode_and_send (dec_in d') (4 * j) d' = d'\<lparr>dec_sent := dec_sent d' @ base64_bytes b\<rparr>"
      by (simp add: base64_decode_send b_def)
    have t: "take (if length r = 1 then 1 else length r - 1) (Base64_decode (reg_copy (reg_create 4) 0 (drop (4 * j) (dec_in d')) (length r)))
        = base64_bytes r" if "q mod 4 \<noteq> 0"
    proof -
      have "length r = 1 \<or> length r = 2 \<or> length r = 3" using that br(3) mod_less_divisor[of 4 q] by linarith
      moreover have "reg_copy (reg_create 4) 0 (drop (4 * j) (dec_in d')) (length r) = r @ replicate (4 - length r) 0"
        using br(3) q a(3,4) by (simp add: reg_copy_def reg_create_def at_ptr_def copy_mem_def r_def min_def)
      ultimately show ?thesis
        by (auto simp: length_Suc_conv numeral_2_eq_2 numeral_3_eq_3 Base64_decode_def eval_nat_numeral)
    qed
    show ?thesis
    proof (cases "q mod 4 = 0")
      case True
      moreover have "j = 0" "b = []" if "q = 0" using that by (simp_all add: j_def b_def)
      ultimately show ?thesis using s cs a(5) br
        by (cases "q = 0") (simp_all add: Base64_Decoder_end_msg_def Let_def flip: q_def j_def)
    next
      case False
      then have "q \<noteq> 0" by auto
      define w where "w = take (if q mod 4 = 1 then 1 else q mod 4 - 1)
        (Base64_decode (reg_copy (reg_create 4) 0 (drop (4 * j) (dec_in d')) (q mod 4)))"
      have "w = base64_bytes r" using t[OF False] unfolding w_def br(3) .
      moreover have "dec_sent (Base64_Decoder_end_msg d') = dec_sent d' @ base64_bytes b @ w"
        using \<open>q \<noteq> 0\<close> False s unfolding w_def Base64_Decoder_end_msg_def q_def[symmetric] j_def[symmetric] Let_def
        by (simp add: dec_send_def)
      ultimately show ?thesis using cs a(5) by simp
    qed
  qed
  show ?thesis
    using base64_dec.message[OF base64_dec.start[OF assms], where xss = yss and k = k] e
    by (auto simp: Base64_Decoder_write_def split: option.splits)
qed

text \<open>What the decoder throws at, in a text of digits, padding and newlines.\<close>

lemma base64_bad_full: "\<exists>w. Base64_handle_bad_char FULL_CHECK newline = Some (Decoding_Error w)"
  by (simp add: Base64_handle_bad_char_def)

lemma base64_bad_newline:
  "\<forall>x \<in> set s. Base64_is_valid x \<or> x = 0x3D \<or> x = newline \<Longrightarrow>
   first_bad Base64_is_valid (Base64_handle_bad_char chk) s =
     (if chk = FULL_CHECK \<and> newline \<in> set s then Base64_handle_bad_char chk newline else None)"
proof (induction s)
  case (Cons x s)
  have "Base64_handle_bad_char chk 0x3D = None" by (simp add: Base64_handle_bad_char_def)
  moreover have "Base64_handle_bad_char chk newline = None" if "chk \<noteq> FULL_CHECK"
    using that base64_pad_char(4) by (cases chk) (simp_all add: Base64_handle_bad_char_def)
  ultimately show ?case using Cons base64_pad_char base64_bad_full by (auto split: if_splits)
qed simp

end
