(* ===== verification/PEM.thy ===== *)
theory PEM
  imports Codec_Base64
begin

text \<open>
  PEM (\<open>src/codec/pem/pem.cpp\<close>): Base64 between two header lines. A source of data is the bytes it still has. The
  pipe around the codec writes, ends the message and reads back what the codec sent. A comparison \<open>b == HEADER[position]\<close>
  promotes the byte and the plain \<open>char\<close> to \<open>int\<close>. Whether \<open>char\<close> is signed is the compiler's choice: it is the argument \<open>cs\<close>
  of the functions that compare.
\<close>

definition char_to_int :: "bool \<Rightarrow> char \<Rightarrow> int" where
  "char_to_int char_signed c = (if char_signed then sint (byte_of_char c) else uint (byte_of_char c))"

definition byte_is_char :: "bool \<Rightarrow> byte \<Rightarrow> char \<Rightarrow> bool" where
  "byte_is_char char_signed b c = (uint b = char_to_int char_signed c)"

definition PEM_encode :: "byte list \<Rightarrow> string \<Rightarrow> nat \<Rightarrow> string option" where
  "PEM_encode der label width =
     (let PEM_HEADER = ''-----BEGIN '' @ label @ ''-----'' @ [CHR 0x0A];
          PEM_TRAILER = ''-----END '' @ label @ ''-----'' @ [CHR 0x0A];
          L = line_length True width
      in case Base64_Encoder_write L new_Base64_Encoder der of
           None \<Rightarrow> None
         | Some e \<Rightarrow>
             (case Base64_Encoder_end_msg False L e of
                None \<Rightarrow> None
              | Some e \<Rightarrow> Some (PEM_HEADER @ map char_of_byte (enc_sent e) @ PEM_TRAILER)))"

text \<open>The three loops of \<open>decode\<close> over the bytes of the source; \<open>cs\<close> says whether \<open>char\<close> is signed.\<close>

definition PEM_HEADER1 :: string where
  "PEM_HEADER1 = ''-----BEGIN ''"

definition PEM_HEADER2 :: string where
  "PEM_HEADER2 = ''-----''"

fun pem_header_loop :: "bool \<Rightarrow> nat \<Rightarrow> byte list \<Rightarrow> botan_error + byte list" where
  "pem_header_loop cs pos source =
     (if pos \<noteq> length PEM_HEADER1 then
        case source of
          [] \<Rightarrow> Inl (Decoding_Error ''PEM: No PEM header found'')
        | b # source \<Rightarrow>
            if byte_is_char cs b (PEM_HEADER1 ! pos) then pem_header_loop cs (pos + 1) source
            else if pos \<ge> 8 then Inl (Decoding_Error ''PEM: Malformed PEM header'')
            else pem_header_loop cs 0 source
      else Inr source)"

fun pem_label_loop :: "bool \<Rightarrow> nat \<Rightarrow> string \<Rightarrow> byte list \<Rightarrow> botan_error + string \<times> byte list" where
  "pem_label_loop cs pos label source =
     (if pos \<noteq> length PEM_HEADER2 then
        case source of
          [] \<Rightarrow> Inl (Decoding_Error ''PEM: No PEM header found'')
        | b # source \<Rightarrow>
            if byte_is_char cs b (PEM_HEADER2 ! pos) then pem_label_loop cs (pos + 1) label source
            else if pos \<noteq> 0 then Inl (Decoding_Error ''PEM: Malformed PEM header'')
            else pem_label_loop cs pos (label @ [char_of_byte b]) source
      else Inr (label, source))"

fun pem_body_loop :: "bool \<Rightarrow> string \<Rightarrow> nat \<Rightarrow> Decoder \<Rightarrow> byte list \<Rightarrow> botan_error + Decoder \<times> byte list" where
  "pem_body_loop cs PEM_TRAILER pos base64 source =
     (if pos \<noteq> length PEM_TRAILER then
        case source of
          [] \<Rightarrow> Inl (Decoding_Error ''PEM: No PEM trailer found'')
        | b # source \<Rightarrow>
            if byte_is_char cs b (PEM_TRAILER ! pos) then pem_body_loop cs PEM_TRAILER (pos + 1) base64 source
            else if pos \<noteq> 0 then Inl (Decoding_Error ''PEM: Malformed PEM trailer'')
            else
              (case Base64_Decoder_write NONE base64 [b] of
                 Inl e \<Rightarrow> Inl e
               | Inr base64 \<Rightarrow> pem_body_loop cs PEM_TRAILER pos base64 source)
      else Inr (base64, source))"

declare pem_header_loop.simps [simp del] pem_label_loop.simps [simp del] pem_body_loop.simps [simp del]

text \<open>The result: the data, what the label has become, and the rest of the source.\<close>

definition PEM_decode :: "bool \<Rightarrow> byte list \<Rightarrow> string \<Rightarrow> botan_error + byte list \<times> string \<times> byte list" where
  "PEM_decode cs source label =
     try_bind (pem_header_loop cs 0 source) (\<lambda>source.
     try_bind (pem_label_loop cs 0 label source) (\<lambda>(label, source).
     try_bind (pem_body_loop cs (''-----END '' @ label @ ''-----'') 0 new_Base64_Decoder source) (\<lambda>(base64, source).
       Inr (dec_sent (Base64_Decoder_end_msg base64), label, source))))"

definition PEM_decode_check_label :: "bool \<Rightarrow> byte list \<Rightarrow> string \<Rightarrow> botan_error + byte list \<times> byte list" where
  "PEM_decode_check_label cs source label_want =
     try_bind (PEM_decode cs source []) (\<lambda>(ber, label_got, source).
       if label_got \<noteq> label_want
       then Inl (Decoding_Error (''PEM: Label mismatch, wanted '' @ label_want @ '', got '' @ label_got))
       else Inr (ber, source))"

text \<open>\<open>matches\<close> peeks: the source keeps its bytes. The loop is over what was got.\<close>

fun pem_search_loop :: "bool \<Rightarrow> string \<Rightarrow> nat \<Rightarrow> byte list \<Rightarrow> bool" where
  "pem_search_loop cs PEM_HEADER index [] = False"
| "pem_search_loop cs PEM_HEADER index (b # search_buf) =
     (let index = (if byte_is_char cs b (PEM_HEADER ! index) then index + 1 else 0)
      in if index = length PEM_HEADER then True else pem_search_loop cs PEM_HEADER index search_buf)"

definition PEM_matches :: "bool \<Rightarrow> byte list \<Rightarrow> string \<Rightarrow> nat \<Rightarrow> bool" where
  "PEM_matches cs source extra search_range =
     (let PEM_HEADER = ''-----BEGIN '' @ extra;
          search_buf = take search_range source
      in if length search_buf < length PEM_HEADER then False else pem_search_loop cs PEM_HEADER 0 search_buf)"

section \<open>Reading what was written\<close>

lemma byte_char_iff: "byte_of_char c = byte_of_char d \<longleftrightarrow> c = d"
  by (metis byte_char(2))

text \<open>A byte can equal the character it was made from: always where \<open>char\<close> is unsigned, below 128 where it is signed.\<close>

definition readable :: "bool \<Rightarrow> char \<Rightarrow> bool" where
  "readable cs c \<longleftrightarrow> \<not> cs \<or> 0 \<le> sint (byte_of_char c)"

lemma sint_uint_byte: "0 \<le> sint b \<Longrightarrow> sint b = uint (b :: byte)"
  using sint_lt[of b] by (simp add: uint_sint[of b] take_bit_int_eq_self)

lemma byte_is_char_iff: "byte_is_char cs b c \<longleftrightarrow> b = byte_of_char c \<and> readable cs c"
proof (cases "0 \<le> sint (byte_of_char c)")
  case True
  then show ?thesis by (simp add: byte_is_char_def char_to_int_def readable_def sint_uint_byte word_uint_eq_iff)
next
  case False
  moreover have "0 \<le> uint b" by simp
  ultimately have "uint b \<noteq> sint (byte_of_char c)" by linarith
  then show ?thesis using False by (auto simp: byte_is_char_def char_to_int_def readable_def word_uint_eq_iff)
qed

lemma readable_literals:
  "\<forall>c\<in>set PEM_HEADER1. readable cs c" "\<forall>c\<in>set ''-----END ''. readable cs c" "\<forall>c\<in>set ''-----''. readable cs c"
  "readable cs CHR ''-''"
  by (simp_all add: PEM_HEADER1_def readable_def byte_of_char_def)

lemma pem_header_match:
  "source = map byte_of_char (drop p PEM_HEADER1) @ rest \<Longrightarrow> p \<le> length PEM_HEADER1 \<Longrightarrow> pem_header_loop cs p source = Inr rest"
proof (induction cs p source rule: pem_header_loop.induct)
  case (1 cs p source)
  show ?case
  proof (cases "p = length PEM_HEADER1")
    case True
    then show ?thesis using 1 by (subst pem_header_loop.simps) simp
  next
    case False
    then have "drop p PEM_HEADER1 = PEM_HEADER1 ! p # drop (Suc p) PEM_HEADER1" using 1(4) by (simp add: Cons_nth_drop_Suc)
    moreover have "readable cs (PEM_HEADER1 ! p)" using readable_literals(1) False 1(4) nth_mem[of p PEM_HEADER1] by auto
    ultimately show ?thesis using 1 False by (subst pem_header_loop.simps) (simp add: byte_is_char_iff)
  qed
qed

text \<open>The trailer is read up to its end, or up to the first character that no byte is equal to.\<close>

lemma pem_body_match:
  "source = map byte_of_char (drop p T) @ rest \<Longrightarrow> p \<le> length T \<Longrightarrow> p \<noteq> 0 \<or> readable cs (T ! 0) \<Longrightarrow>
    pem_body_loop cs T p d source =
      (if \<forall>c\<in>set (drop p T). readable cs c then Inr (d, rest) else Inl (Decoding_Error ''PEM: Malformed PEM trailer''))"
proof (induction cs T p d source rule: pem_body_loop.induct)
  case (1 cs T p d source)
  show ?case
  proof (cases "p = length T")
    case True
    then show ?thesis using 1 by (subst pem_body_loop.simps) simp
  next
    case False
    then have dr: "drop p T = T ! p # drop (Suc p) T" using 1(4) by (simp add: Cons_nth_drop_Suc)
    then have src: "source = byte_of_char (T ! p) # map byte_of_char (drop (Suc p) T) @ rest" using 1(3) by simp
    show ?thesis
    proof (cases "readable cs (T ! p)")
      case True
      then have r: "byte_is_char cs (byte_of_char (T ! p)) (T ! p)" by (simp add: byte_is_char_iff)
      have "pem_body_loop cs T (p + 1) d (map byte_of_char (drop (Suc p) T) @ rest) =
          (if \<forall>c\<in>set (drop (Suc p) T). readable cs c then Inr (d, rest) else Inl (Decoding_Error ''PEM: Malformed PEM trailer''))"
        using 1(1)[OF False src r] 1(4) False by simp
      then show ?thesis using True r False unfolding src dr by (subst pem_body_loop.simps) simp
    next
      case not_readable: False
      then have "p \<noteq> 0" using 1(5) by (cases p) auto
      then show ?thesis using not_readable False unfolding src dr by (subst pem_body_loop.simps) (simp add: byte_is_char_iff)
    qed
  qed
qed

lemma pem_label_end: "pem_label_loop cs 0 label (map byte_of_char ''-----'' @ rest) = Inr (label, rest)"
  using readable_literals(4)[of cs] by (simp add: pem_label_loop.simps PEM_HEADER2_def byte_is_char_iff)

lemma pem_label:
  "CHR ''-'' \<notin> set label \<Longrightarrow>
    pem_label_loop cs 0 prev (map byte_of_char label @ map byte_of_char ''-----'' @ rest) = Inr (prev @ label, rest)"
proof (induction label arbitrary: prev)
  case Nil
  then show ?case using pem_label_end by simp
next
  case (Cons c label)
  then have "byte_of_char c \<noteq> byte_of_char CHR ''-''" by (auto simp: byte_char_iff)
  then show ?case using Cons by (subst pem_label_loop.simps) (simp add: PEM_HEADER2_def byte_is_char_iff)
qed

lemma pem_body_text:
  assumes "T \<noteq> []" and "hd T = CHR ''-''" and "0x2D \<notin> set bs"
  shows "pem_body_loop cs T 0 d (bs @ rest) =
    (case write_pieces (Base64_Decoder_write NONE) (map (\<lambda>b. [b]) bs) d of Inl e \<Rightarrow> Inl e | Inr d \<Rightarrow> pem_body_loop cs T 0 d rest)"
  using assms(3)
proof (induction bs arbitrary: d)
  case (Cons b bs)
  have h: "byte_of_char (T ! 0) = 0x2D" using assms(1,2) by (cases T) (simp_all add: byte_of_char_def)
  have b: "b \<noteq> 0x2D" "0x2D \<notin> set bs" using Cons.prems by auto
  have "pem_body_loop cs T 0 d ((b # bs) @ rest) = (case Base64_Decoder_write NONE d [b] of
      Inl e \<Rightarrow> Inl e | Inr d \<Rightarrow> pem_body_loop cs T 0 d (bs @ rest))"
    using assms(1) h b(1) by (subst pem_body_loop.simps) (simp add: byte_is_char_iff)
  then show ?case using Cons.IH[OF b(2)] by (cases "Base64_Decoder_write NONE d [b]") simp_all
qed simp

lemma no_bad_chars: "first_bad Base64_is_valid (Base64_handle_bad_char NONE) cs = None"
  by (induction cs) (auto simp: Base64_handle_bad_char_def)

lemma concat_singletons: "concat (map (\<lambda>x. [x]) xs) = xs"
  by (induction xs) simp_all

lemma base64_encoder_text:
  "\<exists>e1 e. Base64_Encoder_write L new_Base64_Encoder der = Some e1 \<and> Base64_Encoder_end_msg False L e1 = Some e \<and>
    enc_sent e = text_lines L (base64_text der)"
  using base64_encoder_message[of new_Base64_Encoder L "[der]" False]
  by (auto simp: new_Base64_Encoder_def new_Encoder_def split: option.splits)

lemma pem_body:
  assumes "T \<noteq> []" and "hd T = CHR ''-''"
  shows "\<exists>d. pem_body_loop cs T 0 new_Base64_Decoder (newline # text_lines L (base64_text der) @ map byte_of_char T @ rest) =
      (if \<forall>c\<in>set T. readable cs c then Inr (d, rest) else Inl (Decoding_Error ''PEM: Malformed PEM trailer'')) \<and>
    dec_sent (Base64_Decoder_end_msg d) = der"
proof -
  let ?t = "newline # text_lines L (base64_text der)"
  have "0x2D \<notin> set ?t" using set_text_lines[of L "base64_text der"] base64_text_known[of der] by auto
  moreover obtain d where "write_pieces (Base64_Decoder_write NONE) (map (\<lambda>b. [b]) ?t) new_Base64_Decoder = Inr d"
    "dec_sent (Base64_Decoder_end_msg d) = base64_bytes (filter Base64_is_valid ?t)"
    using base64_decoder_message[of new_Base64_Decoder NONE "map (\<lambda>b. [b]) ?t"]
    unfolding no_bad_chars concat_singletons by (auto simp: new_Base64_Decoder_def new_Decoder_def)
  moreover have "pem_body_loop cs T 0 d (map byte_of_char T @ rest) =
      (if \<forall>c\<in>set T. readable cs c then Inr (d, rest) else Inl (Decoding_Error ''PEM: Malformed PEM trailer''))"
    using pem_body_match[of "map byte_of_char T @ rest" 0 T rest cs d] assms readable_literals(4) by (simp add: hd_conv_nth)
  moreover have "base64_bytes (filter Base64_is_valid ?t) = der"
    by (simp add: base64_pad_char filter_text_lines base64_bytes_text)
  ultimately show ?thesis using pem_body_text[OF assms, of ?t cs new_Base64_Decoder "map byte_of_char T @ rest"]
    by (intro exI[of _ d]) simp
qed

lemma pem_encode_text:
  "PEM_encode der label width = Some (''-----BEGIN '' @ label @ ''-----'' @ [CHR 0x0A] @
     map char_of_byte (text_lines width (base64_text der)) @ ''-----END '' @ label @ ''-----'' @ [CHR 0x0A])"
  using base64_encoder_text[of width der] by (auto simp: PEM_encode_def line_length_def Let_def)

lemma pem_bytes:
  "map byte_of_char (''-----BEGIN '' @ label @ ''-----'' @ [CHR 0x0A] @ map char_of_byte x @ ''-----END '' @ label @ ''-----'' @ [CHR 0x0A]) =
   map byte_of_char PEM_HEADER1 @ map byte_of_char label @ map byte_of_char ''-----'' @
     (newline # x @ map byte_of_char (''-----END '' @ label @ ''-----'') @ [newline])"
proof -
  have "byte_of_char CHR 0x0A = newline" by (simp add: byte_of_char_def)
  then show ?thesis by (simp add: PEM_HEADER1_def comp_def)
qed

lemma pem_decode_encode:
  assumes "CHR ''-'' \<notin> set label" and "PEM_encode der label width = Some pem"
  shows "PEM_decode cs (map byte_of_char pem @ rest) [] =
    (if \<forall>c\<in>set label. readable cs c then Inr (der, label, newline # rest)
     else Inl (Decoding_Error ''PEM: Malformed PEM trailer''))"
proof -
  define T where "T = ''-----END '' @ label @ ''-----''"
  define x where "x = text_lines width (base64_text der)"
  have T: "T \<noteq> []" "hd T = CHR ''-''" by (simp_all add: T_def)
  have r: "(\<forall>c\<in>set T. readable cs c) \<longleftrightarrow> (\<forall>c\<in>set label. readable cs c)"
    using readable_literals(2,3)[of cs] unfolding T_def set_append by blast
  have pem: "map byte_of_char pem @ rest = map byte_of_char (drop 0 PEM_HEADER1) @ map byte_of_char label @ map byte_of_char ''-----'' @
      (newline # x @ map byte_of_char T @ (newline # rest))"
  proof -
    have "pem = ''-----BEGIN '' @ label @ ''-----'' @ [CHR 0x0A] @ map char_of_byte x @ ''-----END '' @ label @ ''-----'' @ [CHR 0x0A]"
      using assms(2) unfolding pem_encode_text option.inject x_def by (rule sym)
    show ?thesis unfolding \<open>pem = _\<close> pem_bytes by (simp add: T_def)
  qed
  obtain d where d: "pem_body_loop cs T 0 new_Base64_Decoder (newline # x @ map byte_of_char T @ (newline # rest)) =
      (if \<forall>c\<in>set label. readable cs c then Inr (d, newline # rest) else Inl (Decoding_Error ''PEM: Malformed PEM trailer''))"
    "dec_sent (Base64_Decoder_end_msg d) = der" using pem_body[OF T, of cs width der "newline # rest"] unfolding x_def r by blast
  show ?thesis
    unfolding PEM_decode_def pem_header_match[OF pem le0] try_bind_simps pem_label[OF assms(1)]
    using d by (simp add: T_def)
qed

lemma pem_search_match:
  "take (length H - i) bs = map byte_of_char (drop i H) \<Longrightarrow> i < length H \<Longrightarrow> \<forall>c\<in>set H. readable cs c \<Longrightarrow> pem_search_loop cs H i bs"
proof (induction cs H i bs rule: pem_search_loop.induct)
  case (2 cs H i b bs)
  have "drop i H = H ! i # drop (Suc i) H" using 2(3) by (simp add: Cons_nth_drop_Suc)
  moreover have "length H - i = Suc (length H - Suc i)" using 2(3) by simp
  ultimately have "b = byte_of_char (H ! i)" "take (length H - Suc i) bs = map byte_of_char (drop (Suc i) H)"
    using 2(2) by simp_all
  moreover have "readable cs (H ! i)" using 2(3,4) by simp
  ultimately show ?case using 2 by (cases "Suc i = length H") (simp_all add: Let_def byte_is_char_iff)
next
  case (1 cs H i)
  then show ?case by simp
qed

text \<open>The search never gets past a character that no byte is equal to.\<close>

lemma pem_search_stuck:
  "i \<le> j \<Longrightarrow> j < length H \<Longrightarrow> \<not> readable cs (H ! j) \<Longrightarrow> \<not> pem_search_loop cs H i bs"
proof (induction cs H i bs rule: pem_search_loop.induct)
  case (2 cs H i b bs)
  define k where "k = (if byte_is_char cs b (H ! i) then i + 1 else 0)"
  have k: "k \<le> j" "k \<noteq> length H" using 2(2-4) by (auto simp: k_def byte_is_char_iff le_less)
  then show ?case using 2(1)[OF k_def k(2) k(1) 2(3,4)] by (simp add: Let_def flip: k_def)
qed simp

lemma pem_matches_encode:
  assumes "PEM_encode der label width = Some pem" and "label = extra @ tail" and "length extra + 11 \<le> n"
  shows "PEM_matches cs (map byte_of_char pem @ rest) extra n \<longleftrightarrow> (\<forall>c\<in>set extra. readable cs c)"
proof -
  define H where "H = ''-----BEGIN '' @ extra"
  let ?buf = "take n (map byte_of_char pem @ rest)"
  obtain xs where xs: "pem = H @ xs" using assms(1,2) unfolding pem_encode_text H_def by auto
  have t: "take (length H) ?buf = map byte_of_char H"
    using assms(3) by (simp add: xs H_def)
  have l: "length H \<le> length ?buf" using assms(3) by (simp add: xs H_def)
  have h: "H = PEM_HEADER1 @ extra" by (simp add: H_def PEM_HEADER1_def)
  have r: "(\<forall>c\<in>set H. readable cs c) \<longleftrightarrow> (\<forall>c\<in>set extra. readable cs c)"
    using readable_literals(1)[of cs] unfolding h set_append by blast
  have "pem_search_loop cs H 0 ?buf" if "\<forall>c\<in>set H. readable cs c"
  proof (rule pem_search_match[OF _ _ that])
    show "take (length H - 0) ?buf = map byte_of_char (drop 0 H)" using t by (simp only: drop_0 diff_zero)
    show "0 < length H" by (simp add: H_def)
  qed
  moreover have "\<not> pem_search_loop cs H 0 ?buf" if bad: "\<not> (\<forall>c\<in>set H. readable cs c)"
  proof -
    obtain j where "j < length H" "\<not> readable cs (H ! j)" using bad by (auto simp: in_set_conv_nth)
    then show ?thesis by (rule pem_search_stuck[OF le0])
  qed
  ultimately have "pem_search_loop cs H 0 ?buf \<longleftrightarrow> (\<forall>c\<in>set H. readable cs c)" by blast
  then show ?thesis using l unfolding PEM_matches_def H_def[symmetric] Let_def r by simp
qed

end
