(* ===== verification/Codec_Properties.thy ===== *)
theory Codec_Properties
  imports Codec_Hex PEM "HOL-Library.Sublist"
begin

text \<open>What the codecs promise: text that decodes to the message, for all ways to cut both.\<close>

text \<open>C35. Hexadecimal coding. Written in any pieces, a message becomes its digits broken into lines of the given length,
  and the encoder is ready for another message. Fed this text in any pieces, a decoder that ignores other characters
  or white space returns the message; one that checks everything does if there are no line breaks, and otherwise throws
  at the first.\<close>

theorem hex_round_trip:
  fixes xss yss :: "byte list list"
  shows "\<exists>e1 e. write_all (Hex_Encoder_write c L) xss new_Hex_Encoder = Some e1 \<and> Hex_Encoder_end_msg c L e1 = Some e \<and>
    enc_sent e = text_lines L (hex_text c (concat xss)) \<and> enc_position e = 0 \<and> enc_counter e = 0 \<and>
    (concat yss = enc_sent e \<longrightarrow>
      (if chk = FULL_CHECK \<and> L \<noteq> 0 \<and> concat xss \<noteq> []
       then write_pieces (Hex_Decoder_write chk) yss new_Hex_Decoder =
         Inl (Decoding_Error ''Hex_Decoder: Invalid hex character: 10'')
       else \<exists>d. write_pieces (Hex_Decoder_write chk) yss new_Hex_Decoder = Inr d \<and>
         dec_sent (Hex_Decoder_end_msg d) = concat xss))"
proof -
  let ?m = "concat xss"
  obtain e1 e where e: "write_all (Hex_Encoder_write c L) xss new_Hex_Encoder = Some e1" "Hex_Encoder_end_msg c L e1 = Some e"
    "enc_sent e = text_lines L (hex_text c ?m)" "enc_position e = 0" "enc_counter e = 0"
    using hex_encoder_message[of new_Hex_Encoder c L xss] by (auto simp: new_Hex_Encoder_def new_Encoder_def)
  have n: "hex_text c ?m = [] \<longleftrightarrow> ?m = []" using length_hex_text[of c ?m] by (metis length_0_conv mult_eq_0_iff zero_neq_numeral)
  have b: "first_bad Hex_is_valid (Hex_handle_bad_char chk) (text_lines L (hex_text c ?m)) =
      (if L = 0 \<or> ?m = [] then None else Hex_handle_bad_char chk newline)"
    using first_bad_lines[of "hex_text c ?m" Hex_is_valid _ L] hex_text_valid newline_not_hex(1) n by simp
  have h: "Hex_handle_bad_char chk newline =
      (if chk = FULL_CHECK then Some (Decoding_Error ''Hex_Decoder: Invalid hex character: 10'') else None)"
    using newline_not_hex(2) by (cases chk) (simp_all add: Hex_handle_bad_char_def, code_simp)
  have f: "filter Hex_is_valid (text_lines L (hex_text c ?m)) = hex_text c ?m"
    using hex_text_valid[of c ?m] newline_not_hex(1) by (simp add: filter_text_lines)
  show ?thesis
    using e b h f hex_decoder_message[of new_Hex_Decoder chk yss]
    by (intro exI[of _ e1] exI[of _ e]) (auto simp: hex_bytes_text new_Hex_Decoder_def new_Decoder_def split: if_splits)
qed

lemma hex_round_trip_witness:
  "\<exists>d. write_pieces (Hex_Decoder_write IGNORE_WS) [[0x44, 0x45, 0x41, 0x0A], [0x44, 0x0A]] new_Hex_Decoder = Inr d \<and>
    dec_sent (Hex_Decoder_end_msg d) = [0xDE, 0xAD]"
proof -
  have "text_lines 3 (hex_text Uppercase (concat [[0xDE], [0xAD]])) = concat [[0x44, 0x45, 0x41, 0x0A], [0x44, 0x0A]]"
    by code_simp
  then show ?thesis
    using hex_round_trip[of Uppercase 3 "[[0xDE], [0xAD]]" "[[0x44, 0x45, 0x41, 0x0A], [0x44, 0x0A]]" IGNORE_WS] by auto
qed

text \<open>C36. Base64 coding. Written in any pieces, a message becomes its coding by RFC 4648 in lines, with the extra newline
  a trailing one asks for, and the encoder is ready for another message. The decoder returns the message from the text
  in any pieces, unless it checks everything and there is a newline in it.\<close>

theorem base64_round_trip:
  fixes xss yss :: "byte list list"
  shows "\<exists>e1 e. write_all (Base64_Encoder_write L) xss new_Base64_Encoder = Some e1 \<and> Base64_Encoder_end_msg tn L e1 = Some e \<and>
    enc_sent e = text_lines L (base64_text (concat xss)) @
      (if tn \<and> (L = 0 \<or> L dvd length (base64_text (concat xss))) then [0x0A] else []) \<and>
    enc_position e = 0 \<and> enc_counter e = 0 \<and>
    (concat yss = enc_sent e \<longrightarrow>
      (if chk = FULL_CHECK \<and> 0x0A \<in> set (enc_sent e)
       then \<exists>w. write_pieces (Base64_Decoder_write chk) yss new_Base64_Decoder = Inl (Decoding_Error w)
       else \<exists>d. write_pieces (Base64_Decoder_write chk) yss new_Base64_Decoder = Inr d \<and>
         dec_sent (Base64_Decoder_end_msg d) = concat xss))"
proof -
  let ?m = "concat xss" and ?t = "base64_text (concat xss)"
  define s where "s = text_lines L ?t @ (if tn \<and> (L = 0 \<or> L dvd length ?t) then [newline] else [])"
  obtain e1 e where e: "write_all (Base64_Encoder_write L) xss new_Base64_Encoder = Some e1" "Base64_Encoder_end_msg tn L e1 = Some e"
    "enc_sent e = s" "enc_position e = 0" "enc_counter e = 0"
    using base64_encoder_message[of new_Base64_Encoder L xss tn] by (auto simp: new_Base64_Encoder_def new_Encoder_def s_def)
  have k: "Base64_is_valid x \<or> x = 0x3D \<or> x = newline" if "x \<in> set s" for x
    using that set_text_lines[of L ?t] base64_text_known[of ?m] by (auto simp: s_def split: if_splits)
  have b: "first_bad Base64_is_valid (Base64_handle_bad_char chk) s =
      (if chk = FULL_CHECK \<and> newline \<in> set s then Base64_handle_bad_char chk newline else None)"
    using k base64_bad_newline[of s chk] by blast
  have f: "filter Base64_is_valid s = filter Base64_is_valid ?t"
    using base64_pad_char by (simp add: s_def filter_text_lines)
  have d: "if chk = FULL_CHECK \<and> newline \<in> set s
      then \<exists>w. write_pieces (Base64_Decoder_write chk) yss new_Base64_Decoder = Inl (Decoding_Error w)
      else \<exists>d. write_pieces (Base64_Decoder_write chk) yss new_Base64_Decoder = Inr d \<and> dec_sent (Base64_Decoder_end_msg d) = ?m"
    if y: "concat yss = s"
  proof (cases "chk = FULL_CHECK \<and> newline \<in> set s")
    case True
    then show ?thesis using b base64_bad_full base64_decoder_message[of new_Base64_Decoder chk yss]
      by (auto simp: y new_Base64_Decoder_def new_Decoder_def)
  next
    case False
    then have "first_bad Base64_is_valid (Base64_handle_bad_char chk) s = None" unfolding b by (rule if_not_P)
    then show ?thesis unfolding if_not_P[OF False] using base64_decoder_message[of new_Base64_Decoder chk yss]
      by (simp add: y f base64_bytes_text new_Base64_Decoder_def new_Decoder_def)
  qed
  then have "concat yss = enc_sent e \<longrightarrow> (if chk = FULL_CHECK \<and> newline \<in> set (enc_sent e)
      then \<exists>w. write_pieces (Base64_Decoder_write chk) yss new_Base64_Decoder = Inl (Decoding_Error w)
      else \<exists>d. write_pieces (Base64_Decoder_write chk) yss new_Base64_Decoder = Inr d \<and> dec_sent (Base64_Decoder_end_msg d) = ?m)"
    unfolding e(3) by (rule impI)
  with e show ?thesis unfolding s_def[symmetric] by blast
qed

lemma base64_round_trip_witness:
  "\<exists>d. write_pieces (Base64_Decoder_write FULL_CHECK) [[0x2F, 0x77], [0x3D, 0x3D]] new_Base64_Decoder = Inr d \<and>
    dec_sent (Base64_Decoder_end_msg d) = [0xFF]"
proof -
  have t: "base64_text (concat [[0xFF]]) = concat [[0x2F, 0x77], [0x3D, 0x3D]]"
    by (simp add: base64_digits_def base64_char_def)
  show ?thesis
    using base64_round_trip[of 0 "[[0xFF]]" False "[[0x2F, 0x77], [0x3D, 0x3D]]" FULL_CHECK] t by auto
qed

text \<open>C37. PEM: whatever follows it in the source, what \<open>encode\<close> wrote under a label without dashes is read back. Where \<open>char\<close>
  is unsigned this holds for every such label, where it is signed for those of ASCII characters: \<open>decode\<close> returns the message
  and the label and leaves the rest from the last newline on, \<open>decode_check_label\<close> returns the message under its label and
  throws for every other. A label with any other character is written by \<open>encode\<close> and refused by both, because a byte is
  compared with a negative \<open>char\<close> of the trailer. \<open>matches\<close> finds a prefix of the label that the search range holds under the
  same condition on the prefix.\<close>

theorem pem_round_trip:
  assumes "CHR ''-'' \<notin> set label"
  shows "\<exists>pem. PEM_encode der label width = Some pem \<and>
    (if \<forall>c\<in>set label. readable cs c
     then PEM_decode cs (map byte_of_char pem @ rest) [] = Inr (der, label, 0x0A # rest) \<and>
       PEM_decode_check_label cs (map byte_of_char pem @ rest) label = Inr (der, 0x0A # rest) \<and>
       (want \<noteq> label \<longrightarrow> PEM_decode_check_label cs (map byte_of_char pem @ rest) want =
         Inl (Decoding_Error (''PEM: Label mismatch, wanted '' @ want @ '', got '' @ label)))
     else PEM_decode cs (map byte_of_char pem @ rest) [] = Inl (Decoding_Error ''PEM: Malformed PEM trailer'') \<and>
       PEM_decode_check_label cs (map byte_of_char pem @ rest) want = Inl (Decoding_Error ''PEM: Malformed PEM trailer'')) \<and>
    (prefix extra label \<and> length extra + 11 \<le> n \<longrightarrow>
       PEM_matches cs (map byte_of_char pem @ rest) extra n = (\<forall>c\<in>set extra. readable cs c))"
proof -
  obtain pem where pem: "PEM_encode der label width = Some pem" using pem_encode_text by blast
  have m: "PEM_matches cs (map byte_of_char pem @ rest) extra n = (\<forall>c\<in>set extra. readable cs c)"
    if "prefix extra label" "length extra + 11 \<le> n"
    using pem_matches_encode[OF pem _ that(2), of _ cs rest] that(1) unfolding prefix_def by blast
  show ?thesis
    using pem pem_decode_encode[OF assms pem, of cs rest] m
    by (intro exI[of _ pem]) (simp add: PEM_decode_check_label_def)
qed

lemma pem_round_trip_witness:
  "(\<exists>pem. PEM_encode [1, 2] ''KEY'' 64 = Some pem \<and> PEM_decode True (map byte_of_char pem) [] = Inr ([1, 2], ''KEY'', [0x0A])) \<and>
   (\<exists>pem. PEM_encode [1, 2] [CHR 0xC9] 64 = Some pem \<and>
     PEM_decode True (map byte_of_char pem) [] = Inl (Decoding_Error ''PEM: Malformed PEM trailer''))"
  using pem_round_trip[of "''KEY''" "[1, 2]" 64 True "[]" "[]" "[]" 0]
    pem_round_trip[of "[CHR 0xC9]" "[1, 2]" 64 True "[]" "[]" "[]" 0]
  by (simp add: readable_def byte_of_char_def) blast

end
