(* ===== verification/SecQueue.thy ===== *)
theory SecQueue
  imports SecMem
begin

text \<open>
  Sources of data (\<open>src/filters/data_src.cpp\<close>) and the queue of bytes between filters (\<open>src/filters/secqueue.cpp\<close>).
  The queue is a chain of nodes on the heap: the store maps addresses to nodes, \<open>head\<close> and \<open>tail\<close> are addresses, and a
  pointer that is not in the store, such as \<open>tail\<close> after the last node has been read and deleted, must not be followed;
  following it is \<open>None\<close>, as is a loop that does not end. \<open>output\<close> of \<open>read\<close> and \<open>peek\<close> is the list they return.

  The locale \<open>data_source\<close> is what readers rely on, \<open>byte_queue\<close> adds writing; the queue and the buffer in memory are
  proved to keep them, so no operation follows a dangling pointer.
\<close>

section \<open>Interfaces\<close>

locale data_source =
  fixes rep :: "'s \<Rightarrow> byte list \<Rightarrow> bool" and read :: "nat \<Rightarrow> 's \<Rightarrow> (byte list \<times> 's) option"
    and peek :: "nat \<Rightarrow> nat \<Rightarrow> 's \<Rightarrow> byte list option" and end_of_data :: "'s \<Rightarrow> bool option"
  assumes read: "rep s bs \<Longrightarrow> \<exists>s'. read n s = Some (take n bs, s') \<and> rep s' (drop n bs)"
    and peek: "rep s bs \<Longrightarrow> peek n offset s = Some (take n (drop offset bs))"
    and end_of_data: "rep s bs \<Longrightarrow> end_of_data s = Some (bs = [])"

locale byte_queue = data_source +
  fixes append :: "byte list \<Rightarrow> 's \<Rightarrow> 's option"
  assumes append: "rep s bs \<Longrightarrow> \<exists>s'. append xs s = Some s' \<and> rep s' (bs @ xs)"

text \<open>The members of \<open>DataSource\<close> over its virtual functions.\<close>

definition read_byte :: "(nat \<Rightarrow> 's \<Rightarrow> (byte list \<times> 's) option) \<Rightarrow> 's \<Rightarrow> (byte list \<times> 's) option" where
  "read_byte read s = read 1 s"

definition peek_byte :: "(nat \<Rightarrow> nat \<Rightarrow> 's \<Rightarrow> byte list option) \<Rightarrow> 's \<Rightarrow> byte list option" where
  "peek_byte peek s = peek 1 0 s"

fun discard_next :: "(nat \<Rightarrow> 's \<Rightarrow> (byte list \<times> 's) option) \<Rightarrow> nat \<Rightarrow> nat \<Rightarrow> 's \<Rightarrow> (nat \<times> 's) option" where
  "discard_next read 0 discarded s = Some (discarded, s)"
| "discard_next read (Suc n) discarded s =
     (case read_byte read s of None \<Rightarrow> None | Some (out, s) \<Rightarrow> discard_next read n (discarded + length out) s)"

text \<open>A reader that asks for up to \<open>n\<close> bytes until there are none, and a client that mixes calls.\<close>

partial_function (option) read_until_end :: "(nat \<Rightarrow> 's \<Rightarrow> (byte list \<times> 's) option) \<Rightarrow> ('s \<Rightarrow> bool option) \<Rightarrow> nat \<Rightarrow> byte list \<Rightarrow> 's \<Rightarrow>
    (byte list \<times> 's) option" where
  "read_until_end read end_of_data n got s =
     (case end_of_data s of
        None \<Rightarrow> None
      | Some eod \<Rightarrow> if eod then Some (got, s)
          else (case read n s of None \<Rightarrow> None | Some r \<Rightarrow> read_until_end read end_of_data n (got @ fst r) (snd r)))"

datatype queue_call = Write_bytes "byte list" | Read_bytes nat | Peek_bytes nat nat

fun run_calls :: "(nat \<Rightarrow> 's \<Rightarrow> (byte list \<times> 's) option) \<Rightarrow> (nat \<Rightarrow> nat \<Rightarrow> 's \<Rightarrow> byte list option) \<Rightarrow>
    (byte list \<Rightarrow> 's \<Rightarrow> 's option) \<Rightarrow> queue_call list \<Rightarrow> 's \<Rightarrow> (byte list list \<times> 's) option" where
  "run_calls read peek write [] s = Some ([], s)"
| "run_calls read peek write (Write_bytes xs # cs) s =
     (case write xs s of None \<Rightarrow> None | Some s \<Rightarrow> run_calls read peek write cs s)"
| "run_calls read peek write (Read_bytes n # cs) s =
     (case read n s of None \<Rightarrow> None | Some (out, s) \<Rightarrow>
        (case run_calls read peek write cs s of None \<Rightarrow> None | Some (outs, s) \<Rightarrow> Some (out # outs, s)))"
| "run_calls read peek write (Peek_bytes n offset # cs) s =
     (case peek n offset s of None \<Rightarrow> None | Some out \<Rightarrow>
        (case run_calls read peek write cs s of None \<Rightarrow> None | Some (outs, s) \<Rightarrow> Some (out # outs, s)))"

text \<open>The specification: a list of bytes.\<close>

fun list_calls :: "queue_call list \<Rightarrow> byte list \<Rightarrow> byte list list \<times> byte list" where
  "list_calls [] bs = ([], bs)"
| "list_calls (Write_bytes xs # cs) bs = list_calls cs (bs @ xs)"
| "list_calls (Read_bytes n # cs) bs = (take n bs # fst (list_calls cs (drop n bs)), snd (list_calls cs (drop n bs)))"
| "list_calls (Peek_bytes n offset # cs) bs = (take n (drop offset bs) # fst (list_calls cs bs), snd (list_calls cs bs))"

context data_source begin

lemma discard: "rep s bs \<Longrightarrow> \<exists>s'. discard_next read n k s = Some (k + min n (length bs), s') \<and> rep s' (drop n bs)"
proof (induction n arbitrary: k s bs)
  case (Suc n)
  obtain s1 where s1: "read 1 s = Some (take 1 bs, s1)" "rep s1 (drop 1 bs)" using read[OF Suc.prems] by blast
  then show ?case using Suc.IH[OF s1(2), of "k + length (take 1 bs)"]
    by (cases bs) (auto simp: read_byte_def)
qed simp

lemma drain:
  assumes "rep s bs" and "0 < n"
  shows "\<exists>s'. read_until_end read end_of_data n got s = Some (got @ bs, s') \<and> rep s' []"
  using assms(1)
proof (induction "length bs" arbitrary: bs s got rule: less_induct)
  case less
  show ?case
  proof (cases "bs = []")
    case True
    then show ?thesis using end_of_data[OF less.prems] less.prems by (subst read_until_end.simps) simp
  next
    case False
    obtain s1 where s1: "read n s = Some (take n bs, s1)" "rep s1 (drop n bs)" using read[OF less.prems] by blast
    have "read_until_end read end_of_data n got s = read_until_end read end_of_data n (got @ take n bs) s1"
      using end_of_data[OF less.prems] False s1(1) by (subst read_until_end.simps) simp
    then show ?thesis using less.hyps[OF _ s1(2), of "got @ take n bs"] False assms(2) by simp
  qed
qed

end

context byte_queue begin

lemma calls: "rep s bs \<Longrightarrow> \<exists>s'. run_calls read peek append cs s = Some (fst (list_calls cs bs), s') \<and> rep s' (snd (list_calls cs bs))"
proof (induction cs bs arbitrary: s rule: list_calls.induct)
  case (2 xs cs bs)
  then show ?case using append[OF "2.prems", of xs] by force
next
  case (3 n cs bs)
  then show ?case using read[OF "3.prems", of n] by force
next
  case (4 n offset cs bs)
  then show ?case using peek[OF "4.prems", of n offset] by force
qed simp

end

section \<open>Memory as a source\<close>

record DataSource_Memory =
  source :: "byte list"
  offset :: nat

definition new_DataSource_Memory :: "byte list \<Rightarrow> DataSource_Memory" where
  "new_DataSource_Memory inp = \<lparr>source = inp, offset = 0\<rparr>"

definition memory_read :: "nat \<Rightarrow> DataSource_Memory \<Rightarrow> (byte list \<times> DataSource_Memory) option" where
  "memory_read n s =
     (let got = min (length (source s) - offset s) n
      in Some (take got (drop (offset s) (source s)), s\<lparr>offset := offset s + got\<rparr>))"

definition memory_peek :: "nat \<Rightarrow> nat \<Rightarrow> DataSource_Memory \<Rightarrow> byte list option" where
  "memory_peek n peek_offset s =
     (let bytes_left = length (source s) - offset s
      in if peek_offset \<ge> bytes_left then Some []
         else let got = min (bytes_left - peek_offset) n
              in Some (take got (drop (offset s + peek_offset) (source s))))"

definition memory_end_of_data :: "DataSource_Memory \<Rightarrow> bool option" where
  "memory_end_of_data s = Some (offset s = length (source s))"

definition memory_rep :: "DataSource_Memory \<Rightarrow> byte list \<Rightarrow> bool" where
  "memory_rep s bs \<longleftrightarrow> offset s \<le> length (source s) \<and> bs = drop (offset s) (source s)"

interpretation memory: data_source memory_rep memory_read memory_peek memory_end_of_data
proof
  fix s bs n k
  assume s: "memory_rep s bs"
  show "\<exists>s'. memory_read n s = Some (take n bs, s') \<and> memory_rep s' (drop n bs)"
    using s by (auto simp: memory_read_def memory_rep_def Let_def min_def add.commute)
  show "memory_peek n k s = Some (take n (drop k bs))"
    using s by (auto simp: memory_peek_def memory_rep_def Let_def min_def add.commute)
  show "memory_end_of_data s = Some (bs = [])" using s by (auto simp: memory_end_of_data_def memory_rep_def)
qed

section \<open>Nodes\<close>

definition DEFAULT_BUFFERSIZE :: nat where
  "DEFAULT_BUFFERSIZE = 4096"

record SecureQueueNode =
  next_node :: "nat option"
  node_buffer :: "byte list"
  node_start :: nat
  node_end :: nat

definition new_SecureQueueNode :: SecureQueueNode where
  "new_SecureQueueNode = \<lparr>next_node = None, node_buffer = reg_create DEFAULT_BUFFERSIZE, node_start = 0, node_end = 0\<rparr>"

definition node_write :: "byte list \<Rightarrow> nat \<Rightarrow> SecureQueueNode \<Rightarrow> nat \<times> SecureQueueNode" where
  "node_write input len s =
     (let copied = min len (length (node_buffer s) - node_end s)
      in (copied, s\<lparr>node_buffer := at_ptr (node_end s) (\<lambda>p. copy_mem p input copied) (node_buffer s), node_end := node_end s + copied\<rparr>))"

definition node_read :: "nat \<Rightarrow> SecureQueueNode \<Rightarrow> byte list \<times> SecureQueueNode" where
  "node_read len s =
     (let copied = min len (node_end s - node_start s)
      in (take copied (drop (node_start s) (node_buffer s)), s\<lparr>node_start := node_start s + copied\<rparr>))"

definition node_peek :: "nat \<Rightarrow> nat \<Rightarrow> SecureQueueNode \<Rightarrow> byte list" where
  "node_peek len ofs s =
     (let left = node_end s - node_start s
      in if ofs \<ge> left then []
         else let copied = min len (left - ofs)
              in take copied (drop (node_start s + ofs) (node_buffer s)))"

definition node_size :: "SecureQueueNode \<Rightarrow> nat" where
  "node_size s = node_end s - node_start s"

section \<open>The queue\<close>

record SecureQueue =
  store :: "nat \<Rightarrow> SecureQueueNode option"
  fresh :: nat
  head :: "nat option"
  tail :: "nat option"

text \<open>\<open>new SecureQueueNode\<close> and \<open>delete\<close>.\<close>

definition alloc_node :: "SecureQueue \<Rightarrow> nat \<times> SecureQueue" where
  "alloc_node q = (fresh q, q\<lparr>store := (store q)(fresh q \<mapsto> new_SecureQueueNode), fresh := Suc (fresh q)\<rparr>)"

definition delete_node :: "nat \<Rightarrow> SecureQueue \<Rightarrow> SecureQueue" where
  "delete_node a q = q\<lparr>store := (store q)(a := None)\<rparr>"

definition follow :: "nat option \<Rightarrow> SecureQueue \<Rightarrow> (nat \<times> SecureQueueNode) option" where
  "follow p q = (case p of None \<Rightarrow> None | Some a \<Rightarrow> (case store q a of None \<Rightarrow> None | Some nd \<Rightarrow> Some (a, nd)))"

definition new_head :: "SecureQueue \<Rightarrow> SecureQueue" where
  "new_head q = (let (a, q) = alloc_node q in q\<lparr>head := Some a, tail := Some a\<rparr>)"

definition new_SecureQueue :: SecureQueue where
  "new_SecureQueue = new_head \<lparr>store = Map.empty, fresh = 0, head = None, tail = None\<rparr>"

partial_function (option) queue_write_loop :: "byte list \<Rightarrow> nat \<Rightarrow> SecureQueue \<Rightarrow> SecureQueue option" where
  "queue_write_loop input len q =
     (if len \<noteq> 0 then
        case follow (tail q) q of
          None \<Rightarrow> None
        | Some t \<Rightarrow>
            let (n, nd) = node_write input len (snd t);
                q = q\<lparr>store := (store q)(fst t \<mapsto> nd)\<rparr>;
                input = drop n input; len = len - n
            in queue_write_loop input len
                 (if len \<noteq> 0 then
                    let (a, q) = alloc_node q;
                        q = q\<lparr>store := (store q)(fst t \<mapsto> nd\<lparr>next_node := Some a\<rparr>)\<rparr>
                    in q\<lparr>tail := Some a\<rparr>
                  else q)
      else Some q)"

definition queue_write :: "byte list \<Rightarrow> SecureQueue \<Rightarrow> SecureQueue option" where
  "queue_write input q = queue_write_loop input (length input) (if head q = None then new_head q else q)"

partial_function (option) queue_read_loop :: "byte list \<Rightarrow> nat \<Rightarrow> SecureQueue \<Rightarrow> (byte list \<times> SecureQueue) option" where
  "queue_read_loop out len q =
     (if len \<noteq> 0 \<and> head q \<noteq> None then
        case follow (head q) q of
          None \<Rightarrow> None
        | Some h \<Rightarrow>
            let (bs, nd) = node_read len (snd h);
                q = q\<lparr>store := (store q)(fst h \<mapsto> nd)\<rparr>
            in queue_read_loop (out @ bs) (len - length bs)
                 (if node_size nd = 0 then (delete_node (fst h) q)\<lparr>head := next_node nd\<rparr> else q)
      else Some (out, q))"

definition queue_read :: "nat \<Rightarrow> SecureQueue \<Rightarrow> (byte list \<times> SecureQueue) option" where
  "queue_read len q = queue_read_loop [] len q"

partial_function (option) peek_skip_loop :: "nat \<Rightarrow> nat option \<Rightarrow> SecureQueue \<Rightarrow> (nat \<times> nat option) option" where
  "peek_skip_loop ofs current q =
     (if ofs \<noteq> 0 \<and> current \<noteq> None then
        case follow current q of
          None \<Rightarrow> None
        | Some c \<Rightarrow>
            if ofs \<ge> node_size (snd c) then peek_skip_loop (ofs - node_size (snd c)) (next_node (snd c)) q
            else Some (ofs, current)
      else Some (ofs, current))"

partial_function (option) peek_copy_loop :: "byte list \<Rightarrow> nat \<Rightarrow> nat \<Rightarrow> nat option \<Rightarrow> SecureQueue \<Rightarrow> byte list option" where
  "peek_copy_loop out len ofs current q =
     (if len \<noteq> 0 \<and> current \<noteq> None then
        case follow current q of
          None \<Rightarrow> None
        | Some c \<Rightarrow>
            let bs = node_peek len ofs (snd c)
            in peek_copy_loop (out @ bs) (len - length bs) 0 (next_node (snd c)) q
      else Some out)"

definition queue_peek :: "nat \<Rightarrow> nat \<Rightarrow> SecureQueue \<Rightarrow> byte list option" where
  "queue_peek len ofs q =
     (case peek_skip_loop ofs (head q) q of
        None \<Rightarrow> None
      | Some (ofs, current) \<Rightarrow> peek_copy_loop [] len ofs current q)"

partial_function (option) queue_size_loop :: "nat \<Rightarrow> nat option \<Rightarrow> SecureQueue \<Rightarrow> nat option" where
  "queue_size_loop count current q =
     (if current \<noteq> None then
        case follow current q of
          None \<Rightarrow> None
        | Some c \<Rightarrow> queue_size_loop (count + node_size (snd c)) (next_node (snd c)) q
      else Some count)"

definition queue_size :: "SecureQueue \<Rightarrow> nat option" where
  "queue_size q = queue_size_loop 0 (head q) q"

definition queue_end_of_data :: "SecureQueue \<Rightarrow> bool option" where
  "queue_end_of_data q = (case queue_size q of None \<Rightarrow> None | Some n \<Rightarrow> Some (n = 0))"

partial_function (option) queue_destroy_loop :: "nat option \<Rightarrow> SecureQueue \<Rightarrow> SecureQueue option" where
  "queue_destroy_loop temp q =
     (if temp \<noteq> None then
        case follow temp q of
          None \<Rightarrow> None
        | Some c \<Rightarrow> queue_destroy_loop (next_node (snd c)) (delete_node (fst c) q)
      else Some q)"

definition queue_destroy :: "SecureQueue \<Rightarrow> SecureQueue option" where
  "queue_destroy q = (case queue_destroy_loop (head q) q of None \<Rightarrow> None | Some q \<Rightarrow> Some (q\<lparr>head := None, tail := None\<rparr>))"

text \<open>The loop of the copy constructor and of assignment; the two queues have their own nodes.\<close>

partial_function (option) queue_copy_loop :: "nat option \<Rightarrow> SecureQueue \<Rightarrow> SecureQueue \<Rightarrow> SecureQueue option" where
  "queue_copy_loop temp input q =
     (if temp \<noteq> None then
        case follow temp input of
          None \<Rightarrow> None
        | Some c \<Rightarrow>
            (case queue_write (take (node_end (snd c) - node_start (snd c)) (drop (node_start (snd c)) (node_buffer (snd c)))) q of
               None \<Rightarrow> None
             | Some q \<Rightarrow> queue_copy_loop (next_node (snd c)) input q)
      else Some q)"

definition queue_copy :: "SecureQueue \<Rightarrow> SecureQueue option" where
  "queue_copy input = queue_copy_loop (head input) input new_SecureQueue"

definition queue_assign :: "SecureQueue \<Rightarrow> SecureQueue \<Rightarrow> SecureQueue option" where
  "queue_assign input q =
     (case queue_destroy q of
        None \<Rightarrow> None
      | Some q \<Rightarrow> queue_copy_loop (head input) input (new_head q))"

section \<open>The bytes in a queue\<close>

definition node_bytes :: "SecureQueueNode \<Rightarrow> byte list" where
  "node_bytes nd = drop (node_start nd) (take (node_end nd) (node_buffer nd))"

definition node_ok :: "SecureQueueNode \<Rightarrow> bool" where
  "node_ok nd \<longleftrightarrow> node_start nd \<le> node_end nd \<and> node_end nd \<le> DEFAULT_BUFFERSIZE \<and> length (node_buffer nd) = DEFAULT_BUFFERSIZE"

fun chain :: "(nat \<Rightarrow> SecureQueueNode option) \<Rightarrow> nat option \<Rightarrow> nat list \<Rightarrow> bool" where
  "chain h p [] \<longleftrightarrow> p = None"
| "chain h p (a # as) \<longleftrightarrow> p = Some a \<and> (\<exists>nd. h a = Some nd \<and> node_ok nd \<and> chain h (next_node nd) as)"

definition chain_bytes :: "(nat \<Rightarrow> SecureQueueNode option) \<Rightarrow> nat list \<Rightarrow> byte list" where
  "chain_bytes h as = concat (map (\<lambda>a. node_bytes (the (h a))) as)"

text \<open>The invariant: the store is the chain from \<open>head\<close>, without sharing or leaks, and \<open>tail\<close> is its last node.\<close>

definition queue_chain :: "SecureQueue \<Rightarrow> nat list \<Rightarrow> bool" where
  "queue_chain q as \<longleftrightarrow> chain (store q) (head q) as \<and> distinct as \<and> dom (store q) = set as \<and> (\<forall>a \<in> set as. a < fresh q) \<and>
     (as \<noteq> [] \<longrightarrow> tail q = Some (last as))"

definition queue_rep :: "SecureQueue \<Rightarrow> byte list \<Rightarrow> bool" where
  "queue_rep q bs \<longleftrightarrow> (\<exists>as. queue_chain q as \<and> bs = chain_bytes (store q) as)"

lemma node_size_bytes: "node_ok nd \<Longrightarrow> node_size nd = length (node_bytes nd)"
  by (simp add: node_size_def node_bytes_def node_ok_def)

lemma node_write_bytes:
  assumes "node_ok nd" and "node_write xs (length xs) nd = (n, nd')"
  shows "n = min (length xs) (DEFAULT_BUFFERSIZE - node_end nd)" "node_ok nd'" "node_bytes nd' = node_bytes nd @ take n xs"
    "next_node nd' = next_node nd"
proof -
  show n: "n = min (length xs) (DEFAULT_BUFFERSIZE - node_end nd)"
    using assms by (auto simp: node_write_def node_ok_def Let_def)
  have nd': "nd' = nd\<lparr>node_buffer := at_ptr (node_end nd) (\<lambda>p. copy_mem p xs n) (node_buffer nd), node_end := node_end nd + n\<rparr>"
    using assms(2) by (auto simp: node_write_def Let_def)
  have b: "at_ptr (node_end nd) (\<lambda>p. copy_mem p xs n) (node_buffer nd) =
      take (node_end nd) (node_buffer nd) @ take n xs @ drop (node_end nd + n) (node_buffer nd)"
    by (simp add: at_ptr_def copy_mem_def add.commute)
  show "node_ok nd'" using assms(1) n unfolding nd' b by (auto simp: node_ok_def)
  show "next_node nd' = next_node nd" by (simp add: nd')
  show "node_bytes nd' = node_bytes nd @ take n xs" using assms(1) n unfolding nd' b by (simp add: node_bytes_def node_ok_def)
qed

lemma node_read_bytes:
  assumes "node_ok nd" and "node_read k nd = (bs, nd')"
  shows "bs = take k (node_bytes nd)" "node_ok nd'" "node_bytes nd' = drop k (node_bytes nd)" "next_node nd' = next_node nd"
  using assms by (auto simp: node_read_def node_ok_def node_bytes_def Let_def min_def drop_take add.commute)

lemma node_peek_bytes: "node_ok nd \<Longrightarrow> node_peek k off nd = take k (drop off (node_bytes nd))"
  by (auto simp: node_peek_def node_ok_def node_bytes_def Let_def min_def drop_take add.commute)

lemma new_node_ok: "node_ok new_SecureQueueNode" "node_bytes new_SecureQueueNode = []" "next_node new_SecureQueueNode = None"
  "node_end new_SecureQueueNode = 0"
  by (simp_all add: node_ok_def node_bytes_def new_SecureQueueNode_def)

lemma chain_bytes_simps [simp]: "chain_bytes h [] = []" "chain_bytes h (a # as) = node_bytes (the (h a)) @ chain_bytes h as"
  "chain_bytes h (as @ bs) = chain_bytes h as @ chain_bytes h bs"
  by (simp_all add: chain_bytes_def)

lemma chain_other: "a \<notin> set as \<Longrightarrow> chain (h(a := x)) p as = chain h p as"
  by (induction as arbitrary: p) auto

lemma chain_bytes_other: "a \<notin> set as \<Longrightarrow> chain_bytes (h(a := x)) as = chain_bytes h as"
  by (induction as) auto

lemma chain_last: "chain h p (as @ [t]) \<Longrightarrow> \<exists>nd. h t = Some nd \<and> node_ok nd \<and> next_node nd = None"
  by (induction as arbitrary: p) auto

lemma chain_update_last:
  assumes "chain h p (as @ [t])" and "t \<notin> set as" and "node_ok nd" and "chain (h(t \<mapsto> nd)) (next_node nd) bs"
  shows "chain (h(t \<mapsto> nd)) p (as @ [t] @ bs)"
  using assms by (induction as arbitrary: p) auto

lemma follow_last:
  assumes "queue_chain q (as @ [t])"
  shows "\<exists>nd. follow (tail q) q = Some (t, nd) \<and> store q t = Some nd \<and> node_ok nd \<and> next_node nd = None"
  using assms chain_last[of "store q" "head q" as t] by (auto simp: queue_chain_def follow_def)

section \<open>Writing\<close>

lemma write_step:
  assumes q: "queue_chain q (as @ [t])" and "store q t = Some nd" and "xs \<noteq> []"
  defines "n \<equiv> min (length xs) (DEFAULT_BUFFERSIZE - node_end nd)"
  shows "\<exists>q' as' t'. queue_write_loop xs (length xs) q = queue_write_loop (drop n xs) (length (drop n xs)) q' \<and>
    queue_chain q' (as' @ [t']) \<and> chain_bytes (store q') (as' @ [t']) = chain_bytes (store q) (as @ [t]) @ take n xs \<and>
    (drop n xs \<noteq> [] \<longrightarrow> store q' t' = Some new_SecureQueueNode)"
proof -
  have f: "follow (tail q) q = Some (t, nd)" "node_ok nd" "next_node nd = None" using follow_last[OF q] assms(2) by auto
  obtain m nd1 where w: "node_write xs (length xs) nd = (m, nd1)" by fastforce
  note nd1 = node_write_bytes[OF f(2) w]
  have m: "m = n" using nd1(1) by (simp add: n_def)
  note c = q[unfolded queue_chain_def]
  have t: "t \<notin> set as" using c by auto
  define q1 where "q1 = q\<lparr>store := (store q)(t \<mapsto> nd1)\<rparr>"
  have q1: "queue_chain q1 (as @ [t])"
    using c chain_update_last[of "store q" "head q" as t nd1 "[]"] t nd1(2,4) f(3) by (auto simp: queue_chain_def q1_def)
  have b1: "chain_bytes (store q1) (as @ [t]) = chain_bytes (store q) (as @ [t]) @ take n xs"
    using t nd1(3) assms(2) m by (simp add: q1_def chain_bytes_other)
  show ?thesis
  proof (cases "drop n xs = []")
    case True
    then have "queue_write_loop xs (length xs) q = queue_write_loop (drop n xs) (length (drop n xs)) q1"
      using f w m assms(3) by (subst queue_write_loop.simps) (simp add: q1_def)
    then show ?thesis using q1 b1 True by blast
  next
    case False
    define a where "a = fresh q"
    define q2 where "q2 = q\<lparr>fresh := Suc a, store := (store q)(a \<mapsto> new_SecureQueueNode, t \<mapsto> nd1\<lparr>next_node := Some a\<rparr>), tail := Some a\<rparr>"
    have a: "a \<notin> set (as @ [t])" using c by (auto simp: a_def)
    have up: "(store q)(t \<mapsto> nd1, a \<mapsto> new_SecureQueueNode, t \<mapsto> nd1\<lparr>next_node := Some a\<rparr>) = store q2"
      using a by (auto simp: q2_def)
    have "queue_write_loop xs (length xs) q = queue_write_loop (drop n xs) (length (drop n xs)) q2"
      using f w m assms(3) False up
      by (subst queue_write_loop.simps) (simp add: alloc_node_def Let_def a_def[symmetric] q2_def)
    moreover have "queue_chain q2 (as @ [t, a])"
    proof -
      have "chain ((store q)(a \<mapsto> new_SecureQueueNode)) (head q) (as @ [t])" using c a by (simp add: chain_other)
      moreover have "node_ok (nd1\<lparr>next_node := Some a\<rparr>)" using nd1(2) by (simp add: node_ok_def)
      moreover have "chain (store q2) (Some a) [a]" using a new_node_ok by (simp add: q2_def)
      ultimately have "chain (store q2) (head q) (as @ [t] @ [a])"
        using chain_update_last[of "(store q)(a \<mapsto> new_SecureQueueNode)" "head q" as t "nd1\<lparr>next_node := Some a\<rparr>" "[a]"] t
        by (simp add: q2_def)
      then show ?thesis using c a by (auto simp: queue_chain_def q2_def a_def less_Suc_eq)
    qed
    moreover have "chain_bytes (store q2) (as @ [t, a]) = chain_bytes (store q) (as @ [t]) @ take n xs"
    proof -
      have "node_bytes (nd1\<lparr>next_node := Some a\<rparr>) = node_bytes nd1" by (simp add: node_bytes_def)
      then show ?thesis using t a nd1(3) assms(2) m new_node_ok(2) by (simp add: q2_def chain_bytes_other)
    qed
    moreover have "store q2 a = Some new_SecureQueueNode" using a by (simp add: q2_def)
    ultimately show ?thesis by (intro exI[of _ q2] exI[of _ "as @ [t]"] exI[of _ a]) simp
  qed
qed

lemma write_to_space:
  assumes "queue_chain q (as @ [t])" and "store q t = Some nd" and "node_end nd < DEFAULT_BUFFERSIZE"
  shows "\<exists>q'. queue_write_loop xs (length xs) q = Some q' \<and> queue_rep q' (chain_bytes (store q) (as @ [t]) @ xs)"
  using assms
proof (induction "length xs" arbitrary: xs q as t nd rule: less_induct)
  case less
  show ?case
  proof (cases "xs = []")
    case True
    then show ?thesis using less.prems by (subst queue_write_loop.simps) (auto simp: queue_rep_def)
  next
    case False
    define n where "n = min (length xs) (DEFAULT_BUFFERSIZE - node_end nd)"
    obtain q' as' t' where s: "queue_write_loop xs (length xs) q = queue_write_loop (drop n xs) (length (drop n xs)) q'"
      "queue_chain q' (as' @ [t'])" "chain_bytes (store q') (as' @ [t']) = chain_bytes (store q) (as @ [t]) @ take n xs"
      "drop n xs \<noteq> [] \<longrightarrow> store q' t' = Some new_SecureQueueNode"
      using write_step[OF less.prems(1,2) False] unfolding n_def by blast
    show ?thesis
    proof (cases "drop n xs = []")
      case True
      then show ?thesis using s by (subst (asm) queue_write_loop.simps[of "drop n xs"]) (auto simp: queue_rep_def)
    next
      case False
      have "length (drop n xs) < length xs" using less.prems(3) \<open>xs \<noteq> []\<close> by (simp add: n_def)
      moreover have "store q' t' = Some new_SecureQueueNode" "node_end new_SecureQueueNode < DEFAULT_BUFFERSIZE"
        using s(4) False new_node_ok(4) by (simp_all add: DEFAULT_BUFFERSIZE_def)
      ultimately obtain q2 where "queue_write_loop (drop n xs) (length (drop n xs)) q' = Some q2"
        "queue_rep q2 (chain_bytes (store q') (as' @ [t']) @ drop n xs)"
        using less.hyps[OF _ s(2)] by blast
      moreover have "chain_bytes (store q') (as' @ [t']) @ drop n xs = chain_bytes (store q) (as @ [t]) @ xs"
        unfolding s(3) append_assoc append_take_drop_id ..
      ultimately show ?thesis using s(1) by (simp only:) blast
    qed
  qed
qed

lemma write_chain:
  assumes "queue_chain q (as @ [t])"
  shows "\<exists>q'. queue_write_loop xs (length xs) q = Some q' \<and> queue_rep q' (chain_bytes (store q) (as @ [t]) @ xs)"
proof -
  obtain nd where nd: "store q t = Some nd" "node_ok nd" using follow_last[OF assms] by blast
  show ?thesis
  proof (cases "node_end nd < DEFAULT_BUFFERSIZE \<or> xs = []")
    case True
    then show ?thesis
    proof
      assume "node_end nd < DEFAULT_BUFFERSIZE"
      with write_to_space[OF assms nd(1)] show ?thesis by blast
    next
      assume "xs = []"
      then show ?thesis using assms by (subst queue_write_loop.simps) (auto simp: queue_rep_def)
    qed
  next
    case False
    then have n: "min (length xs) (DEFAULT_BUFFERSIZE - node_end nd) = 0" by simp
    obtain q' as' t' where s: "queue_write_loop xs (length xs) q = queue_write_loop xs (length xs) q'"
      "queue_chain q' (as' @ [t'])" "chain_bytes (store q') (as' @ [t']) = chain_bytes (store q) (as @ [t])"
      "store q' t' = Some new_SecureQueueNode"
      using write_step[OF assms nd(1), of xs] False unfolding n by auto
    then show ?thesis using write_to_space[OF s(2,4), of xs] new_node_ok(4) by (simp add: DEFAULT_BUFFERSIZE_def)
  qed
qed

lemma new_head_chain: "queue_chain q [] \<Longrightarrow> queue_chain (new_head q) [fresh q]" "chain_bytes (store (new_head q)) [fresh q] = []"
  using new_node_ok by (auto simp: new_head_def alloc_node_def queue_chain_def Let_def)

lemma queue_write_rep:
  assumes "queue_rep q bs"
  shows "\<exists>q'. queue_write xs q = Some q' \<and> queue_rep q' (bs @ xs)"
proof -
  obtain as where as: "queue_chain q as" "bs = chain_bytes (store q) as" using assms by (auto simp: queue_rep_def)
  show ?thesis
  proof (cases as rule: rev_cases)
    case Nil
    then have "head q = None" using as(1) by (simp add: queue_chain_def)
    moreover have "queue_chain (new_head q) ([] @ [fresh q])" using new_head_chain(1) as(1) Nil by simp
    ultimately show ?thesis using write_chain[of "new_head q" "[]" "fresh q" xs] new_head_chain(2)[of q] as(2) Nil
      by (simp add: queue_write_def)
  next
    case (snoc as' t)
    then obtain h where "head q = Some h" using as(1) by (cases as') (auto simp: queue_chain_def)
    then show ?thesis using write_chain[of q as' t xs] as snoc by (simp add: queue_write_def)
  qed
qed

section \<open>Reading\<close>

lemma queue_chain_Cons:
  assumes "queue_chain q (a # as)"
  shows "\<exists>nd. follow (head q) q = Some (a, nd) \<and> store q a = Some nd \<and> node_ok nd \<and> chain (store q) (next_node nd) as \<and> a \<notin> set as"
  using assms by (auto simp: queue_chain_def follow_def)

lemma read_chain:
  assumes "queue_chain q as"
  shows "\<exists>q'. queue_read_loop out n q = Some (out @ take n (chain_bytes (store q) as), q') \<and>
    queue_rep q' (drop n (chain_bytes (store q) as))"
  using assms
proof (induction as arbitrary: q out n)
  case Nil
  then have "head q = None" by (simp add: queue_chain_def)
  then show ?case using Nil by (subst queue_read_loop.simps) (auto simp: queue_rep_def)
next
  case (Cons a as)
  show ?case
  proof (cases "n = 0")
    case True
    then show ?thesis using Cons.prems by (subst queue_read_loop.simps) (auto simp: queue_rep_def)
  next
    case False
    note c = Cons.prems[unfolded queue_chain_def]
    obtain nd where nd: "follow (head q) q = Some (a, nd)" "store q a = Some nd" "node_ok nd"
      "chain (store q) (next_node nd) as" "a \<notin> set as" using queue_chain_Cons[OF Cons.prems] by blast
    obtain bs nd1 where r: "node_read n nd = (bs, nd1)" by fastforce
    note nd1 = node_read_bytes[OF nd(3) r]
    define q1 where "q1 = q\<lparr>store := (store q)(a \<mapsto> nd1)\<rparr>"
    define q2 where "q2 = (if node_size nd1 = 0 then (delete_node a q1)\<lparr>head := next_node nd1\<rparr> else q1)"
    have h: "head q \<noteq> None" using c by auto
    have step: "queue_read_loop out n q = queue_read_loop (out @ bs) (n - length bs) q2"
      using False nd(1) r h by (subst queue_read_loop.simps) (simp add: q2_def q1_def Let_def)
    have size: "node_size nd1 = length (node_bytes nd) - n" using node_size_bytes[OF nd1(2)] nd1(3) by simp
    show ?thesis
    proof (cases "node_size nd1 = 0")
      case True
      have q2: "queue_chain q2 as"
        using c True nd(4,5) nd1(4) by (auto simp: queue_chain_def q2_def q1_def delete_node_def chain_other split: if_splits)
      have b: "chain_bytes (store q2) as = chain_bytes (store q) as"
        using True nd(5) by (simp add: q2_def q1_def delete_node_def chain_bytes_other)
      have "length (node_bytes nd) \<le> n" using True size by simp
      then have "bs = node_bytes nd" "n - length bs = n - length (node_bytes nd)" using nd1(1) by simp_all
      then show ?thesis using Cons.IH[OF q2, of "out @ bs" "n - length bs"] step b nd(2) \<open>length (node_bytes nd) \<le> n\<close> by simp
    next
      case False
      then have n: "n < length (node_bytes nd)" using size by simp
      then have "n - length bs = 0" using nd1(1) by simp
      then have "queue_read_loop (out @ bs) (n - length bs) q2 = Some (out @ bs, q2)" by (subst queue_read_loop.simps) simp
      moreover have "queue_chain q1 (a # as)"
        using c nd(4,5) nd1(2,4) by (auto simp: queue_chain_def q1_def chain_other)
      moreover have "chain_bytes (store q1) (a # as) = drop n (chain_bytes (store q) (a # as))"
        using n nd(2,5) nd1(3) by (simp add: q1_def chain_bytes_other)
      ultimately show ?thesis using step False n nd1(1) nd(2) by (auto simp: q2_def queue_rep_def)
    qed
  qed
qed

lemma queue_read_rep:
  assumes "queue_rep q bs"
  shows "\<exists>q'. queue_read n q = Some (take n bs, q') \<and> queue_rep q' (drop n bs)"
  using assms read_chain[of q _ "[]" n] by (auto simp: queue_rep_def queue_read_def)

section \<open>Looking\<close>

lemma follow_chain: "chain (store q) (Some a) (a # as) \<Longrightarrow>
    \<exists>nd. follow (Some a) q = Some (a, nd) \<and> store q a = Some nd \<and> node_ok nd \<and> chain (store q) (next_node nd) as"
  by (auto simp: follow_def)

lemma peek_skip:
  assumes "chain (store q) p as"
  shows "\<exists>ofs' p' as'. peek_skip_loop ofs p q = Some (ofs', p') \<and> chain (store q) p' as' \<and>
    drop ofs (chain_bytes (store q) as) = drop ofs' (chain_bytes (store q) as') \<and>
    (case as' of [] \<Rightarrow> True | a # _ \<Rightarrow> ofs' \<le> length (node_bytes (the (store q a))))"
  using assms
proof (induction as arbitrary: p ofs)
  case Nil
  then show ?case by (intro exI[of _ ofs] exI[of _ None] exI[of _ "[]"]) (subst peek_skip_loop.simps, simp)
next
  case (Cons a as)
  obtain nd where nd: "follow p q = Some (a, nd)" "store q a = Some nd" "node_ok nd" "chain (store q) (next_node nd) as"
    using follow_chain[of q a as] Cons.prems by auto
  have p: "p \<noteq> None" using Cons.prems by auto
  show ?case
  proof (cases "ofs \<noteq> 0 \<and> ofs \<ge> node_size nd")
    case True
    then have "peek_skip_loop ofs p q = peek_skip_loop (ofs - node_size nd) (next_node nd) q"
      using nd(1) p by (subst peek_skip_loop.simps) simp
    then show ?thesis using Cons.IH[OF nd(4), of "ofs - node_size nd"] True nd(2) node_size_bytes[OF nd(3)] by simp
  next
    case False
    then have "peek_skip_loop ofs p q = Some (ofs, p)" using nd(1) p by (subst peek_skip_loop.simps) auto
    then show ?thesis using Cons.prems False nd(2) node_size_bytes[OF nd(3)]
      by (intro exI[of _ ofs] exI[of _ p] exI[of _ "a # as"]) auto
  qed
qed

lemma peek_copy:
  assumes "chain (store q) p as" and "case as of [] \<Rightarrow> True | a # _ \<Rightarrow> ofs \<le> length (node_bytes (the (store q a)))"
  shows "peek_copy_loop out n ofs p q = Some (out @ take n (drop ofs (chain_bytes (store q) as)))"
  using assms
proof (induction as arbitrary: p out n ofs)
  case Nil
  then show ?case by (subst peek_copy_loop.simps) simp
next
  case (Cons a as)
  obtain nd where nd: "follow p q = Some (a, nd)" "store q a = Some nd" "node_ok nd" "chain (store q) (next_node nd) as"
    using follow_chain[of q a as] Cons.prems by auto
  have p: "p \<noteq> None" using Cons.prems by auto
  show ?case
  proof (cases "n = 0")
    case False
    let ?bs = "take n (drop ofs (node_bytes nd))"
    have "peek_copy_loop out n ofs p q = peek_copy_loop (out @ ?bs) (n - length ?bs) 0 (next_node nd) q"
      using nd(1,3) p False by (subst peek_copy_loop.simps) (simp add: node_peek_bytes Let_def)
    also have "\<dots> = Some ((out @ ?bs) @ take (n - length ?bs) (drop 0 (chain_bytes (store q) as)))"
      using nd(4) by (intro Cons.IH) (auto split: list.splits)
    also have "\<dots> = Some (out @ take n (drop ofs (chain_bytes (store q) (a # as))))"
      using Cons.prems(2) nd(2) by (auto simp: min_def)
    finally show ?thesis .
  qed (subst peek_copy_loop.simps, simp)
qed

lemma queue_peek_rep:
  assumes "queue_rep q bs"
  shows "queue_peek n ofs q = Some (take n (drop ofs bs))"
proof -
  obtain as where as: "chain (store q) (head q) as" "bs = chain_bytes (store q) as"
    using assms by (auto simp: queue_rep_def queue_chain_def)
  obtain ofs' p' as' where s: "peek_skip_loop ofs (head q) q = Some (ofs', p')" "chain (store q) p' as'"
    "drop ofs bs = drop ofs' (chain_bytes (store q) as')"
    "case as' of [] \<Rightarrow> True | a # _ \<Rightarrow> ofs' \<le> length (node_bytes (the (store q a)))"
    using peek_skip[OF as(1), of ofs] as(2) by auto
  then show ?thesis using peek_copy[OF s(2,4), of "[]" n] by (simp add: queue_peek_def)
qed

lemma size_chain: "chain (store q) p as \<Longrightarrow> queue_size_loop k p q = Some (k + length (chain_bytes (store q) as))"
proof (induction as arbitrary: p k)
  case Nil
  then show ?case by (subst queue_size_loop.simps) simp
next
  case (Cons a as)
  obtain nd where nd: "follow p q = Some (a, nd)" "store q a = Some nd" "node_ok nd" "chain (store q) (next_node nd) as"
    using follow_chain[of q a as] Cons.prems by auto
  have "p \<noteq> None" using Cons.prems by auto
  then show ?case using Cons.IH[OF nd(4)] nd node_size_bytes[OF nd(3)] by (subst queue_size_loop.simps) simp
qed

lemma queue_repE:
  assumes "queue_rep q bs"
  obtains as where "queue_chain q as" "chain (store q) (head q) as" "distinct as" "dom (store q) = set as" "bs = chain_bytes (store q) as"
  using assms by (auto simp only: queue_rep_def queue_chain_def)

lemma queue_size_rep:
  assumes "queue_rep q bs"
  shows "queue_size q = Some (length bs) \<and> queue_end_of_data q = Some (bs = [])"
proof -
  obtain as where "chain (store q) (head q) as" "bs = chain_bytes (store q) as" by (rule queue_repE[OF assms])
  then have "queue_size q = Some (length bs)" using size_chain[of q "head q" as 0] by (simp add: queue_size_def)
  then show ?thesis by (simp add: queue_end_of_data_def)
qed

interpretation secure_queue: byte_queue queue_rep queue_read queue_peek queue_end_of_data queue_write
  using queue_read_rep queue_peek_rep queue_size_rep queue_write_rep by unfold_locales auto

section \<open>Destroying and copying\<close>

lemma destroy_chain:
  assumes "chain (store q) p as" and "distinct as" and "dom (store q) = set as"
  shows "\<exists>q'. queue_destroy_loop p q = Some q' \<and> store q' = Map.empty"
  using assms
proof (induction as arbitrary: p q)
  case Nil
  then show ?case by (subst queue_destroy_loop.simps) simp
next
  case (Cons a as)
  obtain nd where nd: "follow p q = Some (a, nd)" "chain (store q) (next_node nd) as"
    using follow_chain[of q a as] Cons.prems(1) by auto
  have "p \<noteq> None" "a \<notin> set as" using Cons.prems by auto
  moreover from this have "chain (store (delete_node a q)) (next_node nd) as" "dom (store (delete_node a q)) = set as"
    using nd(2) Cons.prems by (auto simp: delete_node_def chain_other)
  ultimately show ?case using Cons.IH[of "delete_node a q" "next_node nd"] Cons.prems(2) nd(1)
    by (subst queue_destroy_loop.simps) simp
qed

lemma queue_destroy_rep:
  assumes "queue_rep q bs"
  shows "\<exists>q'. queue_destroy q = Some q' \<and> store q' = Map.empty \<and> head q' = None \<and> queue_rep q' []"
proof -
  obtain as where "chain (store q) (head q) as" "distinct as" "dom (store q) = set as" by (rule queue_repE[OF assms])
  from destroy_chain[OF this] obtain q' where "queue_destroy_loop (head q) q = Some q'" "store q' = Map.empty" by blast
  then show ?thesis by (auto simp: queue_destroy_def queue_rep_def queue_chain_def intro!: exI[of _ "[]"])
qed

lemma copy_chain:
  assumes "chain (store input) p as" and "queue_rep q bs"
  shows "\<exists>q'. queue_copy_loop p input q = Some q' \<and> queue_rep q' (bs @ chain_bytes (store input) as)"
  using assms
proof (induction as arbitrary: p q bs)
  case Nil
  then show ?case by (subst queue_copy_loop.simps) simp
next
  case (Cons a as)
  obtain nd where nd: "follow p input = Some (a, nd)" "store input a = Some nd" "node_ok nd" "chain (store input) (next_node nd) as"
    using follow_chain[of input a as] Cons.prems(1) by auto
  have p: "p \<noteq> None" using Cons.prems by auto
  have "take (node_end nd - node_start nd) (drop (node_start nd) (node_buffer nd)) = node_bytes nd"
    by (simp add: node_bytes_def drop_take)
  moreover obtain q1 where q1: "queue_write (node_bytes nd) q = Some q1" "queue_rep q1 (bs @ node_bytes nd)"
    using queue_write_rep[OF Cons.prems(2)] by blast
  ultimately show ?case using Cons.IH[OF nd(4) q1(2)] nd(1,2) p by (subst queue_copy_loop.simps) simp
qed

lemma new_head_rep: "queue_chain q [] \<Longrightarrow> queue_rep (new_head q) []"
  unfolding queue_rep_def using new_head_chain by metis

lemma new_queue_rep: "queue_rep new_SecureQueue []"
  unfolding new_SecureQueue_def by (rule new_head_rep) (simp add: queue_chain_def)

lemma queue_copy_rep:
  assumes "queue_rep input bs"
  shows "\<exists>q'. queue_copy input = Some q' \<and> queue_rep q' bs"
proof -
  obtain as where "chain (store input) (head input) as" "bs = chain_bytes (store input) as" by (rule queue_repE[OF assms])
  then show ?thesis using copy_chain[OF _ new_queue_rep] by (simp add: queue_copy_def)
qed

lemma queue_assign_rep:
  assumes "queue_rep input bs" and "queue_rep q cs"
  shows "\<exists>q'. queue_assign input q = Some q' \<and> queue_rep q' bs"
proof -
  obtain q1 where q1: "queue_destroy q = Some q1" "store q1 = Map.empty" "head q1 = None"
    using queue_destroy_rep[OF assms(2)] by blast
  then have n: "queue_rep (new_head q1) []" by (intro new_head_rep) (simp add: queue_chain_def)
  obtain as where "chain (store input) (head input) as" "bs = chain_bytes (store input) as" by (rule queue_repE[OF assms(1)])
  then show ?thesis using copy_chain[OF _ n] q1(1) by (simp add: queue_assign_def)
qed

lemma queue_calls:
  "\<exists>q. run_calls queue_read queue_peek queue_write cs new_SecureQueue = Some (fst (list_calls cs []), q) \<and>
    queue_rep q (snd (list_calls cs []))"
  using secure_queue.calls[OF new_queue_rep] .

section \<open>What the queue promises\<close>

text \<open>C39. The queue is a list of bytes. Any sequence of writes, reads and peeks on a new queue returns what it returns on
  a list; it never follows a pointer to a node that is not there, and ends. Afterwards \<open>size\<close> is the length of the
  list, a copy of the queue and a queue it is assigned to behave as it does from there on, and \<open>destroy\<close> deletes every
  node.\<close>

theorem secure_queue_refines:
  "\<exists>q p. run_calls queue_read queue_peek queue_write cs new_SecureQueue = Some (fst (list_calls cs []), q) \<and>
     run_calls queue_read queue_peek queue_write ds new_SecureQueue = Some (fst (list_calls ds []), p) \<and>
     queue_size q = Some (length (snd (list_calls cs []))) \<and>
     (\<exists>c r. queue_copy q = Some c \<and>
       run_calls queue_read queue_peek queue_write es c = Some (fst (list_calls es (snd (list_calls cs []))), r)) \<and>
     (\<exists>c r. queue_assign q p = Some c \<and>
       run_calls queue_read queue_peek queue_write es c = Some (fst (list_calls es (snd (list_calls cs []))), r)) \<and>
     (\<exists>d. queue_destroy q = Some d \<and> head d = None \<and> store d = Map.empty)"
proof -
  let ?bs = "snd (list_calls cs [])"
  obtain q p where q: "run_calls queue_read queue_peek queue_write cs new_SecureQueue = Some (fst (list_calls cs []), q)"
      "queue_rep q ?bs"
    and p: "run_calls queue_read queue_peek queue_write ds new_SecureQueue = Some (fst (list_calls ds []), p)"
      "queue_rep p (snd (list_calls ds []))"
    using queue_calls by blast
  obtain c where c: "queue_copy q = Some c" "queue_rep c ?bs" using queue_copy_rep[OF q(2)] by blast
  obtain a where a: "queue_assign q p = Some a" "queue_rep a ?bs" using queue_assign_rep[OF q(2) p(2)] by blast
  show ?thesis
    using q(1) p(1) queue_size_rep[OF q(2)] c(1) secure_queue.calls[OF c(2), of es] a(1) secure_queue.calls[OF a(2), of es]
      queue_destroy_rep[OF q(2)] by blast
qed

text \<open>C40. What has been written and not read is read: after any sequence of calls, a reader that asks for \<open>n + 1\<close> bytes at
  a time until \<open>end_of_data\<close> gets all bytes that are left, in order, and stops, and the queue still takes what is written
  then. A source in memory gives its bytes in the same way.\<close>

theorem sources_drain:
  "\<exists>q q'. run_calls queue_read queue_peek queue_write cs new_SecureQueue = Some (fst (list_calls cs []), q) \<and>
     read_until_end queue_read queue_end_of_data (n + 1) [] q = Some (snd (list_calls cs []), q') \<and>
     queue_end_of_data q' = Some True \<and>
     (\<exists>r. run_calls queue_read queue_peek queue_write ds q' = Some (fst (list_calls ds []), r)) \<and>
   (\<exists>s. read_until_end memory_read memory_end_of_data (n + 1) [] (new_DataSource_Memory m) = Some (m, s) \<and>
     memory_end_of_data s = Some True)"
proof -
  obtain q where q: "run_calls queue_read queue_peek queue_write cs new_SecureQueue = Some (fst (list_calls cs []), q)"
    "queue_rep q (snd (list_calls cs []))" using queue_calls by blast
  obtain q' where q': "read_until_end queue_read queue_end_of_data (n + 1) [] q = Some (snd (list_calls cs []), q')" "queue_rep q' []"
    using secure_queue.drain[OF q(2), of "n + 1" "[]"] by auto
  have "memory_rep (new_DataSource_Memory m) m" by (simp add: memory_rep_def new_DataSource_Memory_def)
  then obtain s where s: "read_until_end memory_read memory_end_of_data (n + 1) [] (new_DataSource_Memory m) = Some (m, s)"
    "memory_rep s []" using memory.drain[of _ m "n + 1" "[]"] by auto
  show ?thesis
    using q(1) q'(1) secure_queue.end_of_data[OF q'(2)] secure_queue.calls[OF q'(2), of ds] s(1) memory.end_of_data[OF s(2)]
    by auto
qed

end
