(* ===== verification/Spec2Isabelle.thy ===== *)
theory Spec2Isabelle
  imports MP_Properties BigInt_Properties Util_Properties Cipher_Properties Mode_Properties
    Hash_Properties MAC_Properties KDF_Properties
    Codec_Properties SecQueue
begin

text \<open>
  A verification library for the Botan 1.8.11 sources the repository php\_botan ships. All paths below are
  relative to \<open>src/Botan-1.8.11/src\<close>. The PHP side (\<open>src/php_botan.cc\<close>) only marshals arguments between the
  Zend engine and the library; the algorithms it offers are what is modelled here.

  \<^bold>\<open>Conventions.\<close> A word of the C++ type \<open>word\<close>, \<open>u32bit\<close>, \<open>byte\<close> is a HOL word of that width, so \<open>+\<close>, \<open>*\<close>
  and \<open>-\<close> wrap as in the code; the multi-precision routines are stated for every width \<open>'a::len word\<close>, since
  the build selects 8, 16, 32 or 64 bits. Arrays are lists, an index loop is \<open>for_up\<close> or \<open>for_down\<close> over
  its bounds, an update through a pointer into an array is \<open>at_ptr\<close>. An exception is a value of
  \<open>botan_error\<close> (theory \<open>Exceptn\<close>) on the left of a sum. A loop whose end is not obvious is \<open>while_option\<close> or
  \<open>partial_function\<close>, and its theorem says that it returns.

  \<^bold>\<open>Utilities.\<close> \<open>Prelude\<close> holds the loops, pointer updates and the word lemmas everything shares.
  \<open>SecMem\<close> is \<open>alloc/secmem.h\<close>: a buffer is an allocated array and a used size; the locale \<open>buffer\<close>
  abstracts it to a list and the rest of the library works on lists. \<open>LoadStore\<close> is \<open>utils/loadstor.h\<close>,
  \<open>rotate.h\<close>, \<open>bswap.h\<close>, \<open>bit_ops.h\<close> and \<open>xor_buf.h\<close>. \<open>Parsing\<close> is \<open>utils/parsing.cpp\<close> and
  \<open>utils/charset.cpp\<close>, \<open>X500_Names\<close> compares its name comparison with a definition on the words of the names.
  \<open>Util_Properties\<close> states their theorems.

  \<^bold>\<open>Multi-precision kernels\<close> (\<open>math/bigint\<close>). \<open>MP_Word\<close> is the value of a word array and the word operations
  of \<open>mp_asm.h\<close>, \<open>MP_Chain\<close> the carry chains and their eight-fold unrolling, \<open>MP_Linear\<close> addition, subtraction
  and multiplication by a word (\<open>mp_asm.cpp\<close>), \<open>MP_Mul\<close> the schoolbook product and Montgomery reduction,
  \<open>MP_Comba\<close> the unrolled column products, \<open>MP_Karatsuba\<close> the recursion and the selection among all of them,
  \<open>MP_Misc\<close> comparison and two-word division, \<open>MP_Shift\<close> shifts. \<open>MP_Properties\<close>: each routine
  computes the number it should, Karatsuba and comba equal the schoolbook product word for word.

  \<^bold>\<open>BigInt.\<close> \<open>BigInt\<close> is the class (\<open>bigint.h\<close>, \<open>bigint.cpp\<close>) as a record of register and sign,
  \<open>BigInt_Ops\<close> addition, subtraction and multiplication (\<open>big_ops2.cpp\<close>, \<open>big_ops3.cpp\<close>), \<open>BigInt_Shift\<close> shifts,
  comparison and word remainders, \<open>BigInt_Divide\<close> Knuth's division (\<open>divide.cpp\<close>), \<open>BigInt_Bytes\<close> the
  binary encoding. \<open>BigInt_Properties\<close>: every operator is the integer operation, preserves the invariant, and
  where it is not (a negative zero left by \<open>clear\<close> or \<open>%=\<close> by a power of two, \<open>(-n) - n\<close>, \<open>/=\<close> and \<open>%\<close> by powers of
  two) what it does instead.

  \<^bold>\<open>Block ciphers.\<close> \<open>BlockCipher\<close> holds the key length check of \<open>sym_algo.h\<close> and the locale
  \<open>block_cipher\<close>, a family of permutations of the blocks; \<open>TEA_Ciphers\<close>, \<open>Noekeon\<close>, \<open>RC_Ciphers\<close>, \<open>Skipjack\<close>,
  \<open>GOST\<close>, \<open>Blowfish\<close>, \<open>SEED\<close> and \<open>DES\<close> are \<open>block/*/*.cpp\<close>, each with its interpretation. \<open>Cipher_Properties\<close> states that
  decryption inverts encryption. The models evaluate to the outputs of the test vectors in
  \<open>checks/validate.dat\<close>.

  \<^bold>\<open>Modes of operation\<close> (\<open>modes\<close>). \<open>Mode_Padding\<close> is the padding methods (\<open>mode_pad\<close>), \<open>Mode_Base\<close> the state of a
  \<open>BlockCipherMode\<close> and the locale \<open>byte_machine\<close>: a filter that takes its input in pieces is a machine that takes
  bytes, one that handles a full buffer at once or when the next byte arrives. \<open>Mode_CBC\<close>, \<open>Mode_Stream\<close> (CTR, OFB,
  CFB), \<open>Mode_Block\<close> (ECB) and \<open>Mode_CTS\<close> are the filters; what they send is the list of their calls of \<open>send\<close> with
  nothing attached behind them. \<open>Mode_Properties\<close>: decryption returns the message for all ways to cut it and the
  ciphertext into pieces.

  \<^bold>\<open>Hash functions\<close> (\<open>hash\<close>). \<open>Hash_Base\<close> has the interface \<open>hash_function\<close> and the Merkle-Damgard construction
  (\<open>mdx_hash.cpp\<close>), \<open>Hash_Rounds\<close> the rounds with rotating registers; \<open>SHA160\<close>, \<open>MD4_MD5\<close>, \<open>SHA2\<close>, \<open>RIPEMD\<close>,
  \<open>HAS_FORK\<close>, \<open>TIGER\<close> and \<open>WHIRLPOOL\<close> are the compression functions. \<open>Hash_Properties\<close>: a message in any pieces has the
  digest of the padded message, the unrolled code is the loop of the standard, and what HAS-160 does instead.
  \<open>Checksum\<close> is \<open>checksum\<close> (Adler-32, CRC-24, CRC-32): the table-driven and unrolled updates are the sums and the
  bitwise division by the polynomial.

  \<^bold>\<open>Message authentication codes\<close> (\<open>mac\<close>). \<open>MAC_Base\<close> has the interface \<open>mac_function\<close> with \<open>set_key\<close> and
  \<open>verify_mac\<close>, \<open>HMAC\<close> the two MACs over a hash function, proved inside the locale \<open>clearing_hash\<close>, \<open>Cipher_MAC\<close> the
  three over a block cipher and \<open>Cipher_MAC_Proofs\<close> that they keep the contract; \<open>MAC_Properties\<close> states what follows
  for the algorithms of the library.

  \<^bold>\<open>Key derivation\<close> (\<open>kdf\<close>, \<open>s2k\<close>). \<open>KDF\<close> has KDF1, KDF2, MGF1, the PRFs of SSL 3 and TLS, PBKDF1, PBKDF2 and the
  OpenPGP S2K as clients of the interfaces of hash functions and MACs; \<open>KDF_Proofs\<close> proves inside those interfaces that
  they are the counter and feedback streams of the standards, \<open>KDF_Properties\<close> states it for the algorithms of the
  library, with the calls that fail and that the others return.

  \<^bold>\<open>Codecs\<close> (\<open>codec\<close>). \<open>Codec_Base\<close> has the locales \<open>block_encoder\<close> and \<open>block_decoder\<close>, filters that collect a
  buffer and code it when it is full; \<open>Codec_Hex\<close> and \<open>Codec_Base64\<close> are the filters of \<open>codec/hex\<close> and
  \<open>codec/base64\<close>, line breaks and the three treatments of bad characters included, \<open>PEM\<close> is \<open>codec/pem\<close>.
  \<open>Codec_Properties\<close>: decoding what was encoded returns the message, however both are cut into pieces.
  Where PEM compares a byte with a plain \<open>char\<close>, whether \<open>char\<close> is signed is an argument.

  \<^bold>\<open>Byte queue and sources\<close> (\<open>filters\<close>). \<open>SecQueue\<close> is \<open>secqueue.cpp\<close> and the memory source of \<open>data_src.cpp\<close>. The
  chain of nodes is an explicit store from addresses to nodes; \<open>None\<close> is an access through a dangling pointer or a
  loop that does not end, and the theorems say that neither happens. The locales \<open>data_source\<close> and
  \<open>byte_queue\<close> are what a reader relies on.

  \<^bold>\<open>Bounds.\<close> The recursion of Karatsuba needs no fuel: its sizes halve until the threshold 32. Division terminates
  by the number of words; the normalisation loop by the width of a word. The loops of key derivation end because a
  hash function has an output: they are partial functions and proved to return. Buffer sizes are natural numbers: sizes near
  \<open>2^32\<close>, where the 32-bit size arithmetic of the code would wrap, are outside the model.

  \<^bold>\<open>Not modelled.\<close> Allocators and their pools, the algorithm registry and library state, engines, random
  number generation and entropy (system calls), mutexes and clocks, ASN.1, certificates and messages, the
  curve arithmetic, and the assembly and vectorised variants of routines that have a portable version.
\<close>

end
